(* ===== verification/Perf_Prelude.thy ===== *)
theory Perf_Prelude
  imports Main
begin

text \<open>
  Shared vocabulary of the development: the errors a script can raise, the error monad
  on sums and its list iterator, the state-and-exception monad in which the page code is
  written, and the string functions of the language that the code calls
  (\<open>indexOf\<close>, \<open>split\<close>, \<open>join\<close>).
\<close>

named_theorems res_iff \<open>inversion rules: when a computation returns a given value\<close>

section \<open>Errors\<close>

text \<open>
  \<open>TypeError k\<close>: a property \<open>k\<close> is read of \<open>undefined\<close> or \<open>null\<close>, or an object that
  cannot become a primitive is converted. \<open>SyntaxError\<close>: \<open>JSON.parse\<close> refuses its
  argument. \<open>Thrown s\<close>: an exception raised by a library the scripts call.
  \<open>Outside s\<close>: the code leaves the part of the language the model covers (a property
  inherited from a built-in prototype is read); no theorem gives such a run a result.
\<close>

datatype jserr = TypeError string | SyntaxError | Thrown string | Outside string

type_synonym 'a res = "jserr + 'a"

section \<open>The error monad\<close>

definition bindE :: "'e + 'a \<Rightarrow> ('a \<Rightarrow> 'e + 'b) \<Rightarrow> 'e + 'b" where
  "bindE m f = (case m of Inl e \<Rightarrow> Inl e | Inr x \<Rightarrow> f x)"

lemma bindE_simps [simp]:
  "bindE (Inl e) f = Inl e"
  "bindE (Inr x) f = f x"
  by (simp_all add: bindE_def)

lemma bindE_Inr_iff [res_iff]: "bindE m f = Inr y \<longleftrightarrow> (\<exists>x. m = Inr x \<and> f x = Inr y)"
  by (cases m) simp_all

lemma bindE_Inl_iff:
  "bindE m f = Inl e \<longleftrightarrow> m = Inl e \<or> (\<exists>x. m = Inr x \<and> f x = Inl e)"
  by (cases m) simp_all

lemma bindE_cong [fundef_cong]:
  "m = m' \<Longrightarrow> (\<And>x. m' = Inr x \<Longrightarrow> f x = f' x) \<Longrightarrow> bindE m f = bindE m' f'"
  by (cases m') simp_all

text \<open>Iterating a fallible function over a list stops at the first error.\<close>

fun mapE :: "('a \<Rightarrow> 'e + 'b) \<Rightarrow> 'a list \<Rightarrow> 'e + 'b list" where
  "mapE f [] = Inr []"
| "mapE f (x # xs) = bindE (f x) (\<lambda>y. bindE (mapE f xs) (\<lambda>ys. Inr (y # ys)))"

lemma mapE_cong [fundef_cong]:
  "xs = ys \<Longrightarrow> (\<And>x. x \<in> set ys \<Longrightarrow> f x = g x) \<Longrightarrow> mapE f xs = mapE g ys"
proof (induction ys arbitrary: xs)
  case (Cons y ys)
  then have "mapE f ys = mapE g ys" by simp
  with Cons.prems show ?case by simp
qed simp

lemma mapE_total: "(\<And>x. x \<in> set xs \<Longrightarrow> f x = Inr (g x)) \<Longrightarrow> mapE f xs = Inr (map g xs)"
  by (induction xs) simp_all

lemma mapE_Inr_iff [res_iff]:
  "mapE f xs = Inr ys \<longleftrightarrow> list_all2 (\<lambda>x y. f x = Inr y) xs ys"
proof (induction xs arbitrary: ys)
  case Nil
  then show ?case by auto
next
  case (Cons x xs)
  then show ?case by (cases ys) (auto simp: bindE_Inr_iff)
qed

lemma mapE_append:
  "mapE f (xs @ ys) = bindE (mapE f xs) (\<lambda>us. bindE (mapE f ys) (\<lambda>vs. Inr (us @ vs)))"
proof (induction xs)
  case Nil
  then show ?case by (cases "mapE f ys") simp_all
next
  case (Cons x xs)
  then show ?case by (cases "f x"; cases "mapE f xs"; cases "mapE f ys") simp_all
qed

lemma mapE_Inl_iff:
  "mapE f xs = Inl e \<longleftrightarrow>
     (\<exists>us x vs. xs = us @ x # vs \<and> (\<forall>u \<in> set us. \<exists>y. f u = Inr y) \<and> f x = Inl e)"
  (is "?L \<longleftrightarrow> ?R")
proof
  show "?L \<Longrightarrow> ?R"
  proof (induction xs)
    case (Cons x xs)
    show ?case
    proof (cases "f x")
      case (Inl e')
      with Cons.prems have "f x = Inl e" by simp
      then show ?thesis by (intro exI [of _ "[]"]) auto
    next
      case (Inr y)
      with Cons.prems have "mapE f xs = Inl e" by (auto simp: bindE_Inl_iff)
      then obtain us z vs where "xs = us @ z # vs" "\<forall>u \<in> set us. \<exists>y. f u = Inr y" "f z = Inl e"
        using Cons.IH by blast
      with Inr show ?thesis by (intro exI [of _ "x # us"]) auto
    qed
  qed simp
next
  assume ?R
  then obtain us x vs where xs: "xs = us @ x # vs"
    and us: "\<forall>u \<in> set us. \<exists>y. f u = Inr y" and x: "f x = Inl e" by blast
  from us have "\<exists>ys. mapE f us = Inr ys" by (induction us) auto
  with x show ?L by (auto simp: xs mapE_append)
qed

lemma mapE_length: "mapE f xs = Inr ys \<Longrightarrow> length ys = length xs"
  by (auto simp: mapE_Inr_iff dest: list_all2_lengthD)

section \<open>State with exceptions\<close>

text \<open>
  A statement of a script runs on the page state; an exception keeps the state it has
  reached, so the state is returned in both cases.
\<close>

type_synonym ('s, 'a) act = "'s \<Rightarrow> 'a res \<times> 's"

definition retA :: "'a \<Rightarrow> ('s, 'a) act" where
  "retA x = (\<lambda>s. (Inr x, s))"

definition liftA :: "'a res \<Rightarrow> ('s, 'a) act" where
  "liftA r = (\<lambda>s. (r, s))"

definition bindA :: "('s, 'a) act \<Rightarrow> ('a \<Rightarrow> ('s, 'b) act) \<Rightarrow> ('s, 'b) act" where
  "bindA m f = (\<lambda>s. case m s of (Inl e, t) \<Rightarrow> (Inl e, t) | (Inr x, t) \<Rightarrow> f x t)"

definition getA :: "('s \<Rightarrow> 'a) \<Rightarrow> ('s, 'a) act" where
  "getA g = (\<lambda>s. (Inr (g s), s))"

definition modifyA :: "('s \<Rightarrow> 's) \<Rightarrow> ('s, unit) act" where
  "modifyA f = (\<lambda>s. (Inr (), f s))"

fun eachA :: "('a \<Rightarrow> ('s, unit) act) \<Rightarrow> 'a list \<Rightarrow> ('s, unit) act" where
  "eachA f [] = retA ()"
| "eachA f (x # xs) = bindA (f x) (\<lambda>_. eachA f xs)"

lemma act_simps [simp]:
  "retA x s = (Inr x, s)"
  "liftA r s = (r, s)"
  "getA g s = (Inr (g s), s)"
  "modifyA f s = (Inr (), f s)"
  by (simp_all add: retA_def liftA_def getA_def modifyA_def)

lemma bindA_Inl [simp]: "m s = (Inl e, t) \<Longrightarrow> bindA m f s = (Inl e, t)"
  by (simp add: bindA_def)

lemma bindA_Inr [simp]: "m s = (Inr x, t) \<Longrightarrow> bindA m f s = f x t"
  by (simp add: bindA_def)

lemma bindA_Inr_iff [res_iff]:
  "bindA m f s = (Inr y, u) \<longleftrightarrow> (\<exists>x t. m s = (Inr x, t) \<and> f x t = (Inr y, u))"
  by (auto simp: bindA_def split: prod.splits sum.splits)

text \<open>An invariant kept by the body of an iteration is kept by the whole iteration.\<close>

lemma bindA_invariant:
  assumes "\<And>t. I t \<Longrightarrow> I (snd (m t))" and "\<And>x t. I t \<Longrightarrow> I (snd (f x t))" and "I s"
  shows "I (snd (bindA m f s))"
proof -
  have "I (snd (m s))" using assms(1,3) by blast
  then show ?thesis
    using assms(2) by (auto simp: bindA_def split: prod.splits sum.splits)
qed

lemma eachA_invariant:
  assumes "\<And>x t. x \<in> set xs \<Longrightarrow> I t \<Longrightarrow> I (snd (f x t))" and "I s"
  shows "I (snd (eachA f xs s))"
  using assms
proof (induction xs arbitrary: s)
  case (Cons x xs)
  have "I (snd (f x s))" using Cons.prems by simp
  moreover have "I (snd (eachA f xs t))" if "I t" for t using Cons that by simp
  ultimately show ?case by (auto simp: bindA_def split: prod.splits sum.splits)
qed simp

lemma eachA_append:
  "eachA f (xs @ ys) s = bindA (eachA f xs) (\<lambda>_. eachA f ys) s"
  by (induction xs arbitrary: s) (auto simp: bindA_def split: prod.splits sum.splits)

section \<open>Strings of the language\<close>

text \<open>\<open>String.prototype.indexOf\<close>: the first position of a substring, -1 if there is none.\<close>

fun starts_with :: "'a list \<Rightarrow> 'a list \<Rightarrow> bool" where
  "starts_with [] ys = True"
| "starts_with (x # xs) [] = False"
| "starts_with (x # xs) (y # ys) = (x = y \<and> starts_with xs ys)"

fun index_from :: "int \<Rightarrow> 'a list \<Rightarrow> 'a list \<Rightarrow> int" where
  "index_from i [] p = (if p = [] then i else - 1)"
| "index_from i (x # xs) p = (if starts_with p (x # xs) then i else index_from (i + 1) xs p)"

definition index_of :: "'a list \<Rightarrow> 'a list \<Rightarrow> int" where
  "index_of s p = index_from 0 s p"

lemma starts_with_iff: "starts_with p s \<longleftrightarrow> (\<exists>t. s = p @ t)"
  by (induction p s rule: starts_with.induct) auto

lemma index_from_iff:
  assumes "0 \<le> i"
  shows "index_from i s p = - 1 \<longleftrightarrow> \<not> (\<exists>u v. s = u @ p @ v)"
  using assms
proof (induction s arbitrary: i)
  case Nil
  then show ?case by auto
next
  case (Cons x xs)
  show ?case
  proof (cases "starts_with p (x # xs)")
    case True
    then obtain t where "x # xs = [] @ p @ t" by (auto simp: starts_with_iff)
    moreover have "index_from i (x # xs) p \<noteq> - 1" using True Cons.prems by simp
    ultimately show ?thesis by blast
  next
    case False
    have "(\<exists>u v. x # xs = u @ p @ v) \<longleftrightarrow> (\<exists>u v. xs = u @ p @ v)"
    proof
      assume "\<exists>u v. x # xs = u @ p @ v"
      then obtain u v where uv: "x # xs = u @ p @ v" by blast
      with False have "u \<noteq> []" by (auto simp: starts_with_iff)
      with uv obtain u' where "xs = u' @ p @ v" by (cases u) auto
      then show "\<exists>u v. xs = u @ p @ v" by blast
    next
      assume "\<exists>u v. xs = u @ p @ v"
      then obtain u v where "x # xs = (x # u) @ p @ v" by auto
      then show "\<exists>u v. x # xs = u @ p @ v" by blast
    qed
    with False Cons show ?thesis by simp
  qed
qed

lemma index_of_absent: "index_of s p = - 1 \<longleftrightarrow> \<not> (\<exists>u v. s = u @ p @ v)"
  by (simp add: index_of_def index_from_iff)

text \<open>\<open>String.prototype.split\<close> with a one-character separator, and \<open>Array.prototype.join\<close>.\<close>

fun split_chr :: "'a \<Rightarrow> 'a list \<Rightarrow> 'a list list" where
  "split_chr c [] = [ [] ]"
| "split_chr c (x # xs) =
     (if x = c then [] # split_chr c xs
      else (case split_chr c xs of [] \<Rightarrow> [ [x] ] | w # ws \<Rightarrow> (x # w) # ws))"

fun join :: "'a list \<Rightarrow> 'a list list \<Rightarrow> 'a list" where
  "join sep [] = []"
| "join sep [w] = w"
| "join sep (w # ws) = w @ sep @ join sep ws"

lemma split_chr_nonempty [simp]: "split_chr c s \<noteq> []"
  by (induction s) (auto split: list.splits)

lemma join_Cons: "ws \<noteq> [] \<Longrightarrow> join sep (w # ws) = w @ sep @ join sep ws"
  by (cases ws) simp_all

lemma join_split_chr: "join [c] (split_chr c s) = s"
proof (induction s)
  case (Cons x xs)
  show ?case
  proof (cases "split_chr c xs")
    case (Cons w ws)
    with Cons.IH show ?thesis by (cases ws) (auto simp: join_Cons)
  qed simp
qed simp

lemma split_chr_parts: "w \<in> set (split_chr c s) \<Longrightarrow> c \<notin> set w"
proof (induction s arbitrary: w)
  case (Cons x xs)
  then show ?case by (cases "split_chr c xs") (auto split: if_splits)
qed simp

lemma split_chr_none: "c \<notin> set s \<Longrightarrow> split_chr c s = [s]"
  by (induction s) auto

lemma split_chr_append:
  "c \<notin> set w \<Longrightarrow> split_chr c (w @ c # s) = w # split_chr c s"
  by (induction w) auto

lemma split_chr_join:
  "ws \<noteq> [] \<Longrightarrow> (\<And>w. w \<in> set ws \<Longrightarrow> c \<notin> set w) \<Longrightarrow> split_chr c (join [c] ws) = ws"
proof (induction ws)
  case (Cons w ws)
  then show ?case
    by (cases ws) (auto simp: split_chr_none split_chr_append)
qed simp

end
