(* ===== verification/Js_Number.thy ===== *)
theory Js_Number
  imports Perf_Prelude Complex_Main
begin

text \<open>
  The numbers of the language: IEEE 754 double precision values with rounding to nearest,
  ties to even. A finite value is the rational it denotes; \<open>rnd\<close> rounds a rational to a
  double, and a rational is a double when it rounds to itself. The sign of zero is left
  out: no operation of the scripts can tell the two zeros apart (they divide by the
  constants 2 and 1000 only, and both print as 0).
\<close>

section \<open>Magnitudes: powers, digit counts, integer logarithms\<close>

definition bpow :: "nat \<Rightarrow> int \<Rightarrow> rat" where
  "bpow b e = (if 0 \<le> e then of_nat (b ^ nat e) else 1 / of_nat (b ^ nat (- e)))"

lemma bpow_powi: "bpow b e = (of_nat b) powi e"
  by (simp add: bpow_def power_int_def inverse_eq_divide power_one_over)

lemma bpow_pos [simp]: "0 < b \<Longrightarrow> 0 < bpow b e"
  by (simp add: bpow_powi)

lemma bpow_nonneg [simp]: "0 \<le> bpow b e"
  by (simp add: bpow_def)

lemma bpow_0 [simp]: "bpow b 0 = 1"
  by (simp add: bpow_def)

lemma bpow_1 [simp]: "bpow b 1 = of_nat b"
  by (simp add: bpow_powi)

lemma bpow_add: "0 < b \<Longrightarrow> bpow b (i + j) = bpow b i * bpow b j"
  by (simp add: bpow_powi power_int_add)

lemma bpow_diff: "0 < b \<Longrightarrow> bpow b (i - j) = bpow b i / bpow b j"
  by (simp add: bpow_powi power_int_diff)

lemma bpow_mono: "0 < b \<Longrightarrow> i \<le> j \<Longrightarrow> bpow b i \<le> bpow b j"
  by (simp add: bpow_powi power_int_increasing)

lemma bpow_less_iff:
  assumes "2 \<le> b"
  shows "bpow b i < bpow b j \<longleftrightarrow> i < j"
proof
  assume "bpow b i < bpow b j"
  then show "i < j" using bpow_mono [of b j i] assms by linarith
next
  assume "i < j"
  then show "bpow b i < bpow b j"
    using assms by (simp add: bpow_powi power_int_strict_increasing)
qed

lemma bpow_nat: "bpow b (int n) = of_nat (b ^ n)"
  by (simp add: bpow_def)

fun ndigits :: "nat \<Rightarrow> nat \<Rightarrow> nat" where
  "ndigits b n = (if b < 2 \<or> n < b then 1 else Suc (ndigits b (n div b)))"

declare ndigits.simps [simp del]

lemma ndigits_bounds:
  "2 \<le> b \<Longrightarrow> 0 < n \<Longrightarrow> b ^ (ndigits b n - 1) \<le> n \<and> n < b ^ ndigits b n"
proof (induction b n rule: ndigits.induct)
  case (1 b n)
  show ?case
  proof (cases "n < b")
    case True
    with "1.prems" show ?thesis by (simp add: ndigits.simps [of b n])
  next
    case False
    let ?k = "ndigits b (n div b)"
    have pos: "0 < n div b" using False "1.prems" by (simp add: div_greater_zero_iff)
    then have IH: "b ^ (?k - 1) \<le> n div b" "n div b < b ^ ?k"
      using "1.IH" "1.prems" False by auto
    have k: "0 < ?k" by (simp add: ndigits.simps [of b "n div b"])
    have "b ^ ?k = b * b ^ (?k - 1)" using k by (cases ?k) simp_all
    also have "\<dots> \<le> b * (n div b)" using IH(1) by simp
    also have "\<dots> \<le> n" by simp
    finally have low: "b ^ ?k \<le> n" .
    have "n < b * (n div b) + b" using "1.prems" by (metis add.commute dividend_less_times_div gr0I not_numeral_le_zero)
    also have "\<dots> = b * (n div b + 1)" by (simp add: algebra_simps)
    also have "\<dots> \<le> b * b ^ ?k" using IH(2) by (intro mult_le_mono2) simp
    finally have "n < b ^ Suc ?k" by simp
    with low False "1.prems" show ?thesis by (simp add: ndigits.simps [of b n])
  qed
qed

text \<open>
  The integer part of the base-\<open>b\<close> logarithm of a positive rational, from the digit counts
  of its numerator and denominator.
\<close>

definition flogb :: "nat \<Rightarrow> rat \<Rightarrow> int" where
  "flogb b q =
     (let (n, d) = quotient_of q;
          k = int (ndigits b (nat n)) - int (ndigits b (nat d))
      in if bpow b k \<le> q then k else k - 1)"

lemma ndigits_pos: "0 < ndigits b n"
  by (simp add: ndigits.simps [of b n])

lemma ndigits_rat:
  assumes "2 \<le> b" and "0 < m"
  shows "bpow b (int (ndigits b (nat m)) - 1) \<le> of_int m"
    and "of_int m < bpow b (int (ndigits b (nat m)))"
proof -
  have bd: "b ^ (ndigits b (nat m) - 1) \<le> nat m" "nat m < b ^ ndigits b (nat m)"
    using ndigits_bounds [of b "nat m"] assms by auto
  have m: "(of_int m :: rat) = of_nat (nat m)" using assms by simp
  have "int (ndigits b (nat m)) - 1 = int (ndigits b (nat m) - 1)"
    using ndigits_pos [of b "nat m"] by (simp add: of_nat_diff)
  then have "bpow b (int (ndigits b (nat m)) - 1) = of_nat (b ^ (ndigits b (nat m) - 1))"
    by (simp only: bpow_nat)
  then show "bpow b (int (ndigits b (nat m)) - 1) \<le> of_int m"
    unfolding m using bd(1) by (simp only: of_nat_le_iff)
  show "of_int m < bpow b (int (ndigits b (nat m)))"
    unfolding m bpow_nat using bd(2) by (simp only: of_nat_less_iff)
qed

lemma ratio_bounds:
  assumes b: "2 \<le> b" and n: "0 < n" and d: "0 < d"
  defines "k \<equiv> int (ndigits b (nat n)) - int (ndigits b (nat d))"
  shows "bpow b (k - 1) \<le> of_int n / of_int d" and "of_int n / of_int d < bpow b (k + 1)"
proof -
  let ?N = "int (ndigits b (nat n))" and ?D = "int (ndigits b (nat d))"
  have b0: "0 < b" using b by simp
  note N = ndigits_rat [OF b n] and D = ndigits_rat [OF b d]
  have "bpow b (k - 1) = bpow b ((?N - 1) - ?D)" by (simp add: k_def algebra_simps)
  also have "\<dots> = bpow b (?N - 1) / bpow b ?D" by (rule bpow_diff [OF b0])
  also have "\<dots> \<le> of_int n / of_int d"
    using N(1) D(2) d n by (intro frac_le) auto
  finally show "bpow b (k - 1) \<le> of_int n / of_int d" .
  have "of_int n / of_int d < bpow b ?N / bpow b (?D - 1)"
    using N(2) D(1) d n b0 by (intro frac_less) auto
  also have "\<dots> = bpow b (?N - (?D - 1))" by (rule bpow_diff [OF b0, symmetric])
  also have "\<dots> = bpow b (k + 1)" by (simp add: k_def algebra_simps)
  finally show "of_int n / of_int d < bpow b (k + 1)" .
qed

lemma flogb_bounds:
  assumes b: "2 \<le> b" and q: "0 < q"
  shows "bpow b (flogb b q) \<le> q \<and> q < bpow b (flogb b q + 1)"
proof -
  obtain n d where nd: "quotient_of q = (n, d)" by fastforce
  have d0: "0 < d" using nd by (rule quotient_of_denom_pos)
  have qe: "q = of_int n / of_int d" using nd by (rule quotient_of_div)
  have n0: "0 < n" using q d0 by (simp add: qe zero_less_divide_iff)
  show ?thesis
    using ratio_bounds [OF b n0 d0] by (auto simp: flogb_def nd Let_def qe [symmetric])
qed

lemma flogb_unique:
  assumes "2 \<le> b" and "bpow b e \<le> q" and "q < bpow b (e + 1)"
  shows "flogb b q = e"
proof -
  have "0 < bpow b e" using assms(1) by simp
  with assms(2) have q: "0 < q" by linarith
  have "bpow b e < bpow b (flogb b q + 1)" "bpow b (flogb b q) < bpow b (e + 1)"
    using assms flogb_bounds [OF assms(1) q] by linarith+
  with assms(1) show ?thesis by (auto simp: bpow_less_iff)
qed

lemma flogb_mono:
  assumes "2 \<le> b" and "0 < p" and "p \<le> q"
  shows "flogb b p \<le> flogb b q"
proof -
  have "bpow b (flogb b p) < bpow b (flogb b q + 1)"
    using assms flogb_bounds [of b p] flogb_bounds [of b q] by linarith
  with assms(1) show ?thesis by (auto simp: bpow_less_iff)
qed

section \<open>Rounding to nearest, ties to even\<close>

definition rhe :: "rat \<Rightarrow> int" where
  "rhe x =
     (let f = \<lfloor>x\<rfloor>; r = x - of_int f
      in if r < 1 / 2 \<or> (r = 1 / 2 \<and> even f) then f else f + 1)"

lemma rhe_of_int [simp]: "rhe (of_int i) = i"
  by (simp add: rhe_def)

lemma rhe_error: "\<bar>of_int (rhe x) - x\<bar> \<le> 1 / 2"
proof -
  define f where "f = \<lfloor>x\<rfloor>"
  have "of_int f \<le> x" "x < of_int f + 1" by (auto simp: f_def) linarith
  then show ?thesis by (auto simp: rhe_def Let_def f_def [symmetric] abs_le_iff)
qed

lemma rhe_mono:
  assumes "x \<le> y"
  shows "rhe x \<le> rhe y"
proof (rule ccontr)
  assume "\<not> rhe x \<le> rhe y"
  then have *: "rhe y + 1 \<le> rhe x" by simp
  have fl: "\<lfloor>x\<rfloor> \<le> \<lfloor>y\<rfloor>" using assms by (rule floor_mono)
  have "\<lfloor>y\<rfloor> \<le> rhe y" "rhe x \<le> \<lfloor>x\<rfloor> + 1" by (auto simp: rhe_def Let_def)
  with * fl have eq: "\<lfloor>x\<rfloor> = \<lfloor>y\<rfloor>" "rhe x = \<lfloor>x\<rfloor> + 1" "rhe y = \<lfloor>y\<rfloor>" by linarith+
  with assms show False by (auto simp: rhe_def Let_def split: if_splits)
qed

lemma rhe_le_int: "x \<le> of_int i \<Longrightarrow> rhe x \<le> i"
  using rhe_mono [of x "of_int i"] by simp

lemma rhe_ge_int: "of_int i \<le> x \<Longrightarrow> i \<le> rhe x"
  using rhe_mono [of "of_int i" x] by simp

text \<open>The exponent of the last significant bit of a positive magnitude; 52 fraction bits, and
  the subnormal numbers share the exponent -1074.\<close>

definition lsb :: "rat \<Rightarrow> int" where
  "lsb q = max (flogb 2 q - 52) (- 1074)"

definition rnd_mag :: "rat \<Rightarrow> rat" where
  "rnd_mag q = of_int (rhe (q / bpow 2 (lsb q))) * bpow 2 (lsb q)"

lemma lsb_mono: "0 < p \<Longrightarrow> p \<le> q \<Longrightarrow> lsb p \<le> lsb q"
  using flogb_mono [of 2 p q] by (auto simp: lsb_def)

lemma lsb_upper:
  assumes "0 < q"
  shows "q < bpow 2 (lsb q + 53)"
proof -
  have "flogb 2 q + 1 \<le> lsb q + 53" by (simp add: lsb_def)
  then have "bpow 2 (flogb 2 q + 1) \<le> bpow 2 (lsb q + 53)" by (intro bpow_mono) auto
  then show ?thesis using flogb_bounds [of 2 q] assms by linarith
qed

lemma lsb_lower:
  assumes "0 < q" and "- 1074 < lsb q"
  shows "bpow 2 (lsb q + 52) \<le> q"
proof -
  have "lsb q + 52 = flogb 2 q" using assms by (auto simp: lsb_def)
  then show ?thesis using flogb_bounds [of 2 q] assms by simp
qed

lemma rnd_mag_le:
  assumes "0 < q" and "q \<le> of_int m * bpow 2 (lsb q)"
  shows "rnd_mag q \<le> of_int m * bpow 2 (lsb q)"
proof -
  have "q / bpow 2 (lsb q) \<le> of_int m" using assms by (simp add: divide_le_eq)
  then have "rhe (q / bpow 2 (lsb q)) \<le> m" by (rule rhe_le_int)
  then show ?thesis by (simp add: rnd_mag_def mult_right_mono)
qed

lemma rnd_mag_ge:
  assumes "0 < q" and "of_int m * bpow 2 (lsb q) \<le> q"
  shows "of_int m * bpow 2 (lsb q) \<le> rnd_mag q"
proof -
  have "of_int m \<le> q / bpow 2 (lsb q)" using assms by (simp add: le_divide_eq)
  then have "m \<le> rhe (q / bpow 2 (lsb q))" by (rule rhe_ge_int)
  then show ?thesis by (simp add: rnd_mag_def mult_right_mono)
qed

lemma rnd_mag_multiple: "q = of_int m * bpow 2 (lsb q) \<Longrightarrow> rnd_mag q = q"
  by (simp add: rnd_mag_def divide_eq_eq) (metis bpow_pos less_irrefl nonzero_mult_div_cancel_right rhe_of_int zero_less_numeral)

lemma bpow2_shift: "bpow 2 (e + int k) = of_int (2 ^ k) * bpow 2 e"
  by (simp add: bpow_add bpow_nat)

lemma rnd_mag_binade:
  assumes "0 < q"
  shows "rnd_mag q \<le> bpow 2 (lsb q + 53)"
    and "- 1074 < lsb q \<Longrightarrow> bpow 2 (lsb q + 52) \<le> rnd_mag q"
    and "0 \<le> rnd_mag q"
proof -
  have u: "bpow 2 (lsb q + 53) = of_int (2 ^ 53) * bpow 2 (lsb q)"
    using bpow2_shift [of "lsb q" 53] by simp
  have l: "bpow 2 (lsb q + 52) = of_int (2 ^ 52) * bpow 2 (lsb q)"
    using bpow2_shift [of "lsb q" 52] by simp
  show "rnd_mag q \<le> bpow 2 (lsb q + 53)"
    unfolding u using lsb_upper [OF assms] by (intro rnd_mag_le assms) (simp add: u)
  show "bpow 2 (lsb q + 52) \<le> rnd_mag q" if "- 1074 < lsb q"
    unfolding l using lsb_lower [OF assms that] by (intro rnd_mag_ge assms) (simp add: l)
  show "0 \<le> rnd_mag q" using rnd_mag_ge [of q 0] assms by simp
qed

lemma rnd_mag_mono:
  assumes "0 < p" and "p \<le> q"
  shows "rnd_mag p \<le> rnd_mag q"
proof (cases "lsb p = lsb q")
  case True
  have "p / bpow 2 (lsb q) \<le> q / bpow 2 (lsb q)"
    using assms by (intro divide_right_mono) auto
  then have "rhe (p / bpow 2 (lsb q)) \<le> rhe (q / bpow 2 (lsb q))" by (rule rhe_mono)
  then show ?thesis by (simp add: rnd_mag_def True mult_right_mono)
next
  case False
  with lsb_mono [OF assms] have lt: "lsb p < lsb q" by simp
  then have "- 1074 < lsb q" by (auto simp: lsb_def)
  then have "bpow 2 (lsb q + 52) \<le> rnd_mag q"
    using rnd_mag_binade(2) [of q] assms by simp
  moreover have "rnd_mag p \<le> bpow 2 (lsb p + 53)" using assms by (intro rnd_mag_binade)
  moreover have "bpow 2 (lsb p + 53) \<le> bpow 2 (lsb q + 52)" using lt by (intro bpow_mono) auto
  ultimately show ?thesis by linarith
qed

text \<open>A magnitude with at most 53 significant bits above the exponent -1074 is exact.\<close>

lemma rnd_mag_exact:
  assumes m: "0 < m" "m \<le> 2 ^ 53" and e: "- 1074 \<le> e"
  shows "rnd_mag (of_int m * bpow 2 e) = of_int m * bpow 2 e"
proof -
  let ?q = "of_int m * bpow 2 e"
  have q0: "0 < ?q" using m by simp
  show ?thesis
  proof (cases "lsb ?q \<le> e")
    case True
    then obtain k where k: "e = lsb ?q + int k" by (metis zle_iff_zadd)
    have "?q = of_int (m * 2 ^ k) * bpow 2 (lsb ?q)"
      using k bpow2_shift [of "lsb ?q" k] by simp
    then show ?thesis by (rule rnd_mag_multiple)
  next
    case False
    then have gt: "e < lsb ?q" by simp
    with e have "bpow 2 (lsb ?q + 52) \<le> ?q" by (intro lsb_lower q0) simp
    moreover have "bpow 2 (e + 53) \<le> bpow 2 (lsb ?q + 52)" using gt by (intro bpow_mono) auto
    moreover have "?q \<le> bpow 2 (e + 53)"
    proof -
      have "bpow 2 (e + 53) = of_int (2 ^ 53) * bpow 2 e" using bpow2_shift [of e 53] by simp
      moreover have "(of_int m :: rat) \<le> of_int (2 ^ 53)" using m(2) by (simp only: of_int_le_iff)
      ultimately show ?thesis by (simp add: mult_right_mono)
    qed
    ultimately have q53: "?q = bpow 2 (e + 53)" by simp
    then have "flogb 2 ?q = e + 53" by (intro flogb_unique) (auto simp: bpow_less_iff)
    then have "lsb ?q = e + 1" using e gt by (auto simp: lsb_def)
    then have "?q = of_int (2 ^ 52) * bpow 2 (lsb ?q)"
      using q53 bpow2_shift [of "e + 1" 52] by (simp add: add.commute)
    then show ?thesis by (rule rnd_mag_multiple)
  qed
qed

lemma rnd_mag_idem:
  assumes "0 < q"
  shows "rnd_mag (rnd_mag q) = rnd_mag q \<or> rnd_mag q = 0"
proof -
  let ?m = "rhe (q / bpow 2 (lsb q))"
  have eq: "rnd_mag q = of_int ?m * bpow 2 (lsb q)" by (rule rnd_mag_def)
  have "of_int ?m * bpow 2 (lsb q) \<le> of_int (2 ^ 53) * bpow 2 (lsb q)"
    using rnd_mag_binade(1) [OF assms] bpow2_shift [of "lsb q" 53] eq by simp
  then have "?m \<le> 2 ^ 53" by (simp only: mult_le_cancel_right bpow_pos) (simp flip: of_int_le_iff)
  moreover have "0 \<le> ?m" using assms by (intro rhe_ge_int) simp
  ultimately show ?thesis
    using rnd_mag_exact [of ?m "lsb q"] eq by (cases "?m = 0") (auto simp: lsb_def)
qed

section \<open>Doubles and their arithmetic\<close>

datatype dbl = NaN | PInf | NInf | Fin rat

definition rnd :: "rat \<Rightarrow> dbl" where
  "rnd q =
     (if q = 0 then Fin 0
      else let m = rnd_mag \<bar>q\<bar>
           in if bpow 2 1024 \<le> m then (if 0 < q then PInf else NInf)
              else Fin (if 0 < q then m else - m))"

fun wf_dbl :: "dbl \<Rightarrow> bool" where
  "wf_dbl (Fin q) = (rnd q = Fin q)"
| "wf_dbl _ = True"

lemma rnd_0 [simp]: "rnd 0 = Fin 0"
  by (simp add: rnd_def)

lemma rnd_mag_pos_idem: "0 < q \<Longrightarrow> 0 < rnd_mag q \<Longrightarrow> rnd_mag (rnd_mag q) = rnd_mag q"
  using rnd_mag_idem [of q] by auto

lemma wf_rnd [simp]: "wf_dbl (rnd q)"
proof (cases "q = 0")
  case False
  define m where "m = rnd_mag \<bar>q\<bar>"
  have "0 \<le> m" using rnd_mag_binade(3) [of "\<bar>q\<bar>"] False by (simp add: m_def)
  moreover have "rnd_mag m = m" if "0 < m"
    using rnd_mag_pos_idem [of "\<bar>q\<bar>"] False that by (simp add: m_def)
  ultimately show ?thesis
    using False by (cases "m = 0") (auto simp: rnd_def Let_def m_def [symmetric])
qed simp

lemma rnd_exact:
  assumes "\<bar>m\<bar> \<le> 2 ^ 53" and "- 1074 \<le> e" and "\<bar>of_int m * bpow 2 e\<bar> < bpow 2 1024"
  shows "rnd (of_int m * bpow 2 e) = Fin (of_int m * bpow 2 e)"
proof (cases "m = 0")
  case False
  have abs: "\<bar>of_int m * bpow 2 e\<bar> = of_int \<bar>m\<bar> * bpow 2 e" by (simp add: abs_mult)
  have "rnd_mag (of_int \<bar>m\<bar> * bpow 2 e) = of_int \<bar>m\<bar> * bpow 2 e"
    using assms False by (intro rnd_mag_exact) auto
  then show ?thesis
    using assms(3) False abs by (auto simp: rnd_def Let_def zero_less_mult_iff not_less abs_if split: if_splits)
qed simp

lemma pow1024: "bpow 2 1024 = of_nat (2 ^ 1024)"
  using bpow_nat [of 2 1024] by simp

lemma rnd_int: "\<bar>i\<bar> \<le> 2 ^ 53 \<Longrightarrow> rnd (of_int i) = Fin (of_int i)"
proof -
  assume i: "\<bar>i\<bar> \<le> 2 ^ 53"
  have "(of_int \<bar>i\<bar> :: rat) \<le> of_int (2 ^ 53)" using i by (simp only: of_int_le_iff)
  moreover have "(of_int (2 ^ 53) :: rat) = bpow 2 53" using bpow_nat [of 2 53] by simp
  moreover have "bpow 2 53 < bpow 2 1024" by (simp only: bpow_less_iff)
  ultimately have "\<bar>of_int i * bpow 2 0\<bar> < bpow 2 1024" by simp
  then show ?thesis using rnd_exact [of i 0] i by simp
qed

lemma wf_int: "\<bar>i\<bar> \<le> 2 ^ 53 \<Longrightarrow> wf_dbl (Fin (of_int i))"
  by (simp add: rnd_int)

lemma wf_Fin_0 [simp]: "wf_dbl (Fin 0)"
  by simp

text \<open>The operators of the language on numbers.\<close>

fun dbl_neg :: "dbl \<Rightarrow> dbl" where
  "dbl_neg NaN = NaN"
| "dbl_neg PInf = NInf"
| "dbl_neg NInf = PInf"
| "dbl_neg (Fin q) = Fin (- q)"

instantiation dbl :: "{zero, one, plus, times, ord}"
begin

definition zero_dbl :: dbl where "0 = Fin 0"

definition one_dbl :: dbl where "1 = Fin 1"

fun plus_dbl :: "dbl \<Rightarrow> dbl \<Rightarrow> dbl" where
  "Fin a + Fin b = rnd (a + b)"
| "NaN + y = NaN"
| "x + NaN = NaN"
| "PInf + NInf = NaN"
| "NInf + PInf = NaN"
| "PInf + y = PInf"
| "NInf + y = NInf"
| "x + PInf = PInf"
| "x + NInf = NInf"

definition times_dbl :: "dbl \<Rightarrow> dbl \<Rightarrow> dbl" where
  "x * y =
     (case (x, y) of
        (NaN, _) \<Rightarrow> NaN
      | (_, NaN) \<Rightarrow> NaN
      | (Fin a, Fin b) \<Rightarrow> rnd (a * b)
      | (PInf, Fin b) \<Rightarrow> (if b = 0 then NaN else if 0 < b then PInf else NInf)
      | (NInf, Fin b) \<Rightarrow> (if b = 0 then NaN else if 0 < b then NInf else PInf)
      | (Fin a, PInf) \<Rightarrow> (if a = 0 then NaN else if 0 < a then PInf else NInf)
      | (Fin a, NInf) \<Rightarrow> (if a = 0 then NaN else if 0 < a then NInf else PInf)
      | (PInf, PInf) \<Rightarrow> PInf
      | (PInf, NInf) \<Rightarrow> NInf
      | (NInf, PInf) \<Rightarrow> NInf
      | (NInf, NInf) \<Rightarrow> PInf)"

definition less_dbl :: "dbl \<Rightarrow> dbl \<Rightarrow> bool" where
  "x < y =
     (case (x, y) of
        (Fin a, Fin b) \<Rightarrow> a < b
      | (NInf, Fin b) \<Rightarrow> True
      | (NInf, PInf) \<Rightarrow> True
      | (Fin a, PInf) \<Rightarrow> True
      | _ \<Rightarrow> False)"

definition less_eq_dbl :: "dbl \<Rightarrow> dbl \<Rightarrow> bool" where
  "(x :: dbl) \<le> y \<longleftrightarrow> x < y \<or> (x = y \<and> x \<noteq> NaN)"

instance ..

end

lemma less_dbl_simps [simp]:
  "Fin a < Fin b \<longleftrightarrow> a < b"
  "Fin a < PInf" "NInf < Fin b" "NInf < PInf"
  "\<not> NaN < y" "\<not> x < NaN" "\<not> PInf < y" "\<not> x < NInf"
  by (auto simp: less_dbl_def split: dbl.splits)

lemma times_dbl_simps [simp]:
  "Fin a * Fin b = rnd (a * b)"
  "NaN * y = NaN" "x * NaN = NaN"
  "PInf * Fin b = (if b = 0 then NaN else if 0 < b then PInf else NInf)"
  "NInf * Fin b = (if b = 0 then NaN else if 0 < b then NInf else PInf)"
  by (auto simp: times_dbl_def split: dbl.splits)

lemma wf_plus: "wf_dbl (x + y)"
  by (cases x; cases y) simp_all

lemma wf_times: "wf_dbl (x * y)"
  by (cases x; cases y) (auto simp: times_dbl_def)

text \<open>Division by a positive literal.\<close>

fun div_pos :: "dbl \<Rightarrow> nat \<Rightarrow> dbl" where
  "div_pos (Fin a) n = rnd (a / of_nat n)"
| "div_pos x n = x"

lemma wf_div_pos: "wf_dbl (div_pos x n)"
  by (cases x) simp_all

text \<open>\<open>Math.round\<close>: the nearest integer, ties towards plus infinity.\<close>

fun math_round :: "dbl \<Rightarrow> dbl" where
  "math_round (Fin a) = Fin (of_int \<lfloor>a + 1 / 2\<rfloor>)"
| "math_round x = x"

section \<open>Multiplying by ten makes progress\<close>

lemma wf_pos_iff: "0 < q \<Longrightarrow> wf_dbl (Fin q) \<longleftrightarrow> rnd_mag q = q \<and> q < bpow 2 1024"
  by (auto simp: rnd_def Let_def split: if_splits)

lemma rnd_pos: "0 < q \<Longrightarrow> rnd q = (if bpow 2 1024 \<le> rnd_mag q then PInf else Fin (rnd_mag q))"
  by (simp add: rnd_def Let_def)

lemma wf_pos_mantissa:
  assumes "0 < q" and "wf_dbl (Fin q)"
  obtains m where "0 < m" and "m \<le> 2 ^ 53" and "q = of_int m * bpow 2 (lsb q)"
proof -
  let ?m = "rhe (q / bpow 2 (lsb q))"
  have mag: "rnd_mag q = q" using assms wf_pos_iff by blast
  then have eq: "q = of_int ?m * bpow 2 (lsb q)" by (simp add: rnd_mag_def)
  have "0 < (of_int ?m :: rat)" using eq assms(1) by (metis bpow_pos zero_less_mult_pos2 zero_less_numeral)
  moreover have "of_int ?m * bpow 2 (lsb q) \<le> of_int (2 ^ 53) * bpow 2 (lsb q)"
    using rnd_mag_binade(1) [OF assms(1)] bpow2_shift [of "lsb q" 53] eq mag by simp
  then have "?m \<le> 2 ^ 53"
    by (simp only: mult_le_cancel_right bpow_pos) (simp flip: of_int_le_iff)
  ultimately show ?thesis using eq that by simp
qed

lemma wf_pos_min: "0 < q \<Longrightarrow> wf_dbl (Fin q) \<Longrightarrow> bpow 2 (- 1074) \<le> q"
proof -
  assume q: "0 < q" "wf_dbl (Fin q)"
  then obtain m where m: "0 < m" "q = of_int m * bpow 2 (lsb q)"
    by (elim wf_pos_mantissa)
  have "bpow 2 (- 1074) \<le> bpow 2 (lsb q)" by (intro bpow_mono) (auto simp: lsb_def)
  moreover have "bpow 2 (lsb q) \<le> of_int m * bpow 2 (lsb q)"
    using m(1) mult_right_mono [of 1 "of_int m" "bpow 2 (lsb q)"] by simp
  ultimately show ?thesis using m(2) by simp
qed

lemma times10_mag:
  assumes "0 < q" and "wf_dbl (Fin q)"
  shows "8 * q \<le> rnd_mag (q * 10)"
proof -
  obtain m where m: "0 < m" "m \<le> 2 ^ 53" "q = of_int m * bpow 2 (lsb q)"
    using assms by (elim wf_pos_mantissa)
  have e: "8 * q = of_int m * bpow 2 (lsb q + 3)"
    using m(3) bpow2_shift [of "lsb q" 3] by simp
  have "rnd_mag (8 * q) = 8 * q"
    unfolding e using m by (intro rnd_mag_exact) (auto simp: lsb_def)
  moreover have "rnd_mag (8 * q) \<le> rnd_mag (q * 10)" using assms by (intro rnd_mag_mono) auto
  ultimately show ?thesis by simp
qed

lemma times10_grows:
  assumes "0 < q" and "wf_dbl (Fin q)"
  shows "Fin q * Fin 10 = PInf \<or> (\<exists>r. Fin q * Fin 10 = Fin r \<and> 8 * q \<le> r \<and> wf_dbl (Fin r))"
  using times10_mag [OF assms] wf_rnd [of "q * 10"] assms(1)
  by (auto simp: rnd_pos simp del: wf_rnd split: if_splits)

end
