(* ===== verification/Js_Number_Text.thy ===== *)
theory Js_Number_Text
  imports Js_Number
begin

text \<open>
  Numbers as text: \<open>Number::toString\<close> (the shortest decimal that reads back as the same
  double, laid out as the language prescribes) and the conversion of a string to a
  number. Property keys computed from numbers, labels built with \<open>+\<close> and the coercions
  of \<open>/\<close> and \<open>==\<close> go through these two functions.
\<close>

section \<open>Decimal digits\<close>

definition digit_chr :: "nat \<Rightarrow> char" where
  "digit_chr d = char_of (48 + d)"

definition is_digit :: "char \<Rightarrow> bool" where
  "is_digit c \<longleftrightarrow> 48 \<le> (of_char c :: nat) \<and> (of_char c :: nat) \<le> 57"

definition digit_val :: "char \<Rightarrow> nat" where
  "digit_val c = of_char c - 48"

fun dec :: "nat \<Rightarrow> string" where
  "dec n = (if n < 10 then [digit_chr n] else dec (n div 10) @ [digit_chr (n mod 10)])"

declare dec.simps [simp del]

definition dec_val :: "string \<Rightarrow> nat" where
  "dec_val s = foldl (\<lambda>a c. 10 * a + digit_val c) 0 s"

lemma of_char_digit: "d < 10 \<Longrightarrow> (of_char (digit_chr d) :: nat) = 48 + d"
  by (simp add: digit_chr_def)

lemma digit_val_chr [simp]: "d < 10 \<Longrightarrow> digit_val (digit_chr d) = d"
  by (simp add: digit_val_def of_char_digit)

lemma is_digit_chr [simp]: "d < 10 \<Longrightarrow> is_digit (digit_chr d)"
  by (simp add: is_digit_def of_char_digit)

lemma dec_val_append: "dec_val (s @ [c]) = 10 * dec_val s + digit_val c"
  by (simp add: dec_val_def)

lemma dec_val_dec [simp]: "dec_val (dec n) = n"
proof (induction n rule: dec.induct)
  case (1 n)
  then show ?case
    by (simp add: dec.simps [of n] dec_val_append) (simp add: dec_val_def)
qed

lemma dec_digits: "c \<in> set (dec n) \<Longrightarrow> is_digit c"
proof (induction n rule: dec.induct)
  case (1 n)
  then show ?case by (auto simp: dec.simps [of n] split: if_splits)
qed

lemma dec_nonempty [simp]: "dec n \<noteq> []"
  by (simp add: dec.simps [of n])

lemma dec_inj: "dec m = dec n \<Longrightarrow> m = n"
  by (metis dec_val_dec)

lemma dec_hd_zero: "hd (dec n) = CHR ''0'' \<Longrightarrow> n = 0"
proof (induction n rule: dec.induct)
  case (1 n)
  show ?case
  proof (cases "n < 10")
    case True
    have "of_char (CHR ''0'') = (48 :: nat)" by simp
    with "1.prems" True have "48 + n = (48 :: nat)"
      by (metis dec.simps list.sel(1) of_char_digit)
    then show ?thesis by simp
  next
    case False
    have "hd (dec n) = hd (dec (n div 10))" using False by (simp add: dec.simps [of n])
    with "1.IH" "1.prems" False have "n div 10 = 0" by simp
    with False show ?thesis by simp
  qed
qed

lemma length_dec: "length (dec n) = ndigits 10 n"
proof (induction n rule: dec.induct)
  case (1 n)
  then show ?case by (simp add: dec.simps [of n] ndigits.simps [of 10 n])
qed

section \<open>From numbers to text\<close>

text \<open>
  For a positive double \<open>q\<close> with \<open>10^(n-1) \<le> q < 10^n\<close>: the \<open>k\<close>-digit integer nearest to
  \<open>q / 10^(n-k)\<close> among the two neighbours that round back to \<open>q\<close>.
\<close>

definition pick_digits :: "rat \<Rightarrow> int \<Rightarrow> nat \<Rightarrow> nat option" where
  "pick_digits q n k =
     (let u = bpow 10 (n - int k);
          lo = nat \<lfloor>q / u\<rfloor>;
          ok = (\<lambda>c. rnd (of_nat c * u) = Fin q)
      in if ok lo \<and> ok (lo + 1)
         then Some (let a = q - of_nat lo * u; b = of_nat (lo + 1) * u - q
                    in if a < b \<or> (a = b \<and> even lo) then lo else lo + 1)
         else if ok lo then Some lo
         else if ok (lo + 1) then Some (lo + 1)
         else None)"

text \<open>
  The least number of digits that works, with the digits. 17 digits always do
  (\<open>pick_digits_17\<close> below), so the search is bounded.
\<close>

fun search_digits :: "rat \<Rightarrow> int \<Rightarrow> nat list \<Rightarrow> (nat \<times> nat) option" where
  "search_digits q n [] = None"
| "search_digits q n (k # ks) =
     (case pick_digits q n k of Some c \<Rightarrow> Some (k, c) | None \<Rightarrow> search_digits q n ks)"

definition strip_zeros :: "string \<Rightarrow> string" where
  "strip_zeros s = rev (dropWhile (\<lambda>c. c = CHR ''0'') (rev s))"

text \<open>
  \<open>layout ds n\<close> writes the digits \<open>ds\<close> of a number \<open>0.ds * 10^n\<close> as the language does:
  plain up to 21 places, with leading zeros down to \<open>10^-7\<close>, with an exponent beyond.
\<close>

definition exp_text :: "int \<Rightarrow> string" where
  "exp_text e = ''e'' @ (if 0 \<le> e then ''+'' else ''-'') @ dec (nat \<bar>e\<bar>)"

definition layout :: "string \<Rightarrow> int \<Rightarrow> string" where
  "layout ds n =
     (let k = int (length ds) in
      if k \<le> n \<and> n \<le> 21 then ds @ replicate (nat (n - k)) (CHR ''0'')
      else if 0 < n \<and> n \<le> 21 then take (nat n) ds @ ''.'' @ drop (nat n) ds
      else if - 6 < n \<and> n \<le> 0 then ''0.'' @ replicate (nat (- n)) (CHR ''0'') @ ds
      else if k = 1 then ds @ exp_text (n - 1)
      else take 1 ds @ ''.'' @ drop 1 ds @ exp_text (n - 1))"

definition pos_to_str :: "rat \<Rightarrow> string" where
  "pos_to_str q =
     (let n = flogb 10 q + 1 in
      case search_digits q n [1..<18] of
        None \<Rightarrow> []
      | Some (k, c) \<Rightarrow>
          layout (strip_zeros (dec c)) (n - int k + int (length (dec c))))"

fun num_to_str :: "dbl \<Rightarrow> string" where
  "num_to_str NaN = ''NaN''"
| "num_to_str PInf = ''Infinity''"
| "num_to_str NInf = ''-Infinity''"
| "num_to_str (Fin q) =
     (if q = 0 then ''0''
      else if q < 0 then ''-'' @ pos_to_str (- q)
      else pos_to_str q)"

section \<open>From text to numbers\<close>

definition is_space :: "char \<Rightarrow> bool" where
  "is_space c \<longleftrightarrow> (of_char c :: nat) \<in> {9, 10, 11, 12, 13, 32, 160}"

definition trim :: "string \<Rightarrow> string" where
  "trim s = rev (dropWhile is_space (rev (dropWhile is_space s)))"

text \<open>
  The part of a decimal literal after the sign: digits, an optional fraction, an optional
  exponent. The result is the exact value and the unread rest; the caller rounds.
\<close>

definition read_exp :: "string \<Rightarrow> int \<times> string" where
  "read_exp s =
     (case s of
        [] \<Rightarrow> (0, [])
      | c # t \<Rightarrow>
          if c = CHR ''e'' \<or> c = CHR ''E''
          then (let neg = (t \<noteq> [] \<and> hd t = CHR ''-'');
                    u = (if t \<noteq> [] \<and> (hd t = CHR ''-'' \<or> hd t = CHR ''+'') then tl t else t);
                    ds = takeWhile is_digit u
                in if ds = [] then (0, s)
                   else (if neg then - int (dec_val ds) else int (dec_val ds), dropWhile is_digit u))
          else (0, s))"

definition read_frac :: "string \<Rightarrow> string \<times> string" where
  "read_frac s =
     (if s \<noteq> [] \<and> hd s = CHR ''.'' then (takeWhile is_digit (tl s), dropWhile is_digit (tl s))
      else ([], s))"

definition read_decimal :: "string \<Rightarrow> (rat \<times> string) option" where
  "read_decimal s =
     (let ip = takeWhile is_digit s;
          (fp, r) = read_frac (dropWhile is_digit s)
      in if ip = [] \<and> fp = [] then None
         else let (e, r') = read_exp r
              in Some (of_nat (dec_val (ip @ fp)) * bpow 10 (e - int (length fp)), r'))"

definition radix_digit :: "nat \<Rightarrow> char \<Rightarrow> nat option" where
  "radix_digit r c =
     (let n = of_char c :: nat;
          v = (if 48 \<le> n \<and> n \<le> 57 then n - 48
               else if 97 \<le> n \<and> n \<le> 122 then n - 87
               else if 65 \<le> n \<and> n \<le> 90 then n - 55
               else 36)
      in if v < r then Some v else None)"

fun radix_val :: "nat \<Rightarrow> nat \<Rightarrow> string \<Rightarrow> nat option" where
  "radix_val r a [] = Some a"
| "radix_val r a (c # s) =
     (case radix_digit r c of None \<Rightarrow> None | Some v \<Rightarrow> radix_val r (r * a + v) s)"

definition read_unsigned :: "string \<Rightarrow> dbl" where
  "read_unsigned s =
     (if s = ''Infinity'' then PInf
      else case read_decimal s of Some (q, []) \<Rightarrow> rnd q | _ \<Rightarrow> NaN)"

definition str_to_num :: "string \<Rightarrow> dbl" where
  "str_to_num s =
     (case trim s of
        [] \<Rightarrow> Fin 0
      | c # t \<Rightarrow>
          if c = CHR ''-'' then dbl_neg (read_unsigned t)
          else if c = CHR ''+'' then read_unsigned t
          else if c = CHR ''0'' \<and> t \<noteq> [] \<and> hd t \<in> set ''xXoObB''
          then (let r = (if hd t \<in> set ''xX'' then 16 else if hd t \<in> set ''oO'' then 8 else 2)
                in if tl t = [] then NaN
                   else case radix_val r 0 (tl t) of Some n \<Rightarrow> rnd (of_nat n) | None \<Rightarrow> NaN)
          else read_unsigned (c # t))"

section \<open>Whole numbers print as their decimal digits\<close>

lemma digit_chr_0: "digit_chr 0 = CHR ''0''"
proof -
  have "(of_char (CHR ''0'') :: nat) = 48" by simp
  then show ?thesis unfolding digit_chr_def by (metis add_0_right char_of_char)
qed

lemma dec_times10: "0 < c \<Longrightarrow> dec (c * 10) = dec c @ ''0''"
  by (simp add: dec.simps [of "c * 10"] digit_chr_0)

lemma dec_times_pow10: "0 < c \<Longrightarrow> dec (c * 10 ^ j) = dec c @ replicate j (CHR ''0'')"
proof (induction j)
  case (Suc j)
  have "dec (c * 10 ^ Suc j) = dec (c * 10 ^ j * 10)" by (simp add: ac_simps)
  also have "\<dots> = dec (c * 10 ^ j) @ ''0''" using Suc.prems by (intro dec_times10) simp
  also have "\<dots> = dec c @ replicate (Suc j) (CHR ''0'')"
    using Suc by (simp add: replicate_append_same)
  finally show ?case .
qed simp

lemma strip_zeros_append: "strip_zeros (s @ replicate j (CHR ''0'')) = strip_zeros s"
proof -
  have "dropWhile (\<lambda>c. c = CHR ''0'') (replicate j (CHR ''0'') @ rev s) =
      dropWhile (\<lambda>c. c = CHR ''0'') (rev s)"
    by (induction j) simp_all
  then show ?thesis by (simp add: strip_zeros_def)
qed

lemma strip_zeros_split: "\<exists>j. s = strip_zeros s @ replicate j (CHR ''0'')"
proof -
  have "rev s = takeWhile (\<lambda>c. c = CHR ''0'') (rev s) @ dropWhile (\<lambda>c. c = CHR ''0'') (rev s)"
    by simp
  then have "s = strip_zeros s @ rev (takeWhile (\<lambda>c. c = CHR ''0'') (rev s))"
    unfolding strip_zeros_def by (metis rev_append rev_rev_ident)
  moreover have "takeWhile (\<lambda>c. c = CHR ''0'') (rev s) =
      replicate (length (takeWhile (\<lambda>c. c = CHR ''0'') (rev s))) (CHR ''0'')"
    by (rule replicate_eqI [symmetric, THEN sym]) (auto dest: set_takeWhileD)
  ultimately show ?thesis by (metis rev_replicate)
qed

lemma layout_whole:
  assumes "length s \<le> 21"
  shows "layout (strip_zeros s) (int (length s)) = s"
proof -
  obtain j where j: "s = strip_zeros s @ replicate j (CHR ''0'')" using strip_zeros_split by blast
  then have len: "length s = length (strip_zeros s) + j" by (metis length_append length_replicate)
  then have "layout (strip_zeros s) (int (length s)) = strip_zeros s @ replicate j (CHR ''0'')"
    using assms by (simp add: layout_def Let_def)
  then show ?thesis using j by simp
qed

lemma bpow10_nat: "bpow 10 (int j) = of_nat (10 ^ j)"
  by (rule bpow_nat)

text \<open>A candidate of \<open>k\<close> digits for a whole number below \<open>2^53\<close> is the number itself without
  trailing zeros.\<close>

lemma rnd_nat: "n \<le> 2 ^ 53 \<Longrightarrow> rnd (of_nat n) = Fin (of_nat n)"
proof -
  assume "n \<le> 2 ^ 53"
  then have "int n \<le> int (2 ^ 53)" by (simp only: of_nat_le_iff)
  then show ?thesis using rnd_int [of "int n"] by simp
qed

lemma rnd_ge_pow53:
  assumes "2 ^ 53 \<le> q"
  shows "\<not> rnd q = Fin (of_nat n) \<or> 2 ^ 53 \<le> n"
proof -
  have "rnd_mag (2 ^ 53) \<le> rnd_mag q" using assms by (intro rnd_mag_mono) auto
  moreover have "rnd_mag (2 ^ 53) = 2 ^ 53" using rnd_mag_exact [of "2 ^ 53" 0] by simp
  ultimately have "rnd q = Fin (of_nat n) \<Longrightarrow> (2 ^ 53 :: rat) \<le> of_nat n"
    using assms by (auto simp: rnd_def Let_def split: if_splits)
  moreover have "(2 ^ 53 :: rat) = of_nat (2 ^ 53)" by simp
  ultimately show ?thesis by (metis of_nat_le_iff)
qed

lemma pick_digits_whole:
  assumes n: "0 < n" "n < 2 ^ 53" and k: "k \<le> L" and pick: "pick_digits (of_nat n) (int L) k = Some c"
  shows "c * 10 ^ (L - k) = n"
proof -
  let ?u = "10 ^ (L - k) :: nat"
  have u: "bpow 10 (int L - int k) = of_nat ?u"
    using bpow_nat [of 10 "L - k"] k by (simp add: of_nat_diff)
  have lo: "nat \<lfloor>(of_nat n :: rat) / of_nat ?u\<rfloor> = n div ?u"
    by (simp only: floor_divide_of_nat_eq nat_int)
  have ok: "rnd (of_nat d * of_nat ?u) = Fin (of_nat n) \<Longrightarrow> d * ?u = n" for d
  proof (cases "d * ?u \<le> 2 ^ 53")
    case True
    then have "rnd (of_nat (d * ?u)) = Fin (of_nat (d * ?u))" by (rule rnd_nat)
    then show "rnd (of_nat d * of_nat ?u) = Fin (of_nat n) \<Longrightarrow> d * ?u = n"
      by (metis dbl.inject of_nat_eq_iff of_nat_mult)
  next
    case False
    then have "(of_nat (2 ^ 53) :: rat) \<le> of_nat (d * ?u)" by (simp only: of_nat_le_iff)
    then have "(2 ^ 53 :: rat) \<le> of_nat d * of_nat ?u" by simp
    from rnd_ge_pow53 [OF this, of n] n
    show "rnd (of_nat d * of_nat ?u) = Fin (of_nat n) \<Longrightarrow> d * ?u = n" by auto
  qed
  have "rnd (of_nat c * of_nat ?u) = Fin (of_nat n)"
    using pick unfolding pick_digits_def u Let_def lo by (auto split: if_splits)
  then show ?thesis by (rule ok)
qed

lemma pick_digits_all:
  assumes n: "0 < n" "n < 2 ^ 53"
  shows "pick_digits (of_nat n) (int k) k \<noteq> None"
proof -
  have "rnd (of_nat n) = Fin (of_nat n)" using n by (intro rnd_nat) simp
  then show ?thesis by (simp add: pick_digits_def Let_def)
qed

lemma search_digits_Some:
  "search_digits q n ks = Some (k, c) \<Longrightarrow> k \<in> set ks \<and> pick_digits q n k = Some c"
  by (induction ks) (auto split: option.splits)

lemma search_digits_first:
  assumes "search_digits q n [i..<j] = Some (k, c)" and "i \<le> m" and "m < j" and "pick_digits q n m \<noteq> None"
  shows "k \<le> m"
  using assms
proof (induction "j - i" arbitrary: i)
  case (Suc d)
  then have up: "[i..<j] = i # [Suc i..<j]" by (simp add: upt_rec)
  show ?case
  proof (cases "pick_digits q n i")
    case None
    with Suc.prems have "m \<noteq> i" by auto
    with Suc.prems up None have "search_digits q n [Suc i..<j] = Some (k, c)" "Suc i \<le> m" by auto
    moreover have "d = j - Suc i" using Suc.hyps(2) by simp
    ultimately show ?thesis using Suc.hyps(1) Suc.prems(3,4) by blast
  next
    case (Some c')
    with Suc.prems up show ?thesis by auto
  qed
qed simp

lemma search_digits_None: "search_digits q n ks = None \<longleftrightarrow> (\<forall>k \<in> set ks. pick_digits q n k = None)"
  by (induction ks) (auto split: option.splits)

text \<open>The digits found for a whole number are its decimal digits without the trailing zeros.\<close>

lemma digits_whole:
  assumes n: "0 < n" "n < 2 ^ 53"
  shows "\<exists>k c. search_digits (of_nat n) (flogb 10 (of_nat n) + 1) [1..<18] = Some (k, c) \<and>
    flogb 10 (of_nat n) + 1 - int k + int (length (dec c)) = int (length (dec n)) \<and>
    strip_zeros (dec c) = strip_zeros (dec n) \<and> length (dec n) \<le> 16"
proof -
  let ?L = "length (dec n)"
  have L: "?L = ndigits 10 n" by (rule length_dec)
  have bd: "10 ^ (?L - 1) \<le> n" "n < 10 ^ ?L" using ndigits_bounds [of 10 n] n L by auto
  have L1: "1 \<le> ?L" using L ndigits_pos [of 10 n] by simp
  have "10 ^ (?L - 1) < (10 :: nat) ^ 16" using bd(1) n(2) by (rule le_less_trans [THEN less_trans]) simp
  then have "?L - 1 < 16" by (rule power_less_imp_less_exp [rotated]) simp
  then have L16: "?L \<le> 16" by simp
  have fl: "flogb 10 (of_nat n) = int ?L - 1"
  proof (rule flogb_unique)
    have "int ?L - 1 = int (?L - 1)" using L1 by (simp add: of_nat_diff)
    then have "bpow 10 (int ?L - 1) = of_nat (10 ^ (?L - 1))" by (simp only: bpow_nat)
    then show "bpow 10 (int ?L - 1) \<le> of_nat n" using bd(1) by (simp only: of_nat_le_iff)
    show "of_nat n < bpow 10 (int ?L - 1 + 1)"
      using bd(2) bpow_nat [of 10 ?L] by (simp only: diff_add_cancel of_nat_less_iff)
  qed simp
  obtain k c where s: "search_digits (of_nat n) (int ?L) [1..<18] = Some (k, c)"
    using pick_digits_all [OF n, of ?L] L1 L16 search_digits_None [of "of_nat n" "int ?L" "[1..<18]"]
    by (cases "search_digits (of_nat n) (int ?L) [1..<18]") auto
  have k: "k \<le> ?L" using s pick_digits_all [OF n, of ?L] L1 L16 by (intro search_digits_first [OF s]) auto
  have "pick_digits (of_nat n) (int ?L) k = Some c" using search_digits_Some [OF s] by simp
  then have c: "c * 10 ^ (?L - k) = n" by (rule pick_digits_whole [OF n k])
  then have c0: "0 < c" using n by (metis gr0I mult_0 less_irrefl)
  have dec: "dec n = dec c @ replicate (?L - k) (CHR ''0'')" using dec_times_pow10 [OF c0] c by metis
  then have len: "?L = length (dec c) + (?L - k)" by (metis length_append length_replicate)
  have "int ?L - int k + int (length (dec c)) = int ?L" using len k by linarith
  moreover have "strip_zeros (dec c) = strip_zeros (dec n)" using dec strip_zeros_append by metis
  ultimately show ?thesis using s L16 unfolding fl by (simp only: diff_add_cancel) blast
qed

lemma pos_to_str_nat:
  assumes "0 < n" "n < 2 ^ 53"
  shows "pos_to_str (of_nat n) = dec n"
proof -
  obtain k c where "search_digits (of_nat n) (flogb 10 (of_nat n) + 1) [1..<18] = Some (k, c)"
      "flogb 10 (of_nat n) + 1 - int k + int (length (dec c)) = int (length (dec n))"
      "strip_zeros (dec c) = strip_zeros (dec n)" "length (dec n) \<le> 16"
    using digits_whole [OF assms] by blast
  then show ?thesis
    using layout_whole [of "dec n"] unfolding pos_to_str_def Let_def by (simp only: option.case prod.case)
qed

lemma num_to_str_nat: "n < 2 ^ 53 \<Longrightarrow> num_to_str (Fin (of_nat n)) = dec n"
  by (cases "n = 0") (simp_all add: pos_to_str_nat dec.simps digit_chr_0)

section \<open>Seventeen digits are enough\<close>

lemma rhe_near: "\<bar>x - of_int i\<bar> < 1 / 2 \<Longrightarrow> rhe x = i"
proof -
  assume "\<bar>x - of_int i\<bar> < 1 / 2"
  moreover have "\<bar>of_int (rhe x) - x\<bar> \<le> 1 / 2" by (rule rhe_error)
  ultimately have "\<bar>of_int (rhe x) - of_int i\<bar> < (1 :: rat)" by linarith
  then have "\<bar>rhe x - i\<bar> < 1" by (metis of_int_abs of_int_diff of_int_less_1_iff)
  then show ?thesis by simp
qed

lemma rnd_mag_near:
  assumes q: "0 < q" "wf_dbl (Fin q)" and x: "0 < x" "\<bar>x - q\<bar> \<le> q / (2 * 10 ^ 16)"
  shows "rnd_mag x = q"
proof -
  define e where "e = lsb q"
  define p where "p = bpow 2 e"
  have p0: "0 < p" by (simp add: p_def)
  obtain m where m: "0 < m" "q = of_int m * p"
    using wf_pos_mantissa [OF q] unfolding p_def e_def by blast
  have p53: "bpow 2 (e + 53) = of_int (2 ^ 53) * p" using bpow2_shift [of e 53] by (simp add: p_def)
  have p52: "bpow 2 (e + 52) = of_int (2 ^ 52) * p" using bpow2_shift [of e 52] by (simp add: p_def)
  have qu: "q < of_int (2 ^ 53) * p" using lsb_upper [OF q(1)] p53 by (simp add: e_def)
  then have m53: "m < 2 ^ 53" unfolding m(2) using p0 by (simp only: mult_less_cancel_right_pos of_int_less_iff)
  have d: "\<bar>x - q\<bar> < p * (1 / 2)" using x(2) qu p0 by simp
  consider "lsb x = e" | "e < lsb x" | "lsb x < e" by linarith
  then show ?thesis
  proof cases
    case 1
    have "x / p - of_int m = (x - q) / p" using p0 m(2) by (simp add: field_simps)
    then have "\<bar>x / p - of_int m\<bar> < 1 / 2" using d p0 by (simp add: abs_divide field_simps)
    then have "rhe (x / p) = m" by (rule rhe_near)
    then show ?thesis using 1 m(2) by (simp add: rnd_mag_def p_def)
  next
    case 2
    have "- 1074 < lsb x" using 2 by (simp add: e_def lsb_def)
    then have "bpow 2 (lsb x + 52) \<le> x" using x(1) by (intro lsb_lower)
    moreover have "bpow 2 (e + 53) \<le> bpow 2 (lsb x + 52)" using 2 by (intro bpow_mono) auto
    ultimately have "of_int (2 ^ 53) * p \<le> x" using p53 by simp
    moreover have "of_int (m + 1) * p \<le> of_int (2 ^ 53) * p"
      using m53 p0 by (intro mult_right_mono) (simp_all only: of_int_le_iff)
    then have "q + p \<le> of_int (2 ^ 53) * p" by (simp add: m(2) algebra_simps)
    ultimately show ?thesis using d p0 by linarith
  next
    case 3
    then have "- 1074 < lsb q" by (auto simp: e_def lsb_def)
    then have ql: "of_int (2 ^ 52) * p \<le> q" using lsb_lower [OF q(1)] p52 by (simp add: e_def)
    have "x < bpow 2 (lsb x + 53)" using x(1) by (rule lsb_upper)
    also have "\<dots> \<le> bpow 2 (e + 52)" using 3 by (intro bpow_mono) auto
    finally have xu: "x < of_int (2 ^ 52) * p" using p52 by simp
    have "q < of_int (2 ^ 52) * p + p" using d xu p0 by linarith
    then have "of_int m * p < of_int (2 ^ 52 + 1) * p"
      unfolding m(2) by (simp only: of_int_add of_int_1 distrib_right mult_1)
    then have "m < 2 ^ 52 + 1" using p0 by (simp only: mult_less_cancel_right_pos of_int_less_iff)
    moreover have "2 ^ 52 \<le> m" using ql p0 unfolding m(2) by (simp only: mult_le_cancel_right_pos of_int_le_iff)
    ultimately have m52: "m = 2 ^ 52" by simp
    define h where "h = bpow 2 (e - 1)"
    have h: "p = 2 * h" using bpow2_shift [of "e - 1" 1] by (simp add: p_def h_def)
    have h0: "0 < h" by (simp add: h_def)
    have qh: "q = of_int (2 ^ 53) * h" using m52 m(2) h by simp
    have dh: "\<bar>x - q\<bar> < h * (1 / 2)" using x(2) qh h0 by simp
    have "flogb 2 x = e + 51"
    proof (rule flogb_unique)
      have "bpow 2 (e + 51) = of_int (2 ^ 52) * h"
        using bpow2_shift [of "e - 1" 52] by (simp add: h_def add.commute)
      moreover have "q = 9007199254740992 * h" using qh by simp
      then have "4503599627370496 * h \<le> x" using dh h0 by linarith
      ultimately show "bpow 2 (e + 51) \<le> x" by simp
      show "x < bpow 2 (e + 51 + 1)" using xu p52 by (simp add: add.commute)
    qed simp
    then have "lsb x = e - 1" using 3 by (simp add: lsb_def)
    moreover have "rhe (x / h) = 2 ^ 53"
    proof (rule rhe_near)
      have "x / h - of_int (2 ^ 53) = (x - q) / h" using h0 qh by (simp add: field_simps)
      then show "\<bar>x / h - of_int (2 ^ 53)\<bar> < 1 / 2" using dh h0 by (simp add: abs_divide field_simps)
    qed
    ultimately show ?thesis using qh by (simp add: rnd_mag_def h_def)
  qed
qed

lemma pick_digits_17:
  assumes q: "0 < q" "wf_dbl (Fin q)"
  shows "pick_digits q (flogb 10 q + 1) 17 \<noteq> None"
proof -
  let ?u = "bpow 10 (flogb 10 q + 1 - int 17)"
  define lo where "lo = \<lfloor>q / ?u\<rfloor>"
  have u0: "0 < ?u" by simp
  have "?u = bpow 10 (flogb 10 q) / bpow 10 16" using bpow_diff [of 10 "flogb 10 q" 16] by simp
  also have "\<dots> \<le> q / bpow 10 16" using flogb_bounds [of 10 q] q(1) by (intro divide_right_mono) auto
  also have "bpow 10 16 = 10 ^ 16" using bpow_nat [of 10 16] by simp
  finally have uq: "?u \<le> q / 10 ^ 16" .
  have fl: "of_int lo \<le> q / ?u" "q / ?u < of_int lo + 1" by (simp_all add: lo_def) linarith
  then have b: "of_int lo * ?u \<le> q" "q < (of_int lo + 1) * ?u"
    using u0 by (simp_all only: pos_le_divide_eq pos_divide_less_eq)
  have "1 \<le> q / ?u" using uq u0 q(1) by (simp add: le_divide_eq)
  then have lo1: "1 \<le> lo" by (simp add: lo_def le_floor_iff)
  have near: "rnd (of_nat c * ?u) = Fin q" if c: "0 < c" and d: "\<bar>of_nat c * ?u - q\<bar> \<le> ?u / 2" for c
  proof -
    have pos: "0 < of_nat c * ?u" using c by simp
    have "\<bar>of_nat c * ?u - q\<bar> \<le> q / (2 * 10 ^ 16)" using d uq by simp
    with q pos have "rnd_mag (of_nat c * ?u) = q" by (intro rnd_mag_near)
    moreover have "q < bpow 2 1024" using q wf_pos_iff by blast
    ultimately show ?thesis using pos by (simp add: rnd_pos)
  qed
  have n: "(of_nat (nat lo) :: rat) = of_int lo" "(of_nat (nat lo + 1) :: rat) = of_int lo + 1"
    using lo1 by simp_all
  have "\<bar>of_nat (nat lo) * ?u - q\<bar> \<le> ?u / 2 \<or> \<bar>of_nat (nat lo + 1) * ?u - q\<bar> \<le> ?u / 2"
    unfolding n using b by (simp add: algebra_simps abs_if) linarith
  then have "rnd (of_nat (nat lo) * ?u) = Fin q \<or> rnd (of_nat (nat lo + 1) * ?u) = Fin q"
    using near [of "nat lo"] near [of "nat lo + 1"] lo1 by auto
  then show ?thesis unfolding pick_digits_def Let_def lo_def [symmetric] by auto
qed

lemma search_digits_total:
  "0 < q \<Longrightarrow> wf_dbl (Fin q) \<Longrightarrow> search_digits q (flogb 10 q + 1) [1..<18] \<noteq> None"
  using pick_digits_17 [of q] by (auto simp: search_digits_None simp del: not_None_eq)

end
