(* ===== verification/Js_Value.thy ===== *)
theory Js_Value
  imports Js_Number_Text "HOL-Library.AList"
begin

text \<open>
  The values of the language that reach the scripts: the JSON values of a results file,
  \<open>undefined\<close>, and references to the two functions of \<open>html/perf.js\<close> that are stored in
  option objects. Objects are association lists in insertion order. The conversions
  (\<open>ToString\<close>, \<open>ToNumber\<close>, truth value, loose equality), \<open>+\<close>, division by a literal
  and property access are those of the language, errors included.
\<close>

datatype fname = Log_transform | Log_ticks

datatype jsv =
    Undefined
  | Null
  | Bool bool
  | Num dbl
  | Str string
  | Arr "jsv list"
  | Obj "(string \<times> jsv) list"
  | Fun fname

section \<open>Conversions\<close>

text \<open>
  An object without an own \<open>toString\<close> converts to \<open>[object Object]\<close>. An own one comes from
  JSON, so it cannot be called; the inherited \<open>valueOf\<close> returns the object itself, so the
  conversion fails. Missing and null elements of an array join as the empty string.
\<close>

fun to_str :: "jsv \<Rightarrow> string res" where
  "to_str Undefined = Inr ''undefined''"
| "to_str Null = Inr ''null''"
| "to_str (Bool b) = Inr (if b then ''true'' else ''false'')"
| "to_str (Num x) = Inr (num_to_str x)"
| "to_str (Str s) = Inr s"
| "to_str (Arr xs) =
     bindE (mapE (\<lambda>x. if x = Undefined \<or> x = Null then Inr [] else to_str x) xs)
       (\<lambda>ss. Inr (join '','' ss))"
| "to_str (Obj ps) =
     (if map_of ps ''toString'' = None then Inr ''[object Object]'' else Inl (TypeError ''toString''))"
| "to_str (Fun f) = Inl (Outside ''Function.prototype.toString'')"

fun to_num :: "jsv \<Rightarrow> dbl res" where
  "to_num Undefined = Inr NaN"
| "to_num Null = Inr (Fin 0)"
| "to_num (Bool b) = Inr (Fin (if b then 1 else 0))"
| "to_num (Num x) = Inr x"
| "to_num (Str s) = Inr (str_to_num s)"
| "to_num v = bindE (to_str v) (\<lambda>s. Inr (str_to_num s))"

fun truthy :: "jsv \<Rightarrow> bool" where
  "truthy Undefined = False"
| "truthy Null = False"
| "truthy (Bool b) = b"
| "truthy (Num x) = (x \<noteq> NaN \<and> x \<noteq> Fin 0)"
| "truthy (Str s) = (s \<noteq> [])"
| "truthy _ = True"

text \<open>The \<open>+\<close> operator: concatenation as soon as one operand becomes a string.\<close>

fun to_prim :: "jsv \<Rightarrow> jsv res" where
  "to_prim (Arr xs) = bindE (to_str (Arr xs)) (\<lambda>s. Inr (Str s))"
| "to_prim (Obj ps) = bindE (to_str (Obj ps)) (\<lambda>s. Inr (Str s))"
| "to_prim (Fun f) = Inl (Outside ''Function.prototype.toString'')"
| "to_prim v = Inr v"

definition is_str :: "jsv \<Rightarrow> bool" where
  "is_str v = (case v of Str _ \<Rightarrow> True | _ \<Rightarrow> False)"

definition js_add :: "jsv \<Rightarrow> jsv \<Rightarrow> jsv res" where
  "js_add a b =
     bindE (to_prim a) (\<lambda>p. bindE (to_prim b) (\<lambda>q.
       if is_str p \<or> is_str q
       then bindE (to_str p) (\<lambda>s. bindE (to_str q) (\<lambda>t. Inr (Str (s @ t))))
       else bindE (to_num p) (\<lambda>x. bindE (to_num q) (\<lambda>y. Inr (Num (x + y))))))"

definition js_div :: "jsv \<Rightarrow> nat \<Rightarrow> jsv res" where
  "js_div v n = bindE (to_num v) (\<lambda>x. Inr (Num (div_pos x n)))"

definition js_round :: "jsv \<Rightarrow> jsv res" where
  "js_round v = bindE (to_num v) (\<lambda>x. Inr (Num (math_round x)))"

lemma js_add_Num [simp]: "js_add (Num x) (Num y) = Inr (Num (x + y))"
  by (simp add: js_add_def is_str_def)

lemma js_div_Num [simp]: "js_div (Num x) n = Inr (Num (div_pos x n))"
  by (simp add: js_div_def)

lemma js_round_Num [simp]: "js_round (Num x) = Inr (Num (math_round x))"
  by (simp add: js_round_def)

text \<open>
  Loose equality \<open>==\<close>. Two objects are compared by identity, which values do not carry:
  that case is outside the model (the scripts compare an attribute, a string or
  \<open>undefined\<close>, with a value of the results).
\<close>

definition is_object :: "jsv \<Rightarrow> bool" where
  "is_object v = (case v of Arr _ \<Rightarrow> True | Obj _ \<Rightarrow> True | Fun _ \<Rightarrow> True | _ \<Rightarrow> False)"

definition is_nullish :: "jsv \<Rightarrow> bool" where
  "is_nullish v \<longleftrightarrow> v = Undefined \<or> v = Null"

definition prim_eq :: "jsv \<Rightarrow> jsv \<Rightarrow> bool res" where
  "prim_eq p q =
     (if is_nullish p \<or> is_nullish q then Inr (is_nullish p \<and> is_nullish q)
      else case (p, q) of
             (Str s, Str t) \<Rightarrow> Inr (s = t)
           | (Bool a, Bool b) \<Rightarrow> Inr (a = b)
           | _ \<Rightarrow> bindE (to_num p) (\<lambda>x. bindE (to_num q) (\<lambda>y. Inr (x = y \<and> x \<noteq> NaN))))"

definition loose_eq :: "jsv \<Rightarrow> jsv \<Rightarrow> bool res" where
  "loose_eq a b =
     (if is_object a \<and> is_object b then Inl (Outside ''object identity'')
      else if (is_object a \<and> is_nullish b) \<or> (is_object b \<and> is_nullish a) then Inr False
      else bindE (to_prim a) (\<lambda>p. bindE (to_prim b) (\<lambda>q. prim_eq p q)))"

lemma loose_eq_Str [simp]: "loose_eq (Str s) (Str t) = Inr (s = t)"
  by (simp add: loose_eq_def is_object_def is_nullish_def prim_eq_def)

lemma loose_eq_Undefined_Str [simp]:
  "loose_eq Undefined (Str t) = Inr False" "loose_eq (Str t) Undefined = Inr False"
  "loose_eq Undefined Undefined = Inr True"
  by (simp_all add: loose_eq_def is_object_def is_nullish_def prim_eq_def)

section \<open>Property access\<close>

definition object_proto :: "string list" where
  "object_proto =
     [''constructor'', ''__defineGetter__'', ''__defineSetter__'', ''hasOwnProperty'',
      ''__lookupGetter__'', ''__lookupSetter__'', ''isPrototypeOf'', ''propertyIsEnumerable'',
      ''toString'', ''valueOf'', ''__proto__'', ''toLocaleString'']"

definition array_proto :: "string list" where
  "array_proto =
     [''at'', ''concat'', ''copyWithin'', ''fill'', ''find'', ''findIndex'', ''findLast'',
      ''findLastIndex'', ''lastIndexOf'', ''pop'', ''push'', ''reverse'', ''shift'', ''unshift'',
      ''slice'', ''sort'', ''splice'', ''includes'', ''indexOf'', ''join'', ''keys'', ''entries'',
      ''values'', ''forEach'', ''filter'', ''flat'', ''flatMap'', ''map'', ''every'', ''some'',
      ''reduce'', ''reduceRight'', ''toReversed'', ''toSorted'', ''toSpliced'', ''with'']"

definition string_proto :: "string list" where
  "string_proto =
     [''anchor'', ''at'', ''big'', ''blink'', ''bold'', ''charAt'', ''charCodeAt'', ''codePointAt'',
      ''concat'', ''endsWith'', ''fontcolor'', ''fontsize'', ''fixed'', ''includes'', ''indexOf'',
      ''italics'', ''lastIndexOf'', ''link'', ''localeCompare'', ''match'', ''matchAll'',
      ''normalize'', ''padEnd'', ''padStart'', ''repeat'', ''replace'', ''replaceAll'', ''search'',
      ''slice'', ''small'', ''split'', ''strike'', ''sub'', ''substr'', ''substring'', ''sup'',
      ''startsWith'', ''trim'', ''trimStart'', ''trimLeft'', ''trimEnd'', ''trimRight'',
      ''toLocaleLowerCase'', ''toLocaleUpperCase'', ''toLowerCase'', ''toUpperCase'',
      ''isWellFormed'', ''toWellFormed'']"

definition number_proto :: "string list" where
  "number_proto = [''toExponential'', ''toFixed'', ''toPrecision'']"

text \<open>A key that names an array or string position: a decimal numeral without leading zeros.\<close>

definition index_key :: "string \<Rightarrow> nat option" where
  "index_key k =
     (if k \<noteq> [] \<and> list_all is_digit k \<and> (k = ''0'' \<or> hd k \<noteq> CHR ''0'')
      then Some (dec_val k) else None)"

definition inherited :: "string list \<Rightarrow> string \<Rightarrow> jsv res" where
  "inherited names k =
     (if k \<in> set names \<or> k \<in> set object_proto then Inl (Outside k) else Inr Undefined)"

definition get_index :: "jsv list \<Rightarrow> string list \<Rightarrow> string \<Rightarrow> jsv res" where
  "get_index xs names k =
     (if k = ''length'' then Inr (Num (rnd (of_nat (length xs))))
      else case index_key k of
             Some i \<Rightarrow> Inr (if i < length xs then xs ! i else Undefined)
           | None \<Rightarrow> inherited names k)"

fun get_prop :: "jsv \<Rightarrow> string \<Rightarrow> jsv res" where
  "get_prop Undefined k = Inl (TypeError k)"
| "get_prop Null k = Inl (TypeError k)"
| "get_prop (Bool b) k = inherited [] k"
| "get_prop (Num x) k = inherited number_proto k"
| "get_prop (Str s) k = get_index (map (\<lambda>c. Str [c]) s) string_proto k"
| "get_prop (Arr xs) k = get_index xs array_proto k"
| "get_prop (Obj ps) k = (case map_of ps k of Some v \<Rightarrow> Inr v | None \<Rightarrow> inherited [] k)"
| "get_prop (Fun f) k = Inl (Outside k)"

text \<open>\<open>o[v]\<close>: the base is checked first, then the key is converted to a string.\<close>

definition get_at :: "jsv \<Rightarrow> jsv \<Rightarrow> jsv res" where
  "get_at a v =
     (if is_nullish a then Inl (TypeError (case v of Str k \<Rightarrow> k | _ \<Rightarrow> []))
      else bindE (to_str v) (get_prop a))"

lemma get_at_Str [simp]: "get_at a (Str k) = get_prop a k"
  by (cases a) (simp_all add: get_at_def is_nullish_def)

lemma get_prop_own [simp]: "map_of ps k = Some v \<Longrightarrow> get_prop (Obj ps) k = Inr v"
  by simp

lemma get_prop_nullish_iff: "get_prop v k = Inl (TypeError k) \<longleftrightarrow> v = Undefined \<or> v = Null"
  by (cases v) (auto simp: inherited_def get_index_def split: option.splits)

text \<open>Assigning a property keeps its position, or adds it at the end.\<close>

definition obj_put :: "string \<Rightarrow> jsv \<Rightarrow> (string \<times> jsv) list \<Rightarrow> (string \<times> jsv) list" where
  "obj_put k v ps = AList.update k v ps"

lemma map_of_obj_put [simp]: "map_of (obj_put k v ps) = (map_of ps)(k \<mapsto> v)"
  by (simp add: obj_put_def update_conv')

section \<open>\<open>$.each\<close> over a value\<close>

text \<open>
  \<open>for (k in o)\<close> visits the keys that are array indices in ascending order, then the others in
  insertion order.
\<close>

definition array_index :: "string \<Rightarrow> nat option" where
  "array_index k =
     (case index_key k of Some i \<Rightarrow> if i < 2 ^ 32 - 1 then Some i else None | None \<Rightarrow> None)"

definition for_in :: "(string \<times> jsv) list \<Rightarrow> (string \<times> jsv) list" where
  "for_in ps =
     map snd (sort_key fst
       (List.map_filter (\<lambda>(k, v). map_option (\<lambda>i. (i, (k, v))) (array_index k)) ps))
     @ filter (\<lambda>(k, v). array_index k = None) ps"

text \<open>
  \<open>each_values v\<close>: the values \<open>$.each(v, f)\<close> passes to \<open>f\<close>, in order. The function reads
  \<open>v.length\<close> first: an array or a string is walked by position, a value without \<open>length\<close>
  by its keys. The callbacks of the scripts return nothing, so the walk never stops early.
  An object with a property called \<open>length\<close> would be walked as an array: outside the model.
\<close>

definition each_values :: "jsv \<Rightarrow> jsv list res" where
  "each_values v =
     (case v of
        Arr xs \<Rightarrow> Inr xs
      | Str s \<Rightarrow> Inr (map (\<lambda>c. Str [c]) s)
      | Obj ps \<Rightarrow> (if map_of ps ''length'' = None then Inr (map snd (for_in ps))
                  else Inl (Outside ''length''))
      | Num x \<Rightarrow> Inr []
      | Bool b \<Rightarrow> Inr []
      | Fun f \<Rightarrow> Inl (Outside ''length'')
      | _ \<Rightarrow> Inl (TypeError ''length''))"

lemma each_values_Arr [simp]: "each_values (Arr xs) = Inr xs"
  by (simp add: each_values_def)

lemma each_values_nullish [simp]:
  "each_values Undefined = Inl (TypeError ''length'')"
  "each_values Null = Inl (TypeError ''length'')"
  by (simp_all add: each_values_def)

section \<open>Reading along a path\<close>

text \<open>
  \<open>path v ks\<close>: the value reached from \<open>v\<close> along own properties. It is the specification of
  a chain of property accesses that raises no exception and reads nothing inherited.
\<close>

fun path :: "jsv \<Rightarrow> string list \<Rightarrow> jsv option" where
  "path v [] = Some v"
| "path (Obj ps) (k # ks) = (case map_of ps k of Some w \<Rightarrow> path w ks | None \<Rightarrow> None)"
| "path v (k # ks) = None"

lemma path_Cons: "path v (k # ks) = Some w \<longleftrightarrow> (\<exists>u. path v [k] = Some u \<and> path u ks = Some w)"
  by (cases v) (auto split: option.splits)

lemma path_get: "path v [k] = Some w \<Longrightarrow> get_prop v k = Inr w"
  by (cases v) (auto split: option.splits)

lemma path_get_Cons:
  "path v (k # l # ks) = Some w \<Longrightarrow> \<exists>u. get_prop v k = Inr u \<and> path u (l # ks) = Some w"
  using path_Cons [of v k "l # ks" w] path_get by blast

text \<open>An own property, or \<open>undefined\<close>.\<close>

definition field :: "jsv \<Rightarrow> string \<Rightarrow> jsv" where
  "field v k = (case path v [k] of Some w \<Rightarrow> w | None \<Rightarrow> Undefined)"

lemma get_prop_field: "k \<notin> set object_proto \<Longrightarrow> get_prop (Obj ps) k = Inr (field (Obj ps) k)"
  by (auto simp: field_def inherited_def split: option.splits)

lemma set_for_in: "set (for_in ps) = set ps"
  by (force simp: for_in_def List.map_filter_def)

lemma for_in_names:
  assumes "\<And>k. k \<in> fst ` set ps \<Longrightarrow> array_index k = None"
  shows "for_in ps = ps"
proof -
  have *: "array_index k = None" if "(k, v) \<in> set ps" for k v
    using assms that by force
  then have "filter (\<lambda>(k, v). array_index k = None) ps = ps" by (auto simp: filter_id_conv)
  moreover have "List.map_filter (\<lambda>(k, v). map_option (\<lambda>i. (i, (k, v))) (array_index k)) ps = []"
    using * by (auto simp: List.map_filter_def filter_empty_conv)
  ultimately show ?thesis by (simp add: for_in_def)
qed

end
