(* ===== verification/Perf_Axes.thy ===== *)
theory Perf_Axes
  imports Js_Value
begin

text \<open>
  The axes of \<open>html/perf.js\<close>: the tick generator \<open>log_ticks\<close>, a loop over doubles that need
  not end, the transformation \<open>log_transform\<close>, and the three axis constants handed to the
  plotting library.
\<close>

section \<open>The code\<close>

text \<open>The library calls \<open>log_ticks\<close> with the limits of the axis.\<close>

record axis =
  ax_min :: dbl
  ax_max :: dbl

text \<open>\<open>Math.log\<close> is implementation-approximated in the language: a parameter.\<close>

definition log_transform :: "(dbl \<Rightarrow> dbl) \<Rightarrow> dbl \<Rightarrow> dbl" where
  "log_transform math_log v = math_log v"

partial_function (option) log_ticks_loop :: "dbl \<Rightarrow> dbl \<Rightarrow> dbl list \<Rightarrow> dbl list option" where
  "log_ticks_loop mx val res =
     (if val < mx
      then (let val' = val * Fin 10 in log_ticks_loop mx val' (res @ [val']))
      else Some res)"

definition log_ticks :: "axis \<Rightarrow> dbl list option" where
  "log_ticks ax = log_ticks_loop (ax_max ax) (ax_min ax) [ax_min ax]"

definition axes_rate_and_latency :: jsv where
  "axes_rate_and_latency =
     Arr [Obj [(''min'', Num (Fin 0))],
          Obj [(''min'', Num (Fin 100)),
               (''transform'', Fun Log_transform),
               (''ticks'', Fun Log_ticks),
               (''position'', Str ''right'')] ]"

definition axes_rate_and_bytes :: jsv where
  "axes_rate_and_bytes =
     Arr [Obj [(''min'', Num (Fin 0))],
          Obj [(''min'', Num (Fin 0)),
               (''position'', Str ''right'')] ]"

definition log_x_axis :: jsv where
  "log_x_axis =
     Obj [(''min'', Num (Fin 1)),
          (''transform'', Fun Log_transform),
          (''ticks'', Fun Log_ticks)]"

section \<open>A loop that climbs\<close>

text \<open>
  The interface the loop needs of its numbers: on good values below the limit the next
  value is good and a rank goes down. Then some iterate is not below the limit.
\<close>

locale climbing =
  fixes good :: "'a \<Rightarrow> bool" and below :: "'a \<Rightarrow> bool" and next_val :: "'a \<Rightarrow> 'a"
    and rank :: "'a \<Rightarrow> nat"
  assumes good_next: "good v \<Longrightarrow> below v \<Longrightarrow> good (next_val v)"
    and rank_next: "good v \<Longrightarrow> below v \<Longrightarrow> rank (next_val v) < rank v"
begin

lemma exits:
  "good v \<Longrightarrow> \<exists>n. n \<le> rank v \<and> \<not> below ((next_val ^^ n) v) \<and> (\<forall>k < n. below ((next_val ^^ k) v))"
proof (induction "rank v" arbitrary: v rule: less_induct)
  case less
  show ?case
  proof (cases "below v")
    case False
    then show ?thesis by (intro exI [of _ 0]) simp
  next
    case True
    from less.prems True have "good (next_val v)" "rank (next_val v) < rank v"
      by (rule good_next, rule rank_next)
    with less.hyps obtain n where n: "n \<le> rank (next_val v)"
        "\<not> below ((next_val ^^ n) (next_val v))" "\<forall>k < n. below ((next_val ^^ k) (next_val v))"
      by blast
    have "below ((next_val ^^ k) v)" if "k < Suc n" for k
      using that True n(3) by (cases k) (simp_all add: funpow_swap1)
    then show ?thesis
      using n(1,2) \<open>rank (next_val v) < rank v\<close>
      by (intro exI [of _ "Suc n"]) (simp add: funpow_swap1)
  qed
qed

end

definition times10 :: "dbl \<Rightarrow> dbl" where
  "times10 v = v * Fin 10"

definition positive :: "dbl \<Rightarrow> bool" where
  "positive v \<longleftrightarrow> wf_dbl v \<and> Fin 0 < v"

text \<open>
  The distance to overflow in steps of three binary orders of magnitude: a multiplication
  by ten gains at least three.
\<close>

definition decades_left :: "dbl \<Rightarrow> nat" where
  "decades_left v = (case v of Fin q \<Rightarrow> nat ((1026 - flogb 2 q) div 3) | _ \<Rightarrow> 0)"

lemma flogb_wf_less:
  assumes "0 < q" and "wf_dbl (Fin q)"
  shows "flogb 2 q < 1024" and "- 1074 \<le> flogb 2 q"
proof -
  have "bpow 2 (flogb 2 q) < bpow 2 1024"
    using flogb_bounds [of 2 q] wf_pos_iff [OF assms(1)] assms by (simp del: wf_dbl.simps)
  then show "flogb 2 q < 1024" by (simp add: bpow_less_iff)
  have "bpow 2 (- 1074) < bpow 2 (flogb 2 q + 1)"
    using flogb_bounds [of 2 q] wf_pos_min [OF assms] assms(1) by simp
  then show "- 1074 \<le> flogb 2 q" by (simp add: bpow_less_iff)
qed

lemma flogb_times8:
  assumes "0 < q" and "8 * q \<le> r"
  shows "flogb 2 q + 3 \<le> flogb 2 r"
proof -
  have "bpow 2 (flogb 2 q + 3) = 8 * bpow 2 (flogb 2 q)"
    using bpow2_shift [of "flogb 2 q" 3] by simp
  also have "\<dots> \<le> r" using flogb_bounds [of 2 q] assms by simp
  finally have "bpow 2 (flogb 2 q + 3) < bpow 2 (flogb 2 r + 1)"
    using flogb_bounds [of 2 r] assms by simp
  then show ?thesis by (simp add: bpow_less_iff)
qed

interpretation decades: climbing positive "\<lambda>v. v < mx" times10 decades_left
proof
  fix v
  assume v: "positive v" "v < mx"
  then obtain q where q: "v = Fin q" "0 < q" "wf_dbl (Fin q)"
    by (cases v) (auto simp: positive_def)
  consider "times10 v = PInf"
    | r where "times10 v = Fin r" "8 * q \<le> r" "wf_dbl (Fin r)"
    using times10_grows [OF q(2,3)] by (auto simp: times10_def q(1) simp del: wf_dbl.simps)
  then show "positive (times10 v)"
    using q by cases (auto simp: positive_def)
  have lt: "flogb 2 q < 1024" using q by (intro flogb_wf_less)
  consider "times10 v = PInf"
    | r where "times10 v = Fin r" "8 * q \<le> r" "wf_dbl (Fin r)"
    using times10_grows [OF q(2,3)] by (auto simp: times10_def q(1) simp del: wf_dbl.simps)
  then show "decades_left (times10 v) < decades_left v"
  proof cases
    case 1
    then show ?thesis using lt by (simp add: decades_left_def q(1))
  next
    case (2 r)
    have "flogb 2 q + 3 \<le> flogb 2 r" using q(2) 2(2) by (rule flogb_times8)
    moreover have "flogb 2 r < 1024" using 2 q(2) by (intro flogb_wf_less) auto
    ultimately have "nat ((1026 - flogb 2 r) div 3) < nat ((1026 - flogb 2 q) div 3)"
      by linarith
    then show ?thesis using 2(1) by (simp add: decades_left_def q(1))
  qed
qed

lemma decades_left_bound:
  assumes "positive v"
  shows "decades_left v \<le> 700"
proof (cases v)
  case (Fin q)
  with assms have "- 1074 \<le> flogb 2 q"
    by (intro flogb_wf_less) (auto simp: positive_def simp del: wf_dbl.simps)
  then have "nat ((1026 - flogb 2 q) div 3) \<le> 700" by linarith
  then show ?thesis by (simp add: decades_left_def Fin)
qed (simp_all add: decades_left_def)

section \<open>What the loop returns\<close>

declare log_ticks_loop.simps [code]

lemma log_ticks_loop_stop: "\<not> v < mx \<Longrightarrow> log_ticks_loop mx v res = Some res"
  by (simp add: log_ticks_loop.simps)

lemma log_ticks_loop_step:
  "v < mx \<Longrightarrow> log_ticks_loop mx v res = log_ticks_loop mx (times10 v) (res @ [times10 v])"
  by (subst log_ticks_loop.simps) (simp add: times10_def Let_def)

lemma log_ticks_loop_run:
  "(\<forall>k < n. (times10 ^^ k) v < mx) \<Longrightarrow>
   log_ticks_loop mx v res =
     log_ticks_loop mx ((times10 ^^ n) v) (res @ map (\<lambda>k. (times10 ^^ Suc k) v) [0..<n])"
proof (induction n)
  case (Suc n)
  then have "log_ticks_loop mx v res =
      log_ticks_loop mx ((times10 ^^ n) v) (res @ map (\<lambda>k. (times10 ^^ Suc k) v) [0..<n])"
    by simp
  also have "\<dots> = log_ticks_loop mx ((times10 ^^ Suc n) v)
      (res @ map (\<lambda>k. (times10 ^^ Suc k) v) [0..<Suc n])"
    using Suc.prems by (simp add: log_ticks_loop_step)
  finally show ?case .
qed simp

lemma log_ticks_iterates:
  assumes "\<forall>k < n. (times10 ^^ k) (ax_min ax) < ax_max ax"
    and "\<not> (times10 ^^ n) (ax_min ax) < ax_max ax"
  shows "log_ticks ax = Some (map (\<lambda>k. (times10 ^^ k) (ax_min ax)) [0..<Suc n])"
proof -
  have "[ax_min ax] @ map (\<lambda>k. (times10 ^^ Suc k) (ax_min ax)) [0..<n]
      = map (\<lambda>k. (times10 ^^ k) (ax_min ax)) [0..<Suc n]"
    by (simp only: upt_conv_Cons [of 0 "Suc n"] map_Suc_upt [symmetric] zero_less_Suc) simp
  then show ?thesis
    using log_ticks_loop_run [OF assms(1)] assms(2)
    by (simp add: log_ticks_def log_ticks_loop_stop)
qed

text \<open>Values that a multiplication by ten never raises.\<close>

definition stuck :: "dbl \<Rightarrow> bool" where
  "stuck v \<longleftrightarrow> v = NInf \<or> (\<exists>q. v = Fin q \<and> q \<le> 0)"

lemma rnd_neg: "rnd (- q) = dbl_neg (rnd q)"
  by (auto simp: rnd_def Let_def)

lemma times10_stuck:
  assumes "wf_dbl v" and "stuck v" and "v < mx"
  shows "wf_dbl (times10 v)" and "stuck (times10 v)" and "times10 v < mx"
proof -
  show "wf_dbl (times10 v)" by (simp add: times10_def wf_times)
  have "stuck (times10 v) \<and> times10 v < mx"
  proof (cases "v = NInf \<or> v = Fin 0")
    case True
    then show ?thesis using assms by (auto simp: times10_def stuck_def)
  next
    case False
    with assms obtain q where v: "v = Fin (- q)" and q: "0 < q"
      by (metis stuck_def minus_minus less_le neg_0_less_iff_less neg_equal_0_iff_equal)
    have "rnd (- q) = Fin (- q)" using assms(1) v by simp
    then have "wf_dbl (Fin q)" by (cases "rnd q") (simp_all add: rnd_neg)
    from times10_grows [OF q this] have "rnd (q * 10) = PInf \<or> (\<exists>r. rnd (q * 10) = Fin r \<and> 8 * q \<le> r)"
      by auto
    moreover have "times10 v = dbl_neg (rnd (q * 10))"
      by (simp add: times10_def v rnd_neg)
    ultimately show ?thesis
      using assms(3) q by (cases mx) (auto simp: v stuck_def)
  qed
  then show "stuck (times10 v)" "times10 v < mx" by auto
qed

lemma log_ticks_loop_stuck:
  assumes "log_ticks_loop mx v res = Some out"
  shows "\<not> (wf_dbl v \<and> stuck v \<and> v < mx)"
proof (rule log_ticks_loop.raw_induct [where P = "\<lambda>mx v res out. \<not> (wf_dbl v \<and> stuck v \<and> v < mx)", OF _ assms])
  fix f mx v res out
  assume IH: "\<And>mx v res out. f mx v res = Some out \<Longrightarrow> \<not> (wf_dbl v \<and> stuck v \<and> v < mx)"
    and eq: "(if v < mx then let val' = v * Fin 10 in f mx val' (res @ [val']) else Some res) = Some out"
  show "\<not> (wf_dbl v \<and> stuck v \<and> v < mx)"
  proof
    assume s: "wf_dbl v \<and> stuck v \<and> v < mx"
    with eq have "f mx (times10 v) (res @ [times10 v]) = Some out"
      by (simp add: Let_def times10_def)
    then have "\<not> (wf_dbl (times10 v) \<and> stuck (times10 v) \<and> times10 v < mx)" by (rule IH)
    with s times10_stuck show False by blast
  qed
qed

section \<open>Properties\<close>

lemma times10_positive_iterates:
  "positive v \<Longrightarrow> \<exists>n \<le> 700. (\<forall>k < n. (times10 ^^ k) v < mx) \<and> \<not> (times10 ^^ n) v < mx"
  using decades.exits [of v mx] decades_left_bound [of v] by (meson order_trans)

text \<open>
  C39: \<open>log_ticks\<close> returns exactly when the lower limit of the axis is positive or not below
  the upper limit. From a lower limit of zero or less it runs forever, whatever the positive
  limit: multiplying by ten never gets there.
\<close>

theorem log_ticks_returns_iff:
  assumes "wf_dbl (ax_min ax)"
  shows "log_ticks ax \<noteq> None \<longleftrightarrow> Fin 0 < ax_min ax \<or> \<not> ax_min ax < ax_max ax"
proof
  assume "log_ticks ax \<noteq> None"
  then obtain out where "log_ticks_loop (ax_max ax) (ax_min ax) [ax_min ax] = Some out"
    by (auto simp: log_ticks_def)
  then have "\<not> (wf_dbl (ax_min ax) \<and> stuck (ax_min ax) \<and> ax_min ax < ax_max ax)"
    by (rule log_ticks_loop_stuck)
  with assms show "Fin 0 < ax_min ax \<or> \<not> ax_min ax < ax_max ax"
    by (cases "ax_min ax") (auto simp: stuck_def)
next
  assume *: "Fin 0 < ax_min ax \<or> \<not> ax_min ax < ax_max ax"
  show "log_ticks ax \<noteq> None"
  proof (cases "ax_min ax < ax_max ax")
    case True
    with * assms have "positive (ax_min ax)" by (simp add: positive_def)
    then obtain n where "\<forall>k < n. (times10 ^^ k) (ax_min ax) < ax_max ax"
        "\<not> (times10 ^^ n) (ax_min ax) < ax_max ax"
      using times10_positive_iterates by blast
    then show ?thesis using log_ticks_iterates by simp
  next
    case False
    then show ?thesis by (simp add: log_ticks_def log_ticks_loop_stop)
  qed
qed

theorem log_ticks_returns_iff_witness:
  "log_ticks \<lparr>ax_min = Fin 0, ax_max = Fin 10\<rparr> = None \<and>
   log_ticks \<lparr>ax_min = Fin 1, ax_max = PInf\<rparr> \<noteq> None"
  using log_ticks_returns_iff [of "\<lparr>ax_min = Fin 0, ax_max = Fin 10\<rparr>"]
    log_ticks_returns_iff [of "\<lparr>ax_min = Fin 1, ax_max = PInf\<rparr>"] rnd_int [of 1]
  by simp

text \<open>
  From a positive lower limit the ticks are the lower limit times the powers of ten, each
  rounded to a double; there are at most 701; all but the last are below the upper limit and
  the last is not. This holds for every upper limit, infinity and NaN included.
\<close>

theorem log_ticks_shape:
  assumes "wf_dbl (ax_min ax)" and "Fin 0 < ax_min ax"
  shows "\<exists>ts. log_ticks ax = Some ts \<and> ts \<noteq> [] \<and> length ts \<le> 701 \<and> hd ts = ax_min ax \<and>
    (\<forall>k. Suc k < length ts \<longrightarrow> ts ! Suc k = ts ! k * Fin 10 \<and> ts ! k < ax_max ax) \<and>
    \<not> last ts < ax_max ax"
proof -
  have "positive (ax_min ax)" using assms by (simp add: positive_def)
  then obtain n where n: "n \<le> 700" "\<forall>k < n. (times10 ^^ k) (ax_min ax) < ax_max ax"
      "\<not> (times10 ^^ n) (ax_min ax) < ax_max ax"
    using times10_positive_iterates by blast
  define ts where "ts = map (\<lambda>k. (times10 ^^ k) (ax_min ax)) [0..<Suc n]"
  have "log_ticks ax = Some ts" unfolding ts_def using n(2,3) by (rule log_ticks_iterates)
  moreover have len: "length ts = Suc n" by (simp add: ts_def)
  moreover have nth: "ts ! k = (times10 ^^ k) (ax_min ax)" if "k < Suc n" for k
    using that by (simp add: ts_def del: upt_Suc)
  moreover have "hd ts = ax_min ax" using nth [of 0] len by (simp add: hd_conv_nth flip: length_greater_0_conv)
  moreover have "last ts = (times10 ^^ n) (ax_min ax)" using nth [of n] len by (simp add: last_conv_nth flip: length_greater_0_conv)
  moreover have "\<forall>k. Suc k < length ts \<longrightarrow> ts ! Suc k = ts ! k * Fin 10 \<and> ts ! k < ax_max ax"
    using n(2) nth len by (simp add: times10_def)
  ultimately show ?thesis using n(1,3) by (intro exI [of _ ts]) auto
qed

theorem log_ticks_shape_witness:
  "\<exists>ts. log_ticks \<lparr>ax_min = Fin 100, ax_max = PInf\<rparr> = Some ts \<and> ts \<noteq> [] \<and> length ts \<le> 701 \<and>
    hd ts = Fin 100 \<and> \<not> last ts < PInf"
  using log_ticks_shape [of "\<lparr>ax_min = Fin 100, ax_max = PInf\<rparr>"] rnd_int [of 100] by force

text \<open>Powers of ten up to \<open>10^22\<close> are doubles, so the multiplications are exact there.\<close>

lemma pow10_exact:
  assumes "j \<le> 22"
  shows "rnd (10 ^ j) = Fin (10 ^ j)"
proof -
  have eq: "(10 ^ j :: rat) = of_int (5 ^ j) * bpow 2 (int j)"
    by (simp add: bpow_nat power_mult_distrib [symmetric])
  have "(5 :: int) ^ j \<le> 5 ^ 22" using assms by (intro power_increasing) auto
  then have m: "\<bar>5 ^ j :: int\<bar> \<le> 2 ^ 53" by simp
  have "(10 :: rat) ^ j \<le> 10 ^ 22" using assms by (intro power_increasing) auto
  also have "\<dots> \<le> bpow 2 74" using bpow_nat [of 2 74] by simp
  also have "\<dots> < bpow 2 1024" by (simp only: bpow_less_iff)
  finally have "\<bar>of_int (5 ^ j) * bpow 2 (int j)\<bar> < bpow 2 1024" using eq by simp
  then show ?thesis unfolding eq using m by (intro rnd_exact) auto
qed

lemma times10_pow10: "a + k \<le> 22 \<Longrightarrow> (times10 ^^ k) (Fin (10 ^ a)) = Fin (10 ^ (a + k))"
proof (induction k)
  case (Suc k)
  have "times10 (Fin (10 ^ (a + k))) = rnd (10 ^ (a + k) * 10)" by (simp add: times10_def)
  then have "(times10 ^^ Suc k) (Fin (10 ^ a)) = rnd (10 ^ (a + k) * 10)"
    using Suc by simp
  also have "\<dots> = Fin (10 ^ (a + Suc k))" using pow10_exact [of "a + Suc k"] Suc.prems
    by (simp add: mult.commute)
  finally show ?case .
qed simp

text \<open>
  For the axes of the code, whose lower limit is a power of ten, and an upper limit of at
  most \<open>10^22\<close>, the ticks are exactly the powers of ten from the lower limit up to the first
  that reaches the upper limit.
\<close>

theorem log_ticks_decades:
  assumes "a \<le> b" and "b \<le> 22" and "a < b \<Longrightarrow> 10 ^ (b - 1) < m" and "m \<le> 10 ^ b"
  shows "log_ticks \<lparr>ax_min = Fin (10 ^ a), ax_max = Fin m\<rparr> =
    Some (map (\<lambda>j. Fin (10 ^ j)) [a..<Suc b])"
proof -
  let ?ax = "\<lparr>ax_min = Fin (10 ^ a), ax_max = Fin m\<rparr>"
  have it: "(times10 ^^ k) (Fin (10 ^ a)) = Fin (10 ^ (a + k))" if "k \<le> b - a" for k
    using that assms(1,2) by (intro times10_pow10) simp
  have "10 ^ (a + k) < m" if "k < b - a" for k
  proof -
    have "(10 :: rat) ^ (a + k) \<le> 10 ^ (b - 1)" using that by (intro power_increasing) auto
    moreover have "10 ^ (b - 1) < m" using assms(3) that by simp
    ultimately show ?thesis by linarith
  qed
  then have "\<forall>k < b - a. (times10 ^^ k) (ax_min ?ax) < ax_max ?ax" using it by simp
  moreover have "\<not> (times10 ^^ (b - a)) (ax_min ?ax) < ax_max ?ax"
    using it [of "b - a"] assms by simp
  ultimately have "log_ticks ?ax = Some (map (\<lambda>k. (times10 ^^ k) (ax_min ?ax)) [0..<Suc (b - a)])"
    by (rule log_ticks_iterates)
  moreover have "map (\<lambda>k. (times10 ^^ k) (ax_min ?ax)) [0..<Suc (b - a)] = map (\<lambda>j. Fin (10 ^ j)) [a..<Suc b]"
    using it assms(1) by (intro nth_equalityI) (auto simp del: upt_Suc)
  ultimately show ?thesis by simp
qed

theorem log_ticks_decades_witness:
  "log_ticks \<lparr>ax_min = Fin 100, ax_max = Fin 1126474\<rparr> =
    Some [Fin 100, Fin 1000, Fin 10000, Fin 100000, Fin 1000000, Fin 10000000]"
  using log_ticks_decades [of 2 7 1126474] by (simp add: upt_rec)

text \<open>The axis objects of an options value: the elements of an array of axes, or one axis.\<close>

fun axis_objects :: "jsv \<Rightarrow> (string \<times> jsv) list list" where
  "axis_objects (Arr xs) = concat (map axis_objects xs)"
| "axis_objects (Obj ps) = [ps]"
| "axis_objects v = []"

text \<open>
  No axis that \<open>html/perf.js\<close> configures can hang the page: every axis object of the three
  constants that asks for \<open>log_ticks\<close> fixes a positive lower limit, so the ticks are returned
  for every upper limit the data may have, and there are at most 701.
\<close>

theorem configured_axes_return:
  assumes "ps \<in> set (axis_objects axes_rate_and_latency @ axis_objects axes_rate_and_bytes @
             axis_objects log_x_axis)"
    and "map_of ps ''ticks'' = Some (Fun Log_ticks)"
  shows "\<exists>lo. map_of ps ''min'' = Some (Num lo) \<and>
    (\<forall>hi. \<exists>ts. log_ticks \<lparr>ax_min = lo, ax_max = hi\<rparr> = Some ts \<and> length ts \<le> 701)"
proof -
  have "map_of ps ''min'' = Some (Num (Fin 100)) \<or> map_of ps ''min'' = Some (Num (Fin 1))"
    using assms by (auto simp: axes_rate_and_latency_def axes_rate_and_bytes_def log_x_axis_def)
  moreover have "\<exists>ts. log_ticks \<lparr>ax_min = Fin (of_int i), ax_max = hi\<rparr> = Some ts \<and> length ts \<le> 701"
    if "0 < i" "i \<le> 2 ^ 53" for i hi
  proof -
    have "positive (Fin (of_int i))" using that by (simp add: positive_def rnd_int)
    then obtain n where "n \<le> 700" "\<forall>k < n. (times10 ^^ k) (Fin (of_int i)) < hi"
        "\<not> (times10 ^^ n) (Fin (of_int i)) < hi"
      using times10_positive_iterates by blast
    then show ?thesis
      using log_ticks_iterates [of n "\<lparr>ax_min = Fin (of_int i), ax_max = hi\<rparr>"] by (auto simp del: upt_Suc)
  qed
  from this [of 100] this [of 1]
  have "\<exists>ts. log_ticks \<lparr>ax_min = Fin 100, ax_max = hi\<rparr> = Some ts \<and> length ts \<le> 701"
    and "\<exists>ts. log_ticks \<lparr>ax_min = Fin 1, ax_max = hi\<rparr> = Some ts \<and> length ts \<le> 701" for hi
    by simp_all
  ultimately show ?thesis by blast
qed

theorem configured_axes_return_witness:
  "\<exists>lo. map_of [(''min'', Num (Fin 1)), (''transform'', Fun Log_transform), (''ticks'', Fun Log_ticks)] ''min''
      = Some (Num lo) \<and>
    (\<forall>hi. \<exists>ts. log_ticks \<lparr>ax_min = lo, ax_max = hi\<rparr> = Some ts \<and> length ts \<le> 701)"
  by (rule configured_axes_return) (simp_all add: log_x_axis_def)

end
