(* ===== verification/Perf_Charts.thy ===== *)
theory Perf_Charts
  imports Perf_Axes
begin

text \<open>
  The part of \<open>html/perf.js\<close> that computes: the series handed to the plotting library by
  each kind of chart, the options object \<open>chrome\<close>, and the rate of a summary. Every
  definition takes the attribute values the code reads and returns what the code builds,
  or the exception it raises.
\<close>

section \<open>Series\<close>

definition point :: "jsv \<Rightarrow> jsv \<Rightarrow> jsv" where
  "point x y = Arr [x, y]"

text \<open>\<open>plot_time\<close>: one series per key, one point per sample.\<close>

definition time_keys :: "bool \<Rightarrow> string list" where
  "time_keys show_latency =
     (if show_latency then [''send-msg-rate'', ''recv-msg-rate'', ''avg-latency'']
      else [''send-msg-rate'', ''recv-msg-rate''])"

definition time_point :: "string \<Rightarrow> jsv \<Rightarrow> jsv res" where
  "time_point plot_key sample =
     bindE (get_prop sample ''elapsed'') (\<lambda>el.
     bindE (js_div el 1000) (\<lambda>x.
     bindE (get_prop sample plot_key) (\<lambda>y. Inr (point x y))))"

definition time_series :: "jsv \<Rightarrow> string \<Rightarrow> jsv res" where
  "time_series data plot_key =
     bindE (get_prop data ''samples'') (\<lambda>samples.
     bindE (each_values samples) (\<lambda>ss.
     bindE (mapE (time_point plot_key) ss) (\<lambda>d.
       Inr (Obj [(''label'', Str plot_key), (''data'', Arr d),
                 (''yaxis'', Num (Fin (if index_of plot_key ''latency'' = - 1 then 1 else 2)))]))))"

definition time_chart :: "bool \<Rightarrow> jsv \<Rightarrow> jsv list res" where
  "time_chart show_latency data = mapE (time_series data) (time_keys show_latency)"

text \<open>\<open>plot_series\<close>: one series per value of the series dimension, one point per x value.\<close>

definition grid_value :: "bool \<Rightarrow> jsv \<Rightarrow> jsv \<Rightarrow> jsv \<Rightarrow> jsv res" where
  "grid_value series_first data s_val x_val =
     (if series_first then bindE (get_at data s_val) (\<lambda>r. get_at r x_val)
      else bindE (get_at data x_val) (\<lambda>r. get_at r s_val))"

definition series_point :: "bool \<Rightarrow> jsv \<Rightarrow> jsv \<Rightarrow> jsv \<Rightarrow> jsv \<Rightarrow> jsv res" where
  "series_point series_first data plot_key s_val x_val =
     bindE (grid_value series_first data s_val x_val) (\<lambda>val.
     bindE (get_at val plot_key) (\<lambda>y. Inr (point x_val y)))"

definition one_series :: "bool \<Rightarrow> jsv \<Rightarrow> jsv \<Rightarrow> jsv \<Rightarrow> jsv \<Rightarrow> jsv \<Rightarrow> jsv res" where
  "one_series series_first data plot_key series_key x_values s_val =
     bindE (each_values x_values) (\<lambda>xs.
     bindE (mapE (series_point series_first data plot_key s_val) xs) (\<lambda>d.
     bindE (js_add series_key (Str '' = '')) (\<lambda>l.
     bindE (js_add l s_val) (\<lambda>label.
       Inr (Obj [(''label'', label), (''data'', Arr d)])))))"

definition series_chart :: "jsv \<Rightarrow> jsv \<Rightarrow> jsv \<Rightarrow> jsv \<Rightarrow> jsv \<Rightarrow> jsv \<Rightarrow> jsv list res" where
  "series_chart x_key series_key plot_key dimensions dimension_values data =
     bindE (get_prop dimensions ''0'') (\<lambda>d0.
     bindE (loose_eq d0 series_key) (\<lambda>series_first.
     bindE (get_at dimension_values series_key) (\<lambda>series_values.
     bindE (get_at dimension_values x_key) (\<lambda>x_values.
     bindE (each_values series_values) (\<lambda>ss.
       mapE (one_series series_first data plot_key series_key x_values) ss)))))"

text \<open>\<open>plot_x_y\<close>: one series per word of \<open>data-plot-keys\<close>.\<close>

definition x_point :: "jsv \<Rightarrow> string \<Rightarrow> jsv \<Rightarrow> jsv res" where
  "x_point data plot_key x_val =
     bindE (get_at data x_val) (\<lambda>r.
     bindE (get_prop r plot_key) (\<lambda>y. Inr (point x_val y)))"

definition is_bytes :: "string \<Rightarrow> bool" where
  "is_bytes plot_key \<longleftrightarrow> index_of plot_key ''bytes'' \<noteq> - 1"

definition xy_series :: "jsv \<Rightarrow> jsv \<Rightarrow> string \<Rightarrow> jsv res" where
  "xy_series x_values data plot_key =
     bindE (each_values x_values) (\<lambda>xs.
     bindE (mapE (x_point data plot_key) xs) (\<lambda>d.
       Inr (Obj [(''label'', Str plot_key), (''data'', Arr d),
                 (''yaxis'', Num (Fin (if is_bytes plot_key then 2 else 1)))])))"

text \<open>The options start as \<open>{}\<close>; a key that names bytes sets them to the bytes axes.\<close>

definition xy_extra :: "string list \<Rightarrow> (string \<times> jsv) list" where
  "xy_extra plot_keys =
     foldl (\<lambda>extra k. if is_bytes k then [(''yaxes'', axes_rate_and_bytes)] else extra) [] plot_keys"

definition xy_chart ::
  "jsv \<Rightarrow> string \<Rightarrow> jsv \<Rightarrow> jsv \<Rightarrow> (jsv list \<times> (string \<times> jsv) list) res" where
  "xy_chart x_key plot_keys dimension_values data =
     bindE (get_at dimension_values x_key) (\<lambda>x_values.
     let keys = split_chr (CHR '' '') plot_keys in
     bindE (mapE (xy_series x_values data) keys) (\<lambda>cd. Inr (cd, xy_extra keys)))"

text \<open>\<open>plot_r_l\<close>: the rate achieved and the latency over the attempted rate.\<close>

definition rl_series :: "jsv \<Rightarrow> jsv \<Rightarrow> string \<Rightarrow> string \<Rightarrow> rat \<Rightarrow> jsv res" where
  "rl_series x_values data plot_key label yaxis =
     bindE (each_values x_values) (\<lambda>xs.
     bindE (mapE (x_point data plot_key) xs) (\<lambda>d.
       Inr (Obj [(''label'', Str label), (''data'', Arr d), (''yaxis'', Num (Fin yaxis))])))"

definition rl_chart :: "jsv \<Rightarrow> jsv \<Rightarrow> jsv list res" where
  "rl_chart dimension_values data =
     bindE (get_prop dimension_values ''producerRateLimit'') (\<lambda>x_values.
     bindE (rl_series x_values data ''send-msg-rate'' ''rate achieved'' 1) (\<lambda>a.
     bindE (rl_series x_values data ''avg-latency'' ''latency (us)'' 2) (\<lambda>b. Inr [a, b])))"

section \<open>Options\<close>

definition base_chrome :: "jsv \<Rightarrow> (string \<times> jsv) list" where
  "base_chrome legend =
     [(''series'', Obj [(''lines'', Obj [(''show'', Bool True)])]),
      (''grid'', Obj [(''borderWidth'', Num (Fin 2)), (''borderColor'', Str ''#aaa'')]),
      (''xaxis'', Obj [(''tickColor'', Str ''#fff'')]),
      (''yaxis'', Obj [(''tickColor'', Str ''#eee'')]),
      (''legend'', Obj [(''position'', legend), (''backgroundOpacity'', Num (rnd (1 / 2)))])]"

definition chrome :: "jsv \<Rightarrow> bool \<Rightarrow> (string \<times> jsv) list \<Rightarrow> bool \<Rightarrow> (string \<times> jsv) list" where
  "chrome legend small extra x_axis_log =
     (let c0 = base_chrome legend;
          c1 = (if small then obj_put ''legend'' (Obj [(''show'', Bool False)]) c0 else c0);
          c2 = foldl (\<lambda>c (k, v). obj_put k v c) c1 (for_in extra)
      in if x_axis_log then obj_put ''xaxis'' log_x_axis c2 else c2)"

section \<open>Summaries\<close>

definition summary_rate :: "jsv \<Rightarrow> jsv \<Rightarrow> jsv res" where
  "summary_rate mode data =
     bindE (loose_eq mode (Str ''send'')) (\<lambda>send.
     if send then bindE (get_prop data ''send-msg-rate'') js_round
     else bindE (loose_eq mode (Str ''recv'')) (\<lambda>recv.
       if recv then bindE (get_prop data ''recv-msg-rate'') js_round
       else bindE (get_prop data ''send-msg-rate'') (\<lambda>s.
            bindE (get_prop data ''recv-msg-rate'') (\<lambda>r.
            bindE (js_add s r) (\<lambda>t. bindE (js_div t 2) js_round)))))"

definition summary_html :: "jsv \<Rightarrow> string res" where
  "summary_html rate =
     bindE (js_add (Str ''<strong>'') rate) (\<lambda>a.
     bindE (js_add a (Str ''</strong>msg/s'')) (\<lambda>b. to_str b))"

end
