(* ===== verification/Perf_Charts_Spec.thy ===== *)
theory Perf_Charts_Spec
  imports Perf_Charts
begin

text \<open>
  What the charts of \<open>html/perf.js\<close> contain: the points of each kind of chart as a function
  of the results, the conditions under which a chart is refused, the options object, and
  the rate of a summary.
\<close>

section \<open>Specification of a chart\<close>

text \<open>A series as the plotting library expects it: a label, points, and the number of the
  y axis where the code gives one.\<close>

definition series_obj :: "string \<Rightarrow> jsv list \<Rightarrow> rat option \<Rightarrow> jsv" where
  "series_obj label pts yaxis =
     Obj ([(''label'', Str label), (''data'', Arr pts)] @
          (case yaxis of Some y \<Rightarrow> [(''yaxis'', Num (Fin y))] | None \<Rightarrow> []))"

text \<open>A sample: an object with its own numeric time.\<close>

fun sample_time :: "jsv \<Rightarrow> dbl option" where
  "sample_time v = (case path v [''elapsed''] of Some (Num t) \<Rightarrow> Some t | _ \<Rightarrow> None)"

lemma sample_time_Obj: "sample_time v = Some t \<Longrightarrow> \<exists>ps. v = Obj ps \<and> map_of ps ''elapsed'' = Some (Num t)"
  by (cases v) (auto split: option.splits jsv.splits)

lemma time_keys_plain: "k \<in> set (time_keys lat) \<Longrightarrow> k \<notin> set object_proto"
  by (auto simp: time_keys_def object_proto_def split: if_splits)

lemma time_point_ok:
  assumes "sample_time s = Some t" and "k \<notin> set object_proto"
  shows "time_point k s = Inr (point (Num (div_pos t 1000)) (field s k))"
proof -
  obtain ps where ps: "s = Obj ps" "map_of ps ''elapsed'' = Some (Num t)"
    using sample_time_Obj [OF assms(1)] by blast
  then have "get_prop s ''elapsed'' = Inr (Num t)" by simp
  moreover have "get_prop s k = Inr (field s k)" using assms(2) by (simp add: ps(1) get_prop_field del: get_prop.simps)
  ultimately show ?thesis by (simp add: time_point_def del: get_prop.simps)
qed

text \<open>
  A time chart has one series per rate, and a latency series on the second axis when it
  is asked for; each series has one point per sample, in the order of the samples, at the
  elapsed time in seconds. A sample without a latency gives a point with no value.
\<close>

lemma time_chart_points:
  assumes "path data [''samples''] = Some (Arr ss)"
    and "\<forall>s \<in> set ss. sample_time s = Some (elapsed s)"
  shows "time_chart show_latency data = Inr (map (\<lambda>k. series_obj k
      (map (\<lambda>s. point (Num (div_pos (elapsed s) 1000)) (field s k)) ss)
      (Some (if k = ''avg-latency'' then 2 else 1))) (time_keys show_latency))"
  unfolding time_chart_def
proof (rule mapE_total)
  fix k assume k: "k \<in> set (time_keys show_latency)"
  have "mapE (time_point k) ss = Inr (map (\<lambda>s. point (Num (div_pos (elapsed s) 1000)) (field s k)) ss)"
    using assms(2) time_keys_plain [OF k] by (intro mapE_total time_point_ok) auto
  moreover have "(if index_of k ''latency'' = - 1 then 1 else 2) = (if k = ''avg-latency'' then 2 else (1 :: rat))"
    using k by (auto simp: time_keys_def index_of_def split: if_splits)
  ultimately show "time_series data k = Inr (series_obj k
      (map (\<lambda>s. point (Num (div_pos (elapsed s) 1000)) (field s k)) ss)
      (Some (if k = ''avg-latency'' then 2 else 1)))"
    using path_get [OF assms(1)] by (simp add: time_series_def series_obj_def)
qed

text \<open>
  The grid of a varying scenario: the value of \<open>key\<close> for a value of the series dimension and
  a value of the x dimension, whichever of the two is nested outside.
\<close>

definition grid_path :: "bool \<Rightarrow> string \<Rightarrow> string \<Rightarrow> string \<Rightarrow> string list" where
  "grid_path series_first s x key = (if series_first then [s, x, key] else [x, s, key])"

lemma series_point_ok:
  assumes "path data (grid_path series_first s x key) = Some v"
  shows "series_point series_first data (Str key) (Str s) (Str x) = Inr (point (Str x) v)"
proof -
  define a where "a = (if series_first then s else x)"
  define b where "b = (if series_first then x else s)"
  have "path data [a, b, key] = Some v" using assms by (simp add: grid_path_def a_def b_def split: if_splits)
  then obtain r where r: "get_prop data a = Inr r" "path r [b, key] = Some v"
    using path_get_Cons by blast
  then obtain c where c: "get_prop r b = Inr c" "path c [key] = Some v" using path_get_Cons by blast
  show ?thesis
    using r(1) c(1) path_get [OF c(2)]
    by (simp add: series_point_def grid_value_def a_def b_def split: if_splits)
qed

text \<open>
  A series chart over a complete grid has one series per value of the series dimension, in
  the order of the results, labelled \<open>key = value\<close>, with one point per value of the x
  dimension; each point carries the plotted key of the run with these two values.
\<close>

lemma series_chart_points:
  assumes "path dimension_values [series_key] = Some (Arr (map Str ss))"
    and "path dimension_values [x_key] = Some (Arr (map Str xs))"
    and "\<forall>s \<in> set ss. \<forall>x \<in> set xs. path data (grid_path (d0 = series_key) s x plot_key) = Some (val s x)"
  shows "series_chart (Str x_key) (Str series_key) (Str plot_key) (Arr (Str d0 # ds)) dimension_values data =
    Inr (map (\<lambda>s. series_obj (series_key @ '' = '' @ s) (map (\<lambda>x. point (Str x) (val s x)) xs) None) ss)"
proof -
  have d0: "get_prop (Arr (Str d0 # ds)) ''0'' = Inr (Str d0)"
    by (simp add: get_index_def index_key_def is_digit_def dec_val_def digit_val_def)
  have one: "one_series (d0 = series_key) data (Str plot_key) (Str series_key) (Arr (map Str xs)) (Str s) =
      Inr (series_obj (series_key @ '' = '' @ s) (map (\<lambda>x. point (Str x) (val s x)) xs) None)"
    if "s \<in> set ss" for s
  proof -
    have "mapE (series_point (d0 = series_key) data (Str plot_key) (Str s)) (map Str xs) =
        Inr (map (\<lambda>v. point v (case v of Str x \<Rightarrow> val s x | _ \<Rightarrow> Undefined)) (map Str xs))"
      using assms(3) that by (intro mapE_total) (auto intro!: series_point_ok)
    then show ?thesis
      by (simp add: one_series_def series_obj_def js_add_def is_str_def comp_def)
  qed
  have "mapE (one_series (d0 = series_key) data (Str plot_key) (Str series_key) (Arr (map Str xs))) (map Str ss) =
      Inr (map (\<lambda>v. case v of Str s \<Rightarrow> series_obj (series_key @ '' = '' @ s)
        (map (\<lambda>x. point (Str x) (val s x)) xs) None | _ \<Rightarrow> Undefined) (map Str ss))"
    using one by (intro mapE_total) auto
  then show ?thesis
    using path_get [OF assms(1)] path_get [OF assms(2)] d0
    by (simp add: series_chart_def comp_def del: get_prop.simps)
qed

text \<open>A two by two grid used by the witnesses: message sizes outside, producer counts inside.\<close>

definition demo_cell :: "rat \<Rightarrow> jsv" where
  "demo_cell q = Obj [(''send-msg-rate'', Num (Fin q))]"

definition demo_grid :: jsv where
  "demo_grid =
     Obj [(''0'', Obj [(''1'', demo_cell 10), (''2'', demo_cell 20)]),
          (''1000'', Obj [(''1'', demo_cell 30), (''2'', demo_cell 40)])]"

definition demo_values :: jsv where
  "demo_values =
     Obj [(''minMsgSize'', Arr [Str ''0'', Str ''1000'']), (''producerCount'', Arr [Str ''1'', Str ''2''])]"

definition demo_val :: "string \<Rightarrow> string \<Rightarrow> jsv" where
  "demo_val s x = Num (Fin ((if s = ''0'' then 0 else 20) + (if x = ''1'' then 10 else 20)))"

lemmas demo_defs = demo_cell_def demo_grid_def demo_values_def demo_val_def grid_path_def

text \<open>
  The two nestings of a grid give the same chart. Transposing the results and swapping the
  two dimensions changes nothing in what is drawn, for either choice of the series dimension.
\<close>

theorem series_chart_transpose:
  assumes "path dimension_values [series_key] = Some (Arr (map Str ss))"
    and "path dimension_values [x_key] = Some (Arr (map Str xs))"
    and "series_key \<noteq> x_key"
    and "\<forall>s \<in> set ss. \<forall>x \<in> set xs. path data [s, x, plot_key] \<noteq> None \<and>
           path data' [x, s, plot_key] = path data [s, x, plot_key]"
  shows "series_chart (Str x_key) (Str series_key) (Str plot_key)
           (Arr [Str series_key, Str x_key]) dimension_values data =
         series_chart (Str x_key) (Str series_key) (Str plot_key)
           (Arr [Str x_key, Str series_key]) dimension_values data'"
proof -
  define val where "val s x = the (path data [s, x, plot_key])" for s x
  have "series_chart (Str x_key) (Str series_key) (Str plot_key)
           (Arr [Str series_key, Str x_key]) dimension_values data =
      Inr (map (\<lambda>s. series_obj (series_key @ '' = '' @ s) (map (\<lambda>x. point (Str x) (val s x)) xs) None) ss)"
    using assms by (intro series_chart_points) (auto simp: val_def grid_path_def)
  moreover have "series_chart (Str x_key) (Str series_key) (Str plot_key)
           (Arr [Str x_key, Str series_key]) dimension_values data' =
      Inr (map (\<lambda>s. series_obj (series_key @ '' = '' @ s) (map (\<lambda>x. point (Str x) (val s x)) xs) None) ss)"
    using assms by (intro series_chart_points) (auto simp: val_def grid_path_def)
  ultimately show ?thesis by simp
qed

definition demo_grid_t :: jsv where
  "demo_grid_t =
     Obj [(''1'', Obj [(''0'', demo_cell 10), (''1000'', demo_cell 30)]),
          (''2'', Obj [(''0'', demo_cell 20), (''1000'', demo_cell 40)])]"

theorem series_chart_transpose_witness:
  "series_chart (Str ''producerCount'') (Str ''minMsgSize'') (Str ''send-msg-rate'')
     (Arr [Str ''minMsgSize'', Str ''producerCount'']) demo_values demo_grid =
   series_chart (Str ''producerCount'') (Str ''minMsgSize'') (Str ''send-msg-rate'')
     (Arr [Str ''producerCount'', Str ''minMsgSize'']) demo_values demo_grid_t"
  by (rule series_chart_transpose [where ss = "[''0'', ''1000'']" and xs = "[''1'', ''2'']"])
    (simp_all add: demo_defs demo_grid_t_def)

text \<open>
  No series chart is drawn from an incomplete grid. When the series are computed, every run
  they need was there: for each value of the series dimension and each value of the x
  dimension the two lookups succeed and the run is neither undefined nor null.
\<close>

theorem series_chart_complete:
  assumes "series_chart (Str x_key) (Str series_key) plot_key (Arr (Str d0 # ds)) dimension_values data = Inr cd"
    and "path dimension_values [series_key] = Some (Arr (map Str ss))"
    and "path dimension_values [x_key] = Some (Arr (map Str xs))"
    and "s \<in> set ss" and "x \<in> set xs"
  shows "\<exists>row run. get_prop data (if d0 = series_key then s else x) = Inr row \<and>
    get_prop row (if d0 = series_key then x else s) = Inr run \<and> run \<noteq> Undefined \<and> run \<noteq> Null"
proof -
  have d0: "get_prop (Arr (Str d0 # ds)) ''0'' = Inr (Str d0)"
    by (simp add: get_index_def index_key_def is_digit_def dec_val_def digit_val_def)
  have "mapE (one_series (d0 = series_key) data plot_key (Str series_key) (Arr (map Str xs))) (map Str ss) = Inr cd"
    using assms(1) d0 path_get [OF assms(2)] path_get [OF assms(3)]
    by (simp add: series_chart_def del: get_prop.simps)
  then obtain o1 where "one_series (d0 = series_key) data plot_key (Str series_key) (Arr (map Str xs)) (Str s) = Inr o1"
    using assms(4) by (fastforce simp: mapE_Inr_iff list_all2_map1 list_all2_conv_all_nth in_set_conv_nth)
  then obtain d where "mapE (series_point (d0 = series_key) data plot_key (Str s)) (map Str xs) = Inr d"
    by (auto simp: one_series_def bindE_Inr_iff)
  then obtain pt where "series_point (d0 = series_key) data plot_key (Str s) (Str x) = Inr pt"
    using assms(5) by (fastforce simp: mapE_Inr_iff list_all2_map1 list_all2_conv_all_nth in_set_conv_nth)
  then obtain run where run: "grid_value (d0 = series_key) data (Str s) (Str x) = Inr run"
      "\<exists>y. get_at run plot_key = Inr y"
    by (auto simp: series_point_def bindE_Inr_iff)
  then have "run \<noteq> Undefined" "run \<noteq> Null" by (auto simp: get_at_def is_nullish_def)
  then show ?thesis
    using run(1) by (auto simp: grid_value_def bindE_Inr_iff split: if_splits)
qed

theorem series_chart_complete_witness:
  "\<exists>row run. get_prop demo_grid ''0'' = Inr row \<and> get_prop row ''2'' = Inr run \<and> run \<noteq> Undefined \<and> run \<noteq> Null"
proof -
  let ?cd = "[series_obj ''minMsgSize = 0'' [point (Str ''1'') (Num (Fin 10)), point (Str ''2'') (Num (Fin 20))] None,
        series_obj ''minMsgSize = 1000'' [point (Str ''1'') (Num (Fin 30)), point (Str ''2'') (Num (Fin 40))] None]"
  have "series_chart (Str ''producerCount'') (Str ''minMsgSize'') (Str ''send-msg-rate'')
      (Arr [Str ''minMsgSize'', Str ''producerCount'']) demo_values demo_grid = Inr ?cd"
    by (simp add: demo_defs series_chart_def one_series_def series_point_def grid_value_def
        get_index_def index_key_def is_digit_def dec_val_def digit_val_def js_add_def is_str_def
        series_obj_def)
  from series_chart_complete [OF this, of "[''0'', ''1000'']" "[''1'', ''2'']" "''0''" "''2''"]
  show ?thesis by (simp add: demo_values_def)
qed

lemma x_point_ok:
  assumes "path data [x, key] = Some v"
  shows "x_point data key (Str x) = Inr (point (Str x) v)"
proof -
  obtain r where "get_prop data x = Inr r" "path r [key] = Some v"
    using assms path_get_Cons by blast
  then show ?thesis using path_get by (simp add: x_point_def)
qed

lemma x_points_ok:
  assumes "\<forall>x \<in> set xs. path data [x, key] = Some (val x)"
  shows "mapE (x_point data key) (map Str xs) = Inr (map (\<lambda>x. point (Str x) (val x)) xs)"
proof -
  have "mapE (x_point data key) (map Str xs) =
      Inr (map (\<lambda>v. case v of Str x \<Rightarrow> point (Str x) (val x) | _ \<Rightarrow> Undefined) (map Str xs))"
    using assms by (intro mapE_total) (auto intro!: x_point_ok)
  then show ?thesis by (simp add: comp_def)
qed

lemma xy_extra_foldl:
  "foldl (\<lambda>extra k. if is_bytes k then e else extra) a ks = (if list_ex is_bytes ks then e else a)"
  by (induction ks arbitrary: a) auto

text \<open>
  An x-y chart has one series per word of \<open>data-plot-keys\<close>, with one point per value of the
  x dimension, in the order of the results. Keys that name bytes go to the second axis, and
  the bytes axes are asked for exactly when there is such a key.
\<close>

lemma xy_chart_points:
  assumes "path dimension_values [x_key] = Some (Arr (map Str xs))"
    and "\<forall>k \<in> set (split_chr (CHR '' '') plot_keys). \<forall>x \<in> set xs. path data [x, k] = Some (val k x)"
  shows "xy_chart (Str x_key) plot_keys dimension_values data =
    Inr (map (\<lambda>k. series_obj k (map (\<lambda>x. point (Str x) (val k x)) xs)
               (Some (if index_of k ''bytes'' \<noteq> - 1 then 2 else 1))) (split_chr (CHR '' '') plot_keys),
         if \<exists>k \<in> set (split_chr (CHR '' '') plot_keys). index_of k ''bytes'' \<noteq> - 1
         then [(''yaxes'', axes_rate_and_bytes)] else [])"
proof -
  let ?keys = "split_chr (CHR '' '') plot_keys"
  have "mapE (xy_series (Arr (map Str xs)) data) ?keys =
    Inr (map (\<lambda>k. series_obj k (map (\<lambda>x. point (Str x) (val k x)) xs)
               (Some (if index_of k ''bytes'' \<noteq> - 1 then 2 else 1))) ?keys)"
  proof (rule mapE_total)
    fix k assume "k \<in> set ?keys"
    with assms(2) have "mapE (x_point data k) (map Str xs) = Inr (map (\<lambda>x. point (Str x) (val k x)) xs)"
      by (intro x_points_ok) blast
    then show "xy_series (Arr (map Str xs)) data k = Inr (series_obj k (map (\<lambda>x. point (Str x) (val k x)) xs)
        (Some (if index_of k ''bytes'' \<noteq> - 1 then 2 else 1)))"
      by (simp add: xy_series_def series_obj_def is_bytes_def)
  qed
  moreover have "xy_extra ?keys = (if \<exists>k \<in> set ?keys. index_of k ''bytes'' \<noteq> - 1
      then [(''yaxes'', axes_rate_and_bytes)] else [])"
  proof -
    have "xy_extra ?keys = (if list_ex is_bytes ?keys then [(''yaxes'', axes_rate_and_bytes)] else [])"
      by (simp add: xy_extra_def xy_extra_foldl)
    then show ?thesis by (simp add: list_ex_iff is_bytes_def)
  qed
  ultimately show ?thesis using path_get [OF assms(1)] by (simp add: xy_chart_def Let_def)
qed

text \<open>
  A rate-against-latency chart has two series over the attempted rates, in the order of the
  results: the rate achieved on the first axis, the latency on the second.
\<close>

lemma rl_chart_points:
  assumes "path dimension_values [''producerRateLimit''] = Some (Arr (map Str xs))"
    and "\<forall>x \<in> set xs. path data [x, ''send-msg-rate''] = Some (rate x)"
    and "\<forall>x \<in> set xs. path data [x, ''avg-latency''] = Some (latency x)"
  shows "rl_chart dimension_values data = Inr
    [series_obj ''rate achieved'' (map (\<lambda>x. point (Str x) (rate x)) xs) (Some 1),
     series_obj ''latency (us)'' (map (\<lambda>x. point (Str x) (latency x)) xs) (Some 2)]"
  using path_get [OF assms(1)] x_points_ok [OF assms(2)] x_points_ok [OF assms(3)]
  by (simp add: rl_chart_def rl_series_def series_obj_def)

section \<open>Options\<close>

lemma map_of_put_all:
  "distinct (map fst es) \<Longrightarrow>
   map_of (foldl (\<lambda>c (k, v). obj_put k v c) ps es) = map_of ps ++ map_of es"
proof (induction es arbitrary: ps)
  case (Cons e es)
  obtain k v where e: "e = (k, v)" by fastforce
  with Cons.prems have "k \<notin> fst ` set es" by auto
  with e Cons show ?case
    by (auto simp: fun_eq_iff map_add_def split: option.splits dest: map_of_SomeD intro: rev_image_eqI)
qed simp

text \<open>
  The options handed to the plotting library. For each name, the logarithmic x axis wins over
  the chart's own options, these win over the legend a small chart switches off, and the rest
  is the common frame; nothing else is set.
\<close>

theorem chrome_effective:
  assumes "distinct (map fst extra)" and "\<forall>k \<in> fst ` set extra. array_index k = None"
  shows "map_of (chrome legend small extra x_axis_log) k =
    (if x_axis_log \<and> k = ''xaxis'' then Some log_x_axis
     else case map_of extra k of
            Some v \<Rightarrow> Some v
          | None \<Rightarrow>
              if small \<and> k = ''legend'' then Some (Obj [(''show'', Bool False)])
              else map_of (base_chrome legend) k)"
proof -
  have "for_in extra = extra" using assms(2) by (intro for_in_names) auto
  then show ?thesis
    using map_of_put_all [OF assms(1)]
    by (auto simp: chrome_def Let_def map_add_def split: option.splits)
qed

theorem chrome_effective_witness:
  "map_of (chrome (Str ''se'') True [(''yaxes'', axes_rate_and_latency)] True) ''yaxes'' = Some axes_rate_and_latency \<and>
   map_of (chrome (Str ''se'') True [(''yaxes'', axes_rate_and_latency)] True) ''xaxis'' = Some log_x_axis \<and>
   map_of (chrome (Str ''se'') True [(''yaxes'', axes_rate_and_latency)] True) ''legend'' = Some (Obj [(''show'', Bool False)])"
  using chrome_effective [of "[(''yaxes'', axes_rate_and_latency)]" "Str ''se''" True True]
  by (simp add: array_index_def index_key_def is_digit_def)

section \<open>Summaries\<close>

lemma loose_eq_attr: "mode = Undefined \<or> (\<exists>m. mode = Str m) \<Longrightarrow> loose_eq mode (Str t) = Inr (mode = Str t)"
  by auto

text \<open>
  The rate a summary shows is the send rate, the receive rate, or, for any other mode and for
  none, the mean of the two, rounded to the nearest whole number.
\<close>

lemma summary_rate_modes:
  assumes "path data [''send-msg-rate''] = Some (Num s)" and "path data [''recv-msg-rate''] = Some (Num r)"
    and "mode = Undefined \<or> (\<exists>m. mode = Str m)"
  shows "summary_rate mode data = Inr (Num (math_round
    (if mode = Str ''send'' then s else if mode = Str ''recv'' then r else div_pos (s + r) 2)))"
  using path_get [OF assms(1)] path_get [OF assms(2)] assms(3)
  by (auto simp: summary_rate_def loose_eq_attr)

text \<open>
  A value between two non-negative numbers of the format is rounded to a value between them;
  doubling stays in the format up to its range.
\<close>

lemma rnd_between:
  assumes "0 \<le> a" "wf_dbl (Fin a)" "wf_dbl (Fin b)" "a \<le> q" "q \<le> b"
  shows "\<exists>r. rnd q = Fin r \<and> a \<le> r \<and> r \<le> b"
proof (cases "q = 0")
  case True
  then show ?thesis using assms by auto
next
  case False
  then have b: "0 < b" "0 < q" using assms by auto
  have B: "rnd_mag b = b" "b < bpow 2 1024" using assms(3) b(1) wf_pos_iff by blast+
  have "rnd_mag q \<le> rnd_mag b" using assms b by (auto intro: rnd_mag_mono)
  moreover have "a \<le> rnd_mag q"
  proof (cases "a = 0")
    case True
    have "0 \<le> rhe (q / bpow 2 (lsb q))" using b by (intro rhe_ge_int) simp
    with True show ?thesis by (simp add: rnd_mag_def)
  next
    case False
    with assms have "0 < a" by simp
    then have "rnd_mag a = a" using assms(2) wf_pos_iff by blast
    with \<open>0 < a\<close> show ?thesis using assms rnd_mag_mono [of a q] by simp
  qed
  ultimately show ?thesis using b B by (simp add: rnd_pos)
qed

lemma wf_double:
  assumes "0 \<le> q" "wf_dbl (Fin q)" "2 * q < bpow 2 1024"
  shows "wf_dbl (Fin (2 * q))"
proof (cases "q = 0")
  case False
  with assms have q: "0 < q" by simp
  obtain m where m: "0 < m" "m \<le> 2 ^ 53" "q = of_int m * bpow 2 (lsb q)"
    using q assms(2) by (elim wf_pos_mantissa)
  have e: "2 * q = of_int m * bpow 2 (lsb q + 1)" by (subst m(3)) (simp add: bpow_add)
  have "rnd_mag (2 * q) = 2 * q" unfolding e using m by (intro rnd_mag_exact) (auto simp: lsb_def)
  then show ?thesis using q assms(3) wf_pos_iff [of "2 * q"] by simp
qed simp

lemma half_sum_between:
  assumes "0 \<le> s" "0 \<le> r" "wf_dbl (Fin s)" "wf_dbl (Fin r)" "max s r < bpow 2 1023"
  shows "\<exists>m. div_pos (Fin s + Fin r) 2 = Fin m \<and> min s r \<le> m \<and> m \<le> max s r"
proof -
  let ?a = "min s r" and ?b = "max s r"
  have wf: "0 \<le> ?a" "wf_dbl (Fin ?a)" "wf_dbl (Fin ?b)"
    using assms by (auto simp: min_def max_def simp del: wf_dbl.simps)
  have "2 * ?b < bpow 2 1024" using assms(5) bpow_add [of 2 1023 1] by simp
  moreover have "?a \<le> ?b" by simp
  ultimately have "wf_dbl (Fin (2 * ?a))" "wf_dbl (Fin (2 * ?b))"
    using wf by (auto intro!: wf_double simp del: wf_dbl.simps)
  moreover have ab: "2 * ?a \<le> s + r" "s + r \<le> 2 * ?b" by (simp_all add: min_def max_def)
  ultimately obtain u where u: "rnd (s + r) = Fin u" "2 * ?a \<le> u" "u \<le> 2 * ?b"
    using rnd_between [of "2 * ?a" "2 * ?b" "s + r"] wf(1) by (auto simp del: wf_dbl.simps)
  have "\<exists>m. rnd (u / 2) = Fin m \<and> ?a \<le> m \<and> m \<le> ?b"
    using u by (intro rnd_between wf) simp_all
  then show ?thesis using u(1) by simp
qed

text \<open>
  The mean a summary shows lies between the two rates it is the mean of, whatever the
  rounding of the sum and of the halving did, up to the rounding to a whole number.
\<close>

theorem summary_rate_mean:
  assumes "path data [''send-msg-rate''] = Some (Num (Fin s))" and "path data [''recv-msg-rate''] = Some (Num (Fin r))"
    and "wf_dbl (Fin s)" and "wf_dbl (Fin r)" and "0 \<le> s" and "0 \<le> r" and "max s r < bpow 2 1023"
    and "mode = Undefined \<or> mode = Str m \<and> m \<noteq> ''send'' \<and> m \<noteq> ''recv''"
  shows "\<exists>n. summary_rate mode data = Inr (Num (Fin (of_int n))) \<and>
    \<lfloor>min s r + 1 / 2\<rfloor> \<le> n \<and> n \<le> \<lfloor>max s r + 1 / 2\<rfloor>"
proof -
  obtain u where u: "div_pos (Fin s + Fin r) 2 = Fin u" "min s r \<le> u" "u \<le> max s r"
    using half_sum_between assms by blast
  have "summary_rate mode data = Inr (Num (math_round (Fin u)))"
    using summary_rate_modes [OF assms(1,2), of mode] assms(8) u(1) by auto
  then show ?thesis using u(2,3) by (auto intro!: floor_mono)
qed

theorem summary_rate_mean_witness:
  "\<exists>n. summary_rate Undefined (Obj [(''send-msg-rate'', Num (Fin 3)), (''recv-msg-rate'', Num (Fin 4))]) =
     Inr (Num (Fin (of_int n))) \<and> 3 \<le> n \<and> n \<le> 4"
proof -
  have "wf_dbl (Fin 3)" "wf_dbl (Fin 4)" using wf_int [of 3] wf_int [of 4] by simp_all
  moreover have "(4 :: rat) < bpow 2 1023"
  proof -
    have "bpow 2 3 < bpow 2 1023" by (simp add: bpow_less_iff)
    then show ?thesis using bpow_nat [of 2 3] by simp
  qed
  ultimately show ?thesis
    using summary_rate_mean [of "Obj [(''send-msg-rate'', Num (Fin 3)), (''recv-msg-rate'', Num (Fin 4))]"
      3 4 Undefined "[]"] by (simp add: floor_divide_of_int_eq [of 7 2, simplified] floor_divide_of_int_eq [of 9 2, simplified])
qed

end
