(* ===== verification/Dom.thy ===== *)
theory Dom
  imports Perf_Prelude "HOL-Library.Multiset"
begin

text \<open>
  The document as the scripts see it through jQuery: a tree of elements with identities,
  attributes and children, and text. The root stands for the document node. Every
  manipulation the scripts use (\<open>wrap\<close>, \<open>before\<close>, \<open>after\<close>, \<open>append\<close>) replaces one node,
  in its parent's child list, by a list of nodes: \<open>splice\<close>. Markup written into the
  document is parsed by the browser, so the parser is a parameter; its result is a list of
  \<open>html\<close> trees, which receive fresh identities when they enter the document.
\<close>

type_synonym attrs = "(string \<times> string) list"

datatype dtree =
    Elem (nid: nat) (tag: string) (attrs: attrs) (kids: "dtree list")
  | Txt (content: string)

datatype html = HElem string attrs "html list" | HText string

section \<open>Identities, lookup, parents\<close>

fun ids :: "dtree \<Rightarrow> nat list" where
  "ids (Elem i g a ks) = i # concat (map ids ks)"
| "ids (Txt s) = []"

abbreviation ids_list :: "dtree list \<Rightarrow> nat list" where
  "ids_list ts \<equiv> concat (map ids ts)"

fun root_is :: "nat \<Rightarrow> dtree \<Rightarrow> bool" where
  "root_is n (Elem i g a ks) = (i = n)"
| "root_is n (Txt s) = False"

text \<open>All elements of a tree in document order, the root first.\<close>

fun elements :: "dtree \<Rightarrow> dtree list" where
  "elements (Elem i g a ks) = Elem i g a ks # concat (map elements ks)"
| "elements (Txt s) = []"

definition lookup :: "nat \<Rightarrow> dtree \<Rightarrow> dtree option" where
  "lookup n t = find (root_is n) (elements t)"

definition parent_of :: "nat \<Rightarrow> dtree \<Rightarrow> nat option" where
  "parent_of n t = map_option nid (find (\<lambda>u. list_ex (root_is n) (kids u)) (elements t))"

fun splice :: "nat \<Rightarrow> (dtree \<Rightarrow> dtree list) \<Rightarrow> dtree \<Rightarrow> dtree" where
  "splice n f (Elem i g a ks) =
     Elem i g a (concat (map (\<lambda>u. if root_is n u then f u else [splice n f u]) ks))"
| "splice n f (Txt s) = Txt s"

definition splice_kids :: "nat \<Rightarrow> (dtree \<Rightarrow> dtree list) \<Rightarrow> dtree list \<Rightarrow> dtree list" where
  "splice_kids n f ks = concat (map (\<lambda>u. if root_is n u then f u else [splice n f u]) ks)"

lemma splice_Elem [simp]: "splice n f (Elem i g a ks) = Elem i g a (splice_kids n f ks)"
  by (simp add: splice_kids_def)

declare splice.simps(1) [simp del]

lemma splice_kids_simps [simp]:
  "splice_kids n f [] = []"
  "splice_kids n f (u # us) = (if root_is n u then f u else [splice n f u]) @ splice_kids n f us"
  by (simp_all add: splice_kids_def)

lemma splice_kids_append [simp]:
  "splice_kids n f (us @ vs) = splice_kids n f us @ splice_kids n f vs"
  by (simp add: splice_kids_def)

lemma root_is_ids: "root_is n t \<Longrightarrow> n \<in> set (ids t)"
  by (cases t) auto

lemma root_is_splice [simp]: "root_is m (splice n f t) = root_is m t"
  by (cases t) simp_all

lemma ids_elements: "ids t = map nid (elements t)"
  by (induction t rule: ids.induct) (simp_all add: map_concat comp_def cong: map_cong)

lemma elements_Elem: "u \<in> set (elements t) \<Longrightarrow> \<exists>i g a ks. u = Elem i g a ks"
  by (induction t rule: elements.induct) auto

lemma lookup_Some_root: "lookup n t = Some u \<Longrightarrow> root_is n u"
  by (auto simp: lookup_def find_Some_iff)

lemma lookup_elements: "lookup n t = Some u \<Longrightarrow> u \<in> set (elements t)"
  by (auto simp: lookup_def find_Some_iff)

lemma lookup_None_iff: "lookup n t = None \<longleftrightarrow> n \<notin> set (ids t)"
proof -
  have "root_is n u \<longleftrightarrow> nid u = n" if "u \<in> set (elements t)" for u
    using elements_Elem [OF that] by auto
  then show ?thesis by (auto simp: lookup_def find_None_iff ids_elements)
qed

text \<open>A node that is not there is not touched.\<close>

lemma splice_absent: "n \<notin> set (ids t) \<Longrightarrow> splice n f t = t"
proof (induction t rule: ids.induct)
  case (1 i g a ks)
  have "splice_kids n f us = us" if "set us \<subseteq> set ks" for us
    using that
  proof (induction us)
    case (Cons u us)
    have "n \<notin> set (ids u)" using "1.prems" Cons.prems by auto
    then have "splice n f u = u" "\<not> root_is n u"
      using "1.IH" Cons.prems root_is_ids by auto
    then show ?case using Cons by simp
  qed simp
  then show ?case by simp
qed simp

lemma splice_kids_absent: "n \<notin> set (ids_list ts) \<Longrightarrow> splice_kids n f ts = ts"
  by (induction ts) (auto simp: splice_absent dest: root_is_ids)

text \<open>Two splices fuse when the second is at a node the first has just created.\<close>

lemma splice_fuse:
  "m \<notin> set (ids t) \<Longrightarrow> splice m h (splice n f t) = splice n (\<lambda>s. splice_kids m h (f s)) t"
proof (induction t rule: ids.induct)
  case (1 i g a ks)
  have "splice_kids m h (splice_kids n f us) = splice_kids n (\<lambda>s. splice_kids m h (f s)) us"
    if "set us \<subseteq> set ks" for us
    using that
  proof (induction us)
    case (Cons u us)
    have "m \<notin> set (ids u)" using "1.prems" Cons.prems by auto
    then have "splice m h (splice n f u) = splice n (\<lambda>s. splice_kids m h (f s)) u"
        "\<not> root_is m u"
      using "1.IH" Cons.prems root_is_ids by auto
    then show ?case using Cons by simp
  qed simp
  then show ?case by simp
qed simp

lemma splice_cong_lookup:
  assumes "\<And>u. u \<in> set (elements t) \<Longrightarrow> root_is n u \<Longrightarrow> f u = g u"
  shows "splice n f t = splice n g t"
  using assms
proof (induction t rule: ids.induct)
  case (1 i k a ks)
  have "splice_kids n f us = splice_kids n g us" if "set us \<subseteq> set ks" for us
    using that
  proof (induction us)
    case (Cons u us)
    have sub: "set (elements u) \<subseteq> set (elements (Elem i k a ks))" using Cons.prems by auto
    then have "splice n f u = splice n g u" using "1.IH" "1.prems" Cons.prems by auto
    moreover have "f u = g u" if "root_is n u"
    proof -
      have "u \<in> set (elements u)" using that by (cases u) auto
      then show ?thesis using "1.prems" sub that by blast
    qed
    ultimately show ?case using Cons by auto
  qed simp
  then show ?case by simp
qed simp

section \<open>Uniqueness of identities\<close>

lemma find_append:
  "find P (xs @ ys) = (case find P xs of Some x \<Rightarrow> Some x | None \<Rightarrow> find P ys)"
  by (induction xs) auto

lemma ids_list_elements: "set (ids_list ts) = nid ` set (concat (map elements ts))"
  by (induction ts) (auto simp: ids_elements)

lemma root_is_nid: "u \<in> set (elements t) \<Longrightarrow> root_is m u \<longleftrightarrow> nid u = m"
  using elements_Elem by fastforce

lemma elements_refl: "root_is n t \<Longrightarrow> t \<in> set (elements t)"
  by (cases t) auto

lemma ids_sub: "u \<in> set (elements t) \<Longrightarrow> set (ids u) \<subseteq> set (ids t)"
proof (induction t rule: ids.induct)
  case (1 i g a ks)
  then show ?case by fastforce
qed simp

lemma distinct_ids_sub: "distinct (ids t) \<Longrightarrow> u \<in> set (elements t) \<Longrightarrow> distinct (ids u)"
proof (induction t rule: ids.induct)
  case (1 i g a ks)
  show ?case
  proof (cases "u = Elem i g a ks")
    case False
    then obtain k where k: "k \<in> set ks" "u \<in> set (elements k)" using "1.prems"(2) by auto
    have "distinct (ids k)" using "1.prems"(1) k(1) by (auto simp: distinct_concat_iff)
    with "1.IH" [OF k(1)] k(2) show ?thesis by blast
  qed (use "1.prems" in simp)
qed simp

lemma lookup_unique:
  assumes "distinct (ids t)" and "u \<in> set (elements t)" and "root_is m u"
  shows "lookup m t = Some u"
proof -
  have d: "distinct (map nid (elements t))" using assms(1) by (simp add: ids_elements)
  have "lookup m t \<noteq> None"
    using assms(2,3) ids_sub [OF assms(2)] root_is_ids by (auto simp: lookup_None_iff)
  then obtain v where v: "lookup m t = Some v" by auto
  then have "v \<in> set (elements t)" "nid v = m"
    using lookup_elements lookup_Some_root root_is_nid by blast+
  moreover have "nid u = m" using assms root_is_nid by blast
  ultimately have "v = u" using d assms(2) by (metis distinct_map inj_on_eq_iff)
  with v show ?thesis by simp
qed

text \<open>The children of two different elements are different.\<close>

definition has_kid :: "nat \<Rightarrow> dtree \<Rightarrow> bool" where
  "has_kid n u \<longleftrightarrow> list_ex (root_is n) (kids u)"

lemma has_kid_ids: "u \<in> set (elements t) \<Longrightarrow> has_kid n u \<Longrightarrow> n \<in> set (ids t)"
proof -
  assume u: "u \<in> set (elements t)" and k: "has_kid n u"
  obtain i g a ks where e: "u = Elem i g a ks" using elements_Elem [OF u] by blast
  from k obtain v where "v \<in> set ks" "root_is n v" by (auto simp: e has_kid_def list_ex_iff)
  then have "n \<in> set (ids u)" by (auto simp: e intro: root_is_ids)
  then show ?thesis using ids_sub [OF u] by blast
qed

lemma has_kid_below_root: "distinct (ids t) \<Longrightarrow> u \<in> set (elements t) \<Longrightarrow> has_kid n u \<Longrightarrow> \<not> root_is n t"
proof (cases t)
  case (Elem i g a ks)
  assume d: "distinct (ids t)" and u: "u \<in> set (elements t)" and k: "has_kid n u"
  show ?thesis
  proof (cases "u = t")
    case True
    with k Elem obtain v where "v \<in> set ks" "root_is n v"
      by (auto simp: has_kid_def list_ex_iff)
    then have "n \<in> set (ids_list ks)" by (auto intro: root_is_ids)
    with d Elem show ?thesis by auto
  next
    case False
    with u Elem obtain v where v: "v \<in> set ks" "u \<in> set (elements v)" by auto
    have "n \<in> set (ids v)" using has_kid_ids [OF v(2) k] .
    with v d Elem show ?thesis by auto
  qed
qed simp

lemma ids_list_disjoint:
  "distinct (ids_list (us @ v # vs)) \<Longrightarrow> n \<in> set (ids v) \<Longrightarrow>
   n \<notin> set (ids_list us) \<and> n \<notin> set (ids_list vs)"
  by auto

lemma parent_unique:
  "distinct (ids t) \<Longrightarrow> u \<in> set (elements t) \<Longrightarrow> has_kid n u \<Longrightarrow> parent_of n t = Some (nid u)"
proof (induction t rule: ids.induct)
  case (1 i g a ks)
  show ?case
  proof (cases "u = Elem i g a ks")
    case True
    with "1.prems" show ?thesis by (simp add: parent_of_def has_kid_def)
  next
    case False
    then obtain v where v: "v \<in> set ks" "u \<in> set (elements v)" using "1.prems"(2) by auto
    obtain us vs where ks: "ks = us @ v # vs" using split_list [OF v(1)] by blast
    have dv: "distinct (ids v)" using "1.prems"(1) ks by auto
    have nv: "n \<in> set (ids v)" using has_kid_ids [OF v(2) "1.prems"(3)] .
    have dl: "distinct (ids_list (us @ v # vs))" using "1.prems"(1) ks by simp
    note out = ids_list_disjoint [OF dl nv]
    have nr: "\<not> root_is n v" by (rule has_kid_below_root [OF dv v(2) "1.prems"(3)])
    have top: "\<not> has_kid n (Elem i g a ks)"
      using out nr root_is_ids by (fastforce simp: has_kid_def list_ex_iff ks)
    have before: "find (\<lambda>u. list_ex (root_is n) (kids u)) (concat (map elements us)) = None"
      unfolding find_None_iff using out has_kid_ids [of _ _ n]
      by (fastforce simp: has_kid_def)
    have "parent_of n v = Some (nid u)" using "1.IH" [OF v(1) dv v(2) "1.prems"(3)] .
    then show ?thesis
      using top before by (auto simp: parent_of_def has_kid_def ks find_append)
  qed
qed simp

section \<open>What a splice does to the elements\<close>

text \<open>The signature of a tree: identity, tag and attributes of its elements, in document order.\<close>

fun sig :: "dtree \<Rightarrow> (nat \<times> string \<times> attrs) list" where
  "sig (Elem i g a ks) = (i, g, a) # concat (map sig ks)"
| "sig (Txt s) = []"

abbreviation sig_list :: "dtree list \<Rightarrow> (nat \<times> string \<times> attrs) list" where
  "sig_list ts \<equiv> concat (map sig ts)"

lemma ids_sig: "ids t = map fst (sig t)"
  by (induction t rule: ids.induct) (simp_all add: map_concat comp_def cong: map_cong)

lemma ids_list_sig: "ids_list ts = map fst (sig_list ts)"
  by (induction ts) (simp_all add: ids_sig)

lemma sig_elements: "sig t = map (\<lambda>u. (nid u, tag u, attrs u)) (elements t)"
  by (induction t rule: sig.induct) (simp_all add: map_concat comp_def cong: map_cong)

lemma mset_sig_splice:
  "distinct (ids t) \<Longrightarrow> s \<in> set (elements t) \<Longrightarrow> root_is n s \<Longrightarrow> \<not> root_is n t \<Longrightarrow>
   mset (sig (splice n f t)) + mset (sig s) = mset (sig t) + mset (sig_list (f s))"
proof (induction t rule: ids.induct)
  case (1 i g a ks)
  from "1.prems" obtain v where v: "v \<in> set ks" "s \<in> set (elements v)"
    by (auto split: if_splits)
  obtain us vs where ks: "ks = us @ v # vs" using split_list [OF v(1)] by blast
  have dv: "distinct (ids v)" using "1.prems"(1) ks by auto
  have nv: "n \<in> set (ids v)" using v(2) "1.prems"(3) ids_sub root_is_ids by blast
  have dl: "distinct (ids_list (us @ v # vs))" using "1.prems"(1) ks by simp
  have out: "splice_kids n f us = us" "splice_kids n f vs = vs"
    using ids_list_disjoint [OF dl nv] by (simp_all add: splice_kids_absent)
  show ?case
  proof (cases "root_is n v")
    case True
    then have "lookup n v = Some v" "lookup n v = Some s"
      using lookup_unique [OF dv] v(2) "1.prems"(3) elements_refl by blast+
    then have "s = v" by simp
    then show ?thesis using True by (simp add: ks out)
  next
    case False
    then have "mset (sig (splice n f v)) + mset (sig s) = mset (sig v) + mset (sig_list (f s))"
      using "1.IH" [OF v(1) dv v(2) "1.prems"(3)] by blast
    then show ?thesis using False by (simp add: ks out)
  qed
qed simp

lemma elements_splice:
  "s \<in> set (elements t) \<Longrightarrow> root_is n s \<Longrightarrow> \<not> root_is n t \<Longrightarrow> distinct (ids t) \<Longrightarrow>
   set (concat (map elements (f s))) \<subseteq> set (elements (splice n f t))"
proof (induction t rule: ids.induct)
  case (1 i g a ks)
  from "1.prems" obtain v where v: "v \<in> set ks" "s \<in> set (elements v)"
    by (auto split: if_splits)
  obtain us vs where ks: "ks = us @ v # vs" using split_list [OF v(1)] by blast
  have dv: "distinct (ids v)" using "1.prems"(4) ks by auto
  show ?case
  proof (cases "root_is n v")
    case True
    then have "lookup n v = Some v" "lookup n v = Some s"
      using lookup_unique [OF dv] v(2) "1.prems"(2) elements_refl by blast+
    then have "s = v" by simp
    then show ?thesis using True by (auto simp: ks)
  next
    case False
    then have "set (concat (map elements (f s))) \<subseteq> set (elements (splice n f v))"
      using "1.IH" [OF v(1) v(2) "1.prems"(2)] dv by blast
    then show ?thesis using False by (auto simp: ks)
  qed
qed simp

end
