(* ===== verification/Jquery.thy ===== *)
theory Jquery
  imports Dom Js_Value
begin

text \<open>
  The page state and the jQuery operations the scripts call, after
  \<open>html/lib/jquery.min.js\<close> (1.5.1): attributes, class selectors, \<open>wrap\<close>, \<open>parent\<close>,
  \<open>before\<close>, \<open>after\<close>, \<open>append\<close> and the part of \<open>ajax\<close> that connects the settings of a
  request to the callbacks of its outcome. The browser's HTML parser and the plotting
  library are parameters, collected in the record \<open>env\<close>.
\<close>

section \<open>The page\<close>

record plot_call =
  pc_div :: nat
  pc_data :: jsv
  pc_options :: jsv

text \<open>The functions the scripts hand to \<open>$.ajax\<close>, with the variables they close over.\<close>

datatype callback = Cb_render | Cb_plot0 nat | Cb_alert string

record request =
  rq_url :: string
  rq_done :: "callback list"
  rq_fail :: "callback list"
  rq_always :: "callback list"

record page =
  doc :: dtree
  next_id :: nat
  plots :: "plot_call list"
  requests :: "request list"
  alerts :: "string list"

text \<open>
  \<open>parse_html\<close> is the browser's parser, applied to the markup after jQuery has expanded
  self-closing tags; \<open>flot\<close> is \<open>$.plot\<close>: the exception it throws for these arguments,
  if it throws one. What it draws inside the placeholder is not modelled.
\<close>

record env =
  parse_html :: "string \<Rightarrow> html list"
  flot :: "plot_call \<Rightarrow> jserr option"

type_synonym 'a js = "(page, 'a) act"

section \<open>Attributes and selectors\<close>

text \<open>
  \<open>attr(k)\<close>: the name \<open>class\<close> reads the property \<open>className\<close>, the empty string when there is
  no such attribute; another attribute is its value or \<open>undefined\<close>.
\<close>

definition attr :: "dtree \<Rightarrow> string \<Rightarrow> jsv" where
  "attr t k =
     (case map_of (attrs t) k of
        Some v \<Rightarrow> Str v
      | None \<Rightarrow> if k = ''class'' then Str [] else Undefined)"

definition html_space :: "char \<Rightarrow> bool" where
  "html_space c \<longleftrightarrow> (of_char c :: nat) \<in> {9, 10, 12, 13, 32}"

definition class_tokens :: "dtree \<Rightarrow> string list" where
  "class_tokens t =
     (case map_of (attrs t) ''class'' of
        Some v \<Rightarrow> filter (\<lambda>w. w \<noteq> [])
                    (split_chr (CHR '' '') (map (\<lambda>c. if html_space c then CHR '' '' else c) v))
      | None \<Rightarrow> [])"

text \<open>\<open>find('.c1, .c2')\<close>: the descendants with one of the classes, in document order, once each.\<close>

definition select :: "string list \<Rightarrow> dtree \<Rightarrow> nat list" where
  "select cs t =
     map nid (filter (\<lambda>u. list_ex (\<lambda>c. c \<in> set (class_tokens u)) cs) (tl (elements t)))"

definition elem_of :: "nat \<Rightarrow> dtree js" where
  "elem_of d = (\<lambda>p. case lookup d (doc p) of
                       Some t \<Rightarrow> (Inr t, p)
                     | None \<Rightarrow> (Inl (Outside ''node not in the document''), p))"

definition attrA :: "nat \<Rightarrow> string \<Rightarrow> jsv js" where
  "attrA d k = bindA (elem_of d) (\<lambda>t. retA (attr t k))"

section \<open>Markup becomes nodes\<close>

fun inst :: "nat \<Rightarrow> html \<Rightarrow> dtree \<times> nat"
  and inst_list :: "nat \<Rightarrow> html list \<Rightarrow> dtree list \<times> nat" where
  "inst n (HText s) = (Txt s, n)"
| "inst n (HElem g a hs) = (let (ks, m) = inst_list (Suc n) hs in (Elem n g a ks, m))"
| "inst_list n [] = ([], n)"
| "inst_list n (h # hs) =
     (let (k, m) = inst n h; (ks, m') = inst_list m hs in (k # ks, m'))"

text \<open>
  \<open>$('<td />')\<close>: markup that is one tag without attributes creates the element directly
  (the pattern \<open>bj\<close> of the library); other markup goes through the parser.
\<close>

definition word_char :: "char \<Rightarrow> bool" where
  "word_char c \<longleftrightarrow> (let n = of_char c :: nat in
     is_digit c \<or> (65 \<le> n \<and> n \<le> 90) \<or> (97 \<le> n \<and> n \<le> 122) \<or> n = 95)"

definition single_tag :: "string \<Rightarrow> string option" where
  "single_tag s =
     (case s of
        [] \<Rightarrow> None
      | c # t \<Rightarrow>
          let w = takeWhile word_char t;
              r = dropWhile is_space (dropWhile word_char t);
              r' = (if r \<noteq> [] \<and> hd r = CHR ''/'' then tl r else r)
          in if c = CHR ''<'' \<and> w \<noteq> [] \<and> (r' = ''>'' \<or> r' = ''></'' @ w @ ''>'')
             then Some w else None)"

definition make_nodes :: "env \<Rightarrow> string \<Rightarrow> html list" where
  "make_nodes e s = (case single_tag s of Some w \<Rightarrow> [HElem w [] [] ] | None \<Rightarrow> parse_html e s)"

section \<open>Manipulation\<close>

text \<open>
  Appending nodes to an element; a row appended to a table goes into its first \<open>tbody\<close>,
  which is created when there is none (\<open>domManip\<close> with the helper \<open>aX\<close>).
\<close>

definition first_tag :: "dtree list \<Rightarrow> string" where
  "first_tag ts = (case ts of Elem i g a ks # _ \<Rightarrow> g | _ \<Rightarrow> [])"

fun add_kids :: "dtree list \<Rightarrow> dtree \<Rightarrow> dtree" where
  "add_kids ts (Elem i g a ks) = Elem i g a (ks @ ts)"
| "add_kids ts (Txt s) = Txt s"

fun append_nodes :: "nat \<Rightarrow> dtree \<Rightarrow> dtree list \<Rightarrow> dtree \<times> nat" where
  "append_nodes n (Txt s) ts = (Txt s, n)"
| "append_nodes n (Elem i g a ks) ts =
     (if g = ''table'' \<and> first_tag ts = ''tr''
      then (case find (\<lambda>u. tag u = ''tbody'') (concat (map elements ks)) of
              Some b \<Rightarrow> (Elem i g a (splice_kids (nid b) (\<lambda>u. [add_kids ts u]) ks), n)
            | None \<Rightarrow> (Elem i g a (ks @ [Elem n ''tbody'' [] ts]), Suc n))
      else (Elem i g a (ks @ ts), n))"

text \<open>\<open>wrapAll\<close>: the node goes into the innermost first element of the wrapper.\<close>

fun fill :: "nat \<Rightarrow> dtree \<Rightarrow> dtree \<Rightarrow> dtree \<times> nat" where
  "fill n (Elem i g a (Elem j h b ms # rest)) t =
     (let (c, m) = fill n (Elem j h b ms) t in (Elem i g a (c # rest), m))"
| "fill n w t = append_nodes n w [t]"

definition wrap :: "env \<Rightarrow> nat \<Rightarrow> string \<Rightarrow> unit js" where
  "wrap e d s = bindA (elem_of d) (\<lambda>t p.
     case make_nodes e s of
       HElem g a hs # _ \<Rightarrow>
         (let (w, m) = inst (next_id p) (HElem g a hs);
              (w', m') = fill m w t
          in (Inr (), p\<lparr>doc := splice d (\<lambda>_. [w']) (doc p), next_id := m'\<rparr>))
     | _ \<Rightarrow> (Inl (Outside ''wrap without an element''), p))"

definition parentA :: "nat \<Rightarrow> nat js" where
  "parentA d = (\<lambda>p. case parent_of d (doc p) of
                       Some c \<Rightarrow> (Inr c, p)
                     | None \<Rightarrow> (Inl (Outside ''node without a parent''), p))"

definition insertA :: "env \<Rightarrow> nat \<Rightarrow> string \<Rightarrow> (dtree list \<Rightarrow> dtree \<Rightarrow> dtree list) \<Rightarrow> unit js" where
  "insertA e d s f = bindA (elem_of d) (\<lambda>t p.
     let (ts, m) = inst_list (next_id p) (parse_html e s)
     in (Inr (), p\<lparr>doc := splice d (f ts) (doc p), next_id := m\<rparr>))"

definition before :: "env \<Rightarrow> nat \<Rightarrow> string \<Rightarrow> unit js" where
  "before e d s = insertA e d s (\<lambda>ts t. ts @ [t])"

definition after :: "env \<Rightarrow> nat \<Rightarrow> string \<Rightarrow> unit js" where
  "after e d s = insertA e d s (\<lambda>ts t. t # ts)"

definition append :: "env \<Rightarrow> nat \<Rightarrow> string \<Rightarrow> unit js" where
  "append e d s = bindA (elem_of d) (\<lambda>t p.
     let (ts, m) = inst_list (next_id p) (parse_html e s);
         (t', m') = append_nodes m t ts
     in (Inr (), p\<lparr>doc := splice d (\<lambda>_. [t']) (doc p), next_id := m'\<rparr>))"

section \<open>Requests\<close>

text \<open>
  \<open>$.ajax\<close> attaches the settings \<open>success\<close>, \<open>error\<close> and \<open>complete\<close> to the outcome of the
  request, and no other setting (\<open>for (i in {success:1, error:1, complete:1})\<close>).
\<close>

definition ajax :: "string \<Rightarrow> (string \<times> callback) list \<Rightarrow> unit js" where
  "ajax url settings =
     (let named = (\<lambda>k. map snd (filter (\<lambda>s. fst s = k) settings))
      in modifyA (\<lambda>p. p\<lparr>requests := requests p @
           [\<lparr>rq_url = url, rq_done = named ''success'', rq_fail = named ''error'',
             rq_always = named ''complete''\<rparr>]\<rparr>))"

definition alertA :: "string \<Rightarrow> unit js" where
  "alertA s = modifyA (\<lambda>p. p\<lparr>alerts := alerts p @ [s]\<rparr>)"

definition plotA :: "env \<Rightarrow> nat \<Rightarrow> jsv \<Rightarrow> jsv \<Rightarrow> unit js" where
  "plotA e d cd opts = (\<lambda>p.
     let c = \<lparr>pc_div = d, pc_data = cd, pc_options = opts\<rparr>
     in case flot e c of
          Some err \<Rightarrow> (Inl err, p)
        | None \<Rightarrow> (Inr (), p\<lparr>plots := plots p @ [c]\<rparr>))"

end
