(* ===== verification/Perf_Plot.thy ===== *)
theory Perf_Plot
  imports Perf_Charts Jquery
begin

text \<open>
  The functions of \<open>html/perf.js\<close> that act on the page: \<open>plot_data\<close> lays the chart out in
  a table and calls the plotting library, the four chart kinds compute their series and
  hand them to it, \<open>plot0\<close> and \<open>plot\<close> dispatch, \<open>summarise\<close> writes a rate, and
  \<open>render_graphs\<close> walks over the charts and the summaries.
\<close>

text \<open>\<open>attr_or_default\<close>: the attribute \<open>data-key\<close>, or the default when there is none.\<close>

definition attr_or_default :: "nat \<Rightarrow> string \<Rightarrow> string \<Rightarrow> jsv js" where
  "attr_or_default d key def =
     bindA (attrA d (''data-'' @ key)) (\<lambda>res. retA (if res = Undefined then Str def else res))"

text \<open>String concatenation of literals and an attribute value.\<close>

definition concatA :: "string \<Rightarrow> jsv \<Rightarrow> string \<Rightarrow> string js" where
  "concatA a v b = liftA (bindE (to_str v) (\<lambda>s. Inr (a @ s @ b)))"

definition plot_data :: "env \<Rightarrow> nat \<Rightarrow> jsv list \<Rightarrow> (string \<times> jsv) list \<Rightarrow> unit js" where
  "plot_data e d chart_data extra =
     bindA (attr_or_default d ''legend'' ''se'') (\<lambda>legend.
     bindA (attr_or_default d ''x-axis-log'' ''false'') (\<lambda>log.
     bindA (attrA d ''class'') (\<lambda>cssClass.
     bindA (attrA d ''class'') (\<lambda>cls.
     let opts = chrome legend (cls = Str ''small-chart'') extra (log = Str ''true'') in
     bindA (wrap e d ''<td />'') (\<lambda>_.
     bindA (parentA d) (\<lambda>cell.
     bindA (wrap e cell ''<tr/>'') (\<lambda>_.
     bindA (parentA cell) (\<lambda>row.
     bindA (concatA ''<table class=\"'' cssClass ''-wrapper\"/>'') (\<lambda>table.
     bindA (wrap e row table) (\<lambda>_.
     bindA (attrA d ''data-y-axis'') (\<lambda>y.
     bindA (concatA ''<td class=\"yaxis\">'' y ''</td>'') (\<lambda>yc.
     bindA (before e cell yc) (\<lambda>_.
     bindA (attrA d ''data-y-axis2'') (\<lambda>y2.
     bindA (if truthy y2
            then bindA (attrA d ''data-y-axis2'') (\<lambda>y2'.
                 bindA (concatA ''<td class=\"yaxis\">'' y2' ''</td>'') (\<lambda>yc2. after e cell yc2))
            else retA ()) (\<lambda>_.
     bindA (attrA d ''data-x-axis'') (\<lambda>x.
     bindA (concatA ''<tr><td></td><td class=\"xaxis\">'' x ''</td><td></td></tr>'') (\<lambda>xr.
     bindA (after e row xr) (\<lambda>_.
       plotA e d (Arr chart_data) (Obj opts)))))))))))))))))))"

definition plot_time :: "env \<Rightarrow> nat \<Rightarrow> jsv \<Rightarrow> unit js" where
  "plot_time e d data =
     bindA (attrA d ''data-latency'') (\<lambda>lat.
     bindA (liftA (time_chart (lat = Str ''true'') data)) (\<lambda>cd.
       plot_data e d cd [(''yaxes'', axes_rate_and_latency)]))"

definition plot_series :: "env \<Rightarrow> nat \<Rightarrow> jsv \<Rightarrow> jsv \<Rightarrow> jsv \<Rightarrow> unit js" where
  "plot_series e d dimensions dimension_values data =
     bindA (attrA d ''data-x-key'') (\<lambda>x_key.
     bindA (attrA d ''data-series-key'') (\<lambda>series_key.
     bindA (attr_or_default d ''plot-key'' ''send-msg-rate'') (\<lambda>plot_key.
     bindA (liftA (series_chart x_key series_key plot_key dimensions dimension_values data)) (\<lambda>cd.
       plot_data e d cd []))))"

definition plot_x_y :: "env \<Rightarrow> nat \<Rightarrow> jsv \<Rightarrow> jsv \<Rightarrow> jsv \<Rightarrow> unit js" where
  "plot_x_y e d dimensions dimension_values data =
     bindA (attrA d ''data-x-key'') (\<lambda>x_key.
     bindA (attr_or_default d ''plot-keys'' ''send-msg-rate'') (\<lambda>keys.
     bindA (liftA (bindE (to_str keys) (\<lambda>ks. xy_chart x_key ks dimension_values data))) (\<lambda>(cd, extra).
       plot_data e d cd extra)))"

definition plot_r_l :: "env \<Rightarrow> nat \<Rightarrow> jsv \<Rightarrow> jsv \<Rightarrow> jsv \<Rightarrow> unit js" where
  "plot_r_l e d dimensions dimension_values data =
     bindA (liftA (rl_chart dimension_values data)) (\<lambda>cd.
       plot_data e d cd [(''yaxes'', axes_rate_and_latency)])"

definition plot0 :: "env \<Rightarrow> nat \<Rightarrow> jsv \<Rightarrow> unit js" where
  "plot0 e d results =
     bindA (attrA d ''data-type'') (\<lambda>type.
     bindA (attrA d ''data-scenario'') (\<lambda>scenario.
     if type = Str ''time''
     then bindA (liftA (get_at results scenario)) (\<lambda>data. plot_time e d data)
     else
       bindA (liftA (bindE (get_at results scenario) (\<lambda>r. get_prop r ''dimensions''))) (\<lambda>dimensions.
       bindA (liftA (bindE (get_at results scenario) (\<lambda>r. get_prop r ''dimension-values''))) (\<lambda>dimension_values.
       bindA (liftA (bindE (get_at results scenario) (\<lambda>r. get_prop r ''data''))) (\<lambda>data.
         if type = Str ''series'' then plot_series e d dimensions dimension_values data
         else if type = Str ''x-y'' then plot_x_y e d dimensions dimension_values data
         else if type = Str ''r-l'' then plot_r_l e d dimensions dimension_values data
         else retA ())))))"

definition plot :: "env \<Rightarrow> nat \<Rightarrow> jsv \<Rightarrow> unit js" where
  "plot e d results =
     bindA (attrA d ''data-file'') (\<lambda>file.
     if file = Undefined then plot0 e d results
     else bindA (liftA (to_str file)) (\<lambda>url.
       ajax url [(''success'', Cb_plot0 d), (''fail'', Cb_alert (''error loading '' @ url))]))"

definition summarise :: "env \<Rightarrow> nat \<Rightarrow> jsv \<Rightarrow> unit js" where
  "summarise e d results =
     bindA (attrA d ''data-scenario'') (\<lambda>scenario.
     bindA (attrA d ''data-mode'') (\<lambda>mode.
     bindA (liftA (get_at results scenario)) (\<lambda>data.
     bindA (liftA (summary_rate mode data)) (\<lambda>rate.
     bindA (liftA (summary_html rate)) (\<lambda>html. append e d html)))))"

text \<open>
  \<open>render_graphs results parent\<close>: within the given element, or in the whole document when
  no parent is given. The charts are selected before the first is plotted, the summaries
  after the last.
\<close>

definition selectA :: "string list \<Rightarrow> nat option \<Rightarrow> nat list js" where
  "selectA cs parent =
     (case parent of
        None \<Rightarrow> getA (\<lambda>p. select cs (doc p))
      | Some r \<Rightarrow> bindA (elem_of r) (\<lambda>t. retA (select cs t)))"

definition render_graphs :: "env \<Rightarrow> jsv \<Rightarrow> nat option \<Rightarrow> unit js" where
  "render_graphs e results parent =
     bindA (selectA [''chart'', ''small-chart''] parent) (\<lambda>charts.
     bindA (eachA (\<lambda>d. plot e d results) charts) (\<lambda>_.
     bindA (selectA [''summary''] parent) (\<lambda>summaries.
       eachA (\<lambda>d. summarise e d results) summaries)))"

end
