(* ===== verification/Jquery_Frame.thy ===== *)
theory Jquery_Frame
  imports Jquery
begin

text \<open>
  What the jQuery operations keep of a page. The signature of a tree lists the identity, tag
  and attributes of its elements in document order; every operation only adds elements,
  with fresh identities, so each element of a page keeps its tag and its attributes for as
  long as the page lives.
\<close>

section \<open>Effects that only move a state forward\<close>

definition keeps :: "('s \<Rightarrow> 's \<Rightarrow> bool) \<Rightarrow> ('s, 'a) act \<Rightarrow> bool" where
  "keeps R m \<longleftrightarrow> (\<forall>s. R s (snd (m s)))"

lemma keepsI: "(\<And>s. R s (snd (m s))) \<Longrightarrow> keeps R m"
  by (simp add: keeps_def)

lemma keepsD: "keeps R m \<Longrightarrow> m s = (r, t) \<Longrightarrow> R s t"
  by (metis keeps_def snd_conv)

locale forward =
  fixes R :: "'s \<Rightarrow> 's \<Rightarrow> bool"
  assumes R_refl: "R s s"
    and R_trans: "R s t \<Longrightarrow> R t u \<Longrightarrow> R s u"
begin

lemma keeps_pure: "keeps R (retA x)" "keeps R (liftA r)" "keeps R (getA g)"
  by (simp_all add: keeps_def R_refl)

lemma keeps_bindA:
  assumes "keeps R m" and "\<And>x. keeps R (f x)"
  shows "keeps R (bindA m f)"
proof (rule keepsI)
  fix s
  show "R s (snd (bindA m f s))"
    using assms by (auto simp: bindA_def keeps_def split: prod.splits sum.splits) (metis R_trans snd_conv)+
qed

lemma keeps_eachA: "(\<And>x. x \<in> set xs \<Longrightarrow> keeps R (f x)) \<Longrightarrow> keeps R (eachA f xs)"
  by (induction xs) (auto intro: keeps_pure keeps_bindA)

lemma keeps_if: "keeps R a \<Longrightarrow> keeps R b \<Longrightarrow> keeps R (if c then a else b)"
  by simp

lemmas keeps_intros = keeps_pure keeps_bindA keeps_eachA keeps_if

end

section \<open>Fresh elements\<close>

text \<open>The elements \<open>A\<close> have different identities, all from \<open>n\<close> up to \<open>m\<close>, \<open>m\<close> excluded.\<close>

definition fresh :: "nat \<Rightarrow> nat \<Rightarrow> (nat \<times> string \<times> attrs) multiset \<Rightarrow> bool" where
  "fresh n m A \<longleftrightarrow> n \<le> m \<and> (\<forall>i. count (image_mset fst A) i \<le> (if n \<le> i \<and> i < m then 1 else 0))"

lemma fresh_empty: "n \<le> m \<Longrightarrow> fresh n m {#}"
  by (simp add: fresh_def)

lemma fresh_one: "fresh n (Suc n) {#(n, x)#}"
  by (simp add: fresh_def)

lemma fresh_add: "fresh n m A \<Longrightarrow> fresh m k B \<Longrightarrow> fresh n k (A + B)"
proof -
  assume AB: "fresh n m A" "fresh m k B"
  then have le: "n \<le> m" "m \<le> k" by (simp_all add: fresh_def)
  have "count (image_mset fst (A + B)) i \<le> (if n \<le> i \<and> i < k then 1 else 0)" for i
  proof -
    have "count (image_mset fst A) i \<le> (if n \<le> i \<and> i < m then 1 else 0)"
         "count (image_mset fst B) i \<le> (if m \<le> i \<and> i < k then 1 else 0)"
      using AB by (auto simp only: fresh_def)
    then show ?thesis using le by (auto split: if_splits)
  qed
  then show ?thesis using le by (simp only: fresh_def) simp
qed

lemma fresh_outside: "fresh n m A \<Longrightarrow> x \<in># A \<Longrightarrow> n \<le> fst x \<and> fst x < m"
proof -
  assume A: "fresh n m A" and x: "x \<in># A"
  have "fst x \<in># image_mset fst A" using imageI [OF x, of fst] by (simp only: set_image_mset)
  then have "0 < count (image_mset fst A) (fst x)" by (simp only: count_greater_zero_iff)
  moreover have "count (image_mset fst A) (fst x) \<le> (if n \<le> fst x \<and> fst x < m then 1 else 0)"
    using A by (simp only: fresh_def)
  ultimately show ?thesis by (cases "n \<le> fst x \<and> fst x < m") (simp_all only: if_False le_zero_eq less_irrefl)
qed

lemma inst_fresh:
  "fresh n (snd (inst n h)) (mset (sig (fst (inst n h))))"
  "fresh n (snd (inst_list n hs)) (mset (sig_list (fst (inst_list n hs))))"
proof (induction n h and n hs rule: inst_inst_list.induct)
  case (2 n g a hs)
  obtain ks m where k: "inst_list (Suc n) hs = (ks, m)" by fastforce
  with 2 have "fresh (Suc n) m (mset (sig_list ks))" by simp
  then have "fresh n m ({#(n, g, a)#} + mset (sig_list ks))" by (rule fresh_add [OF fresh_one])
  then show ?case by (simp add: k)
next
  case (4 n h hs)
  obtain k m where k: "inst n h = (k, m)" by fastforce
  obtain ks m' where ks: "inst_list m hs = (ks, m')" by fastforce
  have "fresh n m (mset (sig k))" "fresh m m' (mset (sig_list ks))" using 4 k ks by simp_all
  then have "fresh n m' (mset (sig k) + mset (sig_list ks))" by (rule fresh_add)
  then show ?case by (simp add: k ks)
qed (simp_all add: fresh_empty)

lemma append_nodes_sig:
  assumes "append_nodes n (Elem i g a ks) ts = (t', m)" and "distinct (ids (Elem i g a ks))"
  shows "\<exists>A. fresh n m A \<and> mset (sig t') = mset (sig (Elem i g a ks)) + mset (sig_list ts) + A"
proof (cases "g = ''table'' \<and> first_tag ts = ''tr''")
  case False
  with assms(1) have "t' = Elem i g a (ks @ ts)" "m = n" by auto
  then show ?thesis by (auto intro!: exI [of _ "{#}"] fresh_empty)
next
  case True
  let ?bodies = "find (\<lambda>u. tag u = ''tbody'') (concat (map elements ks))"
  show ?thesis
  proof (cases ?bodies)
    case None
    with True assms(1) have "t' = Elem i g a (ks @ [Elem n ''tbody'' [] ts])" "m = Suc n" by auto
    then show ?thesis by (auto intro!: exI [of _ "{#(n, ''tbody'', [])#}"] fresh_one)
  next
    case (Some b)
    then have b: "b \<in> set (concat (map elements ks))" by (metis find_Some_iff nth_mem)
    then obtain j h c ms where e: "b = Elem j h c ms" using elements_Elem by fastforce
    have el: "b \<in> set (elements (Elem i g a ks))" using b by simp
    have "j \<in> set (ids_list ks)" unfolding ids_list_elements using b e by (intro image_eqI [of _ _ b]) simp_all
    then have nr: "\<not> root_is j (Elem i g a ks)" using assms(2) by auto
    have "mset (sig (splice j (\<lambda>u. [add_kids ts u]) (Elem i g a ks))) + mset (sig b) =
        mset (sig (Elem i g a ks)) + mset (sig_list [add_kids ts b])"
      using e by (intro mset_sig_splice assms(2) el nr) simp_all
    then have "mset (sig (splice j (\<lambda>u. [add_kids ts u]) (Elem i g a ks))) =
        mset (sig (Elem i g a ks)) + mset (sig_list ts)"
      by (simp add: e)
    moreover have "t' = splice j (\<lambda>u. [add_kids ts u]) (Elem i g a ks)" "m = n"
      using True assms(1) Some e by auto
    ultimately show ?thesis by (auto intro!: exI [of _ "{#}"] fresh_empty)
  qed
qed

lemma fill_sig:
  "fill n w t = (w', m) \<Longrightarrow> \<exists>i g a ks. w = Elem i g a ks \<Longrightarrow> distinct (ids w) \<Longrightarrow>
   \<exists>A. fresh n m A \<and> mset (sig w') = mset (sig w) + mset (sig t) + A"
proof (induction n w t arbitrary: w' m rule: fill.induct)
  case (1 n i g a j h b ms rest t)
  obtain c k where c: "fill n (Elem j h b ms) t = (c, k)" by fastforce
  then obtain A where "fresh n k A" "mset (sig c) = mset (sig (Elem j h b ms)) + mset (sig t) + A"
    using "1.IH" [OF c] "1.prems"(3) by auto
  with "1.prems"(1) c show ?case by (auto simp: Let_def ac_simps)
qed (fastforce dest: append_nodes_sig simp del: append_nodes.simps)+

section \<open>The document of a page only grows\<close>

definition wf_page :: "page \<Rightarrow> bool" where
  "wf_page p \<longleftrightarrow> distinct (ids (doc p)) \<and> (\<forall>i \<in> set (ids (doc p)). i < next_id p)"

definition grows :: "page \<Rightarrow> page \<Rightarrow> bool" where
  "grows p q \<longleftrightarrow> (wf_page p \<longrightarrow> wf_page q \<and>
     (\<exists>A. fresh (next_id p) (next_id q) A \<and> mset (sig (doc q)) = mset (sig (doc p)) + A))"

lemma wf_page_count:
  "wf_page p \<longleftrightarrow> (\<forall>i. count (image_mset fst (mset (sig (doc p)))) i \<le> (if i < next_id p then 1 else 0))"
proof -
  have "distinct xs \<longleftrightarrow> (\<forall>i. count (mset xs) i \<le> 1)" for xs :: "nat list"
  proof
    show "distinct xs \<Longrightarrow> \<forall>i. count (mset xs) i \<le> 1" by (simp add: distinct_count_atmost_1)
    assume le: "\<forall>i. count (mset xs) i \<le> 1"
    have "count (mset xs) i = (if i \<in> set xs then 1 else 0)" for i
    proof (cases "i \<in> set xs")
      case True
      then have "0 < count (mset xs) i" by (simp only: set_mset_mset [symmetric] count_greater_zero_iff)
      with True le show ?thesis by (simp add: le_Suc_eq)
    next
      case False
      then show ?thesis by (simp add: count_eq_zero_iff)
    qed
    then show "distinct xs" by (simp add: distinct_count_atmost_1)
  qed
  moreover have "image_mset fst (mset (sig (doc p))) = mset (ids (doc p))" by (simp add: ids_sig)
  moreover have "(\<forall>i \<in> set xs. i < n) \<longleftrightarrow> (\<forall>i. \<not> i < n \<longrightarrow> count (mset xs) i = 0)" for xs and n :: nat
    by (auto simp: count_eq_zero_iff)
  moreover have "(\<forall>i. c i \<le> (if i < n then 1 else 0)) \<longleftrightarrow> (\<forall>i. c i \<le> 1) \<and> (\<forall>i. \<not> i < n \<longrightarrow> c i = 0)"
    for c :: "nat \<Rightarrow> nat" and n
    by (intro iffI conjI allI impI) (auto split: if_splits elim!: allE)
  ultimately show ?thesis by (simp only: wf_page_def)
qed

lemma wf_page_fresh:
  assumes "wf_page p" and "fresh (next_id p) (next_id q) A" and "mset (sig (doc q)) = mset (sig (doc p)) + A"
  shows "wf_page q"
  unfolding wf_page_count
proof
  fix i
  have "count (image_mset fst (mset (sig (doc p)))) i \<le> (if i < next_id p then 1 else 0)"
      "count (image_mset fst A) i \<le> (if next_id p \<le> i \<and> i < next_id q then 1 else 0)"
      "next_id p \<le> next_id q"
    using assms(1,2) by (auto simp only: wf_page_count fresh_def)
  then show "count (image_mset fst (mset (sig (doc q)))) i \<le> (if i < next_id q then 1 else 0)"
    unfolding assms(3) by (auto split: if_splits)
qed

lemma growsI:
  "(wf_page p \<Longrightarrow> \<exists>A. fresh (next_id p) (next_id q) A \<and> mset (sig (doc q)) = mset (sig (doc p)) + A) \<Longrightarrow> grows p q"
  unfolding grows_def using wf_page_fresh by blast

interpretation growth: forward grows
proof
  show "grows p p" for p by (auto intro!: growsI exI [of _ "{#}"] fresh_empty)
  show "grows p q \<Longrightarrow> grows q r \<Longrightarrow> grows p r" for p q r
    unfolding grows_def using fresh_add by (metis (no_types, lifting) union_assoc)
qed

lemma splice_grows:
  assumes "lookup d (doc p) = Some t" and "mset (sig_list (f t)) = mset (sig t) + A"
    and "fresh (next_id p) m A"
  shows "grows p (p\<lparr>doc := splice d f (doc p), next_id := m\<rparr>)"
proof (rule growsI)
  assume wf: "wf_page p"
  have t: "t \<in> set (elements (doc p))" "root_is d t"
    using assms(1) lookup_elements lookup_Some_root by blast+
  let ?q = "p\<lparr>doc := splice d f (doc p), next_id := m\<rparr>"
  show "\<exists>A. fresh (next_id p) (next_id ?q) A \<and> mset (sig (doc ?q)) = mset (sig (doc p)) + A"
  proof (cases "root_is d (doc p)")
    case True
    then obtain g a ks where e: "doc p = Elem d g a ks" by (cases "doc p") auto
    with wf have "d \<notin> set (ids_list ks)" by (auto simp: wf_page_def)
    then have "splice d f (doc p) = doc p" by (simp add: e splice_kids_absent)
    moreover have "next_id p \<le> m" using assms(3) by (simp add: fresh_def)
    ultimately show ?thesis by (auto intro!: exI [of _ "{#}"] fresh_empty)
  next
    case False
    have "distinct (ids (doc p))" using wf by (simp add: wf_page_def)
    from mset_sig_splice [OF this t False, of f] assms(2)
    have "mset (sig (splice d f (doc p))) = mset (sig (doc p)) + A" by simp
    with assms(3) show ?thesis by auto
  qed
qed

lemma keeps_elem_of:
  assumes "\<And>s. R s s" and "\<And>t p. lookup d (doc p) = Some t \<Longrightarrow> R p (snd (f t p))"
  shows "keeps R (bindA (elem_of d) f)"
  using assms by (auto simp: keeps_def bindA_def elem_of_def split: option.splits)

lemma keeps_attrA: "(\<And>s. R s s) \<Longrightarrow> keeps R (attrA d k)"
  by (auto simp: attrA_def intro!: keeps_elem_of)

lemma keeps_parentA: "(\<And>s. R s s) \<Longrightarrow> keeps R (parentA d)"
  by (auto simp: parentA_def keeps_def split: option.splits)

section \<open>The operations\<close>

text \<open>\<open>calm\<close>: nothing is drawn, requested or shown; only the document may change.\<close>

definition calm :: "page \<Rightarrow> page \<Rightarrow> bool" where
  "calm p q \<longleftrightarrow> plots q = plots p \<and> requests q = requests p \<and> alerts q = alerts p"

interpretation quiet_doc: forward calm
  by unfold_locales (auto simp: calm_def)

lemma wrap_grows: "keeps grows (wrap e d s)"
  unfolding wrap_def
proof (rule keeps_elem_of [OF growth.R_refl])
  fix t and p :: page assume t: "lookup d (doc p) = Some t"
  show "grows p (snd ((case make_nodes e s of
       HElem g a hs # _ \<Rightarrow>
         (let (w, m) = inst (next_id p) (HElem g a hs); (w', m') = fill m w t
          in (Inr (), p\<lparr>doc := splice d (\<lambda>_. [w']) (doc p), next_id := m'\<rparr>))
     | _ \<Rightarrow> (Inl (Outside ''wrap without an element''), p))))"
  proof (cases "\<exists>g a hs rest. make_nodes e s = HElem g a hs # rest")
    case True
    then obtain g a hs rest where mk: "make_nodes e s = HElem g a hs # rest" by blast
    obtain w m where i: "inst (next_id p) (HElem g a hs) = (w, m)" by fastforce
    obtain w' m' where fl: "fill m w t = (w', m')" by fastforce
    have fr: "fresh (next_id p) m (mset (sig w))" using inst_fresh(1) [of "next_id p" "HElem g a hs"] i by simp
    have el: "\<exists>i g a ks. w = Elem i g a ks" using i by (auto simp: Let_def split: prod.splits)
    have "distinct (ids w)"
    proof -
      have "count (image_mset fst (mset (sig w))) i \<le> (if i < m then 1 else 0)" for i
      proof -
        have "count (image_mset fst (mset (sig w))) i \<le> (if next_id p \<le> i \<and> i < m then 1 else 0)"
          using fr by (simp only: fresh_def)
        also have "\<dots> \<le> (if i < m then 1 else 0)" by simp
        finally show ?thesis .
      qed
      then have "wf_page \<lparr>doc = w, next_id = m, plots = [], requests = [], alerts = []\<rparr>"
        unfolding wf_page_count page.simps by blast
      then show ?thesis by (simp add: wf_page_def)
    qed
    then obtain A where A: "fresh m m' A" "mset (sig w') = mset (sig w) + mset (sig t) + A"
      using fill_sig [OF fl el] by blast
    have "grows p (p\<lparr>doc := splice d (\<lambda>_. [w']) (doc p), next_id := m'\<rparr>)"
      using A fresh_add [OF fr A(1)] by (intro splice_grows [OF t]) (simp_all add: ac_simps)
    then show ?thesis by (simp add: mk i fl del: inst.simps)
  qed (auto simp: growth.R_refl split: list.splits html.splits)
qed

lemma insertA_grows:
  assumes "\<And>ts t. mset (sig_list (f ts t)) = mset (sig t) + mset (sig_list ts)"
  shows "keeps grows (insertA e d s f)"
  unfolding insertA_def
proof (rule keeps_elem_of [OF growth.R_refl])
  fix t and p :: page assume t: "lookup d (doc p) = Some t"
  obtain ts m where i: "inst_list (next_id p) (parse_html e s) = (ts, m)" by fastforce
  have "fresh (next_id p) m (mset (sig_list ts))"
    using inst_fresh(2) [of "next_id p" "parse_html e s"] i by simp
  then have "grows p (p\<lparr>doc := splice d (f ts) (doc p), next_id := m\<rparr>)"
    using assms by (intro splice_grows [OF t])
  then show "grows p (snd (let (ts, m) = inst_list (next_id p) (parse_html e s)
      in (Inr (), p\<lparr>doc := splice d (f ts) (doc p), next_id := m\<rparr>)))"
    by (simp add: i)
qed

lemma before_grows: "keeps grows (before e d s)"
  unfolding before_def by (rule insertA_grows) (simp add: ac_simps)

lemma after_grows: "keeps grows (after e d s)"
  unfolding after_def by (rule insertA_grows) simp

lemma append_grows: "keeps grows (append e d s)"
  unfolding append_def
proof (rule keeps_elem_of [OF growth.R_refl])
  fix t and p :: page assume t: "lookup d (doc p) = Some t"
  obtain ts m where i: "inst_list (next_id p) (parse_html e s) = (ts, m)" by fastforce
  obtain t' m' where a: "append_nodes m t ts = (t', m')" by fastforce
  have "grows p (p\<lparr>doc := splice d (\<lambda>_. [t']) (doc p), next_id := m'\<rparr>)"
  proof (cases "wf_page p")
    case True
    have el: "t \<in> set (elements (doc p))" using t lookup_elements by blast
    have d: "distinct (ids t)" using True el distinct_ids_sub by (auto simp: wf_page_def)
    obtain j g b ks where "t = Elem j g b ks" using elements_Elem [OF el] by blast
    then obtain A where A: "fresh m m' A" "mset (sig t') = mset (sig t) + mset (sig_list ts) + A"
      using append_nodes_sig a d by blast
    have "fresh (next_id p) m (mset (sig_list ts))"
      using inst_fresh(2) [of "next_id p" "parse_html e s"] i by simp
    from fresh_add [OF this A(1)] A(2) show ?thesis
      by (intro splice_grows [OF t]) (simp_all add: ac_simps)
  qed (simp add: grows_def)
  then show "grows p (snd (let (ts, m) = inst_list (next_id p) (parse_html e s); (t', m') = append_nodes m t ts
      in (Inr (), p\<lparr>doc := splice d (\<lambda>_. [t']) (doc p), next_id := m'\<rparr>)))"
    by (simp add: i a)
qed

lemma same_doc_grows:
  assumes "\<And>p. doc (snd (m p)) = doc p" "\<And>p. next_id (snd (m p)) = next_id p"
  shows "keeps grows m"
proof (rule keepsI, rule growsI)
  fix p
  show "\<exists>A. fresh (next_id p) (next_id (snd (m p))) A \<and> mset (sig (doc (snd (m p)))) = mset (sig (doc p)) + A"
    using assms by (auto intro!: exI [of _ "{#}"] fresh_empty)
qed

lemma log_grows: "keeps grows (ajax url s)" "keeps grows (alertA m)" "keeps grows (plotA e d cd os)"
  by (rule same_doc_grows; simp add: ajax_def alertA_def plotA_def Let_def split: option.splits)+

lemma doc_calm:
  "keeps calm (wrap e d s)" "keeps calm (before e d s)" "keeps calm (after e d s)" "keeps calm (append e d s)"
  unfolding wrap_def before_def after_def append_def insertA_def
  by (rule keeps_elem_of [OF quiet_doc.R_refl];
      auto simp: calm_def Let_def split: list.splits html.splits prod.splits)+

section \<open>What growth keeps\<close>

lemma grows_lookup:
  assumes "grows p q" and "wf_page p" and "lookup i (doc p) = Some t"
  obtains t' where "lookup i (doc q) = Some t'" "tag t' = tag t" "attrs t' = attrs t"
proof -
  have "t \<in> set (elements (doc p))" "nid t = i"
    using assms(3) lookup_elements lookup_Some_root root_is_nid by blast+
  then have "(i, tag t, attrs t) \<in># mset (sig (doc p))" by (auto simp: sig_elements)
  moreover have q: "wf_page q" "\<exists>A. mset (sig (doc q)) = mset (sig (doc p)) + A"
    using assms(1,2) by (auto simp: grows_def)
  ultimately have "(i, tag t, attrs t) \<in># mset (sig (doc q))" by (metis union_iff)
  then obtain t' where t': "t' \<in> set (elements (doc q))" "nid t' = i" "tag t' = tag t" "attrs t' = attrs t"
    by (auto simp: sig_elements)
  then have "lookup i (doc q) = Some t'"
    using lookup_unique q(1) root_is_nid by (auto simp: wf_page_def)
  with t' that show ?thesis by blast
qed

lemma grows_attrA:
  assumes "grows p q" and "wf_page p" and "attrA d k p = (Inr v, p)"
  shows "attrA d k q = (Inr v, q)"
proof -
  obtain t where t: "lookup d (doc p) = Some t" "v = attr t k"
    using assms(3) by (auto simp: attrA_def bindA_def elem_of_def split: option.splits)
  obtain t' where "lookup d (doc q) = Some t'" "attrs t' = attrs t"
    using grows_lookup [OF assms(1,2) t(1)] by blast
  then show ?thesis by (simp add: attrA_def bindA_def elem_of_def t(2) attr_def)
qed

end
