(* ===== verification/Perf_Plot_Frame.thy ===== *)
theory Perf_Plot_Frame
  imports Perf_Plot Jquery_Frame
begin

text \<open>
  Effects of the page functions of \<open>html/perf.js\<close> that hold for every page and every result:
  the document only grows, exceptions come from where they can come from, and what is
  drawn and requested by a chart.
\<close>

section \<open>The document only grows\<close>

lemma attr_or_default_grows: "keeps grows (attr_or_default d key def)"
  unfolding attr_or_default_def by (intro growth.keeps_intros keeps_attrA growth.R_refl)

lemma concatA_grows: "keeps grows (concatA a v b)"
  unfolding concatA_def by (rule growth.keeps_pure)

lemmas grow_ops = growth.keeps_intros keeps_attrA [of grows, OF growth.R_refl]
  keeps_parentA [of grows, OF growth.R_refl]
  attr_or_default_grows concatA_grows wrap_grows before_grows after_grows append_grows log_grows

lemma plot_data_grows: "keeps grows (plot_data e d cd extra)"
  unfolding plot_data_def Let_def by (intro grow_ops)

lemma charts_grow:
  "keeps grows (plot_time e d data)"
  "keeps grows (plot_series e d dims vals data)"
  "keeps grows (plot_x_y e d dims vals data)"
  "keeps grows (plot_r_l e d dims vals data)"
  unfolding plot_time_def plot_series_def plot_x_y_def plot_r_l_def
  by (auto intro!: grow_ops plot_data_grows split: prod.splits)

lemma plot0_grows: "keeps grows (plot0 e d results)"
  unfolding plot0_def by (intro grow_ops charts_grow)

lemma plot_grows: "keeps grows (plot e d results)"
  unfolding plot_def by (intro grow_ops plot0_grows)

lemma summarise_grows: "keeps grows (summarise e d results)"
  unfolding summarise_def by (intro grow_ops)

lemma selectA_grows: "keeps grows (selectA cs parent)"
  unfolding selectA_def
  by (cases parent) (auto intro!: grow_ops keeps_elem_of growth.R_refl)

lemma render_graphs_grows: "keeps grows (render_graphs e results parent)"
  unfolding render_graphs_def by (intro grow_ops selectA_grows plot_grows summarise_grows)

section \<open>Where exceptions come from\<close>

definition raises :: "(jserr \<Rightarrow> bool) \<Rightarrow> ('s, 'a) act \<Rightarrow> bool" where
  "raises P m \<longleftrightarrow> (\<forall>s err t. m s = (Inl err, t) \<longrightarrow> P err)"

lemma raises_pure: "raises P (retA x)" "raises P (getA g)"
  by (simp_all add: raises_def)

lemma raises_bindA: "raises P m \<Longrightarrow> (\<And>x. raises P (f x)) \<Longrightarrow> raises P (bindA m f)"
  unfolding raises_def bindA_def by (auto split: prod.splits sum.splits)

lemma raises_if: "raises P a \<Longrightarrow> raises P b \<Longrightarrow> raises P (if c then a else b)"
  by simp

text \<open>An attribute is a string or undefined, so it can always be written into markup.\<close>

definition plain :: "jsv \<Rightarrow> bool" where
  "plain v \<longleftrightarrow> v = Undefined \<or> (\<exists>s. v = Str s)"

lemma plain_attr: "plain (attr t k)"
  by (auto simp: plain_def attr_def split: option.splits)

text \<open>An attribute as it is written into markup.\<close>

definition shown :: "jsv \<Rightarrow> string" where
  "shown v = (case v of Str s \<Rightarrow> s | _ \<Rightarrow> ''undefined'')"

lemma to_str_attr: "to_str (attr t k) = Inr (shown (attr t k))"
  by (auto simp: attr_def shown_def split: option.splits)

lemma attrA_Inr: "attrA d k p = (Inr v, q) \<longleftrightarrow> q = p \<and> (\<exists>t. lookup d (doc p) = Some t \<and> v = attr t k)"
  by (auto simp: attrA_def bindA_def elem_of_def split: option.splits)

lemma attrA_Some: "lookup d (doc p) = Some t \<Longrightarrow> attrA d k p = (Inr (attr t k), p)"
  by (simp add: attrA_Inr)

definition attr_default :: "dtree \<Rightarrow> string \<Rightarrow> string \<Rightarrow> jsv" where
  "attr_default t key def = (if attr t (''data-'' @ key) = Undefined then Str def else attr t (''data-'' @ key))"

lemma attr_or_default_Some:
  "lookup d (doc p) = Some t \<Longrightarrow> attr_or_default d key def p = (Inr (attr_default t key def), p)"
  by (simp add: attr_or_default_def attr_default_def attrA_Some bindA_def)

text \<open>The exceptions of the layout: a node that is not there, or the plotting library's.\<close>

abbreviation layout_error :: "env \<Rightarrow> jserr \<Rightarrow> bool" where
  "layout_error e err \<equiv> (\<exists>s. err = Outside s) \<or> (\<exists>c. flot e c = Some err)"

lemma raises_elem_of:
  "(\<And>t. raises (layout_error e) (f t)) \<Longrightarrow> raises (layout_error e) (bindA (elem_of d) f)"
  unfolding raises_def bindA_def elem_of_def by (auto split: option.splits)

lemma raises_attr:
  "(\<And>v. plain v \<Longrightarrow> raises (layout_error e) (f v)) \<Longrightarrow> raises (layout_error e) (bindA (attrA d k) f)"
  unfolding raises_def bindA_def attrA_def elem_of_def using plain_attr
  by (auto split: option.splits prod.splits sum.splits) blast+

lemma raises_default:
  "(\<And>v. raises (layout_error e) (f v)) \<Longrightarrow> raises (layout_error e) (bindA (attr_or_default d k df) f)"
  unfolding attr_or_default_def
  by (intro raises_bindA raises_attr raises_pure) simp_all

lemma raises_concat: "plain v \<Longrightarrow> raises P (concatA a v b)"
  by (auto simp: plain_def raises_def concatA_def liftA_def)

lemma raises_nodes:
  "raises (layout_error e) (wrap e d s)" "raises (layout_error e) (before e d s)"
  "raises (layout_error e) (after e d s)" "raises (layout_error e) (parentA d)"
  "raises (layout_error e) (plotA e d cd os)"
  unfolding wrap_def before_def after_def insertA_def parentA_def plotA_def
  by (auto simp: Let_def intro!: raises_elem_of)
    (auto simp: raises_def split: option.splits list.splits html.splits prod.splits)

lemma plot_data_raises: "raises (layout_error e) (plot_data e d cd extra)"
  unfolding plot_data_def Let_def
  by (intro raises_default raises_attr raises_bindA raises_nodes raises_concat raises_if raises_pure)

section \<open>The layout and the drawing of a chart\<close>

text \<open>\<open>plot_data\<close> without its options and its last line: the table around the chart.\<close>

definition chart_layout :: "env \<Rightarrow> nat \<Rightarrow> unit js" where
  "chart_layout e d =
     bindA (attrA d ''class'') (\<lambda>cssClass.
     bindA (wrap e d ''<td />'') (\<lambda>_.
     bindA (parentA d) (\<lambda>cell.
     bindA (wrap e cell ''<tr/>'') (\<lambda>_.
     bindA (parentA cell) (\<lambda>row.
     bindA (concatA ''<table class=\"'' cssClass ''-wrapper\"/>'') (\<lambda>table.
     bindA (wrap e row table) (\<lambda>_.
     bindA (attrA d ''data-y-axis'') (\<lambda>y.
     bindA (concatA ''<td class=\"yaxis\">'' y ''</td>'') (\<lambda>yc.
     bindA (before e cell yc) (\<lambda>_.
     bindA (attrA d ''data-y-axis2'') (\<lambda>y2.
     bindA (if truthy y2
            then bindA (attrA d ''data-y-axis2'') (\<lambda>y2'.
                 bindA (concatA ''<td class=\"yaxis\">'' y2' ''</td>'') (\<lambda>yc2. after e cell yc2))
            else retA ()) (\<lambda>_.
     bindA (attrA d ''data-x-axis'') (\<lambda>x.
     bindA (concatA ''<tr><td></td><td class=\"xaxis\">'' x ''</td><td></td></tr>'') (\<lambda>xr.
       after e row xr))))))))))))))"

definition options :: "dtree \<Rightarrow> (string \<times> jsv) list \<Rightarrow> jsv" where
  "options t extra =
     Obj (chrome (attr_default t ''legend'' ''se'') (attr t ''class'' = Str ''small-chart'') extra
            (attr_default t ''x-axis-log'' ''false'' = Str ''true''))"

lemma bindA_assoc: "bindA (bindA m f) g = bindA m (\<lambda>x. bindA (f x) g)"
  by (auto simp: bindA_def fun_eq_iff split: prod.splits sum.splits)

lemma plot_data_layout:
  assumes "lookup d (doc p) = Some t"
  shows "plot_data e d cd extra p = bindA (chart_layout e d) (\<lambda>_. plotA e d (Arr cd) (options t extra)) p"
proof -
  have a: "bindA (attrA d k) f p = f (attr t k) p" for k f
    by (rule bindA_Inr, rule attrA_Some [OF assms])
  have o: "bindA (attr_or_default d k df) f p = f (attr_default t k df) p" for k df f
    by (rule bindA_Inr, rule attr_or_default_Some [OF assms])
  show ?thesis unfolding chart_layout_def bindA_assoc by (simp only: plot_data_def Let_def options_def a o)
qed

lemmas calm_ops = quiet_doc.keeps_intros keeps_attrA [of calm, OF quiet_doc.R_refl]
  keeps_parentA [of calm, OF quiet_doc.R_refl] doc_calm

lemma layout_calm: "keeps calm (chart_layout e d)"
  unfolding chart_layout_def concatA_def by (intro calm_ops)

lemma layout_grows: "keeps grows (chart_layout e d)"
  unfolding chart_layout_def by (intro grow_ops)

lemma plot_data_draws:
  assumes t: "lookup d (doc p) = Some t" and "plot_data e d cd extra p = (Inr (), q)"
  shows "plots q = plots p @ [\<lparr>pc_div = d, pc_data = Arr cd, pc_options = options t extra\<rparr>]"
    and "requests q = requests p" and "alerts q = alerts p"
proof -
  obtain p' where l: "chart_layout e d p = (Inr (), p')"
    and pl: "plotA e d (Arr cd) (options t extra) p' = (Inr (), q)"
    using assms(2) unfolding plot_data_layout [OF t] by (auto simp: bindA_Inr_iff)
  have "calm p p'" using keepsD [OF layout_calm l] .
  with pl show "plots q = plots p @ [\<lparr>pc_div = d, pc_data = Arr cd, pc_options = options t extra\<rparr>]"
    "requests q = requests p" "alerts q = alerts p"
    by (auto simp: plotA_def calm_def Let_def split: option.splits)
qed

section \<open>What a chart draws and requests\<close>

definition chart_types :: "jsv list" where
  "chart_types = [Str ''time'', Str ''series'', Str ''x-y'', Str ''r-l'']"

definition draws_now :: "dtree \<Rightarrow> bool" where
  "draws_now t \<longleftrightarrow> attr t ''data-file'' = Undefined \<and> attr t ''data-type'' \<in> set chart_types"

text \<open>What is drawn and requested between two pages, and that nothing is shown.\<close>

definition logged :: "page \<Rightarrow> nat list \<Rightarrow> request list \<Rightarrow> page \<Rightarrow> bool" where
  "logged p ds rs q \<longleftrightarrow> map pc_div (plots q) = map pc_div (plots p) @ ds \<and>
     requests q = requests p @ rs \<and> alerts q = alerts p"

lemma logged_trans: "logged p ds rs q \<Longrightarrow> logged q ds' rs' r \<Longrightarrow> logged p (ds @ ds') (rs @ rs') r"
  by (simp add: logged_def)

lemma logged_calm: "calm p q \<Longrightarrow> logged p [] [] q"
  by (simp add: logged_def calm_def)

lemma plot_data_logged:
  "lookup d (doc p) = Some t \<Longrightarrow> plot_data e d cd extra p = (Inr (), q) \<Longrightarrow> logged p [d] [] q"
  by (simp add: logged_def plot_data_draws)

lemmas run_iff = bindA_Inr_iff act_simps

lemma charts_logged:
  assumes "lookup d (doc p) = Some t"
  shows "plot_time e d data p = (Inr (), q) \<Longrightarrow> logged p [d] [] q"
    and "plot_series e d dims vals data p = (Inr (), q) \<Longrightarrow> logged p [d] [] q"
    and "plot_x_y e d dims vals data p = (Inr (), q) \<Longrightarrow> logged p [d] [] q"
    and "plot_r_l e d dims vals data p = (Inr (), q) \<Longrightarrow> logged p [d] [] q"
  using plot_data_logged [OF assms]
  by (auto simp: plot_time_def plot_series_def plot_x_y_def plot_r_l_def bindA_Inr_iff attrA_Inr
      attr_or_default_Some [OF assms] split: prod.splits)

lemma plot0_logged:
  assumes t: "lookup d (doc p) = Some t" and "plot0 e d results p = (Inr (), q)"
  shows "logged p (if attr t ''data-type'' \<in> set chart_types then [d] else []) [] q"
proof (cases "attr t ''data-type'' \<in> set chart_types")
  case True
  with assms(2) show ?thesis
    by (auto simp: plot0_def bindA_Inr_iff attrA_Inr t chart_types_def charts_logged [OF t] split: if_splits)
next
  case False
  then have "attr t ''data-type'' \<noteq> Str ''time''" "attr t ''data-type'' \<noteq> Str ''series''"
    "attr t ''data-type'' \<noteq> Str ''x-y''" "attr t ''data-type'' \<noteq> Str ''r-l''"
    by (auto simp: chart_types_def)
  with assms(2) False show ?thesis
    by (auto simp: plot0_def bindA_Inr_iff attrA_Inr t logged_def)
qed

definition chart_requests :: "nat \<Rightarrow> dtree \<Rightarrow> request list" where
  "chart_requests d t =
     (case attr t ''data-file'' of
        Str f \<Rightarrow> [\<lparr>rq_url = f, rq_done = [Cb_plot0 d], rq_fail = [], rq_always = []\<rparr>]
      | _ \<Rightarrow> [])"

lemma plot_logged:
  assumes t: "lookup d (doc p) = Some t" and "plot e d results p = (Inr (), q)"
  shows "logged p (if draws_now t then [d] else []) (chart_requests d t) q"
proof (cases "attr t ''data-file'' = Undefined")
  case True
  then have "plot0 e d results p = (Inr (), q)"
    using assms(2) by (auto simp: plot_def bindA_Inr_iff attrA_Inr t)
  from plot0_logged [OF t this] show ?thesis using True by (simp add: draws_now_def chart_requests_def)
next
  case False
  then obtain f where f: "attr t ''data-file'' = Str f" using plain_attr [of t] by (auto simp: plain_def)
  then show ?thesis
    using assms(2) by (auto simp: plot_def bindA_Inr_iff attrA_Inr t draws_now_def chart_requests_def
        ajax_def logged_def Let_def)
qed

section \<open>A run over the charts\<close>

text \<open>A chart that ends with an exception draws and requests nothing.\<close>

lemma plot_data_fails_logged:
  assumes "plot_data e d cd extra p = (Inl err, q)"
  shows "logged p [] [] q"
proof (cases "lookup d (doc p)")
  case None
  then have "q = p" using assms
    by (auto simp: plot_data_def attr_or_default_def attrA_def bindA_def elem_of_def)
  then show ?thesis by (simp add: logged_def)
next
  case (Some t)
  consider "chart_layout e d p = (Inl err, q)"
    | p' where "chart_layout e d p = (Inr (), p')" "plotA e d (Arr cd) (options t extra) p' = (Inl err, q)"
    using assms unfolding plot_data_layout [OF Some]
    by (auto simp: bindA_def split: prod.splits sum.splits)
  then show ?thesis
  proof cases
    case 1
    then show ?thesis using keepsD [OF layout_calm] logged_calm by blast
  next
    case 2
    then have "calm p p'" "q = p'"
      using keepsD [OF layout_calm] by (auto simp: plotA_def Let_def split: option.splits)
    then show ?thesis using logged_calm by blast
  qed
qed

lemma bindA_Inl_iff:
  "bindA m f s = (Inl err, u) \<longleftrightarrow> m s = (Inl err, u) \<or> (\<exists>x t. m s = (Inr x, t) \<and> f x t = (Inl err, u))"
  by (auto simp: bindA_def split: prod.splits sum.splits)

lemma attrA_same: "attrA d k p = (r, q) \<Longrightarrow> q = p"
  by (auto simp: attrA_def bindA_def elem_of_def split: option.splits)

lemma default_same: "attr_or_default d k df p = (r, q) \<Longrightarrow> q = p"
  unfolding attr_or_default_def bindA_def by (auto dest: attrA_same split: prod.splits sum.splits)

text \<open>The exception of a chart comes before the layout, which has changed nothing, or from it.\<close>

definition fails_by :: "(page \<Rightarrow> jserr \<Rightarrow> page \<Rightarrow> bool) \<Rightarrow> 'a js \<Rightarrow> bool" where
  "fails_by Q m \<longleftrightarrow> (\<forall>p err q. m p = (Inl err, q) \<longrightarrow> q = p \<or> Q p err q)"

lemma fails_by_bind:
  "(\<And>p r q. m p = (r, q) \<Longrightarrow> q = p) \<Longrightarrow> (\<And>x. fails_by Q (f x)) \<Longrightarrow> fails_by Q (bindA m f)"
  unfolding fails_by_def bindA_Inl_iff by blast

lemma fails_by_attr: "(\<And>x. fails_by Q (f x)) \<Longrightarrow> fails_by Q (bindA (attrA d k) f)"
  using attrA_same by (rule fails_by_bind)

lemma fails_by_default: "(\<And>x. fails_by Q (f x)) \<Longrightarrow> fails_by Q (bindA (attr_or_default d k df) f)"
  using default_same by (rule fails_by_bind)

lemma fails_by_lift: "(\<And>x. fails_by Q (f x)) \<Longrightarrow> fails_by Q (bindA (liftA r) f)"
  by (rule fails_by_bind) (simp_all add: liftA_def)

lemma fails_by_retA: "fails_by Q (retA x)"
  by (simp add: fails_by_def)

lemma fails_by_if: "fails_by Q a \<Longrightarrow> fails_by Q b \<Longrightarrow> fails_by Q (if c then a else b)"
  by simp

lemma fails_by_prod: "(\<And>x y. fails_by Q (f x y)) \<Longrightarrow> fails_by Q (case z of (x, y) \<Rightarrow> f x y)"
  by (cases z) simp

lemmas fails_by_intros = fails_by_attr fails_by_default fails_by_lift fails_by_retA fails_by_if fails_by_prod

lemma fails_by_plot_data:
  "fails_by (\<lambda>p err q. \<exists>cd ex. plot_data e d cd ex p = (Inl err, q)) (plot_data e d cd ex)"
  by (auto simp: fails_by_def)

lemma plot0_fails_by: "fails_by (\<lambda>p err q. \<exists>cd ex. plot_data e d cd ex p = (Inl err, q)) (plot0 e d results)"
  unfolding plot0_def plot_time_def plot_series_def plot_x_y_def plot_r_l_def
  by (intro fails_by_intros fails_by_plot_data)

lemma plot0_fail:
  "plot0 e d results p = (Inl err, q) \<Longrightarrow> q = p \<or> (\<exists>cd ex. plot_data e d cd ex p = (Inl err, q))"
  using plot0_fails_by by (auto simp: fails_by_def)

lemma plot_fails_logged:
  assumes "plot e d results p = (Inl err, q)"
  shows "logged p [] [] q"
proof -
  have "q = p \<or> plot0 e d results p = (Inl err, q)"
    using assms unfolding plot_def
    by (auto simp: bindA_Inl_iff ajax_def Let_def dest!: attrA_same split: if_splits)
  then show ?thesis
    using plot0_fail plot_data_fails_logged by (fastforce simp: logged_def)
qed

text \<open>What a list of charts of a page is to draw and to request, in the order of the list.\<close>

definition drawn :: "page \<Rightarrow> nat list \<Rightarrow> nat list" where
  "drawn p ds = filter (\<lambda>d. case lookup d (doc p) of Some t \<Rightarrow> draws_now t | None \<Rightarrow> False) ds"

definition requested :: "page \<Rightarrow> nat list \<Rightarrow> request list" where
  "requested p ds = concat (map (\<lambda>d. case lookup d (doc p) of Some t \<Rightarrow> chart_requests d t | None \<Rightarrow> []) ds)"

lemma attrs_decide:
  "attrs t' = attrs t \<Longrightarrow> draws_now t' = draws_now t" "attrs t' = attrs t \<Longrightarrow> chart_requests d t' = chart_requests d t"
  by (simp_all add: draws_now_def chart_requests_def attr_def)

lemma drawn_grows:
  assumes "grows p q" "wf_page p" "\<forall>d \<in> set ds. lookup d (doc p) \<noteq> None"
  shows "drawn q ds = drawn p ds" "requested q ds = requested p ds" "\<forall>d \<in> set ds. lookup d (doc q) \<noteq> None"
proof -
  have *: "\<exists>t t'. lookup d (doc p) = Some t \<and> lookup d (doc q) = Some t' \<and>
      draws_now t' = draws_now t \<and> chart_requests d t' = chart_requests d t" if d: "d \<in> set ds" for d
  proof -
    obtain t where t: "lookup d (doc p) = Some t" using assms(3) d by blast
    obtain t' where "lookup d (doc q) = Some t'" "attrs t' = attrs t"
      using grows_lookup [OF assms(1,2) t] by blast
    with t show ?thesis using attrs_decide by blast
  qed
  have "(case lookup d (doc q) of Some t \<Rightarrow> draws_now t | None \<Rightarrow> False) =
      (case lookup d (doc p) of Some t \<Rightarrow> draws_now t | None \<Rightarrow> False)" if "d \<in> set ds" for d
    using * [OF that] by (elim exE conjE) simp
  then show "drawn q ds = drawn p ds" unfolding drawn_def by (intro filter_cong [OF refl])
  have "(case lookup d (doc q) of Some t \<Rightarrow> chart_requests d t | None \<Rightarrow> []) =
      (case lookup d (doc p) of Some t \<Rightarrow> chart_requests d t | None \<Rightarrow> [])" if "d \<in> set ds" for d
    using * [OF that] by (elim exE conjE) simp
  then show "requested q ds = requested p ds"
    unfolding requested_def by (intro arg_cong [where f = concat] map_cong [OF refl])
  show "\<forall>d \<in> set ds. lookup d (doc q) \<noteq> None" using * by auto
qed

lemma each_plot_logged:
  "wf_page p \<Longrightarrow> \<forall>d \<in> set ds. lookup d (doc p) \<noteq> None \<Longrightarrow> eachA (\<lambda>d. plot e d results) ds p = (r, q) \<Longrightarrow>
   \<exists>us vs. ds = us @ vs \<and> logged p (drawn p us) (requested p us) q \<and> (r = Inr () \<longrightarrow> vs = [])"
proof (induction ds arbitrary: p)
  case Nil
  then show ?case by (auto simp: drawn_def requested_def logged_def)
next
  case (Cons d ds)
  from Cons.prems(2) obtain t where t: "lookup d (doc p) = Some t" by auto
  show ?case
  proof (cases "plot e d results p")
    case (Pair x p')
    show ?thesis
    proof (cases x)
      case (Inl err)
      with Pair have fl: "plot e d results p = (Inl err, p')" by simp
      from Cons.prems(3) have "r = Inl err \<and> q = p'" by (simp add: bindA_Inl [where m = "plot e d results", OF fl])
      with plot_fails_logged [OF fl] have "logged p [] [] q" "r = Inl err" by simp_all
      then show ?thesis
        by (intro exI [of _ "[]"] exI [of _ "d # ds"] conjI) (simp_all add: drawn_def requested_def)
    next
      case (Inr u)
      with Pair have pl: "plot e d results p = (Inr (), p')" by simp
      from Cons.prems(3) have rest: "eachA (\<lambda>d. plot e d results) ds p' = (r, q)"
        by (simp add: bindA_Inr [where m = "plot e d results", OF pl])
      have g: "grows p p'" using keepsD [OF plot_grows pl] .
      then have wf: "wf_page p'" using Cons.prems(1) by (simp add: grows_def)
      note same = drawn_grows [OF g Cons.prems(1)]
      have ex: "\<forall>d \<in> set ds. lookup d (doc p) \<noteq> None" using Cons.prems(2) by simp
      obtain us vs where us: "ds = us @ vs" "logged p' (drawn p' us) (requested p' us) q" "r = Inr () \<longrightarrow> vs = []"
        using Cons.IH [OF wf same(3) [OF ex] rest] by blast
      have "\<forall>d \<in> set us. lookup d (doc p) \<noteq> None" using ex us(1) by simp
      then have "logged p' (drawn p us) (requested p us) q" using us(2) same(1,2) by simp
      with plot_logged [OF t pl]
      have "logged p ((if draws_now t then [d] else []) @ drawn p us) (chart_requests d t @ requested p us) q"
        by (rule logged_trans)
      moreover have "drawn p (d # us) = (if draws_now t then [d] else []) @ drawn p us"
          "requested p (d # us) = chart_requests d t @ requested p us"
        by (simp_all add: drawn_def requested_def t)
      ultimately have "logged p (drawn p (d # us)) (requested p (d # us)) q" by simp
      moreover have "d # ds = (d # us) @ vs" using us(1) by simp
      ultimately show ?thesis using us(3) by blast
    qed
  qed
qed

end
