(* ===== verification/Perf_Plot_Spec.thy ===== *)
theory Perf_Plot_Spec
  imports Perf_Plot_Frame Perf_Charts_Spec
begin

text \<open>
  What the functions of \<open>html/perf.js\<close> do to a page: the chart each kind of element draws
  from the results, the order of a rendering run, and what an exception leaves behind.
\<close>

section \<open>A page for the witnesses\<close>

definition demo_doc :: dtree where
  "demo_doc = Elem 0 [] []
     [Elem 1 ''body'' []
       [Elem 2 ''div'' [(''class'', ''chart''), (''data-type'', ''time''), (''data-scenario'', ''t''),
                        (''data-y-axis'', ''rate''), (''data-x-axis'', ''time'')] [],
        Elem 3 ''div'' [(''class'', ''small-chart''), (''data-type'', ''series''), (''data-scenario'', ''g''),
                        (''data-x-key'', ''producerCount''), (''data-series-key'', ''minMsgSize'')] [],
        Elem 4 ''div'' [(''class'', ''chart''), (''data-type'', ''x-y''), (''data-scenario'', ''f''),
                        (''data-x-key'', ''minMsgSize''), (''data-plot-keys'', ''send-msg-rate send-bytes-rate'')] [],
        Elem 5 ''div'' [(''class'', ''chart''), (''data-type'', ''r-l''), (''data-scenario'', ''r'')] [],
        Elem 6 ''div'' [(''class'', ''chart''), (''data-type'', ''time''), (''data-scenario'', ''t''),
                        (''data-file'', ''more.js'')] [],
        Elem 7 ''strong'' [(''class'', ''summary''), (''data-scenario'', ''s'')] [] ] ]"

definition demo_page :: page where
  "demo_page = \<lparr>doc = demo_doc, next_id = 8, plots = [], requests = [], alerts = []\<rparr>"

definition demo_env :: env where
  "demo_env = \<lparr>parse_html = (\<lambda>s. [HElem ''td'' [] [HText s] ]), flot = (\<lambda>c. None)\<rparr>"

definition demo_results :: jsv where
  "demo_results = Obj
     [(''t'', Obj [(''samples'', Arr [Obj [(''elapsed'', Num (Fin 2000)), (''send-msg-rate'', Num (Fin 7))] ])]),
      (''g'', Obj [(''dimensions'', Arr [Str ''minMsgSize'', Str ''producerCount'']),
                 (''dimension-values'', demo_values), (''data'', demo_grid)]),
      (''f'', Obj [(''dimensions'', Arr [Str ''minMsgSize'']),
                 (''dimension-values'', Obj [(''minMsgSize'', Arr [Str ''500'', Str ''900''])]),
                 (''data'', Obj [(''500'', Obj [(''send-msg-rate'', Num (Fin 8)), (''send-bytes-rate'', Num (Fin 4000))]),
                               (''900'', Obj [(''send-msg-rate'', Num (Fin 5)), (''send-bytes-rate'', Num (Fin 4500))])])]),
      (''r'', Obj [(''dimensions'', Arr [Str ''producerRateLimit'']),
                 (''dimension-values'', Obj [(''producerRateLimit'', Arr [Str ''315''])]),
                 (''data'', Obj [(''315'', Obj [(''avg-latency'', Num (Fin 900)), (''send-msg-rate'', Num (Fin 314))])])]),
      (''s'', Obj [(''send-msg-rate'', Num (Fin 3)), (''recv-msg-rate'', Num (Fin 3))])]"

lemmas demo_page_defs = demo_page_def demo_doc_def lookup_def attr_def

lemma demo_wf: "wf_page demo_page"
  by (simp add: wf_page_def demo_page_def demo_doc_def)

section \<open>The charts\<close>

lemma path_Cons_get: "path v (k # ks) = Some w \<Longrightarrow> \<exists>u. get_prop v k = Inr u \<and> path u ks = Some w"
  using path_Cons path_get by blast

text \<open>
  An element of type \<open>time\<close> draws its scenario's samples over the elapsed time in seconds:
  the send rate, the receive rate and, with \<open>data-latency="true"\<close>, the latency on the second
  axis, one point per sample in the order of the samples.
\<close>

theorem plot0_time:
  assumes "lookup d (doc p) = Some t" and "attr t ''data-type'' = Str ''time''" and "attr t ''data-scenario'' = Str sc"
    and "path results [sc, ''samples''] = Some (Arr ss)" and "\<forall>s \<in> set ss. sample_time s = Some (elapsed s)"
  shows "plot0 e d results p = plot_data e d
    (map (\<lambda>k. series_obj k (map (\<lambda>s. point (Num (div_pos (elapsed s) 1000)) (field s k)) ss)
                (Some (if k = ''avg-latency'' then 2 else 1)))
       (time_keys (attr t ''data-latency'' = Str ''true'')))
    [(''yaxes'', axes_rate_and_latency)] p"
proof -
  obtain data where data: "get_prop results sc = Inr data" "path data [''samples''] = Some (Arr ss)"
    using path_Cons_get [OF assms(4)] by blast
  show ?thesis
    using time_chart_points [OF data(2) assms(5)] data(1) assms(2,3)
    by (simp add: plot0_def plot_time_def bindA_def attrA_Some [OF assms(1)] liftA_def)
qed

theorem plot0_time_witness:
  "plot0 demo_env 2 demo_results demo_page = plot_data demo_env 2
    [series_obj ''send-msg-rate'' [point (Num (Fin 2)) (Num (Fin 7))] (Some 1),
     series_obj ''recv-msg-rate'' [point (Num (Fin 2)) Undefined] (Some 1)]
    [(''yaxes'', axes_rate_and_latency)] demo_page"
  using plot0_time [of 2 demo_page "hd (tl (elements (hd (kids demo_doc))))" "''t''" demo_results
      "[Obj [(''elapsed'', Num (Fin 2000)), (''send-msg-rate'', Num (Fin 7))] ]" "\<lambda>_. Fin 2000" demo_env]
    rnd_int [of 2]
  by (simp add: demo_page_defs demo_results_def time_keys_def field_def)

text \<open>
  An element of type \<open>series\<close> draws one series per value of \<open>data-series-key\<close>, labelled
  \<open>key = value\<close>, with one point per value of \<open>data-x-key\<close>, both in the order of the results;
  each point carries \<open>data-plot-key\<close> (the send rate, when there is none) of the run with the
  two values, whichever of the two dimensions is nested outside.
\<close>

theorem plot0_series:
  assumes "lookup d (doc p) = Some t" and "attr t ''data-type'' = Str ''series''" and "attr t ''data-scenario'' = Str sc"
    and "attr t ''data-x-key'' = Str x_key" and "attr t ''data-series-key'' = Str series_key"
    and "attr_default t ''plot-key'' ''send-msg-rate'' = Str plot_key"
    and "path results [sc, ''dimensions''] = Some (Arr (Str d0 # ds))"
    and "path results [sc, ''dimension-values'', series_key] = Some (Arr (map Str ss))"
    and "path results [sc, ''dimension-values'', x_key] = Some (Arr (map Str xs))"
    and "path results [sc, ''data''] = Some data"
    and "\<forall>s \<in> set ss. \<forall>x \<in> set xs. path data (grid_path (d0 = series_key) s x plot_key) = Some (val s x)"
  shows "plot0 e d results p = plot_data e d
    (map (\<lambda>s. series_obj (series_key @ '' = '' @ s) (map (\<lambda>x. point (Str x) (val s x)) xs) None) ss) [] p"
proof -
  obtain r where r: "get_prop results sc = Inr r" "path r [''dimensions''] = Some (Arr (Str d0 # ds))"
    using path_Cons_get [OF assms(7)] by blast
  have sub: "path r ks = Some w" if "path results (sc # ks) = Some w" for ks w
    using path_Cons_get [OF that] r(1) by auto
  obtain vs where vs: "get_prop r ''dimension-values'' = Inr vs" "path vs [series_key] = Some (Arr (map Str ss))"
    using path_Cons_get [OF sub [OF assms(8)]] by blast
  have vx: "path vs [x_key] = Some (Arr (map Str xs))"
    using path_Cons_get [OF sub [OF assms(9)]] vs(1) by auto
  have data: "get_prop r ''data'' = Inr data" using path_get [OF sub [OF assms(10)]] .
  from series_chart_points [OF vs(2) vx assms(11), of ds]
  show ?thesis
    using r vs(1) data path_get [OF r(2)] assms(2-6)
    by (simp add: plot0_def plot_series_def bindA_def attrA_Some [OF assms(1)]
        attr_or_default_Some [OF assms(1)] liftA_def)
qed

theorem plot0_series_witness:
  "plot0 demo_env 3 demo_results demo_page = plot_data demo_env 3
    [series_obj ''minMsgSize = 0'' [point (Str ''1'') (Num (Fin 10)), point (Str ''2'') (Num (Fin 20))] None,
     series_obj ''minMsgSize = 1000'' [point (Str ''1'') (Num (Fin 30)), point (Str ''2'') (Num (Fin 40))] None]
    [] demo_page"
  using plot0_series [of 3 demo_page "kids (hd (kids demo_doc)) ! 1" "''g''" "''producerCount''" "''minMsgSize''"
      "''send-msg-rate''" demo_results "''minMsgSize''" "[Str ''producerCount'']"
      "[''0'', ''1000'']" "[''1'', ''2'']" demo_grid demo_val demo_env]
  by (simp add: demo_page_defs demo_results_def demo_defs attr_default_def)

text \<open>
  An element of type \<open>x-y\<close> draws one series per word of \<open>data-plot-keys\<close> (the send rate,
  when there is none), with one point per value of \<open>data-x-key\<close> in the order of the results;
  keys that name bytes go to the second axis, whose frame is asked for when there is one.
\<close>

theorem plot0_x_y:
  assumes "lookup d (doc p) = Some t" and "attr t ''data-type'' = Str ''x-y''" and "attr t ''data-scenario'' = Str sc"
    and "attr t ''data-x-key'' = Str x_key" and "attr_default t ''plot-keys'' ''send-msg-rate'' = Str plot_keys"
    and "path results [sc, ''dimensions''] = Some dims"
    and "path results [sc, ''dimension-values'', x_key] = Some (Arr (map Str xs))"
    and "path results [sc, ''data''] = Some data"
    and "\<forall>k \<in> set (split_chr (CHR '' '') plot_keys). \<forall>x \<in> set xs. path data [x, k] = Some (val k x)"
  shows "plot0 e d results p = plot_data e d
    (map (\<lambda>k. series_obj k (map (\<lambda>x. point (Str x) (val k x)) xs)
               (Some (if index_of k ''bytes'' \<noteq> - 1 then 2 else 1))) (split_chr (CHR '' '') plot_keys))
    (if \<exists>k \<in> set (split_chr (CHR '' '') plot_keys). index_of k ''bytes'' \<noteq> - 1
     then [(''yaxes'', axes_rate_and_bytes)] else []) p"
proof -
  obtain r where r: "get_prop results sc = Inr r" "path r [''dimensions''] = Some dims"
    using path_Cons_get [OF assms(6)] by blast
  have sub: "path r ks = Some w" if "path results (sc # ks) = Some w" for ks w
    using path_Cons_get [OF that] r(1) by auto
  obtain vs where vs: "get_prop r ''dimension-values'' = Inr vs" "path vs [x_key] = Some (Arr (map Str xs))"
    using path_Cons_get [OF sub [OF assms(7)]] by blast
  show ?thesis
    using xy_chart_points [OF vs(2) assms(9)] r(1) vs(1) path_get [OF r(2)]
      path_get [OF sub [OF assms(8)]] assms(2-5)
    by (simp add: plot0_def plot_x_y_def bindA_def attrA_Some [OF assms(1)]
        attr_or_default_Some [OF assms(1)] liftA_def)
qed

theorem plot0_x_y_witness:
  "plot0 demo_env 4 demo_results demo_page = plot_data demo_env 4
    [series_obj ''send-msg-rate'' [point (Str ''500'') (Num (Fin 8)), point (Str ''900'') (Num (Fin 5))] (Some 1),
     series_obj ''send-bytes-rate'' [point (Str ''500'') (Num (Fin 4000)), point (Str ''900'') (Num (Fin 4500))] (Some 2)]
    [(''yaxes'', axes_rate_and_bytes)] demo_page"
  using plot0_x_y [of 4 demo_page "kids (hd (kids demo_doc)) ! 2" "''f''" "''minMsgSize''"
      "''send-msg-rate send-bytes-rate''" demo_results "Arr [Str ''minMsgSize'']" "[''500'', ''900'']"
      "Obj [(''500'', Obj [(''send-msg-rate'', Num (Fin 8)), (''send-bytes-rate'', Num (Fin 4000))]),
            (''900'', Obj [(''send-msg-rate'', Num (Fin 5)), (''send-bytes-rate'', Num (Fin 4500))])]"
      "\<lambda>k x. Num (Fin (if k = ''send-msg-rate'' then (if x = ''500'' then 8 else 5)
                       else (if x = ''500'' then 4000 else 4500)))" demo_env]
  by (simp add: demo_page_defs demo_results_def attr_default_def index_of_def)

text \<open>
  An element of type \<open>r-l\<close> draws the rate achieved on the first axis and the latency on the
  second, each over the attempted producer rates in the order of the results.
\<close>

theorem plot0_r_l:
  assumes "lookup d (doc p) = Some t" and "attr t ''data-type'' = Str ''r-l''" and "attr t ''data-scenario'' = Str sc"
    and "path results [sc, ''dimensions''] = Some dims"
    and "path results [sc, ''dimension-values'', ''producerRateLimit''] = Some (Arr (map Str xs))"
    and "path results [sc, ''data''] = Some data"
    and "\<forall>x \<in> set xs. path data [x, ''send-msg-rate''] = Some (rate x)"
    and "\<forall>x \<in> set xs. path data [x, ''avg-latency''] = Some (latency x)"
  shows "plot0 e d results p = plot_data e d
    [series_obj ''rate achieved'' (map (\<lambda>x. point (Str x) (rate x)) xs) (Some 1),
     series_obj ''latency (us)'' (map (\<lambda>x. point (Str x) (latency x)) xs) (Some 2)]
    [(''yaxes'', axes_rate_and_latency)] p"
proof -
  obtain r where r: "get_prop results sc = Inr r" "path r [''dimensions''] = Some dims"
    using path_Cons_get [OF assms(4)] by blast
  have sub: "path r ks = Some w" if "path results (sc # ks) = Some w" for ks w
    using path_Cons_get [OF that] r(1) by auto
  obtain vs where vs: "get_prop r ''dimension-values'' = Inr vs"
      "path vs [''producerRateLimit''] = Some (Arr (map Str xs))"
    using path_Cons_get [OF sub [OF assms(5)]] by blast
  show ?thesis
    using rl_chart_points [OF vs(2) assms(7,8)] r(1) vs(1) path_get [OF r(2)]
      path_get [OF sub [OF assms(6)]] assms(2,3)
    by (simp add: plot0_def plot_r_l_def bindA_def attrA_Some [OF assms(1)] liftA_def)
qed

theorem plot0_r_l_witness:
  "plot0 demo_env 5 demo_results demo_page = plot_data demo_env 5
    [series_obj ''rate achieved'' [point (Str ''315'') (Num (Fin 314))] (Some 1),
     series_obj ''latency (us)'' [point (Str ''315'') (Num (Fin 900))] (Some 2)]
    [(''yaxes'', axes_rate_and_latency)] demo_page"
  using plot0_r_l [of 5 demo_page "kids (hd (kids demo_doc)) ! 3" "''r''" demo_results "Arr [Str ''producerRateLimit'']"
      "[''315'']" "Obj [(''315'', Obj [(''avg-latency'', Num (Fin 900)), (''send-msg-rate'', Num (Fin 314))])]"
      "\<lambda>_. Num (Fin 314)" "\<lambda>_. Num (Fin 900)" demo_env]
  by (simp add: demo_page_defs demo_results_def)

section \<open>What a chart hands to the plotting library\<close>

text \<open>
  The specification of \<open>plot0\<close>: a function of the results and of the attributes of the element
  alone. It gives the series and the options of the chart, nothing for an unknown type, or
  the exception.
\<close>

definition chart_spec :: "jsv \<Rightarrow> dtree \<Rightarrow> (jsv list \<times> (string \<times> jsv) list) option res" where
  "chart_spec results t =
     bindE (get_at results (attr t ''data-scenario'')) (\<lambda>r.
     if attr t ''data-type'' = Str ''time'' then
       bindE (time_chart (attr t ''data-latency'' = Str ''true'') r) (\<lambda>cd.
         Inr (Some (cd, [(''yaxes'', axes_rate_and_latency)])))
     else
       bindE (get_prop r ''dimensions'') (\<lambda>dims.
       bindE (get_prop r ''dimension-values'') (\<lambda>vals.
       bindE (get_prop r ''data'') (\<lambda>data.
       if attr t ''data-type'' = Str ''series'' then
         bindE (series_chart (attr t ''data-x-key'') (attr t ''data-series-key'')
                  (attr_default t ''plot-key'' ''send-msg-rate'') dims vals data) (\<lambda>cd. Inr (Some (cd, [])))
       else if attr t ''data-type'' = Str ''x-y'' then
         bindE (xy_chart (attr t ''data-x-key'') (shown (attr_default t ''plot-keys'' ''send-msg-rate'')) vals data) (\<lambda>c.
           Inr (Some c))
       else if attr t ''data-type'' = Str ''r-l'' then
         bindE (rl_chart vals data) (\<lambda>cd. Inr (Some (cd, [(''yaxes'', axes_rate_and_latency)])))
       else Inr None))))"

lemma bindA_liftA: "bindA (liftA r) f p = (case r of Inl err \<Rightarrow> (Inl err, p) | Inr x \<Rightarrow> f x p)"
  by (simp add: bindA_def liftA_def)

lemma case_bindE:
  "(case bindE m f of Inl err \<Rightarrow> a err | Inr x \<Rightarrow> b x) =
   (case m of Inl err \<Rightarrow> a err | Inr y \<Rightarrow> (case f y of Inl err \<Rightarrow> a err | Inr x \<Rightarrow> b x))"
  by (cases m) simp_all

lemma to_str_default: "to_str (attr_default t k df) = Inr (shown (attr_default t k df))"
  using to_str_attr by (simp add: attr_default_def shown_def)

lemma plot0_spec:
  assumes "lookup d (doc p) = Some t"
  shows "plot0 e d results p =
    (case chart_spec results t of
       Inl err \<Rightarrow> (Inl err, p)
     | Inr None \<Rightarrow> (Inr (), p)
     | Inr (Some (cd, extra)) \<Rightarrow> plot_data e d cd extra p)"
proof -
  have a: "bindA (attrA d k) f p = f (attr t k) p" for k and f :: "jsv \<Rightarrow> 'x js"
    by (rule bindA_Inr, rule attrA_Some [OF assms])
  have o: "bindA (attr_or_default d k df) f p = f (attr_default t k df) p" for k df and f :: "jsv \<Rightarrow> 'x js"
    by (rule bindA_Inr, rule attr_or_default_Some [OF assms])
  note types = plot_time_def plot_series_def plot_x_y_def plot_r_l_def
  show ?thesis
  proof (cases "get_at results (attr t ''data-scenario'')")
    case (Inl err)
    then show ?thesis by (simp add: plot0_def a bindA_liftA chart_spec_def)
  next
    case (Inr r)
    show ?thesis
      by (cases "get_prop r ''dimensions''"; cases "get_prop r ''dimension-values''"; cases "get_prop r ''data''")
        (simp_all add: plot0_def types a o bindA_liftA chart_spec_def Inr case_bindE to_str_default
          split: sum.split prod.split del: get_prop.simps)
  qed
qed

text \<open>
  C1: \<open>plot0\<close> implements its specification. The attributes it reads are those of the element, it
  computes everything before it touches the page, hands the result to \<open>plot_data\<close> once, and an
  exception of the computation leaves the page as it was.
\<close>

theorem plot0_refines:
  assumes "lookup d (doc p) = Some t"
  shows "plot0 e d results p =
    (case chart_spec results t of
       Inl err \<Rightarrow> (Inl err, p)
     | Inr None \<Rightarrow> (Inr (), p)
     | Inr (Some (cd, extra)) \<Rightarrow> plot_data e d cd extra p)"
  using assms by (rule plot0_spec)

theorem plot0_refines_witness:
  "plot0 demo_env 5 (Obj []) demo_page = (Inl (TypeError ''dimensions''), demo_page)"
  using plot0_refines [of 5 demo_page "kids (hd (kids demo_doc)) ! 3" demo_env "Obj []"]
  by (simp add: demo_page_defs chart_spec_def inherited_def object_proto_def)

section \<open>Exceptions\<close>

text \<open>
  An element whose results are incomplete is not drawn halfway: when \<open>plot0\<close> reads a property
  of something undefined or null, the page is exactly what it was before, unless the plotting
  library raised that exception itself.
\<close>

theorem plot0_type_error:
  assumes "plot0 e d results p = (Inl (TypeError k), q)"
  shows "q = p \<or> (\<exists>c. flot e c = Some (TypeError k))"
  using plot0_fail [OF assms] plot_data_raises by (fastforce simp: raises_def)

theorem plot0_type_error_witness:
  "plot0 demo_env 3 (Obj []) demo_page = (Inl (TypeError ''dimensions''), demo_page)"
proof -
  have "\<exists>q. plot0 demo_env 3 (Obj []) demo_page = (Inl (TypeError ''dimensions''), q)"
    by (simp add: plot0_def bindA_def attrA_def elem_of_def demo_page_defs inherited_def object_proto_def liftA_def)
  then obtain q where q: "plot0 demo_env 3 (Obj []) demo_page = (Inl (TypeError ''dimensions''), q)" by blast
  from plot0_type_error [OF q] q show ?thesis by (simp add: demo_env_def)
qed

section \<open>A rendering run\<close>

text \<open>The subtree \<open>render_graphs\<close> works in, and the charts it finds there.\<close>

definition scope :: "nat option \<Rightarrow> page \<Rightarrow> dtree option" where
  "scope parent p = (case parent of None \<Rightarrow> Some (doc p) | Some r \<Rightarrow> lookup r (doc p))"

definition charts :: "nat option \<Rightarrow> page \<Rightarrow> nat list" where
  "charts parent p = (case scope parent p of Some t \<Rightarrow> select [''chart'', ''small-chart''] t | None \<Rightarrow> [])"

lemma selectA_scope:
  "selectA cs parent p =
     (case scope parent p of
        Some t \<Rightarrow> (Inr (select cs t), p)
      | None \<Rightarrow> (Inl (Outside ''node not in the document''), p))"
  by (auto simp: selectA_def scope_def bindA_def elem_of_def split: option.splits)

lemma select_elements: "d \<in> set (select cs t) \<Longrightarrow> \<exists>u. u \<in> set (elements t) \<and> nid u = d"
  by (cases "elements t") (auto simp: select_def)

lemma charts_exist: "\<forall>d \<in> set (charts parent p). lookup d (doc p) \<noteq> None"
proof
  fix d assume "d \<in> set (charts parent p)"
  then obtain t where t: "scope parent p = Some t" "d \<in> set (select [''chart'', ''small-chart''] t)"
    by (cases "scope parent p") (auto simp: charts_def)
  then obtain u where u: "u \<in> set (elements t)" "nid u = d" using select_elements by blast
  have "set (ids t) \<subseteq> set (ids (doc p))"
    using t(1) ids_sub lookup_elements by (fastforce simp: scope_def split: option.splits)
  then show "lookup d (doc p) \<noteq> None" using u by (auto simp: lookup_None_iff ids_elements)
qed

lemma charts_distinct:
  assumes "wf_page p"
  shows "distinct (charts parent p)"
proof (cases "scope parent p")
  case (Some t)
  then have "distinct (ids t)"
    using assms distinct_ids_sub lookup_elements by (fastforce simp: scope_def wf_page_def split: option.splits)
  then have "distinct (map nid (elements t))" by (simp add: ids_elements)
  then have "distinct (map nid (tl (elements t)))" by (simp add: map_tl distinct_tl)
  then show ?thesis by (simp add: charts_def Some select_def distinct_map_filter)
qed (simp add: charts_def)

lemma summarise_calm: "keeps calm (summarise e d results)"
  unfolding summarise_def by (intro calm_ops)

lemma selectA_calm: "keeps calm (selectA cs parent)"
  by (auto simp: keeps_def selectA_scope quiet_doc.R_refl split: option.splits)

lemma render_graphs_logged:
  assumes "wf_page p" and "render_graphs e results parent p = (r, q)"
  shows "\<exists>us vs. charts parent p = us @ vs \<and> logged p (drawn p us) (requested p us) q \<and>
    (r = Inr () \<longrightarrow> vs = [])"
proof (cases "scope parent p")
  case None
  then show ?thesis
    using assms(2) by (auto simp: render_graphs_def selectA_scope bindA_def charts_def drawn_def requested_def logged_def)
next
  case (Some t)
  obtain x p' where pl: "eachA (\<lambda>d. plot e d results) (charts parent p) p = (x, p')" by fastforce
  obtain us vs where us: "charts parent p = us @ vs" "logged p (drawn p us) (requested p us) p'" "x = Inr () \<longrightarrow> vs = []"
    using each_plot_logged [OF assms(1) charts_exist pl] by blast
  have sel: "select [''chart'', ''small-chart''] t = charts parent p" using Some by (simp add: charts_def)
  have "calm p' q \<and> (r = Inr () \<longrightarrow> x = Inr ())"
  proof (cases x)
    case (Inl err)
    then show ?thesis
      using assms(2) pl by (simp add: render_graphs_def selectA_scope Some bindA_def sel quiet_doc.R_refl)
  next
    case (Inr y)
    let ?rest = "bindA (selectA [''summary''] parent) (\<lambda>summaries. eachA (\<lambda>d. summarise e d results) summaries)"
    have "?rest p' = (r, q)"
      using assms(2) pl Inr by (simp add: render_graphs_def selectA_scope [of _ _ p] Some sel bindA_def)
    moreover have "keeps calm ?rest" by (intro calm_ops selectA_calm summarise_calm)
    ultimately show ?thesis using keepsD Inr by auto
  qed
  then have "logged p (drawn p us) (requested p us) q"
    using logged_trans [OF us(2) logged_calm] by auto
  then show ?thesis using us \<open>calm p' q \<and> (r = Inr () \<longrightarrow> x = Inr ())\<close> by auto
qed

text \<open>
  C2: a run draws the charts it finds, in document order, each at most once: the calls of the
  plotting library and the requests for result files are those of an initial part of the
  charts, and of all of them when the run ends without an exception. Elements with a
  \<open>data-file\<close> are requested and not drawn, elements of an unknown type are passed over, and
  no message is shown.
\<close>

theorem render_graphs_charts:
  assumes "wf_page p" and "render_graphs e results parent p = (r, q)"
  shows "\<exists>us vs. charts parent p = us @ vs \<and> distinct us \<and>
    map pc_div (plots q) = map pc_div (plots p) @ drawn p us \<and>
    requests q = requests p @ requested p us \<and> alerts q = alerts p \<and> (r = Inr () \<longrightarrow> vs = [])"
proof -
  obtain us vs where us: "charts parent p = us @ vs" "logged p (drawn p us) (requested p us) q" "r = Inr () \<longrightarrow> vs = []"
    using render_graphs_logged [OF assms] by blast
  then have "distinct us" using charts_distinct [OF assms(1), of parent] by simp
  with us show ?thesis by (auto simp: logged_def)
qed

theorem render_graphs_charts_witness:
  "charts None demo_page = [2, 3, 4, 5, 6] \<and> drawn demo_page [2, 3, 4, 5, 6] = [2, 3, 4, 5] \<and>
   map rq_url (requested demo_page [2, 3, 4, 5, 6]) = [''more.js''] \<and>
   (\<exists>us vs. charts None demo_page = us @ vs \<and>
     map pc_div (plots (snd (render_graphs demo_env demo_results None demo_page))) = drawn demo_page us \<and>
     requests (snd (render_graphs demo_env demo_results None demo_page)) = requested demo_page us)"
proof -
  have "plots demo_page = []" "requests demo_page = []" by (simp_all add: demo_page_def)
  then have "\<exists>us vs. charts None demo_page = us @ vs \<and>
      map pc_div (plots (snd (render_graphs demo_env demo_results None demo_page))) = drawn demo_page us \<and>
      requests (snd (render_graphs demo_env demo_results None demo_page)) = requested demo_page us"
    using render_graphs_charts [OF demo_wf prod.collapse [symmetric, of "render_graphs demo_env demo_results None demo_page"] ]
    by (metis append_Nil list.map(1))
  moreover have "charts None demo_page = [2, 3, 4, 5, 6]"
    by (simp add: charts_def scope_def select_def class_tokens_def demo_page_def demo_doc_def html_space_def)
  moreover have "drawn demo_page [2, 3, 4, 5, 6] = [2, 3, 4, 5]"
    by (simp add: drawn_def draws_now_def chart_types_def demo_page_defs)
  moreover have "map rq_url (requested demo_page [2, 3, 4, 5, 6]) = [''more.js'']"
    by (simp add: requested_def chart_requests_def demo_page_defs)
  ultimately show ?thesis by blast
qed

text \<open>
  Whatever the results are and wherever a run stops, it only adds to the document. Identities
  stay unique, and every element the page had keeps its tag and its attributes.
\<close>

theorem render_graphs_frame:
  assumes "wf_page p" and "render_graphs e results parent p = (r, q)"
  shows "wf_page q \<and> (\<forall>i t. lookup i (doc p) = Some t \<longrightarrow>
    (\<exists>t'. lookup i (doc q) = Some t' \<and> tag t' = tag t \<and> attrs t' = attrs t))"
proof -
  have g: "grows p q" using keepsD [OF render_graphs_grows assms(2)] .
  then have "wf_page q" using assms(1) by (simp add: grows_def)
  moreover have "\<exists>t'. lookup i (doc q) = Some t' \<and> tag t' = tag t \<and> attrs t' = attrs t"
    if "lookup i (doc p) = Some t" for i t
    using grows_lookup [OF g assms(1) that] by blast
  ultimately show ?thesis by blast
qed

theorem render_graphs_frame_witness:
  "wf_page (snd (render_graphs demo_env demo_results None demo_page)) \<and>
   (\<exists>t. lookup 6 (doc (snd (render_graphs demo_env demo_results None demo_page))) = Some t \<and>
        attr t ''data-file'' = Str ''more.js'')"
proof -
  obtain t where t: "lookup 6 (doc demo_page) = Some t" "attr t ''data-file'' = Str ''more.js''"
    by (simp add: demo_page_defs)
  have "attr u ''data-file'' = Str ''more.js''" if "attrs u = attrs t" for u
    using that t(2) by (simp add: attr_def)
  then show ?thesis
    using render_graphs_frame [OF demo_wf prod.collapse [symmetric, of "render_graphs demo_env demo_results None demo_page"] ] t(1)
    by blast
qed

section \<open>Summaries\<close>

definition summary_value :: "jsv \<Rightarrow> dbl \<Rightarrow> dbl \<Rightarrow> dbl" where
  "summary_value mode s r =
     math_round (if mode = Str ''send'' then s else if mode = Str ''recv'' then r else div_pos (s + r) 2)"

text \<open>
  A summary element shows, after what it already contains, its scenario's send rate, receive
  rate or, for another mode or none, their mean, as a whole number in bold followed by
  \<open>msg/s\<close>; the rest of the document is unchanged.
\<close>

theorem summarise_shows:
  assumes "lookup d (doc p) = Some (Elem d g as ks)" and "g \<noteq> ''table''"
    and "attr (Elem d g as ks) ''data-scenario'' = Str sc"
    and "path results [sc, ''send-msg-rate''] = Some (Num s)" and "path results [sc, ''recv-msg-rate''] = Some (Num r)"
    and "summary_value (attr (Elem d g as ks) ''data-mode'') s r = Fin (of_nat n)" and "n < 2 ^ 53"
    and "parse_html e (''<strong>'' @ dec n @ ''</strong>msg/s'') =
           [HElem ''strong'' [] [HText (dec n)], HText ''msg/s'']"
  shows "summarise e d results p = (Inr (), p\<lparr>
    doc := splice d (\<lambda>_. [Elem d g as (ks @ [Elem (next_id p) ''strong'' [] [Txt (dec n)], Txt ''msg/s''])]) (doc p),
    next_id := Suc (next_id p)\<rparr>)"
proof -
  let ?t = "Elem d g as ks"
  obtain data where data: "get_prop results sc = Inr data" "path data [''send-msg-rate''] = Some (Num s)"
    using path_Cons_get [OF assms(4)] by blast
  have recv: "path data [''recv-msg-rate''] = Some (Num r)" using path_Cons_get [OF assms(5)] data(1) by auto
  have "attr ?t ''data-mode'' = Undefined \<or> (\<exists>m. attr ?t ''data-mode'' = Str m)"
    using plain_attr [of ?t] by (auto simp: plain_def)
  then have rate: "summary_rate (attr ?t ''data-mode'') data = Inr (Num (Fin (of_nat n)))"
    using summary_rate_modes [OF data(2) recv] assms(6) by (simp only: summary_value_def)
  have html: "summary_html (Num (Fin (of_nat n))) = Inr (''<strong>'' @ dec n @ ''</strong>msg/s'')"
    using num_to_str_nat [OF assms(7)] by (simp add: summary_html_def js_add_def is_str_def)
  show ?thesis
    using assms(2,3,8) data(1) rate html
    by (simp add: summarise_def bindA_def attrA_Some [OF assms(1)] liftA_def append_def elem_of_def assms(1))
qed

definition summary_env :: env where
  "summary_env = \<lparr>parse_html = (\<lambda>s. [HElem ''strong'' [] [HText (takeWhile (\<lambda>c. c \<noteq> CHR ''<'') (drop 8 s))], HText ''msg/s'']),
                  flot = (\<lambda>c. None)\<rparr>"

theorem summarise_shows_witness:
  "doc (snd (summarise summary_env 7 demo_results demo_page)) =
     splice 7 (\<lambda>_. [Elem 7 ''strong'' [(''class'', ''summary''), (''data-scenario'', ''s'')]
       [Elem 8 ''strong'' [] [Txt ''3''], Txt ''msg/s''] ]) demo_doc"
proof -
  have "summary_value Undefined (Fin 3) (Fin 3) = Fin (of_nat 3)"
    using rnd_int [of 6] rnd_int [of 3] floor_divide_of_int_eq [of 7 2] by (simp add: summary_value_def)
  moreover have "dec 3 = ''3''" by code_simp
  ultimately show ?thesis
    using summarise_shows [of 7 demo_page "''strong''" "[(''class'', ''summary''), (''data-scenario'', ''s'')]" "[]"
        "''s''" demo_results "Fin 3" "Fin 3" 3 summary_env]
    by (simp add: demo_page_defs demo_results_def summary_env_def)
qed

end
