(* ===== verification/Perf_Layout.thy ===== *)
theory Perf_Layout
  imports Perf_Plot_Spec
begin

text \<open>
  The document \<open>plot_data\<close> produces: the chart's element ends up in a cell of a table, between
  the labels of its y axes and above the label of its x axis.
\<close>

section \<open>What the markup of the code means to the browser\<close>

text \<open>
  The four templates of \<open>plot_data\<close>, for texts without markup characters and without the two
  characters a parser of HTML changes in any text, the carriage return and the null character: the
  hypotheses on the parser under which the layout is stated.
\<close>

definition safe :: "string \<Rightarrow> bool" where
  "safe s \<longleftrightarrow> set s \<inter> {CHR ''<'', CHR ''>'', CHR ''&'', CHR 0x22, CHR 0x0D, CHR 0x00} = {}"

definition html_text :: "string \<Rightarrow> html list" where
  "html_text s = (if s = [] then [] else [HText s])"

definition html_contract :: "env \<Rightarrow> bool" where
  "html_contract e \<longleftrightarrow> (\<forall>s. safe s \<longrightarrow>
     parse_html e (''<table class=\"'' @ s @ ''-wrapper\"/>'') = [HElem ''table'' [(''class'', s @ ''-wrapper'')] [] ] \<and>
     parse_html e (''<td class=\"yaxis\">'' @ s @ ''</td>'') = [HElem ''td'' [(''class'', ''yaxis'')] (html_text s)] \<and>
     parse_html e (''<tr><td></td><td class=\"xaxis\">'' @ s @ ''</td><td></td></tr>'') =
       [HElem ''tr'' [] [HElem ''td'' [] [], HElem ''td'' [(''class'', ''xaxis'')] (html_text s), HElem ''td'' [] [] ] ])"

section \<open>The table of a chart\<close>

definition text_nodes :: "string \<Rightarrow> dtree list" where
  "text_nodes s = (if s = [] then [] else [Txt s])"

definition axis_cell :: "nat \<Rightarrow> string \<Rightarrow> string \<Rightarrow> dtree" where
  "axis_cell i cls s = Elem i ''td'' [(''class'', cls)] (text_nodes s)"

definition x_axis_row :: "nat \<Rightarrow> string \<Rightarrow> dtree" where
  "x_axis_row i s = Elem i ''tr'' []
     [Elem (i + 1) ''td'' [] [], axis_cell (i + 2) ''xaxis'' s, Elem (i + 3) ''td'' [] [] ]"

definition chart_table :: "nat \<Rightarrow> dtree \<Rightarrow> dtree" where
  "chart_table n t =
     (let cell = Elem n ''td'' [] [t];
          left = axis_cell (n + 4) ''yaxis'' (shown (attr t ''data-y-axis''));
          right = (if truthy (attr t ''data-y-axis2'')
                   then [axis_cell (n + 5) ''yaxis'' (shown (attr t ''data-y-axis2''))] else []);
          m = n + 5 + length right
      in Elem (n + 2) ''table'' [(''class'', shown (attr t ''class'') @ ''-wrapper'')]
           [Elem (n + 3) ''tbody'' []
              [Elem (n + 1) ''tr'' [] (left # cell # right),
               x_axis_row m (shown (attr t ''data-x-axis''))] ])"

definition table_size :: "dtree \<Rightarrow> nat" where
  "table_size t = (if truthy (attr t ''data-y-axis2'') then 10 else 9)"

section \<open>Steps at a replaced node\<close>

text \<open>The page \<open>p\<close> with the element \<open>d\<close> replaced by \<open>T\<close>.\<close>

definition placed :: "page \<Rightarrow> nat \<Rightarrow> dtree \<Rightarrow> nat \<Rightarrow> page" where
  "placed p d T m = p\<lparr>doc := splice d (\<lambda>_. [T]) (doc p), next_id := m\<rparr>"

definition chart_at :: "page \<Rightarrow> nat \<Rightarrow> dtree \<Rightarrow> bool" where
  "chart_at p d t \<longleftrightarrow> wf_page p \<and> lookup d (doc p) = Some t \<and> \<not> root_is d (doc p)"

lemma placed_find:
  assumes "chart_at p d t" and "wf_page (placed p d T m)" and "u \<in> set (elements T)"
  shows "root_is k u \<Longrightarrow> lookup k (doc (placed p d T m)) = Some u"
    and "has_kid k u \<Longrightarrow> parent_of k (doc (placed p d T m)) = Some (nid u)"
proof -
  have t: "t \<in> set (elements (doc p))" "root_is d t" "\<not> root_is d (doc p)"
    using assms(1) lookup_elements lookup_Some_root unfolding chart_at_def by blast+
  have d: "distinct (ids (doc p))" using assms(1) by (simp add: wf_page_def chart_at_def)
  have "set (elements T) \<subseteq> set (elements (doc (placed p d T m)))"
    using elements_splice [OF t d, of "\<lambda>_. [T]"] by (simp add: placed_def)
  moreover have "distinct (ids (doc (placed p d T m)))" using assms(2) by (simp add: wf_page_def)
  ultimately show "root_is k u \<Longrightarrow> lookup k (doc (placed p d T m)) = Some u"
    "has_kid k u \<Longrightarrow> parent_of k (doc (placed p d T m)) = Some (nid u)"
    using assms(3) lookup_unique parent_unique by blast+
qed

lemma placed_again:
  assumes "chart_at p d t" and "next_id p \<le> k" and "splice_kids k f [T] = [T']"
  shows "splice k f (splice d (\<lambda>_. [T]) (doc p)) = splice d (\<lambda>_. [T']) (doc p)"
proof -
  have "k \<notin> set (ids (doc p))" using assms(1,2) by (auto simp: wf_page_def chart_at_def)
  then show ?thesis unfolding assms(3) [symmetric] by (rule splice_fuse)
qed

lemma wf_after: "keeps grows m \<Longrightarrow> wf_page s \<Longrightarrow> m s = (r, s') \<Longrightarrow> wf_page s'"
  using keepsD by (fastforce simp: grows_def)

lemma wrap_eq:
  assumes "lookup k (doc q) = Some u" and "make_nodes e s = [HElem g a [] ]"
    and "append_nodes (Suc (next_id q)) (Elem (next_id q) g a []) [u] = (w, m)"
  shows "wrap e k s q = (Inr (), q\<lparr>doc := splice k (\<lambda>_. [w]) (doc q), next_id := m\<rparr>)"
  using assms by (simp add: wrap_def bindA_def elem_of_def del: append_nodes.simps)

lemma wrap_placed:
  assumes "chart_at p d t" and "wf_page (placed p d T m)" and "u \<in> set (elements T)" and "root_is k u"
    and "next_id p \<le> k" and "make_nodes e s = [HElem g a [] ]"
    and "append_nodes (Suc m) (Elem m g a []) [u] = (w, m')"
    and "splice_kids k (\<lambda>_. [w]) [T] = [T']"
  shows "wrap e k s (placed p d T m) = (Inr (), placed p d T' m') \<and> wf_page (placed p d T' m')"
proof -
  have "next_id (placed p d T m) = m" by (simp add: placed_def)
  then have "wrap e k s (placed p d T m) = (Inr (), placed p d T' m')"
    using wrap_eq [OF placed_find(1) [OF assms(1-4)] assms(6), of w m'] assms(7)
      placed_again [OF assms(1,5,8)] by (simp add: placed_def)
  then show ?thesis using wf_after [OF wrap_grows assms(2)] by blast
qed

lemma insert_placed:
  assumes "chart_at p d t" and "wf_page (placed p d T m)" and "u \<in> set (elements T)" and "root_is k u"
    and "next_id p \<le> k" and "inst_list m (parse_html e s) = (ts, m')" and "splice_kids k (f ts) [T] = [T']"
  shows "insertA e k s f (placed p d T m) = (Inr (), placed p d T' m')"
proof -
  have "elem_of k (placed p d T m) = (Inr u, placed p d T m)"
    using placed_find(1) [OF assms(1-4)] by (simp add: elem_of_def)
  then show ?thesis
    using placed_again [OF assms(1,5,7)] assms(6) by (simp add: insertA_def bindA_def placed_def)
qed

lemma chart_attr:
  assumes "chart_at p d t" and "wf_page (placed p d T m)" and "t \<in> set (elements T)"
  shows "attrA d k (placed p d T m) = (Inr (attr t k), placed p d T m)"
proof -
  have "root_is d t" using assms(1) lookup_Some_root unfolding chart_at_def by blast
  then show ?thesis using placed_find(1) [OF assms] by (simp add: attrA_Some)
qed

section \<open>The layout\<close>

lemma single_tags [simp]: "single_tag ''<td />'' = Some ''td''" "single_tag ''<tr/>'' = Some ''tr''"
  by code_simp+

lemma table_not_single: "single_tag (''<table class=\"'' @ s) = None"
proof -
  have "takeWhile word_char (''table class=\"'' @ s) = ''table''"
    "dropWhile is_space (dropWhile word_char (''table class=\"'' @ s)) = ''class=\"'' @ s"
    by (simp_all add: word_char_def is_digit_def is_space_def)
  then show ?thesis by (simp add: single_tag_def)
qed

lemma parse_parts:
  assumes "html_contract e" and "safe s"
  shows "make_nodes e (''<table class=\"'' @ s @ ''-wrapper\"/>'') = [HElem ''table'' [(''class'', s @ ''-wrapper'')] [] ]"
    and "parse_html e (''<td class=\"yaxis\">'' @ s @ ''</td>'') = [HElem ''td'' [(''class'', ''yaxis'')] (html_text s)]"
    and "parse_html e (''<tr><td></td><td class=\"xaxis\">'' @ s @ ''</td><td></td></tr>'') =
       [HElem ''tr'' [] [HElem ''td'' [] [], HElem ''td'' [(''class'', ''xaxis'')] (html_text s), HElem ''td'' [] [] ] ]"
  using assms by (simp_all add: html_contract_def make_nodes_def table_not_single del: append_Cons)

lemma inst_text: "inst_list n (html_text s) = (text_nodes s, n)"
  by (simp add: html_text_def text_nodes_def)

lemma inst_axis_cell: "inst_list n [HElem ''td'' [(''class'', c)] (html_text s)] = ([axis_cell n c s], Suc n)"
  by (simp add: inst_text axis_cell_def)

lemma inst_x_axis_row:
  "inst_list n [HElem ''tr'' [] [HElem ''td'' [] [], HElem ''td'' [(''class'', ''xaxis'')] (html_text s), HElem ''td'' [] [] ] ] =
   ([x_axis_row n s], n + 4)"
  by (simp add: inst_text x_axis_row_def axis_cell_def)

text \<open>The stages of the table: the cell, the row, the table, the axes.\<close>

definition cell_of :: "nat \<Rightarrow> dtree \<Rightarrow> dtree" where
  "cell_of n t = Elem n ''td'' [] [t]"

definition row_of :: "nat \<Rightarrow> dtree list \<Rightarrow> dtree \<Rightarrow> dtree list \<Rightarrow> dtree" where
  "row_of n left t right = Elem (n + 1) ''tr'' [] (left @ [cell_of n t] @ right)"

definition table_of :: "nat \<Rightarrow> string \<Rightarrow> dtree list \<Rightarrow> dtree" where
  "table_of n c rows = Elem (n + 2) ''table'' [(''class'', c @ ''-wrapper'')] [Elem (n + 3) ''tbody'' [] rows]"

lemmas stages = cell_of_def row_of_def table_of_def

lemma t_in_table: "t \<in> set (elements (table_of n c [row_of n l t r]))" if "root_is d t"
  using elements_refl [OF that] by (simp add: stages)

lemma cell_in_table: "cell_of n t \<in> set (elements (table_of n c [row_of n l t r]))"
  by (simp add: stages)

lemma row_in_table: "row_of n l t r \<in> set (elements (table_of n c [row_of n l t r]))"
  by (simp add: stages)

lemma wrapped:
  assumes ch: "chart_at p d t" and con: "html_contract e" and safe: "safe (shown (attr t ''class''))"
  defines "n \<equiv> next_id p"
  shows "\<exists>p1 p2. wrap e d ''<td />'' p = (Inr (), p1) \<and> parentA d p1 = (Inr n, p1) \<and>
    wrap e n ''<tr/>'' p1 = (Inr (), p2) \<and> parentA n p2 = (Inr (n + 1), p2) \<and>
    wrap e (n + 1) (''<table class=\"'' @ shown (attr t ''class'') @ ''-wrapper\"/>'') p2 =
      (Inr (), placed p d (table_of n (shown (attr t ''class'')) [row_of n [] t [] ]) (n + 4)) \<and>
    wf_page (placed p d (table_of n (shown (attr t ''class'')) [row_of n [] t [] ]) (n + 4))"
proof -
  let ?c = "shown (attr t ''class'')"
  have t: "root_is d t" "lookup d (doc p) = Some t" "wf_page p"
    using ch lookup_Some_root by (auto simp: chart_at_def)
  have 1: "wrap e d ''<td />'' p = (Inr (), placed p d (cell_of n t) (n + 1))"
    using wrap_eq [OF t(2), of e "''<td />''" "''td''" "[]" "cell_of n t" "n + 1"]
    by (simp add: make_nodes_def cell_of_def placed_def n_def)
  then have wf1: "wf_page (placed p d (cell_of n t) (n + 1))" using wf_after [OF wrap_grows t(3)] by blast
  have par1: "parent_of d (doc (placed p d (cell_of n t) (n + 1))) = Some n"
    using placed_find(2) [OF ch wf1, of "cell_of n t" d] t(1) by (simp add: cell_of_def has_kid_def)
  have 2: "wrap e n ''<tr/>'' (placed p d (cell_of n t) (n + 1)) = (Inr (), placed p d (row_of n [] t []) (n + 2)) \<and>
      wf_page (placed p d (row_of n [] t []) (n + 2))"
    by (rule wrap_placed [OF ch wf1, where u = "cell_of n t" and w = "row_of n [] t []"])
      (simp_all add: stages n_def make_nodes_def first_tag_def)
  have par2: "parent_of n (doc (placed p d (row_of n [] t []) (n + 2))) = Some (n + 1)"
    using placed_find(2) [OF ch conjunct2 [OF 2], of "row_of n [] t []" n] by (simp add: stages has_kid_def)
  have 3: "wrap e (n + 1) (''<table class=\"'' @ ?c @ ''-wrapper\"/>'') (placed p d (row_of n [] t []) (n + 2)) =
      (Inr (), placed p d (table_of n ?c [row_of n [] t [] ]) (n + 4)) \<and>
      wf_page (placed p d (table_of n ?c [row_of n [] t [] ]) (n + 4))"
    by (rule wrap_placed [OF ch conjunct2 [OF 2] _ _ _ parse_parts(1) [OF con safe],
          where u = "row_of n [] t []" and w = "table_of n ?c [row_of n [] t [] ]"])
      (simp_all add: stages n_def first_tag_def)
  show ?thesis using 1 2 3 par1 par2 by (auto simp: parentA_def)
qed

lemma labelled:
  assumes ch: "chart_at p d t" and wf: "wf_page (placed p d (table_of n c [row_of n l t r]) m)"
    and con: "html_contract e" and safe: "safe s" and n: "n = next_id p" "n + 4 \<le> m"
    and out: "\<forall>u \<in> set (l @ r). n \<notin> set (ids u) \<and> n + 1 \<notin> set (ids u)"
  shows "before e n (''<td class=\"yaxis\">'' @ s @ ''</td>'') (placed p d (table_of n c [row_of n l t r]) m) =
      (Inr (), placed p d (table_of n c [row_of n (l @ [axis_cell m ''yaxis'' s]) t r]) (Suc m))"
    and "after e n (''<td class=\"yaxis\">'' @ s @ ''</td>'') (placed p d (table_of n c [row_of n l t r]) m) =
      (Inr (), placed p d (table_of n c [row_of n l t (axis_cell m ''yaxis'' s # r)]) (Suc m))"
    and "after e (n + 1) (''<tr><td></td><td class=\"xaxis\">'' @ s @ ''</td><td></td></tr>'')
        (placed p d (table_of n c [row_of n l t r]) m) =
      (Inr (), placed p d (table_of n c [row_of n l t r, x_axis_row m s]) (m + 4))"
proof -
  have no: "splice_kids k f us = us" if "\<forall>u \<in> set us. k \<notin> set (ids u)" for k f us
    using that by (intro splice_kids_absent) auto
  note u = cell_in_table [of n t c l r] and u' = row_in_table [of n l t r c]
  note parse = parse_parts(2) [OF con safe, folded append.simps] parse_parts(3) [OF con safe]
  show "before e n (''<td class=\"yaxis\">'' @ s @ ''</td>'') (placed p d (table_of n c [row_of n l t r]) m) =
      (Inr (), placed p d (table_of n c [row_of n (l @ [axis_cell m ''yaxis'' s]) t r]) (Suc m))"
    unfolding before_def
    by (rule insert_placed [OF ch wf u]; (simp only: parse inst_axis_cell)?)
      (use out n in \<open>auto simp: stages no\<close>)
  show "after e n (''<td class=\"yaxis\">'' @ s @ ''</td>'') (placed p d (table_of n c [row_of n l t r]) m) =
      (Inr (), placed p d (table_of n c [row_of n l t (axis_cell m ''yaxis'' s # r)]) (Suc m))"
    unfolding after_def
    by (rule insert_placed [OF ch wf u]; (simp only: parse inst_axis_cell)?)
      (use out n in \<open>auto simp: stages no\<close>)
  show "after e (n + 1) (''<tr><td></td><td class=\"xaxis\">'' @ s @ ''</td><td></td></tr>'')
        (placed p d (table_of n c [row_of n l t r]) m) =
      (Inr (), placed p d (table_of n c [row_of n l t r, x_axis_row m s]) (m + 4))"
    unfolding after_def
    by (rule insert_placed [OF ch wf u']; (simp only: parse inst_x_axis_row)?)
      (use out n in \<open>auto simp: stages no\<close>)
qed

lemma concatA_attr: "concatA a (attr t k) b q = (Inr (a @ shown (attr t k) @ b), q)"
  by (simp add: concatA_def liftA_def to_str_attr)

lemma axis_cell_ids: "k \<notin> set (ids (axis_cell i c s)) \<longleftrightarrow> k \<noteq> i"
  by (simp add: axis_cell_def text_nodes_def)

text \<open>The attributes that are written into markup.\<close>

definition label_keys :: "string list" where
  "label_keys = [''class'', ''data-y-axis'', ''data-y-axis2'', ''data-x-axis'']"

lemma bindA_step: "m s = (Inr v, s') \<Longrightarrow> f v s' = res \<Longrightarrow> bindA m f s = res"
  by simp

lemma layout_eq:
  assumes ch: "chart_at p d t" and con: "html_contract e"
    and safe: "\<forall>k \<in> set label_keys. safe (shown (attr t k))"
  shows "chart_layout e d p = (Inr (), placed p d (chart_table (next_id p) t) (next_id p + table_size t))"
proof -
  let ?n = "next_id p" and ?c = "shown (attr t ''class'')" and ?s = "\<lambda>k. shown (attr t k)"
  let ?l = "[axis_cell (?n + 4) ''yaxis'' (?s ''data-y-axis'')]"
  let ?r = "if truthy (attr t ''data-y-axis2'') then [axis_cell (?n + 5) ''yaxis'' (?s ''data-y-axis2'')] else []"
  let ?T = "\<lambda>l r. table_of ?n ?c [row_of ?n l t r]"
  have rt: "root_is d t" using ch lookup_Some_root by (auto simp: chart_at_def)
  have sf: "safe ?c" "safe (?s ''data-y-axis'')" "safe (?s ''data-y-axis2'')" "safe (?s ''data-x-axis'')"
    using safe by (simp_all add: label_keys_def)
  note attr = chart_attr [OF ch _ t_in_table [OF rt]]
  obtain p1 p2 where w: "wrap e d ''<td />'' p = (Inr (), p1)" "parentA d p1 = (Inr ?n, p1)"
    "wrap e ?n ''<tr/>'' p1 = (Inr (), p2)" "parentA ?n p2 = (Inr (?n + 1), p2)"
    "wrap e (?n + 1) (''<table class=\"'' @ ?c @ ''-wrapper\"/>'') p2 = (Inr (), placed p d (?T [] []) (?n + 4))"
    and wf4: "wf_page (placed p d (?T [] []) (?n + 4))"
    using wrapped [OF ch con sf(1)] by blast
  have b: "before e ?n (''<td class=\"yaxis\">'' @ ?s ''data-y-axis'' @ ''</td>'') (placed p d (?T [] []) (?n + 4)) =
      (Inr (), placed p d (?T ?l []) (?n + 5))"
    using labelled(1) [OF ch wf4 con sf(2) refl] by (simp add: numeral_eq_Suc)
  have wf5: "wf_page (placed p d (?T ?l []) (?n + 5))" by (rule wf_after [OF before_grows wf4 b])
  have a: "after e ?n (''<td class=\"yaxis\">'' @ ?s ''data-y-axis2'' @ ''</td>'') (placed p d (?T ?l []) (?n + 5)) =
      (Inr (), placed p d (?T ?l [axis_cell (?n + 5) ''yaxis'' (?s ''data-y-axis2'')]) (?n + 6))"
    using labelled(2) [OF ch wf5 con sf(3) refl] by (simp add: axis_cell_ids numeral_eq_Suc)
  have wf6: "wf_page (placed p d (?T ?l ?r) (?n + 5 + length ?r))"
    using wf5 wf_after [OF after_grows wf5 a] by (simp add: ac_simps)
  have x: "after e (?n + 1) (''<tr><td></td><td class=\"xaxis\">'' @ ?s ''data-x-axis'' @ ''</td><td></td></tr>'')
      (placed p d (?T ?l ?r) (?n + 5 + length ?r)) =
      (Inr (), placed p d (chart_table ?n t) (?n + table_size t))"
  proof -
    have out: "\<forall>u \<in> set (?l @ ?r). ?n \<notin> set (ids u) \<and> ?n + 1 \<notin> set (ids u)" by (simp add: axis_cell_ids)
    have tab: "table_of ?n ?c [row_of ?n ?l t ?r, x_axis_row (?n + 5 + length ?r) (?s ''data-x-axis'')] = chart_table ?n t"
      by (simp add: chart_table_def stages Let_def)
    have len: "?n + 5 + length ?r + 4 = ?n + table_size t" by (simp add: table_size_def)
    have le: "?n + 4 \<le> ?n + 5 + length ?r" by simp
    show ?thesis using labelled(3) [OF ch wf6 con sf(4) refl le out] unfolding tab len .
  qed
  have cls: "attrA d ''class'' p = (Inr (attr t ''class''), p)" using ch attrA_Some by (simp add: chart_at_def)
  define q4 q5 q6 q7 where q: "q4 = placed p d (?T [] []) (?n + 4)" "q5 = placed p d (?T ?l []) (?n + 5)"
    "q6 = placed p d (?T ?l ?r) (?n + 5 + length ?r)" "q7 = placed p d (chart_table ?n t) (?n + table_size t)"
  have second: "(if truthy (attr t ''data-y-axis2'')
      then bindA (attrA d ''data-y-axis2'') (\<lambda>y2'.
           bindA (concatA ''<td class=\"yaxis\">'' y2' ''</td>'') (\<lambda>yc2. after e ?n yc2))
      else retA ()) q5 = (Inr (), q6)"
  proof (cases "truthy (attr t ''data-y-axis2'')")
    case True
    then have "after e ?n (''<td class=\"yaxis\">'' @ ?s ''data-y-axis2'' @ ''</td>'') q5 = (Inr (), q6)"
      using a by (simp add: q ac_simps)
    with True show ?thesis using attr [OF wf5, folded q] by (simp add: bindA_def concatA_attr)
  qed (simp add: q)
  note steps = w [folded q] attr [OF wf4, folded q] attr [OF wf5, folded q] attr [OF wf6, folded q]
    b [folded q] x [folded q] second cls concatA_attr
  show ?thesis unfolding chart_layout_def q(4) [symmetric]
    by ((rule bindA_step, rule steps)+, rule x [folded q])
qed

lemma plot_data_eq:
  assumes "chart_at p d t" and "html_contract e" and "\<forall>k \<in> set label_keys. safe (shown (attr t k))"
    and "flot e \<lparr>pc_div = d, pc_data = Arr cd, pc_options = options t extra\<rparr> = None"
  shows "plot_data e d cd extra p = (Inr (), p\<lparr>
    doc := splice d (\<lambda>_. [chart_table (next_id p) t]) (doc p),
    next_id := next_id p + table_size t,
    plots := plots p @ [\<lparr>pc_div = d, pc_data = Arr cd, pc_options = options t extra\<rparr>]\<rparr>)"
proof -
  have l: "lookup d (doc p) = Some t" using assms(1) by (simp add: chart_at_def)
  show ?thesis
    using layout_eq [OF assms(1-3)] assms(4) unfolding plot_data_layout [OF l] by (simp add: plotA_def placed_def)
qed

text \<open>
  C3: the layout of a chart whose labels are plain text, exactly. On any well-formed page, for any
  element below the root whose class and axis labels have no markup characters, no carriage
  return and no null character, with a parser that takes the code's templates as
  \<open>html_contract\<close> says and a plotting library that does not throw: the element is moved into a
  new table in its own place, which has a row with the label of the y axis, the element, and the label
  of the second axis when there is one, and a row with the label of the x axis; everything else
  stays where it was, and the plotting library is called once, on the element, with the data
  and the options of the chart.
\<close>

theorem plot_data_document:
  assumes "wf_page p" and "lookup d (doc p) = Some t" and "\<not> root_is d (doc p)"
    and "html_contract e" and "\<forall>k \<in> set label_keys. safe (shown (attr t k))"
    and "flot e \<lparr>pc_div = d, pc_data = Arr cd, pc_options = options t extra\<rparr> = None"
  shows "plot_data e d cd extra p = (Inr (), p\<lparr>
    doc := splice d (\<lambda>_. [chart_table (next_id p) t]) (doc p),
    next_id := next_id p + table_size t,
    plots := plots p @ [\<lparr>pc_div = d, pc_data = Arr cd, pc_options = options t extra\<rparr>]\<rparr>)"
  using assms by (intro plot_data_eq) (simp_all add: chart_at_def)

text \<open>A parser for the templates, for the witness.\<close>

definition upto :: "char \<Rightarrow> string \<Rightarrow> string" where
  "upto c = takeWhile (\<lambda>x. x \<noteq> c)"

definition template_parse :: "string \<Rightarrow> html list" where
  "template_parse s =
     (if starts_with ''<table'' s then [HElem ''table'' [(''class'', upto CHR 0x22 (drop 14 s))] [] ]
      else if starts_with ''<td'' s
      then [HElem ''td'' [(''class'', ''yaxis'')] (html_text (upto CHR ''<'' (drop 18 s)))]
      else [HElem ''tr'' []
             [HElem ''td'' [] [], HElem ''td'' [(''class'', ''xaxis'')] (html_text (upto CHR ''<'' (drop 31 s))),
              HElem ''td'' [] [] ] ])"

definition template_env :: env where
  "template_env = \<lparr>parse_html = template_parse, flot = (\<lambda>c. None)\<rparr>"

lemma upto_safe: "c \<notin> set s \<Longrightarrow> upto c (s @ c # r) = s"
  by (induction s) (auto simp: upto_def)

lemma template_contract: "html_contract template_env"
proof -
  have "CHR ''<'' \<notin> set s" "CHR 0x22 \<notin> set (s @ ''-wrapper'')" if "safe s" for s
    using that by (auto simp: safe_def)
  then show ?thesis
    using upto_safe [of "CHR 0x22" "_ @ ''-wrapper''"] upto_safe [of "CHR ''<''"]
    by (simp add: html_contract_def template_env_def template_parse_def)
qed

theorem plot_data_document_witness:
  "doc (snd (plot_data template_env 2 [] [] demo_page)) =
   splice 2 (\<lambda>_. [Elem 10 ''table'' [(''class'', ''chart-wrapper'')] [Elem 11 ''tbody'' []
     [Elem 9 ''tr'' [] [axis_cell 12 ''yaxis'' ''rate'', Elem 8 ''td'' [] [hd (kids (hd (kids demo_doc)))] ],
      x_axis_row 13 ''time''] ] ]) demo_doc"
proof -
  let ?t = "hd (kids (hd (kids demo_doc)))"
  have "lookup 2 (doc demo_page) = Some ?t" "\<not> root_is 2 (doc demo_page)" "next_id demo_page = 8"
    by (simp_all add: demo_page_defs)
  moreover have "\<forall>k \<in> set label_keys. safe (shown (attr ?t k))"
    by (simp add: demo_doc_def attr_def shown_def safe_def label_keys_def)
  moreover have "attr ?t ''class'' = Str ''chart''" "attr ?t ''data-y-axis'' = Str ''rate''"
      "attr ?t ''data-x-axis'' = Str ''time''" "attr ?t ''data-y-axis2'' = Undefined"
    by (simp_all add: demo_doc_def attr_def)
  ultimately show ?thesis
    using plot_data_document [OF demo_wf _ _ template_contract, of 2 ?t "[]" "[]"]
    by (simp add: template_env_def chart_table_def shown_def Let_def demo_page_def)
qed

section \<open>A run over complete results\<close>

text \<open>What an element draws: at most one call of the plotting library.\<close>

definition chart_calls :: "jsv \<Rightarrow> nat \<Rightarrow> dtree \<Rightarrow> plot_call list" where
  "chart_calls results d t =
     (if attr t ''data-file'' = Undefined
      then (case chart_spec results t of
              Inr (Some (cd, extra)) \<Rightarrow> [\<lparr>pc_div = d, pc_data = Arr cd, pc_options = options t extra\<rparr>]
            | _ \<Rightarrow> [])
      else [])"

definition page_calls :: "jsv \<Rightarrow> page \<Rightarrow> nat list \<Rightarrow> plot_call list" where
  "page_calls results p ds =
     concat (map (\<lambda>d. case lookup d (doc p) of Some t \<Rightarrow> chart_calls results d t | None \<Rightarrow> []) ds)"

text \<open>An element is ready when its results are complete and its labels are plain text.\<close>

definition ready :: "jsv \<Rightarrow> dtree \<Rightarrow> bool" where
  "ready results t \<longleftrightarrow> (\<forall>k \<in> set label_keys. safe (shown (attr t k))) \<and>
     (attr t ''data-file'' = Undefined \<longrightarrow> (case chart_spec results t of Inr _ \<Rightarrow> True | Inl _ \<Rightarrow> False))"

definition ready_at :: "jsv \<Rightarrow> page \<Rightarrow> nat \<Rightarrow> bool" where
  "ready_at results p d \<longleftrightarrow> \<not> root_is d (doc p) \<and>
     (case lookup d (doc p) of Some t \<Rightarrow> ready results t | None \<Rightarrow> False)"

lemma attrs_ready:
  assumes "attrs t' = attrs t"
  shows "ready results t' = ready results t" "chart_calls results d t' = chart_calls results d t"
proof -
  have a: "attr t' = attr t" using assms by (simp add: attr_def fun_eq_iff)
  then have d: "attr_default t' = attr_default t" by (simp add: attr_default_def fun_eq_iff)
  have "chart_spec results t' = chart_spec results t" "options t' = options t"
    unfolding chart_spec_def options_def a d by (rule refl)+
  then show "ready results t' = ready results t" "chart_calls results d t' = chart_calls results d t"
    by (simp_all only: ready_def chart_calls_def a)
qed

lemma plot_ready:
  assumes wf: "wf_page p" and ready: "ready_at results p d" and con: "html_contract e" and fl: "\<forall>c. flot e c = None"
  shows "\<exists>q. plot e d results p = (Inr (), q) \<and> plots q = plots p @ page_calls results p [d] \<and>
    (\<forall>k. root_is k (doc q) = root_is k (doc p))"
proof -
  obtain t where t: "lookup d (doc p) = Some t" "ready results t" "\<not> root_is d (doc p)"
    using ready by (auto simp: ready_at_def split: option.splits)
  then have ch: "chart_at p d t" using wf by (simp add: chart_at_def)
  show ?thesis
  proof (cases "attr t ''data-file'' = Undefined")
    case True
    then have pl: "plot e d results p = plot0 e d results p"
      by (simp add: plot_def bindA_def attrA_Some [OF t(1)])
    obtain c where c: "chart_spec results t = Inr c" using t(2) True by (auto simp: ready_def split: sum.splits)
    show ?thesis
    proof (cases c)
      case None
      then show ?thesis using True t(1) c
        by (simp add: pl plot0_spec [OF t(1)] page_calls_def chart_calls_def)
    next
      case (Some x)
      obtain cd extra where "x = (cd, extra)" by fastforce
      then show ?thesis using True t(1,2) c Some fl
        by (simp add: pl plot0_spec [OF t(1)] plot_data_eq [OF ch con] ready_def page_calls_def chart_calls_def)
    qed
  next
    case False
    then obtain f where f: "attr t ''data-file'' = Str f" using plain_attr [of t] by (auto simp: plain_def)
    then show ?thesis
      by (simp add: plot_def bindA_def attrA_Some [OF t(1)] liftA_def ajax_def Let_def page_calls_def chart_calls_def t(1))
  qed
qed

lemma page_calls_grows:
  assumes "grows p q" "wf_page p" "\<forall>d \<in> set ds. ready_at results p d" "\<forall>k. root_is k (doc q) = root_is k (doc p)"
  shows "page_calls results q ds = page_calls results p ds" "\<forall>d \<in> set ds. ready_at results q d"
proof -
  have *: "\<exists>t t'. lookup d (doc p) = Some t \<and> lookup d (doc q) = Some t' \<and> \<not> root_is d (doc p) \<and>
      ready results t' \<and> chart_calls results d t' = chart_calls results d t" if "d \<in> set ds" for d
  proof -
    have "ready_at results p d" using assms(3) that by blast
    then obtain t where t: "lookup d (doc p) = Some t" "ready results t" "\<not> root_is d (doc p)"
      by (auto simp: ready_at_def split: option.splits)
    obtain t' where "lookup d (doc q) = Some t'" "attrs t' = attrs t"
      using grows_lookup [OF assms(1,2) t(1)] by blast
    with t show ?thesis using attrs_ready by blast
  qed
  have "(case lookup d (doc q) of Some t \<Rightarrow> chart_calls results d t | None \<Rightarrow> []) =
      (case lookup d (doc p) of Some t \<Rightarrow> chart_calls results d t | None \<Rightarrow> [])" if "d \<in> set ds" for d
    using * [OF that] by (elim exE conjE) simp
  then show "page_calls results q ds = page_calls results p ds"
    unfolding page_calls_def by (intro arg_cong [where f = concat] map_cong [OF refl])
  show "\<forall>d \<in> set ds. ready_at results q d"
  proof
    fix d assume "d \<in> set ds"
    from * [OF this] show "ready_at results q d" using assms(4) by (elim exE conjE) (simp add: ready_at_def)
  qed
qed

lemma each_plot_ready:
  assumes "html_contract e" and "\<forall>c. flot e c = None"
  shows "wf_page p \<Longrightarrow> \<forall>d \<in> set ds. ready_at results p d \<Longrightarrow>
    \<exists>q. eachA (\<lambda>d. plot e d results) ds p = (Inr (), q) \<and> plots q = plots p @ page_calls results p ds"
proof (induction ds arbitrary: p)
  case Nil
  then show ?case by (simp add: page_calls_def)
next
  case (Cons d ds)
  obtain p' where pl: "plot e d results p = (Inr (), p')" "plots p' = plots p @ page_calls results p [d]"
      "\<forall>k. root_is k (doc p') = root_is k (doc p)"
    using plot_ready [OF Cons.prems(1) _ assms] Cons.prems(2) by (meson list.set_intros(1))
  have g: "grows p p'" using keepsD [OF plot_grows pl(1)] .
  then have wf: "wf_page p'" using Cons.prems(1) by (simp add: grows_def)
  have rest: "\<forall>d \<in> set ds. ready_at results p d" using Cons.prems(2) by simp
  note same = page_calls_grows [OF g Cons.prems(1) rest pl(3)]
  obtain q where "eachA (\<lambda>d. plot e d results) ds p' = (Inr (), q)" "plots q = plots p' @ page_calls results p' ds"
    using Cons.IH [OF wf same(2)] by blast
  then show ?case using pl(1,2) same(1)
    by (simp add: bindA_Inr [where m = "plot e d results", OF pl(1)] page_calls_def)
qed

lemma render_graphs_ready:
  assumes "wf_page p" and "html_contract e" and "\<forall>c. flot e c = None"
    and "scope parent p = Some t" and "\<forall>d \<in> set (charts parent p). ready_at results p d"
  shows "\<exists>q. plots q = plots p @ page_calls results p (charts parent p) \<and>
    render_graphs e results parent p =
      bindA (selectA [''summary''] parent) (\<lambda>ss. eachA (\<lambda>d. summarise e d results) ss) q"
proof -
  obtain q where q: "eachA (\<lambda>d. plot e d results) (charts parent p) p = (Inr (), q)"
    "plots q = plots p @ page_calls results p (charts parent p)"
    using each_plot_ready [OF assms(2,3,1,5)] by blast
  then show ?thesis
    using assms(4) by (auto simp: render_graphs_def selectA_scope [of _ _ p] bindA_def charts_def)
qed

end
