(* ===== verification/Js_Json.thy ===== *)
theory Js_Json
  imports Js_Value
begin

text \<open>
  \<open>JSON.parse\<close>, which the scripts apply to the text of a results file: a recursive descent
  over the JSON grammar. Strings are sequences of 8-bit characters here, so an escape for
  a larger code unit is outside the model. The parser takes fuel, one unit per call; twice
  the length of the text is enough (\<open>json_fuel\<close> below).
\<close>

definition json_space :: "char \<Rightarrow> bool" where
  "json_space c \<longleftrightarrow> (of_char c :: nat) \<in> {9, 10, 13, 32}"

definition skip_ws :: "string \<Rightarrow> string" where
  "skip_ws s = dropWhile json_space s"

definition json_escape :: "char \<Rightarrow> char option" where
  "json_escape c =
     (if c = CHR 0x22 \<or> c = CHR 0x5C \<or> c = CHR ''/'' then Some c
      else if c = CHR ''b'' then Some (char_of (8 :: nat))
      else if c = CHR ''f'' then Some (char_of (12 :: nat))
      else if c = CHR ''n'' then Some (char_of (10 :: nat))
      else if c = CHR ''r'' then Some (char_of (13 :: nat))
      else if c = CHR ''t'' then Some (char_of (9 :: nat))
      else None)"

text \<open>The characters of a string after the opening quote, and the text after the closing one.\<close>

fun json_chars :: "string \<Rightarrow> (string \<times> string) res" where
  "json_chars [] = Inl SyntaxError"
| "json_chars (c # s) =
     (if c = CHR 0x22 then Inr ([], s)
      else if c = CHR 0x5C
      then (case s of
              [] \<Rightarrow> Inl SyntaxError
            | d # t \<Rightarrow>
                if d = CHR ''u''
                then (case t of
                        h1 # h2 # h3 # h4 # u \<Rightarrow>
                          (case radix_val 16 0 [h1, h2, h3, h4] of
                             None \<Rightarrow> Inl SyntaxError
                           | Some n \<Rightarrow>
                               if 256 \<le> n then Inl (Outside ''code unit'')
                               else bindE (json_chars u) (\<lambda>(w, r). Inr (char_of n # w, r)))
                      | _ \<Rightarrow> Inl SyntaxError)
                else (case json_escape d of
                        None \<Rightarrow> Inl SyntaxError
                      | Some x \<Rightarrow> bindE (json_chars t) (\<lambda>(w, r). Inr (x # w, r))))
      else if (of_char c :: nat) < 32 then Inl SyntaxError
      else bindE (json_chars s) (\<lambda>(w, r). Inr (c # w, r)))"

text \<open>Numbers: no leading zeros, no bare point, no empty exponent.\<close>

definition json_number :: "string \<Rightarrow> (jsv \<times> string) res" where
  "json_number s =
     (let neg = (s \<noteq> [] \<and> hd s = CHR ''-'');
          u = (if neg then tl s else s);
          ip = takeWhile is_digit u;
          r = dropWhile is_digit u;
          (fp, r1) = read_frac r;
          (ex, r2) = read_exp r1;
          q = rnd (of_nat (dec_val (ip @ fp)) * bpow 10 (ex - int (length fp)))
      in if ip = [] \<or> (ip \<noteq> ''0'' \<and> hd ip = CHR ''0'') then Inl SyntaxError
         else if r \<noteq> [] \<and> hd r = CHR ''.'' \<and> fp = [] then Inl SyntaxError
         else if r2 \<noteq> [] \<and> (hd r2 = CHR ''e'' \<or> hd r2 = CHR ''E'') \<and> r2 = r1 then Inl SyntaxError
         else Inr (Num (if neg then dbl_neg q else q), r2))"

definition json_word :: "string \<Rightarrow> (jsv \<times> string) res" where
  "json_word s =
     (if starts_with ''true'' s then Inr (Bool True, drop 4 s)
      else if starts_with ''false'' s then Inr (Bool False, drop 5 s)
      else if starts_with ''null'' s then Inr (Null, drop 4 s)
      else json_number s)"

text \<open>A repeated key keeps its first position and takes its last value.\<close>

definition make_obj :: "(string \<times> jsv) list \<Rightarrow> jsv" where
  "make_obj ps = Obj (foldl (\<lambda>o' (k, v). obj_put k v o') [] ps)"

fun json_value :: "nat \<Rightarrow> string \<Rightarrow> (jsv \<times> string) res"
  and json_items :: "nat \<Rightarrow> string \<Rightarrow> (jsv list \<times> string) res"
  and json_members :: "nat \<Rightarrow> string \<Rightarrow> ((string \<times> jsv) list \<times> string) res" where
  "json_value 0 s = Inl (Outside ''fuel'')"
| "json_value (Suc n) s =
     (case skip_ws s of
        [] \<Rightarrow> Inl SyntaxError
      | c # t \<Rightarrow>
          if c = CHR ''{''
          then (if starts_with ''}'' (skip_ws t) then Inr (Obj [], tl (skip_ws t))
                else bindE (json_members n t) (\<lambda>(ps, r). Inr (make_obj ps, r)))
          else if c = CHR ''[''
          then (if starts_with '']'' (skip_ws t) then Inr (Arr [], tl (skip_ws t))
                else bindE (json_items n t) (\<lambda>(xs, r). Inr (Arr xs, r)))
          else if c = CHR 0x22 then bindE (json_chars t) (\<lambda>(w, r). Inr (Str w, r))
          else json_word (c # t))"
| "json_items 0 s = Inl (Outside ''fuel'')"
| "json_items (Suc n) s =
     bindE (json_value n s) (\<lambda>(v, r).
       case skip_ws r of
         [] \<Rightarrow> Inl SyntaxError
       | c # t \<Rightarrow>
           if c = CHR '']'' then Inr ([v], t)
           else if c = CHR '','' then bindE (json_items n t) (\<lambda>(vs, r'). Inr (v # vs, r'))
           else Inl SyntaxError)"
| "json_members 0 s = Inl (Outside ''fuel'')"
| "json_members (Suc n) s =
     (case skip_ws s of
        [] \<Rightarrow> Inl SyntaxError
      | q # s1 \<Rightarrow>
          if q \<noteq> CHR 0x22 then Inl SyntaxError
          else bindE (json_chars s1) (\<lambda>(k, s2).
            case skip_ws s2 of
              [] \<Rightarrow> Inl SyntaxError
            | c # s3 \<Rightarrow>
                if c \<noteq> CHR '':'' then Inl SyntaxError
                else bindE (json_value n s3) (\<lambda>(v, r).
                  case skip_ws r of
                    [] \<Rightarrow> Inl SyntaxError
                  | d # t \<Rightarrow>
                      if d = CHR ''}'' then Inr ([(k, v)], t)
                      else if d = CHR '','' then bindE (json_members n t) (\<lambda>(ps, r'). Inr ((k, v) # ps, r'))
                      else Inl SyntaxError)))"

definition json_parse :: "string \<Rightarrow> jsv res" where
  "json_parse s =
     bindE (json_value (2 * length s + 2) s)
       (\<lambda>(v, r). if skip_ws r = [] then Inr v else Inl SyntaxError)"

section \<open>The fuel is enough\<close>

text \<open>A reading step that does not run out of fuel and leaves less than \<open>n\<close> characters.\<close>

definition consumes :: "nat \<Rightarrow> ('a \<times> string) res \<Rightarrow> bool" where
  "consumes n r = (case r of Inl e \<Rightarrow> e \<noteq> Outside ''fuel'' | Inr (x, t) \<Rightarrow> length t < n)"

lemma consumes_simps [simp]:
  "consumes n (Inl e) \<longleftrightarrow> e \<noteq> Outside ''fuel''"
  "consumes n (Inr (x, t)) \<longleftrightarrow> length t < n"
  by (simp_all add: consumes_def)

lemma consumes_bind:
  assumes "consumes n m" and "\<And>x t. length t < n \<Longrightarrow> consumes k (f (x, t))"
  shows "consumes k (bindE m f)"
  using assms by (cases m) (auto simp: consumes_def)

lemma consumes_mono: "consumes n m \<Longrightarrow> n \<le> k \<Longrightarrow> consumes k m"
  by (auto simp: consumes_def split: sum.splits)

lemma skip_ws_length: "length (skip_ws s) \<le> length s"
  by (simp add: skip_ws_def length_dropWhile_le)

lemma skip_ws_Cons: "skip_ws s = c # t \<Longrightarrow> length t < length s"
  using skip_ws_length [of s] by simp

lemma consumes_if:
  "(P \<Longrightarrow> consumes n a) \<Longrightarrow> (\<not> P \<Longrightarrow> consumes n b) \<Longrightarrow> consumes n (if P then a else b)"
  by simp

lemma consumes_cons:
  assumes "consumes (length u) (json_chars u)" and "length u \<le> n"
  shows "consumes (Suc n) (bindE (json_chars u) (\<lambda>(w, r). Inr (x # w, r)))"
  using assms by (intro consumes_bind [of "length u"]) auto

lemma json_chars_consumes: "consumes (length s) (json_chars s)"
proof (induction s rule: length_induct)
  case (1 s)
  show ?case
  proof (cases s)
    case (Cons c t)
    have step: "consumes (Suc n) (bindE (json_chars u) (\<lambda>(w, r). Inr (x # w, r)))"
      if "length u \<le> length t" "length u \<le> n" for u x n
      using that 1 by (intro consumes_cons) (auto simp: Cons)
    show ?thesis
      unfolding Cons json_chars.simps length_Cons
      by (auto split: list.split option.split intro!: step consumes_if simp del: json_chars.simps radix_val.simps)
  qed simp
qed

lemma read_frac_length: "read_frac s = (w, r) \<Longrightarrow> length r \<le> length s"
  by (auto simp: read_frac_def split: if_splits intro: order.trans [OF length_dropWhile_le])

lemma read_exp_length: "read_exp s = (e, r) \<Longrightarrow> length r \<le> length s"
proof (cases s)
  case (Cons c t)
  have *: "length (dropWhile is_digit (tl t)) \<le> length t" "length (dropWhile is_digit t) \<le> length t"
    using length_dropWhile_le [of is_digit "tl t"] by (simp_all add: length_dropWhile_le)
  show "read_exp s = (e, r) \<Longrightarrow> length r \<le> length s"
    using * by (auto simp: Cons read_exp_def Let_def split: if_splits)
qed (simp add: read_exp_def)

lemma json_number_consumes: "consumes (length s) (json_number s)"
proof -
  define u where "u = (if s \<noteq> [] \<and> hd s = CHR ''-'' then tl s else s)"
  obtain fp r1 where fr: "read_frac (dropWhile is_digit u) = (fp, r1)" by fastforce
  obtain ex r2 where er: "read_exp r1 = (ex, r2)" by fastforce
  have "length r2 < length s" if "takeWhile is_digit u \<noteq> []"
  proof -
    have "length (dropWhile is_digit u) < length u"
      using that by (metis append_Nil length_dropWhile_le order_le_less takeWhile_dropWhile_id
          dropWhile_eq_self_iff takeWhile_eq_Nil_iff length_0_conv add_cancel_right_left
          length_append)
    moreover have "length u \<le> length s" by (simp add: u_def)
    ultimately show ?thesis
      using read_frac_length [OF fr] read_exp_length [OF er] by simp
  qed
  then show ?thesis
    by (simp add: json_number_def Let_def u_def [symmetric] fr er)
qed

lemma starts_with_length: "starts_with p s \<Longrightarrow> length p \<le> length s"
  by (auto simp: starts_with_iff)

lemma json_word_consumes: "consumes (length s) (json_word s)"
  using json_number_consumes [of s] by (auto simp: json_word_def dest: starts_with_length)


lemma json_value_step:
  assumes "\<And>t. 2 * length t + 2 \<le> n \<Longrightarrow> consumes (length t) (json_items n t)"
    and "\<And>t. 2 * length t + 2 \<le> n \<Longrightarrow> consumes (length t) (json_members n t)"
    and "2 * length s + 1 \<le> Suc n"
  shows "consumes (length s) (json_value (Suc n) s)"
proof (cases "skip_ws s")
  case (Cons c t)
  note len = skip_ws_Cons [OF Cons]
  have tl: "length (skip_ws t) - Suc 0 < length s" using len skip_ws_length [of t] by simp
  have word: "consumes (length s) (json_word (c # t))"
    using json_word_consumes [of "c # t"] skip_ws_length [of s] Cons by (auto intro: consumes_mono)
  have t: "2 * length t + 2 \<le> n" using assms(3) len by simp
  have m: "consumes (length s) (bindE (json_members n t) (\<lambda>(ps, r). Inr (make_obj ps, r)))"
    using assms(2) [OF t] len by (intro consumes_bind [of "length t"]) auto
  have i: "consumes (length s) (bindE (json_items n t) (\<lambda>(xs, r). Inr (Arr xs, r)))"
    using assms(1) [OF t] len by (intro consumes_bind [of "length t"]) auto
  have w: "consumes (length s) (bindE (json_chars t) (\<lambda>(w, r). Inr (Str w, r)))"
    using json_chars_consumes [of t] len by (intro consumes_bind [of "length t"]) auto
  show ?thesis
    unfolding json_value.simps Cons list.case
    by (intro consumes_if m i w word) (simp_all add: tl)
qed simp

lemma json_items_step:
  assumes "\<And>t. 2 * length t + 1 \<le> n \<Longrightarrow> consumes (length t) (json_value n t)"
    and "\<And>t. 2 * length t + 2 \<le> n \<Longrightarrow> consumes (length t) (json_items n t)"
    and s: "2 * length s + 2 \<le> Suc n"
  shows "consumes (length s) (json_items (Suc n) s)"
  unfolding json_items.simps
proof (rule consumes_bind)
  show "consumes (length s) (json_value n s)" using assms(1) s by simp
next
  fix v and r :: string
  assume r: "length r < length s"
  show "consumes (length s) (case (v, r) of (v, r) \<Rightarrow> (case skip_ws r of
         [] \<Rightarrow> Inl SyntaxError
       | c # t \<Rightarrow>
           if c = CHR '']'' then Inr ([v], t)
           else if c = CHR '','' then bindE (json_items n t) (\<lambda>(vs, r'). Inr (v # vs, r'))
           else Inl SyntaxError))"
  proof (cases "skip_ws r")
    case (Cons c t)
    note len = skip_ws_Cons [OF Cons]
    have "consumes (length s) (bindE (json_items n t) (\<lambda>(vs, r'). Inr (v # vs, r')))"
      using assms(2) [of t] s r len by (intro consumes_bind [of "length t"]) auto
    then show ?thesis
      unfolding Cons prod.case list.case using r len by (intro consumes_if) simp_all
  qed simp
qed

lemma json_members_step:
  assumes "\<And>t. 2 * length t + 1 \<le> n \<Longrightarrow> consumes (length t) (json_value n t)"
    and "\<And>t. 2 * length t + 2 \<le> n \<Longrightarrow> consumes (length t) (json_members n t)"
    and s: "2 * length s + 2 \<le> Suc n"
  shows "consumes (length s) (json_members (Suc n) s)"
proof -
  have tail: "consumes (length s) (case skip_ws r of
         [] \<Rightarrow> Inl SyntaxError
       | d # t \<Rightarrow>
           if d = CHR ''}'' then Inr ([(k, v)], t)
           else if d = CHR '','' then bindE (json_members n t) (\<lambda>(ps, r'). Inr ((k, v) # ps, r'))
           else Inl SyntaxError)"
    if r: "length r < length s" for k v r
  proof (cases "skip_ws r")
    case (Cons d t)
    note len = skip_ws_Cons [OF Cons]
    have "consumes (length s) (bindE (json_members n t) (\<lambda>(ps, r'). Inr ((k, v) # ps, r')))"
      using assms(2) [of t] s r len by (intro consumes_bind [of "length t"]) auto
    then show ?thesis
      unfolding Cons list.case using r len by (intro consumes_if) simp_all
  qed simp
  have colon: "consumes (length s) (case skip_ws s2 of
         [] \<Rightarrow> Inl SyntaxError
       | c # s3 \<Rightarrow>
           if c \<noteq> CHR '':'' then Inl SyntaxError
           else bindE (json_value n s3) (\<lambda>(v, r).
             case skip_ws r of
               [] \<Rightarrow> Inl SyntaxError
             | d # t \<Rightarrow>
                 if d = CHR ''}'' then Inr ([(k, v)], t)
                 else if d = CHR '','' then bindE (json_members n t) (\<lambda>(ps, r'). Inr ((k, v) # ps, r'))
                 else Inl SyntaxError))"
    if s2: "length s2 < length s" for k s2
  proof (cases "skip_ws s2")
    case (Cons c s3)
    note len = skip_ws_Cons [OF Cons]
    have "consumes (length s3) (json_value n s3)" using assms(1) [of s3] s s2 len by simp
    then show ?thesis
      unfolding Cons list.case using s2 len tail
      by (intro consumes_if consumes_bind [of "length s3"]) simp_all
  qed simp
  show ?thesis
  proof (cases "skip_ws s")
    case (Cons q s1)
    note len = skip_ws_Cons [OF Cons]
    show ?thesis
      unfolding json_members.simps Cons list.case using len colon json_chars_consumes [of s1]
      by (intro consumes_if consumes_bind [of "length s1"]) simp_all
  qed simp
qed

lemma json_fuel:
  "(\<forall>s. 2 * length s + 1 \<le> n \<longrightarrow> consumes (length s) (json_value n s)) \<and>
   (\<forall>s. 2 * length s + 2 \<le> n \<longrightarrow> consumes (length s) (json_items n s)) \<and>
   (\<forall>s. 2 * length s + 2 \<le> n \<longrightarrow> consumes (length s) (json_members n s))"
proof (induction n)
  case (Suc n)
  then show ?case
    by (intro conjI allI impI json_value_step json_items_step json_members_step) blast+
qed simp

lemma json_parse_fuel: "json_parse s \<noteq> Inl (Outside ''fuel'')"
proof -
  have "consumes (length s) (json_value (2 * length s + 2) s)"
    using json_fuel [of "2 * length s + 2"] by (simp del: json_value.simps)
  then show ?thesis
    by (cases "json_value (2 * length s + 2) s") (auto simp: json_parse_def split: if_splits)
qed

end
