(* ===== verification/Perf_Page.thy ===== *)
theory Perf_Page
  imports Perf_Plot Js_Json
begin

text \<open>
  The page as a state machine: the document is ready, a response arrives, a request fails.
  The callbacks are those of \<open>html/perf.js\<close> and of the pages that load it
  (\<open>html/examples/various.html\<close>, \<open>src/main/resources/static/index.html\<close>).
\<close>

section \<open>Callbacks and events\<close>

definition run_callback :: "env \<Rightarrow> string \<Rightarrow> callback \<Rightarrow> unit js" where
  "run_callback e text cb =
     (case cb of
        Cb_render \<Rightarrow> bindA (liftA (json_parse text)) (\<lambda>r. render_graphs e r None)
      | Cb_plot0 d \<Rightarrow> bindA (liftA (json_parse text)) (\<lambda>r. plot0 e d r)
      | Cb_alert s \<Rightarrow> alertA s)"

text \<open>The handler \<open>$(document).ready\<close> of a page: \<open>file\<close> and the text of its alert.\<close>

definition page_ready :: "string \<Rightarrow> string \<Rightarrow> unit js" where
  "page_ready file msg = ajax file [(''success'', Cb_render), (''fail'', Cb_alert msg)]"

datatype event = Ready string string | Arrived nat string | Failed nat

definition drop_nth :: "nat \<Rightarrow> 'a list \<Rightarrow> 'a list" where
  "drop_nth i xs = take i xs @ drop (Suc i) xs"

text \<open>
  The outcome of a request runs its callbacks in order: the ones of the outcome, then the
  ones attached to every outcome; an exception of one ends the run. The request is gone.
\<close>

definition settle :: "env \<Rightarrow> nat \<Rightarrow> string \<Rightarrow> (request \<Rightarrow> callback list) \<Rightarrow> unit js" where
  "settle e i text cbs = (\<lambda>p.
     if i < length (requests p)
     then (let rq = requests p ! i
           in eachA (run_callback e text) (cbs rq) (p\<lparr>requests := drop_nth i (requests p)\<rparr>))
     else (Inr (), p))"

definition handle :: "env \<Rightarrow> event \<Rightarrow> unit js" where
  "handle e ev =
     (case ev of
        Ready file msg \<Rightarrow> page_ready file msg
      | Arrived i text \<Rightarrow> settle e i text (\<lambda>rq. rq_done rq @ rq_always rq)
      | Failed i \<Rightarrow> settle e i [] (\<lambda>rq. rq_fail rq @ rq_always rq))"

text \<open>An exception of a handler ends the handler; the page stays as it left it.\<close>

inductive page_step :: "env \<Rightarrow> page \<Rightarrow> page \<Rightarrow> bool" for e where
  ready: "handle e (Ready file msg) p = (r, q) \<Longrightarrow> page_step e p q"
| arrived: "i < length (requests p) \<Longrightarrow> handle e (Arrived i text) p = (r, q) \<Longrightarrow> page_step e p q"
| failed: "i < length (requests p) \<Longrightarrow> handle e (Failed i) p = (r, q) \<Longrightarrow> page_step e p q"

inductive_cases page_stepE: "page_step e p q"

text \<open>A freshly loaded page: a document, no plots, no requests, no alerts.\<close>

definition fresh_page :: "page \<Rightarrow> bool" where
  "fresh_page p \<longleftrightarrow> plots p = [] \<and> requests p = [] \<and> alerts p = []"

inductive reachable :: "env \<Rightarrow> page \<Rightarrow> page \<Rightarrow> bool" for e p0 where
  start: "reachable e p0 p0"
| step: "reachable e p0 p \<Longrightarrow> page_step e p q \<Longrightarrow> reachable e p0 q"

end
