(* ===== verification/Perf_Page_Spec.thy ===== *)
theory Perf_Page_Spec
  imports Perf_Page Perf_Plot_Spec
begin

text \<open>
  Invariants of the page as a state machine, over every sequence of events: the document only
  grows, every pending request belongs to a page load or to a chart of the document, and no
  message is ever shown; and what the outcomes of a request do.
\<close>

section \<open>Handlers\<close>

definition still :: "page \<Rightarrow> page \<Rightarrow> bool" where
  "still p q \<longleftrightarrow> requests q = requests p \<and> alerts q = alerts p"

interpretation still_page: forward still
  by unfold_locales (auto simp: still_def)

lemma calm_still: "keeps calm m \<Longrightarrow> keeps still m"
  by (auto simp: keeps_def calm_def still_def)

lemma plot_data_still: "keeps still (plot_data e d cd extra)"
proof -
  have "keeps still (plotA e d cd' os)" for cd' os
    by (auto simp: keeps_def plotA_def still_def Let_def split: option.splits)
  moreover have "keeps still (attrA d k)" for d k by (intro calm_still calm_ops)
  moreover have "keeps still (parentA d)" for d by (intro calm_still calm_ops)
  ultimately show ?thesis
    unfolding plot_data_def attr_or_default_def concatA_def Let_def
    by (intro still_page.keeps_intros calm_still [OF doc_calm(1)] calm_still [OF doc_calm(2)] calm_still [OF doc_calm(3)])
qed

lemma plot0_still: "keeps still (plot0 e d results)"
proof -
  have a: "keeps still (attrA d k)" for d k by (intro calm_still calm_ops)
  have "keeps still (plot_time e d data)" "keeps still (plot_series e d dims vals data)"
    "keeps still (plot_x_y e d dims vals data)" "keeps still (plot_r_l e d dims vals data)" for dims vals data
    unfolding plot_time_def plot_series_def plot_x_y_def plot_r_l_def attr_or_default_def
    by (auto intro!: still_page.keeps_intros plot_data_still a split: prod.splits)
  then show ?thesis unfolding plot0_def by (intro still_page.keeps_intros a)
qed

lemma run_callback_grows: "keeps grows (run_callback e text cb)"
  unfolding run_callback_def
  by (cases cb) (auto intro!: grow_ops render_graphs_grows plot0_grows)

lemma drop_grows: "grows (p\<lparr>requests := rs\<rparr>) q \<Longrightarrow> grows p q"
  by (simp add: grows_def wf_page_def)

lemma settle_grows: "keeps grows (settle e i text cbs)"
proof (rule keepsI)
  fix p
  have "keeps grows (eachA (run_callback e text) xs)" for xs
    by (intro grow_ops run_callback_grows)
  then have "grows (p\<lparr>requests := drop_nth i (requests p)\<rparr>)
      (snd (eachA (run_callback e text) xs (p\<lparr>requests := drop_nth i (requests p)\<rparr>)))" for xs
    by (simp add: keeps_def)
  then show "grows p (snd (settle e i text cbs p))"
    by (auto simp: settle_def Let_def growth.R_refl intro: drop_grows)
qed

lemma handle_grows: "keeps grows (handle e ev)"
  by (cases ev) (auto simp: handle_def page_ready_def intro!: settle_grows log_grows)

section \<open>The invariant\<close>

text \<open>
  A pending request runs nothing when it fails; when it succeeds it renders the page, or draws
  one chart, an element of the document whose \<open>data-file\<close> is the address of the request.
\<close>

definition request_ok :: "page \<Rightarrow> request \<Rightarrow> bool" where
  "request_ok p rq \<longleftrightarrow> rq_fail rq = [] \<and> rq_always rq = [] \<and>
     (rq_done rq = [Cb_render] \<or>
      (\<exists>d t. rq_done rq = [Cb_plot0 d] \<and> lookup d (doc p) = Some t \<and> attr t ''data-file'' = Str (rq_url rq)))"

definition page_ok :: "page \<Rightarrow> bool" where
  "page_ok p \<longleftrightarrow> wf_page p \<and> alerts p = [] \<and> (\<forall>rq \<in> set (requests p). request_ok p rq)"

lemma request_ok_grows:
  assumes "grows p q" and "wf_page p" and "request_ok p rq"
  shows "request_ok q rq"
proof (cases "rq_done rq = [Cb_render]")
  case False
  then obtain d t where d: "rq_done rq = [Cb_plot0 d]" "lookup d (doc p) = Some t" "attr t ''data-file'' = Str (rq_url rq)"
    using assms(3) by (auto simp: request_ok_def)
  obtain t' where "lookup d (doc q) = Some t'" "attrs t' = attrs t"
    using grows_lookup [OF assms(1,2) d(2)] by blast
  moreover from this d(3) have "attr t' ''data-file'' = Str (rq_url rq)" by (simp add: attr_def)
  ultimately show ?thesis using assms(3) d(1) by (auto simp: request_ok_def)
qed (use assms(3) in \<open>auto simp: request_ok_def\<close>)

lemma requested_ok: "rq \<in> set (requested p ds) \<Longrightarrow> request_ok p rq"
  by (auto simp: requested_def chart_requests_def request_ok_def split: option.splits jsv.splits) metis

lemma page_ok_more:
  assumes "page_ok p" and "grows p q" and "alerts q = alerts p"
    and "\<forall>rq \<in> set (requests q). rq \<in> set (requests p) \<or> request_ok p rq \<or> request_ok q rq"
  shows "page_ok q"
  using assms request_ok_grows [OF assms(2)] by (auto simp: page_ok_def grows_def)

lemma set_drop_nth: "set (drop_nth i xs) \<subseteq> set xs"
  by (auto simp: drop_nth_def dest: in_set_takeD in_set_dropD)

lemma page_ok_drop: "page_ok p \<Longrightarrow> page_ok (p\<lparr>requests := drop_nth i (requests p)\<rparr>)"
  using set_drop_nth [of i "requests p"] by (auto simp: page_ok_def wf_page_def request_ok_def)

lemma run_callback_ok:
  assumes "page_ok p" and "cb = Cb_render \<or> (\<exists>d. cb = Cb_plot0 d)" and "run_callback e text cb p = (r, q)"
  shows "page_ok q"
proof -
  have g: "grows p q" using keepsD [OF run_callback_grows assms(3)] .
  show ?thesis
  proof (cases "json_parse text")
    case (Inl err)
    then have "q = p" using assms(2,3) by (auto simp: run_callback_def bindA_def)
    with assms(1) show ?thesis by simp
  next
    case (Inr v)
    show ?thesis
    proof (cases "cb = Cb_render")
      case True
      then have "render_graphs e v None p = (r, q)"
        using assms(3) Inr by (simp add: run_callback_def bindA_def)
      then obtain us where "logged p (drawn p us) (requested p us) q"
        using render_graphs_logged assms(1) unfolding page_ok_def by blast
      then show ?thesis
        using assms(1) requested_ok by (intro page_ok_more [OF assms(1) g]) (auto simp: logged_def)
    next
      case False
      then obtain d where "plot0 e d v p = (r, q)"
        using assms(2,3) Inr by (auto simp: run_callback_def bindA_def)
      then have "still p q" using keepsD [OF plot0_still] by blast
      then show ?thesis by (intro page_ok_more [OF assms(1) g]) (auto simp: still_def)
    qed
  qed
qed

lemma failed_eq:
  assumes "page_ok p" and "i < length (requests p)"
  shows "handle e (Failed i) p = (Inr (), p\<lparr>requests := drop_nth i (requests p)\<rparr>)"
proof -
  have "request_ok p (requests p ! i)" using assms by (simp add: page_ok_def)
  then show ?thesis using assms(2) by (simp add: handle_def settle_def request_ok_def)
qed

lemma bindA_retA: "bindA m retA = m"
  by (auto simp: bindA_def retA_def fun_eq_iff split: prod.splits sum.splits)

lemma arrived_eq:
  assumes "page_ok p" and "i < length (requests p)" and "rq_done (requests p ! i) = [cb]"
  shows "handle e (Arrived i text) p =
    run_callback e text cb (p\<lparr>requests := drop_nth i (requests p)\<rparr>)"
proof -
  have "request_ok p (requests p ! i)" using assms by (simp add: page_ok_def)
  then show ?thesis using assms(2,3) by (simp add: handle_def settle_def request_ok_def bindA_retA)
qed

lemma page_step_ok:
  assumes "page_step e p q" and "page_ok p"
  shows "page_ok q \<and> grows p q"
proof -
  consider (1) f msg r where "handle e (Ready f msg) p = (r, q)"
    | (2) i s r where "i < length (requests p)" "handle e (Arrived i s) p = (r, q)"
    | (3) i r where "i < length (requests p)" "handle e (Failed i) p = (r, q)"
    using assms(1) by (elim page_stepE) blast+
  then show ?thesis
  proof cases
  case 1
  then have "grows p q" using keepsD [OF handle_grows] by blast
  then show ?thesis
    using 1 by (auto simp: handle_def page_ready_def ajax_def Let_def request_ok_def intro!: page_ok_more [OF assms(2)])
next
  case 2
  have g: "grows p q" using 2 keepsD [OF handle_grows] by blast
  have "request_ok p (requests p ! i)" using assms(2) 2(1) by (simp add: page_ok_def)
  then obtain cb where cb: "rq_done (requests p ! i) = [cb]" "cb = Cb_render \<or> (\<exists>d. cb = Cb_plot0 d)"
    by (auto simp: request_ok_def)
  have "run_callback e s cb (p\<lparr>requests := drop_nth i (requests p)\<rparr>) = (r, q)"
    using 2(2) arrived_eq [OF assms(2) 2(1) cb(1)] by simp
  then show ?thesis using run_callback_ok [OF page_ok_drop [OF assms(2)] cb(2)] g by blast
next
  case 3
  have "grows p q" using 3 keepsD [OF handle_grows] by blast
  moreover have "q = p\<lparr>requests := drop_nth i (requests p)\<rparr>" using 3(2) failed_eq [OF assms(2) 3(1)] by simp
  ultimately show ?thesis using page_ok_drop [OF assms(2)] by simp
  qed
qed

lemma reachable_ok:
  assumes "reachable e p0 p" and "page_ok p0"
  shows "page_ok p \<and> grows p0 p"
  using assms(1)
proof (induction rule: reachable.induct)
  case start
  then show ?case using assms(2) growth.R_refl by blast
next
  case (step p q)
  then show ?case using page_step_ok growth.R_trans by blast
qed

lemma fresh_ok: "wf_page p \<Longrightarrow> fresh_page p \<Longrightarrow> page_ok p"
  by (simp add: page_ok_def fresh_page_def)

section \<open>A page with one chart of its own file\<close>

definition file_doc :: dtree where
  "file_doc = Elem 0 [] []
     [Elem 1 ''div'' [(''class'', ''chart''), (''data-type'', ''time''), (''data-scenario'', ''t''),
                      (''data-file'', ''more.js'')] [] ]"

definition file_page :: "request list \<Rightarrow> page" where
  "file_page rs = \<lparr>doc = file_doc, next_id = 2, plots = [], requests = rs, alerts = []\<rparr>"

definition load_request :: request where
  "load_request = \<lparr>rq_url = ''r.js'', rq_done = [Cb_render], rq_fail = [], rq_always = []\<rparr>"

definition chart_request :: request where
  "chart_request = \<lparr>rq_url = ''more.js'', rq_done = [Cb_plot0 1], rq_fail = [], rq_always = []\<rparr>"

lemma file_page_start: "wf_page (file_page [])" "fresh_page (file_page [])"
  by (simp_all add: wf_page_def fresh_page_def file_page_def file_doc_def)

lemma file_page_reachable: "reachable demo_env (file_page []) (file_page [chart_request])"
proof -
  have "handle demo_env (Ready ''r.js'' ''error'') (file_page []) = (Inr (), file_page [load_request])"
    by (simp add: handle_def page_ready_def ajax_def Let_def file_page_def load_request_def)
  then have 1: "page_step demo_env (file_page []) (file_page [load_request])" by (rule page_step.ready)
  have "json_parse ''{}'' = Inr (Obj [])" by code_simp
  then have "handle demo_env (Arrived 0 ''{}'') (file_page [load_request]) = (Inr (), file_page [chart_request])"
    by (simp add: handle_def settle_def load_request_def run_callback_def bindA_def liftA_def render_graphs_def
        selectA_def select_def class_tokens_def html_space_def file_page_def file_doc_def plot_def attrA_def
        elem_of_def lookup_def attr_def ajax_def Let_def chart_request_def drop_nth_def retA_def)
  then have 2: "page_step demo_env (file_page [load_request]) (file_page [chart_request])"
    by (intro page_step.arrived [where i = 0]) (simp_all add: file_page_def)
  show ?thesis using reachable.step [OF reachable.step [OF reachable.start 1] 2] .
qed

section \<open>Properties of every run\<close>

text \<open>
  C37: whatever the events, the documents stay well formed and keep every element of the page that
  was loaded, with its tag and attributes.
\<close>

theorem reachable_document:
  assumes "wf_page p0" and "fresh_page p0" and "reachable e p0 p"
  shows "wf_page p \<and> (\<forall>i t. lookup i (doc p0) = Some t \<longrightarrow>
    (\<exists>t'. lookup i (doc p) = Some t' \<and> tag t' = tag t \<and> attrs t' = attrs t))"
proof -
  have p: "page_ok p" "grows p0 p" using reachable_ok [OF assms(3) fresh_ok] assms(1,2) by blast+
  have "\<exists>t'. lookup i (doc p) = Some t' \<and> tag t' = tag t \<and> attrs t' = attrs t"
    if "lookup i (doc p0) = Some t" for i t
    using grows_lookup [OF p(2) assms(1) that] by blast
  with p(1) show ?thesis by (auto simp: page_ok_def)
qed

theorem reachable_document_witness:
  "wf_page (file_page [chart_request]) \<and> (\<exists>t. lookup 1 (doc (file_page [chart_request])) = Some t)"
  using reachable_document [OF file_page_start file_page_reachable]
  by (auto simp: file_page_def file_doc_def lookup_def dest!: spec [of _ 1])

text \<open>
  Every pending request of a running page either renders the page, or draws one chart: an
  element of the current document that still names the address of the request as its
  \<open>data-file\<close>.
\<close>

theorem reachable_requests:
  assumes "wf_page p0" and "fresh_page p0" and "reachable e p0 p" and "rq \<in> set (requests p)"
  shows "rq_done rq = [Cb_render] \<or> (\<exists>d t. rq_done rq = [Cb_plot0 d] \<and>
    lookup d (doc p) = Some t \<and> attr t ''data-file'' = Str (rq_url rq))"
  using reachable_ok [OF assms(3) fresh_ok [OF assms(1,2)] ] assms(4)
  by (auto simp: page_ok_def request_ok_def)

theorem reachable_requests_witness:
  "\<exists>t. lookup 1 (doc (file_page [chart_request])) = Some t \<and> attr t ''data-file'' = Str ''more.js''"
  using reachable_requests [OF file_page_start file_page_reachable, of chart_request]
  by (simp add: file_page_def chart_request_def)

text \<open>
  C38: a result file that cannot be loaded is never reported. The handlers meant to report it are
  attached under a name the library does not know: the failure of a request does nothing but
  drop it, and no message is shown in any run.
\<close>

theorem failed_request_silent:
  assumes "wf_page p0" and "fresh_page p0" and "reachable e p0 p" and "i < length (requests p)"
  shows "handle e (Failed i) p = (Inr (), p\<lparr>requests := drop_nth i (requests p)\<rparr>) \<and> alerts p = []"
proof -
  have "page_ok p" using reachable_ok [OF assms(3) fresh_ok [OF assms(1,2)] ] by blast
  then show ?thesis using failed_eq [OF _ assms(4)] by (simp add: page_ok_def)
qed

theorem failed_request_silent_witness:
  "handle demo_env (Failed 0) (file_page [chart_request]) = (Inr (), file_page [])"
  using failed_request_silent [OF file_page_start file_page_reachable, of 0]
  by (simp add: file_page_def drop_nth_def)

text \<open>
  The response to the request of a chart removes that request and issues none. Malformed text
  ends the handler with the syntax error and leaves the page otherwise unchanged; a handler
  that ends without an exception has drawn the chart, once, if its type is a known one.
\<close>

theorem arrived_chart:
  assumes "wf_page p0" and "fresh_page p0" and "reachable e p0 p" and "i < length (requests p)"
    and "rq_done (requests p ! i) = [Cb_plot0 d]" and "handle e (Arrived i s) p = (r, q)"
  shows "requests q = drop_nth i (requests p) \<and>
    (\<forall>err. json_parse s = Inl err \<longrightarrow> r = Inl err \<and> q = p\<lparr>requests := drop_nth i (requests p)\<rparr>) \<and>
    (r = Inr () \<longrightarrow> (\<exists>t. lookup d (doc p) = Some t \<and>
       map pc_div (plots q) = map pc_div (plots p) @ (if attr t ''data-type'' \<in> set chart_types then [d] else [])))"
proof -
  let ?p = "p\<lparr>requests := drop_nth i (requests p)\<rparr>"
  have ok: "page_ok p" using reachable_ok [OF assms(3) fresh_ok [OF assms(1,2)] ] by blast
  have run: "run_callback e s (Cb_plot0 d) ?p = (r, q)" using arrived_eq [OF ok assms(4,5), of e s] assms(6) by simp
  have "request_ok p (requests p ! i)" using ok assms(4) by (simp add: page_ok_def)
  then obtain t where t: "lookup d (doc p) = Some t" using assms(5) by (auto simp: request_ok_def)
  show ?thesis
  proof (cases "json_parse s")
    case (Inl err)
    then show ?thesis using run by (auto simp: run_callback_def bindA_def liftA_def)
  next
    case (Inr v)
    then have pl: "plot0 e d v ?p = (r, q)" using run by (simp add: run_callback_def bindA_def liftA_def)
    have "requests q = drop_nth i (requests p)" using keepsD [OF plot0_still pl] by (simp add: still_def)
    moreover have "map pc_div (plots q) = map pc_div (plots p) @ (if attr t ''data-type'' \<in> set chart_types then [d] else [])"
      if "r = Inr ()"
      using plot0_logged [of d ?p t e v q] t pl that by (simp add: logged_def)
    ultimately show ?thesis using t Inr by simp
  qed
qed

theorem arrived_chart_witness:
  "requests (snd (handle demo_env (Arrived 0 ''['') (file_page [chart_request]))) = [] \<and>
   fst (handle demo_env (Arrived 0 ''['') (file_page [chart_request])) = Inl SyntaxError"
proof -
  have "json_parse ''['' = Inl SyntaxError" by code_simp
  then show ?thesis
    using arrived_chart [OF file_page_start file_page_reachable, of 0 1 "''[''" "fst (handle demo_env (Arrived 0 ''['') (file_page [chart_request]))"
        "snd (handle demo_env (Arrived 0 ''['') (file_page [chart_request]))"]
    by (simp add: file_page_def drop_nth_def chart_request_def)
qed

end
