(* ===== verification/Result_Data.thy ===== *)
theory Result_Data
  imports Js_Value
begin

text \<open>
  The shape of a sample in a result file, as \<open>JSON.parse\<close> returns it: an object whose
  properties are in the order of the file and whose numbers are the doubles nearest to the
  decimal numbers of the file. The runs of a scenario with no consumers have no latencies.
\<close>

definition sample :: "rat \<Rightarrow> rat \<Rightarrow> rat \<Rightarrow> rat \<Rightarrow> rat \<Rightarrow> rat \<Rightarrow> rat \<Rightarrow> rat \<Rightarrow> jsv" where
  "sample elapsed min_latency avg_latency max_latency recv_bytes send_bytes recv_msg send_msg = Obj
    [(''elapsed'', Num (rnd elapsed)),
     (''min-latency'', Num (rnd min_latency)),
     (''avg-latency'', Num (rnd avg_latency)),
     (''max-latency'', Num (rnd max_latency)),
     (''recv-bytes-rate'', Num (rnd recv_bytes)),
     (''send-bytes-rate'', Num (rnd send_bytes)),
     (''recv-msg-rate'', Num (rnd recv_msg)),
     (''send-msg-rate'', Num (rnd send_msg))]"

definition send_sample :: "rat \<Rightarrow> rat \<Rightarrow> rat \<Rightarrow> rat \<Rightarrow> rat \<Rightarrow> jsv" where
  "send_sample elapsed recv_bytes send_bytes recv_msg send_msg = Obj
    [(''elapsed'', Num (rnd elapsed)),
     (''recv-bytes-rate'', Num (rnd recv_bytes)),
     (''send-bytes-rate'', Num (rnd send_bytes)),
     (''recv-msg-rate'', Num (rnd recv_msg)),
     (''send-msg-rate'', Num (rnd send_msg))]"

end
