(* ===== verification/Data_Time.thy ===== *)
theory Data_Time
  imports Result_Data
begin

text \<open>
  The simple scenarios of the example results: \<open>no-ack\<close> of \<open>html/examples/various-result.js\<close>
  and \<open>consume\<close> of \<open>html/examples/publish-consume-result.js\<close>. The samples of a run are in
  consecutive parts.
\<close>

definition no_ack_a :: "jsv list" where
  "no_ack_a =
    [sample 1000 372 60881 183302 0 0 20796 24175,
     sample 2000 83279 167979 258902 0 0 33745 34775,
     sample 3000 82969 162993 243356 0 0 34882 35699,
     sample 4000 80743 159148 245090 0 0 35381 33316,
     sample 5000 77431 154374 243502 0 0 35301 36983,
     sample 6000 82761 162797 256320 0 0 34774 33376,
     sample 7000 77502 153741 250406 0 0 35262 39058,
     sample 8000 78710 168456 255521 0 0 34865 33549,
     sample 9000 79674 155406 252721 0 0 35440 37209,
     sample 10001 76467 163776 250056 0 0 (3532367632367632 / 100000000000) (3328471528471528 / 100000000000),
     sample 11001 79708 162155 257475 0 0 35885 33318,
     sample 12001 79682 164013 245918 0 0 35847 39249,
     sample 13001 79466 159659 246988 0 0 35726 34906,
     sample 14001 72091 149274 244760 0 0 36490 37283,
     sample 15001 80876 161755 255657 0 0 35788 33318]"

definition no_ack_b :: "jsv list" where
  "no_ack_b =
    [sample 16001 80607 166443 253020 0 0 35110 36639,
     sample 17001 75000 154067 243973 0 0 37201 35818,
     sample 18001 73419 159445 241568 0 0 36296 37454,
     sample 19001 77249 160873 258762 0 0 35845 38560,
     sample 20001 77983 152365 241926 0 0 35994 35422,
     sample 21001 73116 159968 260359 0 0 35325 35421,
     sample 22001 75628 151671 246299 0 0 35192 36070,
     sample 23001 80235 158621 254919 0 0 35921 33318,
     sample 24001 75801 159468 250895 0 0 35616 35420,
     sample 25001 73075 160616 249490 0 0 35260 33826,
     sample 26001 95227 197869 333365 0 0 29961 30706,
     sample 27001 86491 173571 277742 0 0 32947 33316,
     sample 28001 84060 178207 269778 0 0 32131 33315,
     sample 29001 86603 180531 280184 0 0 31706 31864,
     sample 30001 87769 178115 287858 0 0 32651 33318]"

definition no_ack :: jsv where
  "no_ack = Obj
    [(''avg-latency'', Num (rnd 163089)),
     (''recv-bytes-rate'', Num (rnd 0)),
     (''send-bytes-rate'', Num (rnd 0)),
     (''samples'', Arr (no_ack_a @ no_ack_b)),
     (''recv-msg-rate'', Num (rnd (3519849236567824 / 100000000000))),
     (''send-msg-rate'', Num (rnd (3507692011845698 / 100000000000)))]"

definition consume_a :: "jsv list" where
  "consume_a =
    [sample 1000 10831 344109 481147 0 0 25525 41555,
     sample 2000 324270 581294 919427 0 0 81015 27456,
     sample 3000 246027 598325 938770 0 0 75234 50251,
     sample 4000 292759 694935 1089207 0 0 67955 31238,
     sample 5000 313928 654321 1126474 0 0 79555 39791,
     sample 6000 246833 612579 938298 0 0 80401 41569,
     sample 7000 242977 629671 964884 0 0 79009 35413,
     sample 8000 250176 599386 1021228 0 0 79863 43034,
     sample 9000 262995 683879 1041201 0 0 77430 38390,
     sample 10000 282887 691081 1017910 0 0 78824 38850,
     sample 11000 355605 677808 998448 0 0 78293 45018,
     sample 12000 287187 687659 1021045 0 0 79616 36488,
     sample 13000 322292 708035 1070177 0 0 74658 33796,
     sample 14000 296134 681037 1048146 0 0 83257 46015,
     sample 15000 316970 667661 982125 0 0 83616 40711]"

definition consume_b :: "jsv list" where
  "consume_b =
    [sample 16000 310096 679488 942568 0 0 83500 39742,
     sample 17000 296791 646707 956717 0 0 85757 45611,
     sample 18000 280591 646240 942572 0 0 82238 45450,
     sample 19000 304554 670038 989710 0 0 86908 37845,
     sample 20000 280710 642280 974080 0 0 83287 44878,
     sample 21000 293631 675358 948192 0 0 86142 37921,
     sample 22000 305420 648977 960673 0 0 84312 46571,
     sample 23000 372320 688279 968367 0 0 80490 40749,
     sample 24000 291480 690524 1002563 0 0 83222 43503,
     sample 25000 310363 726413 1091691 0 0 72869 32517,
     sample 26000 294528 698197 1138198 0 0 84989 41704,
     sample 27000 398793 676291 915914 0 0 84658 44312,
     sample 28000 289413 694085 967861 0 0 76494 37440,
     sample 29000 324074 729880 1031508 0 0 81350 40867,
     sample 30000 306803 700724 983123 0 0 78822 40553]"

definition consume :: jsv where
  "consume = Obj
    [(''avg-latency'', Num (rnd 673031)),
     (''recv-bytes-rate'', Num (rnd 0)),
     (''send-bytes-rate'', Num (rnd 0)),
     (''samples'', Arr (consume_a @ consume_b)),
     (''recv-msg-rate'', Num (rnd (8177303846153847 / 100000000000))),
     (''send-msg-rate'', Num (rnd (40820692307692305 / 1000000000000)))]"

definition publish_consume_result :: jsv where
  "publish_consume_result = Obj [(''consume'', consume)]"

end
