(* ===== verification/Data_Rate_Latency.thy ===== *)
theory Data_Rate_Latency
  imports Result_Data
begin

text \<open>
  The scenario \<open>rate-vs-latency\<close> of \<open>html/examples/various-result.js\<close>: a run for each
  attempted producer rate, in the order of the file.
\<close>

definition rate_30007_a :: "jsv list" where
  "rate_30007_a =
    [sample 1000 188 966 3535 0 0 29641 29677,
     sample 2000 175 1017 3418 0 0 29994 30007,
     sample 3000 184 992 2761 0 0 30026 29978,
     sample 4000 184 1058 5342 0 0 30007 30007,
     sample 5000 183 971 3124 0 0 30008 30036,
     sample 6000 162 971 2784 0 0 29987 30007,
     sample 7000 184 992 4243 0 0 30027 30007,
     sample 8000 172 964 3140 0 0 30006 29996,
     sample 9000 188 1006 3801 0 0 30000 30007,
     sample 10000 171 954 2906 0 0 30015 30018,
     sample 11000 185 934 2661 0 0 29989 30007,
     sample 12000 172 988 2897 0 0 30024 29981,
     sample 13000 161 944 2331 0 0 30008 30033,
     sample 14000 178 1053 5443 0 0 30002 29979,
     sample 15000 170 977 3223 0 0 29992 30035]"

definition rate_30007_b :: "jsv list" where
  "rate_30007_b =
    [sample 16000 184 960 3236 0 0 30031 30007,
     sample 17000 182 976 3430 0 0 30002 29978,
     sample 18000 188 958 2648 0 0 30010 30036,
     sample 19000 175 967 3094 0 0 30004 29983,
     sample 20000 184 942 2735 0 0 30007 30002,
     sample 21000 186 981 3596 0 0 30018 30036,
     sample 22000 195 983 3009 0 0 29996 29983,
     sample 23000 187 991 3738 0 0 29997 30031,
     sample 24000 189 1007 6260 0 0 30017 29978,
     sample 25000 180 993 2762 0 0 29979 30036,
     sample 26000 192 932 3146 0 0 30030 30007,
     sample 27000 181 1001 3161 0 0 29994 29977,
     sample 28000 169 954 2867 0 0 30029 30037,
     sample 29000 187 980 3408 0 0 30003 30004,
     sample 30000 180 971 2825 0 0 30008 30010]"

definition rate_30007 :: jsv where
  "rate_30007 = Obj
    [(''avg-latency'', Num (rnd 975)),
     (''recv-bytes-rate'', Num (rnd 0)),
     (''send-bytes-rate'', Num (rnd 0)),
     (''samples'', Arr (rate_30007_a @ rate_30007_b)),
     (''recv-msg-rate'', Num (rnd (30020884615384617 / 1000000000000))),
     (''send-msg-rate'', Num (rnd (30020846153846152 / 1000000000000)))]"

definition rate_32850_a :: "jsv list" where
  "rate_32850_a =
    [sample 1000 211 2035 5901 0 0 32437 32467,
     sample 2000 275 9256 19325 0 0 32504 32872,
     sample 3000 9225 15982 22077 0 0 32712 32824,
     sample 4000 11077 23051 45526 0 0 32022 32876,
     sample 5000 40828 61676 95915 0 0 31159 32850,
     sample 6000 90146 108380 127828 0 0 31703 32843,
     sample 7000 127338 151060 162826 0 0 31841 32857,
     sample 8000 136451 174569 190589 0 0 32038 32800,
     sample 9000 103988 177886 207213 0 0 32238 30851,
     sample 10000 81570 178966 253136 0 0 31233 33561,
     sample 11000 83737 176414 271170 0 0 32668 30408,
     sample 12000 87296 176857 272755 0 0 31734 33315,
     sample 13000 92059 186497 288152 0 0 31575 33319,
     sample 14000 85763 172998 278270 0 0 32221 30407,
     sample 15000 86963 177292 266062 0 0 32612 33318]"

definition rate_32850_b :: "jsv list" where
  "rate_32850_b =
    [sample 16000 84505 174437 271332 0 0 32800 30410,
     sample 17000 87957 174823 285490 0 0 32232 35420,
     sample 18000 87032 174143 277695 0 0 32277 33319,
     sample 19000 91868 181499 287762 0 0 31560 26404,
     sample 20000 85778 178003 279643 0 0 31779 33408,
     sample 21000 94744 183757 278068 0 0 32752 31466,
     sample 22000 86172 176731 270146 0 0 32687 33992,
     sample 23000 80933 172952 257140 0 0 33196 36301,
     sample 24000 89842 187676 281157 0 0 31574 31580,
     sample 25000 91414 176198 263435 0 0 32724 30040,
     sample 26000 87888 181127 278762 0 0 32105 33318,
     sample 27000 88622 181069 272912 0 0 32375 33316,
     sample 28000 83511 171561 264075 0 0 33130 31862,
     sample 29000 86526 179707 269590 0 0 33009 31213,
     sample 30000 84604 169571 269855 0 0 33159 32242]"

definition rate_32850 :: jsv where
  "rate_32850 = Obj
    [(''avg-latency'', Num (rnd 169560)),
     (''recv-bytes-rate'', Num (rnd 0)),
     (''send-bytes-rate'', Num (rnd 0)),
     (''samples'', Arr (rate_32850_a @ rate_32850_b)),
     (''recv-msg-rate'', Num (rnd (32422653846153848 / 1000000000000))),
     (''send-msg-rate'', Num (rnd (3237019230769231 / 100000000000)))]"

definition rate_30639_a :: "jsv list" where
  "rate_30639_a =
    [sample 1000 174 982 3277 0 0 30353 30394,
     sample 2000 183 969 3022 0 0 30621 30639,
     sample 3000 193 1017 2806 0 0 30681 30639,
     sample 4000 191 1425 9079 0 0 30611 30639,
     sample 5000 190 1066 3220 0 0 30640 30639,
     sample 6000 190 1150 2990 0 0 30633 30639,
     sample 7000 200 1067 2856 0 0 30631 30612,
     sample 8000 189 1050 2964 0 0 30655 30659,
     sample 9000 190 1201 5774 0 0 30657 30646,
     sample 10000 182 1147 3922 0 0 30622 30639,
     sample 11000 197 1282 4578 0 0 30636 30639,
     sample 12000 207 1539 7385 0 0 30623 30639,
     sample 13000 173 1222 4283 0 0 30640 30636,
     sample 14000 213 2966 9593 0 0 30601 30642,
     sample 15000 207 2217 12341 0 0 30383 30639]"

definition rate_30639_b :: "jsv list" where
  "rate_30639_b =
    [sample 16000 6011 15197 28719 0 0 30116 30639,
     sample 17000 23397 38611 50920 0 0 30007 30639,
     sample 18000 44067 48345 52082 0 0 30741 30609,
     sample 19000 279 23360 46544 0 0 32015 30653,
     sample 20000 183 1242 4184 0 0 30639 30626,
     sample 21000 187 1069 4906 0 0 30639 30639,
     sample 22000 182 1050 3296 0 0 30650 30668,
     sample 23000 186 1032 3416 0 0 30628 30612,
     sample 24000 177 1013 3541 0 0 30639 30637,
     sample 25000 183 1056 3866 0 0 30651 30668,
     sample 26000 204 4524 16411 0 0 30235 30639,
     sample 27000 235 9966 22600 0 0 30384 30610,
     sample 28000 19225 36066 71067 0 0 29162 30649,
     sample 29000 66210 88368 119375 0 0 29151 30658,
     sample 30000 118011 140242 168129 0 0 29152 30614]"

definition rate_30639 :: jsv where
  "rate_30639 = Obj
    [(''avg-latency'', Num (rnd 17039)),
     (''recv-bytes-rate'', Num (rnd 0)),
     (''send-bytes-rate'', Num (rnd 0)),
     (''samples'', Arr (rate_30639_a @ rate_30639_b)),
     (''recv-msg-rate'', Num (rnd (3065019230769231 / 100000000000))),
     (''send-msg-rate'', Num (rnd (3064846153846154 / 100000000000)))]"

definition rate_32534_a :: "jsv list" where
  "rate_32534_a =
    [sample 1000 277 13564 28566 0 0 31372 32145,
     sample 2000 21991 35026 58399 0 0 31484 32566,
     sample 3000 56364 92336 113541 0 0 30711 32534,
     sample 4000 112676 132743 148159 0 0 31444 32534,
     sample 5000 102368 168825 194698 0 0 30909 32501,
     sample 6000 83640 180550 214922 0 0 32111 29602,
     sample 7000 90202 174256 236905 0 0 31904 32104,
     sample 8000 82583 169090 243159 0 0 32229 33062,
     sample 9000 86151 180280 261157 0 0 32185 30353,
     sample 10000 84145 180135 280862 0 0 31687 33318,
     sample 11000 92879 186701 282197 0 0 30835 31860,
     sample 12000 87137 181086 275539 0 0 31455 30410,
     sample 13000 92375 179041 273053 0 0 31968 33318,
     sample 14000 81453 171477 263171 0 0 32648 31863,
     sample 15000 82906 181109 280445 0 0 31897 33316]"

definition rate_32534_b :: "jsv list" where
  "rate_32534_b =
    [sample 16000 84371 185574 278537 0 0 31827 33315,
     sample 17000 89222 177977 280193 0 0 31212 30085,
     sample 18000 89810 179141 282816 0 0 32053 29927,
     sample 19000 84171 170183 278486 0 0 32666 31859,
     sample 20000 88601 184930 283072 0 0 32130 32966,
     sample 21000 80947 174251 269141 0 0 32820 32219,
     sample 22000 85215 184657 278435 0 0 32594 31134,
     sample 23000 89447 180723 274840 0 0 31870 33461,
     sample 24000 88525 170145 268033 0 0 32388 32147,
     sample 25000 87126 191171 285564 0 0 30970 30855,
     sample 26000 84071 176227 274153 0 0 33693 33317,
     sample 27000 86867 170593 259885 0 0 33035 34191,
     sample 28000 79702 170895 301101 0 0 31618 31638,
     sample 29000 90240 190766 308892 0 0 30496 31949,
     sample 30000 85020 179696 275361 0 0 31471 31723]"

definition rate_32534 :: jsv where
  "rate_32534 = Obj
    [(''avg-latency'', Num (rnd 178531)),
     (''recv-bytes-rate'', Num (rnd 0)),
     (''send-bytes-rate'', Num (rnd 0)),
     (''samples'', Arr (rate_32534_a @ rate_32534_b)),
     (''recv-msg-rate'', Num (rnd (32229653846153848 / 1000000000000))),
     (''send-msg-rate'', Num (rnd (3204626923076923 / 100000000000)))]"

definition rate_12634_a :: "jsv list" where
  "rate_12634_a =
    [sample 1000 244 737 2845 0 0 12471 12483,
     sample 2000 256 672 1552 0 0 12622 12634,
     sample 3000 238 693 2271 0 0 12658 12635,
     sample 4000 201 709 2575 0 0 12622 12633,
     sample 5000 258 692 2332 0 0 12646 12635,
     sample 6000 221 696 1970 0 0 12621 12621,
     sample 7000 235 694 3446 0 0 12635 12646,
     sample 8000 240 673 2355 0 0 12634 12634,
     sample 9000 198 699 1795 0 0 12634 12634,
     sample 10000 233 720 1605 0 0 12634 12634,
     sample 11000 237 721 2134 0 0 12633 12622,
     sample 12000 219 718 2016 0 0 12623 12646,
     sample 13000 183 730 1577 0 0 12646 12634,
     sample 14000 208 695 1620 0 0 12626 12634,
     sample 15000 210 708 1586 0 0 12654 12635]"

definition rate_12634_b :: "jsv list" where
  "rate_12634_b =
    [sample 16000 220 704 2021 0 0 12634 12634,
     sample 17000 213 704 1791 0 0 12626 12633,
     sample 18000 248 712 1789 0 0 12642 12635,
     sample 19000 201 737 1655 0 0 12621 12621,
     sample 20000 219 700 2102 0 0 12634 12634,
     sample 21000 229 679 2172 0 0 12644 12646,
     sample 22000 244 720 3643 0 0 12613 12634,
     sample 23000 239 697 2644 0 0 12658 12635,
     sample 24000 224 674 2331 0 0 12622 12633,
     sample 25000 247 700 3130 0 0 12634 12634,
     sample 26000 232 705 2268 0 0 12622 12634,
     sample 27000 200 677 2436 0 0 12658 12635,
     sample 28000 257 702 1573 0 0 12621 12621,
     sample 29000 219 712 1602 0 0 12634 12634,
     sample 30000 211 701 1564 0 0 12634 12646]"

definition rate_12634 :: jsv where
  "rate_12634 = Obj
    [(''avg-latency'', Num (rnd 703)),
     (''recv-bytes-rate'', Num (rnd 0)),
     (''send-bytes-rate'', Num (rnd 0)),
     (''samples'', Arr (rate_12634_a @ rate_12634_b)),
     (''recv-msg-rate'', Num (rnd (12640307692307691 / 1000000000000))),
     (''send-msg-rate'', Num (rnd (12639846153846154 / 1000000000000)))]"

definition rate_32218_a :: "jsv list" where
  "rate_32218_a =
    [sample 1000 195 1552 5627 0 0 31783 31930,
     sample 2000 192 1779 6865 0 0 32319 32249,
     sample 3000 196 1571 7651 0 0 32092 32186,
     sample 4000 201 2390 8220 0 0 32389 32230,
     sample 5000 181 1422 4775 0 0 32213 32238,
     sample 6000 201 1654 5105 0 0 32223 32210,
     sample 7000 201 10938 25658 0 0 31486 32226,
     sample 8000 22373 35714 43522 0 0 31780 32190,
     sample 9000 31847 58361 94583 0 0 30387 32217,
     sample 10000 93491 105079 125751 0 0 31212 32232,
     sample 11000 124369 142648 150811 0 0 31898 32213,
     sample 12000 122189 140879 161332 0 0 31511 32238,
     sample 13000 120886 138676 169854 0 0 31811 32218,
     sample 14000 99368 193588 300818 0 0 27844 28813,
     sample 15000 103539 218648 349099 0 0 25634 26100]"

definition rate_32218_b :: "jsv list" where
  "rate_32218_b =
    [sample 16000 103191 216245 329444 0 0 25867 25349,
     sample 17000 103672 197341 316820 0 0 27755 28774,
     sample 18000 100630 197694 318539 0 0 28510 26039,
     sample 19000 95630 194549 291958 0 0 31150 31214,
     sample 20000 86821 186120 293718 0 0 30962 33318,
     sample 21000 92488 177088 274380 0 0 31936 31863,
     sample 22000 88293 174275 274637 0 0 32600 30711,
     sample 23000 82286 170892 257538 0 0 33612 34336,
     sample 24000 91767 174923 271499 0 0 33154 33450,
     sample 25000 87568 178607 274804 0 0 32744 33316,
     sample 26000 87386 176457 266131 0 0 32742 31863,
     sample 27000 90439 185987 284233 0 0 30675 32168,
     sample 28000 87832 176684 270738 0 0 32032 33011,
     sample 29000 89689 182095 275521 0 0 32372 31213,
     sample 30000 90494 181814 278200 0 0 32081 30407]"

definition rate_32218 :: jsv where
  "rate_32218 = Obj
    [(''avg-latency'', Num (rnd 145566)),
     (''recv-bytes-rate'', Num (rnd 0)),
     (''send-bytes-rate'', Num (rnd 0)),
     (''samples'', Arr (rate_32218_a @ rate_32218_b)),
     (''recv-msg-rate'', Num (rnd (3122846153846154 / 100000000000))),
     (''send-msg-rate'', Num (rnd 31228))]"

definition rate_315_a :: "jsv list" where
  "rate_315_a =
    [sample 1002 213 492 1419 0 0 (3083832335329341 / 10000000000000) (3093812375249501 / 10000000000000),
     sample 2002 212 529 763 0 0 315 315,
     sample 3002 249 557 770 0 0 315 315,
     sample 4006 238 552 777 0 0 (3147410358565737 / 10000000000000) (3147410358565737 / 10000000000000),
     sample 5006 229 520 787 0 0 315 315,
     sample 6006 208 439 708 0 0 315 315,
     sample 7006 218 526 808 0 0 316 315,
     sample 8006 238 530 779 0 0 314 315,
     sample 9006 229 530 815 0 0 315 315,
     sample 10006 215 534 789 0 0 315 315,
     sample 11006 202 508 1290 0 0 315 315,
     sample 12006 232 488 761 0 0 316 315,
     sample 13006 251 543 769 0 0 314 315,
     sample 14008 232 520 1306 0 0 (3153692614770459 / 10000000000000) (3153692614770459 / 10000000000000),
     sample 15008 228 524 739 0 0 315 315]"

definition rate_315_b :: "jsv list" where
  "rate_315_b =
    [sample 16008 232 493 1421 0 0 315 315,
     sample 17008 215 497 702 0 0 315 315,
     sample 18009 231 541 789 0 0 (31468531468531467 / 100000000000000) (31468531468531467 / 100000000000000),
     sample 19009 267 523 778 0 0 315 315,
     sample 20009 232 535 740 0 0 316 315,
     sample 21009 229 496 1174 0 0 314 315,
     sample 22009 212 536 711 0 0 316 315,
     sample 23009 249 545 810 0 0 315 315,
     sample 24009 283 547 895 0 0 314 315,
     sample 25011 237 535 898 0 0 (3153692614770459 / 10000000000000) (3153692614770459 / 10000000000000),
     sample 26012 198 536 1581 0 0 (31468531468531467 / 100000000000000) (31468531468531467 / 100000000000000),
     sample 27012 224 528 1262 0 0 315 315,
     sample 28012 246 558 772 0 0 316 315,
     sample 29014 313 568 769 0 0 (31437125748502996 / 100000000000000) (3153692614770459 / 10000000000000),
     sample 30015 208 535 795 0 0 (31468531468531467 / 100000000000000) (31468531468531467 / 100000000000000)]"

definition rate_315 :: jsv where
  "rate_315 = Obj
    [(''avg-latency'', Num (rnd 524)),
     (''recv-bytes-rate'', Num (rnd 0)),
     (''send-bytes-rate'', Num (rnd 0)),
     (''samples'', Arr (rate_315_a @ rate_315_b)),
     (''recv-msg-rate'', Num (rnd (3151216886462378 / 10000000000000))),
     (''send-msg-rate'', Num (rnd (31508324041677884 / 100000000000000)))]"

definition rate_28428_a :: "jsv list" where
  "rate_28428_a =
    [sample 1000 196 918 3207 0 0 28100 28116,
     sample 2000 180 937 3466 0 0 28412 28428,
     sample 3000 188 942 3091 0 0 28436 28428,
     sample 4000 179 940 2484 0 0 28417 28428,
     sample 5000 191 926 2781 0 0 28407 28428,
     sample 6000 185 922 3196 0 0 28455 28420,
     sample 7000 195 964 3899 0 0 28408 28436,
     sample 8000 176 924 2778 0 0 28449 28428,
     sample 9000 185 945 3127 0 0 28427 28400,
     sample 10000 189 896 2542 0 0 28429 28456,
     sample 11000 163 923 3159 0 0 28427 28402,
     sample 12000 194 924 2617 0 0 28428 28454,
     sample 13000 190 897 2700 0 0 28416 28428,
     sample 14000 183 954 4176 0 0 28440 28402,
     sample 15000 182 896 3138 0 0 28429 28454]"

definition rate_28428_b :: "jsv list" where
  "rate_28428_b =
    [sample 16000 205 941 3026 0 0 28427 28407,
     sample 17000 196 947 2858 0 0 28401 28449,
     sample 18000 204 928 2781 0 0 28455 28410,
     sample 19000 192 939 3087 0 0 28431 28446,
     sample 20000 186 914 3034 0 0 28426 28428,
     sample 21000 201 920 3321 0 0 28411 28428,
     sample 22000 183 905 2479 0 0 28444 28425,
     sample 23000 188 958 4232 0 0 28428 28409,
     sample 24000 188 1626 18842 0 0 28419 28442,
     sample 25000 176 907 2688 0 0 28403 28436,
     sample 26000 180 938 4701 0 0 28435 28428,
     sample 27000 179 919 3198 0 0 28455 28427,
     sample 28000 169 912 2879 0 0 28417 28429,
     sample 29000 181 950 3791 0 0 28412 28428,
     sample 30000 195 912 2777 0 0 28461 28428]"

definition rate_28428 :: jsv where
  "rate_28428 = Obj
    [(''avg-latency'', Num (rnd 954)),
     (''recv-bytes-rate'', Num (rnd 0)),
     (''send-bytes-rate'', Num (rnd 0)),
     (''samples'', Arr (rate_28428_a @ rate_28428_b)),
     (''recv-msg-rate'', Num (rnd (28441384615384617 / 1000000000000))),
     (''send-msg-rate'', Num (rnd (2844003846153846 / 100000000000)))]"

definition rate_18952_a :: "jsv list" where
  "rate_18952_a =
    [sample 1000 214 767 2835 0 0 18763 18764,
     sample 2000 196 761 2053 0 0 18942 18951,
     sample 3000 243 754 1917 0 0 18925 18952,
     sample 4000 196 743 2075 0 0 18976 18952,
     sample 5000 233 787 2993 0 0 18946 18940,
     sample 6000 194 765 2776 0 0 18952 18946,
     sample 7000 194 755 1837 0 0 18952 18952,
     sample 8000 219 763 2717 0 0 18963 18970,
     sample 9000 242 767 2065 0 0 18944 18952,
     sample 10000 213 751 2002 0 0 18950 18952,
     sample 11000 187 746 1578 0 0 18949 18952,
     sample 12000 263 765 3838 0 0 18954 18934,
     sample 13000 184 758 2768 0 0 18950 18970,
     sample 14000 228 752 1762 0 0 18946 18952,
     sample 15000 185 778 1972 0 0 18960 18934]"

definition rate_18952_b :: "jsv list" where
  "rate_18952_b =
    [sample 16000 201 773 3043 0 0 18952 18952,
     sample 17000 215 772 1947 0 0 18953 18970,
     sample 18000 217 748 2778 0 0 18951 18934,
     sample 19000 219 751 1824 0 0 18953 18970,
     sample 20000 201 740 1637 0 0 18952 18952,
     sample 21000 198 749 2046 0 0 18967 18952,
     sample 22000 189 752 2069 0 0 18936 18942,
     sample 23000 207 751 1862 0 0 18955 18962,
     sample 24000 165 747 2939 0 0 18931 18952,
     sample 25000 188 752 2485 0 0 18951 18953,
     sample 26000 199 757 2437 0 0 18970 18951,
     sample 27000 215 837 10763 0 0 18953 18942,
     sample 28000 238 753 2033 0 0 18952 18944,
     sample 29000 203 783 2160 0 0 18952 18952,
     sample 30000 197 749 2155 0 0 18952 18952]"

definition rate_18952 :: jsv where
  "rate_18952 = Obj
    [(''avg-latency'', Num (rnd 762)),
     (''recv-bytes-rate'', Num (rnd 0)),
     (''send-bytes-rate'', Num (rnd 0)),
     (''samples'', Arr (rate_18952_a @ rate_18952_b)),
     (''recv-msg-rate'', Num (rnd (18959115384615383 / 1000000000000))),
     (''send-msg-rate'', Num (rnd (18958615384615383 / 1000000000000)))]"

definition rate_33166_a :: "jsv list" where
  "rate_33166_a =
    [sample 1000 287 34822 61834 0 0 30785 32740,
     sample 2000 59364 95125 124090 0 0 31157 33195,
     sample 3000 114956 165080 212847 0 0 30463 29413,
     sample 4000 82556 171307 231436 0 0 32295 33558,
     sample 5000 81245 169493 238276 0 0 33991 34488,
     sample 6000 83690 169825 222845 0 0 32902 32156,
     sample 7000 84040 171528 221503 0 0 33218 33311,
     sample 8000 83606 175047 230100 0 0 32491 33315,
     sample 9000 82857 178438 255812 0 0 32592 31865,
     sample 10000 85311 169416 247997 0 0 33858 32857,
     sample 11000 84501 174943 246478 0 0 33040 32427,
     sample 12000 86644 177385 252557 0 0 32796 33215,
     sample 13000 89607 179078 272715 0 0 31811 34252,
     sample 14000 81218 182172 264830 0 0 32831 34021,
     sample 15000 81308 165037 263775 0 0 33282 33135]"

definition rate_33166_b :: "jsv list" where
  "rate_33166_b =
    [sample 16000 79233 167333 269964 0 0 33568 35421,
     sample 17000 83691 169487 271998 0 0 33706 33966,
     sample 18000 80666 172476 255761 0 0 33235 31864,
     sample 19000 84933 175595 263274 0 0 32992 33967,
     sample 20000 84432 168814 267601 0 0 33286 31863,
     sample 21000 83121 171583 269201 0 0 33508 35060,
     sample 22000 79555 170184 267069 0 0 32510 32224,
     sample 23000 84698 173602 271234 0 0 33186 30744,
     sample 24000 87618 178275 273715 0 0 32524 33205,
     sample 25000 83504 163752 259039 0 0 34153 32010,
     sample 26000 79923 172635 255429 0 0 33285 35630,
     sample 27000 79299 165677 266235 0 0 34297 35183,
     sample 28000 88326 169220 239967 0 0 32549 32973,
     sample 29000 91619 179133 267418 0 0 32388 29757,
     sample 30000 92387 180889 282687 0 0 32187 30408]"

definition rate_33166 :: jsv where
  "rate_33166 = Obj
    [(''avg-latency'', Num (rnd 172748)),
     (''recv-bytes-rate'', Num (rnd 0)),
     (''send-bytes-rate'', Num (rnd 0)),
     (''samples'', Arr (rate_33166_a @ rate_33166_b)),
     (''recv-msg-rate'', Num (rnd (3321246153846154 / 100000000000))),
     (''send-msg-rate'', Num (rnd (33050692307692305 / 1000000000000)))]"

definition rate_6317_a :: "jsv list" where
  "rate_6317_a =
    [sample 1000 254 700 2743 0 0 6255 6261,
     sample 2000 318 729 1414 0 0 6317 6317,
     sample 3000 352 772 1688 0 0 6316 6311,
     sample 4000 248 713 1511 0 0 6312 6323,
     sample 5000 298 735 1553 0 0 6323 6317,
     sample 6000 242 719 1857 0 0 6317 6317,
     sample 7000 296 733 1478 0 0 6316 6311,
     sample 8000 250 749 1572 0 0 6317 6318,
     sample 9000 347 774 1632 0 0 6318 6322,
     sample 10000 193 760 1792 0 0 6316 6311,
     sample 11000 259 734 1688 0 0 6312 6323,
     sample 12000 356 776 1382 0 0 6323 6317,
     sample 13000 373 773 1667 0 0 6317 6317,
     sample 14000 320 775 1574 0 0 6311 6317,
     sample 15000 347 758 1254 0 0 6329 6318]"

definition rate_6317_b :: "jsv list" where
  "rate_6317_b =
    [sample 16000 283 765 1438 0 0 6317 6317,
     sample 17000 359 765 2005 0 0 6317 6317,
     sample 18000 346 770 1496 0 0 6310 6310,
     sample 19000 344 783 1500 0 0 6318 6323,
     sample 20000 262 763 1617 0 0 6323 6318,
     sample 21000 292 770 1832 0 0 6317 6317,
     sample 22000 355 749 1230 0 0 6311 6316,
     sample 23000 378 778 1695 0 0 6317 6317,
     sample 24000 354 780 1371 0 0 6317 6317,
     sample 25000 337 765 1743 0 0 6311 6317,
     sample 26000 225 769 1643 0 0 6323 6317,
     sample 27000 339 745 1596 0 0 6317 6317,
     sample 28000 251 746 1488 0 0 6317 6317,
     sample 29000 340 714 1686 0 0 6316 6311,
     sample 30000 285 705 1704 0 0 6318 6323]"

definition rate_6317 :: jsv where
  "rate_6317 = Obj
    [(''avg-latency'', Num (rnd 756)),
     (''recv-bytes-rate'', Num (rnd 0)),
     (''send-bytes-rate'', Num (rnd 0)),
     (''samples'', Arr (rate_6317_a @ rate_6317_b)),
     (''recv-msg-rate'', Num (rnd (6319653846153846 / 1000000000000))),
     (''send-msg-rate'', Num (rnd (6319192307692308 / 1000000000000)))]"

definition rate_30955_a :: "jsv list" where
  "rate_30955_a =
    [sample 1000 2762 31087 68655 0 0 28627 30663,
     sample 2000 61057 108077 192674 0 0 27044 30451,
     sample 3000 95876 186186 247054 0 0 29398 30265,
     sample 4000 87160 177475 249098 0 0 31334 30602,
     sample 5000 97328 185184 232104 0 0 31547 31522,
     sample 6000 112625 169222 214085 0 0 32372 31924,
     sample 7000 85536 132541 166248 0 0 33368 30958,
     sample 8000 196 40115 88415 0 0 33597 30971,
     sample 9000 202 1254 6929 0 0 30969 30961,
     sample 10000 193 1111 4381 0 0 30941 30955,
     sample 11000 184 1040 3368 0 0 30985 30955,
     sample 12000 168 1146 3995 0 0 30969 30933,
     sample 13000 193 1407 8097 0 0 30903 30977,
     sample 14000 198 1310 3804 0 0 31006 30924,
     sample 15000 193 1259 4107 0 0 30884 30956]"

definition rate_30955_b :: "jsv list" where
  "rate_30955_b =
    [sample 16000 170 1148 4328 0 0 31016 30985,
     sample 17000 198 1336 4671 0 0 30966 30925,
     sample 18000 182 1544 6152 0 0 30912 30985,
     sample 19000 260 14288 38514 0 0 29841 30931,
     sample 20000 37665 83055 124582 0 0 28288 30979,
     sample 21000 123998 160191 195649 0 0 28811 30955,
     sample 22000 91289 187410 236003 0 0 29533 28801,
     sample 23000 84831 185784 252843 0 0 31177 33109,
     sample 24000 91004 179167 230740 0 0 32211 30953,
     sample 25000 128399 161293 193250 0 0 32877 30948,
     sample 26000 51322 88384 130054 0 0 33296 30952,
     sample 27000 22868 46986 66138 0 0 31896 30941,
     sample 28000 205 10597 25025 0 0 31637 30955,
     sample 29000 205 5529 21061 0 0 30358 30981,
     sample 30000 19258 57016 105318 0 0 28357 30955]"

definition rate_30955 :: jsv where
  "rate_30955 = Obj
    [(''avg-latency'', Num (rnd 66728)),
     (''recv-bytes-rate'', Num (rnd 0)),
     (''send-bytes-rate'', Num (rnd 0)),
     (''samples'', Arr (rate_30955_a @ rate_30955_b)),
     (''recv-msg-rate'', Num (rnd (3124030769230769 / 100000000000))),
     (''send-msg-rate'', Num (rnd (3102576923076923 / 100000000000)))]"

definition rate_31587_a :: "jsv list" where
  "rate_31587_a =
    [sample 1000 1485 64319 120746 0 0 27486 31272,
     sample 2000 119253 168366 230248 0 0 27910 31371,
     sample 3000 91844 181783 282454 0 0 29113 28143,
     sample 4000 92909 202251 298416 0 0 29676 31213,
     sample 5000 86613 180391 282399 0 0 30945 28782,
     sample 6000 88454 184581 274946 0 0 32835 31352,
     sample 7000 84054 174811 278578 0 0 32061 33966,
     sample 8000 93461 187549 276171 0 0 31592 32270,
     sample 9000 89041 175507 278475 0 0 31950 30830,
     sample 10000 87020 172297 259676 0 0 33533 31863,
     sample 11000 80889 167192 249104 0 0 34033 36080,
     sample 12000 122248 161269 192907 0 0 33025 31555,
     sample 13000 115109 129838 144560 0 0 31782 31619,
     sample 14000 126546 157379 203919 0 0 29585 29435,
     sample 15000 86429 181355 240041 0 0 30836 30407]"

definition rate_31587_b :: "jsv list" where
  "rate_31587_b =
    [sample 16000 87484 184287 245367 0 0 31243 31896,
     sample 17000 83979 179829 244928 0 0 33197 34610,
     sample 18001 139090 165187 185987 0 0 (3296603396603397 / 100000000000) (31528471528471528 / 1000000000000),
     sample 19001 79274 112743 144511 0 0 33491 31617,
     sample 20001 6104 46738 82062 0 0 33907 31615,
     sample 21001 182 2055 10400 0 0 31538 31564,
     sample 22001 195 3011 9915 0 0 31767 31595,
     sample 23001 210 1878 6357 0 0 31582 31602,
     sample 24001 188 1453 5094 0 0 31688 31587,
     sample 25001 189 1213 3851 0 0 31576 31587,
     sample 26001 196 1209 4406 0 0 31591 31587,
     sample 27001 193 1459 6579 0 0 31593 31557,
     sample 28001 200 1495 5591 0 0 31576 31617,
     sample 29001 199 2054 8370 0 0 31437 31587,
     sample 30001 210 1702 6744 0 0 31719 31564]"

definition rate_31587 :: jsv where
  "rate_31587 = Obj
    [(''avg-latency'', Num (rnd 99640)),
     (''recv-bytes-rate'', Num (rnd 0)),
     (''send-bytes-rate'', Num (rnd 0)),
     (''samples'', Arr (rate_31587_a @ rate_31587_b)),
     (''recv-msg-rate'', Num (rnd (32053613322564517 / 1000000000000))),
     (''send-msg-rate'', Num (rnd (31753086419753086 / 1000000000000)))]"

definition rate_31271_a :: "jsv list" where
  "rate_31271_a =
    [sample 1000 1775 49104 91917 0 0 28059 30865,
     sample 2000 90229 145584 194655 0 0 28040 31302,
     sample 3000 90896 177991 226139 0 0 30230 29258,
     sample 4000 95460 193328 280402 0 0 29840 31260,
     sample 5000 87857 185284 269829 0 0 32101 31214,
     sample 6000 85751 182025 268355 0 0 30910 31339,
     sample 7000 91009 182160 267585 0 0 31770 30275,
     sample 8000 87363 167711 248188 0 0 33022 34249,
     sample 9000 115255 152413 186723 0 0 33463 31286,
     sample 10000 44637 86411 120209 0 0 33463 31287,
     sample 11000 6241 22316 46677 0 0 32460 31271,
     sample 12000 3707 12499 25183 0 0 30814 31271,
     sample 13000 17022 21452 27468 0 0 31327 31271,
     sample 14000 212 10960 24276 0 0 31801 31271,
     sample 15000 202 2928 10778 0 0 31215 31271]"

definition rate_31271_b :: "jsv list" where
  "rate_31271_b =
    [sample 16000 189 1595 7258 0 0 31402 31241,
     sample 17000 183 2283 11781 0 0 31237 31296,
     sample 18000 195 1368 4998 0 0 31319 31276,
     sample 19000 189 1318 4192 0 0 31255 31271,
     sample 20000 186 1281 5319 0 0 31276 31263,
     sample 21000 196 1176 3935 0 0 31252 31279,
     sample 22000 188 1440 7194 0 0 31265 31270,
     sample 23000 188 1315 4882 0 0 31276 31272,
     sample 24000 197 1462 5495 0 0 31275 31271,
     sample 25000 194 1533 5600 0 0 31276 31271,
     sample 26000 209 10040 34968 0 0 30245 31251,
     sample 27000 33644 102009 159663 0 0 27351 31291,
     sample 28000 109940 192142 273062 0 0 26767 26561,
     sample 29000 162116 250894 358596 0 0 24476 27028,
     sample 30000 94752 215854 332366 0 0 27584 28118]"

definition rate_31271 :: jsv where
  "rate_31271 = Obj
    [(''avg-latency'', Num (rnd 68680)),
     (''recv-bytes-rate'', Num (rnd 0)),
     (''send-bytes-rate'', Num (rnd 0)),
     (''samples'', Arr (rate_31271_a @ rate_31271_b)),
     (''recv-msg-rate'', Num (rnd (31133884615384617 / 1000000000000))),
     (''send-msg-rate'', Num (rnd (3088326923076923 / 100000000000)))]"

definition rate_30323_a :: "jsv list" where
  "rate_30323_a =
    [sample 1000 177 983 3602 0 0 30058 30080,
     sample 2000 181 957 3120 0 0 30305 30324,
     sample 3000 179 1000 3132 0 0 30292 30283,
     sample 4000 179 1032 3953 0 0 30341 30363,
     sample 5000 173 1047 3725 0 0 30342 30323,
     sample 6000 180 971 3004 0 0 30308 30323,
     sample 7000 187 1018 2884 0 0 30351 30323,
     sample 8000 182 977 3433 0 0 30315 30294,
     sample 9000 180 1013 3227 0 0 30295 30349,
     sample 10000 188 1091 3129 0 0 30334 30326,
     sample 11000 178 980 3258 0 0 30336 30323,
     sample 12000 161 1007 3548 0 0 30319 30323,
     sample 13000 180 970 2781 0 0 30329 30323,
     sample 14000 168 976 2894 0 0 30326 30323,
     sample 15000 195 1001 4091 0 0 30323 30323]"

definition rate_30323_b :: "jsv list" where
  "rate_30323_b =
    [sample 16000 174 1070 3432 0 0 30322 30295,
     sample 17000 186 1911 8987 0 0 30323 30322,
     sample 18000 195 1394 4186 0 0 30323 30340,
     sample 19000 198 1434 5465 0 0 30271 30335,
     sample 20000 188 1263 4142 0 0 30392 30323,
     sample 21000 183 993 3338 0 0 30295 30323,
     sample 22000 155 991 2877 0 0 30334 30294,
     sample 23000 190 1048 3196 0 0 30302 30352,
     sample 24000 202 1003 3004 0 0 30344 30323,
     sample 25000 185 968 3640 0 0 30309 30323,
     sample 26000 191 1023 3213 0 0 30338 30323,
     sample 27000 183 1027 3245 0 0 30322 30294,
     sample 28000 185 981 3188 0 0 30291 30352,
     sample 29000 179 991 2932 0 0 30362 30323,
     sample 30000 194 999 3144 0 0 30316 30314]"

definition rate_30323 :: jsv where
  "rate_30323 = Obj
    [(''avg-latency'', Num (rnd 1083)),
     (''recv-bytes-rate'', Num (rnd 0)),
     (''send-bytes-rate'', Num (rnd 0)),
     (''samples'', Arr (rate_30323_a @ rate_30323_b)),
     (''recv-msg-rate'', Num (rnd (30334115384615383 / 1000000000000))),
     (''send-msg-rate'', Num (rnd (3033203846153846 / 100000000000)))]"

definition rate_31902_a :: "jsv list" where
  "rate_31902_a =
    [sample 1000 199 1551 5314 0 0 31456 31470,
     sample 2000 179 1848 10414 0 0 31895 31920,
     sample 3000 188 2254 10336 0 0 31812 31889,
     sample 4000 195 1650 6527 0 0 31989 31915,
     sample 5000 199 1653 6305 0 0 31855 31902,
     sample 6000 183 1563 6073 0 0 31956 31902,
     sample 7000 205 4072 15441 0 0 31623 31902,
     sample 8000 221 3178 14530 0 0 31759 31888,
     sample 9000 198 3247 15727 0 0 32284 31900,
     sample 10000 196 1353 4215 0 0 31912 31912,
     sample 11000 172 1278 3534 0 0 31920 31892,
     sample 12000 190 1319 5965 0 0 31917 31908,
     sample 13000 191 1577 6962 0 0 31886 31912,
     sample 14000 209 4984 14751 0 0 31903 31894,
     sample 15000 183 1477 4264 0 0 31898 31910]"

definition rate_31902_b :: "jsv list" where
  "rate_31902_b =
    [sample 16000 276 11135 21300 0 0 31313 31891,
     sample 17000 5207 14024 24898 0 0 32042 31913,
     sample 18000 168 13882 29126 0 0 32354 31897,
     sample 19000 205 3637 12432 0 0 31897 31878,
     sample 20000 203 1651 6247 0 0 31921 31923,
     sample 21000 185 1337 4322 0 0 31904 31899,
     sample 22000 200 2145 9063 0 0 31881 31913,
     sample 23000 199 1411 5254 0 0 31902 31902,
     sample 24000 207 3996 14431 0 0 31903 31897,
     sample 25000 200 1721 6474 0 0 31885 31907,
     sample 26000 196 2312 7601 0 0 31896 31902,
     sample 27000 202 4098 16254 0 0 31812 31870,
     sample 28000 177 1264 5384 0 0 32036 31934,
     sample 29000 198 2107 9605 0 0 31866 31871,
     sample 30000 202 1540 4240 0 0 31899 31933]"

definition rate_31902 :: jsv where
  "rate_31902 = Obj
    [(''avg-latency'', Num (rnd 3537)),
     (''recv-bytes-rate'', Num (rnd 0)),
     (''send-bytes-rate'', Num (rnd 0)),
     (''samples'', Arr (rate_31902_a @ rate_31902_b)),
     (''recv-msg-rate'', Num (rnd (31919576923076922 / 1000000000000))),
     (''send-msg-rate'', Num (rnd (3191796153846154 / 100000000000)))]"

definition rate_25269_a :: "jsv list" where
  "rate_25269_a =
    [sample 1000 193 871 4299 0 0 25017 25034,
     sample 2000 208 891 2682 0 0 25283 25277,
     sample 3000 194 847 2397 0 0 25255 25253,
     sample 4000 185 867 3781 0 0 25269 25285,
     sample 5000 198 887 2522 0 0 25268 25269,
     sample 6000 186 952 2804 0 0 25275 25269,
     sample 7000 205 861 2702 0 0 25265 25269,
     sample 8000 170 847 2280 0 0 25266 25269,
     sample 9000 221 882 3117 0 0 25239 25269,
     sample 10000 187 843 2564 0 0 25302 25269,
     sample 11000 198 875 5407 0 0 25268 25245,
     sample 12000 192 840 2537 0 0 25270 25293,
     sample 13000 202 857 2246 0 0 25244 25269,
     sample 14000 219 848 2685 0 0 25278 25245,
     sample 15000 181 850 2712 0 0 25272 25293]"

definition rate_25269_b :: "jsv list" where
  "rate_25269_b =
    [sample 16000 200 871 4573 0 0 25289 25269,
     sample 17000 189 859 3004 0 0 25261 25268,
     sample 18000 207 848 2310 0 0 25269 25247,
     sample 19000 186 877 2706 0 0 25269 25290,
     sample 20000 205 875 3279 0 0 25277 25271,
     sample 21000 181 868 3325 0 0 25258 25269,
     sample 22000 155 912 3997 0 0 25268 25269,
     sample 23000 194 847 3061 0 0 25273 25267,
     sample 24000 189 841 2342 0 0 25274 25271,
     sample 25000 185 860 3287 0 0 25265 25269,
     sample 26000 193 834 2582 0 0 25244 25269,
     sample 27000 190 856 2790 0 0 25287 25269,
     sample 28000 191 851 2953 0 0 25265 25269,
     sample 29000 192 878 4970 0 0 25276 25269,
     sample 30000 183 854 2581 0 0 25272 25261]"

definition rate_25269 :: jsv where
  "rate_25269 = Obj
    [(''avg-latency'', Num (rnd 864)),
     (''recv-bytes-rate'', Num (rnd 0)),
     (''send-bytes-rate'', Num (rnd 0)),
     (''samples'', Arr (rate_25269_a @ rate_25269_b)),
     (''recv-msg-rate'', Num (rnd (2527873076923077 / 100000000000))),
     (''send-msg-rate'', Num (rnd (2527776923076923 / 100000000000)))]"

definition rate_vs_latency_data :: jsv where
  "rate_vs_latency_data = Obj
    [(''30007'', rate_30007),
     (''32850'', rate_32850),
     (''30639'', rate_30639),
     (''32534'', rate_32534),
     (''12634'', rate_12634),
     (''32218'', rate_32218),
     (''315'', rate_315),
     (''28428'', rate_28428),
     (''18952'', rate_18952),
     (''33166'', rate_33166),
     (''6317'', rate_6317),
     (''30955'', rate_30955),
     (''31587'', rate_31587),
     (''31271'', rate_31271),
     (''30323'', rate_30323),
     (''31902'', rate_31902),
     (''25269'', rate_25269)]"

definition rate_vs_latency_producer_rate_limit :: "string list" where
  "rate_vs_latency_producer_rate_limit = [''315'', ''6317'', ''12634'', ''18952'', ''25269'', ''28428'', ''30007'', ''30323'', ''30639'', ''30955'', ''31271'', ''31587'', ''31902'', ''32218'', ''32534'', ''32850'', ''33166'']"

definition rate_vs_latency :: jsv where
  "rate_vs_latency = Obj
    [(''data'', rate_vs_latency_data),
     (''dimensions'', Arr (map Str [''producerRateLimit''])),
     (''dimension-values'', Obj [(''producerRateLimit'', Arr (map Str rate_vs_latency_producer_rate_limit))])]"

end
