(* ===== verification/Data_Sizes_Large.thy ===== *)
theory Data_Sizes_Large
  imports Result_Data
begin

text \<open>
  The scenario \<open>message-sizes-large\<close> of \<open>html/examples/various-result.js\<close>: a run for each
  message size, in the order of the file.
\<close>

definition size_5000_a :: "jsv list" where
  "size_5000_a =
    [sample 1000 2919 10164 18563 141090000 142475000 28218 28495,
     sample 2000 6536 9817 14473 155995000 155945000 31199 31189,
     sample 3000 4737 9898 14509 158650000 158890000 31730 31778,
     sample 4000 3584 9845 13946 156835000 156730000 31367 31346,
     sample 5000 4505 9801 13890 159100000 158775000 31820 31755,
     sample 6000 5425 10167 14128 153600000 154240000 30720 30848,
     sample 7000 4551 9765 14894 160150000 159780000 32030 31956,
     sample 8000 3734 9825 14276 158715000 159020000 31743 31804,
     sample 9000 6362 9981 15195 156320000 156120000 31264 31224,
     sample 10000 4541 9861 14024 159800000 159825000 31960 31965,
     sample 11000 5771 10022 14914 156940000 157145000 31388 31429,
     sample 12000 5331 10512 18041 149550000 149060000 29910 29812,
     sample 13000 6462 10772 14804 144030000 144130000 28806 28826,
     sample 14000 4882 10552 18039 147395000 147775000 29479 29555,
     sample 15000 5064 10453 14554 147995000 147975000 29599 29595]"

definition size_5000_b :: "jsv list" where
  "size_5000_b =
    [sample 16000 5099 10611 19102 146820000 146385000 29364 29277,
     sample 17000 6746 10870 16260 141940000 142075000 28388 28415,
     sample 18000 5485 9832 15535 159955000 159770000 31991 31954,
     sample 19000 4239 9892 15565 158040000 158215000 31608 31643,
     sample 20000 5608 10014 14314 157620000 157775000 31524 31555,
     sample 21000 5759 10153 14835 154205000 154115000 30841 30823,
     sample 22000 4458 9812 17193 159415000 159635000 31883 31927,
     sample 23000 4899 9739 14071 161190000 161040000 32238 32208,
     sample 24000 5946 9818 14045 158405000 158195000 31681 31639,
     sample 25000 5039 9855 14055 158230000 158250000 31646 31650,
     sample 26000 6672 10160 14509 153770000 154085000 30754 30817,
     sample 27000 7436 10649 15842 157985000 158085000 31597 31617,
     sample 28000 5835 10428 14525 162790000 162470000 32558 32494,
     sample 29000 6871 10453 13920 162480000 162710000 32496 32542,
     sample 30000 6847 10681 14821 158555000 158575000 31711 31715]"

definition size_5000 :: jsv where
  "size_5000 = Obj
    [(''avg-latency'', Num (rnd 10171)),
     (''recv-bytes-rate'', Num (rnd (15569826923076925 / 100000000))),
     (''send-bytes-rate'', Num (rnd (15564173076923075 / 100000000))),
     (''samples'', Arr (size_5000_a @ size_5000_b)),
     (''recv-msg-rate'', Num (rnd (31139653846153848 / 1000000000000))),
     (''send-msg-rate'', Num (rnd (31128346153846152 / 1000000000000)))]"

definition size_10000_a :: "jsv list" where
  "size_10000_a =
    [sample 1000 221 2217 7750 237800000 238140000 23780 23814,
     sample 2000 243 2072 6933 241810000 241660000 24181 24166,
     sample 3000 244 1844 5128 240240000 240600000 24024 24060,
     sample 4000 205 2033 6013 243890000 243500000 24389 24350,
     sample 5000 277 2033 7374 233150000 234030000 23315 23403,
     sample 6000 285 1911 6482 234270000 234130000 23427 23413,
     sample 7000 252 2406 11549 239910000 239520000 23991 23952,
     sample 8000 233 1800 7943 241310000 241470000 24131 24147,
     sample 9000 244 1966 5837 240640000 240590000 24064 24059,
     sample 10000 216 2050 7708 240930000 240840000 24093 24084,
     sample 11000 236 1896 7457 241010000 240730000 24101 24073,
     sample 12000 225 1905 6131 247620000 248150000 24762 24815,
     sample 13000 241 1972 6411 245970000 245620000 24597 24562,
     sample 14000 216 2386 8958 243880000 243650000 24388 24365,
     sample 15000 281 1794 5005 239640000 239660000 23964 23966]"

definition size_10000_b :: "jsv list" where
  "size_10000_b =
    [sample 16000 237 1909 7255 238450000 238680000 23845 23868,
     sample 17000 223 2123 6316 241500000 241830000 24150 24183,
     sample 18000 243 3451 11932 248570000 248160000 24857 24816,
     sample 19000 263 1996 5107 241050000 240800000 24105 24080,
     sample 20000 216 1609 8091 239600000 239640000 23960 23964,
     sample 21000 259 2011 5990 239730000 239890000 23973 23989,
     sample 22000 208 2405 7409 243040000 243250000 24304 24325,
     sample 23000 220 1916 5204 241630000 241480000 24163 24148,
     sample 24000 269 1776 5201 241640000 241960000 24164 24196,
     sample 25000 217 2100 8418 241470000 241450000 24147 24145,
     sample 26000 255 2096 5688 244360000 243910000 24436 24391,
     sample 27000 220 1882 9628 237570000 237600000 23757 23760,
     sample 28000 228 1842 4981 240840000 240940000 24084 24094,
     sample 29000 250 1775 4293 240240000 240220000 24024 24022,
     sample 30000 231 1727 5030 240250000 240100000 24025 24010]"

definition size_10000 :: jsv where
  "size_10000 = Obj
    [(''avg-latency'', Num (rnd 2031)),
     (''recv-bytes-rate'', Num (rnd (24122230769230768 / 100000000))),
     (''send-bytes-rate'', Num (rnd (24121615384615383 / 100000000))),
     (''samples'', Arr (size_10000_a @ size_10000_b)),
     (''recv-msg-rate'', Num (rnd (2412223076923077 / 100000000000))),
     (''send-msg-rate'', Num (rnd (24121615384615383 / 1000000000000)))]"

definition size_500000_a :: "jsv list" where
  "size_500000_a =
    [sample 1000 1351 31016 188756 569500000 624000000 1139 1248,
     sample 2000 1475 103427 143494 824500000 771500000 1649 1543,
     sample 3001 1807 66631 142756 (7312687312687312 / 10000000) (8511488511488512 / 10000000) (14625374625374625 / 10000000000000) (17022977022977022 / 10000000000000),
     sample 4001 1432 54511 175580 512500000 393500000 1025 787,
     sample 5001 1867 54167 141185 733000000 857500000 1466 1715,
     sample 6001 141159 211335 264092 792000000 889500000 1584 1779,
     sample 7001 254368 296214 373963 798000000 892500000 1596 1785,
     sample 8001 370470 420719 488520 785000000 873000000 1570 1746,
     sample 9001 479818 500160 529887 795500000 861000000 1591 1722,
     sample 10001 526195 575836 636537 799500000 844500000 1599 1689,
     sample 11001 617355 637833 672068 811000000 853000000 1622 1706,
     sample 12001 650624 676166 720573 824000000 870500000 1648 1741,
     sample 13001 718568 757373 784016 780500000 811000000 1561 1622,
     sample 14001 767645 828518 850227 762000000 769000000 1524 1538,
     sample 15001 774506 815695 849915 791000000 851000000 1582 1702]"

definition size_500000_b :: "jsv list" where
  "size_500000_b =
    [sample 16001 841844 863026 882058 814500000 879000000 1629 1758,
     sample 17001 836471 863015 896681 883500000 817000000 1767 1634,
     sample 18001 804195 844713 881583 846500000 868500000 1693 1737,
     sample 19001 803624 834891 903430 821000000 800000000 1642 1600,
     sample 20001 849611 881935 905781 825500000 848000000 1651 1696,
     sample 21001 845357 883576 919357 833000000 814500000 1666 1629,
     sample 22001 808664 847607 895055 870500000 871000000 1741 1742,
     sample 23001 814574 833422 868730 831000000 860000000 1662 1720,
     sample 24001 865743 892499 914175 820500000 894500000 1641 1789,
     sample 25001 884909 911556 965602 845000000 885500000 1690 1771,
     sample 26001 960347 984410 1029301 827000000 816000000 1654 1632,
     sample 27001 1014961 1052362 1080210 800000000 858500000 1600 1717,
     sample 28001 1043282 1098718 1137156 811000000 741000000 1622 1482,
     sample 29001 1026374 1088775 1127710 810500000 910500000 1621 1821,
     sample 30001 1012050 1064615 1120148 822500000 869000000 1645 1738]"

definition size_500000 :: jsv where
  "size_500000 = Obj
    [(''avg-latency'', Num (rnd 763962)),
     (''recv-bytes-rate'', Num (rnd (8131538461538461 / 10000000))),
     (''send-bytes-rate'', Num (rnd (8504423076923077 / 10000000))),
     (''samples'', Arr (size_500000_a @ size_500000_b)),
     (''recv-msg-rate'', Num (rnd (16263076923076924 / 10000000000000))),
     (''send-msg-rate'', Num (rnd (17008846153846155 / 10000000000000)))]"

definition size_1000000_a :: "jsv list" where
  "size_1000000_a =
    [sample 1000 2259 47550 177418 603000000 717000000 603 717,
     sample 2000 32031 148030 230253 776000000 808000000 776 808,
     sample 3000 2958 108889 214298 735000000 604000000 735 604,
     sample 4000 18742 127605 215686 804000000 889000000 804 889,
     sample 5000 104928 177864 287651 761000000 911000000 761 911,
     sample 6000 283602 399447 510288 689000000 876000000 689 876,
     sample 7000 345132 506954 589546 786000000 758000000 786 758,
     sample 8000 428722 538092 616353 849000000 780000000 849 780,
     sample 9000 487448 559871 674709 723000000 883000000 723 883,
     sample 10000 541058 664034 781229 708000000 924000000 708 924,
     sample 11000 781746 902897 988124 728000000 908000000 728 908,
     sample 12000 984355 1089708 1177769 736000000 899000000 736 899,
     sample 13001 1175383 1279448 1384042 (7312687312687312 / 10000000) (9090909090909091 / 10000000) (7312687312687312 / 10000000000000) (9090909090909091 / 10000000000000),
     sample 14001 1351644 1421340 1493138 874000000 590000000 874 590,
     sample 15001 1067956 1326004 1422547 869000000 771000000 869 771]"

definition size_1000000_b :: "jsv list" where
  "size_1000000_b =
    [sample 16001 962694 1092050 1254164 649000000 857000000 649 857,
     sample 17001 1259057 1374867 1475358 688000000 890000000 688 890,
     sample 18001 1473706 1586079 1715413 634000000 891000000 634 891,
     sample 19001 1715442 1836331 1927510 702000000 884000000 702 884,
     sample 20001 1920754 1994088 2093203 734000000 839000000 734 839,
     sample 21001 2093614 2202280 2286374 735000000 950000000 735 950,
     sample 22001 2283729 2337959 2423132 710000000 929000000 710 929,
     sample 23001 2419370 2534634 2672030 658000000 810000000 658 810,
     sample 24001 2672019 2837687 2987824 666000000 822000000 666 822,
     sample 25001 2984485 3079923 3203980 722000000 834000000 722 834,
     sample 26001 3202668 3315992 3408489 678000000 813000000 678 813,
     sample 27001 3408980 3575263 3689109 584000000 747000000 584 747,
     sample 28001 3686569 3823676 3954991 604000000 768000000 604 768,
     sample 29001 3950737 4113711 4270463 584000000 766000000 584 766,
     sample 30001 4270759 4423855 4513062 615000000 789000000 615 789]"

definition size_1000000 :: jsv where
  "size_1000000 = Obj
    [(''avg-latency'', Num (rnd 1807902)),
     (''recv-bytes-rate'', Num (rnd (7101265335948617 / 10000000))),
     (''send-bytes-rate'', Num (rnd (8400830737279335 / 10000000))),
     (''samples'', Arr (size_1000000_a @ size_1000000_b)),
     (''recv-msg-rate'', Num (rnd (7101265335948617 / 10000000000000))),
     (''send-msg-rate'', Num (rnd (8400830737279335 / 10000000000000)))]"

definition size_50000_a :: "jsv list" where
  "size_50000_a =
    [sample 1070 264 2248 198510 (4438317757009346 / 10000000) (4440654205607477 / 10000000) (8876635514018692 / 1000000000000) (8881308411214954 / 1000000000000),
     sample 2070 230 2079 160645 640350000 642650000 12807 12853,
     sample 3185 243 1955 187749 (5528251121076233 / 10000000) (550762331838565 / 1000000) (11056502242152466 / 1000000000000) (110152466367713 / 10000000000),
     sample 4185 225 2269 194616 531600000 532350000 10632 10647,
     sample 5185 226 1871 140111 552650000 553200000 11053 11064,
     sample 6185 210 1681 4670 790850000 789800000 15817 15796,
     sample 7185 261 1973 6772 717900000 717600000 14358 14352,
     sample 8185 275 2314 7886 693400000 696400000 13868 13928,
     sample 9185 262 2087 8264 679300000 677250000 13586 13545,
     sample 10185 286 2306 8601 683500000 684250000 13670 13685,
     sample 11185 252 1908 6884 691550000 692850000 13831 13857,
     sample 12185 265 1863 7662 702800000 701800000 14056 14036,
     sample 13185 267 2227 6063 702900000 703050000 14058 14061,
     sample 14185 285 2097 7526 709150000 707550000 14183 14151,
     sample 15185 268 2148 6805 696850000 697850000 13937 13957]"

definition size_50000_b :: "jsv list" where
  "size_50000_b =
    [sample 16185 274 2068 7620 706350000 705050000 14127 14101,
     sample 17185 248 2199 7240 726600000 726800000 14532 14536,
     sample 18185 253 2270 8382 718100000 720850000 14362 14417,
     sample 19185 258 1882 5724 705800000 704700000 14116 14094,
     sample 20185 280 2309 8191 711300000 709300000 14226 14186,
     sample 21185 277 2209 7658 703050000 704100000 14061 14082,
     sample 22185 245 2178 9002 701550000 701350000 14031 14027,
     sample 23185 268 2085 8031 699650000 699900000 13993 13998,
     sample 24185 278 1902 5729 677800000 678200000 13556 13564,
     sample 25185 247 2041 6940 703750000 704500000 14075 14090,
     sample 26185 285 1851 5719 694300000 694950000 13886 13899,
     sample 27185 264 2209 10404 724200000 722400000 14484 14448,
     sample 28185 261 1880 6353 708950000 709350000 14179 14187,
     sample 29185 280 2124 9101 703350000 706650000 14067 14133]"

definition size_50000 :: jsv where
  "size_50000 = Obj
    [(''avg-latency'', Num (rnd 2068)),
     (''recv-bytes-rate'', Num (rnd 723704000)),
     (''send-bytes-rate'', Num (rnd 723692000)),
     (''samples'', Arr (size_50000_a @ size_50000_b)),
     (''recv-msg-rate'', Num (rnd (1447408 / 100))),
     (''send-msg-rate'', Num (rnd (1447384 / 100)))]"

definition size_100000_a :: "jsv list" where
  "size_100000_a =
    [sample 1028 297 3159 194645 (2877431906614786 / 10000000) (2880350194552529 / 10000000) (2877431906614786 / 1000000000000) (2880350194552529 / 1000000000000),
     sample 2137 282 2824 198442 (5560865644724978 / 10000000) (5560865644724978 / 10000000) (5560865644724978 / 1000000000000) (5560865644724978 / 1000000000000),
     sample 3137 282 2800 192354 671900000 679400000 6719 6794,
     sample 4137 275 2778 7686 1006200000 1000200000 10062 10002,
     sample 5137 282 2624 7673 980200000 983000000 9802 9830,
     sample 6137 292 2381 7390 982800000 983500000 9828 9835,
     sample 7137 281 3162 10507 968300000 964200000 9683 9642,
     sample 8137 330 2477 8243 892300000 892400000 8923 8924,
     sample 9137 318 2778 7607 863500000 866900000 8635 8669,
     sample 10137 315 3168 9302 866800000 865200000 8668 8652,
     sample 11137 305 3178 9037 884000000 883900000 8840 8839,
     sample 12137 329 2586 8592 887500000 888900000 8875 8889,
     sample 13137 326 3056 9661 903800000 904700000 9038 9047,
     sample 14137 300 3182 8767 942200000 940400000 9422 9404,
     sample 15137 308 2611 8385 909600000 906400000 9096 9064]"

definition size_100000_b :: "jsv list" where
  "size_100000_b =
    [sample 16137 310 2995 10343 919200000 922400000 9192 9224,
     sample 17137 327 2966 8395 902200000 899800000 9022 8998,
     sample 18137 324 2338 8528 894600000 900300000 8946 9003,
     sample 19137 325 3093 9393 924400000 922900000 9244 9229,
     sample 20137 312 2752 9283 909000000 905000000 9090 9050,
     sample 21137 295 2891 8990 941300000 940300000 9413 9403,
     sample 22137 305 2771 9231 901300000 906300000 9013 9063,
     sample 23137 317 3088 9399 907600000 907500000 9076 9075,
     sample 24137 334 3296 10807 897200000 895400000 8972 8954,
     sample 25137 315 2836 8140 911900000 910100000 9119 9101,
     sample 26137 310 2860 8117 940100000 941700000 9401 9417,
     sample 27137 326 3387 10758 919600000 918200000 9196 9182,
     sample 28137 312 2696 7346 899100000 899200000 8991 8992,
     sample 29137 325 2541 6834 904800000 903400000 9048 9034]"

definition size_100000 :: jsv where
  "size_100000 = Obj
    [(''avg-latency'', Num (rnd 2885)),
     (''recv-bytes-rate'', Num (rnd (9462040000000001 / 10000000))),
     (''send-bytes-rate'', Num (rnd 946132000)),
     (''samples'', Arr (size_100000_a @ size_100000_b)),
     (''recv-msg-rate'', Num (rnd (946204 / 100))),
     (''send-msg-rate'', Num (rnd (946132 / 100)))]"

definition message_sizes_large_data :: jsv where
  "message_sizes_large_data = Obj
    [(''5000'', size_5000),
     (''10000'', size_10000),
     (''500000'', size_500000),
     (''1000000'', size_1000000),
     (''50000'', size_50000),
     (''100000'', size_100000)]"

definition message_sizes_large_min_msg_size :: "string list" where
  "message_sizes_large_min_msg_size = [''5000'', ''10000'', ''50000'', ''100000'', ''500000'', ''1000000'']"

definition message_sizes_large :: jsv where
  "message_sizes_large = Obj
    [(''data'', message_sizes_large_data),
     (''dimensions'', Arr (map Str [''minMsgSize''])),
     (''dimension-values'', Obj [(''minMsgSize'', Arr (map Str message_sizes_large_min_msg_size))])]"

end
