(* ===== verification/Data_Grid_10000.thy ===== *)
theory Data_Grid_10000
  imports Result_Data
begin

text \<open>
  The runs with messages of 10000 bytes of the scenario \<open>message-sizes-and-producers\<close> of
  \<open>html/examples/various-result.js\<close>: one for each number of producers, in the order of the file.
\<close>

definition grid_10000_3_a :: "jsv list" where
  "grid_10000_3_a =
    [send_sample 1000 0 449340000 0 44934,
     send_sample 2000 0 430950000 0 43095,
     send_sample 3000 0 450780000 0 45078,
     send_sample 4000 0 452310000 0 45231,
     send_sample 5000 0 482890000 0 48289,
     send_sample 6000 0 497320000 0 49732,
     send_sample 7000 0 498860000 0 49886,
     send_sample 8000 0 530550000 0 53055,
     send_sample 9000 0 445770000 0 44577,
     send_sample 10000 0 425980000 0 42598,
     send_sample 11000 0 411020000 0 41102,
     send_sample 12000 0 386320000 0 38632,
     send_sample 13000 0 440530000 0 44053,
     send_sample 14000 0 434350000 0 43435,
     send_sample 15000 0 449970000 0 44997]"

definition grid_10000_3_b :: "jsv list" where
  "grid_10000_3_b =
    [send_sample 16000 0 488700000 0 48870,
     send_sample 17000 0 475540000 0 47554,
     send_sample 18000 0 496170000 0 49617,
     send_sample 19000 0 458780000 0 45878,
     send_sample 20000 0 423400000 0 42340,
     send_sample 21000 0 458870000 0 45887,
     send_sample 22000 0 404190000 0 40419,
     send_sample 23000 0 431850000 0 43185,
     send_sample 24000 0 410520000 0 41052,
     send_sample 25000 0 395780000 0 39578,
     send_sample 26000 0 425930000 0 42593,
     send_sample 27000 0 422080000 0 42208,
     send_sample 28000 0 463020000 0 46302,
     send_sample 29000 0 466590000 0 46659,
     send_sample 30000 0 491310000 0 49131]"

definition grid_10000_3 :: jsv where
  "grid_10000_3 = Obj
    [(''recv-bytes-rate'', Num (rnd 0)),
     (''send-bytes-rate'', Num (rnd (45082615384615386 / 100000000))),
     (''samples'', Arr (grid_10000_3_a @ grid_10000_3_b)),
     (''recv-msg-rate'', Num (rnd 0)),
     (''send-msg-rate'', Num (rnd (4508261538461538 / 100000000000)))]"

definition grid_10000_2_a :: "jsv list" where
  "grid_10000_2_a =
    [send_sample 1000 0 504850000 0 50485,
     send_sample 2000 0 512560000 0 51256,
     send_sample 3000 0 499120000 0 49912,
     send_sample 4000 0 460250000 0 46025,
     send_sample 5000 0 493540000 0 49354,
     send_sample 6000 0 483050000 0 48305,
     send_sample 7000 0 497490000 0 49749,
     send_sample 8000 0 477320000 0 47732,
     send_sample 9000 0 453060000 0 45306,
     send_sample 10000 0 423320000 0 42332,
     send_sample 11000 0 392480000 0 39248,
     send_sample 12000 0 379730000 0 37973,
     send_sample 13000 0 399850000 0 39985,
     send_sample 14000 0 397080000 0 39708,
     send_sample 15000 0 409180000 0 40918]"

definition grid_10000_2_b :: "jsv list" where
  "grid_10000_2_b =
    [send_sample 16000 0 434740000 0 43474,
     send_sample 17000 0 478410000 0 47841,
     send_sample 18000 0 466820000 0 46682,
     send_sample 19000 0 457330000 0 45733,
     send_sample 20000 0 490100000 0 49010,
     send_sample 21000 0 458930000 0 45893,
     send_sample 22000 0 489050000 0 48905,
     send_sample 23000 0 490150000 0 49015,
     send_sample 24000 0 435700000 0 43570,
     send_sample 25000 0 428020000 0 42802,
     send_sample 26000 0 396980000 0 39698,
     send_sample 27000 0 386270000 0 38627,
     send_sample 28000 0 393990000 0 39399,
     send_sample 29000 0 370660000 0 37066,
     send_sample 30000 0 364620000 0 36462]"

definition grid_10000_2 :: jsv where
  "grid_10000_2 = Obj
    [(''recv-bytes-rate'', Num (rnd 0)),
     (''send-bytes-rate'', Num (rnd (43659269230769235 / 100000000))),
     (''samples'', Arr (grid_10000_2_a @ grid_10000_2_b)),
     (''recv-msg-rate'', Num (rnd 0)),
     (''send-msg-rate'', Num (rnd (43659269230769234 / 1000000000000)))]"

definition grid_10000_10_a :: "jsv list" where
  "grid_10000_10_a =
    [send_sample 1000 0 457660000 0 45766,
     send_sample 2000 0 458630000 0 45863,
     send_sample 3000 0 455300000 0 45530,
     send_sample 4000 0 460280000 0 46028,
     send_sample 5000 0 427970000 0 42797,
     send_sample 6000 0 441900000 0 44190,
     send_sample 7000 0 431170000 0 43117,
     send_sample 8000 0 425690000 0 42569,
     send_sample 9000 0 471730000 0 47173,
     send_sample 10000 0 457410000 0 45741,
     send_sample 11000 0 436110000 0 43611,
     send_sample 12000 0 477550000 0 47755,
     send_sample 13000 0 451380000 0 45138,
     send_sample 14000 0 469170000 0 46917,
     send_sample 15000 0 469270000 0 46927]"

definition grid_10000_10_b :: "jsv list" where
  "grid_10000_10_b =
    [send_sample 16000 0 441290000 0 44129,
     send_sample 17000 0 427930000 0 42793,
     send_sample 18000 0 427040000 0 42704,
     send_sample 19000 0 457370000 0 45737,
     send_sample 20000 0 415840000 0 41584,
     send_sample 21000 0 413180000 0 41318,
     send_sample 22000 0 386200000 0 38620,
     send_sample 23000 0 372150000 0 37215,
     send_sample 24000 0 415200000 0 41520,
     send_sample 25000 0 419940000 0 41994,
     send_sample 26000 0 435690000 0 43569,
     send_sample 27000 0 417710000 0 41771,
     send_sample 28000 0 441660000 0 44166,
     send_sample 29000 0 431340000 0 43134,
     send_sample 30000 0 428680000 0 42868]"

definition grid_10000_10 :: jsv where
  "grid_10000_10 = Obj
    [(''recv-bytes-rate'', Num (rnd 0)),
     (''send-bytes-rate'', Num (rnd (43470269230769235 / 100000000))),
     (''samples'', Arr (grid_10000_10_a @ grid_10000_10_b)),
     (''recv-msg-rate'', Num (rnd 0)),
     (''send-msg-rate'', Num (rnd (43470269230769234 / 1000000000000)))]"

definition grid_10000_1_a :: "jsv list" where
  "grid_10000_1_a =
    [send_sample 1000 0 297640000 0 29764,
     send_sample 2000 0 248640000 0 24864,
     send_sample 3000 0 297920000 0 29792,
     send_sample 4000 0 330740000 0 33074,
     send_sample 5000 0 317170000 0 31717,
     send_sample 6000 0 353200000 0 35320,
     send_sample 7000 0 321700000 0 32170,
     send_sample 8000 0 338770000 0 33877,
     send_sample 9000 0 338070000 0 33807,
     send_sample 10000 0 345390000 0 34539,
     send_sample 11000 0 354900000 0 35490,
     send_sample 12000 0 342630000 0 34263,
     send_sample 13000 0 324470000 0 32447,
     send_sample 14000 0 390900000 0 39090,
     send_sample 15000 0 404610000 0 40461]"

definition grid_10000_1_b :: "jsv list" where
  "grid_10000_1_b =
    [send_sample 16000 0 379320000 0 37932,
     send_sample 17000 0 408340000 0 40834,
     send_sample 18000 0 418830000 0 41883,
     send_sample 19000 0 415280000 0 41528,
     send_sample 20000 0 409250000 0 40925,
     send_sample 21000 0 415490000 0 41549,
     send_sample 22000 0 431880000 0 43188,
     send_sample 23000 0 427890000 0 42789,
     send_sample 24000 0 405260000 0 40526,
     send_sample 25000 0 402380000 0 40238,
     send_sample 26000 0 406940000 0 40694,
     send_sample 27000 0 417670000 0 41767,
     send_sample 28000 0 409930000 0 40993,
     send_sample 29000 0 410770000 0 41077,
     send_sample 30000 0 413850000 0 41385]"

definition grid_10000_1 :: jsv where
  "grid_10000_1 = Obj
    [(''recv-bytes-rate'', Num (rnd 0)),
     (''send-bytes-rate'', Num (rnd (38485961538461536 / 100000000))),
     (''samples'', Arr (grid_10000_1_a @ grid_10000_1_b)),
     (''recv-msg-rate'', Num (rnd 0)),
     (''send-msg-rate'', Num (rnd (3848596153846154 / 100000000000)))]"

definition grid_10000_7_a :: "jsv list" where
  "grid_10000_7_a =
    [send_sample 1000 0 458220000 0 45822,
     send_sample 2000 0 470710000 0 47071,
     send_sample 3000 0 454110000 0 45411,
     send_sample 4000 0 484040000 0 48404,
     send_sample 5000 0 479180000 0 47918,
     send_sample 6000 0 470970000 0 47097,
     send_sample 7000 0 480890000 0 48089,
     send_sample 8000 0 482880000 0 48288,
     send_sample 9000 0 495210000 0 49521,
     send_sample 10000 0 514640000 0 51464,
     send_sample 11000 0 469250000 0 46925,
     send_sample 12000 0 468580000 0 46858,
     send_sample 13000 0 484170000 0 48417,
     send_sample 14000 0 468500000 0 46850,
     send_sample 15000 0 463850000 0 46385]"

definition grid_10000_7_b :: "jsv list" where
  "grid_10000_7_b =
    [send_sample 16000 0 446080000 0 44608,
     send_sample 17000 0 461910000 0 46191,
     send_sample 18000 0 464490000 0 46449,
     send_sample 19000 0 483280000 0 48328,
     send_sample 20000 0 442180000 0 44218,
     send_sample 21000 0 486700000 0 48670,
     send_sample 22000 0 461440000 0 46144,
     send_sample 23000 0 478940000 0 47894,
     send_sample 24000 0 455270000 0 45527,
     send_sample 25000 0 446330000 0 44633,
     send_sample 26000 0 430680000 0 43068,
     send_sample 27000 0 470640000 0 47064,
     send_sample 28000 0 487930000 0 48793,
     send_sample 29000 0 507540000 0 50754,
     send_sample 30000 0 445060000 0 44506]"

definition grid_10000_7 :: jsv where
  "grid_10000_7 = Obj
    [(''recv-bytes-rate'', Num (rnd 0)),
     (''send-bytes-rate'', Num (rnd (47137884615384614 / 100000000))),
     (''samples'', Arr (grid_10000_7_a @ grid_10000_7_b)),
     (''recv-msg-rate'', Num (rnd 0)),
     (''send-msg-rate'', Num (rnd (4713788461538462 / 100000000000)))]"

definition grid_10000_6_a :: "jsv list" where
  "grid_10000_6_a =
    [send_sample 1000 0 416650000 0 41665,
     send_sample 2000 0 414170000 0 41417,
     send_sample 3000 0 407180000 0 40718,
     send_sample 4000 0 436690000 0 43669,
     send_sample 5000 0 413730000 0 41373,
     send_sample 6000 0 421950000 0 42195,
     send_sample 7000 0 464150000 0 46415,
     send_sample 8000 0 469470000 0 46947,
     send_sample 9000 0 462700000 0 46270,
     send_sample 10000 0 474440000 0 47444,
     send_sample 11000 0 484280000 0 48428,
     send_sample 12000 0 466020000 0 46602,
     send_sample 13000 0 512250000 0 51225,
     send_sample 14000 0 500620000 0 50062,
     send_sample 15000 0 514130000 0 51413]"

definition grid_10000_6_b :: "jsv list" where
  "grid_10000_6_b =
    [send_sample 16000 0 473540000 0 47354,
     send_sample 17000 0 439590000 0 43959,
     send_sample 18000 0 513720000 0 51372,
     send_sample 19000 0 497110000 0 49711,
     send_sample 20000 0 470680000 0 47068,
     send_sample 21000 0 434250000 0 43425,
     send_sample 22000 0 447870000 0 44787,
     send_sample 23000 0 513340000 0 51334,
     send_sample 24000 0 497370000 0 49737,
     send_sample 25000 0 474550000 0 47455,
     send_sample 26000 0 456010000 0 45601,
     send_sample 27000 0 509580000 0 50958,
     send_sample 28000 0 476300000 0 47630,
     send_sample 29000 0 456020000 0 45602,
     send_sample 30000 0 462410000 0 46241]"

definition grid_10000_6 :: jsv where
  "grid_10000_6 = Obj
    [(''recv-bytes-rate'', Num (rnd 0)),
     (''send-bytes-rate'', Num (rnd (47370384615384614 / 100000000))),
     (''samples'', Arr (grid_10000_6_a @ grid_10000_6_b)),
     (''recv-msg-rate'', Num (rnd 0)),
     (''send-msg-rate'', Num (rnd (4737038461538462 / 100000000000)))]"

definition grid_10000_5_a :: "jsv list" where
  "grid_10000_5_a =
    [send_sample 1000 0 504730000 0 50473,
     send_sample 2000 0 482520000 0 48252,
     send_sample 3000 0 491100000 0 49110,
     send_sample 4000 0 469250000 0 46925,
     send_sample 5000 0 472650000 0 47265,
     send_sample 6000 0 493510000 0 49351,
     send_sample 7000 0 502160000 0 50216,
     send_sample 8000 0 503550000 0 50355,
     send_sample 9000 0 487860000 0 48786,
     send_sample 10000 0 462880000 0 46288,
     send_sample 11000 0 385640000 0 38564,
     send_sample 12000 0 420210000 0 42021,
     send_sample 13000 0 411190000 0 41119,
     send_sample 14000 0 429640000 0 42964,
     send_sample 15000 0 452510000 0 45251]"

definition grid_10000_5_b :: "jsv list" where
  "grid_10000_5_b =
    [send_sample 16000 0 483280000 0 48328,
     send_sample 17000 0 501700000 0 50170,
     send_sample 18000 0 461920000 0 46192,
     send_sample 19000 0 444810000 0 44481,
     send_sample 20000 0 475240000 0 47524,
     send_sample 21000 0 439820000 0 43982,
     send_sample 22000 0 409590000 0 40959,
     send_sample 23000 0 468070000 0 46807,
     send_sample 24000 0 489980000 0 48998,
     send_sample 25000 0 481850000 0 48185,
     send_sample 26000 0 477590000 0 47759,
     send_sample 27000 0 534590000 0 53459,
     send_sample 28000 0 489310000 0 48931,
     send_sample 29000 0 449050000 0 44905,
     send_sample 30000 0 453730000 0 45373]"

definition grid_10000_5 :: jsv where
  "grid_10000_5 = Obj
    [(''recv-bytes-rate'', Num (rnd 0)),
     (''send-bytes-rate'', Num (rnd (46499384615384614 / 100000000))),
     (''samples'', Arr (grid_10000_5_a @ grid_10000_5_b)),
     (''recv-msg-rate'', Num (rnd 0)),
     (''send-msg-rate'', Num (rnd (4649938461538462 / 100000000000)))]"

definition grid_10000_4_a :: "jsv list" where
  "grid_10000_4_a =
    [send_sample 1000 0 503120000 0 50312,
     send_sample 2000 0 528950000 0 52895,
     send_sample 3000 0 517870000 0 51787,
     send_sample 4000 0 533990000 0 53399,
     send_sample 5000 0 490170000 0 49017,
     send_sample 6000 0 453840000 0 45384,
     send_sample 7000 0 454040000 0 45404,
     send_sample 8000 0 436760000 0 43676,
     send_sample 9000 0 449440000 0 44944,
     send_sample 10000 0 457630000 0 45763,
     send_sample 11000 0 516590000 0 51659,
     send_sample 12000 0 509760000 0 50976,
     send_sample 13000 0 538810000 0 53881,
     send_sample 14000 0 511300000 0 51130,
     send_sample 15000 0 499370000 0 49937]"

definition grid_10000_4_b :: "jsv list" where
  "grid_10000_4_b =
    [send_sample 16000 0 499900000 0 49990,
     send_sample 17000 0 471370000 0 47137,
     send_sample 18000 0 417100000 0 41710,
     send_sample 19000 0 426140000 0 42614,
     send_sample 20000 0 392890000 0 39289,
     send_sample 21000 0 400650000 0 40065,
     send_sample 22000 0 422370000 0 42237,
     send_sample 23000 0 430210000 0 43021,
     send_sample 24000 0 440410000 0 44041,
     send_sample 25000 0 473880000 0 47388,
     send_sample 26000 0 459890000 0 45989,
     send_sample 27000 0 482650000 0 48265,
     send_sample 28000 0 513450000 0 51345,
     send_sample 29000 0 510860000 0 51086,
     send_sample 30000 0 466750000 0 46675]"

definition grid_10000_4 :: jsv where
  "grid_10000_4 = Obj
    [(''recv-bytes-rate'', Num (rnd 0)),
     (''send-bytes-rate'', Num (rnd (4666569230769231 / 10000000))),
     (''samples'', Arr (grid_10000_4_a @ grid_10000_4_b)),
     (''recv-msg-rate'', Num (rnd 0)),
     (''send-msg-rate'', Num (rnd (46665692307692305 / 1000000000000)))]"

definition grid_10000_9_a :: "jsv list" where
  "grid_10000_9_a =
    [send_sample 1000 0 437080000 0 43708,
     send_sample 2000 0 449650000 0 44965,
     send_sample 3000 0 472810000 0 47281,
     send_sample 4000 0 460350000 0 46035,
     send_sample 5000 0 439930000 0 43993,
     send_sample 6000 0 480030000 0 48003,
     send_sample 7000 0 472970000 0 47297,
     send_sample 8000 0 416620000 0 41662,
     send_sample 9000 0 461050000 0 46105,
     send_sample 10000 0 451550000 0 45155,
     send_sample 11000 0 442600000 0 44260,
     send_sample 12000 0 451710000 0 45171,
     send_sample 13000 0 458900000 0 45890,
     send_sample 14000 0 453910000 0 45391,
     send_sample 15000 0 457990000 0 45799]"

definition grid_10000_9_b :: "jsv list" where
  "grid_10000_9_b =
    [send_sample 16000 0 460080000 0 46008,
     send_sample 17000 0 427200000 0 42720,
     send_sample 18000 0 476290000 0 47629,
     send_sample 19000 0 420430000 0 42043,
     send_sample 20000 0 395080000 0 39508,
     send_sample 21000 0 467970000 0 46797,
     send_sample 22000 0 464880000 0 46488,
     send_sample 23000 0 449150000 0 44915,
     send_sample 24000 0 461950000 0 46195,
     send_sample 25000 0 490270000 0 49027,
     send_sample 26000 0 415530000 0 41553,
     send_sample 27000 0 460740000 0 46074,
     send_sample 28000 0 418500000 0 41850,
     send_sample 29000 0 424810000 0 42481,
     send_sample 30000 0 431940000 0 43194]"

definition grid_10000_9 :: jsv where
  "grid_10000_9 = Obj
    [(''recv-bytes-rate'', Num (rnd 0)),
     (''send-bytes-rate'', Num (rnd 448760000)),
     (''samples'', Arr (grid_10000_9_a @ grid_10000_9_b)),
     (''recv-msg-rate'', Num (rnd 0)),
     (''send-msg-rate'', Num (rnd 44876))]"

definition grid_10000_8_a :: "jsv list" where
  "grid_10000_8_a =
    [send_sample 1000 0 446670000 0 44667,
     send_sample 2000 0 469400000 0 46940,
     send_sample 3000 0 460760000 0 46076,
     send_sample 4000 0 486960000 0 48696,
     send_sample 5000 0 478360000 0 47836,
     send_sample 6000 0 509230000 0 50923,
     send_sample 7000 0 434910000 0 43491,
     send_sample 8000 0 425630000 0 42563,
     send_sample 9000 0 453090000 0 45309,
     send_sample 10000 0 459670000 0 45967,
     send_sample 11000 0 450820000 0 45082,
     send_sample 12000 0 469300000 0 46930,
     send_sample 13000 0 450000000 0 45000,
     send_sample 14000 0 465580000 0 46558,
     send_sample 15000 0 451740000 0 45174]"

definition grid_10000_8_b :: "jsv list" where
  "grid_10000_8_b =
    [send_sample 16000 0 459010000 0 45901,
     send_sample 17000 0 439160000 0 43916,
     send_sample 18000 0 443030000 0 44303,
     send_sample 19000 0 431730000 0 43173,
     send_sample 20000 0 467520000 0 46752,
     send_sample 21000 0 466390000 0 46639,
     send_sample 22000 0 483300000 0 48330,
     send_sample 23000 0 449190000 0 44919,
     send_sample 24000 0 424500000 0 42450,
     send_sample 25000 0 462160000 0 46216,
     send_sample 26000 0 432760000 0 43276,
     send_sample 27000 0 476810000 0 47681,
     send_sample 28000 0 438140000 0 43814,
     send_sample 29000 0 442040000 0 44204,
     send_sample 30000 0 436780000 0 43678]"

definition grid_10000_8 :: jsv where
  "grid_10000_8 = Obj
    [(''recv-bytes-rate'', Num (rnd 0)),
     (''send-bytes-rate'', Num (rnd (4543292307692308 / 10000000))),
     (''samples'', Arr (grid_10000_8_a @ grid_10000_8_b)),
     (''recv-msg-rate'', Num (rnd 0)),
     (''send-msg-rate'', Num (rnd (4543292307692308 / 100000000000)))]"

definition grid_10000 :: jsv where
  "grid_10000 = Obj
    [(''3'', grid_10000_3),
     (''2'', grid_10000_2),
     (''10'', grid_10000_10),
     (''1'', grid_10000_1),
     (''7'', grid_10000_7),
     (''6'', grid_10000_6),
     (''5'', grid_10000_5),
     (''4'', grid_10000_4),
     (''9'', grid_10000_9),
     (''8'', grid_10000_8)]"

end
