(* ===== verification/Data_Grid_0.thy ===== *)
theory Data_Grid_0
  imports Result_Data
begin

text \<open>
  The runs with messages of 0 bytes of the scenario \<open>message-sizes-and-producers\<close> of
  \<open>html/examples/various-result.js\<close>: one for each number of producers, in the order of the file.
\<close>

definition grid_0_3_a :: "jsv list" where
  "grid_0_3_a =
    [send_sample 1000 0 0 0 57097,
     send_sample 2000 0 0 0 27834,
     send_sample 3000 0 0 0 13497,
     send_sample 4000 0 0 0 17356,
     send_sample 5000 0 0 0 13935,
     send_sample 6000 0 0 0 13253,
     send_sample 7000 0 0 0 13167,
     send_sample 8000 0 0 0 15036,
     send_sample 9000 0 0 0 14479,
     send_sample 10000 0 0 0 15627,
     send_sample 11000 0 0 0 15518,
     send_sample 12000 0 0 0 14935,
     send_sample 13000 0 0 0 14183,
     send_sample 14000 0 0 0 13985,
     send_sample 15000 0 0 0 14500]"

definition grid_0_3_b :: "jsv list" where
  "grid_0_3_b =
    [send_sample 16000 0 0 0 15499,
     send_sample 17000 0 0 0 14379,
     send_sample 18000 0 0 0 14140,
     send_sample 19000 0 0 0 15368,
     send_sample 20000 0 0 0 14779,
     send_sample 21000 0 0 0 13774,
     send_sample 22000 0 0 0 14734,
     send_sample 23000 0 0 0 14957,
     send_sample 24000 0 0 0 14575,
     send_sample 25000 0 0 0 15481,
     send_sample 26000 0 0 0 15457,
     send_sample 27000 0 0 0 15475,
     send_sample 28000 0 0 0 15525,
     send_sample 29000 0 0 0 16168,
     send_sample 30000 0 0 0 15865]"

definition grid_0_3 :: jsv where
  "grid_0_3 = Obj
    [(''recv-bytes-rate'', Num (rnd 0)),
     (''send-bytes-rate'', Num (rnd 0)),
     (''samples'', Arr (grid_0_3_a @ grid_0_3_b)),
     (''recv-msg-rate'', Num (rnd 0)),
     (''send-msg-rate'', Num (rnd (14804153846153846 / 1000000000000)))]"

definition grid_0_2_a :: "jsv list" where
  "grid_0_2_a =
    [send_sample 1000 0 0 0 87129,
     send_sample 2000 0 0 0 37997,
     send_sample 3000 0 0 0 24624,
     send_sample 4000 0 0 0 17130,
     send_sample 5000 0 0 0 15900,
     send_sample 6000 0 0 0 17733,
     send_sample 7000 0 0 0 16649,
     send_sample 8000 0 0 0 14686,
     send_sample 9000 0 0 0 17595,
     send_sample 10000 0 0 0 11843,
     send_sample 11000 0 0 0 16268,
     send_sample 12000 0 0 0 12022,
     send_sample 13000 0 0 0 16691,
     send_sample 14000 0 0 0 10921,
     send_sample 15000 0 0 0 17678]"

definition grid_0_2_b :: "jsv list" where
  "grid_0_2_b =
    [send_sample 16000 0 0 0 11703,
     send_sample 17000 0 0 0 15864,
     send_sample 18000 0 0 0 8632,
     send_sample 19000 0 0 0 16667,
     send_sample 20000 0 0 0 17060,
     send_sample 21000 0 0 0 17417,
     send_sample 22000 0 0 0 12926,
     send_sample 23000 0 0 0 17676,
     send_sample 24000 0 0 0 14211,
     send_sample 25000 0 0 0 15873,
     send_sample 26000 0 0 0 14859,
     send_sample 27000 0 0 0 13701,
     send_sample 28000 0 0 0 12493,
     send_sample 29000 0 0 0 15320,
     send_sample 30000 0 0 0 14027]"

definition grid_0_2 :: jsv where
  "grid_0_2 = Obj
    [(''recv-bytes-rate'', Num (rnd 0)),
     (''send-bytes-rate'', Num (rnd 0)),
     (''samples'', Arr (grid_0_2_a @ grid_0_2_b)),
     (''recv-msg-rate'', Num (rnd 0)),
     (''send-msg-rate'', Num (rnd (1486626923076923 / 100000000000)))]"

definition grid_0_10_a :: "jsv list" where
  "grid_0_10_a =
    [send_sample 1000 0 0 0 133136,
     send_sample 2000 0 0 0 182649,
     send_sample 3000 0 0 0 185935,
     send_sample 4000 0 0 0 181896,
     send_sample 5000 0 0 0 179449,
     send_sample 6000 0 0 0 169425,
     send_sample 7000 0 0 0 169729,
     send_sample 8000 0 0 0 175470,
     send_sample 9000 0 0 0 166566,
     send_sample 10000 0 0 0 178209,
     send_sample 11000 0 0 0 185129,
     send_sample 12000 0 0 0 184946,
     send_sample 13000 0 0 0 175765,
     send_sample 14000 0 0 0 180738,
     send_sample 15000 0 0 0 176681]"

definition grid_0_10_b :: "jsv list" where
  "grid_0_10_b =
    [send_sample 16000 0 0 0 180502,
     send_sample 17000 0 0 0 176200,
     send_sample 18000 0 0 0 180540,
     send_sample 19000 0 0 0 171480,
     send_sample 20000 0 0 0 180881,
     send_sample 21000 0 0 0 177104,
     send_sample 22000 0 0 0 182561,
     send_sample 23000 0 0 0 176184,
     send_sample 24000 0 0 0 181065,
     send_sample 25000 0 0 0 176028,
     send_sample 26000 0 0 0 171960,
     send_sample 27000 0 0 0 179547,
     send_sample 28000 0 0 0 171998,
     send_sample 29000 0 0 0 178912,
     send_sample 30000 0 0 0 162931]"

definition grid_0_10 :: jsv where
  "grid_0_10 = Obj
    [(''recv-bytes-rate'', Num (rnd 0)),
     (''send-bytes-rate'', Num (rnd 0)),
     (''samples'', Arr (grid_0_10_a @ grid_0_10_b)),
     (''recv-msg-rate'', Num (rnd 0)),
     (''send-msg-rate'', Num (rnd (17667984615384616 / 100000000000)))]"

definition grid_0_1_a :: "jsv list" where
  "grid_0_1_a =
    [send_sample 1000 0 0 0 51453,
     send_sample 2000 0 0 0 67160,
     send_sample 3019 0 0 0 (7302649656526007 / 100000000000),
     send_sample 4056 0 0 0 (7390549662487947 / 100000000000),
     send_sample 5056 0 0 0 77909,
     send_sample 6069 0 0 0 (7202073050345508 / 100000000000),
     send_sample 7085 0 0 0 (7416338582677166 / 100000000000),
     send_sample 8085 0 0 0 69364,
     send_sample 9085 0 0 0 64479,
     send_sample 10085 0 0 0 68607,
     send_sample 11121 0 0 0 (6891891891891892 / 100000000000),
     send_sample 12121 0 0 0 69789,
     send_sample 13121 0 0 0 74900,
     send_sample 14137 0 0 0 (6910728346456694 / 100000000000),
     send_sample 15137 0 0 0 71360]"

definition grid_0_1_b :: "jsv list" where
  "grid_0_1_b =
    [send_sample 16137 0 0 0 68172,
     send_sample 17195 0 0 0 (7107466918714556 / 100000000000),
     send_sample 18217 0 0 0 (7531311154598826 / 100000000000),
     send_sample 19217 0 0 0 73512,
     send_sample 20217 0 0 0 75179,
     send_sample 21217 0 0 0 73497,
     send_sample 22269 0 0 0 (6886026615969582 / 100000000000),
     send_sample 23269 0 0 0 80621,
     send_sample 24269 0 0 0 73281,
     send_sample 25269 0 0 0 76223,
     send_sample 26312 0 0 0 (7314956855225311 / 100000000000),
     send_sample 27330 0 0 0 (7544990176817289 / 100000000000),
     send_sample 28330 0 0 0 72767,
     send_sample 29330 0 0 0 71644]"

definition grid_0_1 :: jsv where
  "grid_0_1 = Obj
    [(''recv-bytes-rate'', Num (rnd 0)),
     (''send-bytes-rate'', Num (rnd 0)),
     (''samples'', Arr (grid_0_1_a @ grid_0_1_b)),
     (''recv-msg-rate'', Num (rnd 0)),
     (''send-msg-rate'', Num (rnd (7448294690195458 / 100000000000)))]"

definition grid_0_7_a :: "jsv list" where
  "grid_0_7_a =
    [send_sample 1000 0 0 0 98373,
     send_sample 2000 0 0 0 42252,
     send_sample 3000 0 0 0 92542,
     send_sample 4000 0 0 0 54731,
     send_sample 5000 0 0 0 23564,
     send_sample 6000 0 0 0 19931,
     send_sample 7000 0 0 0 17130,
     send_sample 8000 0 0 0 19987,
     send_sample 9000 0 0 0 18102,
     send_sample 10000 0 0 0 19735,
     send_sample 11000 0 0 0 19301,
     send_sample 12000 0 0 0 18794,
     send_sample 13000 0 0 0 22119,
     send_sample 14000 0 0 0 15658,
     send_sample 15000 0 0 0 21199]"

definition grid_0_7_b :: "jsv list" where
  "grid_0_7_b =
    [send_sample 16000 0 0 0 16493,
     send_sample 17000 0 0 0 22379,
     send_sample 18000 0 0 0 16467,
     send_sample 19000 0 0 0 21604,
     send_sample 20000 0 0 0 16832,
     send_sample 21000 0 0 0 20704,
     send_sample 22000 0 0 0 16465,
     send_sample 23000 0 0 0 21114,
     send_sample 24000 0 0 0 16881,
     send_sample 25000 0 0 0 19675,
     send_sample 26000 0 0 0 19066,
     send_sample 27000 0 0 0 20166,
     send_sample 28000 0 0 0 21233,
     send_sample 29000 0 0 0 17466,
     send_sample 30000 0 0 0 22014]"

definition grid_0_7 :: jsv where
  "grid_0_7 = Obj
    [(''recv-bytes-rate'', Num (rnd 0)),
     (''send-bytes-rate'', Num (rnd 0)),
     (''samples'', Arr (grid_0_7_a @ grid_0_7_b)),
     (''recv-msg-rate'', Num (rnd 0)),
     (''send-msg-rate'', Num (rnd (19411884615384617 / 1000000000000)))]"

definition grid_0_6_a :: "jsv list" where
  "grid_0_6_a =
    [send_sample 1000 0 0 0 90445,
     send_sample 2000 0 0 0 78119,
     send_sample 3000 0 0 0 71648,
     send_sample 4000 0 0 0 24288,
     send_sample 5000 0 0 0 17572,
     send_sample 6000 0 0 0 14669,
     send_sample 7000 0 0 0 15386,
     send_sample 8000 0 0 0 20342,
     send_sample 9000 0 0 0 25215,
     send_sample 10000 0 0 0 23180,
     send_sample 11000 0 0 0 17553,
     send_sample 12000 0 0 0 19489,
     send_sample 13000 0 0 0 18902,
     send_sample 14000 0 0 0 22414,
     send_sample 15000 0 0 0 21534]"

definition grid_0_6_b :: "jsv list" where
  "grid_0_6_b =
    [send_sample 16000 0 0 0 22432,
     send_sample 17000 0 0 0 17026,
     send_sample 18000 0 0 0 18006,
     send_sample 19000 0 0 0 17101,
     send_sample 20000 0 0 0 20351,
     send_sample 21000 0 0 0 19127,
     send_sample 22000 0 0 0 19636,
     send_sample 23000 0 0 0 17712,
     send_sample 24000 0 0 0 20836,
     send_sample 25000 0 0 0 17703,
     send_sample 26000 0 0 0 16846,
     send_sample 27000 0 0 0 19418,
     send_sample 28000 0 0 0 17010,
     send_sample 29000 0 0 0 19373,
     send_sample 30000 0 0 0 19598]"

definition grid_0_6 :: jsv where
  "grid_0_6 = Obj
    [(''recv-bytes-rate'', Num (rnd 0)),
     (''send-bytes-rate'', Num (rnd 0)),
     (''samples'', Arr (grid_0_6_a @ grid_0_6_b)),
     (''recv-msg-rate'', Num (rnd 0)),
     (''send-msg-rate'', Num (rnd (19193115384615383 / 1000000000000)))]"

definition grid_0_5_a :: "jsv list" where
  "grid_0_5_a =
    [send_sample 1000 0 0 0 83712,
     send_sample 2000 0 0 0 64420,
     send_sample 3000 0 0 0 32463,
     send_sample 4000 0 0 0 20287,
     send_sample 5000 0 0 0 20553,
     send_sample 6000 0 0 0 24595,
     send_sample 7000 0 0 0 19980,
     send_sample 8000 0 0 0 24250,
     send_sample 9000 0 0 0 21188,
     send_sample 10000 0 0 0 21379,
     send_sample 11000 0 0 0 20392,
     send_sample 12000 0 0 0 23407,
     send_sample 13000 0 0 0 24117,
     send_sample 14000 0 0 0 21067,
     send_sample 15000 0 0 0 17845]"

definition grid_0_5_b :: "jsv list" where
  "grid_0_5_b =
    [send_sample 16000 0 0 0 20494,
     send_sample 17000 0 0 0 18831,
     send_sample 18000 0 0 0 24720,
     send_sample 19000 0 0 0 20909,
     send_sample 20000 0 0 0 21149,
     send_sample 21000 0 0 0 17666,
     send_sample 22000 0 0 0 20457,
     send_sample 23000 0 0 0 19085,
     send_sample 24000 0 0 0 20698,
     send_sample 25000 0 0 0 17908,
     send_sample 26000 0 0 0 19356,
     send_sample 27000 0 0 0 20396,
     send_sample 28000 0 0 0 19735,
     send_sample 29000 0 0 0 18345,
     send_sample 30000 0 0 0 21791]"

definition grid_0_5 :: jsv where
  "grid_0_5 = Obj
    [(''recv-bytes-rate'', Num (rnd 0)),
     (''send-bytes-rate'', Num (rnd 0)),
     (''samples'', Arr (grid_0_5_a @ grid_0_5_b)),
     (''recv-msg-rate'', Num (rnd 0)),
     (''send-msg-rate'', Num (rnd (20795076923076922 / 1000000000000)))]"

definition grid_0_4_a :: "jsv list" where
  "grid_0_4_a =
    [send_sample 1000 0 0 0 78331,
     send_sample 2000 0 0 0 35374,
     send_sample 3000 0 0 0 18971,
     send_sample 4000 0 0 0 16823,
     send_sample 5000 0 0 0 14586,
     send_sample 6000 0 0 0 16892,
     send_sample 7000 0 0 0 17444,
     send_sample 8000 0 0 0 19616,
     send_sample 9000 0 0 0 14503,
     send_sample 10000 0 0 0 14584,
     send_sample 11000 0 0 0 14800,
     send_sample 12000 0 0 0 18072,
     send_sample 13000 0 0 0 16582,
     send_sample 14000 0 0 0 16699,
     send_sample 15000 0 0 0 18217]"

definition grid_0_4_b :: "jsv list" where
  "grid_0_4_b =
    [send_sample 16000 0 0 0 18570,
     send_sample 17000 0 0 0 18789,
     send_sample 18000 0 0 0 24895,
     send_sample 19000 0 0 0 23991,
     send_sample 20000 0 0 0 18322,
     send_sample 21000 0 0 0 19693,
     send_sample 22000 0 0 0 18624,
     send_sample 23000 0 0 0 17702,
     send_sample 24000 0 0 0 18865,
     send_sample 25000 0 0 0 19510,
     send_sample 26000 0 0 0 22329,
     send_sample 27000 0 0 0 15787,
     send_sample 28000 0 0 0 15552,
     send_sample 29000 0 0 0 15087,
     send_sample 30000 0 0 0 16749]"

definition grid_0_4 :: jsv where
  "grid_0_4 = Obj
    [(''recv-bytes-rate'', Num (rnd 0)),
     (''send-bytes-rate'', Num (rnd 0)),
     (''samples'', Arr (grid_0_4_a @ grid_0_4_b)),
     (''recv-msg-rate'', Num (rnd 0)),
     (''send-msg-rate'', Num (rnd (17945576923076922 / 1000000000000)))]"

definition grid_0_9_a :: "jsv list" where
  "grid_0_9_a =
    [send_sample 1000 0 0 0 111045,
     send_sample 2000 0 0 0 49222,
     send_sample 3000 0 0 0 112765,
     send_sample 4000 0 0 0 197635,
     send_sample 5000 0 0 0 185344,
     send_sample 6000 0 0 0 173471,
     send_sample 7003 0 0 0 (1722632103688933 / 10000000000),
     send_sample 8003 0 0 0 182059,
     send_sample 9003 0 0 0 180809,
     send_sample 10003 0 0 0 178417,
     send_sample 11003 0 0 0 177954,
     send_sample 12005 0 0 0 (18705688622754492 / 100000000000),
     send_sample 13005 0 0 0 185022,
     send_sample 14005 0 0 0 174212,
     send_sample 15005 0 0 0 167852]"

definition grid_0_9_b :: "jsv list" where
  "grid_0_9_b =
    [send_sample 16005 0 0 0 164855,
     send_sample 17005 0 0 0 162815,
     send_sample 18005 0 0 0 154643,
     send_sample 19005 0 0 0 164231,
     send_sample 20005 0 0 0 172153,
     send_sample 21005 0 0 0 183741,
     send_sample 22005 0 0 0 189129,
     send_sample 23005 0 0 0 172447,
     send_sample 24005 0 0 0 157566,
     send_sample 25005 0 0 0 159554,
     send_sample 26005 0 0 0 155486,
     send_sample 27005 0 0 0 159027,
     send_sample 28005 0 0 0 163089,
     send_sample 29005 0 0 0 169930,
     send_sample 30005 0 0 0 176071]"

definition grid_0_9 :: jsv where
  "grid_0_9 = Obj
    [(''recv-bytes-rate'', Num (rnd 0)),
     (''send-bytes-rate'', Num (rnd 0)),
     (''samples'', Arr (grid_0_9_a @ grid_0_9_b)),
     (''recv-msg-rate'', Num (rnd 0)),
     (''send-msg-rate'', Num (rnd (1720031532397616 / 10000000000)))]"

definition grid_0_8_a :: "jsv list" where
  "grid_0_8_a =
    [send_sample 1000 0 0 0 106967,
     send_sample 2000 0 0 0 43868,
     send_sample 3000 0 0 0 67926,
     send_sample 4000 0 0 0 71882,
     send_sample 5000 0 0 0 32697,
     send_sample 6000 0 0 0 30289,
     send_sample 7000 0 0 0 19653,
     send_sample 8000 0 0 0 24637,
     send_sample 9000 0 0 0 39812,
     send_sample 10000 0 0 0 41593,
     send_sample 11000 0 0 0 32709,
     send_sample 12000 0 0 0 25578,
     send_sample 13000 0 0 0 23513,
     send_sample 14000 0 0 0 24768,
     send_sample 15000 0 0 0 18429]"

definition grid_0_8_b :: "jsv list" where
  "grid_0_8_b =
    [send_sample 16000 0 0 0 31202,
     send_sample 17000 0 0 0 29862,
     send_sample 18000 0 0 0 20144,
     send_sample 19000 0 0 0 27530,
     send_sample 20000 0 0 0 16817,
     send_sample 21000 0 0 0 25324,
     send_sample 22000 0 0 0 20944,
     send_sample 23000 0 0 0 24537,
     send_sample 24000 0 0 0 27273,
     send_sample 25000 0 0 0 16447,
     send_sample 26000 0 0 0 23358,
     send_sample 27000 0 0 0 18949,
     send_sample 28000 0 0 0 21181,
     send_sample 29000 0 0 0 15963,
     send_sample 30000 0 0 0 21406]"

definition grid_0_8 :: jsv where
  "grid_0_8 = Obj
    [(''recv-bytes-rate'', Num (rnd 0)),
     (''send-bytes-rate'', Num (rnd 0)),
     (''samples'', Arr (grid_0_8_a @ grid_0_8_b)),
     (''recv-msg-rate'', Num (rnd 0)),
     (''send-msg-rate'', Num (rnd (25203115384615383 / 1000000000000)))]"

definition grid_0 :: jsv where
  "grid_0 = Obj
    [(''3'', grid_0_3),
     (''2'', grid_0_2),
     (''10'', grid_0_10),
     (''1'', grid_0_1),
     (''7'', grid_0_7),
     (''6'', grid_0_6),
     (''5'', grid_0_5),
     (''4'', grid_0_4),
     (''9'', grid_0_9),
     (''8'', grid_0_8)]"

end
