(* ===== verification/Data_Grid_1000.thy ===== *)
theory Data_Grid_1000
  imports Result_Data
begin

text \<open>
  The runs with messages of 1000 bytes of the scenario \<open>message-sizes-and-producers\<close> of
  \<open>html/examples/various-result.js\<close>: one for each number of producers, in the order of the file.
\<close>

definition grid_1000_3_a :: "jsv list" where
  "grid_1000_3_a =
    [send_sample 1000 0 90265000 0 90265,
     send_sample 2000 0 88623000 0 88623,
     send_sample 3000 0 87734000 0 87734,
     send_sample 4000 0 85913000 0 85913,
     send_sample 5000 0 84693000 0 84693,
     send_sample 6000 0 85558000 0 85558,
     send_sample 7000 0 88734000 0 88734,
     send_sample 8000 0 132746000 0 132746,
     send_sample 9000 0 148315000 0 148315,
     send_sample 10000 0 149566000 0 149566,
     send_sample 11000 0 154785000 0 154785,
     send_sample 12000 0 152635000 0 152635,
     send_sample 13000 0 153887000 0 153887,
     send_sample 14000 0 152010000 0 152010,
     send_sample 15000 0 155997000 0 155997]"

definition grid_1000_3_b :: "jsv list" where
  "grid_1000_3_b =
    [send_sample 16000 0 152859000 0 152859,
     send_sample 17000 0 152547000 0 152547,
     send_sample 18000 0 153135000 0 153135,
     send_sample 19000 0 155201000 0 155201,
     send_sample 20000 0 154272000 0 154272,
     send_sample 21000 0 152431000 0 152431,
     send_sample 22000 0 152639000 0 152639,
     send_sample 23000 0 151599000 0 151599,
     send_sample 24000 0 154996000 0 154996,
     send_sample 25000 0 154744000 0 154744,
     send_sample 26000 0 155497000 0 155497,
     send_sample 27000 0 149837000 0 149837,
     send_sample 28000 0 147858000 0 147858,
     send_sample 29000 0 149941000 0 149941,
     send_sample 30000 0 153906000 0 153906]"

definition grid_1000_3 :: jsv where
  "grid_1000_3 = Obj
    [(''recv-bytes-rate'', Num (rnd 0)),
     (''send-bytes-rate'', Num (rnd (14430453846153846 / 100000000))),
     (''samples'', Arr (grid_1000_3_a @ grid_1000_3_b)),
     (''recv-msg-rate'', Num (rnd 0)),
     (''send-msg-rate'', Num (rnd (14430453846153847 / 100000000000)))]"

definition grid_1000_2_a :: "jsv list" where
  "grid_1000_2_a =
    [send_sample 1000 0 117307000 0 117307,
     send_sample 2000 0 117798000 0 117798,
     send_sample 3000 0 116583000 0 116583,
     send_sample 4000 0 113078000 0 113078,
     send_sample 5000 0 112755000 0 112755,
     send_sample 6000 0 113299000 0 113299,
     send_sample 7000 0 109533000 0 109533,
     send_sample 8000 0 99986000 0 99986,
     send_sample 9000 0 102478000 0 102478,
     send_sample 10000 0 98396000 0 98396,
     send_sample 11000 0 96938000 0 96938,
     send_sample 12000 0 108647000 0 108647,
     send_sample 13000 0 116242000 0 116242,
     send_sample 14000 0 117981000 0 117981,
     send_sample 15000 0 117266000 0 117266]"

definition grid_1000_2_b :: "jsv list" where
  "grid_1000_2_b =
    [send_sample 16000 0 116318000 0 116318,
     send_sample 17000 0 112152000 0 112152,
     send_sample 18000 0 110375000 0 110375,
     send_sample 19000 0 110957000 0 110957,
     send_sample 20000 0 108325000 0 108325,
     send_sample 21000 0 103918000 0 103918,
     send_sample 22000 0 103185000 0 103185,
     send_sample 23000 0 106597000 0 106597,
     send_sample 24000 0 112730000 0 112730,
     send_sample 25000 0 116281000 0 116281,
     send_sample 26000 0 117832000 0 117832,
     send_sample 27000 0 117749000 0 117749,
     send_sample 28000 0 119524000 0 119524,
     send_sample 29000 0 117427000 0 117427,
     send_sample 30000 0 118561000 0 118561]"

definition grid_1000_2 :: jsv where
  "grid_1000_2 = Obj
    [(''recv-bytes-rate'', Num (rnd 0)),
     (''send-bytes-rate'', Num (rnd (11101065384615384 / 100000000))),
     (''samples'', Arr (grid_1000_2_a @ grid_1000_2_b)),
     (''recv-msg-rate'', Num (rnd 0)),
     (''send-msg-rate'', Num (rnd (11101065384615384 / 100000000000)))]"

definition grid_1000_10_a :: "jsv list" where
  "grid_1000_10_a =
    [send_sample 1000 0 143942000 0 143942,
     send_sample 2000 0 146451000 0 146451,
     send_sample 3000 0 145730000 0 145730,
     send_sample 4000 0 164649000 0 164649,
     send_sample 5000 0 165145000 0 165145,
     send_sample 6000 0 169246000 0 169246,
     send_sample 7000 0 172533000 0 172533,
     send_sample 8000 0 163435000 0 163435,
     send_sample 9000 0 170675000 0 170675,
     send_sample 10000 0 167164000 0 167164,
     send_sample 11000 0 167116000 0 167116,
     send_sample 12000 0 169745000 0 169745,
     send_sample 13000 0 157473000 0 157473,
     send_sample 14000 0 163071000 0 163071,
     send_sample 15000 0 167608000 0 167608]"

definition grid_1000_10_b :: "jsv list" where
  "grid_1000_10_b =
    [send_sample 16000 0 167138000 0 167138,
     send_sample 17000 0 167862000 0 167862,
     send_sample 18000 0 163659000 0 163659,
     send_sample 19000 0 158607000 0 158607,
     send_sample 20000 0 166377000 0 166377,
     send_sample 21000 0 167846000 0 167846,
     send_sample 22000 0 163697000 0 163697,
     send_sample 23000 0 157899000 0 157899,
     send_sample 24000 0 154433000 0 154433,
     send_sample 25000 0 132305000 0 132305,
     send_sample 26000 0 141659000 0 141659,
     send_sample 27000 0 145242000 0 145242,
     send_sample 28000 0 138842000 0 138842,
     send_sample 29000 0 121817000 0 121817,
     send_sample 30000 0 134893000 0 134893]"

definition grid_1000_10 :: jsv where
  "grid_1000_10 = Obj
    [(''recv-bytes-rate'', Num (rnd 0)),
     (''send-bytes-rate'', Num (rnd (15847107692307693 / 100000000))),
     (''samples'', Arr (grid_1000_10_a @ grid_1000_10_b)),
     (''recv-msg-rate'', Num (rnd 0)),
     (''send-msg-rate'', Num (rnd (15847107692307694 / 100000000000)))]"

definition grid_1000_1_a :: "jsv list" where
  "grid_1000_1_a =
    [send_sample 1000 0 70467000 0 70467,
     send_sample 2000 0 74088000 0 74088,
     send_sample 3000 0 71123000 0 71123,
     send_sample 4000 0 78098000 0 78098,
     send_sample 5001 0 (7513386613386613 / 100000000) 0 (7513386613386613 / 100000000000),
     send_sample 6001 0 77009000 0 77009,
     send_sample 7001 0 71955000 0 71955,
     send_sample 8001 0 62018000 0 62018,
     send_sample 9001 0 68283000 0 68283,
     send_sample 10001 0 68592000 0 68592,
     send_sample 11004 0 (7178564307078764 / 100000000) 0 (7178564307078764 / 100000000000),
     send_sample 12004 0 70404000 0 70404,
     send_sample 13010 0 (7398011928429423 / 100000000) 0 (7398011928429424 / 100000000000),
     send_sample 14010 0 76379000 0 76379,
     send_sample 15014 0 (7264541832669322 / 100000000) 0 (7264541832669322 / 100000000000)]"

definition grid_1000_1_b :: "jsv list" where
  "grid_1000_1_b =
    [send_sample 16014 0 77050000 0 77050,
     send_sample 17014 0 70429000 0 70429,
     send_sample 18014 0 67455000 0 67455,
     send_sample 19014 0 75069000 0 75069,
     send_sample 20016 0 (7637624750499003 / 100000000) 0 (7637624750499002 / 100000000000),
     send_sample 21016 0 79891000 0 79891,
     send_sample 22016 0 75537000 0 75537,
     send_sample 23016 0 76861000 0 76861,
     send_sample 24019 0 (7937886340977068 / 100000000) 0 (7937886340977068 / 100000000000),
     send_sample 25019 0 78184000 0 78184,
     send_sample 26019 0 79490000 0 79490,
     send_sample 27019 0 78078000 0 78078,
     send_sample 28019 0 75380000 0 75380,
     send_sample 29022 0 (7676470588235293 / 100000000) 0 (7676470588235294 / 100000000000)]"

definition grid_1000_1 :: jsv where
  "grid_1000_1 = Obj
    [(''recv-bytes-rate'', Num (rnd 0)),
     (''send-bytes-rate'', Num (rnd (77191111821597 / 1000000))),
     (''samples'', Arr (grid_1000_1_a @ grid_1000_1_b)),
     (''recv-msg-rate'', Num (rnd 0)),
     (''send-msg-rate'', Num (rnd (7719111182159699 / 100000000000)))]"

definition grid_1000_7_a :: "jsv list" where
  "grid_1000_7_a =
    [send_sample 1000 0 112984000 0 112984,
     send_sample 2000 0 115000000 0 115000,
     send_sample 3000 0 117700000 0 117700,
     send_sample 4000 0 118302000 0 118302,
     send_sample 5000 0 128244000 0 128244,
     send_sample 6000 0 130784000 0 130784,
     send_sample 7000 0 125559000 0 125559,
     send_sample 8000 0 122937000 0 122937,
     send_sample 9000 0 128365000 0 128365,
     send_sample 10000 0 131366000 0 131366,
     send_sample 11000 0 126919000 0 126919,
     send_sample 12000 0 116904000 0 116904,
     send_sample 13000 0 115438000 0 115438,
     send_sample 14000 0 118999000 0 118999,
     send_sample 15000 0 103477000 0 103477]"

definition grid_1000_7_b :: "jsv list" where
  "grid_1000_7_b =
    [send_sample 16000 0 116877000 0 116877,
     send_sample 17000 0 108693000 0 108693,
     send_sample 18001 0 (9935864135864136 / 100000000) 0 (9935864135864135 / 100000000000),
     send_sample 19001 0 108260000 0 108260,
     send_sample 20001 0 117346000 0 117346,
     send_sample 21001 0 121833000 0 121833,
     send_sample 22001 0 116848000 0 116848,
     send_sample 23001 0 127543000 0 127543,
     send_sample 24001 0 115623000 0 115623,
     send_sample 25001 0 112486000 0 112486,
     send_sample 26001 0 134771000 0 134771,
     send_sample 27001 0 144970000 0 144970,
     send_sample 28001 0 143660000 0 143660,
     send_sample 29001 0 143897000 0 143897,
     send_sample 30001 0 154785000 0 154785]"

definition grid_1000_7 :: jsv where
  "grid_1000_7 = Obj
    [(''recv-bytes-rate'', Num (rnd 0)),
     (''send-bytes-rate'', Num (rnd (12385639013884081 / 100000000))),
     (''samples'', Arr (grid_1000_7_a @ grid_1000_7_b)),
     (''recv-msg-rate'', Num (rnd 0)),
     (''send-msg-rate'', Num (rnd (12385639013884081 / 100000000000)))]"

definition grid_1000_6_a :: "jsv list" where
  "grid_1000_6_a =
    [send_sample 1000 0 110035000 0 110035,
     send_sample 2000 0 119994000 0 119994,
     send_sample 3000 0 118956000 0 118956,
     send_sample 4000 0 122558000 0 122558,
     send_sample 5000 0 125854000 0 125854,
     send_sample 6000 0 111988000 0 111988,
     send_sample 7000 0 123206000 0 123206,
     send_sample 8000 0 122658000 0 122658,
     send_sample 9000 0 126022000 0 126022,
     send_sample 10000 0 126854000 0 126854,
     send_sample 11000 0 126799000 0 126799,
     send_sample 12000 0 129064000 0 129064,
     send_sample 13002 0 (13522754491017964 / 100000000) 0 (13522754491017965 / 100000000000),
     send_sample 14003 0 (13346753246753247 / 100000000) 0 (13346753246753247 / 100000000000),
     send_sample 15003 0 139454000 0 139454]"

definition grid_1000_6_b :: "jsv list" where
  "grid_1000_6_b =
    [send_sample 16005 0 (13243213572854292 / 100000000) 0 (13243213572854293 / 100000000000),
     send_sample 17005 0 135055000 0 135055,
     send_sample 18005 0 132969000 0 132969,
     send_sample 19005 0 132935000 0 132935,
     send_sample 20005 0 129942000 0 129942,
     send_sample 21005 0 116516000 0 116516,
     send_sample 22005 0 119409000 0 119409,
     send_sample 23005 0 125441000 0 125441,
     send_sample 24005 0 120803000 0 120803,
     send_sample 25005 0 124393000 0 124393,
     send_sample 26005 0 108271000 0 108271,
     send_sample 27005 0 106484000 0 106484,
     send_sample 28005 0 105874000 0 105874,
     send_sample 29005 0 109745000 0 109745,
     send_sample 30005 0 119348000 0 119348]"

definition grid_1000_6 :: jsv where
  "grid_1000_6 = Obj
    [(''recv-bytes-rate'', Num (rnd 0)),
     (''send-bytes-rate'', Num (rnd (12399115554701018 / 100000000))),
     (''samples'', Arr (grid_1000_6_a @ grid_1000_6_b)),
     (''recv-msg-rate'', Num (rnd 0)),
     (''send-msg-rate'', Num (rnd (12399115554701019 / 100000000000)))]"

definition grid_1000_5_a :: "jsv list" where
  "grid_1000_5_a =
    [send_sample 1000 0 147920000 0 147920,
     send_sample 2000 0 147382000 0 147382,
     send_sample 3000 0 156159000 0 156159,
     send_sample 4000 0 152937000 0 152937,
     send_sample 5000 0 155783000 0 155783,
     send_sample 6000 0 151135000 0 151135,
     send_sample 7000 0 142759000 0 142759,
     send_sample 8000 0 139130000 0 139130,
     send_sample 9000 0 135377000 0 135377,
     send_sample 10000 0 139568000 0 139568,
     send_sample 11000 0 137842000 0 137842,
     send_sample 12000 0 144870000 0 144870,
     send_sample 13000 0 146955000 0 146955,
     send_sample 14000 0 140164000 0 140164,
     send_sample 15000 0 137732000 0 137732]"

definition grid_1000_5_b :: "jsv list" where
  "grid_1000_5_b =
    [send_sample 16000 0 138205000 0 138205,
     send_sample 17000 0 142054000 0 142054,
     send_sample 18000 0 142279000 0 142279,
     send_sample 19000 0 140079000 0 140079,
     send_sample 20000 0 136002000 0 136002,
     send_sample 21000 0 150643000 0 150643,
     send_sample 22000 0 154017000 0 154017,
     send_sample 23000 0 150969000 0 150969,
     send_sample 24000 0 150407000 0 150407,
     send_sample 25000 0 138625000 0 138625,
     send_sample 26000 0 125057000 0 125057,
     send_sample 27000 0 128239000 0 128239,
     send_sample 28000 0 135296000 0 135296,
     send_sample 29000 0 129357000 0 129357,
     send_sample 30000 0 118661000 0 118661]"

definition grid_1000_5 :: jsv where
  "grid_1000_5 = Obj
    [(''recv-bytes-rate'', Num (rnd 0)),
     (''send-bytes-rate'', Num (rnd (14047519230769232 / 100000000))),
     (''samples'', Arr (grid_1000_5_a @ grid_1000_5_b)),
     (''recv-msg-rate'', Num (rnd 0)),
     (''send-msg-rate'', Num (rnd (1404751923076923 / 10000000000)))]"

definition grid_1000_4_a :: "jsv list" where
  "grid_1000_4_a =
    [send_sample 1000 0 166731000 0 166731,
     send_sample 2000 0 169714000 0 169714,
     send_sample 3000 0 152597000 0 152597,
     send_sample 4000 0 162003000 0 162003,
     send_sample 5000 0 161673000 0 161673,
     send_sample 6000 0 161041000 0 161041,
     send_sample 7000 0 150702000 0 150702,
     send_sample 8000 0 137975000 0 137975,
     send_sample 9000 0 141528000 0 141528,
     send_sample 10000 0 143270000 0 143270,
     send_sample 11000 0 147749000 0 147749,
     send_sample 12000 0 150369000 0 150369,
     send_sample 13000 0 152092000 0 152092,
     send_sample 14000 0 156476000 0 156476,
     send_sample 15000 0 170515000 0 170515]"

definition grid_1000_4_b :: "jsv list" where
  "grid_1000_4_b =
    [send_sample 16000 0 170944000 0 170944,
     send_sample 17000 0 162857000 0 162857,
     send_sample 18000 0 151741000 0 151741,
     send_sample 19000 0 160088000 0 160088,
     send_sample 20000 0 162237000 0 162237,
     send_sample 21000 0 163689000 0 163689,
     send_sample 22001 0 (16264235764235765 / 100000000) 0 (16264235764235765 / 100000000000),
     send_sample 23001 0 155233000 0 155233,
     send_sample 24001 0 156954000 0 156954,
     send_sample 25001 0 153639000 0 153639,
     send_sample 26001 0 159215000 0 159215,
     send_sample 27001 0 162321000 0 162321,
     send_sample 28001 0 159308000 0 159308,
     send_sample 29001 0 157888000 0 157888,
     send_sample 30001 0 163633000 0 163633]"

definition grid_1000_4 :: jsv where
  "grid_1000_4 = Obj
    [(''recv-bytes-rate'', Num (rnd 0)),
     (''send-bytes-rate'', Num (rnd (1568527364332141 / 10000000))),
     (''samples'', Arr (grid_1000_4_a @ grid_1000_4_b)),
     (''recv-msg-rate'', Num (rnd 0)),
     (''send-msg-rate'', Num (rnd (1568527364332141 / 10000000000)))]"

definition grid_1000_9_a :: "jsv list" where
  "grid_1000_9_a =
    [send_sample 1000 0 106724000 0 106724,
     send_sample 2004 0 (11004482071713147 / 100000000) 0 (11004482071713147 / 100000000000),
     send_sample 3004 0 113292000 0 113292,
     send_sample 4008 0 (10709860557768925 / 100000000) 0 (10709860557768925 / 100000000000),
     send_sample 5008 0 114278000 0 114278,
     send_sample 6008 0 121077000 0 121077,
     send_sample 7008 0 130891000 0 130891,
     send_sample 8008 0 127682000 0 127682,
     send_sample 9008 0 146712000 0 146712,
     send_sample 10008 0 155882000 0 155882,
     send_sample 11008 0 155264000 0 155264,
     send_sample 12008 0 148692000 0 148692,
     send_sample 13008 0 140513000 0 140513,
     send_sample 14008 0 135298000 0 135298,
     send_sample 15008 0 123721000 0 123721]"

definition grid_1000_9_b :: "jsv list" where
  "grid_1000_9_b =
    [send_sample 16008 0 126136000 0 126136,
     send_sample 17008 0 118969000 0 118969,
     send_sample 18008 0 109990000 0 109990,
     send_sample 19008 0 118067000 0 118067,
     send_sample 20008 0 134410000 0 134410,
     send_sample 21008 0 135651000 0 135651,
     send_sample 22008 0 123944000 0 123944,
     send_sample 23008 0 143886000 0 143886,
     send_sample 24008 0 155261000 0 155261,
     send_sample 25008 0 150023000 0 150023,
     send_sample 26008 0 153897000 0 153897,
     send_sample 27008 0 151771000 0 151771,
     send_sample 28008 0 140572000 0 140572,
     send_sample 29008 0 140546000 0 140546,
     send_sample 30008 0 128653000 0 128653]"

definition grid_1000_9 :: jsv where
  "grid_1000_9 = Obj
    [(''recv-bytes-rate'', Num (rnd 0)),
     (''send-bytes-rate'', Num (rnd (13599292307692307 / 100000000))),
     (''samples'', Arr (grid_1000_9_a @ grid_1000_9_b)),
     (''recv-msg-rate'', Num (rnd 0)),
     (''send-msg-rate'', Num (rnd (13599292307692306 / 100000000000)))]"

definition grid_1000_8_a :: "jsv list" where
  "grid_1000_8_a =
    [send_sample 1000 0 157605000 0 157605,
     send_sample 2000 0 159184000 0 159184,
     send_sample 3000 0 163520000 0 163520,
     send_sample 4000 0 160734000 0 160734,
     send_sample 5000 0 164795000 0 164795,
     send_sample 6000 0 163537000 0 163537,
     send_sample 7000 0 160896000 0 160896,
     send_sample 8000 0 163545000 0 163545,
     send_sample 9000 0 165706000 0 165706,
     send_sample 10000 0 166610000 0 166610,
     send_sample 11000 0 166860000 0 166860,
     send_sample 12000 0 158930000 0 158930,
     send_sample 13000 0 161817000 0 161817,
     send_sample 14000 0 165270000 0 165270,
     send_sample 15000 0 156502000 0 156502]"

definition grid_1000_8_b :: "jsv list" where
  "grid_1000_8_b =
    [send_sample 16001 0 (16135864135864136 / 100000000) 0 (16135864135864135 / 100000000000),
     send_sample 17001 0 162259000 0 162259,
     send_sample 18001 0 166366000 0 166366,
     send_sample 19001 0 165093000 0 165093,
     send_sample 20001 0 158461000 0 158461,
     send_sample 21001 0 161488000 0 161488,
     send_sample 22001 0 163950000 0 163950,
     send_sample 23001 0 153571000 0 153571,
     send_sample 24001 0 146152000 0 146152,
     send_sample 25001 0 145442000 0 145442,
     send_sample 26002 0 (14124675324675325 / 100000000) 0 (14124675324675324 / 100000000000),
     send_sample 27002 0 130760000 0 130760,
     send_sample 28002 0 125109000 0 125109,
     send_sample 29002 0 107263000 0 107263,
     send_sample 30002 0 96732000 0 96732]"

definition grid_1000_8 :: jsv where
  "grid_1000_8 = Obj
    [(''recv-bytes-rate'', Num (rnd 0)),
     (''send-bytes-rate'', Num (rnd (15317464041227597 / 100000000))),
     (''samples'', Arr (grid_1000_8_a @ grid_1000_8_b)),
     (''recv-msg-rate'', Num (rnd 0)),
     (''send-msg-rate'', Num (rnd (15317464041227597 / 100000000000)))]"

definition grid_1000 :: jsv where
  "grid_1000 = Obj
    [(''3'', grid_1000_3),
     (''2'', grid_1000_2),
     (''10'', grid_1000_10),
     (''1'', grid_1000_1),
     (''7'', grid_1000_7),
     (''6'', grid_1000_6),
     (''5'', grid_1000_5),
     (''4'', grid_1000_4),
     (''9'', grid_1000_9),
     (''8'', grid_1000_8)]"

end
