(* ===== verification/Data_Grid_100000.thy ===== *)
theory Data_Grid_100000
  imports Result_Data
begin

text \<open>
  The runs with messages of 100000 bytes of the scenario \<open>message-sizes-and-producers\<close> of
  \<open>html/examples/various-result.js\<close>: one for each number of producers, in the order of the file.
\<close>

definition grid_100000_3_a :: "jsv list" where
  "grid_100000_3_a =
    [send_sample 1000 0 1741500000 0 17415,
     send_sample 2000 0 1667600000 0 16676,
     send_sample 3000 0 1747500000 0 17475,
     send_sample 4000 0 1751600000 0 17516,
     send_sample 5000 0 1634300000 0 16343,
     send_sample 6000 0 1830400000 0 18304,
     send_sample 7000 0 1806200000 0 18062,
     send_sample 8000 0 1761400000 0 17614,
     send_sample 9000 0 1792500000 0 17925,
     send_sample 10000 0 1721800000 0 17218,
     send_sample 11000 0 1757100000 0 17571,
     send_sample 12000 0 1763400000 0 17634,
     send_sample 13000 0 1761200000 0 17612,
     send_sample 14000 0 1787600000 0 17876,
     send_sample 15000 0 1771200000 0 17712]"

definition grid_100000_3_b :: "jsv list" where
  "grid_100000_3_b =
    [send_sample 16000 0 1815800000 0 18158,
     send_sample 17000 0 1839400000 0 18394,
     send_sample 18000 0 1832800000 0 18328,
     send_sample 19000 0 1849800000 0 18498,
     send_sample 20000 0 1832000000 0 18320,
     send_sample 21000 0 1815400000 0 18154,
     send_sample 22000 0 1771400000 0 17714,
     send_sample 23000 0 1775300000 0 17753,
     send_sample 24000 0 1826400000 0 18264,
     send_sample 25000 0 1835800000 0 18358,
     send_sample 26000 0 1864200000 0 18642,
     send_sample 27000 0 1847100000 0 18471,
     send_sample 28000 0 1772400000 0 17724,
     send_sample 29000 0 1822100000 0 18221,
     send_sample 30000 0 1816400000 0 18164]"

definition grid_100000_3 :: jsv where
  "grid_100000_3 = Obj
    [(''recv-bytes-rate'', Num (rnd 0)),
     (''send-bytes-rate'', Num (rnd (17969846153846152 / 10000000))),
     (''samples'', Arr (grid_100000_3_a @ grid_100000_3_b)),
     (''recv-msg-rate'', Num (rnd 0)),
     (''send-msg-rate'', Num (rnd (17969846153846152 / 1000000000000)))]"

definition grid_100000_2_a :: "jsv list" where
  "grid_100000_2_a =
    [send_sample 1000 0 1394300000 0 13943,
     send_sample 2000 0 1477700000 0 14777,
     send_sample 3000 0 1547900000 0 15479,
     send_sample 4000 0 1474300000 0 14743,
     send_sample 5000 0 1562700000 0 15627,
     send_sample 6000 0 1639700000 0 16397,
     send_sample 7000 0 1578200000 0 15782,
     send_sample 8000 0 1750000000 0 17500,
     send_sample 9000 0 1696200000 0 16962,
     send_sample 10000 0 1573800000 0 15738,
     send_sample 11000 0 1523700000 0 15237,
     send_sample 12000 0 1496700000 0 14967,
     send_sample 13000 0 1495600000 0 14956,
     send_sample 14000 0 1528200000 0 15282,
     send_sample 15000 0 1592500000 0 15925]"

definition grid_100000_2_b :: "jsv list" where
  "grid_100000_2_b =
    [send_sample 16000 0 1625400000 0 16254,
     send_sample 17000 0 1678900000 0 16789,
     send_sample 18000 0 1666300000 0 16663,
     send_sample 19000 0 1544200000 0 15442,
     send_sample 20000 0 1473000000 0 14730,
     send_sample 21000 0 1473500000 0 14735,
     send_sample 22000 0 1471300000 0 14713,
     send_sample 23000 0 1552000000 0 15520,
     send_sample 24000 0 1607000000 0 16070,
     send_sample 25000 0 1596400000 0 15964,
     send_sample 26000 0 1658800000 0 16588,
     send_sample 27000 0 1690600000 0 16906,
     send_sample 28000 0 1728900000 0 17289,
     send_sample 29000 0 1714600000 0 17146,
     send_sample 30000 0 1720900000 0 17209]"

definition grid_100000_2 :: jsv where
  "grid_100000_2 = Obj
    [(''recv-bytes-rate'', Num (rnd 0)),
     (''send-bytes-rate'', Num (rnd 1601900000)),
     (''samples'', Arr (grid_100000_2_a @ grid_100000_2_b)),
     (''recv-msg-rate'', Num (rnd 0)),
     (''send-msg-rate'', Num (rnd 16019))]"

definition grid_100000_10_a :: "jsv list" where
  "grid_100000_10_a =
    [send_sample 1000 0 1443700000 0 14437,
     send_sample 2000 0 1502700000 0 15027,
     send_sample 3000 0 1477900000 0 14779,
     send_sample 4000 0 1423400000 0 14234,
     send_sample 5000 0 1508800000 0 15088,
     send_sample 6000 0 1491300000 0 14913,
     send_sample 7001 0 (14916083916083918 / 10000000) 0 (14916083916083917 / 1000000000000),
     send_sample 8001 0 1470300000 0 14703,
     send_sample 9001 0 1443000000 0 14430,
     send_sample 10001 0 1448000000 0 14480,
     send_sample 11001 0 1469800000 0 14698,
     send_sample 12001 0 1453600000 0 14536,
     send_sample 13001 0 1464400000 0 14644,
     send_sample 14001 0 1489900000 0 14899,
     send_sample 15001 0 1535700000 0 15357]"

definition grid_100000_10_b :: "jsv list" where
  "grid_100000_10_b =
    [send_sample 16001 0 1505400000 0 15054,
     send_sample 17001 0 1485300000 0 14853,
     send_sample 18001 0 1502300000 0 15023,
     send_sample 19001 0 1509000000 0 15090,
     send_sample 20001 0 1455300000 0 14553,
     send_sample 21001 0 1440400000 0 14404,
     send_sample 22001 0 1479500000 0 14795,
     send_sample 23001 0 1491100000 0 14911,
     send_sample 24001 0 1510000000 0 15100,
     send_sample 25001 0 1505900000 0 15059,
     send_sample 26001 0 1485000000 0 14850,
     send_sample 27001 0 1517500000 0 15175,
     send_sample 28001 0 1481200000 0 14812,
     send_sample 29001 0 1440000000 0 14400,
     send_sample 30001 0 1497700000 0 14977]"

definition grid_100000_10 :: jsv where
  "grid_100000_10 = Obj
    [(''recv-bytes-rate'', Num (rnd 0)),
     (''send-bytes-rate'', Num (rnd (14855082496827044 / 10000000))),
     (''samples'', Arr (grid_100000_10_a @ grid_100000_10_b)),
     (''recv-msg-rate'', Num (rnd 0)),
     (''send-msg-rate'', Num (rnd (14855082496827044 / 1000000000000)))]"

definition grid_100000_1_a :: "jsv list" where
  "grid_100000_1_a =
    [send_sample 1151 0 (8696785403996524 / 100000000) 0 (8696785403996524 / 10000000000000),
     send_sample 2161 0 (8603960396039604 / 100000000) 0 (8603960396039604 / 10000000000000),
     send_sample 3161 0 1023300000 0 10233,
     send_sample 4161 0 1360300000 0 13603,
     send_sample 5161 0 1350400000 0 13504,
     send_sample 6161 0 1354400000 0 13544,
     send_sample 7161 0 1349800000 0 13498,
     send_sample 8161 0 1340200000 0 13402,
     send_sample 9161 0 1354500000 0 13545,
     send_sample 10161 0 1306700000 0 13067,
     send_sample 11161 0 1333400000 0 13334,
     send_sample 12161 0 1349600000 0 13496,
     send_sample 13161 0 1350400000 0 13504,
     send_sample 14161 0 1347800000 0 13478,
     send_sample 15161 0 1279600000 0 12796]"

definition grid_100000_1_b :: "jsv list" where
  "grid_100000_1_b =
    [send_sample 16161 0 1146500000 0 11465,
     send_sample 17161 0 1145600000 0 11456,
     send_sample 18161 0 1164600000 0 11646,
     send_sample 19161 0 1206300000 0 12063,
     send_sample 20161 0 1232300000 0 12323,
     send_sample 21161 0 1306400000 0 13064,
     send_sample 22161 0 1343900000 0 13439,
     send_sample 23161 0 1374600000 0 13746,
     send_sample 24161 0 1360300000 0 13603,
     send_sample 25161 0 1318700000 0 13187,
     send_sample 26161 0 1290300000 0 12903,
     send_sample 27161 0 1278800000 0 12788,
     send_sample 28161 0 1306400000 0 13064,
     send_sample 29161 0 1275400000 0 12754]"

definition grid_100000_1 :: jsv where
  "grid_100000_1 = Obj
    [(''recv-bytes-rate'', Num (rnd 0)),
     (''send-bytes-rate'', Num (rnd 1342948000)),
     (''samples'', Arr (grid_100000_1_a @ grid_100000_1_b)),
     (''recv-msg-rate'', Num (rnd 0)),
     (''send-msg-rate'', Num (rnd (1342948 / 100)))]"

definition grid_100000_7_a :: "jsv list" where
  "grid_100000_7_a =
    [send_sample 1000 0 1452300000 0 14523,
     send_sample 2000 0 1462200000 0 14622,
     send_sample 3000 0 1491900000 0 14919,
     send_sample 4000 0 1444500000 0 14445,
     send_sample 5000 0 1501900000 0 15019,
     send_sample 6000 0 1504100000 0 15041,
     send_sample 7000 0 1515200000 0 15152,
     send_sample 8000 0 1485000000 0 14850,
     send_sample 9000 0 1467000000 0 14670,
     send_sample 10000 0 1515000000 0 15150,
     send_sample 11000 0 1534500000 0 15345,
     send_sample 12000 0 1513000000 0 15130,
     send_sample 13000 0 1497600000 0 14976,
     send_sample 14000 0 1487200000 0 14872,
     send_sample 15000 0 1487700000 0 14877]"

definition grid_100000_7_b :: "jsv list" where
  "grid_100000_7_b =
    [send_sample 16000 0 1504100000 0 15041,
     send_sample 17000 0 1491100000 0 14911,
     send_sample 18000 0 1535900000 0 15359,
     send_sample 19000 0 1499100000 0 14991,
     send_sample 20000 0 1504700000 0 15047,
     send_sample 21000 0 1502900000 0 15029,
     send_sample 22000 0 1501600000 0 15016,
     send_sample 23000 0 1489700000 0 14897,
     send_sample 24000 0 1508200000 0 15082,
     send_sample 25000 0 1529100000 0 15291,
     send_sample 26000 0 1518100000 0 15181,
     send_sample 27000 0 1532500000 0 15325,
     send_sample 28000 0 1521900000 0 15219,
     send_sample 29000 0 1469700000 0 14697,
     send_sample 30000 0 1485900000 0 14859]"

definition grid_100000_7 :: jsv where
  "grid_100000_7 = Obj
    [(''recv-bytes-rate'', Num (rnd 0)),
     (''send-bytes-rate'', Num (rnd (15054692307692308 / 10000000))),
     (''samples'', Arr (grid_100000_7_a @ grid_100000_7_b)),
     (''recv-msg-rate'', Num (rnd 0)),
     (''send-msg-rate'', Num (rnd (15054692307692309 / 1000000000000)))]"

definition grid_100000_6_a :: "jsv list" where
  "grid_100000_6_a =
    [send_sample 1000 0 1513200000 0 15132,
     send_sample 2000 0 1550300000 0 15503,
     send_sample 3000 0 1587100000 0 15871,
     send_sample 4000 0 1530800000 0 15308,
     send_sample 5000 0 1519800000 0 15198,
     send_sample 6000 0 1543100000 0 15431,
     send_sample 7000 0 1573800000 0 15738,
     send_sample 8000 0 1581500000 0 15815,
     send_sample 9000 0 1570600000 0 15706,
     send_sample 10000 0 1609400000 0 16094,
     send_sample 11000 0 1583400000 0 15834,
     send_sample 12000 0 1578000000 0 15780,
     send_sample 13000 0 1595600000 0 15956,
     send_sample 14000 0 1581400000 0 15814,
     send_sample 15000 0 1573200000 0 15732]"

definition grid_100000_6_b :: "jsv list" where
  "grid_100000_6_b =
    [send_sample 16000 0 1573600000 0 15736,
     send_sample 17000 0 1562600000 0 15626,
     send_sample 18000 0 1561200000 0 15612,
     send_sample 19000 0 1550500000 0 15505,
     send_sample 20000 0 1542200000 0 15422,
     send_sample 21000 0 1499200000 0 14992,
     send_sample 22000 0 1423100000 0 14231,
     send_sample 23000 0 1376100000 0 13761,
     send_sample 24000 0 1381400000 0 13814,
     send_sample 25000 0 1389600000 0 13896,
     send_sample 26000 0 1459400000 0 14594,
     send_sample 27000 0 1528900000 0 15289,
     send_sample 28000 0 1538800000 0 15388,
     send_sample 29000 0 1582500000 0 15825,
     send_sample 30000 0 1544300000 0 15443]"

definition grid_100000_6 :: jsv where
  "grid_100000_6 = Obj
    [(''recv-bytes-rate'', Num (rnd 0)),
     (''send-bytes-rate'', Num (rnd (15330115384615386 / 10000000))),
     (''samples'', Arr (grid_100000_6_a @ grid_100000_6_b)),
     (''recv-msg-rate'', Num (rnd 0)),
     (''send-msg-rate'', Num (rnd (15330115384615385 / 1000000000000)))]"

definition grid_100000_5_a :: "jsv list" where
  "grid_100000_5_a =
    [send_sample 1000 0 1606100000 0 16061,
     send_sample 2000 0 1655800000 0 16558,
     send_sample 3000 0 1671300000 0 16713,
     send_sample 4000 0 1704200000 0 17042,
     send_sample 5000 0 1619200000 0 16192,
     send_sample 6000 0 1675500000 0 16755,
     send_sample 7000 0 1646400000 0 16464,
     send_sample 8000 0 1624200000 0 16242,
     send_sample 9000 0 1655000000 0 16550,
     send_sample 10000 0 1626000000 0 16260,
     send_sample 11000 0 1636300000 0 16363,
     send_sample 12000 0 1643600000 0 16436,
     send_sample 13000 0 1641500000 0 16415,
     send_sample 14000 0 1700000000 0 17000,
     send_sample 15000 0 1649000000 0 16490]"

definition grid_100000_5_b :: "jsv list" where
  "grid_100000_5_b =
    [send_sample 16000 0 1629300000 0 16293,
     send_sample 17000 0 1632500000 0 16325,
     send_sample 18000 0 1648300000 0 16483,
     send_sample 19001 0 (16527472527472527 / 10000000) 0 (16527472527472528 / 1000000000000),
     send_sample 20001 0 1630300000 0 16303,
     send_sample 21001 0 1639300000 0 16393,
     send_sample 22002 0 (16706293706293705 / 10000000) 0 (16706293706293705 / 1000000000000),
     send_sample 23002 0 1640400000 0 16404,
     send_sample 24002 0 1658900000 0 16589,
     send_sample 25002 0 1625500000 0 16255,
     send_sample 26002 0 1629000000 0 16290,
     send_sample 27004 0 (16507984031936128 / 10000000) 0 (1650798403193613 / 100000000000),
     send_sample 28004 0 1620800000 0 16208,
     send_sample 29004 0 1625700000 0 16257,
     send_sample 30004 0 1609900000 0 16099]"

definition grid_100000_5 :: jsv where
  "grid_100000_5 = Obj
    [(''recv-bytes-rate'', Num (rnd 0)),
     (''send-bytes-rate'', Num (rnd (1642281956622058 / 1000000))),
     (''samples'', Arr (grid_100000_5_a @ grid_100000_5_b)),
     (''recv-msg-rate'', Num (rnd 0)),
     (''send-msg-rate'', Num (rnd (1642281956622058 / 100000000000)))]"

definition grid_100000_4_a :: "jsv list" where
  "grid_100000_4_a =
    [send_sample 1000 0 1764400000 0 17644,
     send_sample 2000 0 1749200000 0 17492,
     send_sample 3000 0 1718600000 0 17186,
     send_sample 4000 0 1728900000 0 17289,
     send_sample 5000 0 1707400000 0 17074,
     send_sample 6000 0 1736100000 0 17361,
     send_sample 7000 0 1739800000 0 17398,
     send_sample 8000 0 1719300000 0 17193,
     send_sample 9000 0 1708700000 0 17087,
     send_sample 10000 0 1703600000 0 17036,
     send_sample 11000 0 1756500000 0 17565,
     send_sample 12000 0 1765500000 0 17655,
     send_sample 13000 0 1719800000 0 17198,
     send_sample 14000 0 1690900000 0 16909,
     send_sample 15000 0 1706600000 0 17066]"

definition grid_100000_4_b :: "jsv list" where
  "grid_100000_4_b =
    [send_sample 16000 0 1712600000 0 17126,
     send_sample 17000 0 1714800000 0 17148,
     send_sample 18000 0 1731300000 0 17313,
     send_sample 19000 0 1728000000 0 17280,
     send_sample 20000 0 1725200000 0 17252,
     send_sample 21000 0 1703200000 0 17032,
     send_sample 22000 0 1695700000 0 16957,
     send_sample 23000 0 1711100000 0 17111,
     send_sample 24000 0 1701100000 0 17011,
     send_sample 25000 0 1711600000 0 17116,
     send_sample 26000 0 1695700000 0 16957,
     send_sample 27000 0 1720100000 0 17201,
     send_sample 28000 0 1698800000 0 16988,
     send_sample 29000 0 1718100000 0 17181,
     send_sample 30000 0 1672700000 0 16727]"

definition grid_100000_4 :: jsv where
  "grid_100000_4 = Obj
    [(''recv-bytes-rate'', Num (rnd 0)),
     (''send-bytes-rate'', Num (rnd (17160653846153848 / 10000000))),
     (''samples'', Arr (grid_100000_4_a @ grid_100000_4_b)),
     (''recv-msg-rate'', Num (rnd 0)),
     (''send-msg-rate'', Num (rnd (17160653846153848 / 1000000000000)))]"

definition grid_100000_9_a :: "jsv list" where
  "grid_100000_9_a =
    [send_sample 1000 0 1424300000 0 14243,
     send_sample 2000 0 1515200000 0 15152,
     send_sample 3000 0 1434100000 0 14341,
     send_sample 4000 0 1356000000 0 13560,
     send_sample 5000 0 1347800000 0 13478,
     send_sample 6000 0 1356600000 0 13566,
     send_sample 7000 0 1368100000 0 13681,
     send_sample 8000 0 1407500000 0 14075,
     send_sample 9000 0 1460900000 0 14609,
     send_sample 10000 0 1487000000 0 14870,
     send_sample 11001 0 (15032967032967033 / 10000000) 0 (15032967032967033 / 1000000000000),
     send_sample 12001 0 1503000000 0 15030,
     send_sample 13001 0 1471500000 0 14715,
     send_sample 14001 0 1414800000 0 14148,
     send_sample 15001 0 1363700000 0 13637]"

definition grid_100000_9_b :: "jsv list" where
  "grid_100000_9_b =
    [send_sample 16002 0 (1307992007992008 / 1000000) 0 (1307992007992008 / 100000000000),
     send_sample 17002 0 1348200000 0 13482,
     send_sample 18002 0 1417100000 0 14171,
     send_sample 19002 0 1424300000 0 14243,
     send_sample 20002 0 1495800000 0 14958,
     send_sample 21002 0 1507300000 0 15073,
     send_sample 22002 0 1468500000 0 14685,
     send_sample 23002 0 1534900000 0 15349,
     send_sample 24002 0 1451400000 0 14514,
     send_sample 25003 0 (14667332667332666 / 10000000) 0 (14667332667332666 / 1000000000000),
     send_sample 26003 0 1477400000 0 14774,
     send_sample 27003 0 1506900000 0 15069,
     send_sample 28003 0 1506700000 0 15067,
     send_sample 29003 0 1489300000 0 14893,
     send_sample 30003 0 1488200000 0 14882]"

definition grid_100000_9 :: jsv where
  "grid_100000_9 = Obj
    [(''recv-bytes-rate'', Num (rnd 0)),
     (''send-bytes-rate'', Num (rnd (14466946121601353 / 10000000))),
     (''samples'', Arr (grid_100000_9_a @ grid_100000_9_b)),
     (''recv-msg-rate'', Num (rnd 0)),
     (''send-msg-rate'', Num (rnd (14466946121601353 / 1000000000000)))]"

definition grid_100000_8_a :: "jsv list" where
  "grid_100000_8_a =
    [send_sample 1000 0 1437700000 0 14377,
     send_sample 2000 0 1537800000 0 15378,
     send_sample 3000 0 1508600000 0 15086,
     send_sample 4000 0 1549000000 0 15490,
     send_sample 5000 0 1482800000 0 14828,
     send_sample 6000 0 1465300000 0 14653,
     send_sample 7000 0 1476900000 0 14769,
     send_sample 8000 0 1489400000 0 14894,
     send_sample 9000 0 1478300000 0 14783,
     send_sample 10000 0 1501900000 0 15019,
     send_sample 11001 0 (1517882117882118 / 1000000) 0 (1517882117882118 / 100000000000),
     send_sample 12001 0 1514300000 0 15143,
     send_sample 13001 0 1524700000 0 15247,
     send_sample 14001 0 1523100000 0 15231,
     send_sample 15001 0 1492300000 0 14923]"

definition grid_100000_8_b :: "jsv list" where
  "grid_100000_8_b =
    [send_sample 16001 0 1496200000 0 14962,
     send_sample 17001 0 1525900000 0 15259,
     send_sample 18001 0 1480700000 0 14807,
     send_sample 19001 0 1519600000 0 15196,
     send_sample 20001 0 1541500000 0 15415,
     send_sample 21001 0 1509100000 0 15091,
     send_sample 22001 0 1494000000 0 14940,
     send_sample 23001 0 1546800000 0 15468,
     send_sample 24001 0 1502600000 0 15026,
     send_sample 25001 0 1497700000 0 14977,
     send_sample 26001 0 1499700000 0 14997,
     send_sample 27001 0 1528200000 0 15282,
     send_sample 28001 0 1533900000 0 15339,
     send_sample 29001 0 1556400000 0 15564,
     send_sample 30001 0 1524200000 0 15242]"

definition grid_100000_8 :: jsv where
  "grid_100000_8 = Obj
    [(''recv-bytes-rate'', Num (rnd 0)),
     (''send-bytes-rate'', Num (rnd (15099226952809508 / 10000000))),
     (''samples'', Arr (grid_100000_8_a @ grid_100000_8_b)),
     (''recv-msg-rate'', Num (rnd 0)),
     (''send-msg-rate'', Num (rnd (15099226952809508 / 1000000000000)))]"

definition grid_100000 :: jsv where
  "grid_100000 = Obj
    [(''3'', grid_100000_3),
     (''2'', grid_100000_2),
     (''10'', grid_100000_10),
     (''1'', grid_100000_1),
     (''7'', grid_100000_7),
     (''6'', grid_100000_6),
     (''5'', grid_100000_5),
     (''4'', grid_100000_4),
     (''9'', grid_100000_9),
     (''8'', grid_100000_8)]"

end
