(* ===== verification/Data_Sizes_Producers.thy ===== *)
theory Data_Sizes_Producers
  imports Data_Grid_10000 Data_Grid_0 Data_Grid_1000 Data_Grid_100000
begin

text \<open>
  The scenario \<open>message-sizes-and-producers\<close> of \<open>html/examples/various-result.js\<close>: a grid of
  runs, message sizes outside, numbers of producers inside.
\<close>

definition message_sizes_and_producers_data :: jsv where
  "message_sizes_and_producers_data = Obj
    [(''10000'', grid_10000),
     (''0'', grid_0),
     (''1000'', grid_1000),
     (''100000'', grid_100000)]"

definition message_sizes_and_producers_min_msg_size :: "string list" where
  "message_sizes_and_producers_min_msg_size = [''0'', ''1000'', ''10000'', ''100000'']"

definition message_sizes_and_producers_producer_count :: "string list" where
  "message_sizes_and_producers_producer_count = [''1'', ''2'', ''3'', ''4'', ''5'', ''6'', ''7'', ''8'', ''9'', ''10'']"

definition message_sizes_and_producers :: jsv where
  "message_sizes_and_producers = Obj
    [(''data'', message_sizes_and_producers_data),
     (''dimensions'', Arr (map Str [''minMsgSize'', ''producerCount''])),
     (''dimension-values'', Obj [(''minMsgSize'', Arr (map Str message_sizes_and_producers_min_msg_size)), (''producerCount'', Arr (map Str message_sizes_and_producers_producer_count))])]"

end
