(* ===== verification/Perf_Examples.thy ===== *)
theory Perf_Examples
  imports Perf_Layout Perf_Page_Spec Data_Time Data_Rate_Latency Data_Sizes_Large Data_Sizes_Producers
begin

text \<open>
  The example page \<open>html/examples/various.html\<close> with the results the repository ships for it,
  \<open>html/examples/various-result.js\<close>: what each of its four charts draws, and that a rendering
  of the page draws all four.
\<close>

section \<open>The results and the page\<close>

definition various_result :: jsv where
  "various_result = Obj
    [(''no-ack'', no_ack),
     (''rate-vs-latency'', rate_vs_latency),
     (''message-sizes-and-producers'', message_sizes_and_producers),
     (''message-sizes-large'', message_sizes_large)]"

text \<open>
  The four chart elements. The stray backslash after an attribute of the first is an attribute
  of that name to the browser.
\<close>

definition time_div :: dtree where
  "time_div = Elem 6 ''div''
    [(''class'', ''small-chart''), (''data-type'', ''time''), (''data-x-axis'', ''time(s)''), ([CHR 0x5C], []),
     (''data-y-axis'', []), (''data-scenario'', ''no-ack'')] []"

definition series_div :: dtree where
  "series_div = Elem 9 ''div''
    [(''class'', ''chart''), (''data-type'', ''series''), (''data-scenario'', ''message-sizes-and-producers''),
     (''data-x-key'', ''producerCount''), (''data-x-axis'', ''producers''), (''data-y-axis'', ''rate (msg/s)''),
     (''data-plot-key'', ''send-msg-rate''), (''data-series-key'', ''minMsgSize'')] []"

definition xy_div :: dtree where
  "xy_div = Elem 12 ''div''
    [(''class'', ''chart''), (''data-type'', ''x-y''), (''data-scenario'', ''message-sizes-large''),
     (''data-x-key'', ''minMsgSize''), (''data-plot-keys'', ''send-msg-rate send-bytes-rate''),
     (''data-x-axis'', ''message size (bytes)''), (''data-y-axis'', ''rate (msg/s)''),
     (''data-y-axis2'', ''rate (bytes/s)''), (''data-legend'', ''ne'')] []"

definition rl_div :: dtree where
  "rl_div = Elem 15 ''div''
    [(''class'', ''chart''), (''data-type'', ''r-l''), (''data-x-axis'', ''rate attempted (msg/s)''),
     (''data-y-axis'', ''rate (msg/s)''), (''data-scenario'', ''rate-vs-latency'')] []"

text \<open>The body of the page; white space between the tags and the head are left out.\<close>

definition example_box :: "nat \<Rightarrow> string \<Rightarrow> dtree \<Rightarrow> dtree" where
  "example_box i title t =
     Elem i ''div'' [(''class'', ''box'')] [Elem (i + 1) ''h3'' [] [Txt title], t]"

definition various_doc :: dtree where
  "various_doc = Elem 0 [] []
    [Elem 1 ''html'' []
      [Elem 2 ''body'' []
        [Elem 3 ''h1'' [] [Txt ''RabbitMQ Performance Various Examples''],
         example_box 4 ''Time'' time_div,
         example_box 7 ''Series'' series_div,
         example_box 10 ''x-y'' xy_div,
         example_box 13 ''r-l'' rl_div] ] ]"

definition various_page :: page where
  "various_page = \<lparr>doc = various_doc, next_id = 16, plots = [], requests = [], alerts = []\<rparr>"

lemmas div_defs = time_div_def series_div_def xy_div_def rl_div_def
lemmas page_defs = various_page_def various_doc_def example_box_def div_defs

lemma various_page_wf: "wf_page various_page"
  by (simp add: wf_page_def page_defs)

lemma various_charts: "charts None various_page = [6, 9, 12, 15]"
  by (simp add: charts_def scope_def select_def class_tokens_def html_space_def page_defs)

lemma various_lookup:
  "lookup 6 (doc various_page) = Some time_div" "lookup 9 (doc various_page) = Some series_div"
  "lookup 12 (doc various_page) = Some xy_div" "lookup 15 (doc various_page) = Some rl_div"
  by (simp_all add: page_defs lookup_def)

section \<open>The charts\<close>

lemmas grid_runs =
  grid_10000_3_def grid_10000_2_def grid_10000_10_def grid_10000_1_def grid_10000_7_def
  grid_10000_6_def grid_10000_5_def grid_10000_4_def grid_10000_9_def grid_10000_8_def
  grid_0_3_def grid_0_2_def grid_0_10_def grid_0_1_def grid_0_7_def grid_0_6_def grid_0_5_def
  grid_0_4_def grid_0_9_def grid_0_8_def grid_1000_3_def grid_1000_2_def grid_1000_10_def
  grid_1000_1_def grid_1000_7_def grid_1000_6_def grid_1000_5_def grid_1000_4_def
  grid_1000_9_def grid_1000_8_def grid_100000_3_def grid_100000_2_def grid_100000_10_def
  grid_100000_1_def grid_100000_7_def grid_100000_6_def grid_100000_5_def grid_100000_4_def
  grid_100000_9_def grid_100000_8_def
lemmas rate_runs =
  rate_30007_def rate_32850_def rate_30639_def rate_32534_def rate_12634_def rate_32218_def
  rate_315_def rate_28428_def rate_18952_def rate_33166_def rate_6317_def rate_30955_def
  rate_31587_def rate_31271_def rate_30323_def rate_31902_def rate_25269_def
lemmas size_runs =
  size_5000_def size_10000_def size_500000_def size_1000000_def size_50000_def size_100000_def

definition no_ack_samples :: "jsv list" where
  "no_ack_samples = no_ack_a @ no_ack_b"

text \<open>The values of a series of runs, as the results give them.\<close>

definition value_at :: "jsv \<Rightarrow> string list \<Rightarrow> jsv" where
  "value_at v ks = (case path v ks of Some w \<Rightarrow> w | None \<Rightarrow> Undefined)"

definition elapsed_of :: "jsv \<Rightarrow> dbl" where
  "elapsed_of s = (case sample_time s of Some x \<Rightarrow> x | None \<Rightarrow> NaN)"

definition time_series_of :: "jsv list \<Rightarrow> string \<Rightarrow> jsv" where
  "time_series_of ss k =
     series_obj k (map (\<lambda>s. point (Num (div_pos (elapsed_of s) 1000)) (field s k)) ss) (Some 1)"

definition runs_of :: "jsv \<Rightarrow> string list \<Rightarrow> string \<Rightarrow> jsv list" where
  "runs_of data xs k = map (\<lambda>x. point (Str x) (value_at data [x, k])) xs"

lemma sample_time_of [simp]:
  "sample_time (sample a b c d x y z w) = Some (rnd a)" "sample_time (send_sample a x y z w) = Some (rnd a)"
  by (simp_all add: sample_def send_sample_def)

lemma no_ack_times: "\<forall>s \<in> set no_ack_samples. sample_time s = Some (elapsed_of s)"
  by (simp add: no_ack_samples_def no_ack_a_def no_ack_b_def elapsed_of_def del: sample_time.simps)

lemma value_at_Some: "path v ks \<noteq> None \<Longrightarrow> path v ks = Some (value_at v ks)"
  by (auto simp: value_at_def)

lemma time_div_spec:
  "chart_spec various_result time_div = Inr (Some
     (map (time_series_of no_ack_samples) [''send-msg-rate'', ''recv-msg-rate''], [(''yaxes'', axes_rate_and_latency)]))"
proof -
  have "path no_ack [''samples''] = Some (Arr no_ack_samples)" by (simp add: no_ack_def no_ack_samples_def)
  from time_chart_points [OF this no_ack_times, of False]
  show ?thesis
    by (simp add: chart_spec_def time_div_def attr_def various_result_def time_keys_def time_series_of_def)
qed

lemma rl_div_spec:
  "chart_spec various_result rl_div = Inr (Some
     ([series_obj ''rate achieved'' (runs_of rate_vs_latency_data rate_vs_latency_producer_rate_limit ''send-msg-rate'') (Some 1),
       series_obj ''latency (us)'' (runs_of rate_vs_latency_data rate_vs_latency_producer_rate_limit ''avg-latency'') (Some 2)],
      [(''yaxes'', axes_rate_and_latency)]))"
proof -
  have "\<forall>x \<in> set rate_vs_latency_producer_rate_limit.
      path rate_vs_latency_data [x, ''send-msg-rate''] \<noteq> None \<and> path rate_vs_latency_data [x, ''avg-latency''] \<noteq> None"
    by (simp add: rate_vs_latency_producer_rate_limit_def rate_vs_latency_data_def) (simp add: rate_runs)
  then have "\<forall>x \<in> set rate_vs_latency_producer_rate_limit.
        path rate_vs_latency_data [x, ''send-msg-rate''] = Some (value_at rate_vs_latency_data [x, ''send-msg-rate''])"
      "\<forall>x \<in> set rate_vs_latency_producer_rate_limit.
        path rate_vs_latency_data [x, ''avg-latency''] = Some (value_at rate_vs_latency_data [x, ''avg-latency''])"
    using value_at_Some by blast+
  from rl_chart_points [OF _ this, of "Obj [(''producerRateLimit'', Arr (map Str rate_vs_latency_producer_rate_limit))]"]
  show ?thesis
    by (simp add: chart_spec_def rl_div_def attr_def various_result_def rate_vs_latency_def runs_of_def)
qed

lemma xy_div_spec:
  "chart_spec various_result xy_div = Inr (Some
     ([series_obj ''send-msg-rate'' (runs_of message_sizes_large_data message_sizes_large_min_msg_size ''send-msg-rate'') (Some 1),
       series_obj ''send-bytes-rate'' (runs_of message_sizes_large_data message_sizes_large_min_msg_size ''send-bytes-rate'') (Some 2)],
      [(''yaxes'', axes_rate_and_bytes)]))"
proof -
  have keys: "split_chr (CHR '' '') ''send-msg-rate send-bytes-rate'' = [''send-msg-rate'', ''send-bytes-rate'']" by simp
  have "\<forall>k \<in> set [''send-msg-rate'', ''send-bytes-rate'']. \<forall>x \<in> set message_sizes_large_min_msg_size.
      path message_sizes_large_data [x, k] \<noteq> None"
    by (simp add: message_sizes_large_min_msg_size_def message_sizes_large_data_def) (simp add: size_runs)
  then have "\<forall>k \<in> set (split_chr (CHR '' '') ''send-msg-rate send-bytes-rate''). \<forall>x \<in> set message_sizes_large_min_msg_size.
      path message_sizes_large_data [x, k] = Some (value_at message_sizes_large_data [x, k])"
    unfolding keys using value_at_Some by blast
  from xy_chart_points [OF _ this, of "Obj [(''minMsgSize'', Arr (map Str message_sizes_large_min_msg_size))]" "''minMsgSize''"]
  show ?thesis
    by (simp add: chart_spec_def xy_div_def attr_def attr_default_def shown_def various_result_def
        message_sizes_large_def runs_of_def index_of_def)
qed

definition grid_of :: "jsv \<Rightarrow> string \<Rightarrow> string list \<Rightarrow> string list \<Rightarrow> string \<Rightarrow> jsv list" where
  "grid_of data s_key ss xs k =
     map (\<lambda>s. series_obj (s_key @ '' = '' @ s) (map (\<lambda>x. point (Str x) (value_at data [s, x, k])) xs) None) ss"

lemma series_div_spec:
  "chart_spec various_result series_div = Inr (Some
     (grid_of message_sizes_and_producers_data ''minMsgSize'' message_sizes_and_producers_min_msg_size
        message_sizes_and_producers_producer_count ''send-msg-rate'', []))"
proof -
  let ?data = message_sizes_and_producers_data and ?ss = message_sizes_and_producers_min_msg_size
    and ?xs = message_sizes_and_producers_producer_count
  have "\<forall>s \<in> set ?ss. \<forall>x \<in> set ?xs. path ?data [s, x, ''send-msg-rate''] \<noteq> None"
    by (simp add: message_sizes_and_producers_data_def message_sizes_and_producers_min_msg_size_def
          message_sizes_and_producers_producer_count_def)
      (simp add: grid_0_def grid_1000_def grid_10000_def grid_100000_def, simp add: grid_runs)
  then have "\<forall>s \<in> set ?ss. \<forall>x \<in> set ?xs. path ?data (grid_path (''minMsgSize'' = ''minMsgSize'') s x ''send-msg-rate'') =
      Some (value_at ?data [s, x, ''send-msg-rate''])"
    using value_at_Some by (simp only: grid_path_def simp_thms if_True) blast
  from series_chart_points [OF _ _ this, of "Obj [(''minMsgSize'', Arr (map Str ?ss)), (''producerCount'', Arr (map Str ?xs))]"
      "''producerCount''" "[Str ''producerCount'']"]
  show ?thesis
    by (simp add: chart_spec_def series_div_def attr_def attr_default_def various_result_def
        message_sizes_and_producers_def grid_of_def)
qed

lemma various_ready: "\<forall>d \<in> set (charts None various_page). ready_at various_result various_page d"
proof -
  have "ready various_result time_div" "ready various_result series_div"
    "ready various_result xy_div" "ready various_result rl_div"
    by (simp_all add: ready_def time_div_spec series_div_spec xy_div_spec rl_div_spec)
      (simp_all add: label_keys_def safe_def shown_def attr_def div_defs)
  moreover have "\<not> root_is d (doc various_page)" if "d \<noteq> 0" for d
    using that by (simp add: various_page_def various_doc_def)
  ultimately show ?thesis by (simp add: various_charts ready_at_def various_lookup)
qed

section \<open>Rendering\<close>

lemma render_plots:
  assumes "wf_page p" and "html_contract e" and "\<forall>c. flot e c = None"
    and "\<forall>d \<in> set (charts None p). ready_at results p d"
  shows "plots (snd (render_graphs e results None p)) = plots p @ page_calls results p (charts None p)"
proof -
  obtain q where q: "plots q = plots p @ page_calls results p (charts None p)"
    "render_graphs e results None p =
      bindA (selectA [''summary''] None) (\<lambda>ss. eachA (\<lambda>d. summarise e d results) ss) q"
    using render_graphs_ready [OF assms(1-3) _ assms(4)] by (auto simp: scope_def)
  have "keeps calm (bindA (selectA [''summary''] None) (\<lambda>ss. eachA (\<lambda>d. summarise e d results) ss))"
    by (intro calm_ops selectA_calm summarise_calm)
  then have "plots (snd (render_graphs e results None p)) = plots q"
    unfolding q(2) by (simp add: keeps_def calm_def)
  then show ?thesis using q(1) by simp
qed

text \<open>
  Complete results are drawn completely. When the results hold what every chart of the scope
  needs, a run calls the plotting library for each chart, in document order, with the series
  and the options of its specification, and goes on to the summaries.
\<close>

theorem render_graphs_complete:
  assumes "wf_page p" and "html_contract e" and "\<forall>c. flot e c = None"
    and "scope parent p = Some t" and "\<forall>d \<in> set (charts parent p). ready_at results p d"
  shows "\<exists>q. plots q = plots p @ page_calls results p (charts parent p) \<and>
    render_graphs e results parent p =
      bindA (selectA [''summary''] parent) (\<lambda>ss. eachA (\<lambda>d. summarise e d results) ss) q"
  using assms by (rule render_graphs_ready)

theorem render_graphs_complete_witness:
  "\<exists>q. length (plots q) = 4 \<and>
    render_graphs template_env various_result None various_page =
      bindA (selectA [''summary''] None) (\<lambda>ss. eachA (\<lambda>d. summarise template_env d various_result) ss) q"
proof -
  have "plots various_page = []" by (simp add: various_page_def)
  moreover have "length (page_calls various_result various_page [6, 9, 12, 15]) = 4"
    by (simp add: page_calls_def various_lookup chart_calls_def time_div_spec series_div_spec xy_div_spec rl_div_spec)
      (simp add: attr_def div_defs)
  moreover have "\<forall>c. flot template_env c = None" "scope None various_page = Some various_doc"
    by (simp_all add: template_env_def scope_def various_page_def)
  from render_graphs_complete [OF various_page_wf template_contract this various_ready]
  obtain q where "plots q = plots various_page @ page_calls various_result various_page (charts None various_page)"
    "render_graphs template_env various_result None various_page =
      bindA (selectA [''summary''] None) (\<lambda>ss. eachA (\<lambda>d. summarise template_env d various_result) ss) q"
    by blast
  ultimately show ?thesis unfolding various_charts by (intro exI [of _ q]) simp
qed

text \<open>The four calls of the example page.\<close>

definition various_calls :: "plot_call list" where
  "various_calls =
     [\<lparr>pc_div = 6,
       pc_data = Arr (map (time_series_of no_ack_samples) [''send-msg-rate'', ''recv-msg-rate'']),
       pc_options = options time_div [(''yaxes'', axes_rate_and_latency)]\<rparr>,
      \<lparr>pc_div = 9,
       pc_data = Arr (grid_of message_sizes_and_producers_data ''minMsgSize''
         message_sizes_and_producers_min_msg_size message_sizes_and_producers_producer_count ''send-msg-rate''),
       pc_options = options series_div []\<rparr>,
      \<lparr>pc_div = 12,
       pc_data = Arr
         [series_obj ''send-msg-rate'' (runs_of message_sizes_large_data message_sizes_large_min_msg_size ''send-msg-rate'') (Some 1),
          series_obj ''send-bytes-rate'' (runs_of message_sizes_large_data message_sizes_large_min_msg_size ''send-bytes-rate'') (Some 2)],
       pc_options = options xy_div [(''yaxes'', axes_rate_and_bytes)]\<rparr>,
      \<lparr>pc_div = 15,
       pc_data = Arr
         [series_obj ''rate achieved'' (runs_of rate_vs_latency_data rate_vs_latency_producer_rate_limit ''send-msg-rate'') (Some 1),
          series_obj ''latency (us)'' (runs_of rate_vs_latency_data rate_vs_latency_producer_rate_limit ''avg-latency'') (Some 2)],
       pc_options = options rl_div [(''yaxes'', axes_rate_and_latency)]\<rparr>]"

text \<open>
  C40: the example page draws the example results. With the result file of the repository, a
  rendering of the page calls the plotting library exactly four times: the rates of the 30
  samples of \<open>no-ack\<close>, one series for each of the four message sizes over the ten numbers of
  producers, the message and byte rates over the six large message sizes, and the rate and
  the latency over the seventeen attempted rates, each value being the one of its run.
\<close>

theorem various_page_draws:
  assumes "html_contract e" and "\<forall>c. flot e c = None"
  shows "plots (snd (render_graphs e various_result None various_page)) = various_calls \<and>
    length no_ack_samples = 30 \<and> length message_sizes_and_producers_min_msg_size = 4 \<and>
    length message_sizes_and_producers_producer_count = 10 \<and> length message_sizes_large_min_msg_size = 6 \<and>
    length rate_vs_latency_producer_rate_limit = 17"
proof -
  have "plots (snd (render_graphs e various_result None various_page)) = page_calls various_result various_page [6, 9, 12, 15]"
    using render_plots [OF various_page_wf assms various_ready] various_charts by (simp add: various_page_def)
  also have "\<dots> = various_calls"
    unfolding various_calls_def
    by (simp add: page_calls_def various_lookup chart_calls_def time_div_spec series_div_spec xy_div_spec rl_div_spec)
      (simp add: attr_def div_defs)
  finally show ?thesis
    by (simp add: no_ack_samples_def no_ack_a_def no_ack_b_def message_sizes_and_producers_min_msg_size_def
        message_sizes_and_producers_producer_count_def message_sizes_large_min_msg_size_def
        rate_vs_latency_producer_rate_limit_def)
qed

theorem various_page_draws_witness:
  "plots (snd (render_graphs template_env various_result None various_page)) = various_calls"
  using various_page_draws [OF template_contract] by (simp add: template_env_def)

definition consume_samples :: "jsv list" where
  "consume_samples = consume_a @ consume_b"

text \<open>
  An element of type \<open>time\<close> with its latency shown draws the run \<open>consume\<close> of the other
  example: three series over the samples, the latency on the second axis.
\<close>

theorem consume_chart:
  assumes "attr t ''data-type'' = Str ''time''" and "attr t ''data-scenario'' = Str ''consume''"
    and "attr t ''data-latency'' = Str ''true''"
  shows "chart_spec publish_consume_result t = Inr (Some
    ([time_series_of consume_samples ''send-msg-rate'', time_series_of consume_samples ''recv-msg-rate'',
      series_obj ''avg-latency''
        (map (\<lambda>s. point (Num (div_pos (elapsed_of s) 1000)) (field s ''avg-latency'')) consume_samples) (Some 2)],
     [(''yaxes'', axes_rate_and_latency)]))"
proof -
  have times: "\<forall>s \<in> set consume_samples. sample_time s = Some (elapsed_of s)"
    by (simp add: consume_samples_def consume_a_def consume_b_def elapsed_of_def del: sample_time.simps)
  have "path consume [''samples''] = Some (Arr consume_samples)" by (simp add: consume_def consume_samples_def)
  from time_chart_points [OF this times, of True] show ?thesis
    using assms by (simp add: chart_spec_def publish_consume_result_def time_keys_def time_series_of_def)
qed

definition consume_div :: dtree where
  "consume_div = Elem 1 ''div'' [(''class'', ''chart''), (''data-type'', ''time''), (''data-latency'', ''true''),
     (''data-scenario'', ''consume'')] []"

theorem consume_chart_witness:
  "\<exists>cd ex. chart_spec publish_consume_result consume_div = Inr (Some (cd, ex)) \<and> length cd = 3"
  using consume_chart [of consume_div] by (simp add: consume_div_def attr_def)

section \<open>From the load of a page to its charts\<close>

text \<open>
  C16: a page that is loaded draws the charts it has the results of. The ready handler requests the result
  file; when its text arrives and parses, and every chart of the page is below the root and has
  plain labels (\<open>safe\<close>) and, unless it names a file of its own, the results its type
  needs, the plotting library has been called once for each chart that has no \<open>data-file\<close> and
  one of the four types, in document order, with its specified series and options; a chart with
  a file or of an unknown type makes no call. (The parser of HTML meets \<open>html_contract\<close> and the plotting
  library does not throw.)
\<close>

theorem page_load_draws:
  assumes "wf_page p" and "fresh_page p" and "html_contract e" and "\<forall>c. flot e c = None"
    and "json_parse s = Inr results" and "\<forall>d \<in> set (charts None p). ready_at results p d"
    and "handle e (Ready url msg) p = (r, p1)" and "handle e (Arrived 0 s) p1 = (r2, q)"
  shows "r = Inr () \<and> map rq_url (requests p1) = [url] \<and> plots q = page_calls results p (charts None p)"
proof -
  have p1: "r = Inr ()" "p1 = p\<lparr>requests := [\<lparr>rq_url = url, rq_done = [Cb_render], rq_fail = [], rq_always = []\<rparr>]\<rparr>"
    using assms(2,7) by (simp_all add: handle_def page_ready_def ajax_def Let_def fresh_page_def)
  then have "p1\<lparr>requests := drop_nth 0 (requests p1)\<rparr> = p" using assms(2) by (simp add: drop_nth_def fresh_page_def)
  moreover have "page_ok p1" using assms(1,2) p1(2) by (simp add: page_ok_def wf_page_def request_ok_def fresh_page_def)
  ultimately have "run_callback e s Cb_render p = (r2, q)"
    using arrived_eq [of p1 0 Cb_render e s] p1(2) assms(8) by simp
  then have run: "render_graphs e results None p = (r2, q)"
    using assms(5) by (simp add: run_callback_def bindA_def liftA_def)
  have "plots (snd (render_graphs e results None p)) = plots p @ page_calls results p (charts None p)"
    by (rule render_plots [OF assms(1,3,4,6)])
  then have "plots q = page_calls results p (charts None p)" using run assms(2) by (simp add: fresh_page_def)
  then show ?thesis using p1 by simp
qed

definition load_page :: page where
  "load_page = \<lparr>doc = Elem 0 [] [] [Elem 3 ''div'' [(''class'', ''chart''), (''data-type'', ''time''), (''data-scenario'', ''t'')] [] ],
     next_id = 4, plots = [], requests = [], alerts = []\<rparr>"

theorem page_load_draws_witness:
  "\<exists>q. handle template_env (Arrived 0 (''{'' @ [CHR 0x22] @ ''t'' @ [CHR 0x22] @ '':{'' @ [CHR 0x22] @ ''samples'' @ [CHR 0x22] @ '':[]}}''))
        (snd (handle template_env (Ready ''r.js'' ''error'') load_page)) = q \<and>
     map pc_data (plots (snd q)) =
       [Arr [series_obj ''send-msg-rate'' [] (Some 1), series_obj ''recv-msg-rate'' [] (Some 1)] ]"
proof -
  let ?s = "''{'' @ [CHR 0x22] @ ''t'' @ [CHR 0x22] @ '':{'' @ [CHR 0x22] @ ''samples'' @ [CHR 0x22] @ '':[]}}''"
  let ?r = "Obj [(''t'', Obj [(''samples'', Arr [])])]"
  let ?t = "Elem 3 ''div'' [(''class'', ''chart''), (''data-type'', ''time''), (''data-scenario'', ''t'')] []"
  have js: "json_parse ?s = Inr ?r" by code_simp
  have pg: "wf_page load_page" "fresh_page load_page" by (simp_all add: wf_page_def fresh_page_def load_page_def)
  have ch: "charts None load_page = [3]"
    by (simp add: charts_def scope_def select_def class_tokens_def html_space_def load_page_def)
  have lk: "lookup 3 (doc load_page) = Some ?t" "\<not> root_is 3 (doc load_page)"
    by (simp_all add: load_page_def lookup_def)
  have sp: "chart_spec ?r ?t = Inr (Some
      ([series_obj ''send-msg-rate'' [] (Some 1), series_obj ''recv-msg-rate'' [] (Some 1)], [(''yaxes'', axes_rate_and_latency)]))"
    by (simp add: chart_spec_def attr_def time_chart_def time_keys_def time_series_def series_obj_def index_of_def)
  have rd: "\<forall>d \<in> set (charts None load_page). ready_at ?r load_page d"
    unfolding ch by (simp add: ready_at_def lk ready_def sp) (simp add: label_keys_def safe_def shown_def attr_def)
  have fl: "\<forall>c. flot template_env c = None" by (simp add: template_env_def)
  have "attr ?t ''data-file'' = Undefined" by (simp add: attr_def)
  then have "map pc_data (page_calls ?r load_page (charts None load_page)) =
      [Arr [series_obj ''send-msg-rate'' [] (Some 1), series_obj ''recv-msg-rate'' [] (Some 1)] ]"
    unfolding ch by (simp add: page_calls_def lk chart_calls_def sp)
  then show ?thesis
    using page_load_draws [OF pg template_contract fl js rd prod.collapse [symmetric] prod.collapse [symmetric], of "''r.js''" "''error''"]
    by simp
qed

end
