(* ===== verification/Java_Value.thy ===== *)
theory Java_Value
  imports Js_Number_Text "HOL-Library.AList"
begin

text \<open>
  The values of the Java program that writes the result files (\<open>com.rabbitmq.perf\<close>): integers
  of 64 and 32 bits as integers with the wrap-around written out, doubles as in the
  scripts, the objects a result holds, and the exceptions. The order in which a
  \<open>HashMap\<close> is walked is not specified by the language: a map is an association list in
  the order of insertion, and what is proved of a written map does not depend on the order.
\<close>

section \<open>Exceptions\<close>

text \<open>
  \<open>Runtime_Exception s\<close>: a \<open>RuntimeException\<close> the program throws itself, with its message
  where the message is a plain text. \<open>Checked_Exception s\<close>: an exception of a library the
  program calls. \<open>Outside_Model s\<close>: a case the model leaves out; no theorem gives it a result.
\<close>

datatype jerr =
    Null_Pointer
  | Class_Cast
  | Index_Out_Of_Bounds
  | Arithmetic
  | Runtime_Exception string
  | Checked_Exception string
  | Outside_Model string

type_synonym 'a jres = "jerr + 'a"

section \<open>Integers\<close>

definition wrap64 :: "int \<Rightarrow> int" where
  "wrap64 x = (x + 2 ^ 63) mod 2 ^ 64 - 2 ^ 63"

definition long_max :: int where "long_max = 2 ^ 63 - 1"
definition long_min :: int where "long_min = - (2 ^ 63)"
definition int_max :: int where "int_max = 2 ^ 31 - 1"
definition int_min :: int where "int_min = - (2 ^ 31)"

text \<open>Division truncates toward zero; by zero it throws.\<close>

definition quot :: "int \<Rightarrow> int \<Rightarrow> int" where
  "quot a b = sgn a * sgn b * (\<bar>a\<bar> div \<bar>b\<bar>)"

definition long_div :: "int \<Rightarrow> int \<Rightarrow> int jres" where
  "long_div a b = (if b = 0 then Inl Arithmetic else Inr (wrap64 (quot a b)))"

lemma wrap64_id: "- (2 ^ 63) \<le> x \<Longrightarrow> x < 2 ^ 63 \<Longrightarrow> wrap64 x = x"
  by (simp add: wrap64_def)

lemma wrap64_nonneg [simp]: "0 \<le> x \<Longrightarrow> x < 2 ^ 63 \<Longrightarrow> wrap64 x = x"
  by (simp add: wrap64_def)

lemma wrap64_range: "long_min \<le> wrap64 x \<and> wrap64 x \<le> long_max"
  by (simp add: wrap64_def long_min_def long_max_def)

lemma quot_nonneg: "0 \<le> a \<Longrightarrow> 0 < b \<Longrightarrow> quot a b = a div b"
  by (cases "a = 0") (simp_all add: quot_def)

lemma long_div_nonneg: "0 \<le> a \<Longrightarrow> a < 2 ^ 63 \<Longrightarrow> 0 < b \<Longrightarrow> long_div a b = Inr (a div b)"
proof -
  assume a: "0 \<le> a" "a < 2 ^ 63" "0 < b"
  then have "a div b \<le> a" using zdiv_mono2 [of a 1 b] by simp
  moreover have "0 \<le> a div b" using a by (simp add: pos_imp_zdiv_nonneg_iff)
  ultimately show ?thesis using a by (simp add: long_div_def quot_nonneg)
qed

section \<open>Doubles\<close>

text \<open>
  The conversion \<open>(double) n\<close>, and the quotient of two doubles. A divisor zero counts as the
  positive one: the sign of zero is left out, and the program divides by converted integers.
\<close>

definition of_long :: "int \<Rightarrow> dbl" where
  "of_long n = rnd (of_int n)"

fun dbl_quot :: "dbl \<Rightarrow> dbl \<Rightarrow> dbl" where
  "dbl_quot (Fin a) (Fin b) =
     (if b \<noteq> 0 then rnd (a / b) else if a = 0 then NaN else if 0 < a then PInf else NInf)"
| "dbl_quot PInf (Fin b) = (if 0 \<le> b then PInf else NInf)"
| "dbl_quot NInf (Fin b) = (if 0 \<le> b then NInf else PInf)"
| "dbl_quot (Fin a) PInf = Fin 0"
| "dbl_quot (Fin a) NInf = Fin 0"
| "dbl_quot _ _ = NaN"

text \<open>The conversion \<open>(int) x\<close> truncates and saturates.\<close>

definition trunc :: "rat \<Rightarrow> int" where
  "trunc q = (if 0 \<le> q then \<lfloor>q\<rfloor> else \<lceil>q\<rceil>)"

fun to_int :: "dbl \<Rightarrow> int" where
  "to_int NaN = 0"
| "to_int PInf = int_max"
| "to_int NInf = int_min"
| "to_int (Fin q) = max int_min (min int_max (trunc q))"

section \<open>Objects\<close>

datatype jobj =
    JNull
  | JBool bool
  | JInt int
  | JLong int
  | JDouble dbl
  | JString string
  | JList "jobj list"
  | JMap "(string \<times> jobj) list"

type_synonym jmap = "(string \<times> jobj) list"

text \<open>\<open>Map.put\<close>, and the literal maps the program fills by a sequence of \<open>put\<close>s.\<close>

definition put :: "string \<Rightarrow> 'v \<Rightarrow> (string \<times> 'v) list \<Rightarrow> (string \<times> 'v) list" where
  "put k v m = AList.update k v m"

lemma map_of_put [simp]: "map_of (put k v m) = (map_of m)(k \<mapsto> v)"
  by (simp add: put_def update_conv')

lemma distinct_put [simp]: "distinct (map fst m) \<Longrightarrow> distinct (map fst (put k v m))"
  by (simp add: put_def distinct_update)

lemma keys_put: "map fst (put k v m) = (if k \<in> set (map fst m) then map fst m else map fst m @ [k])"
  by (simp add: put_def update_keys)

section \<open>\<open>toString\<close>\<close>

text \<open>
  \<open>Double.toString\<close>: the shortest digits, at least one of them after the point; plain between
  \<open>10^-3\<close> and \<open>10^7\<close>, with an exponent elsewhere.
\<close>

definition frac_part :: "string \<Rightarrow> string" where
  "frac_part ds = (if ds = [] then ''0'' else ds)"

definition java_layout :: "string \<Rightarrow> int \<Rightarrow> string" where
  "java_layout ds n =
     (let k = int (length ds) in
      if 0 < n \<and> n \<le> 7
      then (if k \<le> n then ds @ replicate (nat (n - k)) (CHR ''0'') @ ''.0''
            else take (nat n) ds @ ''.'' @ drop (nat n) ds)
      else if - 3 < n \<and> n \<le> 0 then ''0.'' @ replicate (nat (- n)) (CHR ''0'') @ ds
      else take 1 ds @ ''.'' @ frac_part (drop 1 ds) @ ''E'' @
           (if n - 1 < 0 then ''-'' else []) @ dec (nat \<bar>n - 1\<bar>))"

definition pos_to_java :: "rat \<Rightarrow> string" where
  "pos_to_java q =
     (let n = flogb 10 q + 1 in
      case search_digits q n [1..<18] of
        None \<Rightarrow> []
      | Some (k, c) \<Rightarrow> java_layout (strip_zeros (dec c)) (n - int k + int (length (dec c))))"

fun double_text :: "dbl \<Rightarrow> string" where
  "double_text NaN = ''NaN''"
| "double_text PInf = ''Infinity''"
| "double_text NInf = ''-Infinity''"
| "double_text (Fin q) =
     (if q = 0 then ''0.0'' else if q < 0 then ''-'' @ pos_to_java (- q) else pos_to_java q)"

definition int_text :: "int \<Rightarrow> string" where
  "int_text i = (if i < 0 then ''-'' else []) @ dec (nat \<bar>i\<bar>)"

text \<open>A list or a map of a specification as the value of a variable: its text is left out.\<close>

fun to_string :: "jobj \<Rightarrow> string jres" where
  "to_string JNull = Inl Null_Pointer"
| "to_string (JBool b) = Inr (if b then ''true'' else ''false'')"
| "to_string (JInt i) = Inr (int_text i)"
| "to_string (JLong i) = Inr (int_text i)"
| "to_string (JDouble x) = Inr (double_text x)"
| "to_string (JString s) = Inr s"
| "to_string (JList xs) = Inl (Outside_Model ''toString'')"
| "to_string (JMap m) = Inl (Outside_Model ''toString'')"

lemma int_text_inj: "int_text i = int_text j \<Longrightarrow> i = j"
proof -
  assume eq: "int_text i = int_text j"
  have no_sign: "hd (dec n) \<noteq> CHR ''-''" for n
    using dec_digits [of "hd (dec n)" n] by (auto simp: is_digit_def)
  have "(i < 0) = (j < 0)"
    using eq no_sign [of "nat \<bar>i\<bar>"] no_sign [of "nat \<bar>j\<bar>"]
    by (auto simp: int_text_def split: if_splits dest: arg_cong [where f = hd])
  with eq have "dec (nat \<bar>i\<bar>) = dec (nat \<bar>j\<bar>)" by (auto simp: int_text_def split: if_splits)
  then have "\<bar>i\<bar> = \<bar>j\<bar>" using dec_inj by fastforce
  with \<open>(i < 0) = (j < 0)\<close> show "i = j" by (auto simp: abs_if split: if_splits)
qed

text \<open>A whole number below \<open>10^7\<close> prints with its digits and a zero after the point.\<close>

lemma double_text_nat:
  assumes "n < 10 ^ 7"
  shows "double_text (Fin (of_nat n)) = dec n @ ''.0''"
proof (cases "n = 0")
  case True
  then show ?thesis by (simp add: dec.simps digit_chr_0)
next
  case False
  let ?L = "length (dec n)"
  have n: "0 < n" "n < 2 ^ 53" using False assms by simp_all
  obtain k c where s: "search_digits (of_nat n) (flogb 10 (of_nat n) + 1) [1..<18] = Some (k, c)"
      "flogb 10 (of_nat n) + 1 - int k + int (length (dec c)) = int ?L"
      "strip_zeros (dec c) = strip_zeros (dec n)"
    using digits_whole [OF n] by blast
  have "10 ^ (?L - 1) \<le> n" using ndigits_bounds [of 10 n] n by (simp add: length_dec)
  then have "10 ^ (?L - 1) < (10 :: nat) ^ 7" using assms by (rule le_less_trans)
  then have "?L - 1 < 7" by (rule power_less_imp_less_exp [rotated]) simp
  moreover have "0 < ?L" using ndigits_pos [of 10 n] by (simp add: length_dec)
  ultimately have L: "0 < int ?L" "int ?L \<le> 7" by simp_all
  obtain j where j: "dec n = strip_zeros (dec n) @ replicate j (CHR ''0'')" using strip_zeros_split by blast
  then have len: "?L = length (strip_zeros (dec n)) + j" by (metis length_append length_replicate)
  have "pos_to_java (of_nat n) = java_layout (strip_zeros (dec n)) (int ?L)"
    unfolding pos_to_java_def Let_def by (simp only: s option.case prod.case)
  also have "\<dots> = (strip_zeros (dec n) @ replicate j (CHR ''0'')) @ ''.0''"
    using L len by (simp add: java_layout_def Let_def)
  finally show ?thesis using j n by simp
qed

end
