(* ===== verification/Perf_Stats.thy ===== *)
theory Perf_Stats
  imports Java_Value
begin

text \<open>
  The statistics of one run, \<open>Stats.java\<close> and \<open>SimpleScenarioStats.java\<close>: the counters,
  the handlers the producers and consumers call, the interval report with its sample, and
  the results map. A handler is one step of the model and takes the time
  \<open>System.nanoTime()\<close> returns in it, as when no other thread is inside a handler, so the guard
  \<open>ongoingReport\<close> is always free here; \<open>Perf_Threads\<close> interleaves the handlers. The histograms,
  timers and gauges of the metrics libraries are left out: no result reads them.
\<close>

section \<open>State\<close>

record stats =
  intervalInNanoSeconds :: int
  startTimeForGlobals :: int
  lastPublishedCount :: int
  lastReturnedCount :: int
  lastConfirmedCount :: int
  lastNackedCount :: int
  lastConsumedCount :: int
  lastStatsTime :: int
  sendCountInterval :: int
  returnCountInterval :: int
  confirmCountInterval :: int
  nackCountInterval :: int
  recvCountInterval :: int
  sendCountTotal :: int
  recvCountTotal :: int
  latencyCountInterval :: int
  latencyCountTotal :: int
  minLatency :: int
  maxLatency :: int
  cumulativeLatencyInterval :: int
  cumulativeLatencyTotal :: int
  elapsedInterval :: int
  elapsedTotal :: int
  samples :: "jmap list"
  elapsedTotalToIgnore :: int
  minMsgSize :: int

definition resetLastCounts :: "stats \<Rightarrow> stats" where
  "resetLastCounts s = s\<lparr>
     lastPublishedCount := sendCountInterval s,
     lastReturnedCount := returnCountInterval s,
     lastConfirmedCount := confirmCountInterval s,
     lastNackedCount := nackCountInterval s,
     lastConsumedCount := recvCountInterval s\<rparr>"

definition reset :: "int \<Rightarrow> stats \<Rightarrow> stats" where
  "reset t s = (resetLastCounts (s\<lparr>lastStatsTime := t\<rparr>))\<lparr>
     sendCountInterval := 0,
     returnCountInterval := 0,
     confirmCountInterval := 0,
     nackCountInterval := 0,
     recvCountInterval := 0,
     minLatency := long_max,
     maxLatency := long_min,
     latencyCountInterval := 0,
     cumulativeLatencyInterval := 0\<rparr>"

text \<open>
  The constructor, at a time and for an interval in milliseconds;
  \<open>Duration.ofMillis(interval).toNanos()\<close> throws when the product leaves the range of a
  \<open>long\<close>.
\<close>

definition new_stats :: "int \<Rightarrow> int \<Rightarrow> stats jres" where
  "new_stats interval now =
     (if interval * 1000000 < long_min \<or> long_max < interval * 1000000 then Inl Arithmetic
      else Inr (reset now \<lparr>
        intervalInNanoSeconds = interval * 1000000, startTimeForGlobals = now,
        lastPublishedCount = 0, lastReturnedCount = 0, lastConfirmedCount = 0,
        lastNackedCount = 0, lastConsumedCount = 0, lastStatsTime = 0,
        sendCountInterval = 0, returnCountInterval = 0, confirmCountInterval = 0,
        nackCountInterval = 0, recvCountInterval = 0, sendCountTotal = 0, recvCountTotal = 0,
        latencyCountInterval = 0, latencyCountTotal = 0, minLatency = 0, maxLatency = 0,
        cumulativeLatencyInterval = 0, cumulativeLatencyTotal = 0, elapsedInterval = 0,
        elapsedTotal = 0, samples = [], elapsedTotalToIgnore = 0, minMsgSize = 0\<rparr>))"

definition setup_stats :: "int \<Rightarrow> stats \<Rightarrow> stats" where
  "setup_stats size_param s = s\<lparr>minMsgSize := size_param\<rparr>"

section \<open>The report of an interval\<close>

text \<open>\<open>MS_TO_SECOND * ((double) count / (double) elapsed)\<close>, 0 for no time.\<close>

definition rate :: "int \<Rightarrow> int \<Rightarrow> dbl" where
  "rate count elapsed =
     (if elapsed = 0 then Fin 0 else of_long 1000 * dbl_quot (of_long count) (of_long elapsed))"

definition IGNORE_FIRST :: nat where
  "IGNORE_FIRST = 3"

definition intervalAverageLatency :: "stats \<Rightarrow> int jres" where
  "intervalAverageLatency s =
     long_div (cumulativeLatencyInterval s) (wrap64 (1000 * latencyCountInterval s))"

definition overallAverageLatency :: "stats \<Rightarrow> int jres" where
  "overallAverageLatency s =
     long_div (cumulativeLatencyTotal s) (wrap64 (1000 * latencyCountTotal s))"

text \<open>At the fourth report the totals start again.\<close>

definition drop_warm_up :: "stats \<Rightarrow> stats" where
  "drop_warm_up s =
     (if length (samples s) = IGNORE_FIRST
      then s\<lparr>cumulativeLatencyTotal := 0, latencyCountTotal := 0, sendCountTotal := 0,
             recvCountTotal := 0, elapsedTotalToIgnore := elapsedTotal s\<rparr>
      else s)"

definition sample_rates :: "stats \<Rightarrow> jmap" where
  "sample_rates s =
     (let elapsedTime = quot (elapsedInterval s) 1000000 in
      put ''elapsed'' (JLong (quot (elapsedTotal s) 1000000))
      (put ''recv-bytes-rate'' (JDouble (rate (recvCountInterval s) elapsedTime * of_long (minMsgSize s)))
      (put ''recv-msg-rate'' (JDouble (rate (recvCountInterval s) elapsedTime))
      (put ''send-bytes-rate'' (JDouble (rate (sendCountInterval s) elapsedTime * of_long (minMsgSize s)))
      (put ''send-msg-rate'' (JDouble (rate (sendCountInterval s) elapsedTime)) [])))))"

definition new_sample :: "stats \<Rightarrow> jmap jres" where
  "new_sample s =
     (if 0 < latencyCountInterval s
      then bindE (intervalAverageLatency s) (\<lambda>avg.
           Inr (put ''max-latency'' (JLong (quot (maxLatency s) 1000))
               (put ''min-latency'' (JLong (quot (minLatency s) 1000))
               (put ''avg-latency'' (JLong avg) (sample_rates s)))))
      else Inr (sample_rates s))"

definition report_sample :: "stats \<Rightarrow> stats jres" where
  "report_sample s =
     (let s1 = drop_warm_up s in
      bindE (new_sample s1) (\<lambda>m. Inr (s1\<lparr>samples := samples s1 @ [m]\<rparr>)))"

definition report :: "int \<Rightarrow> stats \<Rightarrow> stats jres" where
  "report now s =
     (let s1 = s\<lparr>elapsedInterval := wrap64 (now - lastStatsTime s)\<rparr> in
      if intervalInNanoSeconds s1 \<le> elapsedInterval s1
      then (let s2 = s1\<lparr>elapsedTotal := wrap64 (elapsedTotal s1 + elapsedInterval s1)\<rparr> in
            bindE (report_sample s2) (\<lambda>s3. Inr (reset now s3)))
      else Inr s1)"

section \<open>Handlers\<close>

text \<open>
  The calls the producers and consumers make. The latencies of confirms go to histograms
  only.
\<close>

datatype handler =
    Send
  | Return
  | Confirm int
  | Nack int
  | Recv int
  | Maybe_Reset_Gauges
  | Reset_Globals

definition count_latency :: "int \<Rightarrow> stats \<Rightarrow> stats" where
  "count_latency lat s =
     (if 0 \<le> lat
      then s\<lparr>minLatency := min (minLatency s) lat,
             maxLatency := max (maxLatency s) lat,
             cumulativeLatencyInterval := wrap64 (cumulativeLatencyInterval s + lat),
             cumulativeLatencyTotal := wrap64 (cumulativeLatencyTotal s + lat),
             latencyCountInterval := wrap64 (latencyCountInterval s + 1),
             latencyCountTotal := wrap64 (latencyCountTotal s + 1)\<rparr>
      else s)"

definition noActivity :: "stats \<Rightarrow> bool" where
  "noActivity s \<longleftrightarrow>
     lastPublishedCount s = sendCountInterval s \<and>
     lastReturnedCount s = returnCountInterval s \<and>
     lastConfirmedCount s = confirmCountInterval s \<and>
     lastNackedCount s = nackCountInterval s \<and>
     lastConsumedCount s = recvCountInterval s"

text \<open>Without the gauges, what is left of \<open>maybeResetGauges\<close> is the interval it measures.\<close>

definition maybeResetGauges :: "int \<Rightarrow> stats \<Rightarrow> stats" where
  "maybeResetGauges now s =
     (if noActivity s then s\<lparr>elapsedInterval := wrap64 (now - lastStatsTime s)\<rparr>
      else resetLastCounts s)"

definition resetGlobals :: "int \<Rightarrow> stats \<Rightarrow> stats" where
  "resetGlobals now s = s\<lparr>sendCountTotal := 0, recvCountTotal := 0, startTimeForGlobals := now\<rparr>"

fun handle_call :: "handler \<Rightarrow> int \<Rightarrow> stats \<Rightarrow> stats jres" where
  "handle_call Send now s =
     report now (s\<lparr>sendCountInterval := wrap64 (sendCountInterval s + 1),
                   sendCountTotal := wrap64 (sendCountTotal s + 1)\<rparr>)"
| "handle_call Return now s =
     report now (s\<lparr>returnCountInterval := wrap64 (returnCountInterval s + 1)\<rparr>)"
| "handle_call (Confirm n) now s =
     report now (s\<lparr>confirmCountInterval := wrap64 (confirmCountInterval s + n)\<rparr>)"
| "handle_call (Nack n) now s =
     report now (s\<lparr>nackCountInterval := wrap64 (nackCountInterval s + n)\<rparr>)"
| "handle_call (Recv lat) now s =
     report now (count_latency lat
       (s\<lparr>recvCountInterval := wrap64 (recvCountInterval s + 1),
          recvCountTotal := wrap64 (recvCountTotal s + 1)\<rparr>))"
| "handle_call Maybe_Reset_Gauges now s = Inr (maybeResetGauges now s)"
| "handle_call Reset_Globals now s = Inr (resetGlobals now s)"

type_synonym call = "handler \<times> int"

fun handle_calls :: "call list \<Rightarrow> stats \<Rightarrow> stats jres" where
  "handle_calls [] s = Inr s"
| "handle_calls ((h, now) # es) s = bindE (handle_call h now s) (handle_calls es)"

section \<open>Results\<close>

definition getSendRate :: "stats \<Rightarrow> dbl" where
  "getSendRate s = rate (sendCountTotal s) (wrap64 (elapsedTotal s - elapsedTotalToIgnore s))"

definition getRecvRate :: "stats \<Rightarrow> dbl" where
  "getRecvRate s = rate (recvCountTotal s) (wrap64 (elapsedTotal s - elapsedTotalToIgnore s))"

definition result_rates :: "stats \<Rightarrow> jmap" where
  "result_rates s =
     put ''recv-bytes-rate'' (JDouble (getRecvRate s * of_long (minMsgSize s)))
     (put ''recv-msg-rate'' (JDouble (getRecvRate s))
     (put ''send-bytes-rate'' (JDouble (getSendRate s * of_long (minMsgSize s)))
     (put ''send-msg-rate'' (JDouble (getSendRate s)) [])))"

definition simple_results :: "stats \<Rightarrow> jmap jres" where
  "simple_results s =
     bindE (if 0 < latencyCountTotal s
            then bindE (overallAverageLatency s) (\<lambda>avg. Inr (put ''avg-latency'' (JLong avg) (result_rates s)))
            else Inr (result_rates s)) (\<lambda>m.
       Inr (put ''samples'' (JList (map JMap (samples s))) m))"

text \<open>
  \<open>interval()\<close> is defined as a call of itself, with no other statement: the override is meant
  to expose the interval of the superclass.
\<close>

partial_function (option) interval_duration :: "stats \<Rightarrow> int option" where
  "interval_duration s = interval_duration s"

end
