(* ===== verification/Perf_Scenario.thy ===== *)
theory Perf_Scenario
  imports Perf_Stats
begin

text \<open>
  The scenarios: \<open>SimpleScenario\<close>, \<open>VaryingScenario\<close> with its \<open>VaryingScenarioStats\<close>, and
  \<open>RateVsLatencyScenario\<close>. The load generator (\<open>MulticastSet\<close>) and the parameter object
  (\<open>MulticastParams\<close>) are parameters of the model.
\<close>

section \<open>The surroundings of a scenario\<close>

text \<open>
  \<open>clock n\<close>: what \<open>System.nanoTime()\<close> returns when statistics are created, where \<open>n\<close> counts the
  statistics and load runs so far. \<open>load n f p\<close>: the calls the statistics receive from a
  \<open>MulticastSet\<close> with connection factory \<open>f\<close> and parameters \<open>p\<close>, from its construction to
  the return of \<open>run()\<close>, or the exception it throws. \<open>set_value p k v\<close>:
  \<open>PerfUtil.setValue\<close>. The parameter objects of a scenario are different objects, so they
  are values here, updated in place.
\<close>

record ('p, 'f) world =
  clock :: "nat \<Rightarrow> int"
  load :: "nat \<Rightarrow> 'f \<Rightarrow> 'p \<Rightarrow> call list jres"
  set_value :: "'p \<Rightarrow> string \<Rightarrow> jobj \<Rightarrow> 'p jres"
  get_min_msg_size :: "'p \<Rightarrow> int"
  new_params :: 'p
  set_uri :: "string \<Rightarrow> 'f \<Rightarrow> 'f jres"

fun foldE :: "('a \<Rightarrow> 's \<Rightarrow> 'e + 's) \<Rightarrow> 'a list \<Rightarrow> 's \<Rightarrow> 'e + 's" where
  "foldE f [] s = Inr s"
| "foldE f (x # xs) s = bindE (f x s) (foldE f xs)"

lemma foldE_append: "foldE f (xs @ ys) s = bindE (foldE f xs s) (foldE f ys)"
proof (induction xs arbitrary: s)
  case (Cons x xs)
  then show ?case by (cases "f x s") simp_all
qed simp

section \<open>Variables\<close>

text \<open>
  A \<open>MulticastValue\<close> is an object without \<open>equals\<close>: two of them are equal when they are the same
  object. \<open>mv_object\<close> stands for the identity, the positions of the variable in the
  scenario and of the value in the variable.
\<close>

record mvalue =
  mv_object :: "nat \<times> nat"
  mv_name :: string
  mv_value :: jobj

definition multicast_variable :: "nat \<Rightarrow> string \<Rightarrow> jobj list \<Rightarrow> mvalue list" where
  "multicast_variable i name vals =
     map (\<lambda>(j, v). \<lparr>mv_object = (i, j), mv_name = name, mv_value = v\<rparr>) (enumerate 0 vals)"

definition setup_value :: "('p, 'f) world \<Rightarrow> mvalue \<Rightarrow> 'p \<Rightarrow> 'p jres" where
  "setup_value w v p = set_value w p (mv_name v) (mv_value v)"

section \<open>Running the load\<close>

text \<open>
  The loop over the parameters: the values of the variables are set, the statistics learn the
  message size, and the load runs. \<open>teardown\<close> has an empty body.
\<close>

fun run_params ::
  "('p, 'f) world \<Rightarrow> 'f \<Rightarrow> mvalue list \<Rightarrow> 'p list \<Rightarrow> nat \<Rightarrow> stats \<Rightarrow> ('p list \<times> nat \<times> stats) jres" where
  "run_params w f values [] n s = Inr ([], n, s)"
| "run_params w f values (p # ps) n s =
     bindE (foldE (setup_value w) values p) (\<lambda>p'.
     bindE (load w n f p') (\<lambda>calls.
     bindE (handle_calls calls (setup_stats (get_min_msg_size w p') s)) (\<lambda>s'.
     bindE (run_params w f values ps (Suc n) s') (\<lambda>(ps', n', s'').
       Inr (p' # ps', n', s'')))))"

definition run_simple ::
  "('p, 'f) world \<Rightarrow> 'f \<Rightarrow> int \<Rightarrow> 'p list \<Rightarrow> nat \<Rightarrow> ('p list \<times> nat \<times> stats) jres" where
  "run_simple w f interval params n =
     bindE (new_stats interval (clock w n)) (\<lambda>s. run_params w f [] params (Suc n) s)"

section \<open>Varying scenarios\<close>

record varying_stats =
  vs_keys :: "mvalue list list"
  vs_stats :: "(mvalue list \<times> stats) list"

record 'p varying_run =
  vr_params :: "'p list"
  vr_count :: nat
  vr_stats :: varying_stats

text \<open>\<open>VaryingScenarioStats.next\<close> with the load that fills the statistics it returns.\<close>

definition run_combination ::
  "('p, 'f) world \<Rightarrow> 'f \<Rightarrow> mvalue list \<Rightarrow> 'p varying_run \<Rightarrow> 'p varying_run jres" where
  "run_combination w f values st =
     bindE (new_stats 1000 (clock w (vr_count st))) (\<lambda>s0.
     bindE (run_params w f values (vr_params st) (Suc (vr_count st)) s0) (\<lambda>(ps, n, s).
       Inr \<lparr>vr_params = ps, vr_count = n,
            vr_stats = \<lparr>vs_keys = vs_keys (vr_stats st) @ [values],
                        vs_stats = AList.update values s (vs_stats (vr_stats st))\<rparr>\<rparr>))"

fun run_variables ::
  "('p, 'f) world \<Rightarrow> 'f \<Rightarrow> mvalue list list \<Rightarrow> mvalue list \<Rightarrow> 'p varying_run \<Rightarrow> 'p varying_run jres" where
  "run_variables w f [] values st = run_combination w f values st"
| "run_variables w f (variable # rest) values st =
     foldE (\<lambda>v. run_variables w f rest (values @ [v])) variable st"

definition run_varying ::
  "('p, 'f) world \<Rightarrow> 'f \<Rightarrow> 'p list \<Rightarrow> mvalue list list \<Rightarrow> nat \<Rightarrow> 'p varying_run jres" where
  "run_varying w f params variables n =
     run_variables w f variables []
       \<lparr>vr_params = params, vr_count = n, vr_stats = \<lparr>vs_keys = [], vs_stats = []\<rparr>\<rparr>"

section \<open>The results of a varying scenario\<close>

text \<open>The texts of the values of each dimension, each text once.\<close>

definition add_value :: "mvalue \<Rightarrow> (string \<times> string list) list \<Rightarrow> (string \<times> string list) list jres" where
  "add_value e dv =
     (let vals = (case map_of dv (mv_name e) of None \<Rightarrow> [] | Some vs \<Rightarrow> vs) in
      bindE (to_string (mv_value e)) (\<lambda>t.
        Inr (put (mv_name e) (if t \<in> set vals then vals else vals @ [t]) dv)))"

definition dimension_values_of :: "mvalue list list \<Rightarrow> (string \<times> string list) list jres" where
  "dimension_values_of keys = foldE (\<lambda>key. foldE add_value key) keys []"

text \<open>The nested maps: one level per dimension, the results of a run at the last one.\<close>

fun insert_results :: "string list \<Rightarrow> jmap \<Rightarrow> jmap \<Rightarrow> jmap jres" where
  "insert_results [] res node = Inr node"
| "insert_results [k] res node = Inr (put k (JMap res) node)"
| "insert_results (k # l # ks) res node =
     (case map_of node k of
        None \<Rightarrow> bindE (insert_results (l # ks) res []) (\<lambda>n. Inr (put k (JMap n) node))
      | Some (JMap m) \<Rightarrow> bindE (insert_results (l # ks) res m) (\<lambda>n. Inr (put k (JMap n) node))
      | Some _ \<Rightarrow> Inl Class_Cast)"

definition add_run :: "(mvalue list \<times> stats) list \<Rightarrow> mvalue list \<Rightarrow> jmap \<Rightarrow> jmap jres" where
  "add_run stats_map key data =
     (case map_of stats_map key of
        None \<Rightarrow> Inl Null_Pointer
      | Some s \<Rightarrow>
          bindE (simple_results s) (\<lambda>res.
          bindE (mapE (\<lambda>e. to_string (mv_value e)) key) (\<lambda>ts.
            insert_results ts res data)))"

definition strings :: "string list \<Rightarrow> jobj" where
  "strings ss = JList (map JString ss)"

definition varying_results :: "varying_stats \<Rightarrow> jmap jres" where
  "varying_results vs =
     (case vs_keys vs of
        [] \<Rightarrow> Inl Index_Out_Of_Bounds
      | key # _ \<Rightarrow>
          bindE (dimension_values_of (vs_keys vs)) (\<lambda>dv.
          bindE (foldE (add_run (vs_stats vs)) (vs_keys vs) []) (\<lambda>data.
            Inr (put ''data'' (JMap data)
                (put ''dimension-values'' (JMap (map (\<lambda>(k, vals). (k, strings vals)) dv))
                (put ''dimensions'' (strings (map mv_name key)) []))))))"

section \<open>Rate against latency\<close>

definition rate_factors :: "rat list" where
  "rate_factors =
     [1 / 100, 2 / 10, 4 / 10, 6 / 10, 8 / 10, 9 / 10, 95 / 100, 96 / 100, 97 / 100, 98 / 100,
      99 / 100, 1, 101 / 100, 102 / 100, 103 / 100, 104 / 100, 105 / 100]"

text \<open>\<open>(int) (m.getRecvRate() + m.getSendRate()) / 2\<close>: the cast binds to the sum.\<close>

definition max_rate :: "stats \<Rightarrow> int" where
  "max_rate s = quot (to_int (getRecvRate s + getSendRate s)) 2"

definition rate_limits :: "int \<Rightarrow> jobj list" where
  "rate_limits mx = map (\<lambda>q. JInt (to_int (rnd q * of_long mx))) rate_factors"

definition run_rate_vs_latency ::
  "('p, 'f) world \<Rightarrow> 'f \<Rightarrow> 'p \<Rightarrow> nat \<Rightarrow> 'p varying_run jres" where
  "run_rate_vs_latency w f p n =
     bindE (run_simple w f 1000 [p] n) (\<lambda>(ps, n', s).
       run_varying w f ps [multicast_variable 0 ''producerRateLimit'' (rate_limits (max_rate s))] n')"

end
