(* ===== verification/Perf_Factory.thy ===== *)
theory Perf_Factory
  imports Perf_Scenario
begin

text \<open>
  From a specification to a result file: \<open>ScenarioFactory.java\<close> and \<open>PerfTestMulti.java\<close>. The
  specification is what Gson reads into a list of maps (its numbers become \<open>Double\<close>), the
  result file what Gson prints of the map of results.
\<close>

section \<open>Reading a map\<close>

text \<open>The classes the factory asks for.\<close>

datatype jclass = String_Class | Double_Class | List_Class

fun has_class :: "jclass \<Rightarrow> jobj \<Rightarrow> bool" where
  "has_class String_Class (JString s) = True"
| "has_class Double_Class (JDouble x) = True"
| "has_class List_Class (JList xs) = True"
| "has_class c v = False"

definition read0 :: "string \<Rightarrow> jmap \<Rightarrow> jclass \<Rightarrow> jobj jres" where
  "read0 key m c =
     (case map_of m key of
        Some JNull \<Rightarrow> Inl Null_Pointer
      | None \<Rightarrow> Inl Null_Pointer
      | Some v \<Rightarrow>
          if has_class c v then Inr v else Inl (Runtime_Exception (''Object under key '' @ key)))"

definition read_required :: "string \<Rightarrow> jmap \<Rightarrow> jclass \<Rightarrow> jobj jres" where
  "read_required key m c =
     (if map_of m key = None then Inl (Runtime_Exception (''Key '' @ key @ '' not found.''))
      else read0 key m c)"

definition read_default :: "string \<Rightarrow> jmap \<Rightarrow> jclass \<Rightarrow> jobj \<Rightarrow> jobj jres" where
  "read_default key m c d = (if map_of m key = None then Inr d else read0 key m c)"

fun string_of :: "jobj \<Rightarrow> string" where
  "string_of (JString s) = s"
| "string_of v = []"

fun double_of :: "jobj \<Rightarrow> dbl" where
  "double_of (JDouble x) = x"
| "double_of v = NaN"

fun list_of :: "jobj \<Rightarrow> jobj list" where
  "list_of (JList xs) = xs"
| "list_of v = []"

text \<open>The cast \<open>(Map) o\<close>, and the use of the result.\<close>

fun as_map :: "jobj \<Rightarrow> jmap jres" where
  "as_map (JMap m) = Inr m"
| "as_map JNull = Inl Null_Pointer"
| "as_map v = Inl Class_Cast"

section \<open>Names of properties\<close>

text \<open>
  \<open>String.split("-")\<close>: trailing empty parts are dropped, unless there is no hyphen at all. Case
  conversion is that of ASCII letters; another character is outside the model.
\<close>

definition hyphen_parts :: "string \<Rightarrow> string list" where
  "hyphen_parts s =
     (if CHR ''-'' \<notin> set s then [s]
      else rev (dropWhile (\<lambda>p. p = []) (rev (split_chr (CHR ''-'') s))))"

definition shift_case :: "nat \<Rightarrow> nat \<Rightarrow> nat \<Rightarrow> char \<Rightarrow> char" where
  "shift_case lo d e c =
     (let n = of_char c in if lo \<le> n \<and> n < lo + 26 then char_of (n + d - e) else c)"

definition to_upper :: "char \<Rightarrow> char" where
  "to_upper = shift_case 97 0 32"

definition to_lower :: "char \<Rightarrow> char" where
  "to_lower = shift_case 65 32 0"

text \<open>\<open>s.substring(0, 1)\<close> in another case, then \<open>s.substring(1)\<close>.\<close>

fun change_first :: "(char \<Rightarrow> char) \<Rightarrow> string \<Rightarrow> string jres" where
  "change_first f [] = Inl Index_Out_Of_Bounds"
| "change_first f (c # s) =
     (if (of_char c :: nat) < 128 then Inr (f c # s) else Inl (Outside_Model ''case conversion''))"

definition hyphensToCamel :: "string \<Rightarrow> string jres" where
  "hyphensToCamel name =
     bindE (mapE (change_first to_upper) (hyphen_parts name)) (\<lambda>ps.
       change_first to_lower (concat ps))"

definition json_fields :: "(string \<times> string) list" where
  "json_fields =
     [(''body'', ''bodyFiles''), (''rate'', ''producerRateLimit''),
      (''consumer-rate'', ''consumerRateLimit'')]"

definition mapJsonFieldToPropertyName :: "string \<Rightarrow> string jres" where
  "mapJsonFieldToPropertyName field_name =
     (case map_of json_fields field_name of Some p \<Rightarrow> Inr p | None \<Rightarrow> hyphensToCamel field_name)"

section \<open>Scenarios\<close>

datatype 'p scenario =
    Simple string int "'p list"
  | Rate_Vs_Latency string 'p
  | Varying string "'p list" "mvalue list list"

fun scenario_name :: "'p scenario \<Rightarrow> string" where
  "scenario_name (Simple n i ps) = n"
| "scenario_name (Rate_Vs_Latency n p) = n"
| "scenario_name (Varying n ps vs) = n"

text \<open>\<open>new_params w\<close> is a fresh parameter object after \<open>setAutoDelete(true)\<close>.\<close>

definition params_from_json :: "('p, 'f) world \<Rightarrow> jobj \<Rightarrow> 'p jres" where
  "params_from_json w j =
     bindE (as_map j) (\<lambda>m.
       foldE (\<lambda>(k, v) p. bindE (mapJsonFieldToPropertyName k) (\<lambda>name. set_value w p name v)) m (new_params w))"

definition variable_from_json :: "nat \<Rightarrow> jobj \<Rightarrow> mvalue list jres" where
  "variable_from_json i j =
     bindE (as_map j) (\<lambda>m.
     bindE (read_default ''type'' m String_Class (JString ''multicast'')) (\<lambda>ty.
     bindE (read_required ''name'' m String_Class) (\<lambda>name.
     bindE (read_required ''values'' m List_Class) (\<lambda>vals.
       if string_of ty = ''multicast''
       then bindE (mapJsonFieldToPropertyName (string_of name)) (\<lambda>n.
              Inr (multicast_variable i n (list_of vals)))
       else Inl (Runtime_Exception (''Type '' @ string_of ty @ '' was not multicast''))))))"

text \<open>
  \<open>read("uri", ...)\<close> and \<open>setUri\<close> stand in a block that turns every exception into a
  \<open>RuntimeException\<close>.
\<close>

definition connect :: "('p, 'f) world \<Rightarrow> string \<Rightarrow> jmap \<Rightarrow> 'f \<Rightarrow> 'f jres" where
  "connect w name m f =
     (case bindE (read_default ''uri'' m String_Class (JString ''amqp://localhost''))
             (\<lambda>u. set_uri w (string_of u) f) of
        Inr f' \<Rightarrow> Inr f'
      | Inl e \<Rightarrow> Inl (Runtime_Exception (''scenario: '' @ name @ '' with malformed uri'')))"

definition from_json :: "('p, 'f) world \<Rightarrow> jobj \<Rightarrow> 'f \<Rightarrow> ('p scenario \<times> 'f) jres" where
  "from_json w j f =
     bindE (as_map j) (\<lambda>m.
     bindE (read_required ''type'' m String_Class) (\<lambda>ty.
     bindE (read_required ''name'' m String_Class) (\<lambda>nm.
     bindE (read_default ''interval'' m Double_Class (JDouble (Fin 1000))) (\<lambda>iv.
     bindE (read_required ''params'' m List_Class) (\<lambda>pj.
     bindE (connect w (string_of nm) m f) (\<lambda>f'.
     bindE (mapE (params_from_json w) (list_of pj)) (\<lambda>ps.
       let type = string_of ty; name = string_of nm in
       if type = ''simple'' then Inr (Simple name (to_int (double_of iv)) ps, f')
       else if type = ''rate-vs-latency''
       then (case ps of [] \<Rightarrow> Inl Index_Out_Of_Bounds | p # _ \<Rightarrow> Inr (Rate_Vs_Latency name p, f'))
       else if type = ''varying''
       then bindE (read_required ''variables'' m List_Class) (\<lambda>vj.
            bindE (mapE (\<lambda>(i, v). variable_from_json i v) (enumerate 0 (list_of vj))) (\<lambda>vs.
              Inr (Varying name ps vs, f')))
       else Inl (Runtime_Exception (''Type '' @ type @ '' was not simple or varying.'')))))))))"

section \<open>Running a specification\<close>

text \<open>The scenarios are all made before the first of them runs; they share one connection factory.\<close>

fun make_scenarios :: "('p, 'f) world \<Rightarrow> jobj list \<Rightarrow> 'f \<Rightarrow> ('p scenario list \<times> 'f) jres" where
  "make_scenarios w [] f = Inr ([], f)"
| "make_scenarios w (j # js) f =
     bindE (from_json w j f) (\<lambda>(sc, f').
     bindE (make_scenarios w js f') (\<lambda>(scs, f''). Inr (sc # scs, f'')))"

text \<open>\<open>run()\<close>, then \<open>getStats().results()\<close>.\<close>

fun run_scenario :: "('p, 'f) world \<Rightarrow> 'f \<Rightarrow> 'p scenario \<Rightarrow> nat \<Rightarrow> (jmap \<times> nat) jres" where
  "run_scenario w f (Simple name interval ps) n =
     bindE (run_simple w f interval ps n) (\<lambda>(ps', n', s). bindE (simple_results s) (\<lambda>m. Inr (m, n')))"
| "run_scenario w f (Rate_Vs_Latency name p) n =
     bindE (run_rate_vs_latency w f p n) (\<lambda>st.
     bindE (varying_results (vr_stats st)) (\<lambda>m. Inr (m, vr_count st)))"
| "run_scenario w f (Varying name ps vs) n =
     bindE (run_varying w f ps vs n) (\<lambda>st.
     bindE (varying_results (vr_stats st)) (\<lambda>m. Inr (m, vr_count st)))"

fun run_tests :: "('p, 'f) world \<Rightarrow> 'f \<Rightarrow> 'p scenario list \<Rightarrow> nat \<Rightarrow> jmap \<Rightarrow> jmap jres" where
  "run_tests w f [] n results = Inr results"
| "run_tests w f (sc # scs) n results =
     bindE (run_scenario w f sc n) (\<lambda>(m, n').
       run_tests w f scs n' (put (scenario_name sc) (JMap m) results))"

text \<open>
  \<open>main\<close>, for a specification that is a list: the object that is printed to the output file, or
  the exception that ends the program before the file is opened.
\<close>

definition perf_test_multi :: "('p, 'f) world \<Rightarrow> jobj list \<Rightarrow> 'f \<Rightarrow> jmap jres" where
  "perf_test_multi w spec f =
     bindE (make_scenarios w spec f) (\<lambda>(scs, f'). run_tests w f' scs 0 [])"

end
