(* ===== verification/Perf_Stats_Spec.thy ===== *)
theory Perf_Stats_Spec
  imports Perf_Stats
begin

text \<open>
  What the statistics of a run promise. The calls a run receives are cut into windows: a
  window is closed by the first reporting call that comes at least one interval after the
  window began. The samples are a function of the closed windows, the results one of the
  calls after the fourth of them; both are proved of the counters by a simulation. The
  overall rates divide messages per second by a million: the elapsed time they use is in
  nanoseconds where the samples use milliseconds.
\<close>

section \<open>Windows\<close>

record window =
  w_from :: int
  w_to :: int
  w_calls :: "handler list"

record run =
  r_closed :: "window list"
  r_opened :: int
  r_pending :: "handler list"

definition reports :: "handler \<Rightarrow> bool" where
  "reports h \<longleftrightarrow> h \<noteq> Maybe_Reset_Gauges \<and> h \<noteq> Reset_Globals"

definition step_run :: "int \<Rightarrow> call \<Rightarrow> run \<Rightarrow> run" where
  "step_run I c r =
     (if reports (fst c) \<and> I \<le> snd c - r_opened r
      then \<lparr>r_closed = r_closed r @ [\<lparr>w_from = r_opened r, w_to = snd c, w_calls = r_pending r @ [fst c]\<rparr>],
            r_opened = snd c, r_pending = []\<rparr>
      else r\<lparr>r_pending := r_pending r @ [fst c]\<rparr>)"

definition run_of :: "int \<Rightarrow> int \<Rightarrow> call list \<Rightarrow> run" where
  "run_of I t0 es = fold (step_run I) es \<lparr>r_closed = [], r_opened = t0, r_pending = []\<rparr>"

lemma run_of_Nil [simp]: "run_of I t0 [] = \<lparr>r_closed = [], r_opened = t0, r_pending = []\<rparr>"
  by (simp add: run_of_def)

lemma run_of_snoc: "run_of I t0 (es @ [c]) = step_run I c (run_of I t0 es)"
  by (simp add: run_of_def)

definition sends :: "handler list \<Rightarrow> int" where
  "sends hs = int (length (filter (\<lambda>h. h = Send) hs))"

fun latency_of :: "handler \<Rightarrow> int option" where
  "latency_of (Recv l) = (if 0 \<le> l then Some l else None)"
| "latency_of h = None"

definition is_recv :: "handler \<Rightarrow> bool" where
  "is_recv h = (case h of Recv l \<Rightarrow> True | _ \<Rightarrow> False)"

definition recvs :: "handler list \<Rightarrow> int" where
  "recvs hs = int (length (filter is_recv hs))"

definition lats :: "handler list \<Rightarrow> int list" where
  "lats hs = List.map_filter latency_of hs"

lemma counts_append [simp]:
  "sends (hs @ ks) = sends hs + sends ks"
  "recvs (hs @ ks) = recvs hs + recvs ks"
  "lats (hs @ ks) = lats hs @ lats ks"
  by (simp_all add: sends_def recvs_def lats_def map_filter_def)

lemma counts_Nil [simp]: "sends [] = 0" "recvs [] = 0" "lats [] = []"
  by (simp_all add: sends_def recvs_def lats_def map_filter_def)

lemma counts_one:
  "sends [h] = (if h = Send then 1 else 0)"
  "recvs [h] = (if is_recv h then 1 else 0)"
  "lats [h] = (case latency_of h of Some l \<Rightarrow> [l] | None \<Rightarrow> [])"
  by (simp_all add: sends_def recvs_def lats_def map_filter_def split: option.split)

lemma latency_nonneg: "latency_of h = Some l \<Longrightarrow> 0 \<le> l"
  by (cases h) (auto split: if_splits)

lemma lats_nonneg: "l \<in> set (lats hs) \<Longrightarrow> 0 \<le> l"
  by (auto simp: lats_def map_filter_def latency_nonneg)

lemma counts_bounds:
  "0 \<le> sends hs" "sends hs \<le> int (length hs)"
  "0 \<le> recvs hs" "recvs hs \<le> int (length hs)"
  "length (lats hs) \<le> length hs" "0 \<le> sum_list (lats hs)"
  using lats_nonneg [of _ hs] sum_list_nonneg [of "lats hs"]
  by (auto simp: sends_def recvs_def lats_def map_filter_def)

section \<open>Samples and results of a run\<close>

definition mean_latency :: "handler list \<Rightarrow> int" where
  "mean_latency hs = sum_list (lats hs) div (1000 * int (length (lats hs)))"

definition window_sample :: "int \<Rightarrow> int \<Rightarrow> window \<Rightarrow> jmap" where
  "window_sample sz t0 w =
     (let hs = w_calls w; ms = (w_to w - w_from w) div 1000000 in
      [(''send-msg-rate'', JDouble (rate (sends hs) ms)),
       (''send-bytes-rate'', JDouble (rate (sends hs) ms * of_long sz)),
       (''recv-msg-rate'', JDouble (rate (recvs hs) ms)),
       (''recv-bytes-rate'', JDouble (rate (recvs hs) ms * of_long sz)),
       (''elapsed'', JLong ((w_to w - t0) div 1000000))] @
      (if lats hs = [] then []
       else [(''avg-latency'', JLong (mean_latency hs)),
             (''min-latency'', JLong (Min (set (lats hs)) div 1000)),
             (''max-latency'', JLong (Max (set (lats hs)) div 1000))]))"

text \<open>The warm-up lasts four windows: the totals count the calls after it.\<close>

definition warm_up :: nat where
  "warm_up = Suc IGNORE_FIRST"

definition measured_from :: "int \<Rightarrow> run \<Rightarrow> int" where
  "measured_from t0 r = (if warm_up \<le> length (r_closed r) then w_to (r_closed r ! IGNORE_FIRST) else t0)"

definition measured_windows :: "run \<Rightarrow> window list" where
  "measured_windows r = (if warm_up \<le> length (r_closed r) then drop warm_up (r_closed r) else r_closed r)"

definition measured_calls :: "run \<Rightarrow> handler list" where
  "measured_calls r = concat (map w_calls (measured_windows r)) @ r_pending r"

definition run_results :: "int \<Rightarrow> int \<Rightarrow> run \<Rightarrow> jmap" where
  "run_results sz t0 r =
     (let hs = measured_calls r; t = r_opened r - measured_from t0 r in
      [(''send-msg-rate'', JDouble (rate (sends hs) t)),
       (''send-bytes-rate'', JDouble (rate (sends hs) t * of_long sz)),
       (''recv-msg-rate'', JDouble (rate (recvs hs) t)),
       (''recv-bytes-rate'', JDouble (rate (recvs hs) t * of_long sz))] @
      (if lats hs = [] then [] else [(''avg-latency'', JLong (mean_latency hs))]) @
      [(''samples'', JList (map (\<lambda>w. JMap (window_sample sz t0 w)) (r_closed r)))])"

section \<open>The calls of a run\<close>

text \<open>
  Times do not go back and the run stays within the range of the clock; no counter leaves the
  range of a \<open>long\<close>.
\<close>

definition well_timed :: "int \<Rightarrow> call list \<Rightarrow> bool" where
  "well_timed t0 es \<longleftrightarrow> sorted (t0 # map snd es) \<and> (\<forall>c \<in> set es. snd c - t0 < 2 ^ 63)"

definition small_load :: "call list \<Rightarrow> bool" where
  "small_load es \<longleftrightarrow> length es < 2 ^ 53 \<and> sum_list (lats (map fst es)) < 2 ^ 63"

lemma well_timed_snoc:
  "well_timed t0 (es @ [c]) \<longleftrightarrow>
     well_timed t0 es \<and> (\<forall>d \<in> set es. snd d \<le> snd c) \<and> t0 \<le> snd c \<and> snd c - t0 < 2 ^ 63"
  by (auto simp: well_timed_def sorted_append)

lemma small_load_snoc: "small_load (es @ [c]) \<Longrightarrow> small_load es"
  using counts_bounds(6) [of "[fst c]"] by (auto simp: small_load_def)

lemma run_of_calls:
  "concat (map w_calls (r_closed (run_of I t0 es))) @ r_pending (run_of I t0 es) = map fst es"
proof (induction es rule: rev_induct)
  case (snoc c es)
  then show ?case by (auto simp: run_of_snoc step_run_def simp flip: append_assoc)
qed simp

lemma opened_time: "r_opened (run_of I t0 es) \<in> insert t0 (snd ` set es)"
  by (induction es rule: rev_induct) (auto simp: run_of_snoc step_run_def)

fun chained :: "int \<Rightarrow> window list \<Rightarrow> int \<Rightarrow> bool" where
  "chained t [] u \<longleftrightarrow> t = u"
| "chained t (w # ws) u \<longleftrightarrow> w_from w = t \<and> w_from w \<le> w_to w \<and> chained (w_to w) ws u"

lemma chained_snoc: "chained t (ws @ [w]) u \<longleftrightarrow> chained t ws (w_from w) \<and> w_from w \<le> w_to w \<and> w_to w = u"
  by (induction ws arbitrary: t) auto

lemma chained_le: "chained t ws u \<Longrightarrow> t \<le> u"
  by (induction ws arbitrary: t) fastforce+

lemma chained_drop: "chained t ws u \<Longrightarrow> n < length ws \<Longrightarrow> chained (w_to (ws ! n)) (drop (Suc n) ws) u"
proof (induction ws arbitrary: t n)
  case (Cons w ws)
  then show ?case by (cases n) auto
qed simp

lemma measured_after_start: "chained t ws u \<Longrightarrow> n < length ws \<Longrightarrow> t \<le> w_to (ws ! n)"
proof (induction ws arbitrary: t n)
  case (Cons w ws)
  then show ?case by (cases n) fastforce+
qed simp

lemma chained_sum: "chained t ws u \<Longrightarrow> sum_list (map (\<lambda>w. w_to w - w_from w) ws) = u - t"
  by (induction ws arbitrary: t) auto

lemma run_of_chained: "well_timed t0 es \<Longrightarrow> chained t0 (r_closed (run_of I t0 es)) (r_opened (run_of I t0 es))"
proof (induction es rule: rev_induct)
  case (snoc c es)
  then have "r_opened (run_of I t0 es) \<le> snd c" using opened_time [of I t0 es] by (auto simp: well_timed_snoc)
  with snoc show ?case by (auto simp: run_of_snoc step_run_def chained_snoc well_timed_snoc)
qed simp

section \<open>The counters follow the run\<close>

definition least :: "int list \<Rightarrow> int" where
  "least ls = foldl min long_max ls"

definition greatest :: "int list \<Rightarrow> int" where
  "greatest ls = foldl max long_min ls"

lemma least_Min: "ls \<noteq> [] \<Longrightarrow> (\<And>l. l \<in> set ls \<Longrightarrow> l \<le> long_max) \<Longrightarrow> least ls = Min (set ls)"
proof (induction ls rule: rev_induct)
  case (snoc l ls)
  then show ?case by (cases "ls = []") (auto simp: least_def min.absorb2 min.commute)
qed simp

lemma greatest_Max: "ls \<noteq> [] \<Longrightarrow> (\<And>l. l \<in> set ls \<Longrightarrow> long_min \<le> l) \<Longrightarrow> greatest ls = Max (set ls)"
proof (induction ls rule: rev_induct)
  case (snoc l ls)
  then show ?case by (cases "ls = []") (auto simp: greatest_def max.absorb2 max.commute)
qed simp

text \<open>What the counters of the interval hold, and what the totals hold.\<close>

definition tracks_interval :: "handler list \<Rightarrow> stats \<Rightarrow> bool" where
  "tracks_interval hs s \<longleftrightarrow>
     sendCountInterval s = sends hs \<and> recvCountInterval s = recvs hs \<and>
     latencyCountInterval s = int (length (lats hs)) \<and>
     cumulativeLatencyInterval s = sum_list (lats hs) \<and>
     minLatency s = least (lats hs) \<and> maxLatency s = greatest (lats hs)"

definition tracks_totals :: "handler list \<Rightarrow> stats \<Rightarrow> bool" where
  "tracks_totals hs s \<longleftrightarrow>
     sendCountTotal s = sends hs \<and> recvCountTotal s = recvs hs \<and>
     latencyCountTotal s = int (length (lats hs)) \<and>
     cumulativeLatencyTotal s = sum_list (lats hs)"

definition tracks :: "int \<Rightarrow> int \<Rightarrow> int \<Rightarrow> run \<Rightarrow> stats \<Rightarrow> bool" where
  "tracks I t0 sz r s \<longleftrightarrow>
     intervalInNanoSeconds s = I \<and> minMsgSize s = sz \<and> lastStatsTime s = r_opened r \<and>
     samples s = map (window_sample sz t0) (r_closed r) \<and>
     elapsedTotal s = r_opened r - t0 \<and>
     elapsedTotalToIgnore s = measured_from t0 r - t0 \<and>
     tracks_interval (r_pending r) s"

text \<open>A call counts itself before it reports.\<close>

fun count_call :: "handler \<Rightarrow> stats \<Rightarrow> stats" where
  "count_call Send s = s\<lparr>sendCountInterval := wrap64 (sendCountInterval s + 1),
                         sendCountTotal := wrap64 (sendCountTotal s + 1)\<rparr>"
| "count_call Return s = s\<lparr>returnCountInterval := wrap64 (returnCountInterval s + 1)\<rparr>"
| "count_call (Confirm n) s = s\<lparr>confirmCountInterval := wrap64 (confirmCountInterval s + n)\<rparr>"
| "count_call (Nack n) s = s\<lparr>nackCountInterval := wrap64 (nackCountInterval s + n)\<rparr>"
| "count_call (Recv lat) s = count_latency lat
     (s\<lparr>recvCountInterval := wrap64 (recvCountInterval s + 1), recvCountTotal := wrap64 (recvCountTotal s + 1)\<rparr>)"
| "count_call h s = s"

lemma handle_call_reports: "reports h \<Longrightarrow> handle_call h now s = report now (count_call h s)"
  by (cases h) (simp_all add: reports_def)

definition fits :: "handler list \<Rightarrow> bool" where
  "fits hs \<longleftrightarrow> length hs < 2 ^ 53 \<and> sum_list (lats hs) < 2 ^ 63"

lemma fits_lats: "fits hs \<Longrightarrow> l \<in> set (lats hs) \<Longrightarrow> l \<le> long_max"
  using member_le_sum_list [of l "lats hs"] lats_nonneg [of _ hs] by (fastforce simp: fits_def long_max_def)

lemma fits_part: "fits (hs @ ks) \<Longrightarrow> fits hs \<and> fits ks"
  using counts_bounds(6) [of hs] counts_bounds(6) [of ks] by (auto simp: fits_def)

lemma tracks_interval_count:
  assumes "tracks_interval hs s" and "fits (hs @ [h])"
  shows "tracks_interval (hs @ [h]) (count_call h s)"
proof -
  note b = counts_bounds [of hs]
  have len: "int (length hs) + 1 < 2 ^ 53" using assms(2) by (simp add: fits_def)
  show ?thesis
  proof (cases "latency_of h")
    case None
    then show ?thesis using assms(1) b len
      by (cases h) (auto simp: tracks_interval_def counts_one is_recv_def count_latency_def split: if_splits)
  next
    case (Some l)
    then have h: "h = Recv l" "0 \<le> l" by (cases h; simp split: if_splits)+
    have "sum_list (lats hs) + l < 2 ^ 63" using assms(2) by (simp add: fits_def counts_one Some)
    moreover have "int (length (lats hs)) + 1 < 2 ^ 63" using b(5) len by simp
    ultimately show ?thesis using assms(1) b len h
      by (simp add: tracks_interval_def counts_one is_recv_def count_latency_def least_def greatest_def)
  qed
qed

lemma tracks_totals_count:
  assumes "tracks_totals hs s" and "fits (hs @ [h])"
  shows "tracks_totals (hs @ [h]) (count_call h s)"
proof -
  note b = counts_bounds [of hs]
  have len: "int (length hs) + 1 < 2 ^ 53" using assms(2) by (simp add: fits_def)
  show ?thesis
  proof (cases "latency_of h")
    case None
    then show ?thesis using assms(1) b len
      by (cases h) (auto simp: tracks_totals_def counts_one is_recv_def count_latency_def split: if_splits)
  next
    case (Some l)
    then have h: "h = Recv l" "0 \<le> l" by (cases h; simp split: if_splits)+
    have "sum_list (lats hs) + l < 2 ^ 63" using assms(2) by (simp add: fits_def counts_one Some)
    moreover have "int (length (lats hs)) + 1 < 2 ^ 63" using b(5) len by simp
    ultimately show ?thesis using assms(1) b len h
      by (simp add: tracks_totals_def counts_one is_recv_def count_latency_def)
  qed
qed

lemma long_mean: "fits hs \<Longrightarrow> lats hs \<noteq> [] \<Longrightarrow>
  long_div (sum_list (lats hs)) (wrap64 (1000 * int (length (lats hs)))) = Inr (mean_latency hs)"
proof -
  assume a: "fits hs" "lats hs \<noteq> []"
  have "int (length (lats hs)) < 2 ^ 53" using a(1) counts_bounds(5) [of hs] by (simp add: fits_def)
  then have "wrap64 (1000 * int (length (lats hs))) = 1000 * int (length (lats hs))"
    by (intro wrap64_nonneg) auto
  then show ?thesis
    using a counts_bounds(6) [of hs] by (simp add: fits_def mean_latency_def long_div_nonneg)
qed

lemma new_sample_window:
  assumes "tracks_interval (w_calls w) s" and "fits (w_calls w)" and "minMsgSize s = sz"
    and "elapsedInterval s = w_to w - w_from w" and "w_from w \<le> w_to w"
    and "elapsedTotal s = w_to w - t0" and "t0 \<le> w_to w"
  shows "new_sample s = Inr (window_sample sz t0 w)"
proof -
  let ?hs = "w_calls w"
  have q: "quot (elapsedInterval s) 1000000 = (w_to w - w_from w) div 1000000"
    "quot (elapsedTotal s) 1000000 = (w_to w - t0) div 1000000"
    using assms by (simp_all add: quot_nonneg)
  have t: "sendCountInterval s = sends ?hs" "recvCountInterval s = recvs ?hs"
    "latencyCountInterval s = int (length (lats ?hs))" "cumulativeLatencyInterval s = sum_list (lats ?hs)"
    "minLatency s = least (lats ?hs)" "maxLatency s = greatest (lats ?hs)"
    using assms(1) by (simp_all add: tracks_interval_def)
  show ?thesis
  proof (cases "lats ?hs = []")
    case True
    then show ?thesis
      by (simp add: new_sample_def sample_rates_def window_sample_def t q assms(3) put_def Let_def)
  next
    case False
    have "Min (set (lats ?hs)) \<in> set (lats ?hs)" "Max (set (lats ?hs)) \<in> set (lats ?hs)"
      using False by (simp_all add: Min_in Max_in)
    then have n: "0 \<le> Min (set (lats ?hs))" "0 \<le> Max (set (lats ?hs))"
      by (auto intro: lats_nonneg)
    have lo: "least (lats ?hs) = Min (set (lats ?hs))"
      using False fits_lats [OF assms(2)] by (intro least_Min)
    have hi: "greatest (lats ?hs) = Max (set (lats ?hs))"
      using False lats_nonneg [of _ ?hs] by (intro greatest_Max) (force simp: long_min_def)+
    have m: "quot (minLatency s) 1000 = Min (set (lats ?hs)) div 1000"
      "quot (maxLatency s) 1000 = Max (set (lats ?hs)) div 1000"
      unfolding t lo hi using n by (simp_all add: quot_nonneg del: Min_ge_iff Max_ge_iff)
    have "intervalAverageLatency s = Inr (mean_latency ?hs)"
      using long_mean [OF assms(2) False] by (simp add: intervalAverageLatency_def t)
    then show ?thesis
      using False by (simp add: new_sample_def sample_rates_def window_sample_def t(1,2,3) q m assms(3) put_def Let_def)
  qed
qed

lemma drop_warm_up_fields [simp]:
  "intervalInNanoSeconds (drop_warm_up s) = intervalInNanoSeconds s"
  "minMsgSize (drop_warm_up s) = minMsgSize s"
  "samples (drop_warm_up s) = samples s"
  "elapsedInterval (drop_warm_up s) = elapsedInterval s"
  "elapsedTotal (drop_warm_up s) = elapsedTotal s"
  "tracks_interval hs (drop_warm_up s) = tracks_interval hs s"
  by (simp_all add: drop_warm_up_def tracks_interval_def)

lemma reset_fields [simp]:
  "intervalInNanoSeconds (reset t s) = intervalInNanoSeconds s"
  "minMsgSize (reset t s) = minMsgSize s"
  "lastStatsTime (reset t s) = t"
  "samples (reset t s) = samples s"
  "elapsedTotal (reset t s) = elapsedTotal s"
  "elapsedTotalToIgnore (reset t s) = elapsedTotalToIgnore s"
  "tracks_totals hs (reset t s) = tracks_totals hs s"
  "tracks_interval [] (reset t s)"
  by (simp_all add: reset_def resetLastCounts_def tracks_totals_def tracks_interval_def least_def greatest_def)

lemma measured_close:
  fixes r :: run and w :: window and now :: int
  defines "r' \<equiv> \<lparr>r_closed = r_closed r @ [w], r_opened = now, r_pending = []\<rparr>"
  shows "measured_from t0 r' = (if length (r_closed r) = IGNORE_FIRST then w_to w else measured_from t0 r)"
    and "measured_calls r' = (if length (r_closed r) = IGNORE_FIRST then []
           else concat (map w_calls (measured_windows r)) @ w_calls w)"
  by (auto simp: r'_def measured_from_def measured_calls_def measured_windows_def warm_up_def nth_append
      IGNORE_FIRST_def)

lemma measured_from_pending [simp]: "measured_from t0 (r\<lparr>r_pending := hs\<rparr>) = measured_from t0 r"
  by (simp add: measured_from_def)

lemma measured_calls_pending:
  "measured_calls (r\<lparr>r_pending := r_pending r @ [h]\<rparr>) = measured_calls r @ [h]"
  by (simp add: measured_calls_def measured_windows_def)

lemma tracks_totals_drop:
  "tracks_totals hs s \<Longrightarrow>
   tracks_totals (if length (samples s) = IGNORE_FIRST then [] else hs) (drop_warm_up s)"
  by (simp add: tracks_totals_def drop_warm_up_def)

lemma report_tracks:
  fixes r :: run and h :: handler and now :: int
  defines "r1 \<equiv> r\<lparr>r_pending := r_pending r @ [h]\<rparr>"
  assumes s: "tracks I t0 sz r1 s" and h: "reports h" and f: "fits (r_pending r @ [h])"
    and t: "t0 \<le> r_opened r" "r_opened r \<le> now" "now - t0 < 2 ^ 63"
  shows "\<exists>s'. report now s = Inr s' \<and> tracks I t0 sz (step_run I (h, now) r) s' \<and>
    (tracks_totals (measured_calls r1) s \<longrightarrow> tracks_totals (measured_calls (step_run I (h, now) r)) s')"
proof -
  have e: "wrap64 (now - lastStatsTime s) = now - r_opened r"
    using s t by (simp add: tracks_def r1_def)
  show ?thesis
  proof (cases "I \<le> now - r_opened r")
    case False
    have "intervalInNanoSeconds s = I" using s by (simp add: tracks_def)
    with False have rep: "report now s = Inr (s\<lparr>elapsedInterval := now - r_opened r\<rparr>)"
      by (simp add: report_def Let_def e)
    have step: "step_run I (h, now) r = r1" using False by (simp add: step_run_def r1_def)
    show ?thesis
      unfolding rep step using s by (auto simp: tracks_def tracks_interval_def tracks_totals_def)
  next
    case True
    let ?w = "\<lparr>w_from = r_opened r, w_to = now, w_calls = r_pending r @ [h]\<rparr>"
    let ?s2 = "s\<lparr>elapsedInterval := now - r_opened r, elapsedTotal := now - t0\<rparr>"
    have total: "wrap64 (elapsedTotal s + (now - r_opened r)) = now - t0"
      using s t by (simp add: tracks_def r1_def)
    have ti: "tracks_interval (r_pending r @ [h]) (drop_warm_up ?s2)"
      using s by (simp add: tracks_def r1_def) (simp add: tracks_interval_def)
    have new: "new_sample (drop_warm_up ?s2) = Inr (window_sample sz t0 ?w)"
      using s f t ti by (intro new_sample_window) (simp_all add: tracks_def r1_def)
    define s' where "s' = reset now (drop_warm_up ?s2\<lparr>samples := samples s @ [window_sample sz t0 ?w]\<rparr>)"
    have rep: "report now s = Inr s'"
      using True s
      by (simp add: report_def Let_def e total report_sample_def new s'_def) (simp add: tracks_def r1_def)
    have step: "step_run I (h, now) r = \<lparr>r_closed = r_closed r @ [?w], r_opened = w_to ?w, r_pending = []\<rparr>"
      using True h by (simp add: step_run_def)
    have len: "length (samples s) = length (r_closed r)" using s by (simp add: tracks_def r1_def)
    have "tracks I t0 sz (step_run I (h, now) r) s'"
      using s unfolding tracks_def step
      by (simp add: s'_def r1_def measured_close drop_warm_up_def len)
    moreover have "tracks_totals (measured_calls (step_run I (h, now) r)) s'"
      if "tracks_totals (measured_calls r1) s"
    proof -
      have "measured_calls (step_run I (h, now) r) = (if length (samples ?s2) = IGNORE_FIRST then [] else measured_calls r1)"
        unfolding step measured_close r1_def measured_calls_pending by (simp add: len measured_calls_def)
      moreover have "tracks_totals (measured_calls r1) ?s2" using that by (simp add: tracks_totals_def)
      ultimately have "tracks_totals (measured_calls (step_run I (h, now) r)) (drop_warm_up ?s2)"
        using tracks_totals_drop [of "measured_calls r1" ?s2] by simp
      then show ?thesis by (simp add: s'_def) (simp add: tracks_totals_def)
    qed
    ultimately show ?thesis using rep by blast
  qed
qed

lemma tracks_pending:
  "tracks I t0 sz r s \<Longrightarrow> tracks_interval (r_pending r @ [h]) (count_call h s) \<Longrightarrow>
   tracks I t0 sz (r\<lparr>r_pending := r_pending r @ [h]\<rparr>) (count_call h s)"
  by (cases h) (auto simp: tracks_def count_latency_def measured_from_def)

lemma handle_call_quiet:
  assumes "\<not> reports h" and "tracks I t0 sz r s"
  shows "\<exists>s'. handle_call h now s = Inr s' \<and> tracks I t0 sz (step_run I (h, now) r) s' \<and>
    (h \<noteq> Reset_Globals \<and> tracks_totals hs s \<longrightarrow> tracks_totals (hs @ [h]) s')"
proof -
  have h: "h = Maybe_Reset_Gauges \<or> h = Reset_Globals" using assms(1) by (auto simp: reports_def)
  then have "step_run I (h, now) r = r\<lparr>r_pending := r_pending r @ [h]\<rparr>" by (auto simp: step_run_def reports_def)
  then show ?thesis using h assms(2)
    by (auto simp: tracks_def tracks_interval_def tracks_totals_def maybeResetGauges_def resetGlobals_def
        resetLastCounts_def counts_one is_recv_def measured_from_def)
qed

text \<open>The totals count every call but those of the warm-up, while nothing else resets them.\<close>

lemma measured_calls_part: "\<exists>hs. concat (map w_calls (r_closed r)) @ r_pending r = hs @ measured_calls r"
proof (cases "warm_up \<le> length (r_closed r)")
  case True
  let ?ws = "r_closed r"
  have "concat (map w_calls (take warm_up ?ws @ drop warm_up ?ws)) @ r_pending r =
      concat (map w_calls (take warm_up ?ws)) @ measured_calls r"
    using True unfolding map_append concat_append by (simp add: measured_calls_def measured_windows_def)
  then show ?thesis by auto
qed (simp add: measured_calls_def measured_windows_def)

lemma run_fits:
  assumes "small_load (es @ [c])"
  shows "fits (r_pending (run_of I t0 es) @ [fst c])" and "fits (measured_calls (run_of I t0 es) @ [fst c])"
proof -
  let ?r = "run_of I t0 es"
  have "fits (map fst (es @ [c]))" using assms by (simp add: small_load_def fits_def del: map_append)
  moreover have "concat (map w_calls (r_closed ?r)) @ r_pending ?r @ [fst c] = map fst (es @ [c])"
    using arg_cong [where f = "\<lambda>hs. hs @ [fst c]", OF run_of_calls [of I t0 es] ] by simp
  ultimately have *: "fits (concat (map w_calls (r_closed ?r)) @ r_pending ?r @ [fst c])" by argo
  then show "fits (r_pending ?r @ [fst c])" using fits_part by blast
  obtain hs where "concat (map w_calls (r_closed ?r)) @ r_pending ?r = hs @ measured_calls ?r"
    using measured_calls_part by blast
  with * have "fits (hs @ (measured_calls ?r @ [fst c]))" by (metis append_assoc)
  then show "fits (measured_calls ?r @ [fst c])" using fits_part by blast
qed

lemma handle_calls_append:
  "handle_calls (es @ fs) s = bindE (handle_calls es s) (handle_calls fs)"
proof (induction es arbitrary: s)
  case (Cons e es)
  then show ?case by (cases e; cases "handle_call (fst e) (snd e) s") auto
qed simp

lemma handle_calls_tracks:
  assumes s0: "tracks I t0 sz (run_of I t0 []) s0" "tracks_totals [] s0"
    and "well_timed t0 es" and "small_load es"
  shows "\<exists>s. handle_calls es s0 = Inr s \<and> tracks I t0 sz (run_of I t0 es) s \<and>
    (Reset_Globals \<notin> fst ` set es \<longrightarrow> tracks_totals (measured_calls (run_of I t0 es)) s)"
  using assms(3,4)
proof (induction es rule: rev_induct)
  case Nil
  then show ?case using s0 by (simp add: measured_calls_def measured_windows_def warm_up_def)
next
  case (snoc c es)
  obtain h now where c: "c = (h, now)" by fastforce
  let ?r = "run_of I t0 es"
  obtain s where s: "handle_calls es s0 = Inr s" "tracks I t0 sz ?r s"
      "Reset_Globals \<notin> fst ` set es \<longrightarrow> tracks_totals (measured_calls ?r) s"
    using snoc small_load_snoc by (auto simp: well_timed_snoc)
  have f: "fits (r_pending ?r @ [h])" "fits (measured_calls ?r @ [h])"
    using run_fits [OF snoc.prems(2)] by (simp_all add: c)
  have "\<exists>s'. handle_call h now s = Inr s' \<and> tracks I t0 sz (step_run I c ?r) s' \<and>
      (Reset_Globals \<notin> fst ` set (es @ [c]) \<longrightarrow> tracks_totals (measured_calls (step_run I c ?r)) s')"
  proof (cases "reports h")
    case True
    have t: "t0 \<le> r_opened ?r" "r_opened ?r \<le> now" "now - t0 < 2 ^ 63"
      using opened_time [of I t0 es] snoc.prems(1) chained_le [OF run_of_chained [of t0 es I] ]
      by (auto simp: well_timed_snoc c)
    let ?s1 = "count_call h s" and ?r1 = "?r\<lparr>r_pending := r_pending ?r @ [h]\<rparr>"
    have "tracks I t0 sz ?r1 ?s1"
      using s(2) f(1) by (intro tracks_pending tracks_interval_count) (auto simp: tracks_def)
    from report_tracks [OF this True f(1) t]
    obtain s' where s': "report now ?s1 = Inr s'" "tracks I t0 sz (step_run I c ?r) s'"
        "tracks_totals (measured_calls ?r1) ?s1 \<longrightarrow> tracks_totals (measured_calls (step_run I c ?r)) s'"
      by (auto simp: c)
    have "tracks_totals (measured_calls ?r1) ?s1" if "tracks_totals (measured_calls ?r) s"
      using tracks_totals_count [OF that f(2)] by (simp add: measured_calls_pending)
    then show ?thesis using s' s(3) handle_call_reports [OF True] by auto
  next
    case False
    then have "step_run I c ?r = ?r\<lparr>r_pending := r_pending ?r @ [h]\<rparr>" by (simp add: step_run_def c)
    then show ?thesis
      using handle_call_quiet [OF False s(2), of now "measured_calls ?r"] s(3)
      by (auto simp: c measured_calls_pending)
  qed
  then show ?case using s(1) by (auto simp: handle_calls_append c run_of_snoc)
qed

lemma new_stats_tracks:
  assumes "new_stats ms t0 = Inr s0"
  shows "tracks (ms * 1000000) t0 sz (run_of (ms * 1000000) t0 []) (setup_stats sz s0)"
    and "tracks_totals [] (setup_stats sz s0)"
  using assms
  by (auto simp: new_stats_def setup_stats_def tracks_def tracks_interval_def tracks_totals_def reset_def
      resetLastCounts_def least_def greatest_def measured_from_def warm_up_def split: if_splits)

lemma run_tracked:
  assumes "new_stats ms t0 = Inr s0" and "well_timed t0 es" and "small_load es"
    and "handle_calls es (setup_stats sz s0) = Inr s"
  shows "tracks (ms * 1000000) t0 sz (run_of (ms * 1000000) t0 es) s"
    and "Reset_Globals \<notin> fst ` set es \<Longrightarrow> tracks_totals (measured_calls (run_of (ms * 1000000) t0 es)) s"
  using handle_calls_tracks [OF new_stats_tracks [OF assms(1)] assms(2,3), of sz] assms(4) by auto

section \<open>Samples\<close>

text \<open>A run of two windows of a second, used by the witnesses.\<close>

definition demo_calls :: "call list" where
  "demo_calls = [(Send, 10), (Recv 5000, 20), (Send, 1000000000), (Recv 7000, 1000000100),
                 (Recv 9000, 2000000000), (Send, 2000000001)]"

definition demo_stats :: stats where
  "demo_stats = (case new_stats 1000 0 of Inr s \<Rightarrow> s | Inl e \<Rightarrow> undefined)"

lemma demo_new: "new_stats 1000 0 = Inr demo_stats"
  by (simp add: demo_stats_def new_stats_def long_min_def long_max_def)

lemma demo_calls_ok: "well_timed 0 demo_calls" "small_load demo_calls" "Reset_Globals \<notin> fst ` set demo_calls"
  by (simp_all add: well_timed_def small_load_def demo_calls_def lats_def map_filter_def)

lemma demo_run: "run_of 1000000000 0 demo_calls =
  \<lparr>r_closed = [\<lparr>w_from = 0, w_to = 1000000000, w_calls = [Send, Recv 5000, Send]\<rparr>,
               \<lparr>w_from = 1000000000, w_to = 2000000000, w_calls = [Recv 7000, Recv 9000]\<rparr>],
   r_opened = 2000000000, r_pending = [Send]\<rparr>"
  by (simp add: run_of_def demo_calls_def step_run_def reports_def)

text \<open>
  C5: the counters implement the windows. No call of a run fails, and the samples it leaves are
  those of its windows: messages sent and received over the milliseconds of the window, the
  time since the start of the run, and the mean, least and greatest latency in microseconds
  where a latency was measured.
\<close>

theorem samples_of_run:
  assumes "new_stats ms t0 = Inr s0" and "well_timed t0 es" and "small_load es"
  shows "\<exists>s. handle_calls es (setup_stats sz s0) = Inr s \<and>
    samples s = map (window_sample sz t0) (r_closed (run_of (ms * 1000000) t0 es))"
  using handle_calls_tracks [OF new_stats_tracks [OF assms(1)] assms(2,3), of sz] by (auto simp: tracks_def)

theorem samples_of_run_witness:
  "\<exists>s. handle_calls demo_calls (setup_stats 12 demo_stats) = Inr s \<and>
    map (map fst) (samples s) =
      replicate 2 [''send-msg-rate'', ''send-bytes-rate'', ''recv-msg-rate'', ''recv-bytes-rate'',
        ''elapsed'', ''avg-latency'', ''min-latency'', ''max-latency''] \<and>
    map (\<lambda>m. map_of m ''avg-latency'') (samples s) = [Some (JLong 5), Some (JLong 8)]"
  using samples_of_run [OF demo_new demo_calls_ok(1,2), of 12]
  by (auto simp: demo_run window_sample_def lats_def map_filter_def mean_latency_def numeral_2_eq_2 Let_def)

lemma results_run:
  assumes "new_stats ms t0 = Inr s0" and "well_timed t0 es" and "small_load es"
    and "Reset_Globals \<notin> fst ` set es" and "handle_calls es (setup_stats sz s0) = Inr s"
  shows "simple_results s = Inr (run_results sz t0 (run_of (ms * 1000000) t0 es))"
proof -
  let ?r = "run_of (ms * 1000000) t0 es"
  note tr = run_tracked(1) [OF assms(1,2,3,5)] and tt = run_tracked(2) [OF assms(1,2,3,5,4)]
  have "fits (map fst es)" using assms(3) by (simp add: small_load_def fits_def)
  then have f: "fits (measured_calls ?r)"
    using measured_calls_part [of ?r] run_of_calls [of _ t0 es] fits_part by metis
  have le: "t0 \<le> measured_from t0 ?r" "measured_from t0 ?r \<le> r_opened ?r"
    using chained_le [OF chained_drop [OF run_of_chained [OF assms(2)], of IGNORE_FIRST] ]
      measured_after_start [OF run_of_chained [OF assms(2)] ] chained_le [OF run_of_chained [OF assms(2)] ]
    by (auto simp: measured_from_def warm_up_def Suc_le_eq)
  have "r_opened ?r - t0 < 2 ^ 63"
    using opened_time [of "ms * 1000000" t0 es] assms(2) by (auto simp: well_timed_def)
  then have e: "wrap64 (elapsedTotal s - elapsedTotalToIgnore s) = r_opened ?r - measured_from t0 ?r"
    using tr le by (simp add: tracks_def)
  have rates: "getSendRate s = rate (sends (measured_calls ?r)) (r_opened ?r - measured_from t0 ?r)"
      "getRecvRate s = rate (recvs (measured_calls ?r)) (r_opened ?r - measured_from t0 ?r)"
    unfolding getSendRate_def getRecvRate_def e using tt by (simp_all add: tracks_totals_def)
  have fields: "minMsgSize s = sz" "samples s = map (window_sample sz t0) (r_closed ?r)"
    using tr by (simp_all add: tracks_def)
  have n: "latencyCountTotal s = int (length (lats (measured_calls ?r)))" using tt by (simp add: tracks_totals_def)
  show ?thesis
  proof (cases "lats (measured_calls ?r) = []")
    case True
    then show ?thesis
      by (simp add: simple_results_def result_rates_def run_results_def rates fields n put_def Let_def comp_def)
  next
    case False
    have "overallAverageLatency s = Inr (mean_latency (measured_calls ?r))"
      using tt long_mean [OF f False] by (simp add: overallAverageLatency_def tracks_totals_def)
    then show ?thesis using False
      by (simp add: simple_results_def result_rates_def run_results_def rates fields n put_def Let_def comp_def)
  qed
qed

text \<open>
  C32: the overall results count the calls that follow the first four windows, over the time from
  the end of the fourth window to the end of the last; before that, all calls and the whole
  time. Nothing is added to the totals later than the calls themselves, and the samples are
  all there.
\<close>

theorem results_of_run:
  assumes "new_stats ms t0 = Inr s0" and "well_timed t0 es" and "small_load es"
    and "Reset_Globals \<notin> fst ` set es" and "handle_calls es (setup_stats sz s0) = Inr s"
  shows "simple_results s = Inr (run_results sz t0 (run_of (ms * 1000000) t0 es))"
  using assms by (rule results_run)

theorem results_of_run_witness:
  "\<exists>s m. handle_calls demo_calls (setup_stats 12 demo_stats) = Inr s \<and> simple_results s = Inr m \<and>
    map_of m ''avg-latency'' = Some (JLong 7)"
proof -
  obtain s where s: "handle_calls demo_calls (setup_stats 12 demo_stats) = Inr s"
    using handle_calls_tracks [OF new_stats_tracks [OF demo_new] demo_calls_ok(1,2), of 12] by auto
  from results_of_run [OF demo_new demo_calls_ok this] s show ?thesis
    by (simp add: demo_run run_results_def measured_calls_def measured_windows_def warm_up_def IGNORE_FIRST_def
        lats_def map_filter_def mean_latency_def Let_def)
qed

end
