(* ===== verification/Perf_Rates.thy ===== *)
theory Perf_Rates
  imports Perf_Stats_Spec
begin

text \<open>
  Facts about the numbers of a run: the order of the latencies of a sample, the distance of
  its times, and the size of the overall rates, which are computed from nanoseconds where
  milliseconds are meant.
\<close>

section \<open>Latencies\<close>

lemma window_latencies:
  "map_of (window_sample sz t0 w) ''avg-latency'' =
     (if lats (w_calls w) = [] then None else Some (JLong (mean_latency (w_calls w))))"
  "map_of (window_sample sz t0 w) ''min-latency'' =
     (if lats (w_calls w) = [] then None else Some (JLong (Min (set (lats (w_calls w))) div 1000)))"
  "map_of (window_sample sz t0 w) ''max-latency'' =
     (if lats (w_calls w) = [] then None else Some (JLong (Max (set (lats (w_calls w))) div 1000)))"
  by (simp_all add: window_sample_def Let_def)

lemma window_elapsed: "map_of (window_sample sz t0 w) ''elapsed'' = Some (JLong ((w_to w - t0) div 1000000))"
  by (simp add: window_sample_def Let_def)

lemma window_send_rate: "map_of (window_sample sz t0 w) ''send-msg-rate'' =
    Some (JDouble (rate (sends (w_calls w)) ((w_to w - w_from w) div 1000000)))"
  by (simp add: window_sample_def Let_def)

lemma window_recv_rate: "map_of (window_sample sz t0 w) ''recv-msg-rate'' =
    Some (JDouble (rate (recvs (w_calls w)) ((w_to w - w_from w) div 1000000)))"
  by (simp add: window_sample_def Let_def)

lemma sum_between:
  "ls \<noteq> [] \<Longrightarrow> (\<And>l. l \<in> set ls \<Longrightarrow> a \<le> l \<and> l \<le> b) \<Longrightarrow>
   int (length ls) * a \<le> sum_list ls \<and> sum_list ls \<le> int (length ls) * (b :: int)"
proof (induction ls rule: list_nonempty_induct)
  case (cons l ls)
  then have "int (length ls) * a \<le> sum_list ls \<and> sum_list ls \<le> int (length ls) * b" "a \<le> l \<and> l \<le> b" by auto
  then show ?case by (simp add: algebra_simps)
qed simp

lemma mean_between:
  assumes "lats hs \<noteq> []"
  shows "0 \<le> Min (set (lats hs)) div 1000" and "Min (set (lats hs)) div 1000 \<le> mean_latency hs"
    and "mean_latency hs \<le> Max (set (lats hs)) div 1000"
proof -
  let ?ls = "lats hs" and ?n = "int (length (lats hs))"
  have n: "0 < ?n" using assms by simp
  have b: "?n * Min (set ?ls) \<le> sum_list ?ls" "sum_list ?ls \<le> ?n * Max (set ?ls)"
    using sum_between [OF assms, of "Min (set ?ls)" "Max (set ?ls)"] by auto
  have m: "mean_latency hs = (sum_list ?ls div ?n) div 1000"
    by (simp add: mean_latency_def zdiv_zmult2_eq [of 1000 "sum_list ?ls" ?n, symmetric] mult.commute)
  have "?n * Min (set ?ls) div ?n \<le> sum_list ?ls div ?n" using b(1) n by (intro zdiv_mono1)
  then show "Min (set ?ls) div 1000 \<le> mean_latency hs" using n unfolding m by (intro zdiv_mono1) simp_all
  have "sum_list ?ls div ?n \<le> ?n * Max (set ?ls) div ?n" using b(2) n by (intro zdiv_mono1)
  then show "mean_latency hs \<le> Max (set ?ls) div 1000" using n unfolding m by (intro zdiv_mono1) simp_all
  have "Min (set ?ls) \<in> set ?ls" using assms by (intro Min_in) simp_all
  then have "0 \<le> Min (set ?ls)" by (rule lats_nonneg)
  then show "0 \<le> Min (set ?ls) div 1000" by simp
qed

text \<open>
  A sample that has a mean latency has a least and a greatest one, and they are in this
  order, none of them negative, with the rounding to microseconds each of them underwent.
\<close>

theorem sample_latencies_ordered:
  assumes "new_stats ms t0 = Inr s0" and "well_timed t0 es" and "small_load es"
    and "handle_calls es (setup_stats sz s0) = Inr s"
    and "m \<in> set (samples s)" and "map_of m ''avg-latency'' = Some v"
  shows "\<exists>lo avg hi. map_of m ''min-latency'' = Some (JLong lo) \<and> v = JLong avg \<and>
    map_of m ''max-latency'' = Some (JLong hi) \<and> 0 \<le> lo \<and> lo \<le> avg \<and> avg \<le> hi"
proof -
  obtain w where w: "m = window_sample sz t0 w"
    using run_tracked(1) [OF assms(1-4)] assms(5) by (auto simp: tracks_def)
  then have "lats (w_calls w) \<noteq> []" using assms(6) by (auto simp: window_latencies split: if_splits)
  then show ?thesis using assms(6) mean_between by (auto simp: w window_latencies)
qed

theorem sample_latencies_ordered_witness:
  "\<exists>s m lo hi. handle_calls demo_calls (setup_stats 12 demo_stats) = Inr s \<and> samples s ! 1 = m \<and>
     map_of m ''min-latency'' = Some (JLong lo) \<and> map_of m ''max-latency'' = Some (JLong hi) \<and> lo \<le> 8 \<and> 8 \<le> hi"
proof -
  obtain s where s: "handle_calls demo_calls (setup_stats 12 demo_stats) = Inr s"
      "tracks 1000000000 0 12 (run_of 1000000000 0 demo_calls) s"
    using handle_calls_tracks [OF new_stats_tracks [OF demo_new] demo_calls_ok(1,2), of 12] by auto
  then have m: "samples s ! 1 \<in> set (samples s)" "map_of (samples s ! 1) ''avg-latency'' = Some (JLong 8)"
    by (simp_all add: tracks_def demo_run window_latencies) (simp add: mean_latency_def lats_def map_filter_def)
  from sample_latencies_ordered [OF demo_new demo_calls_ok(1,2) s(1) m] s(1) show ?thesis by auto
qed

section \<open>Times\<close>

lemma run_of_long:
  "w \<in> set (r_closed (run_of I t0 es)) \<Longrightarrow> I \<le> w_to w - w_from w"
  by (induction es rule: rev_induct) (auto simp: run_of_snoc step_run_def split: if_splits)

lemma chained_times:
  assumes "chained t ws u" and "\<forall>w \<in> set ws. I \<le> w_to w - w_from w" and "0 \<le> I" and "i < length ws"
  shows "t + int (Suc i) * I \<le> w_to (ws ! i)"
  using assms
proof (induction ws arbitrary: t i)
  case (Cons w ws)
  show ?case
  proof (cases i)
    case 0
    then show ?thesis using Cons.prems by auto
  next
    case (Suc j)
    then have "w_to w + int (Suc j) * I \<le> w_to (ws ! j)" using Cons by simp
    moreover have "t + I \<le> w_to w" using Cons.prems by auto
    ultimately show ?thesis using Suc by (simp add: algebra_simps)
  qed
qed simp

text \<open>
  The times of the samples are the points of a time chart in order. The \<open>i\<close>-th sample is not
  earlier than \<open>i + 1\<close> intervals after the start, and each is at least one interval later than
  the one before it, also after the rounding to milliseconds.
\<close>

theorem sample_times:
  assumes "new_stats ms t0 = Inr s0" and "well_timed t0 es" and "small_load es" and "0 \<le> ms"
    and "handle_calls es (setup_stats sz s0) = Inr s" and "i < length (samples s)"
  shows "\<exists>e. map_of (samples s ! i) ''elapsed'' = Some (JLong e) \<and> int (Suc i) * ms \<le> e \<and>
    (\<forall>j e'. j < i \<and> map_of (samples s ! j) ''elapsed'' = Some (JLong e') \<longrightarrow> e' + ms \<le> e)"
proof -
  let ?ws = "r_closed (run_of (ms * 1000000) t0 es)" and ?I = "ms * 1000000"
  have sm: "samples s = map (window_sample sz t0) ?ws"
    using run_tracked(1) [OF assms(1-3,5)] by (simp add: tracks_def)
  have ch: "chained t0 ?ws (r_opened (run_of ?I t0 es))" by (rule run_of_chained [OF assms(2)])
  have long: "\<forall>w \<in> set ?ws. ?I \<le> w_to w - w_from w" using run_of_long by blast
  have i: "i < length ?ws" using assms(6) by (simp add: sm)
  have ms: "a + int k * ?I \<le> b \<Longrightarrow> (a - t0) div 1000000 + int k * ms \<le> (b - t0) div 1000000" for a b k
  proof -
    assume "a + int k * ?I \<le> b"
    then have "(a - t0 + int k * ms * 1000000) div 1000000 \<le> (b - t0) div 1000000"
      by (intro zdiv_mono1) (simp_all add: algebra_simps)
    then show "(a - t0) div 1000000 + int k * ms \<le> (b - t0) div 1000000" by simp
  qed
  have "int (Suc i) * ms \<le> (w_to (?ws ! i) - t0) div 1000000"
    using ms [OF chained_times [OF ch long _ i] ] assms(4) by simp
  moreover have "(w_to (?ws ! j) - t0) div 1000000 + ms \<le> (w_to (?ws ! i) - t0) div 1000000" if "j < i" for j
  proof -
    have c: "chained (w_to (?ws ! j)) (drop (Suc j) ?ws) (r_opened (run_of ?I t0 es))"
      using chained_drop [OF ch] i that by simp
    have "w_to (?ws ! j) + int (Suc (i - Suc j)) * ?I \<le> w_to (drop (Suc j) ?ws ! (i - Suc j))"
      using i that assms(4) long by (intro chained_times [OF c]) (auto dest: in_set_dropD)
    then have "w_to (?ws ! j) + int (Suc (i - Suc j)) * ?I \<le> w_to (?ws ! i)" using that i by simp
    moreover have "1 * ?I \<le> int (Suc (i - Suc j)) * ?I" using assms(4) by (intro mult_right_mono) simp_all
    ultimately have "w_to (?ws ! j) + int 1 * ?I \<le> w_to (?ws ! i)" by linarith
    from ms [OF this] show ?thesis by simp
  qed
  ultimately show ?thesis using i by (auto simp: sm window_elapsed)
qed

theorem sample_times_witness:
  "\<exists>s e. handle_calls demo_calls (setup_stats 12 demo_stats) = Inr s \<and>
     map_of (samples s ! 1) ''elapsed'' = Some (JLong e) \<and> 2000 \<le> e"
proof -
  obtain s where s: "handle_calls demo_calls (setup_stats 12 demo_stats) = Inr s"
      "tracks 1000000000 0 12 (run_of 1000000000 0 demo_calls) s"
    using handle_calls_tracks [OF new_stats_tracks [OF demo_new] demo_calls_ok(1,2), of 12] by auto
  then have "1 < length (samples s)" by (simp add: tracks_def demo_run)
  from sample_times [OF demo_new demo_calls_ok(1,2) _ s(1) this] s(1) show ?thesis by auto
qed

section \<open>The unit of the overall rates\<close>

text \<open>Scaling by a power of two is exact in the range of normal numbers.\<close>

lemma flogb_scale: "0 < q \<Longrightarrow> flogb 2 (bpow 2 k * q) = k + flogb 2 q"
  using flogb_bounds [of 2 q]
  by (intro flogb_unique) (simp_all add: bpow_add algebra_simps)

lemma bpow2_nz [simp]: "bpow 2 k \<noteq> 0"
  by (metis bpow_pos less_irrefl zero_less_numeral)

lemma rnd_mag_scale:
  assumes "0 < q" and "0 \<le> k" and "bpow 2 (- 1022) \<le> q"
  shows "rnd_mag (bpow 2 k * q) = bpow 2 k * rnd_mag q"
proof -
  have "- 1022 \<le> flogb 2 q"
  proof -
    have "flogb 2 (bpow 2 (- 1022)) = - 1022" by (intro flogb_unique) (simp_all add: bpow_less_iff)
    then show ?thesis using flogb_mono [of 2 "bpow 2 (- 1022)" q] assms by simp
  qed
  then have l: "lsb (bpow 2 k * q) = k + lsb q" using assms by (simp add: lsb_def flogb_scale)
  have "bpow 2 k * q / bpow 2 (k + lsb q) = q / bpow 2 (lsb q)" by (simp add: bpow_add)
  then show ?thesis by (simp add: rnd_mag_def l bpow_add)
qed

text \<open>A rate of whole counts: both roundings are monotone.\<close>

definition rate_of :: "rat \<Rightarrow> rat" where
  "rate_of q = (if q = 0 then 0 else rnd_mag (1000 * rnd_mag q))"

lemma rnd_1000: "of_long 1000 = Fin 1000"
  using rnd_int [of 1000] by (simp add: of_long_def)

lemma rate_Fin:
  assumes "0 \<le> n" "n < 2 ^ 53" "0 < t" "t < 2 ^ 53"
  shows "rate n t = Fin (rate_of (of_int n / of_int t))"
proof -
  have c: "of_long n = Fin (of_int n)" "of_long t = Fin (of_int t)"
    using assms by (simp_all add: of_long_def rnd_int)
  show ?thesis
  proof (cases "n = 0")
    case True
    have "of_long 0 = Fin 0" by (simp add: of_long_def)
    then show ?thesis using True assms by (simp add: rate_def c(2) rnd_1000 rate_of_def)
  next
    case False
    let ?q = "of_int n / of_int t :: rat"
    have q0: "0 < ?q" using False assms by simp
    have "1 \<le> t" using assms by simp
    then have "?q \<le> of_int n" using assms by (simp add: divide_le_eq mult_le_cancel_left1)
    also have "\<dots> \<le> of_int (2 ^ 53)" using assms by (simp only: of_int_le_iff)
    finally have q: "?q \<le> bpow 2 53" using bpow_nat [of 2 53] by simp
    have e: "rnd_mag (bpow 2 i) = bpow 2 i" if "0 \<le> i" for i
      using rnd_mag_exact [of 1 i] that by simp
    have m: "rnd_mag ?q \<le> bpow 2 53" using rnd_mag_mono [OF q0 q] e by simp
    have p: "0 < rnd_mag ?q"
    proof -
      have "bpow 2 (- 53) \<le> ?q"
      proof -
        have "t \<le> n * 2 ^ 53" using assms False by simp
        then have "(of_int t :: rat) \<le> of_int (n * 2 ^ 53)" by (simp only: of_int_le_iff)
        moreover have "(0 :: rat) < of_int t" using assms by simp
        moreover have "bpow 2 (- 53) = 1 / of_int (2 ^ 53)" by (simp add: bpow_def)
        ultimately show ?thesis by (simp only:) (simp add: field_simps)
      qed
      moreover have "rnd_mag (bpow 2 (- 53)) = bpow 2 (- 53)" using rnd_mag_exact [of 1 "- 53"] by simp
      moreover have "0 < bpow 2 (- 53)" by simp
      ultimately show ?thesis using rnd_mag_mono [of "bpow 2 (- 53)" ?q] by linarith
    qed
    have "1000 * rnd_mag ?q \<le> bpow 2 10 * bpow 2 53"
      using m p bpow_nat [of 2 10] by (intro mult_mono) simp_all
    then have "1000 * rnd_mag ?q \<le> bpow 2 63" using bpow_add [of 2 10 53] by simp
    then have "rnd_mag (1000 * rnd_mag ?q) \<le> bpow 2 63"
      using rnd_mag_mono [of "1000 * rnd_mag ?q" "bpow 2 63"] p e [of 63] by simp
    moreover have "bpow 2 63 < bpow 2 1024" by (simp add: bpow_less_iff)
    ultimately have r: "rnd (1000 * rnd_mag ?q) = Fin (rnd_mag (1000 * rnd_mag ?q))"
      using p by (simp add: rnd_pos)
    have "bpow 2 53 < bpow 2 1024" by (simp add: bpow_less_iff)
    then have "rnd ?q = Fin (rnd_mag ?q)" using q0 m by (simp add: rnd_pos)
    then show ?thesis using r False assms by (simp add: rate_def c rnd_1000 rate_of_def)
  qed
qed

lemma rate_of_mono: "0 < q \<Longrightarrow> q \<le> p \<Longrightarrow> bpow 2 (- 100) \<le> q \<Longrightarrow> rate_of q \<le> rate_of p"
proof -
  assume q: "0 < q" "q \<le> p" "bpow 2 (- 100) \<le> q"
  have e: "rnd_mag (bpow 2 (- 100)) = bpow 2 (- 100)" using rnd_mag_exact [of 1 "- 100"] by simp
  then have "bpow 2 (- 100) \<le> rnd_mag q" using rnd_mag_mono [OF _ q(3)] by simp
  then have "0 < rnd_mag q" using bpow_pos [of 2 "- 100"] by linarith
  moreover have "rnd_mag q \<le> rnd_mag p" using q by (intro rnd_mag_mono)
  ultimately show ?thesis using q rnd_mag_mono [of "1000 * rnd_mag q" "1000 * rnd_mag p"] by (simp add: rate_of_def)
qed

lemma rate_of_exact:
  assumes "0 < q" "bpow 2 (- 100) \<le> q" "0 \<le> k"
  shows "rate_of (bpow 2 k * q) = bpow 2 k * rate_of q"
proof -
  have b: "bpow 2 (- 1022) \<le> bpow 2 (- 100)" by (intro bpow_mono) simp_all
  have e: "rnd_mag (bpow 2 (- 100)) = bpow 2 (- 100)" using rnd_mag_exact [of 1 "- 100"] by simp
  have r: "bpow 2 (- 100) \<le> rnd_mag q" using rnd_mag_mono [OF _ assms(2)] e by simp
  then have r0: "0 < rnd_mag q" using bpow_pos [of 2 "- 100"] by linarith
  have "rnd_mag (bpow 2 k * (1000 * rnd_mag q)) = bpow 2 k * rnd_mag (1000 * rnd_mag q)"
  proof (rule rnd_mag_scale)
    show "bpow 2 (- 1022) \<le> 1000 * rnd_mag q" using r r0 b by linarith
  qed (use r0 assms in simp_all)
  moreover have "rnd_mag (bpow 2 k * q) = bpow 2 k * rnd_mag q"
    using assms b by (intro rnd_mag_scale) simp_all
  ultimately show ?thesis using assms(1) by (simp add: rate_of_def algebra_simps)
qed

lemma rate_of_scale:
  assumes "0 < q" "bpow 2 (- 100) \<le> q" "0 \<le> k" "bpow 2 k * q \<le> p"
  shows "bpow 2 k * rate_of q \<le> rate_of p"
proof -
  have "bpow 2 0 * q \<le> bpow 2 k * q" using assms by (intro mult_right_mono bpow_mono) simp_all
  then have "bpow 2 (- 100) \<le> bpow 2 k * q" using assms(2) by simp
  then show ?thesis using rate_of_mono [OF _ assms(4)] rate_of_exact [OF assms(1-3)] assms(1) by simp
qed

lemma rate_of_scale_le:
  assumes "0 < q" "bpow 2 (- 100) \<le> q" "0 \<le> k" "0 < p" "bpow 2 (- 100) \<le> p" "p \<le> bpow 2 k * q"
  shows "rate_of p \<le> bpow 2 k * rate_of q"
  using rate_of_mono [OF assms(4,6,5)] rate_of_exact [OF assms(1-3)] by simp

lemma rate_of_nonneg: "0 \<le> q \<Longrightarrow> 0 \<le> rate_of q"
  using rnd_mag_binade(3) [of q] rnd_mag_binade(3) [of "1000 * rnd_mag q"]
  by (cases "rnd_mag q = 0") (auto simp: rate_of_def rnd_mag_def [of 0] rhe_of_int [of 0, simplified])

lemma mediant:
  assumes "ws \<noteq> []"
  shows "\<exists>w \<in> set ws. sum_list (map f ws) * t w \<le> (f w :: int) * sum_list (map t ws)"
proof (rule ccontr)
  assume "\<not> ?thesis"
  then have "sum_list (map (\<lambda>w. f w * sum_list (map t ws)) ws) < sum_list (map (\<lambda>w. sum_list (map f ws) * t w) ws)"
    by (intro sum_list_strict_mono [OF assms]) force
  then show False by (simp add: sum_list_mult_const sum_list_const_mult)
qed

text \<open>
  The heart of it: \<open>n\<close> calls over \<open>d\<close> nanoseconds against the same rate, or another one, over
  milliseconds.
\<close>

lemma rate_small:
  assumes "0 \<le> n" "n < 2 ^ 53" "0 < d" "d < 2 ^ 53" "0 \<le> c" "c < 2 ^ 53" "0 < m" "m < 2 ^ 53" "0 \<le> k"
    and cross: "2 ^ nat k * (n * m) \<le> c * d"
  shows "\<exists>a b. rate n d = Fin a \<and> rate c m = Fin b \<and> 0 \<le> a \<and> bpow 2 k * a \<le> b"
proof -
  let ?q = "of_int n / of_int d :: rat" and ?p = "of_int c / of_int m :: rat"
  have a: "rate n d = Fin (rate_of ?q)" using assms(1-4) by (rule rate_Fin)
  have b: "rate c m = Fin (rate_of ?p)" using assms(5-8) by (rule rate_Fin)
  have "bpow 2 k * rate_of ?q \<le> rate_of ?p"
  proof (cases "n = 0")
    case True
    have "0 \<le> rate_of ?p" using assms by (intro rate_of_nonneg) simp
    then show ?thesis using True by (simp add: rate_of_def)
  next
    case False
    have q: "0 < ?q" using False assms by simp
    have "d * 1 \<le> 2 ^ 100 * n" using assms False by simp
    then have "(of_int d :: rat) \<le> of_int (2 ^ 100 * n)" by (simp only: of_int_le_iff mult_1_right)
    then have low: "bpow 2 (- 100) \<le> ?q" using assms by (simp add: bpow_def field_simps)
    have "(of_int (2 ^ nat k * (n * m)) :: rat) \<le> of_int (c * d)" using cross by (simp only: of_int_le_iff)
    then have "bpow 2 k * ?q \<le> ?p" using assms bpow_nat [of 2 "nat k"] by (simp add: field_simps)
    from rate_of_scale [OF q low _ this] show ?thesis using assms by simp
  qed
  moreover have "0 \<le> rate_of ?q" using assms by (intro rate_of_nonneg) simp
  ultimately show ?thesis using a b by auto
qed

lemma rate_not_smaller:
  assumes "0 \<le> n" "n < 2 ^ 53" "0 < d" "d < 2 ^ 53" "0 < m" "m < 2 ^ 53" "0 \<le> k" "d \<le> 2 ^ nat k * m"
  shows "\<exists>a b. rate n d = Fin a \<and> rate n m = Fin b \<and> b \<le> bpow 2 k * a"
proof -
  let ?q = "of_int n / of_int d :: rat" and ?p = "of_int n / of_int m :: rat"
  have ab: "rate n d = Fin (rate_of ?q)" "rate n m = Fin (rate_of ?p)"
    using assms by (simp_all add: rate_Fin)
  have "rate_of ?p \<le> bpow 2 k * rate_of ?q"
  proof (cases "n = 0")
    case False
    have low: "bpow 2 (- 100) \<le> of_int n / (of_int e :: rat)" if "0 < e" "e < 2 ^ 53" for e
    proof -
      have "e * 1 \<le> 2 ^ 100 * n" using assms False that by simp
      then have "(of_int e :: rat) \<le> of_int (2 ^ 100 * n)" by (simp only: of_int_le_iff mult_1_right)
      then show ?thesis using that by (simp add: bpow_def field_simps)
    qed
    have "n * d \<le> n * (2 ^ nat k * m)" using assms by (intro mult_left_mono) simp_all
    then have "(of_int (n * d) :: rat) \<le> of_int (2 ^ nat k * (n * m))" by (simp only: of_int_le_iff) (simp add: ac_simps)
    then have "?p \<le> bpow 2 k * ?q" using assms bpow_nat [of 2 "nat k"] by (simp add: field_simps)
    then show ?thesis using assms False low by (intro rate_of_scale_le) simp_all
  qed (simp add: rate_of_def)
  then show ?thesis using ab by simp
qed

lemma rate_over_milliseconds:
  assumes "0 \<le> n" "n < 2 ^ 53" "1000000 \<le> d" "d < 2 ^ 53"
  shows "\<exists>a b. rate n d = Fin a \<and> rate n (d div 1000000) = Fin b \<and> 0 \<le> a \<and> 2 ^ 19 * a \<le> b \<and> b \<le> 2 ^ 21 * a"
proof -
  define m where "m = d div 1000000"
  have m: "1 \<le> m" "m * 1000000 \<le> d" "d < (m + 1) * 1000000" "m < 2 ^ 53"
  proof -
    show "1 \<le> m" using zdiv_mono1 [OF assms(3), of 1000000] by (simp add: m_def)
    show "m * 1000000 \<le> d" "d < (m + 1) * 1000000" by (simp_all add: m_def)
    then show "m < 2 ^ 53" using assms \<open>1 \<le> m\<close> by linarith
  qed
  have "n * (m * 1000000) \<le> n * d" using m assms by (intro mult_left_mono)
  moreover have "2 ^ 19 * (n * m) \<le> n * (m * 1000000)" using assms m by (simp add: algebra_simps)
  ultimately have "2 ^ 19 * (n * m) \<le> n * d" by linarith
  then have "2 ^ nat 19 * (n * m) \<le> n * d" by simp
  then obtain a b where ab: "rate n d = Fin a" "rate n m = Fin b" "0 \<le> a" "bpow 2 19 * a \<le> b"
    using rate_small [of n d n m 19] assms m by auto
  have "d \<le> 2 ^ nat 21 * m" using m by simp
  then have "b \<le> bpow 2 21 * a" using rate_not_smaller [of n d m 21] ab assms m by auto
  then show ?thesis using ab bpow_nat [of 2 19] bpow_nat [of 2 21] by (simp add: m_def)
qed

text \<open>
  For a way \<open>f\<close> of counting calls, \<open>n\<close> of them, of which half at least are in the windows.
\<close>

lemma window_above:
  assumes ch: "chained t ws u" and ws: "ws \<noteq> []" and long: "\<forall>w \<in> set ws. 1000000 \<le> w_to w - w_from w"
    and short: "u - t < 2 ^ 53" and f: "\<And>w. w \<in> set ws \<Longrightarrow> 0 \<le> f w"
    and n: "sum_list (map f ws) \<le> n" "n \<le> 2 * sum_list (map f ws)" "n < 2 ^ 53"
  shows "\<exists>w \<in> set ws. \<exists>a b. rate n (u - t) = Fin a \<and>
    rate (f w) ((w_to w - w_from w) div 1000000) = Fin b \<and> 2 ^ 18 * a \<le> b"
proof -
  define T where "T w = w_to w - w_from w" for w :: window
  define S where "S = sum_list (map f ws)"
  have u: "sum_list (map T ws) = u - t" using chained_sum [OF ch] by (simp add: T_def [abs_def])
  obtain w where w: "w \<in> set ws" "S * T w \<le> f w * (u - t)"
    using mediant [OF ws, of f T] by (auto simp: S_def u)
  have Tw: "1000000 \<le> T w" "T w \<le> u - t"
    using long w(1) member_le_sum_list [of "T w" "map T ws"] u by (fastforce simp: T_def)+
  have S0: "0 \<le> S" unfolding S_def using f by (intro sum_list_nonneg) auto
  have fw: "0 \<le> f w" "f w \<le> S"
    using f w(1) member_le_sum_list [of "f w" "map f ws"] S0 by (auto simp: S_def)
  define m where "m = T w div 1000000"
  have m: "1 \<le> m" "m * 1000000 \<le> T w" "m < 2 ^ 53"
  proof -
    show "1 \<le> m" using zdiv_mono1 [OF Tw(1), of 1000000] by (simp add: m_def)
    show "m * 1000000 \<le> T w" by (simp add: m_def)
    then show "m < 2 ^ 53" using Tw short \<open>1 \<le> m\<close> by linarith
  qed
  have "S * (m * 1000000) \<le> S * T w" using m S0 by (intro mult_left_mono)
  moreover have "n * m \<le> (2 * S) * m" using n m by (intro mult_right_mono) (simp_all add: S_def)
  then have "2 ^ 18 * (n * m) \<le> 2 ^ 19 * (S * m)" by (simp add: ac_simps)
  moreover have "2 ^ 19 * (S * m) \<le> S * (m * 1000000)" using S0 m by (simp add: algebra_simps)
  ultimately have "2 ^ 18 * (n * m) \<le> f w * (u - t)" using w(2) by linarith
  then have "2 ^ nat 18 * (n * m) \<le> f w * (u - t)" by simp
  moreover have "0 \<le> n" "f w < 2 ^ 53" "0 < u - t" using n fw S0 Tw by (simp_all add: S_def)
  ultimately show ?thesis
    using rate_small [of n "u - t" "f w" m 18] n(3) short fw m w(1) bpow_nat [of 2 18]
    by (fastforce simp: m_def T_def)
qed

lemma counts_concat:
  "sends (concat hss) = sum_list (map sends hss)"
  "recvs (concat hss) = sum_list (map recvs hss)"
  by (induction hss) simp_all

text \<open>
  The nanoseconds the overall rates are taken over, and the rates of the same counts over the
  milliseconds of the same time, which is how a sample has its rates.
\<close>

definition measured_time :: "stats \<Rightarrow> int" where
  "measured_time s = wrap64 (elapsedTotal s - elapsedTotalToIgnore s)"

definition send_rate_in_ms :: "stats \<Rightarrow> dbl" where
  "send_rate_in_ms s = rate (sendCountTotal s) (measured_time s div 1000000)"

definition recv_rate_in_ms :: "stats \<Rightarrow> dbl" where
  "recv_rate_in_ms s = rate (recvCountTotal s) (measured_time s div 1000000)"

text \<open>The measured part of a run of at least five samples.\<close>

lemma measured_run:
  fixes ms t0 es
  defines "r \<equiv> run_of (ms * 1000000) t0 es"
  defines "ws \<equiv> drop warm_up (r_closed r)" and "t \<equiv> w_to (r_closed r ! IGNORE_FIRST)"
  assumes "new_stats ms t0 = Inr s0" and "well_timed t0 es" and "small_load es"
    and "Reset_Globals \<notin> fst ` set es" and "handle_calls es (setup_stats sz s0) = Inr s"
    and "1 \<le> ms" and "\<forall>c \<in> set es. snd c - t0 < 2 ^ 53" and "5 \<le> length (samples s)"
  shows "ws \<noteq> []" and "chained t ws (r_opened r)" and "\<forall>w \<in> set ws. 1000000 \<le> w_to w - w_from w"
    and "measured_time s = r_opened r - t" and "1000000 \<le> r_opened r - t" and "r_opened r - t < 2 ^ 53"
    and "sum_list (map (\<lambda>w. sends (w_calls w)) ws) + sendCountInterval s = sendCountTotal s"
    and "sum_list (map (\<lambda>w. recvs (w_calls w)) ws) + recvCountInterval s = recvCountTotal s"
    and "0 \<le> sendCountInterval s" and "0 \<le> recvCountInterval s"
    and "sendCountTotal s < 2 ^ 53" and "recvCountTotal s < 2 ^ 53"
    and "0 \<le> sendCountTotal s" and "0 \<le> recvCountTotal s"
    and "w \<in> set ws \<Longrightarrow> window_sample sz t0 w \<in> set (samples s)"
proof -
  note tr = run_tracked(1) [OF assms(4-6,8), folded r_def] and tt = run_tracked(2) [OF assms(4-6,8,7), folded r_def]
  have sm: "samples s = map (window_sample sz t0) (r_closed r)" using tr by (simp add: tracks_def)
  have len: "warm_up < length (r_closed r)" using assms(11) by (simp add: sm warm_up_def IGNORE_FIRST_def)
  have ch0: "chained t0 (r_closed r) (r_opened r)" unfolding r_def by (rule run_of_chained [OF assms(5)])
  show ch: "chained t ws (r_opened r)" using chained_drop [OF ch0] len by (simp add: warm_up_def ws_def t_def)
  show ne: "ws \<noteq> []" using len by (simp add: ws_def)
  show long: "\<forall>w \<in> set ws. 1000000 \<le> w_to w - w_from w"
  proof
    fix w assume "w \<in> set ws"
    then have "ms * 1000000 \<le> w_to w - w_from w" using run_of_long in_set_dropD by (fastforce simp: ws_def r_def)
    then show "1000000 \<le> w_to w - w_from w" using assms(9) by linarith
  qed
  have le: "t0 \<le> t" "t \<le> r_opened r"
    using chained_le [OF ch] measured_after_start [OF ch0, of IGNORE_FIRST] len by (simp_all add: warm_up_def t_def)
  show short: "r_opened r - t < 2 ^ 53"
    using opened_time [of "ms * 1000000" t0 es] assms(10) le by (force simp: r_def)
  then show "measured_time s = r_opened r - t"
    using tr le len by (simp add: tracks_def measured_from_def measured_time_def t_def)
  have u: "sum_list (map (\<lambda>w. w_to w - w_from w) ws) = r_opened r - t" using chained_sum [OF ch] by simp
  obtain w0 where w0: "w0 \<in> set ws" using ne by (cases ws) auto
  then have "w_to w0 - w_from w0 \<le> sum_list (map (\<lambda>w. w_to w - w_from w) ws)"
    using long by (intro member_le_sum_list) force+
  then show "1000000 \<le> r_opened r - t" using long w0 u by fastforce
  have pend: "sends (r_pending r) = sendCountInterval s" "recvs (r_pending r) = recvCountInterval s"
    using tr by (simp_all add: tracks_def tracks_interval_def)
  have mc: "measured_calls r = concat (map w_calls ws) @ r_pending r"
    using len by (simp add: measured_calls_def measured_windows_def ws_def)
  show tot: "sum_list (map (\<lambda>w. sends (w_calls w)) ws) + sendCountInterval s = sendCountTotal s"
      "sum_list (map (\<lambda>w. recvs (w_calls w)) ws) + recvCountInterval s = recvCountTotal s"
    using tt pend unfolding mc by (simp_all add: tracks_totals_def counts_concat comp_def)
  show "0 \<le> sendCountInterval s" "0 \<le> recvCountInterval s" using counts_bounds(1,3) pend by metis+
  have "fits (map fst es)" using assms(6) by (simp add: small_load_def fits_def)
  then have "fits (measured_calls r)"
    using measured_calls_part [of r] run_of_calls [of _ t0 es] fits_part r_def by metis
  then have n: "int (length (measured_calls r)) < 2 ^ 53" by (simp add: fits_def)
  show "sendCountTotal s < 2 ^ 53" "recvCountTotal s < 2 ^ 53" "0 \<le> sendCountTotal s" "0 \<le> recvCountTotal s"
    using n counts_bounds [of "measured_calls r"] tt by (simp_all add: tracks_totals_def)
  show "w \<in> set ws \<Longrightarrow> window_sample sz t0 w \<in> set (samples s)"
    using in_set_dropD [of w] by (auto simp: sm ws_def)
qed

lemma overall_rates_small:
  assumes "new_stats ms t0 = Inr s0" and "well_timed t0 es" and "small_load es"
    and "Reset_Globals \<notin> fst ` set es" and "handle_calls es (setup_stats sz s0) = Inr s"
    and "1 \<le> ms" and "\<forall>c \<in> set es. snd c - t0 < 2 ^ 53" and "5 \<le> length (samples s)"
  shows "\<exists>a b. getSendRate s = Fin a \<and> send_rate_in_ms s = Fin b \<and> 0 \<le> a \<and> 2 ^ 19 * a \<le> b \<and> b \<le> 2 ^ 21 * a"
    and "\<exists>a b. getRecvRate s = Fin a \<and> recv_rate_in_ms s = Fin b \<and> 0 \<le> a \<and> 2 ^ 19 * a \<le> b \<and> b \<le> 2 ^ 21 * a"
  using rate_over_milliseconds [of "sendCountTotal s" "measured_time s"]
    rate_over_milliseconds [of "recvCountTotal s" "measured_time s"] measured_run [OF assms]
  by (simp_all add: getSendRate_def getRecvRate_def measured_time_def send_rate_in_ms_def recv_rate_in_ms_def)

lemma sampled_rates_above:
  assumes "new_stats ms t0 = Inr s0" and "well_timed t0 es" and "small_load es"
    and "Reset_Globals \<notin> fst ` set es" and "handle_calls es (setup_stats sz s0) = Inr s"
    and "1 \<le> ms" and "\<forall>c \<in> set es. snd c - t0 < 2 ^ 53" and "5 \<le> length (samples s)"
  shows "2 * sendCountInterval s \<le> sendCountTotal s \<Longrightarrow> \<exists>m \<in> set (samples s). \<exists>a b. getSendRate s = Fin a \<and>
      map_of m ''send-msg-rate'' = Some (JDouble (Fin b)) \<and> 2 ^ 18 * a \<le> b"
    and "2 * recvCountInterval s \<le> recvCountTotal s \<Longrightarrow> \<exists>m \<in> set (samples s). \<exists>a b. getRecvRate s = Fin a \<and>
      map_of m ''recv-msg-rate'' = Some (JDouble (Fin b)) \<and> 2 ^ 18 * a \<le> b"
proof -
  note r = measured_run [OF assms]
  note e = r(4) [unfolded measured_time_def]
  show "2 * sendCountInterval s \<le> sendCountTotal s \<Longrightarrow> \<exists>m \<in> set (samples s). \<exists>a b. getSendRate s = Fin a \<and>
      map_of m ''send-msg-rate'' = Some (JDouble (Fin b)) \<and> 2 ^ 18 * a \<le> b"
    using window_above [OF r(2,1,3,6), of "\<lambda>w. sends (w_calls w)" "sendCountTotal s"] r(7,9,11) counts_bounds(1)
    by (fastforce simp: getSendRate_def e window_send_rate intro: bexI [OF _ r(15)])
  show "2 * recvCountInterval s \<le> recvCountTotal s \<Longrightarrow> \<exists>m \<in> set (samples s). \<exists>a b. getRecvRate s = Fin a \<and>
      map_of m ''recv-msg-rate'' = Some (JDouble (Fin b)) \<and> 2 ^ 18 * a \<le> b"
    using window_above [OF r(2,1,3,6), of "\<lambda>w. recvs (w_calls w)" "recvCountTotal s"] r(8,10,12) counts_bounds(3)
    by (fastforce simp: getRecvRate_def e window_recv_rate intro: bexI [OF _ r(15)])
qed

text \<open>
  C33: the overall rates are wrong by a unit. In a run of at least five samples with an interval
  of at least a millisecond, whatever happens after the last sample, the overall send rate is
  that of the measured messages over nanoseconds where a sample's is over milliseconds: the same
  messages over the milliseconds of the same time give between half a million and two million
  times as much, and so for the overall receive rate. When at least half of the messages counted
  are in windows that were sampled, some sample shows a rate of at least a quarter of a million
  times the overall one. (The clock does not go back; there are fewer than \<open>2 ^ 53\<close> calls in fewer
  than \<open>2 ^ 53\<close> nanoseconds, about 104 days, with latencies whose sum fits in a \<open>long\<close>; nothing
  else resets the statistics.)
\<close>

theorem overall_rates_unit:
  assumes "new_stats ms t0 = Inr s0" and "well_timed t0 es" and "small_load es"
    and "Reset_Globals \<notin> fst ` set es" and "handle_calls es (setup_stats sz s0) = Inr s"
    and "1 \<le> ms" and "\<forall>c \<in> set es. snd c - t0 < 2 ^ 53" and "5 \<le> length (samples s)"
  shows "(\<exists>a b. getSendRate s = Fin a \<and> send_rate_in_ms s = Fin b \<and> 0 \<le> a \<and> 2 ^ 19 * a \<le> b \<and> b \<le> 2 ^ 21 * a) \<and>
    (\<exists>a b. getRecvRate s = Fin a \<and> recv_rate_in_ms s = Fin b \<and> 0 \<le> a \<and> 2 ^ 19 * a \<le> b \<and> b \<le> 2 ^ 21 * a) \<and>
    (2 * sendCountInterval s \<le> sendCountTotal s \<longrightarrow> (\<exists>m \<in> set (samples s). \<exists>a b. getSendRate s = Fin a \<and>
        map_of m ''send-msg-rate'' = Some (JDouble (Fin b)) \<and> 2 ^ 18 * a \<le> b)) \<and>
    (2 * recvCountInterval s \<le> recvCountTotal s \<longrightarrow> (\<exists>m \<in> set (samples s). \<exists>a b. getRecvRate s = Fin a \<and>
        map_of m ''recv-msg-rate'' = Some (JDouble (Fin b)) \<and> 2 ^ 18 * a \<le> b))"
  using overall_rates_small [OF assms] sampled_rates_above [OF assms] by blast

text \<open>Five windows of a message each, and a call in the window still open at the end.\<close>

definition five_calls :: "call list" where
  "five_calls = map (\<lambda>i. (Send, i * 1000000)) [1, 2, 3, 4, 5] @ [(Send, 5000001)]"

lemma five_new: "new_stats 1 0 = Inr (case new_stats 1 0 of Inr s \<Rightarrow> s | Inl e \<Rightarrow> undefined)"
  by (simp add: new_stats_def long_min_def long_max_def)

theorem overall_rates_unit_witness:
  "\<exists>s0 s a b. new_stats 1 0 = Inr s0 \<and> handle_calls five_calls (setup_stats 0 s0) = Inr s \<and>
     sendCountInterval s = 1 \<and> sendCountTotal s = 2 \<and>
     getSendRate s = Fin a \<and> send_rate_in_ms s = Fin b \<and> 2 ^ 19 * a \<le> b \<and> b \<le> 2 ^ 21 * a \<and>
     (\<exists>c. rate 1 1 = Fin c \<and> 2 ^ 18 * a \<le> c)"
proof -
  define s0 where "s0 = (case new_stats 1 0 of Inr s \<Rightarrow> s | Inl e \<Rightarrow> undefined)"
  have new: "new_stats 1 0 = Inr s0" unfolding s0_def by (rule five_new)
  have ok: "well_timed 0 five_calls" "small_load five_calls" "Reset_Globals \<notin> fst ` set five_calls"
      "\<forall>c \<in> set five_calls. snd c - 0 < 2 ^ 53"
    by (simp_all add: well_timed_def small_load_def five_calls_def lats_def map_filter_def)
  have run: "run_of 1000000 0 five_calls =
      \<lparr>r_closed = map (\<lambda>i. \<lparr>w_from = i * 1000000, w_to = (i + 1) * 1000000, w_calls = [Send]\<rparr>) [0, 1, 2, 3, 4],
       r_opened = 5000000, r_pending = [Send]\<rparr>"
    by (simp add: run_of_def five_calls_def step_run_def reports_def)
  obtain s where s: "handle_calls five_calls (setup_stats 0 s0) = Inr s"
      "tracks 1000000 0 0 (run_of 1000000 0 five_calls) s"
    using handle_calls_tracks [OF new_stats_tracks [OF new] ok(1,2), of 0] by auto
  have tot: "tracks_totals (measured_calls (run_of 1000000 0 five_calls)) s"
    using run_tracked(2) [OF new ok(1,2) s(1) ok(3)] by simp
  have fin: "5 \<le> length (samples s)" "sendCountInterval s = 1" "sendCountTotal s = 2"
    using s(2) tot by (simp_all add: tracks_def tracks_interval_def tracks_totals_def run sends_def
        measured_calls_def measured_windows_def warm_up_def IGNORE_FIRST_def)
  have each: "\<forall>m \<in> set (samples s). map_of m ''send-msg-rate'' = Some (JDouble (rate 1 1))"
    using s(2) by (simp add: tracks_def run window_send_rate sends_def)
  show ?thesis
    using overall_rates_unit [OF new ok(1-3) s(1) _ ok(4) fin(1)] new s(1) each fin(2,3) by fastforce
qed

text \<open>\<open>interval()\<close> never returns: its body is a call of itself.\<close>

lemma interval_duration_None: "interval_duration s = None"
proof -
  have "interval_duration s = Some d \<Longrightarrow> False" for d
    by (rule interval_duration.raw_induct [where P = "\<lambda>_ _. False"])
  then show ?thesis by (cases "interval_duration s") auto
qed

end
