(* ===== verification/Perf_Scenario_Spec.thy ===== *)
theory Perf_Scenario_Spec
  imports Perf_Scenario Perf_Rates
begin

text \<open>
  What a varying scenario writes: one run for each combination of the values, in the order of
  nested loops; the dimensions with the texts of their values; and the results of each run
  at the path of its texts.
\<close>

section \<open>Texts in the order they are first seen\<close>

definition add_new :: "'a list \<Rightarrow> 'a \<Rightarrow> 'a list" where
  "add_new xs x = (if x \<in> set xs then xs else xs @ [x])"

definition firsts :: "'a list \<Rightarrow> 'a list" where
  "firsts xs = foldl add_new [] xs"

lemma firsts_Nil [simp]: "firsts [] = []"
  by (simp add: firsts_def)

lemma set_foldl_add_new: "set (foldl add_new ys xs) = set ys \<union> set xs"
  by (induction xs arbitrary: ys) (auto simp: add_new_def)

lemma set_firsts [simp]: "set (firsts xs) = set xs"
  by (simp add: firsts_def set_foldl_add_new)

lemma foldl_add_new_old: "set xs \<subseteq> set ys \<Longrightarrow> foldl add_new ys xs = ys"
  by (induction xs) (auto simp: add_new_def)

lemma foldl_add_new_new:
  "distinct xs \<Longrightarrow> set xs \<inter> set ys = {} \<Longrightarrow> foldl add_new ys xs = ys @ xs"
  by (induction xs arbitrary: ys) (auto simp: add_new_def)

lemma firsts_distinct: "distinct xs \<Longrightarrow> firsts xs = xs"
  by (simp add: firsts_def foldl_add_new_new)

lemma firsts_append: "firsts (xs @ ys) = foldl add_new (firsts xs) ys"
  by (simp add: firsts_def)

text \<open>Repeating each element, and repeating the whole list, adds nothing.\<close>

lemma foldl_add_new_replicate: "0 < n \<Longrightarrow> foldl add_new ys (replicate n x) = add_new ys x"
proof (induction n arbitrary: ys)
  case (Suc n)
  then show ?case by (cases n) (auto simp: add_new_def)
qed simp

lemma foldl_add_new_repeat:
  "0 < n \<Longrightarrow> foldl add_new ys (concat (map (\<lambda>x. replicate n x) xs)) = foldl add_new ys xs"
  by (induction xs arbitrary: ys) (simp_all add: foldl_add_new_replicate)

lemma firsts_copies: "0 < n \<Longrightarrow> firsts (concat (replicate n xs)) = firsts xs"
proof (induction n)
  case (Suc n)
  have "foldl add_new (firsts xs) (concat (replicate n xs)) = firsts xs"
    by (intro foldl_add_new_old) auto
  then show ?case by (simp add: firsts_append)
qed simp

section \<open>Dimension values\<close>

text \<open>The text of a value; \<open>plain_value\<close> excludes \<open>null\<close> and the values whose text is left out.\<close>

definition value_text :: "jobj \<Rightarrow> string" where
  "value_text v = (case to_string v of Inr t \<Rightarrow> t | Inl _ \<Rightarrow> [])"

definition text_of :: "mvalue \<Rightarrow> string" where
  "text_of e = value_text (mv_value e)"

definition plain_value :: "mvalue \<Rightarrow> bool" where
  "plain_value e \<longleftrightarrow> (\<exists>t. to_string (mv_value e) = Inr t)"

lemma to_string_plain: "plain_value e \<Longrightarrow> to_string (mv_value e) = Inr (text_of e)"
  by (auto simp: plain_value_def text_of_def value_text_def)

definition texts_named :: "string \<Rightarrow> mvalue list \<Rightarrow> string list" where
  "texts_named n es = map text_of (filter (\<lambda>e. mv_name e = n) es)"

lemma foldE_concat: "foldE (foldE f) xss s = foldE f (concat xss) s"
proof (induction xss arbitrary: s)
  case (Cons xs xss)
  then show ?case by (cases "foldE f xs s") (simp_all add: foldE_append)
qed simp

text \<open>What the map of texts holds after some elements.\<close>

definition tracks_texts :: "mvalue list \<Rightarrow> (string \<times> string list) list \<Rightarrow> bool" where
  "tracks_texts es dv \<longleftrightarrow> distinct (map fst dv) \<and>
     (\<forall>n. map_of dv n = (if \<exists>e \<in> set es. mv_name e = n then Some (firsts (texts_named n es)) else None))"

lemma tracks_texts_add:
  assumes "tracks_texts es dv" and "plain_value e"
  shows "\<exists>dv'. add_value e dv = Inr dv' \<and> tracks_texts (es @ [e]) dv'"
proof -
  let ?vals = "case map_of dv (mv_name e) of None \<Rightarrow> [] | Some vs \<Rightarrow> vs"
  have old: "?vals = firsts (texts_named (mv_name e) es)"
  proof (cases "\<exists>x \<in> set es. mv_name x = mv_name e")
    case False
    then have "texts_named (mv_name e) es = []" by (auto simp: texts_named_def filter_empty_conv)
    with False assms(1) show ?thesis by (auto simp: tracks_texts_def)
  qed (use assms(1) in \<open>auto simp: tracks_texts_def\<close>)
  have "firsts (texts_named (mv_name e) (es @ [e])) = add_new ?vals (text_of e)"
    by (simp add: texts_named_def firsts_append) (simp add: old texts_named_def)
  moreover have "firsts (texts_named n (es @ [e])) = firsts (texts_named n es)" if "n \<noteq> mv_name e" for n
    using that by (simp add: texts_named_def)
  ultimately have "tracks_texts (es @ [e]) (put (mv_name e) (add_new ?vals (text_of e)) dv)"
    using assms(1) by (auto simp: tracks_texts_def)
  then show ?thesis using to_string_plain [OF assms(2)] by (simp add: add_value_def Let_def add_new_def)
qed

lemma dimension_values_tracks:
  assumes "\<forall>key \<in> set keys. \<forall>e \<in> set key. plain_value e"
  shows "\<exists>dv. dimension_values_of keys = Inr dv \<and> tracks_texts (concat keys) dv"
proof -
  have "\<exists>dv. foldE add_value es [] = Inr dv \<and> tracks_texts es dv" if "\<forall>e \<in> set es. plain_value e" for es
    using that
  proof (induction es rule: rev_induct)
    case Nil
    show ?case by (simp add: tracks_texts_def)
  next
    case (snoc e es)
    then obtain dv where "foldE add_value es [] = Inr dv" "tracks_texts es dv" by auto
    then show ?case using tracks_texts_add [of es dv e] snoc.prems by (auto simp: foldE_append)
  qed
  from this [of "concat keys"] show ?thesis using assms by (simp add: dimension_values_of_def foldE_concat)
qed

section \<open>The columns of the combinations\<close>

lemma product_lists_length: "k \<in> set (product_lists xss) \<Longrightarrow> length k = length xss"
  by (induction xss arbitrary: k) auto

lemma product_lists_nonempty: "product_lists xss = [] \<longleftrightarrow> [] \<in> set xss"
  by (induction xss) auto

lemma column_concat:
  "concat (map (\<lambda>x. map f (map ((#) x) ks)) xs) = concat (map (\<lambda>x. map (\<lambda>k. f (x # k)) ks) xs)"
  by (simp add: comp_def)

lemma column_firsts:
  assumes "[] \<notin> set xss" and "i < length xss"
  shows "firsts (map (\<lambda>k. f (k ! i)) (product_lists xss)) = firsts (map f (xss ! i))"
  using assms
proof (induction xss arbitrary: i)
  case (Cons xs xss)
  let ?P = "product_lists xss"
  have P: "0 < length ?P" using Cons.prems product_lists_nonempty [of xss] by auto
  show ?case
  proof (cases i)
    case 0
    have "map (\<lambda>k. f (k ! 0)) (product_lists (xs # xss)) = concat (map (\<lambda>x. replicate (length ?P) x) (map f xs))"
      by (simp add: map_concat comp_def map_replicate_const)
    then show ?thesis using foldl_add_new_repeat [OF P, of "[]" "map f xs"] by (simp add: 0 firsts_def)
  next
    case (Suc j)
    have "map (\<lambda>k. f (k ! Suc j)) (product_lists (xs # xss)) =
        concat (replicate (length xs) (map (\<lambda>k. f (k ! j)) ?P))"
      by (simp add: map_concat comp_def map_replicate_const)
    moreover have "0 < length xs" using Cons.prems by (cases xs) auto
    ultimately show ?thesis using Cons Suc by (simp add: firsts_copies)
  qed
qed simp

end
