(* ===== verification/Perf_Results.thy ===== *)
theory Perf_Results
  imports Perf_Factory Perf_Scenario_Spec
begin

text \<open>
  The type of what the program writes: a result is a tree of maps with distinct keys, lists,
  texts, integers and finite doubles, whatever the load was. Gson refuses NaN and the
  infinities, so this is what makes a result file possible. An invariant of the statistics
  is carried from the handlers to whole scenarios by a locale.
\<close>

section \<open>Finite doubles\<close>

lemma rnd_bounded:
  assumes "\<bar>q\<bar> \<le> bpow 2 k" and "0 \<le> k" and "k < 1024"
  shows "\<exists>r. rnd q = Fin r \<and> \<bar>r\<bar> \<le> bpow 2 k"
proof (cases "q = 0")
  case False
  have "rnd_mag (bpow 2 k) = bpow 2 k" using rnd_mag_exact [of 1 k] assms(2) by simp
  then have m: "rnd_mag \<bar>q\<bar> \<le> bpow 2 k" using rnd_mag_mono [of "\<bar>q\<bar>" "bpow 2 k"] assms(1) False by simp
  moreover have "bpow 2 k < bpow 2 1024" using assms(3) by (simp add: bpow_less_iff)
  moreover have "0 \<le> rnd_mag \<bar>q\<bar>" using False by (intro rnd_mag_binade(3)) simp
  ultimately show ?thesis using False by (auto simp: rnd_def Let_def)
qed simp

lemma of_long_bounded:
  assumes "\<bar>n\<bar> \<le> 2 ^ j" and "j < 1024"
  shows "\<exists>r. of_long n = Fin r \<and> \<bar>r\<bar> \<le> bpow 2 (int j)"
proof -
  have "(of_int \<bar>n\<bar> :: rat) \<le> of_int (2 ^ j)" using assms(1) by (simp only: of_int_le_iff)
  then have "\<bar>of_int n\<bar> \<le> bpow 2 (int j)" by (simp add: bpow_nat)
  then show ?thesis unfolding of_long_def using assms(2) by (intro rnd_bounded) simp_all
qed

lemma of_long_large:
  assumes "n \<noteq> 0" and "of_long n = Fin r"
  shows "1 \<le> \<bar>r\<bar>"
proof -
  have "(1 :: int) \<le> \<bar>n\<bar>" using assms(1) by simp
  then have "(of_int 1 :: rat) \<le> of_int \<bar>n\<bar>" by (simp only: of_int_le_iff)
  then have "rnd_mag 1 \<le> rnd_mag \<bar>of_int n\<bar>" by (intro rnd_mag_mono) simp_all
  moreover have "rnd_mag 1 = 1" using rnd_mag_exact [of 1 0] by simp
  moreover have "\<bar>r\<bar> = \<bar>rnd_mag \<bar>of_int n\<bar>\<bar>"
    using assms by (auto simp: of_long_def rnd_def Let_def split: if_splits)
  ultimately show ?thesis by simp
qed

lemma rate_bounded:
  assumes "\<bar>n\<bar> \<le> 2 ^ 63"
  shows "\<exists>r. rate n t = Fin r \<and> \<bar>r\<bar> \<le> bpow 2 73"
proof (cases "t = 0")
  case False
  obtain a where a: "of_long n = Fin a" "\<bar>a\<bar> \<le> bpow 2 63"
    using of_long_bounded [OF assms] by auto
  have "\<exists>q. dbl_quot (of_long n) (of_long t) = Fin q \<and> \<bar>q\<bar> \<le> bpow 2 63"
  proof (cases "of_long t")
    case (Fin b)
    have b: "1 \<le> \<bar>b\<bar>" using of_long_large [OF False Fin] .
    then have "\<bar>a\<bar> * 1 \<le> \<bar>a\<bar> * \<bar>b\<bar>" by (intro mult_left_mono) simp_all
    moreover have "0 < \<bar>b\<bar>" using b by linarith
    ultimately have "\<bar>a / b\<bar> \<le> \<bar>a\<bar>" by (simp only: abs_divide pos_divide_le_eq mult_1_right)
    then have "\<bar>a / b\<bar> \<le> bpow 2 63" using a(2) by linarith
    from rnd_bounded [OF this] show ?thesis using b Fin a(1) by auto
  next
    case NaN
    then show ?thesis by (auto simp: of_long_def rnd_def Let_def split: if_splits)
  qed (use a(1) in simp_all)
  then obtain q where q: "dbl_quot (of_long n) (of_long t) = Fin q" "\<bar>q\<bar> \<le> bpow 2 63" by blast
  have "\<bar>1000 * q\<bar> \<le> bpow 2 10 * bpow 2 63"
    unfolding abs_mult using q(2) bpow_nat [of 2 10] by (intro mult_mono) simp_all
  then have "\<bar>1000 * q\<bar> \<le> bpow 2 73" using bpow_add [of 2 10 63] by simp
  from rnd_bounded [OF this] show ?thesis using False by (simp add: rate_def q(1) rnd_1000)
qed (simp add: rate_def)

lemma times_long_bounded:
  assumes "x = Fin r" and "\<bar>r\<bar> \<le> bpow 2 73" and "\<bar>n\<bar> \<le> 2 ^ 31"
  shows "\<exists>q. x * of_long n = Fin q"
proof -
  obtain b where b: "of_long n = Fin b" "\<bar>b\<bar> \<le> bpow 2 31" using of_long_bounded [OF assms(3)] by auto
  have "\<bar>r * b\<bar> \<le> bpow 2 73 * bpow 2 31"
    unfolding abs_mult using assms(2) b(2) by (intro mult_mono) simp_all
  then have "\<bar>r * b\<bar> \<le> bpow 2 104" using bpow_add [of 2 73 31] by simp
  from rnd_bounded [OF this] show ?thesis by (auto simp: assms(1) b(1))
qed

section \<open>Writable objects\<close>

fun writable :: "jobj \<Rightarrow> bool" where
  "writable (JDouble x) = (case x of Fin q \<Rightarrow> True | _ \<Rightarrow> False)"
| "writable (JList xs) = (\<forall>x \<in> set xs. writable x)"
| "writable (JMap m) = (distinct (map fst m) \<and> (\<forall>e \<in> set m. writable (snd e)))"
| "writable v = True"

lemma writable_JMap:
  "writable (JMap m) \<longleftrightarrow> distinct (map fst m) \<and> (\<forall>k v. map_of m k = Some v \<longrightarrow> writable v)"
proof -
  have "(\<forall>e \<in> set m. writable (snd e)) \<longleftrightarrow> (\<forall>k v. map_of m k = Some v \<longrightarrow> writable v)"
    if "distinct (map fst m)"
    using that by (force dest: map_of_SomeD intro: map_of_is_SomeI)
  then show ?thesis by auto
qed

lemma writable_put: "writable (JMap m) \<Longrightarrow> writable v \<Longrightarrow> writable (JMap (put k v m))"
  unfolding writable_JMap by auto

lemma writable_get: "writable (JMap m) \<Longrightarrow> map_of m k = Some v \<Longrightarrow> writable v"
  using writable_JMap [of m] by blast

lemmas writable_simple = writable.simps(1,4-8)

section \<open>An invariant of the statistics, from a handler to a scenario\<close>

text \<open>
  The interface of the statistics: what they are when made, when they learn a message size the
  parameters allow, and after each call.
\<close>

definition all_stats :: "(stats \<Rightarrow> bool) \<Rightarrow> 'p varying_run \<Rightarrow> bool" where
  "all_stats holds st \<longleftrightarrow> (\<forall>k s. map_of (vs_stats (vr_stats st)) k = Some s \<longrightarrow> holds s)"

lemma foldE_inv:
  "(\<And>x s s'. P s \<Longrightarrow> g x s = Inr s' \<Longrightarrow> P s') \<Longrightarrow> P s \<Longrightarrow> foldE g xs s = Inr s' \<Longrightarrow> P s'"
  by (induction xs arbitrary: s) (auto simp: bindE_Inr_iff)

locale stats_invariant =
  fixes holds :: "stats \<Rightarrow> bool" and size_ok :: "int \<Rightarrow> bool"
  assumes made: "new_stats ms t = Inr s \<Longrightarrow> holds s"
    and sized: "holds s \<Longrightarrow> size_ok sz \<Longrightarrow> holds (setup_stats sz s)"
    and called: "holds s \<Longrightarrow> handle_call h now s = Inr s' \<Longrightarrow> holds s'"
begin

lemma calls: "holds s \<Longrightarrow> handle_calls es s = Inr s' \<Longrightarrow> holds s'"
proof (induction es arbitrary: s)
  case (Cons e es)
  then show ?case by (cases e) (auto simp: bindE_Inr_iff dest: called)
qed simp

lemma params:
  assumes "\<forall>p. size_ok (get_min_msg_size w p)"
  shows "holds s \<Longrightarrow> run_params w f vals ps n s = Inr (ps', n', s') \<Longrightarrow> holds s'"
proof (induction ps arbitrary: n s ps' n' s')
  case (Cons p ps)
  then obtain p' es s1 ps1 where s1: "handle_calls es (setup_stats (get_min_msg_size w p') s) = Inr s1"
      "run_params w f vals ps (Suc n) s1 = Inr (ps1, n', s')"
    by (simp add: bindE_Inr_iff split: prod.splits) blast
  have "holds s1" using calls [OF sized [OF Cons.prems(1)] s1(1)] assms by blast
  then show ?case using Cons.IH s1(2) by blast
qed simp

lemma simple:
  assumes "\<forall>p. size_ok (get_min_msg_size w p)" and "run_simple w f ms ps n = Inr (ps', n', s)"
  shows "holds s"
proof -
  obtain s0 where "new_stats ms (clock w n) = Inr s0" "run_params w f [] ps (Suc n) s0 = Inr (ps', n', s)"
    using assms(2) by (auto simp: run_simple_def bindE_Inr_iff)
  then show ?thesis using params [OF assms(1)] made by blast
qed

lemma combination:
  assumes "\<forall>p. size_ok (get_min_msg_size w p)" and "all_stats holds st"
    and "run_combination w f vals st = Inr st'"
  shows "all_stats holds st'"
proof -
  obtain s0 ps n s where "new_stats 1000 (clock w (vr_count st)) = Inr s0"
      "run_params w f vals (vr_params st) (Suc (vr_count st)) s0 = Inr (ps, n, s)"
      and st': "vs_stats (vr_stats st') = AList.update vals s (vs_stats (vr_stats st))"
    using assms(3) by (auto simp: run_combination_def bindE_Inr_iff)
  then have "holds s" using params [OF assms(1)] made by blast
  then show ?thesis using assms(2) by (auto simp: all_stats_def st' update_conv')
qed

lemma variables:
  assumes "\<forall>p. size_ok (get_min_msg_size w p)"
  shows "all_stats holds st \<Longrightarrow> run_variables w f vs vals st = Inr st' \<Longrightarrow> all_stats holds st'"
proof (induction vs arbitrary: vals st st')
  case Nil
  then show ?case using combination [OF assms] by simp
next
  case (Cons v vs)
  show ?case
    by (rule foldE_inv [of "all_stats holds" "\<lambda>x. run_variables w f vs (vals @ [x])" st v])
      (use Cons in simp_all)
qed

lemma varying:
  "\<forall>p. size_ok (get_min_msg_size w p) \<Longrightarrow> run_varying w f ps vs n = Inr st \<Longrightarrow>
   map_of (vs_stats (vr_stats st)) k = Some s \<Longrightarrow> holds s"
  using variables [of w "\<lparr>vr_params = ps, vr_count = n, vr_stats = \<lparr>vs_keys = [], vs_stats = []\<rparr>\<rparr>" f vs "[]" st]
  by (simp add: run_varying_def all_stats_def)

end

section \<open>Every result is writable\<close>

definition typed_stats :: "stats \<Rightarrow> bool" where
  "typed_stats s \<longleftrightarrow>
     \<bar>sendCountInterval s\<bar> \<le> 2 ^ 63 \<and> \<bar>recvCountInterval s\<bar> \<le> 2 ^ 63 \<and>
     \<bar>sendCountTotal s\<bar> \<le> 2 ^ 63 \<and> \<bar>recvCountTotal s\<bar> \<le> 2 ^ 63 \<and>
     \<bar>minMsgSize s\<bar> \<le> 2 ^ 31 \<and> (\<forall>m \<in> set (samples s). writable (JMap m))"

lemma wrap64_abs: "\<bar>wrap64 x\<bar> \<le> 2 ^ 63"
  using wrap64_range [of x] by (simp add: long_min_def long_max_def abs_le_iff)

lemma writable_rate:
  assumes "\<bar>n\<bar> \<le> 2 ^ 63"
  shows "writable (JDouble (rate n t))" and "\<bar>sz\<bar> \<le> 2 ^ 31 \<Longrightarrow> writable (JDouble (rate n t * of_long sz))"
proof -
  obtain r where r: "rate n t = Fin r" "\<bar>r\<bar> \<le> bpow 2 73" using rate_bounded [OF assms] by blast
  show "writable (JDouble (rate n t))" by (simp add: r(1))
  show "writable (JDouble (rate n t * of_long sz))" if "\<bar>sz\<bar> \<le> 2 ^ 31"
    using times_long_bounded [OF r that] by auto
qed

lemma writable_empty: "writable (JMap [])"
  by simp

lemmas writable_intros = writable_put writable_rate writable_simple(2-6) [THEN iffD2, OF TrueI] writable_empty

lemma typed_sample:
  assumes "typed_stats s" and "new_sample s = Inr m"
  shows "writable (JMap m)"
proof -
  have "writable (JMap (sample_rates s))"
    unfolding sample_rates_def Let_def
    using assms(1) by (intro writable_intros) (simp_all add: typed_stats_def)
  then show ?thesis
    using assms(2) by (auto simp: new_sample_def bindE_Inr_iff split: if_splits intro!: writable_put simp del: writable.simps(3))
qed

lemma typed_report:
  assumes "typed_stats s" and "report now s = Inr s'"
  shows "typed_stats s'"
proof (cases "intervalInNanoSeconds s \<le> wrap64 (now - lastStatsTime s)")
  case True
  define s1 where "s1 = drop_warm_up (s\<lparr>elapsedInterval := wrap64 (now - lastStatsTime s),
      elapsedTotal := wrap64 (elapsedTotal s + wrap64 (now - lastStatsTime s))\<rparr>)"
  have t: "typed_stats s1" using assms(1) by (simp add: s1_def typed_stats_def drop_warm_up_def)
  obtain m where m: "new_sample s1 = Inr m" "s' = reset now (s1\<lparr>samples := samples s1 @ [m]\<rparr>)"
    using assms(2) True by (auto simp: report_def Let_def report_sample_def bindE_Inr_iff s1_def)
  then show ?thesis
    using t typed_sample [OF t m(1)] by (auto simp: typed_stats_def reset_def resetLastCounts_def simp del: writable.simps)
next
  case False
  then show ?thesis using assms by (auto simp: report_def Let_def typed_stats_def)
qed

lemma typed_called:
  assumes "typed_stats s" and "handle_call h now s = Inr s'"
  shows "typed_stats s'"
proof (cases "reports h")
  case True
  have "typed_stats (count_call h s)"
    using assms(1) wrap64_abs by (cases h) (auto simp: typed_stats_def count_latency_def)
  then show ?thesis using typed_report assms(2) handle_call_reports [OF True] by simp
next
  case False
  then have "h = Maybe_Reset_Gauges \<or> h = Reset_Globals" by (auto simp: reports_def)
  moreover have "typed_stats (maybeResetGauges now s)" "typed_stats (resetGlobals now s)"
    using assms(1) by (simp_all add: typed_stats_def maybeResetGauges_def resetGlobals_def resetLastCounts_def del: writable.simps)
  ultimately show ?thesis using assms(2) by auto
qed

interpretation typed: stats_invariant typed_stats "\<lambda>sz. \<bar>sz\<bar> \<le> 2 ^ 31"
proof
  show "typed_stats s" if "new_stats ms t = Inr s" for ms t s
    using that by (auto simp: new_stats_def typed_stats_def reset_def resetLastCounts_def split: if_splits)
  show "typed_stats (setup_stats sz s)" if "typed_stats s" "\<bar>sz\<bar> \<le> 2 ^ 31" for sz s
    using that by (simp add: typed_stats_def setup_stats_def)
qed (rule typed_called)

lemma typed_results:
  assumes "typed_stats s" and "simple_results s = Inr m"
  shows "writable (JMap m)"
proof -
  have "writable (JMap (result_rates s))"
    unfolding result_rates_def getSendRate_def getRecvRate_def
    using assms(1) by (intro writable_intros) (simp_all add: typed_stats_def)
  moreover have "writable (JList (map JMap (samples s)))"
    using assms(1) by (auto simp: typed_stats_def)
  ultimately show ?thesis
    using assms(2)
    by (auto simp: simple_results_def bindE_Inr_iff split: if_splits intro!: writable_put simp del: writable.simps(2,3))
qed

lemma writable_insert:
  "insert_results ts res node = Inr node' \<Longrightarrow> writable (JMap node) \<Longrightarrow> writable (JMap res) \<Longrightarrow>
   writable (JMap node')"
proof (induction ts res node arbitrary: node' rule: insert_results.induct)
  case (3 k l ks res node)
  have sub: "writable (JMap m)" if "map_of node k = Some (JMap m)" for m
    using writable_get [OF "3.prems"(2) that] .
  obtain m n where m: "map_of node k = None \<and> m = [] \<or> map_of node k = Some (JMap m)"
      and n: "insert_results (l # ks) res m = Inr n" "node' = put k (JMap n) node"
    using "3.prems"(1) by (auto simp: bindE_Inr_iff split: option.splits jobj.splits)
  have "writable (JMap n)"
    using m n(1) "3.IH" "3.prems"(3) sub writable_empty by blast
  then show ?case using "3.prems"(2) by (simp add: n(2) writable_put del: writable.simps)
qed (auto intro: writable_put simp del: writable.simps)

lemma writable_strings: "writable (strings ss)"
  by (auto simp: strings_def)

lemma dimension_values_distinct:
  assumes "dimension_values_of keys = Inr dv"
  shows "distinct (map fst dv)"
proof -
  have "distinct (map fst dv)" if "foldE add_value es [] = Inr dv" for es
    by (rule foldE_inv [of "\<lambda>dv. distinct (map fst dv)" add_value _ es, OF _ _ that])
      (auto simp: add_value_def Let_def bindE_Inr_iff)
  then show ?thesis using assms by (simp add: dimension_values_of_def foldE_concat)
qed

lemma writable_varying:
  assumes "varying_results vs = Inr m" and "\<forall>k s. map_of (vs_stats vs) k = Some s \<longrightarrow> typed_stats s"
  shows "writable (JMap m)"
proof -
  obtain key dv data where key: "hd (vs_keys vs) = key"
      and dv: "dimension_values_of (vs_keys vs) = Inr dv"
      and data: "foldE (add_run (vs_stats vs)) (vs_keys vs) [] = Inr data"
      and m: "m = put ''data'' (JMap data) (put ''dimension-values'' (JMap (map (\<lambda>(k, vals). (k, strings vals)) dv))
        (put ''dimensions'' (strings (map mv_name key)) []))"
    using assms(1) by (auto simp: varying_results_def bindE_Inr_iff split: list.splits)
  have "writable (JMap data)"
  proof (rule foldE_inv [of "\<lambda>d. writable (JMap d)", OF _ writable_empty data])
    fix k d d' assume d: "writable (JMap d)" "add_run (vs_stats vs) k d = Inr d'"
    then obtain s res ts where "map_of (vs_stats vs) k = Some s" "simple_results s = Inr res"
        "insert_results ts res d = Inr d'"
      by (auto simp: add_run_def bindE_Inr_iff split: option.splits)
    then show "writable (JMap d')"
      using assms(2) typed_results [of s res] writable_insert [of ts res d d'] d(1) by blast
  qed
  moreover have keys: "map fst (map (\<lambda>(k, vals). (k, strings vals)) dv) = map fst dv"
    by (simp add: comp_def case_prod_unfold)
  have "writable (JMap (map (\<lambda>(k, vals). (k, strings vals)) dv))"
    unfolding writable.simps(3) keys using dimension_values_distinct [OF dv] writable_strings by auto
  ultimately show ?thesis
    unfolding m by (intro writable_put writable_strings writable_empty)
qed

lemma writable_scenario:
  assumes "\<forall>p. \<bar>get_min_msg_size w p\<bar> \<le> 2 ^ 31" and "run_scenario w f sc n = Inr (m, n')"
  shows "writable (JMap m)"
proof (cases sc)
  case (Simple name interval ps)
  then obtain ps' s where "run_simple w f interval ps n = Inr (ps', n', s)" "simple_results s = Inr m"
    using assms(2) by (auto simp: bindE_Inr_iff)
  then show ?thesis using typed.simple [OF assms(1)] typed_results by blast
next
  case (Rate_Vs_Latency name p)
  then obtain ps k vs st where "run_varying w f ps vs k = Inr st" "varying_results (vr_stats st) = Inr m"
    using assms(2) by (auto simp: bindE_Inr_iff run_rate_vs_latency_def)
  then show ?thesis using typed.varying [OF assms(1)] writable_varying by blast
next
  case (Varying name ps vs)
  then obtain st where "run_varying w f ps vs n = Inr st" "varying_results (vr_stats st) = Inr m"
    using assms(2) by (auto simp: bindE_Inr_iff)
  then show ?thesis using typed.varying [OF assms(1)] writable_varying by blast
qed

lemma run_tests_writable:
  assumes "\<forall>p. \<bar>get_min_msg_size w p\<bar> \<le> 2 ^ 31"
  shows "run_tests w f scs n res = Inr m \<Longrightarrow> writable (JMap res) \<Longrightarrow> writable (JMap m)"
proof (induction scs arbitrary: n res)
  case (Cons sc scs)
  then obtain r n' where "run_scenario w f sc n = Inr (r, n')"
      "run_tests w f scs n' (put (scenario_name sc) (JMap r) res) = Inr m"
    by (auto simp: bindE_Inr_iff)
  then show ?case using Cons.IH Cons.prems(2) writable_scenario [OF assms] writable_put by blast
qed (simp del: writable.simps)

text \<open>
  C17: types. Whatever the specification, the load and the messages are, the object that is
  printed to the output file consists of maps with distinct keys, lists, texts, integers and
  finite doubles: no rate is infinite or not a number, for no window and no message size, so
  the printing never refuses a value and the file is always a JSON text.
\<close>

theorem results_writable:
  assumes "perf_test_multi w spec f = Inr m" and "\<forall>p. \<bar>get_min_msg_size w p\<bar> \<le> 2 ^ 31"
  shows "writable (JMap m)"
proof -
  obtain scs f' where "run_tests w f' scs 0 [] = Inr m"
    using assms(1) by (auto simp: perf_test_multi_def bindE_Inr_iff)
  then show ?thesis using run_tests_writable [OF assms(2)] writable_empty by blast
qed

lemma to_int_simps: "to_int (Fin 1000) = 1000"
  by (simp add: trunc_def int_min_def int_max_def)

text \<open>A world for the witnesses: parameters are the rate limit and the message size, a load sends
  one message, waits a second and receives it.\<close>

definition demo_world :: "(int, unit) world" where
  "demo_world = \<lparr>clock = (\<lambda>n. 0), load = (\<lambda>n f p. Inr [(Send, 10), (Recv 4000, 1000000000)]),
     set_value = (\<lambda>p k v. Inr (if k = ''minMsgSize'' then (case v of JDouble x \<Rightarrow> to_int x | _ \<Rightarrow> p) else p)),
     get_min_msg_size = (\<lambda>p. max int_min (min int_max p)), new_params = 0, set_uri = (\<lambda>u f. Inr f)\<rparr>"

definition demo_spec :: "jobj list" where
  "demo_spec = [JMap [(''name'', JString ''s''), (''type'', JString ''simple''),
     (''params'', JList [JMap []])]]"

lemma demo_sizes: "\<forall>p. \<bar>get_min_msg_size demo_world p\<bar> \<le> 2 ^ 31"
  by (auto simp: demo_world_def int_min_def int_max_def)

theorem results_writable_witness:
  "\<exists>m. perf_test_multi demo_world demo_spec () = Inr m \<and> writable (JMap m) \<and> map fst m = [''s'']"
proof -
  have *: "(case perf_test_multi demo_world demo_spec () of Inr m \<Rightarrow> map fst m | Inl e \<Rightarrow> []) = [''s'']"
    by (simp add: perf_test_multi_def demo_world_def demo_spec_def from_json_def read_required_def read_default_def
        read0_def connect_def params_from_json_def run_simple_def new_stats_def long_max_def long_min_def
        setup_stats_def report_def reset_def resetLastCounts_def count_latency_def Let_def to_int_simps
        simple_results_def overallAverageLatency_def report_sample_def drop_warm_up_def new_sample_def
        intervalAverageLatency_def long_div_nonneg put_def IGNORE_FIRST_def
        del: to_int.simps(4))
  then show ?thesis
  proof (cases "perf_test_multi demo_world demo_spec ()")
    case (Inr m)
    then have "map fst m = [''s'']" using * by (simp only: sum.case)
    then show ?thesis using Inr results_writable [OF Inr demo_sizes] by (intro exI [of _ m] conjI)
  qed simp
qed

end
