(* ===== verification/Perf_Grid.thy ===== *)
theory Perf_Grid
  imports Perf_Results
begin

text \<open>
  The results of a varying scenario as a grid: which runs there are, under which texts they
  stand, and that none is lost when the texts of a variable differ.
\<close>

section \<open>The runs of a varying scenario\<close>

lemma foldE_map: "foldE f (map g xs) = foldE (\<lambda>x. f (g x)) xs"
  by (induction xs) (auto intro!: ext)

lemma foldE_none [simp]: "foldE f [] = Inr"
  by (rule ext) simp

lemma bindE_return [simp]: "bindE m Inr = m"
  by (cases m) simp_all

lemma foldE_cong:
  "(\<And>x s. x \<in> set xs \<Longrightarrow> f x s = g x s) \<Longrightarrow> foldE f xs s = foldE g xs s"
proof (induction xs arbitrary: s)
  case (Cons x xs)
  then have "foldE f xs t = foldE g xs t" for t by simp
  then have "foldE f xs = foldE g xs" by (rule ext)
  then show ?case using Cons.prems by simp
qed simp

lemma foldE_nest: "foldE (\<lambda>x. foldE f (g x)) xs s = foldE f (concat (map g xs)) s"
proof (induction xs arbitrary: s)
  case (Cons x xs)
  then have "foldE (\<lambda>x. foldE f (g x)) xs = foldE f (concat (map g xs))" by (intro ext)
  then show ?case by (simp add: foldE_append)
qed simp

text \<open>The nested loops run the combinations one after the other, the last variable fastest.\<close>

lemma run_variables_product:
  "run_variables w f vs vals st = foldE (\<lambda>k. run_combination w f (vals @ k)) (product_lists vs) st"
proof (induction vs arbitrary: vals st)
  case (Cons v vs)
  have "run_variables w f (v # vs) vals st =
      foldE (\<lambda>x. foldE (\<lambda>k. run_combination w f ((vals @ [x]) @ k)) (product_lists vs)) v st"
    unfolding run_variables.simps by (intro foldE_cong) (rule Cons.IH)
  also have "\<dots> = foldE (\<lambda>x. foldE (\<lambda>k. run_combination w f (vals @ k)) (map ((#) x) (product_lists vs))) v st"
    by (simp add: foldE_map comp_def)
  finally show ?case by (simp add: foldE_nest)
qed simp

text \<open>What the statistics hold after some combinations.\<close>

definition tracks_runs :: "mvalue list list \<Rightarrow> 'p varying_run \<Rightarrow> bool" where
  "tracks_runs ks st \<longleftrightarrow> vs_keys (vr_stats st) = ks \<and> set ks = dom (map_of (vs_stats (vr_stats st)))"

lemma combination_tracks:
  "tracks_runs ks st \<Longrightarrow> run_combination w f k st = Inr st' \<Longrightarrow> tracks_runs (ks @ [k]) st'"
  by (auto simp: run_combination_def tracks_runs_def bindE_Inr_iff update_conv')

lemma run_varying_tracks:
  assumes "run_varying w f ps vs n = Inr st"
  shows "tracks_runs (product_lists vs) st"
proof -
  have "tracks_runs (ks0 @ ks) st'" if "tracks_runs ks0 st" "foldE (run_combination w f) ks st = Inr st'"
    for ks0 ks and st st' :: "'a varying_run"
    using that
  proof (induction ks arbitrary: ks0 st)
    case (Cons k ks)
    from Cons.prems(2) obtain st1 where st1: "run_combination w f k st = Inr st1"
        "foldE (run_combination w f) ks st1 = Inr st'"
      by (auto simp: bindE_Inr_iff)
    from Cons.IH [OF combination_tracks [OF Cons.prems(1) st1(1)] st1(2)] show ?case by simp
  qed simp
  moreover have "foldE (run_combination w f) (product_lists vs)
      \<lparr>vr_params = ps, vr_count = n, vr_stats = \<lparr>vs_keys = [], vs_stats = []\<rparr>\<rparr> = Inr st"
    using assms by (simp add: run_varying_def run_variables_product)
  moreover have "tracks_runs [] \<lparr>vr_params = ps, vr_count = n, vr_stats = \<lparr>vs_keys = [], vs_stats = []\<rparr>\<rparr>"
    by (simp add: tracks_runs_def)
  ultimately show ?thesis by fastforce
qed

section \<open>Nested maps\<close>

fun jpath :: "jobj \<Rightarrow> string list \<Rightarrow> jobj option" where
  "jpath v [] = Some v"
| "jpath (JMap m) (k # ks) = (case map_of m k of Some v \<Rightarrow> jpath v ks | None \<Rightarrow> None)"
| "jpath v (k # ks) = None"

lemma jpath_append: "jpath v (ks @ ls) = (case jpath v ks of Some u \<Rightarrow> jpath u ls | None \<Rightarrow> None)"
  by (induction v ks rule: jpath.induct) (auto split: option.splits)

text \<open>Maps nested at least \<open>n\<close> deep.\<close>

fun deep :: "nat \<Rightarrow> jmap \<Rightarrow> bool" where
  "deep 0 m = True"
| "deep (Suc n) m = (\<forall>k v. map_of m k = Some v \<longrightarrow> (\<exists>m'. v = JMap m' \<and> deep n m'))"

lemma deep_Nil: "deep n []"
  by (cases n) simp_all

lemma insert_results_ok:
  assumes "deep n node" and "length ts = Suc n"
  shows "\<exists>node'. insert_results ts res node = Inr node' \<and> deep n node' \<and>
    (\<forall>us. length us = Suc n \<longrightarrow> jpath (JMap node') us = (if us = ts then Some (JMap res) else jpath (JMap node) us))"
  using assms
proof (induction n arbitrary: node ts)
  case 0
  then obtain k where k: "ts = [k]" by (cases ts) auto
  have "jpath (JMap (put k (JMap res) node)) us = (if us = ts then Some (JMap res) else jpath (JMap node) us)"
    if "length us = Suc 0" for us
  proof -
    obtain u where "us = [u]" using \<open>length us = Suc 0\<close> by (auto simp: length_Suc_conv)
    then show ?thesis by (simp add: k)
  qed
  then show ?case by (simp add: k)
next
  case (Suc n)
  obtain k ks where ts: "ts = k # ks" "length ks = Suc n" using Suc.prems(2) by (cases ts) auto
  then obtain l ls where ks: "ks = l # ls" by (cases ks) auto
  define m where "m = (case map_of node k of Some (JMap m) \<Rightarrow> m | _ \<Rightarrow> [])"
  have m: "deep n m \<and> (map_of node k = None \<and> m = [] \<or> map_of node k = Some (JMap m))"
  proof (cases "map_of node k")
    case (Some v)
    then obtain m' where "v = JMap m'" "deep n m'" using Suc.prems(1) by fastforce
    then show ?thesis using Some by (simp add: m_def)
  qed (simp add: m_def deep_Nil)
  obtain m' where m': "insert_results ks res m = Inr m'" "deep n m'"
      "\<forall>us. length us = Suc n \<longrightarrow> jpath (JMap m') us = (if us = ks then Some (JMap res) else jpath (JMap m) us)"
    using Suc.IH [OF conjunct1 [OF m] ts(2)] by blast
  have ins: "insert_results ts res node = Inr (put k (JMap m') node)"
    using m m'(1) by (auto simp: ts(1) ks)
  have "jpath (JMap (put k (JMap m') node)) us = (if us = ts then Some (JMap res) else jpath (JMap node) us)"
    if "length us = Suc (Suc n)" for us
  proof -
    obtain u us' where us: "us = u # us'" "length us' = Suc n" using \<open>length us = Suc (Suc n)\<close> by (auto simp: length_Suc_conv)
    then have "jpath (JMap []) us' = None" by (cases us') auto
    then show ?thesis using m m'(3) us by (auto simp: ts(1))
  qed
  moreover have "deep (Suc n) (put k (JMap m') node)" using Suc.prems(1) m'(2) by simp
  ultimately show ?case using ins by blast
qed

section \<open>The data of the results\<close>

definition texts :: "mvalue list \<Rightarrow> string list" where
  "texts k = map text_of k"

text \<open>When two combinations have the same texts, the later one replaces the earlier.\<close>

lemma runs_data:
  assumes "\<forall>k \<in> set keys. length k = Suc n \<and> (\<forall>e \<in> set k. plain_value e) \<and>
      (\<exists>s. map_of sm k = Some s \<and> simple_results s = Inr (res k))"
  shows "\<exists>data. foldE (add_run sm) keys [] = Inr data \<and> deep n data \<and>
    (\<forall>us. length us = Suc n \<longrightarrow>
       jpath (JMap data) us = map_option JMap (map_of (rev (map (\<lambda>k. (texts k, res k)) keys)) us))"
  using assms
proof (induction keys rule: rev_induct)
  case Nil
  have "jpath (JMap []) us = None" if "length us = Suc n" for us
    using that by (cases us) auto
  then show ?case by (simp add: deep_Nil)
next
  case (snoc k keys)
  then obtain data where data: "foldE (add_run sm) keys [] = Inr data" "deep n data"
      "\<forall>us. length us = Suc n \<longrightarrow>
         jpath (JMap data) us = map_option JMap (map_of (rev (map (\<lambda>k. (texts k, res k)) keys)) us)"
    by auto
  have len: "length (texts k) = Suc n" using snoc.prems by (simp add: texts_def)
  obtain s where s: "map_of sm k = Some s" "simple_results s = Inr (res k)" using snoc.prems by auto
  have "mapE (\<lambda>e. to_string (mv_value e)) k = Inr (texts k)"
    using snoc.prems to_string_plain by (auto simp: texts_def intro!: mapE_total)
  then have "add_run sm k data = insert_results (texts k) (res k) data"
    by (simp add: add_run_def s)
  then show ?case
    using insert_results_ok [OF data(2) len, of "res k"] data(1,3) by (auto simp: foldE_append)
qed

section \<open>The results of a run can be computed\<close>

lemma reports_count:
  "report now s = Inr s' \<Longrightarrow> latencyCountTotal s' = latencyCountTotal s \<or> latencyCountTotal s' = 0"
  by (auto simp: report_def Let_def report_sample_def bindE_Inr_iff drop_warm_up_def reset_def resetLastCounts_def
      split: if_splits)

lemma handle_call_count:
  assumes "handle_call h now s = Inr s'" and "0 \<le> latencyCountTotal s" and "latencyCountTotal s \<le> N" and "N < 2 ^ 53"
  shows "0 \<le> latencyCountTotal s' \<and> latencyCountTotal s' \<le> N + 1"
proof (cases "reports h")
  case True
  have "0 \<le> latencyCountTotal (count_call h s) \<and> latencyCountTotal (count_call h s) \<le> N + 1"
    using assms(2-4) by (cases h) (auto simp: count_latency_def)
  then show ?thesis
    using assms(1,2,3) reports_count [of now "count_call h s" s'] handle_call_reports [OF True] by auto
next
  case False
  then have "h = Maybe_Reset_Gauges \<or> h = Reset_Globals" by (auto simp: reports_def)
  then show ?thesis using assms
    by (cases "noActivity s") (auto simp: maybeResetGauges_def resetGlobals_def resetLastCounts_def)
qed

lemma handle_calls_count:
  "handle_calls es s = Inr s' \<Longrightarrow> 0 \<le> latencyCountTotal s \<Longrightarrow> latencyCountTotal s \<le> N \<Longrightarrow>
   N + int (length es) < 2 ^ 53 \<Longrightarrow>
   0 \<le> latencyCountTotal s' \<and> latencyCountTotal s' \<le> N + int (length es)"
proof (induction es arbitrary: s N)
  case (Cons e es)
  obtain h now where e: "e = (h, now)" by fastforce
  then obtain s1 where s1: "handle_call h now s = Inr s1" "handle_calls es s1 = Inr s'"
    using Cons.prems(1) by (auto simp: bindE_Inr_iff)
  have "0 \<le> latencyCountTotal s1 \<and> latencyCountTotal s1 \<le> N + 1"
    using handle_call_count [OF s1(1) Cons.prems(2,3)] Cons.prems(4) by simp
  then show ?case using Cons.IH [OF s1(2), of "N + 1"] Cons.prems(4) by simp
qed simp

text \<open>No run of the load makes more than \<open>L\<close> calls.\<close>

definition load_bound :: "('p, 'f) world \<Rightarrow> nat \<Rightarrow> bool" where
  "load_bound w L \<longleftrightarrow> (\<forall>n f p es. load w n f p = Inr es \<longrightarrow> length es \<le> L)"

lemma run_params_count:
  assumes "load_bound w L"
  shows "run_params w f vals ps n s = Inr (ps', n', s') \<Longrightarrow> 0 \<le> latencyCountTotal s \<Longrightarrow>
    latencyCountTotal s \<le> N \<Longrightarrow> N + int (length ps * L) < 2 ^ 53 \<Longrightarrow>
    0 \<le> latencyCountTotal s' \<and> latencyCountTotal s' < 2 ^ 53"
proof (induction ps arbitrary: n s ps' n' N)
  case (Cons p ps)
  obtain p' es s1 ps1 where s1: "load w n f p' = Inr es"
      "handle_calls es (setup_stats (get_min_msg_size w p') s) = Inr s1"
      "run_params w f vals ps (Suc n) s1 = Inr (ps1, n', s')"
    using Cons.prems(1) by (simp add: bindE_Inr_iff split: prod.splits) blast
  have len: "length es \<le> L" using assms s1(1) by (auto simp: load_bound_def)
  then have "int (length es) \<le> int L" by simp
  moreover have "N + int L + int (length ps * L) < 2 ^ 53" using Cons.prems(4) by simp
  moreover have "0 \<le> int (length ps * L)" by (rule of_nat_0_le_iff)
  ultimately have "N + int (length es) < 2 ^ 53" by linarith
  then have "0 \<le> latencyCountTotal s1 \<and> latencyCountTotal s1 \<le> N + int L"
    using handle_calls_count [OF s1(2), of N] Cons.prems(2,3) len by (simp add: setup_stats_def)
  then show ?case using Cons.IH [OF s1(3), of "N + int L"] Cons.prems(4) by (simp add: algebra_simps)
qed simp

lemma results_exist:
  assumes "0 \<le> latencyCountTotal s" and "latencyCountTotal s < 2 ^ 53"
  shows "\<exists>m. simple_results s = Inr m"
proof -
  have "wrap64 (1000 * latencyCountTotal s) = 1000 * latencyCountTotal s"
    using assms by (intro wrap64_nonneg) simp_all
  then show ?thesis by (auto simp: simple_results_def overallAverageLatency_def long_div_def)
qed

text \<open>What a result of a run holds, whatever the run was.\<close>

lemma results_fields:
  assumes "simple_results s = Inr m"
  shows "map_of m ''send-msg-rate'' = Some (JDouble (getSendRate s))"
    and "map_of m ''recv-msg-rate'' = Some (JDouble (getRecvRate s))"
    and "map_of m ''samples'' = Some (JList (map JMap (samples s)))"
  using assms by (auto simp: simple_results_def result_rates_def bindE_Inr_iff split: if_splits)

definition rate_keys :: "string list" where
  "rate_keys = [''send-msg-rate'', ''send-bytes-rate'', ''recv-msg-rate'', ''recv-bytes-rate'']"

lemma results_rates: "simple_results s = Inr m \<Longrightarrow> k \<in> set rate_keys \<Longrightarrow> \<exists>x. map_of m k = Some (JDouble x)"
  by (auto simp: rate_keys_def simple_results_def result_rates_def bindE_Inr_iff split: if_splits)

section \<open>The grid\<close>

text \<open>The variables of a scenario, from their names and values.\<close>

definition variables_of :: "(string \<times> jobj list) list \<Rightarrow> mvalue list list" where
  "variables_of nvs = map (\<lambda>(i, (name, vals)). multicast_variable i name vals) (enumerate 0 nvs)"

text \<open>
  A full grid: at least one variable, no two of the same name, each with values. A proper grid:
  the texts of the values of a variable differ as well.
\<close>

definition full_grid :: "(string \<times> jobj list) list \<Rightarrow> bool" where
  "full_grid nvs \<longleftrightarrow> nvs \<noteq> [] \<and> distinct (map fst nvs) \<and>
     (\<forall>(name, vals) \<in> set nvs. vals \<noteq> [] \<and> (\<forall>v \<in> set vals. \<exists>t. to_string v = Inr t))"

definition proper_grid :: "(string \<times> jobj list) list \<Rightarrow> bool" where
  "proper_grid nvs \<longleftrightarrow> full_grid nvs \<and> (\<forall>(name, vals) \<in> set nvs. distinct (map value_text vals))"

definition grid_texts :: "(string \<times> jobj list) list \<Rightarrow> string list list" where
  "grid_texts nvs = map (\<lambda>(name, vals). map value_text vals) nvs"

lemma variables_of_nth:
  assumes "i < length nvs"
  shows "map mv_value (variables_of nvs ! i) = snd (nvs ! i)"
    and "e \<in> set (variables_of nvs ! i) \<Longrightarrow> mv_name e = fst (nvs ! i)"
    and "map text_of (variables_of nvs ! i) = map value_text (snd (nvs ! i))"
proof -
  have v: "variables_of nvs ! i = multicast_variable i (fst (nvs ! i)) (snd (nvs ! i))"
    using assms by (simp add: variables_of_def nth_enumerate_eq case_prod_unfold)
  then show val: "map mv_value (variables_of nvs ! i) = snd (nvs ! i)"
    by (simp add: multicast_variable_def comp_def case_prod_unfold)
  show "e \<in> set (variables_of nvs ! i) \<Longrightarrow> mv_name e = fst (nvs ! i)"
    by (auto simp: v multicast_variable_def)
  have "map text_of (variables_of nvs ! i) = map value_text (map mv_value (variables_of nvs ! i))"
    by (simp add: text_of_def)
  then show "map text_of (variables_of nvs ! i) = map value_text (snd (nvs ! i))" by (simp only: val)
qed

lemma variables_of_length [simp]: "length (variables_of nvs) = length nvs"
  by (simp add: variables_of_def)

lemma map_product_lists: "map (map f) (product_lists xss) = product_lists (map (map f) xss)"
proof (induction xss)
  case (Cons xs xss)
  show ?case by (simp add: map_concat comp_def Cons.IH [symmetric])
qed simp

lemma variables_of_texts: "map (map text_of) (variables_of nvs) = grid_texts nvs"
  by (rule nth_equalityI) (simp_all add: grid_texts_def variables_of_nth case_prod_unfold)

lemma combination_in:
  assumes "k \<in> set (product_lists (variables_of nvs))"
  shows "length k = length nvs" and "map mv_name k = map fst nvs"
    and "i < length nvs \<Longrightarrow> k ! i \<in> set (variables_of nvs ! i)"
proof -
  have *: "list_all2 (\<lambda>x ys. x \<in> set ys) k (variables_of nvs)" using assms by (simp add: product_lists_set)
  then show len: "length k = length nvs" by (auto dest: list_all2_lengthD)
  show "k ! i \<in> set (variables_of nvs ! i)" if "i < length nvs" for i
    using list_all2_nthD [OF *] that len by simp
  then show "map mv_name k = map fst nvs"
    using len by (intro nth_equalityI) (simp_all add: variables_of_nth)
qed

lemma filter_key:
  "distinct (map f k) \<Longrightarrow> i < length k \<Longrightarrow> filter (\<lambda>e. f e = f (k ! i)) k = [k ! i]"
proof (induction k arbitrary: i)
  case (Cons e k)
  show ?case
  proof (cases i)
    case 0
    have others: "f x \<noteq> f e" if "x \<in> set k" for x
      using Cons.prems(1) imageI [OF that, of f] by auto
    from 0 show ?thesis using others by (simp add: filter_empty_conv)
  next
    case (Suc j)
    then show ?thesis using Cons by auto
  qed
qed simp

lemma column_texts:
  assumes "distinct (map fst nvs)" and "i < length nvs"
  shows "texts_named (fst (nvs ! i)) (concat (product_lists (variables_of nvs))) =
    map (\<lambda>k. text_of (k ! i)) (product_lists (variables_of nvs))"
proof -
  have "map text_of (filter (\<lambda>e. mv_name e = fst (nvs ! i)) k) = [text_of (k ! i)]"
    if "k \<in> set (product_lists (variables_of nvs))" for k
  proof -
    note c = combination_in [OF that]
    have "mv_name (k ! i) = fst (nvs ! i)" using c(1,2) assms(2) by (metis nth_map)
    then show ?thesis using filter_key [of mv_name k i] assms c by simp
  qed
  then have "texts_named (fst (nvs ! i)) (concat ks) = map (\<lambda>k. text_of (k ! i)) ks"
    if "set ks \<subseteq> set (product_lists (variables_of nvs))" for ks
    using that by (induction ks) (simp_all add: texts_named_def)
  then show ?thesis by simp
qed

lemma grid_variables:
  assumes "full_grid nvs"
  shows "[] \<notin> set (variables_of nvs)"
proof
  assume "[] \<in> set (variables_of nvs)"
  then obtain i where "i < length nvs" "variables_of nvs ! i = []" by (auto simp: in_set_conv_nth)
  then have "i < length nvs" "snd (nvs ! i) = []" using variables_of_nth(1) [of i nvs] by auto
  then show False using assms nth_mem [of i nvs] by (auto simp: full_grid_def case_prod_unfold)
qed

lemma grid_combinations: "full_grid nvs \<Longrightarrow> product_lists (variables_of nvs) \<noteq> []"
  using grid_variables product_lists_nonempty by blast

lemma grid_plain:
  assumes "full_grid nvs" and k: "k \<in> set (product_lists (variables_of nvs))" and e: "e \<in> set k"
  shows "plain_value e"
proof -
  obtain i where i: "i < length nvs" "e = k ! i" using e combination_in(1) [OF k] by (auto simp: in_set_conv_nth)
  then have "mv_value e \<in> set (snd (nvs ! i))"
    using combination_in(3) [OF k i(1)] variables_of_nth(1) [OF i(1)] by (metis image_eqI list.set_map)
  then show ?thesis using assms(1) nth_mem [OF i(1)] by (fastforce simp: full_grid_def plain_value_def case_prod_unfold)
qed

lemma grid_dimension_values:
  assumes "full_grid nvs"
  shows "\<exists>dv. dimension_values_of (product_lists (variables_of nvs)) = Inr dv \<and>
    (\<forall>(name, vals) \<in> set nvs. map_of dv name = Some (firsts (map value_text vals)))"
proof -
  let ?ks = "product_lists (variables_of nvs)"
  note nonempty = grid_variables [OF assms] and plain = grid_plain [OF assms]
  have "\<forall>key \<in> set ?ks. \<forall>e \<in> set key. plain_value e" using plain by blast
  then obtain dv where dv: "dimension_values_of ?ks = Inr dv" "tracks_texts (concat ?ks) dv"
    using dimension_values_tracks by blast
  have "map_of dv (fst (nvs ! i)) = Some (firsts (map value_text (snd (nvs ! i))))" if i: "i < length nvs" for i
  proof -
    have d: "distinct (map fst nvs)" using assms by (simp add: full_grid_def)
    have f: "firsts (texts_named (fst (nvs ! i)) (concat ?ks)) = firsts (map value_text (snd (nvs ! i)))"
      using column_firsts [OF nonempty, of i text_of] i by (simp add: column_texts [OF d i] variables_of_nth)
    obtain k where k: "k \<in> set ?ks" using grid_combinations [OF assms] by (cases ?ks) auto
    then have "k ! i \<in> set (concat ?ks)" "mv_name (k ! i) = fst (nvs ! i)"
      using combination_in [OF k] i by (force, metis nth_map)
    then show ?thesis using dv(2) f by (auto simp: tracks_texts_def)
  qed
  then show ?thesis using dv(1) by (fastforce simp: in_set_conv_nth)
qed

lemma distinct_texts:
  assumes "proper_grid nvs"
  shows "distinct (product_lists (grid_texts nvs))"
  using assms by (intro distinct_product_lists) (auto simp: grid_texts_def proper_grid_def)

lemma proper_firsts:
  "proper_grid nvs \<Longrightarrow> (name, vals) \<in> set nvs \<Longrightarrow> firsts (map value_text vals) = map value_text vals"
  by (intro firsts_distinct) (auto simp: proper_grid_def)

lemma map_of_rev: "distinct (map fst xs) \<Longrightarrow> map_of (rev xs) = map_of xs"
  by (subst map_of_inject_set) (simp_all add: rev_map [symmetric])

text \<open>The runs of a varying scenario have results, when the load is bounded.\<close>

lemma run_params_length: "run_params w f vals ps n s = Inr (ps', n', s') \<Longrightarrow> length ps' = length ps"
  by (induction ps arbitrary: n s ps') (auto simp: bindE_Inr_iff)

lemma run_combination_count:
  assumes "load_bound w L" and "length (vr_params st) * L < 2 ^ 53"
    and "run_combination w f vals st = Inr st'"
    and "\<forall>k s. map_of (vs_stats (vr_stats st)) k = Some s \<longrightarrow> (\<exists>m. simple_results s = Inr m)"
  shows "length (vr_params st') = length (vr_params st)"
    and "\<forall>k s. map_of (vs_stats (vr_stats st')) k = Some s \<longrightarrow> (\<exists>m. simple_results s = Inr m)"
proof -
  obtain s0 ps n s where s0: "new_stats 1000 (clock w (vr_count st)) = Inr s0"
      and s: "run_params w f vals (vr_params st) (Suc (vr_count st)) s0 = Inr (ps, n, s)"
      and st': "vs_stats (vr_stats st') = AList.update vals s (vs_stats (vr_stats st))" "vr_params st' = ps"
    using assms(3) by (auto simp: run_combination_def bindE_Inr_iff)
  show "length (vr_params st') = length (vr_params st)" using run_params_length [OF s] st'(2) by simp
  have "latencyCountTotal s0 = 0"
    using s0 by (auto simp: new_stats_def reset_def resetLastCounts_def split: if_splits)
  moreover have "int (length (vr_params st) * L) < int (2 ^ 53)" using assms(2) by (simp only: of_nat_less_iff)
  then have "0 + int (length (vr_params st) * L) < 2 ^ 53" by (simp only: of_nat_power of_nat_numeral add_0)
  ultimately have "\<exists>m. simple_results s = Inr m"
    using run_params_count [OF assms(1) s, of 0] results_exist by (metis order_refl)
  then show "\<forall>k s. map_of (vs_stats (vr_stats st')) k = Some s \<longrightarrow> (\<exists>m. simple_results s = Inr m)"
    using assms(4) by (simp add: st'(1) update_conv')
qed

lemma run_varying_results:
  assumes "load_bound w L" and "length ps * L < 2 ^ 53" and "run_varying w f ps vs n = Inr st"
    and "map_of (vs_stats (vr_stats st)) k = Some s"
  shows "\<exists>m. simple_results s = Inr m"
proof -
  define P where "P st \<longleftrightarrow> length (vr_params st) = length ps \<and>
      (\<forall>k s. map_of (vs_stats (vr_stats st)) k = Some s \<longrightarrow> (\<exists>m. simple_results s = Inr m))"
    for st :: "'a varying_run"
  have "P st"
  proof (rule foldE_inv [of P "run_combination w f"])
    show "foldE (run_combination w f) (product_lists vs)
      \<lparr>vr_params = ps, vr_count = n, vr_stats = \<lparr>vs_keys = [], vs_stats = []\<rparr>\<rparr> = Inr st"
      using assms(3) by (simp add: run_varying_def run_variables_product)
    show "P t'" if "P t" "run_combination w f x t = Inr t'" for x t t'
    proof -
      have t: "length (vr_params t) = length ps"
          "\<forall>k s. map_of (vs_stats (vr_stats t)) k = Some s \<longrightarrow> (\<exists>m. simple_results s = Inr m)"
        using that(1) unfolding P_def by blast+
      have lt: "length (vr_params t) * L < 2 ^ 53" unfolding t(1) by (rule assms(2))
      note c = run_combination_count [OF assms(1) lt that(2) t(2)]
      show ?thesis unfolding P_def using trans [OF c(1) t(1)] c(2) by (rule conjI)
    qed
  qed (simp add: P_def)
  then show ?thesis using assms(4) unfolding P_def by blast
qed

text \<open>Any varying scenario with values has results, also when texts coincide.\<close>

lemma varying_results_exist:
  assumes "run_varying w f ps vs n = Inr st" and "load_bound w L" and "length ps * L < 2 ^ 53"
    and "vs \<noteq> []" and "[] \<notin> set vs" and "\<forall>v \<in> set vs. \<forall>e \<in> set v. plain_value e"
  shows "\<exists>m. varying_results (vr_stats st) = Inr m"
proof -
  let ?ks = "product_lists vs" and ?sm = "vs_stats (vr_stats st)"
  have tr: "vs_keys (vr_stats st) = ?ks" "set ?ks = dom (map_of ?sm)"
    using run_varying_tracks [OF assms(1)] by (simp_all add: tracks_runs_def)
  have len: "length k = length vs \<and> (\<forall>e \<in> set k. plain_value e)" if "k \<in> set ?ks" for k
  proof -
    have k: "list_all2 (\<lambda>x ys. x \<in> set ys) k vs" using that by (simp add: product_lists_set)
    then have "\<exists>v \<in> set vs. e \<in> set v" if "e \<in> set k" for e
      using that by (metis in_set_conv_nth list_all2_conv_all_nth)
    then show ?thesis using assms(6) list_all2_lengthD [OF k] by blast
  qed
  have "\<exists>r. \<exists>s. map_of ?sm k = Some s \<and> simple_results s = Inr r" if "k \<in> set ?ks" for k
    using that tr(2) run_varying_results [OF assms(2,3,1)] by blast
  then obtain res where res: "\<forall>k \<in> set ?ks. \<exists>s. map_of ?sm k = Some s \<and> simple_results s = Inr (res k)"
    by metis
  obtain n0 where "length vs = Suc n0" using assms(4) by (cases vs) auto
  then obtain data where data: "foldE (add_run ?sm) ?ks [] = Inr data"
    using runs_data [of ?ks n0 ?sm res] res len by fastforce
  have "\<forall>k \<in> set ?ks. \<forall>e \<in> set k. plain_value e" using len by blast
  then obtain dv where dv: "dimension_values_of ?ks = Inr dv" using dimension_values_tracks by blast
  obtain k0 ks0 where "?ks = k0 # ks0"
    using assms(5) product_lists_nonempty [of vs] by (cases ?ks) auto
  then show ?thesis using dv data by (simp add: varying_results_def tr(1))
qed

text \<open>
  What can be read of the results of any full grid: the texts of each variable, each once, and
  under every combination of texts the results of a run.
\<close>

lemma foldE_add_run:
  "foldE (add_run sm) keys d = Inr data \<Longrightarrow> k \<in> set keys \<Longrightarrow>
   \<exists>s r. map_of sm k = Some s \<and> simple_results s = Inr r"
  by (induction keys arbitrary: d) (auto simp: bindE_Inr_iff add_run_def split: option.splits)

lemma grid_cover:
  assumes "full_grid nvs" and "run_varying w f ps (variables_of nvs) n = Inr st"
    and "varying_results (vr_stats st) = Inr m"
  shows "jpath (JMap m) [''dimensions''] = Some (strings (map fst nvs))"
    and "(name, vals) \<in> set nvs \<Longrightarrow>
      jpath (JMap m) [''dimension-values'', name] = Some (strings (firsts (map value_text vals)))"
    and "us \<in> set (product_lists (grid_texts nvs)) \<Longrightarrow>
      \<exists>k s r. map_of (vs_stats (vr_stats st)) k = Some s \<and> simple_results s = Inr r \<and>
        jpath (JMap m) (''data'' # us) = Some (JMap r)"
proof -
  let ?ks = "product_lists (variables_of nvs)" and ?sm = "vs_stats (vr_stats st)"
  have tr: "vs_keys (vr_stats st) = ?ks" using run_varying_tracks [OF assms(2)] by (simp add: tracks_runs_def)
  obtain k0 ks0 where ks: "?ks = k0 # ks0" using grid_combinations [OF assms(1)] by (cases ?ks) auto
  then have dims: "map mv_name k0 = map fst nvs" using combination_in(2) [of k0 nvs] by simp
  obtain dv data where dv: "dimension_values_of ?ks = Inr dv" and data: "foldE (add_run ?sm) ?ks [] = Inr data"
      and m: "m = put ''data'' (JMap data) (put ''dimension-values'' (JMap (map (\<lambda>(k, vals). (k, strings vals)) dv))
        (put ''dimensions'' (strings (map fst nvs)) []))"
    using assms(3) by (auto simp: varying_results_def tr ks dims bindE_Inr_iff simp del: foldE.simps)
  have at: "map_of (map (\<lambda>(k, vals). (k, strings vals)) dv) name = map_option strings (map_of dv name)" for name
    by (induction dv) auto
  show "jpath (JMap m) [''dimensions''] = Some (strings (map fst nvs))" by (simp add: m)
  show "jpath (JMap m) [''dimension-values'', name] = Some (strings (firsts (map value_text vals)))"
    if "(name, vals) \<in> set nvs"
    using grid_dimension_values [OF assms(1)] that by (auto simp: m at dv)
  have "\<exists>r. \<exists>s. map_of ?sm k = Some s \<and> simple_results s = Inr r" if "k \<in> set ?ks" for k
    using foldE_add_run [OF data that] by blast
  then obtain res where res: "\<forall>k \<in> set ?ks. \<exists>s. map_of ?sm k = Some s \<and> simple_results s = Inr (res k)"
    by metis
  obtain n0 where n0: "length nvs = Suc n0" using assms(1) by (cases nvs) (auto simp: full_grid_def)
  have "\<forall>k \<in> set ?ks. length k = Suc n0 \<and> (\<forall>e \<in> set k. plain_value e)"
    using combination_in(1) grid_plain [OF assms(1)] n0 by auto
  then obtain data' where "foldE (add_run ?sm) ?ks [] = Inr data'"
      "\<forall>us. length us = Suc n0 \<longrightarrow>
         jpath (JMap data') us = map_option JMap (map_of (rev (map (\<lambda>k. (texts k, res k)) ?ks)) us)"
    using runs_data [of ?ks n0 ?sm res] res by blast
  then have look: "length us = Suc n0 \<Longrightarrow>
      jpath (JMap data) us = map_option JMap (map_of (rev (map (\<lambda>k. (texts k, res k)) ?ks)) us)" for us
    using data by simp
  show "\<exists>k s r. map_of ?sm k = Some s \<and> simple_results s = Inr r \<and> jpath (JMap m) (''data'' # us) = Some (JMap r)"
    if "us \<in> set (product_lists (grid_texts nvs))"
  proof -
    have "map texts ?ks = product_lists (grid_texts nvs)"
      unfolding texts_def [abs_def] by (simp only: map_product_lists variables_of_texts)
    then have us: "us \<in> set (map texts ?ks)" using that by simp
    let ?es = "rev (map (\<lambda>k. (texts k, res k)) ?ks)"
    have "us \<in> fst ` set ?es" using us by force
    then have "map_of ?es us \<noteq> None" unfolding map_of_eq_None_iff by blast
    then obtain r where r: "map_of ?es us = Some r" by blast
    then have "(us, r) \<in> (\<lambda>k. (texts k, res k)) ` set ?ks" using map_of_SomeD [OF r] by (simp only: set_rev set_map)
    then obtain k where k: "k \<in> set ?ks" "r = res k" by blast
    then obtain s where "map_of ?sm k = Some s" "simple_results s = Inr r" using res by blast
    moreover have "length us = Suc n0" using us n0 combination_in(1) by (auto simp: texts_def)
    then have "jpath (JMap m) (''data'' # us) = Some (JMap r)" using look r by (simp add: m)
    ultimately show ?thesis by blast
  qed
qed

end
