(* ===== verification/Perf_Runs.thy ===== *)
theory Perf_Runs
  imports Perf_Grid
begin

text \<open>
  Whole runs of a specification: a grid that is written, a run that writes nothing, the rates
  a rate-vs-latency scenario attempts, and the connection all scenarios share.
\<close>

section \<open>Worlds in which every run succeeds\<close>

text \<open>
  The witnesses use worlds that set every property, start every run at time 0 and load every
  run with the same calls.
\<close>

definition steady :: "('p, 'f) world \<Rightarrow> call list \<Rightarrow> bool" where
  "steady w es \<longleftrightarrow> (\<forall>n. clock w n = 0) \<and> (\<forall>n f p. load w n f p = Inr es) \<and>
     (\<forall>p k v. \<exists>p'. set_value w p k v = Inr p') \<and> well_timed 0 es \<and> small_load es"

lemma steady_setup: "steady w es \<Longrightarrow> \<exists>p'. foldE (setup_value w) vals p = Inr p'"
  by (induction vals arbitrary: p) (auto simp: setup_value_def steady_def, metis bindE_simps(2))

lemma steady_calls:
  assumes "steady w es"
  shows "\<exists>s. handle_calls es (setup_stats sz demo_stats) = Inr s \<and> tracks 1000000000 0 sz (run_of 1000000000 0 es) s"
  using handle_calls_tracks [OF new_stats_tracks [OF demo_new], of es sz] assms by (auto simp: steady_def)

lemma steady_params:
  assumes "steady w es"
  shows "\<exists>p' n' s'. run_params w f vals [p] n demo_stats = Inr ([p'], n', s')"
proof -
  obtain p' where p': "foldE (setup_value w) vals p = Inr p'" using steady_setup [OF assms] by blast
  have "load w n f p = Inr es" for n f p using assms by (simp add: steady_def)
  then show ?thesis using p' steady_calls [OF assms, of "get_min_msg_size w p'"] by auto
qed

lemma steady_combination:
  assumes "steady w es" and "length (vr_params st) = 1"
  shows "\<exists>st'. run_combination w f k st = Inr st' \<and> length (vr_params st') = 1"
proof -
  obtain p where p: "vr_params st = [p]" using assms(2) by (auto simp: length_Suc_conv)
  have "clock w n = 0" for n using assms(1) by (simp add: steady_def)
  moreover obtain p' n' s' where "run_params w f k [p] (Suc (vr_count st)) demo_stats = Inr ([p'], n', s')"
    using steady_params [OF assms(1)] by blast
  ultimately show ?thesis by (simp add: run_combination_def demo_new p del: run_params.simps)
qed

lemma steady_varying:
  assumes "steady w es"
  shows "\<exists>st. run_varying w f [p] vs n = Inr st"
proof -
  have "\<exists>st'. foldE (run_combination w f) ks st = Inr st'" if "length (vr_params st) = 1" for ks st
    using that
  proof (induction ks arbitrary: st)
    case (Cons k ks)
    then show ?case using steady_combination [OF assms Cons.prems, of f k] by fastforce
  qed simp
  then show ?thesis by (simp add: run_varying_def run_variables_product)
qed

lemma demo_steady: "steady demo_world [(Send, 10), (Recv 4000, 1000000000)]"
  by (simp add: steady_def demo_world_def well_timed_def small_load_def lats_def map_filter_def)

lemma demo_clock: "clock demo_world n = 0"
  by (simp add: demo_world_def)

lemma demo_bound: "load_bound demo_world 2"
  by (auto simp: load_bound_def demo_world_def)

lemma demo_simple:
  "\<exists>p' n' s r. run_simple demo_world f 1000 [p] n = Inr ([p'], n', s) \<and> simple_results s = Inr r"
proof -
  obtain p' n' s where s: "run_params demo_world f [] [p] (Suc n) demo_stats = Inr ([p'], n', s)"
    using steady_params [OF demo_steady] by blast
  have "latencyCountTotal demo_stats = 0"
    by (simp add: demo_stats_def new_stats_def long_min_def long_max_def resetLastCounts_def reset_def)
  then have "0 \<le> latencyCountTotal s \<and> latencyCountTotal s < 2 ^ 53"
    using run_params_count [OF demo_bound s, of 0] by simp
  then obtain r where "simple_results s = Inr r" using results_exist by blast
  then show ?thesis using s by (simp add: run_simple_def demo_clock demo_new del: run_params.simps)
qed

lemma demo_results:
  assumes "vs \<noteq> []" and "[] \<notin> set vs" and "\<forall>v \<in> set vs. \<forall>e \<in> set v. plain_value e"
  shows "\<exists>st m. run_varying demo_world f [p] vs n = Inr st \<and> varying_results (vr_stats st) = Inr m"
proof -
  obtain st where st: "run_varying demo_world f [p] vs n = Inr st" using steady_varying [OF demo_steady] by blast
  from varying_results_exist [OF this demo_bound _ assms] this show ?thesis by auto
qed

lemma demo_grid:
  assumes "full_grid nvs"
  shows "\<exists>st m. run_varying demo_world f [p] (variables_of nvs) n = Inr st \<and> varying_results (vr_stats st) = Inr m"
proof (rule demo_results)
  show "variables_of nvs \<noteq> []" using assms by (auto simp: variables_of_def full_grid_def enumerate_eq_zip)
  show "\<forall>v \<in> set (variables_of nvs). \<forall>e \<in> set v. plain_value e"
    using assms by (auto simp: variables_of_def multicast_variable_def full_grid_def plain_value_def in_set_enumerate_eq
        case_prod_unfold dest!: nth_mem)
qed (rule grid_variables [OF assms])

definition demo_variables :: "(string \<times> jobj list) list" where
  "demo_variables = [(''minMsgSize'', [JString ''12'', JString ''24'']), (''producerCount'', [JString ''1''])]"

lemma demo_proper: "proper_grid demo_variables"
  by (simp add: proper_grid_def full_grid_def demo_variables_def value_text_def)

text \<open>
  C15: a varying scenario writes its grid. When the loads run without an exception, the results
  have the names of the variables as dimensions, the texts of the values of each variable in
  the order of the specification, and for every combination of texts exactly the results of
  the run with these values, none replaced by another.
\<close>

theorem varying_results_grid:
  assumes "proper_grid nvs" and "run_varying w f ps (variables_of nvs) n = Inr st"
    and "load_bound w L" and "length ps * L < 2 ^ 53"
  shows "\<exists>m. varying_results (vr_stats st) = Inr m \<and>
    jpath (JMap m) [''dimensions''] = Some (strings (map fst nvs)) \<and>
    (\<forall>(name, vals) \<in> set nvs. jpath (JMap m) [''dimension-values'', name] = Some (strings (map value_text vals))) \<and>
    (\<forall>k \<in> set (product_lists (variables_of nvs)). \<exists>s r. map_of (vs_stats (vr_stats st)) k = Some s \<and>
       simple_results s = Inr r \<and> jpath (JMap m) (''data'' # texts k) = Some (JMap r))"
proof -
  have full: "full_grid nvs" using assms(1) by (simp add: proper_grid_def)
  let ?ks = "product_lists (variables_of nvs)" and ?sm = "vs_stats (vr_stats st)"
  have tr: "vs_keys (vr_stats st) = ?ks" "set ?ks = dom (map_of ?sm)"
    using run_varying_tracks [OF assms(2)] by (simp_all add: tracks_runs_def)
  define res where "res k = (SOME r. \<exists>s. map_of ?sm k = Some s \<and> simple_results s = Inr r)" for k
  have res: "\<exists>s. map_of ?sm k = Some s \<and> simple_results s = Inr (res k)" if k: "k \<in> set ?ks" for k
    unfolding res_def using k tr(2) run_varying_results [OF assms(3,4,2)]
    by (intro someI_ex [of "\<lambda>r. \<exists>s. map_of ?sm k = Some s \<and> simple_results s = Inr r"]) blast
  obtain dv where dv: "dimension_values_of ?ks = Inr dv"
      "\<forall>(name, vals) \<in> set nvs. map_of dv name = Some (map value_text vals)"
    using grid_dimension_values [OF full] proper_firsts [OF assms(1)] by fastforce
  obtain n0 where n0: "length nvs = Suc n0" using full by (cases nvs) (auto simp: full_grid_def)
  have plain: "\<forall>e \<in> set k. plain_value e" if k: "k \<in> set ?ks" for k
    using grid_plain [OF full k] by blast
  obtain data where data: "foldE (add_run ?sm) ?ks [] = Inr data"
      "\<forall>us. length us = Suc n0 \<longrightarrow>
         jpath (JMap data) us = map_option JMap (map_of (rev (map (\<lambda>k. (texts k, res k)) ?ks)) us)"
    using runs_data [of ?ks n0 ?sm res] res plain combination_in(1) n0 by fastforce
  have "map texts ?ks = product_lists (grid_texts nvs)"
    unfolding texts_def [abs_def] by (simp only: map_product_lists variables_of_texts)
  then have "distinct (map fst (map (\<lambda>k. (texts k, res k)) ?ks))"
    using distinct_texts [OF assms(1)] by (simp add: comp_def)
  note rev = map_of_rev [OF this] and at = map_of_is_SomeI [OF this]
  have run: "jpath (JMap data) (texts k) = Some (JMap (res k))" if k: "k \<in> set ?ks" for k
  proof -
    have "length (texts k) = Suc n0" using combination_in(1) [OF k] n0 by (simp add: texts_def)
    then show ?thesis using data(2) rev at [of "texts k" "res k"] k by simp
  qed
  obtain k0 ks0 where ks: "?ks = k0 # ks0"
    using grid_combinations [OF full] by (cases ?ks) auto
  then have dims: "map mv_name k0 = map fst nvs" using combination_in(2) [of k0 nvs] by simp
  define m where "m = put ''data'' (JMap data)
      (put ''dimension-values'' (JMap (map (\<lambda>(k, vals). (k, strings vals)) dv))
      (put ''dimensions'' (strings (map fst nvs)) []))"
  have "varying_results (vr_stats st) = Inr m"
    using dv(1) data(1) by (simp add: varying_results_def tr(1) ks dims m_def)
  moreover have "map_of (map (\<lambda>(k, vals). (k, strings vals)) dv) name = map_option strings (map_of dv name)" for name
    by (induction dv) auto
  ultimately show ?thesis using dv(2) run res by (fastforce simp: m_def)
qed

theorem varying_results_grid_witness:
  "\<exists>st m. run_varying demo_world () [0] (variables_of demo_variables) 0 = Inr st \<and>
    varying_results (vr_stats st) = Inr m \<and>
    jpath (JMap m) [''dimension-values'', ''minMsgSize''] = Some (strings [''12'', ''24''])"
proof -
  obtain st where st: "run_varying demo_world () [0] (variables_of demo_variables) 0 = Inr st"
    using steady_varying [OF demo_steady] by blast
  from varying_results_grid [OF demo_proper this demo_bound] st show ?thesis
    by (fastforce simp: demo_variables_def value_text_def)
qed

section \<open>A variable without values\<close>

lemma run_tests_stop:
  assumes "sc \<in> set scs" and "\<forall>n. \<exists>e. run_scenario w f sc n = Inl e"
  shows "\<exists>e. run_tests w f scs n res = Inl e"
  using assms(1)
proof (induction scs arbitrary: n res)
  case (Cons sc' scs)
  show ?case
  proof (cases "run_scenario w f sc' n")
    case (Inr r)
    then show ?thesis using Cons assms(2) by (cases r) (metis Inl_Inr_False bindE_simps(2) prod.case run_tests.simps(2) set_ConsD)
  qed simp
qed simp

text \<open>
  A scenario that varies a variable without values has no run, and its results cannot be
  computed: there is no first combination to read the dimensions from. The exception ends
  the program after the scenarios before it have run, and no output file is written, not
  even with their results.
\<close>

theorem empty_variable_writes_nothing:
  assumes "make_scenarios w spec f = Inr (scs, f')" and "Varying name ps vs \<in> set scs" and "[] \<in> set vs"
  shows "\<exists>e. perf_test_multi w spec f = Inl e"
proof -
  have "\<exists>e. run_scenario w f' (Varying name ps vs) n = Inl e" for n
  proof (cases "run_varying w f' ps vs n")
    case (Inr st)
    have "product_lists vs = []" using assms(3) product_lists_nonempty by blast
    then have "vs_keys (vr_stats st) = []" using run_varying_tracks [OF Inr] by (simp add: tracks_runs_def)
    then show ?thesis by (simp add: Inr varying_results_def)
  qed simp
  then obtain e where "run_tests w f' scs 0 [] = Inl e"
    using run_tests_stop [OF assms(2), of w f'] by blast
  then show ?thesis by (simp add: perf_test_multi_def assms(1))
qed

definition empty_spec :: "jobj list" where
  "empty_spec = demo_spec @ [JMap [(''name'', JString ''v''), (''type'', JString ''varying''),
     (''params'', JList [JMap []]), (''variables'', JList [JMap [(''name'', JString ''rate''), (''values'', JList [])]])]]"

theorem empty_variable_writes_nothing_witness:
  "\<exists>e. perf_test_multi demo_world empty_spec () = Inl e"
proof -
  have "make_scenarios demo_world empty_spec () = Inr ([Simple ''s'' 1000 [0], Varying ''v'' [0] [[]]], ())"
    by (simp add: demo_world_def empty_spec_def demo_spec_def from_json_def read_required_def read_default_def
        read0_def connect_def params_from_json_def Let_def to_int_simps variable_from_json_def multicast_variable_def
        mapJsonFieldToPropertyName_def json_fields_def del: to_int.simps(4))
  from empty_variable_writes_nothing [OF this, of "''v''" "[0]" "[[]]"] show ?thesis by simp
qed

section \<open>The rates a rate-vs-latency scenario attempts\<close>

text \<open>
  The messages measured, over the milliseconds measured, make at most a quarter of a million
  messages per second.
\<close>

definition moderate :: "stats \<Rightarrow> bool" where
  "moderate s \<longleftrightarrow> (\<forall>b. send_rate_in_ms s = Fin b \<or> recv_rate_in_ms s = Fin b \<longrightarrow> b \<le> 2 ^ 18)"

lemma rnd_le_one: "0 \<le> q \<Longrightarrow> q \<le> 1 \<Longrightarrow> \<exists>r. rnd q = Fin r \<and> 0 \<le> r \<and> r \<le> 1"
proof (cases "q = 0")
  case False
  assume q: "0 \<le> q" "q \<le> 1"
  have "rnd_mag 1 = 1" using rnd_mag_exact [of 1 0] by simp
  then have "rnd_mag q \<le> 1" using rnd_mag_mono [of q 1] q False by simp
  moreover have "0 \<le> rnd_mag q" using q False by (intro rnd_mag_binade(3)) simp
  moreover have "bpow 2 0 < bpow 2 1024" by (simp only: bpow_less_iff)
  ultimately show ?thesis using q False by (auto simp: rnd_def Let_def)
qed simp

lemma max_rate_zero:
  assumes "getSendRate s = Fin a" "getRecvRate s = Fin b" "0 \<le> a" "0 \<le> b" "a \<le> 1 / 2" "b \<le> 1 / 2"
  shows "max_rate s = 0"
proof -
  obtain r where r: "rnd (b + a) = Fin r" "0 \<le> r" "r \<le> 1" using rnd_le_one [of "b + a"] assms by auto
  have "0 \<le> \<lfloor>r\<rfloor>" "\<lfloor>r\<rfloor> \<le> 1" using r by (simp_all add: floor_le_iff)
  then have "\<lfloor>r\<rfloor> = 0 \<or> \<lfloor>r\<rfloor> = 1" by linarith
  then show ?thesis
    using r by (auto simp: max_rate_def assms(1,2) trunc_def int_min_def int_max_def quot_def)
qed

lemma rate_limits_zero: "rate_limits 0 = replicate 17 (JInt 0)"
proof -
  have "to_int (rnd q * of_long 0) = 0" for q
    by (cases "rnd q") (auto simp: of_long_def trunc_def int_min_def int_max_def)
  then show ?thesis by (simp add: rate_limits_def rate_factors_def eval_nat_numeral)
qed

text \<open>
  C34: what the wrong unit does to a rate-vs-latency scenario. When the probing run, however it
  ends, has at least five samples and the messages it measured after the warm-up make at most a
  quarter of a million per second, sent and received each, the maximal rate it derives is 0; the
  seventeen runs made are all made with the rate limit 0; and the results have the single value
  \<open>0\<close> for \<open>producerRateLimit\<close>, so that the chart has one point, of the last run, instead of
  seventeen. (The bounds on the calls and the clock of the probing run are those of
  \<open>overall_rates_unit\<close>, its interval is the second the scenario asks for, and the runs end
  without an exception.)
\<close>

theorem rate_vs_latency_degenerate:
  assumes "run_simple w f 1000 [p] n = Inr (ps, n', s)"
    and "load w (Suc n) f p = Inr es" and "well_timed (clock w n) es" and "small_load es"
    and "Reset_Globals \<notin> fst ` set es" and "\<forall>c \<in> set es. snd c - clock w n < 2 ^ 53"
    and "5 \<le> length (samples s)" and "moderate s"
    and "run_rate_vs_latency w f p n = Inr st" and "varying_results (vr_stats st) = Inr m"
  shows "max_rate s = 0 \<and>
    map (map (\<lambda>e. (mv_name e, mv_value e))) (vs_keys (vr_stats st)) = replicate 17 [(''producerRateLimit'', JInt 0)] \<and>
    jpath (JMap m) [''dimension-values'', ''producerRateLimit''] = Some (strings [''0''])"
proof -
  obtain s0 where s0: "new_stats 1000 (clock w n) = Inr s0"
      "handle_calls es (setup_stats (get_min_msg_size w p) s0) = Inr s"
    using assms(1,2) by (auto simp: run_simple_def bindE_Inr_iff)
  note small = overall_rates_small [OF s0(1) assms(3,4,5) s0(2) _ assms(6,7), simplified]
  obtain a x where a: "getSendRate s = Fin a" "0 \<le> a" "2 ^ 19 * a \<le> x" "x \<le> 2 ^ 18"
    using small(1) assms(8) unfolding moderate_def by fastforce
  obtain b y where b: "getRecvRate s = Fin b" "0 \<le> b" "2 ^ 19 * b \<le> y" "y \<le> 2 ^ 18"
    using small(2) assms(8) unfolding moderate_def by fastforce
  have zero: "max_rate s = 0"
    using a b by (intro max_rate_zero [OF a(1) b(1)]) simp_all
  let ?v = "multicast_variable 0 ''producerRateLimit'' (replicate 17 (JInt 0))"
  have "run_varying w f ps [?v] n' = Inr st"
    using assms(1,9) by (simp add: run_rate_vs_latency_def zero rate_limits_zero)
  then have keys: "vs_keys (vr_stats st) = product_lists [?v]"
    using run_varying_tracks by (fastforce simp: tracks_runs_def)
  have v: "\<forall>e \<in> set ?v. mv_name e = ''producerRateLimit'' \<and> mv_value e = JInt 0"
    by (auto simp: multicast_variable_def in_set_enumerate_eq)
  then have plain: "\<forall>k \<in> set (product_lists [?v]). \<forall>e \<in> set k. plain_value e"
    by (auto simp: plain_value_def)
  obtain dv where dv: "dimension_values_of (product_lists [?v]) = Inr dv" "tracks_texts (concat (product_lists [?v])) dv"
    using dimension_values_tracks [OF plain] by blast
  have ks: "concat (product_lists [?v]) = ?v" by simp
  have "texts_named ''producerRateLimit'' ?v = replicate 17 (text_of (hd ?v))"
  proof -
    have "filter (\<lambda>e. mv_name e = ''producerRateLimit'') ?v = ?v" using v by (auto simp: filter_id_conv)
    moreover have "map text_of ?v = replicate (length ?v) (value_text (JInt 0))"
      using v by (intro replicate_eqI) (auto simp: text_of_def)
    moreover have "length ?v = 17" "hd ?v \<in> set ?v" by (simp_all add: multicast_variable_def eval_nat_numeral)
    ultimately show ?thesis using v by (simp add: texts_named_def text_of_def)
  qed
  moreover have "text_of (hd ?v) = ''0''"
    using v by (simp add: text_of_def multicast_variable_def eval_nat_numeral value_text_def int_text_def dec.simps digit_chr_0)
  ultimately have "firsts (texts_named ''producerRateLimit'' ?v) = [''0'']"
    by (simp add: firsts_def foldl_add_new_replicate add_new_def)
  moreover have "\<exists>e \<in> set ?v. mv_name e = ''producerRateLimit''"
    by (simp add: multicast_variable_def eval_nat_numeral)
  ultimately have at: "map_of dv ''producerRateLimit'' = Some [''0'']"
    using dv(2) unfolding ks tracks_texts_def by auto
  have "map_of (map (\<lambda>(k, vals). (k, strings vals)) dv) name = map_option strings (map_of dv name)" for name
    by (induction dv) auto
  then have "jpath (JMap m) [''dimension-values'', ''producerRateLimit''] = Some (strings [''0''])"
    using assms(10) dv(1) at by (auto simp: varying_results_def keys bindE_Inr_iff split: list.splits)
  moreover have "map (map (\<lambda>e. (mv_name e, mv_value e))) (vs_keys (vr_stats st)) =
      replicate 17 [(''producerRateLimit'', JInt 0)]"
    by (simp add: keys multicast_variable_def eval_nat_numeral)
  ultimately show ?thesis by (simp add: zero)
qed

text \<open>A probing run of five seconds with one message a second.\<close>

definition slow_calls :: "call list" where
  "slow_calls = map (\<lambda>i. (Send, i * 1000000000)) [1, 2, 3, 4, 5]"

definition slow_world :: "(int, unit) world" where
  "slow_world = demo_world\<lparr>load := (\<lambda>n f p. Inr slow_calls)\<rparr>"

lemma slow_run:
  "run_of 1000000000 0 slow_calls =
     \<lparr>r_closed = map (\<lambda>i. \<lparr>w_from = i * 1000000000, w_to = (i + 1) * 1000000000, w_calls = [Send]\<rparr>) [0, 1, 2, 3, 4],
      r_opened = 5000000000, r_pending = []\<rparr>"
  by (simp add: run_of_def slow_calls_def step_run_def reports_def)

lemma slow_calls_ok:
  "well_timed 0 slow_calls" "small_load slow_calls" "Reset_Globals \<notin> fst ` set slow_calls"
  "\<forall>c \<in> set slow_calls. snd c - 0 < 2 ^ 53"
  by (simp_all add: well_timed_def small_load_def slow_calls_def lats_def map_filter_def)

lemma slow_moderate:
  assumes "tracks 1000000000 0 sz (run_of 1000000000 0 slow_calls) s"
    and "tracks_totals (measured_calls (run_of 1000000000 0 slow_calls)) s"
  shows "5 \<le> length (samples s)" and "moderate s"
proof -
  show "5 \<le> length (samples s)" using assms(1) by (simp add: tracks_def slow_run)
  have "sendCountTotal s = 1" "recvCountTotal s = 0" "measured_time s = 1000000000"
    using assms by (simp_all add: tracks_def tracks_totals_def slow_run sends_def recvs_def is_recv_def
        measured_calls_def measured_windows_def measured_time_def measured_from_def warm_up_def IGNORE_FIRST_def)
  then have r: "send_rate_in_ms s = rate 1 1000" "recv_rate_in_ms s = rate 0 1000"
    by (simp_all add: send_rate_in_ms_def recv_rate_in_ms_def)
  have "bpow 2 (- 100) \<le> 1 / 1000" by (simp add: bpow_def)
  then have "bpow 2 0 * rate_of (1 / 1000) \<le> rate_of 1" by (intro rate_of_scale) simp_all
  moreover have "rate_of 1 = 1000" using rnd_mag_exact [of 1 0] rnd_mag_exact [of 1000 0] by (simp add: rate_of_def)
  ultimately have "rate_of (1 / 1000) \<le> 2 ^ 18" by simp
  moreover have "rate 1 1000 = Fin (rate_of (1 / 1000))" using rate_Fin [of 1 1000] by simp
  moreover have "rate 0 1000 = Fin 0" using rate_Fin [of 0 1000] by (simp add: rate_of_def)
  ultimately show "moderate s" by (auto simp: moderate_def r)
qed

theorem rate_vs_latency_degenerate_witness:
  "\<exists>s st m. run_simple slow_world () 1000 [0] 0 = Inr ([0], 2, s) \<and>
     run_rate_vs_latency slow_world () 0 0 = Inr st \<and> varying_results (vr_stats st) = Inr m \<and>
     length (vs_keys (vr_stats st)) = 17 \<and>
     jpath (JMap m) [''dimension-values'', ''producerRateLimit''] = Some (strings [''0''])"
proof -
  have load: "load slow_world k f p = Inr slow_calls" for k f p by (simp add: slow_world_def)
  have clock: "clock slow_world k = 0" for k by (simp add: slow_world_def demo_world_def)
  have steady: "steady slow_world slow_calls"
    using slow_calls_ok by (simp add: steady_def slow_world_def demo_world_def)
  obtain s where s: "handle_calls slow_calls (setup_stats (get_min_msg_size slow_world 0) demo_stats) = Inr s"
      "tracks 1000000000 0 (get_min_msg_size slow_world 0) (run_of 1000000000 0 slow_calls) s"
    using steady_calls [OF steady] by blast
  have totals: "tracks_totals (measured_calls (run_of 1000000000 0 slow_calls)) s"
    using run_tracked(2) [OF demo_new slow_calls_ok(1,2) _ slow_calls_ok(3)] s(1) by simp
  have simple: "run_simple slow_world () 1000 [0] 0 = Inr ([0], 2, s)"
    by (simp add: run_simple_def clock demo_new load s(1) numeral_2_eq_2)
  obtain st where st: "run_rate_vs_latency slow_world () 0 0 = Inr st"
    using steady_varying [OF steady] by (fastforce simp: run_rate_vs_latency_def simple)
  have bound: "load_bound slow_world 5" by (auto simp: load_bound_def load slow_calls_def)
  obtain vs k where "run_varying slow_world () [0] [multicast_variable 0 ''producerRateLimit'' vs] k = Inr st"
      "vs = rate_limits (max_rate s)"
    using st by (auto simp: run_rate_vs_latency_def simple)
  then obtain m where m: "varying_results (vr_stats st) = Inr m"
    using varying_results_exist [OF _ bound, of "()" "[0]" "[multicast_variable 0 ''producerRateLimit'' vs]" k st]
    by (auto simp: multicast_variable_def rate_limits_def rate_factors_def plain_value_def)
  have c: "clock slow_world 0 = 0" by (rule clock)
  note r = rate_vs_latency_degenerate [OF simple load, unfolded c, OF slow_calls_ok slow_moderate [OF s(2) totals] st m]
  from r have "length (map (map (\<lambda>e. (mv_name e, mv_value e))) (vs_keys (vr_stats st))) = 17"
    by (simp only: length_replicate)
  then have "length (vs_keys (vr_stats st)) = 17" by (simp only: length_map)
  with simple st m r show ?thesis by blast
qed

end
