(* ===== verification/Perf_Written.thy ===== *)
theory Perf_Written
  imports Perf_Runs Perf_Charts_Spec
begin

text \<open>
  The result file between the two programs: what the Java program prints and what the page
  reads. Gson prints the object, \<open>JSON.parse\<close> reads the text; the relation \<open>rep\<close> says which
  values of the page an object can become, whatever order the keys are printed in.
\<close>

section \<open>From an object to a value of the page\<close>

text \<open>
  Integers are printed in full and read as the nearest double, doubles with digits that read
  back as the same double; a map becomes an object with the same keys.
\<close>

inductive rep :: "jobj \<Rightarrow> jsv \<Rightarrow> bool" where
  rep_null: "rep JNull Null"
| rep_bool: "rep (JBool b) (Bool b)"
| rep_int: "rep (JInt i) (Num (of_long i))"
| rep_long: "rep (JLong i) (Num (of_long i))"
| rep_double: "rep (JDouble (Fin q)) (Num (Fin q))"
| rep_string: "rep (JString s) (Str s)"
| rep_list: "list_all2 rep xs ys \<Longrightarrow> rep (JList xs) (Arr ys)"
| rep_map: "distinct (map fst ps) \<Longrightarrow> set (map fst ps) = set (map fst m) \<Longrightarrow>
    (\<forall>k x. map_of m k = Some x \<longrightarrow> (\<exists>y. map_of ps k = Some y \<and> rep x y)) \<Longrightarrow> rep (JMap m) (Obj ps)"

inductive_cases rep_doubleE [elim!]: "rep (JDouble x) v"
inductive_cases rep_longE [elim!]: "rep (JLong i) v"
inductive_cases rep_stringE [elim!]: "rep (JString s) v"
inductive_cases rep_listE: "rep (JList xs) v"
inductive_cases rep_mapE: "rep (JMap m) v"

text \<open>Every writable object without \<open>null\<close> has such a value: the one in its own order of keys.\<close>

fun to_js :: "jobj \<Rightarrow> jsv" where
  "to_js JNull = Null"
| "to_js (JBool b) = Bool b"
| "to_js (JInt i) = Num (of_long i)"
| "to_js (JLong i) = Num (of_long i)"
| "to_js (JDouble x) = Num x"
| "to_js (JString s) = Str s"
| "to_js (JList xs) = Arr (map to_js xs)"
| "to_js (JMap m) = Obj (map (\<lambda>e. (fst e, to_js (snd e))) m)"

lemma rep_to_js: "writable j \<Longrightarrow> rep j (to_js j)"
proof (induction j rule: to_js.induct)
  case (5 x)
  then show ?case by (cases x) (auto intro: rep_double)
next
  case (7 xs)
  then show ?case by (auto intro!: rep_list simp: list_all2_conv_all_nth)
next
  case (8 m)
  have "map_of (map (\<lambda>e. (fst e, to_js (snd e))) m) k = map_option to_js (map_of m k)" for k
    by (induction m) auto
  moreover have "rep x (to_js x)" if "map_of m k = Some x" for k x
    using 8 that by (auto dest!: map_of_SomeD)
  ultimately show ?case using 8(2) by (auto intro!: rep_map simp: comp_def)
qed (auto intro: rep.intros)

section \<open>Paths\<close>

lemma rep_path:
  "rep j v \<Longrightarrow> jpath j ks = Some x \<Longrightarrow> \<exists>y. path v ks = Some y \<and> rep x y"
proof (induction j ks arbitrary: v rule: jpath.induct)
  case (2 m k ks)
  then obtain u where u: "map_of m k = Some u" "jpath u ks = Some x" by (auto split: option.splits)
  from 2(2) obtain ps where ps: "v = Obj ps" "\<exists>y. map_of ps k = Some y \<and> rep u y"
    using u(1) by (elim rep_mapE) auto
  then obtain y where y: "map_of ps k = Some y" "rep u y" by blast
  then show ?case using "2.IH" [OF u(1) y(2) u(2)] by (simp add: ps(1))
qed auto

lemma rep_strings:
  assumes "rep (strings ss) v"
  shows "v = Arr (map Str ss)"
proof -
  obtain ys where v: "v = Arr ys" "list_all2 rep (map JString ss) ys"
    using assms by (auto simp: strings_def elim: rep_listE)
  then have "ys = map Str ss"
    by (intro nth_equalityI) (auto simp: list_all2_conv_all_nth)
  then show ?thesis using v by simp
qed

lemma rep_Obj: "rep (JMap m) v \<Longrightarrow> \<exists>ps. v = Obj ps"
  by (elim rep_mapE) auto

section \<open>Every scenario is in the file\<close>

lemma run_tests_keeps:
  "run_tests w f scs n res = Inr m \<Longrightarrow> k \<notin> scenario_name ` set scs \<Longrightarrow> map_of m k = map_of res k"
  by (induction scs arbitrary: n res) (auto simp: bindE_Inr_iff)

lemma run_tests_results:
  "run_tests w f scs n res = Inr m \<Longrightarrow> distinct (map scenario_name scs) \<Longrightarrow> sc \<in> set scs \<Longrightarrow>
   \<exists>k r k'. run_scenario w f sc k = Inr (r, k') \<and> map_of m (scenario_name sc) = Some (JMap r)"
proof (induction scs arbitrary: n res)
  case (Cons sc' scs)
  then obtain r n' where r: "run_scenario w f sc' n = Inr (r, n')"
      "run_tests w f scs n' (put (scenario_name sc') (JMap r) res) = Inr m"
    by (auto simp: bindE_Inr_iff)
  show ?case
  proof (cases "sc = sc'")
    case True
    then have "map_of m (scenario_name sc) = Some (JMap r)"
      using run_tests_keeps [OF r(2), of "scenario_name sc'"] Cons.prems(2) by simp
    then show ?thesis using r(1) True by blast
  next
    case False
    then show ?thesis using Cons.IH [OF r(2)] Cons.prems by auto
  qed
qed simp

section \<open>Samples have a time\<close>

definition timed_samples :: "stats \<Rightarrow> bool" where
  "timed_samples s \<longleftrightarrow> (\<forall>m \<in> set (samples s). \<exists>e. map_of m ''elapsed'' = Some (JLong e))"

lemma timed_report: "timed_samples s \<Longrightarrow> report now s = Inr s' \<Longrightarrow> timed_samples s'"
  by (auto simp: timed_samples_def report_def Let_def report_sample_def bindE_Inr_iff new_sample_def
      sample_rates_def reset_def resetLastCounts_def drop_warm_up_def split: if_splits)

lemma timed_count: "timed_samples (count_call h s) = timed_samples s"
  by (cases h) (auto simp: timed_samples_def count_latency_def)

lemma timed_called: "timed_samples s \<Longrightarrow> handle_call h now s = Inr s' \<Longrightarrow> timed_samples s'"
proof (cases "reports h")
  case True
  then show "timed_samples s \<Longrightarrow> handle_call h now s = Inr s' \<Longrightarrow> timed_samples s'"
    using timed_report [of "count_call h s" now s'] by (simp add: handle_call_reports timed_count)
next
  case False
  then have "h = Maybe_Reset_Gauges \<or> h = Reset_Globals" by (auto simp: reports_def)
  moreover have "timed_samples s \<Longrightarrow> timed_samples (maybeResetGauges now s)"
      "timed_samples s \<Longrightarrow> timed_samples (resetGlobals now s)"
    by (simp_all add: timed_samples_def maybeResetGauges_def resetGlobals_def resetLastCounts_def)
  ultimately show "timed_samples s \<Longrightarrow> handle_call h now s = Inr s' \<Longrightarrow> timed_samples s'" by auto
qed

interpretation timed: stats_invariant timed_samples "\<lambda>sz. True"
proof
  show "timed_samples s" if "new_stats ms t = Inr s" for ms t s
    using that by (auto simp: new_stats_def timed_samples_def reset_def resetLastCounts_def split: if_splits)
  show "timed_samples (setup_stats sz s)" if "timed_samples s" for sz s
    using that by (simp add: timed_samples_def setup_stats_def)
qed (rule timed_called)

end
