(* ===== verification/Perf_Written_Charts.thy ===== *)
theory Perf_Written_Charts
  imports Perf_Written Perf_Plot_Spec
begin

text \<open>
  Charts of what the Java program wrote: the results of a simple scenario are always drawn by a
  time chart, those of a varying one by the charts over its variables.
\<close>

section \<open>Time charts\<close>

lemma written_samples:
  assumes "simple_results s = Inr r" and "timed_samples s" and "rep (JMap r) v"
  shows "\<exists>ss. path v [''samples''] = Some (Arr ss) \<and> length ss = length (samples s) \<and>
    (\<forall>x \<in> set ss. \<exists>t. sample_time x = Some t)"
proof -
  have "jpath (JMap r) [''samples''] = Some (JList (map JMap (samples s)))"
    using results_fields(3) [OF assms(1)] by simp
  from rep_path [OF assms(3) this] obtain ss where ss: "path v [''samples''] = Some (Arr ss)"
      "list_all2 rep (map JMap (samples s)) ss"
    by (auto elim: rep_listE)
  have "\<exists>t. sample_time x = Some t" if x: "x \<in> set ss" for x
  proof -
    obtain i where i: "i < length ss" "x = ss ! i" using x by (metis in_set_conv_nth)
    then have "rep (JMap (samples s ! i)) x" "i < length (samples s)"
      using ss(2) by (auto simp: list_all2_conv_all_nth)
    moreover obtain e where "map_of (samples s ! i) ''elapsed'' = Some (JLong e)"
      using assms(2) nth_mem [OF \<open>i < length (samples s)\<close>] unfolding timed_samples_def by blast
    then have "jpath (JMap (samples s ! i)) [''elapsed''] = Some (JLong e)" by simp
    ultimately have "path x [''elapsed''] = Some (Num (of_long e))" using rep_path by blast
    then show ?thesis by simp
  qed
  then show ?thesis using ss list_all2_lengthD [OF ss(2)] by auto
qed

lemma written_time:
  assumes "run_simple w f ms ps n = Inr (ps', n', s)" and "simple_results s = Inr r"
    and "path results [sc] = Some v" and "rep (JMap r) v"
    and "attr t ''data-type'' = Str ''time''" and "attr t ''data-scenario'' = Str sc"
  shows "\<exists>ss elapsed. length ss = length (samples s) \<and> (\<forall>x \<in> set ss. sample_time x = Some (elapsed x)) \<and>
    chart_spec results t = Inr (Some
      (map (\<lambda>k. series_obj k (map (\<lambda>x. point (Num (div_pos (elapsed x) 1000)) (field x k)) ss)
                  (Some (if k = ''avg-latency'' then 2 else 1)))
         (time_keys (attr t ''data-latency'' = Str ''true'')),
       [(''yaxes'', axes_rate_and_latency)]))"
proof -
  have "timed_samples s" using timed.simple [OF _ assms(1)] by simp
  from written_samples [OF assms(2) this assms(4)] obtain ss where
      ss: "path v [''samples''] = Some (Arr ss)" "length ss = length (samples s)"
      "\<forall>x \<in> set ss. \<exists>t. sample_time x = Some t" by blast
  define elapsed where "elapsed x = (case sample_time x of Some t \<Rightarrow> t | None \<Rightarrow> NaN)" for x
  have el: "\<forall>x \<in> set ss. sample_time x = Some (elapsed x)" using ss(3) by (auto simp: elapsed_def simp del: sample_time.simps)
  show ?thesis
    using time_chart_points [OF ss(1) el] path_get [OF assms(3)] assms(5,6) ss(2) el
    by (intro exI [of _ ss] exI [of _ elapsed]) (simp add: chart_spec_def del: sample_time.simps)
qed

section \<open>Charts over variables\<close>

lemma path_snoc: "path v (ks @ [k]) = (case path v ks of Some u \<Rightarrow> path u [k] | None \<Rightarrow> None)"
  by (induction v ks rule: path.induct) (auto split: option.splits)

text \<open>What the page reads of a written grid.\<close>

lemma written_grid:
  assumes "full_grid nvs" and "run_varying w f ps (variables_of nvs) n = Inr st"
    and "varying_results (vr_stats st) = Inr m" and "rep (JMap m) v"
  shows "path v [''dimensions''] = Some (Arr (map (Str \<circ> fst) nvs))"
    and "\<exists>vals. path v [''dimension-values''] = Some vals \<and>
      (\<forall>(name, xs) \<in> set nvs. path vals [name] = Some (Arr (map Str (firsts (map value_text xs)))))"
    and "\<exists>data. path v [''data''] = Some data \<and>
      (\<forall>us \<in> set (product_lists (grid_texts nvs)). \<exists>ps. path data us = Some (Obj ps) \<and>
         (\<forall>k \<in> set rate_keys. \<exists>q. path (Obj ps) [k] = Some (Num (Fin q))))"
proof -
  note c = grid_cover [OF assms(1-3)]
  show "path v [''dimensions''] = Some (Arr (map (Str \<circ> fst) nvs))"
    using rep_path [OF assms(4) c(1)] rep_strings by fastforce
  obtain nx where nx: "nx \<in> set nvs" using assms(1) by (cases nvs) (auto simp: full_grid_def)
  have split: "\<exists>u. path v [k] = Some u" if "path v (k # ks) = Some y" for k ks y
    using that path_Cons by blast
  have one: "path v [''dimension-values'', name] = Some (Arr (map Str (firsts (map value_text xs))))"
    if "(name, xs) \<in> set nvs" for name xs
    using rep_path [OF assms(4) c(2) [OF that] ] rep_strings by fastforce
  then obtain vals where vals: "path v [''dimension-values''] = Some vals"
    using nx split by (cases nx) blast
  have "path vals [name] = Some (Arr (map Str (firsts (map value_text xs))))" if "(name, xs) \<in> set nvs" for name xs
    using one [OF that] vals path_Cons [of v "''dimension-values''" "[name]"] by auto
  then show "\<exists>vals. path v [''dimension-values''] = Some vals \<and>
      (\<forall>(name, xs) \<in> set nvs. path vals [name] = Some (Arr (map Str (firsts (map value_text xs)))))"
    using vals by blast
  have run: "\<exists>ps. path v (''data'' # us) = Some (Obj ps) \<and>
      (\<forall>k \<in> set rate_keys. \<exists>q. path (Obj ps) [k] = Some (Num (Fin q)))"
    if us: "us \<in> set (product_lists (grid_texts nvs))" for us
  proof -
    obtain s r where r: "simple_results s = Inr r" "jpath (JMap m) (''data'' # us) = Some (JMap r)"
      using c(3) [OF us] by blast
    obtain y where y: "path v (''data'' # us) = Some y" "rep (JMap r) y"
      using rep_path [OF assms(4) r(2)] by blast
    have "\<exists>q. path y [k] = Some (Num (Fin q))" if k: "k \<in> set rate_keys" for k
    proof -
      obtain x where "map_of r k = Some (JDouble x)" using results_rates [OF r(1) k] by blast
      then have "jpath (JMap r) [k] = Some (JDouble x)" by simp
      from rep_path [OF y(2) this] show ?thesis by auto
    qed
    then show ?thesis using rep_Obj [OF y(2)] y(1) by auto
  qed
  have "product_lists (grid_texts nvs) \<noteq> []"
    using assms(1) product_lists_nonempty [of "grid_texts nvs"] by (auto simp: grid_texts_def full_grid_def)
  then obtain us where "us \<in> set (product_lists (grid_texts nvs))" by (cases "product_lists (grid_texts nvs)") auto
  then obtain data where data: "path v [''data''] = Some data" using run split by blast
  have "path data us = path v (''data'' # us)" if us: "us \<in> set (product_lists (grid_texts nvs))" for us
  proof -
    obtain ps where "path v (''data'' # us) = Some (Obj ps)" using run [OF us] by blast
    then show ?thesis using data path_Cons [of v "''data''" us "Obj ps"] by auto
  qed
  then show "\<exists>data. path v [''data''] = Some data \<and>
      (\<forall>us \<in> set (product_lists (grid_texts nvs)). \<exists>ps. path data us = Some (Obj ps) \<and>
         (\<forall>k \<in> set rate_keys. \<exists>q. path (Obj ps) [k] = Some (Num (Fin q))))"
    using run data by (intro exI [of _ data]) simp
qed

lemma written_series:
  assumes "full_grid [(n0, vals0), (n1, vals1)]"
    and "run_varying w f ps (variables_of [(n0, vals0), (n1, vals1)]) n = Inr st"
    and "varying_results (vr_stats st) = Inr m"
    and "path results [sc] = Some v" and "rep (JMap m) v"
    and "attr t ''data-type'' = Str ''series''" and "attr t ''data-scenario'' = Str sc"
    and "attr_default t ''plot-key'' ''send-msg-rate'' = Str ''send-msg-rate''"
    and "attr t ''data-series-key'' = Str s_key" and "attr t ''data-x-key'' = Str x_key"
    and "(s_key, s_vals) = (n0, vals0) \<and> (x_key, x_vals) = (n1, vals1) \<or>
         (s_key, s_vals) = (n1, vals1) \<and> (x_key, x_vals) = (n0, vals0)"
  shows "\<exists>q. chart_spec results t = Inr (Some
    (map (\<lambda>s. series_obj (s_key @ '' = '' @ s)
                 (map (\<lambda>x. point (Str x) (Num (Fin (q s x)))) (firsts (map value_text x_vals))) None)
       (firsts (map value_text s_vals)), []))"
proof -
  let ?nvs = "[(n0, vals0), (n1, vals1)]"
  let ?ss = "firsts (map value_text s_vals)" and ?xs = "firsts (map value_text x_vals)"
  note g = written_grid [OF assms(1,2,3,5)]
  obtain vals where vals: "path v [''dimension-values''] = Some vals"
      "\<forall>(name, xs) \<in> set ?nvs. path vals [name] = Some (Arr (map Str (firsts (map value_text xs))))"
    using g(2) by blast
  obtain data where data: "path v [''data''] = Some data"
      "\<forall>us \<in> set (product_lists (grid_texts ?nvs)). \<exists>ps. path data us = Some (Obj ps) \<and>
         (\<forall>k \<in> set rate_keys. \<exists>q. path (Obj ps) [k] = Some (Num (Fin q)))"
    using g(3) by blast
  have names: "n0 \<noteq> n1" using assms(1) by (simp add: full_grid_def)
  have dims: "path v [''dimensions''] = Some (Arr [Str n0, Str n1])" using g(1) by simp
  have "\<exists>q. path data (grid_path (n0 = s_key) s x ''send-msg-rate'') = Some (Num (Fin q))"
    if s: "s \<in> set ?ss" and x: "x \<in> set ?xs" for s x
  proof -
    define us where "us = (if n0 = s_key then [s, x] else [x, s])"
    have us: "us \<in> set (product_lists (grid_texts ?nvs))"
      using s x assms(11) names by (auto simp: us_def grid_texts_def)
    have key: "''send-msg-rate'' \<in> set rate_keys" by (simp add: rate_keys_def)
    obtain ps where ps: "path data us = Some (Obj ps)"
        "\<forall>k \<in> set rate_keys. \<exists>q. path (Obj ps) [k] = Some (Num (Fin q))"
      using bspec [OF data(2) us] by blast
    obtain q where "path (Obj ps) [''send-msg-rate''] = Some (Num (Fin q))" using bspec [OF ps(2) key] by blast
    with ps(1) have "path data (us @ [''send-msg-rate'']) = Some (Num (Fin q))" by (simp add: path_snoc)
    then show ?thesis by (auto simp: us_def grid_path_def split: if_splits)
  qed
  then obtain q where q: "\<forall>s \<in> set ?ss. \<forall>x \<in> set ?xs.
      path data (grid_path (n0 = s_key) s x ''send-msg-rate'') = Some (Num (Fin (q s x)))"
    by metis
  have "path vals [s_key] = Some (Arr (map Str ?ss))" "path vals [x_key] = Some (Arr (map Str ?xs))"
    using vals(2) assms(11) by auto
  from series_chart_points [OF this q, of "[Str n1]"] show ?thesis
    using path_get [OF assms(4)] path_get [OF dims] path_get [OF vals(1)] path_get [OF data(1)] assms(6-10)
    by (intro exI [of _ q]) (simp add: chart_spec_def del: get_prop.simps)
qed

text \<open>The rates of a one-dimensional grid, for an x-y chart and for a rate-against-latency chart.\<close>

lemma written_line:
  assumes "full_grid [(n0, vals)]" and "run_varying w f ps (variables_of [(n0, vals)]) n = Inr st"
    and "varying_results (vr_stats st) = Inr m" and "rep (JMap m) v"
  shows "\<exists>dv data. get_prop v ''dimensions'' = Inr (Arr [Str n0]) \<and>
    get_prop v ''dimension-values'' = Inr dv \<and> get_prop v ''data'' = Inr data \<and>
    path dv [n0] = Some (Arr (map Str (firsts (map value_text vals)))) \<and>
    (\<forall>x \<in> set (firsts (map value_text vals)). \<exists>run. path data [x] = Some (Obj run) \<and>
       (\<forall>k \<in> set rate_keys. \<exists>q. path (Obj run) [k] = Some (Num (Fin q))))"
proof -
  note g = written_grid [OF assms]
  obtain dv where dv: "path v [''dimension-values''] = Some dv"
      "path dv [n0] = Some (Arr (map Str (firsts (map value_text vals))))"
    using g(2) by auto
  obtain data where data: "path v [''data''] = Some data"
      "\<forall>us \<in> set (product_lists (grid_texts [(n0, vals)])). \<exists>run. path data us = Some (Obj run) \<and>
         (\<forall>k \<in> set rate_keys. \<exists>q. path (Obj run) [k] = Some (Num (Fin q)))"
    using g(3) by blast
  have "[x] \<in> set (product_lists (grid_texts [(n0, vals)]))" if "x \<in> set (firsts (map value_text vals))" for x
    using that by (auto simp: grid_texts_def)
  then show ?thesis
    using path_get [OF g(1)] path_get [OF dv(1)] path_get [OF data(1)] dv(2) data(2)
    by (intro exI [of _ dv] exI [of _ data]) (simp del: get_prop.simps path.simps)
qed

lemma x_point_field:
  assumes "path data [x] = Some (Obj run)" and "k \<notin> set object_proto"
  shows "x_point data k (Str x) = Inr (point (Str x) (field (Obj run) k))"
  using path_get [OF assms(1)] get_prop_field [OF assms(2), of run] by (simp add: x_point_def del: get_prop.simps)

lemma x_points_field:
  assumes "\<forall>x \<in> set xs. path data [x] = Some (Obj (run x))" and "k \<notin> set object_proto"
  shows "mapE (x_point data k) (map Str xs) = Inr (map (\<lambda>x. point (Str x) (field (Obj (run x)) k)) xs)"
proof -
  have "mapE (x_point data k) (map Str xs) =
      Inr (map (\<lambda>v. case v of Str x \<Rightarrow> point (Str x) (field (Obj (run x)) k) | _ \<Rightarrow> Undefined) (map Str xs))"
    using assms by (intro mapE_total) (auto intro!: x_point_field)
  then show ?thesis by (simp add: comp_def)
qed

lemma written_rl_chart:
  assumes "full_grid [(''producerRateLimit'', vals)]"
    and "run_varying w f ps (variables_of [(''producerRateLimit'', vals)]) n = Inr st"
    and "varying_results (vr_stats st) = Inr m"
    and "path results [sc] = Some v" and "rep (JMap m) v"
    and "attr t ''data-type'' = Str ''r-l''" and "attr t ''data-scenario'' = Str sc"
  shows "\<exists>cd ex. chart_spec results t = Inr (Some (cd, ex)) \<and> length cd = 2"
proof -
  let ?xs = "firsts (map value_text vals)"
  obtain dv data where d: "get_prop v ''dimensions'' = Inr (Arr [Str ''producerRateLimit''])"
      "get_prop v ''dimension-values'' = Inr dv" "get_prop v ''data'' = Inr data"
      "path dv [''producerRateLimit''] = Some (Arr (map Str ?xs))"
      "\<forall>x \<in> set ?xs. \<exists>run. path data [x] = Some (Obj run)"
    using written_line [OF assms(1-3,5)] by blast
  then obtain run where run: "\<forall>x \<in> set ?xs. path data [x] = Some (Obj (run x))" by metis
  have "''send-msg-rate'' \<notin> set object_proto" "''avg-latency'' \<notin> set object_proto"
    by (simp_all add: object_proto_def)
  note x_points_field [OF run this(1)] x_points_field [OF run this(2)]
  then show ?thesis
    using path_get [OF d(4)] path_get [OF assms(4)] d(1-3) assms(6,7)
    by (simp add: chart_spec_def rl_chart_def rl_series_def del: get_prop.simps)
qed

lemma written_xy_chart:
  assumes "full_grid [(n0, vals)]"
    and "run_varying w f ps (variables_of [(n0, vals)]) n = Inr st"
    and "varying_results (vr_stats st) = Inr m"
    and "path results [sc] = Some v" and "rep (JMap m) v"
    and "attr t ''data-type'' = Str ''x-y''" and "attr t ''data-scenario'' = Str sc"
    and "attr t ''data-x-key'' = Str n0"
    and "set (split_chr (CHR '' '') (shown (attr_default t ''plot-keys'' ''send-msg-rate''))) \<subseteq> set rate_keys"
  shows "\<exists>cd ex. chart_spec results t = Inr (Some (cd, ex)) \<and>
    length cd = length (split_chr (CHR '' '') (shown (attr_default t ''plot-keys'' ''send-msg-rate'')))"
proof -
  let ?xs = "firsts (map value_text vals)" and ?keys = "shown (attr_default t ''plot-keys'' ''send-msg-rate'')"
  obtain dv data where d: "get_prop v ''dimensions'' = Inr (Arr [Str n0])"
      "get_prop v ''dimension-values'' = Inr dv" "get_prop v ''data'' = Inr data"
      "path dv [n0] = Some (Arr (map Str ?xs))"
      "\<forall>x \<in> set ?xs. \<exists>run. path data [x] = Some (Obj run) \<and>
         (\<forall>k \<in> set rate_keys. \<exists>q. path (Obj run) [k] = Some (Num (Fin q)))"
    using written_line [OF assms(1-3,5)] by blast
  define val where "val k x = the (path data [x, k])" for k x
  have "path data [x, k] = Some (val k x)" if x: "x \<in> set ?xs" and k: "k \<in> set (split_chr (CHR '' '') ?keys)" for x k
  proof -
    obtain run where run: "path data [x] = Some (Obj run)"
        "\<forall>k \<in> set rate_keys. \<exists>q. path (Obj run) [k] = Some (Num (Fin q))"
      using bspec [OF d(5) x] by blast
    obtain q where "path (Obj run) [k] = Some (Num (Fin q))" using bspec [OF run(2) subsetD [OF assms(9) k] ] by blast
    with run(1) have "path data [x, k] = Some (Num (Fin q))" by (rule iffD2 [OF path_Cons, OF exI, OF conjI])
    then show ?thesis unfolding val_def by (simp only: option.sel)
  qed
  then have "\<forall>k \<in> set (split_chr (CHR '' '') ?keys). \<forall>x \<in> set ?xs. path data [x, k] = Some (val k x)" by blast
  from xy_chart_points [OF d(4) this] show ?thesis
    using path_get [OF assms(4)] d(1-3) assms(6,7,8) by (simp add: chart_spec_def del: get_prop.simps)
qed

section \<open>Properties\<close>

text \<open>
  A time chart of a scenario that ran is drawn. When the results of the page hold, under the
  name of the chart's scenario, what the program wrote for a simple scenario, in any order of
  keys, the chart has its two or three series, each with one point for each sample, at the
  elapsed time in seconds.
\<close>

theorem written_time_chart:
  assumes "run_simple w f ms ps n = Inr (ps', n', s)" and "simple_results s = Inr r"
    and "path results [sc] = Some v" and "rep (JMap r) v"
    and "attr t ''data-type'' = Str ''time''" and "attr t ''data-scenario'' = Str sc"
  shows "\<exists>ss elapsed. length ss = length (samples s) \<and> (\<forall>x \<in> set ss. sample_time x = Some (elapsed x)) \<and>
    chart_spec results t = Inr (Some
      (map (\<lambda>k. series_obj k (map (\<lambda>x. point (Num (div_pos (elapsed x) 1000)) (field x k)) ss)
                  (Some (if k = ''avg-latency'' then 2 else 1)))
         (time_keys (attr t ''data-latency'' = Str ''true'')),
       [(''yaxes'', axes_rate_and_latency)]))"
  using assms by (rule written_time)

definition demo_chart :: dtree where
  "demo_chart = Elem 1 ''div'' [(''class'', ''chart''), (''data-type'', ''time''), (''data-latency'', ''true''),
     (''data-scenario'', ''s'')] []"

theorem written_time_chart_witness:
  "\<exists>ps n' s r. run_simple demo_world () 1000 [0] 0 = Inr (ps, n', s) \<and> simple_results s = Inr r \<and>
    (\<exists>cd ex. chart_spec (Obj [(''s'', to_js (JMap r))]) demo_chart = Inr (Some (cd, ex)) \<and> length cd = 3)"
proof -
  obtain p' n' s r where r: "run_simple demo_world () 1000 [0] 0 = Inr ([p'], n', s)" "simple_results s = Inr r"
    using demo_simple by blast
  have "rep (JMap r) (to_js (JMap r))"
    using typed_results [OF typed.simple [OF demo_sizes r(1)] r(2)] by (rule rep_to_js)
  from written_time_chart [OF r _ this, of "Obj [(''s'', to_js (JMap r))]" "''s''" demo_chart]
  show ?thesis using r by (auto simp: demo_chart_def attr_def time_keys_def simp del: sample_time.simps)
qed

text \<open>
  A series chart over the two variables of a varying scenario is drawn, whichever variable
  gives the series and whichever comes first in the specification: one series for each text
  of the series variable, labelled with it, and one point for each text of the other one,
  with the rate of the run of the two, a finite number.
\<close>

theorem written_series_chart:
  assumes "full_grid [(n0, vals0), (n1, vals1)]"
    and "run_varying w f ps (variables_of [(n0, vals0), (n1, vals1)]) n = Inr st"
    and "varying_results (vr_stats st) = Inr m"
    and "path results [sc] = Some v" and "rep (JMap m) v"
    and "attr t ''data-type'' = Str ''series''" and "attr t ''data-scenario'' = Str sc"
    and "attr_default t ''plot-key'' ''send-msg-rate'' = Str ''send-msg-rate''"
    and "attr t ''data-series-key'' = Str s_key" and "attr t ''data-x-key'' = Str x_key"
    and "(s_key, s_vals) = (n0, vals0) \<and> (x_key, x_vals) = (n1, vals1) \<or>
         (s_key, s_vals) = (n1, vals1) \<and> (x_key, x_vals) = (n0, vals0)"
  shows "\<exists>q. chart_spec results t = Inr (Some
    (map (\<lambda>s. series_obj (s_key @ '' = '' @ s)
                 (map (\<lambda>x. point (Str x) (Num (Fin (q s x)))) (firsts (map value_text x_vals))) None)
       (firsts (map value_text s_vals)), []))"
  using assms by (rule written_series)

definition demo_series :: dtree where
  "demo_series = Elem 1 ''div'' [(''class'', ''chart''), (''data-type'', ''series''), (''data-scenario'', ''s''),
     (''data-series-key'', ''producerCount''), (''data-x-key'', ''minMsgSize'')] []"

theorem written_series_chart_witness:
  "\<exists>st m. run_varying demo_world () [0] (variables_of demo_variables) 0 = Inr st \<and> varying_results (vr_stats st) = Inr m \<and>
    (\<exists>cd ex. chart_spec (Obj [(''s'', to_js (JMap m))]) demo_series = Inr (Some (cd, ex)) \<and> length cd = 1)"
proof -
  let ?nvs = "[(''minMsgSize'', [JString ''12'', JString ''24'']), (''producerCount'', [JString ''1''])]"
  have vs: "full_grid ?nvs" by (simp add: full_grid_def)
  obtain st m where m: "run_varying demo_world () [0] (variables_of ?nvs) 0 = Inr st" "varying_results (vr_stats st) = Inr m"
    using demo_grid [OF vs] by blast
  have "writable (JMap m)" using writable_varying [OF m(2)] typed.varying [OF demo_sizes m(1)] by blast
  then have "rep (JMap m) (to_js (JMap m))" by (rule rep_to_js)
  note rep = this
  have at: "path (Obj [(''s'', to_js (JMap m))]) [''s''] = Some (to_js (JMap m))" by (simp del: to_js.simps)
  have a: "attr demo_series ''data-type'' = Str ''series''" "attr demo_series ''data-scenario'' = Str ''s''"
      "attr_default demo_series ''plot-key'' ''send-msg-rate'' = Str ''send-msg-rate''"
      "attr demo_series ''data-series-key'' = Str ''producerCount''" "attr demo_series ''data-x-key'' = Str ''minMsgSize''"
    by (simp_all add: demo_series_def attr_def attr_default_def)
  have one: "length (firsts (map value_text [JString ''1''])) = 1" by (simp add: firsts_def add_new_def)
  from written_series_chart [OF vs m at rep a, of "[JString ''1'']" "[JString ''12'', JString ''24'']"] obtain q where
    q: "chart_spec (Obj [(''s'', to_js (JMap m))]) demo_series = Inr (Some
      (map (\<lambda>s. series_obj (''producerCount'' @ '' = '' @ s)
         (map (\<lambda>x. point (Str x) (Num (Fin (q s x)))) (firsts (map value_text [JString ''12'', JString ''24'']))) None)
         (firsts (map value_text [JString ''1''])), []))"
    by blast
  show ?thesis unfolding demo_variables_def
    by (intro exI conjI, rule m, rule m, rule q) (simp only: length_map one)
qed

end
