(* ===== verification/Perf_Factory_Spec.thy ===== *)
theory Perf_Factory_Spec
  imports Perf_Factory
begin

text \<open>
  What the factory promises: every property of the parameters has a field name in a
  specification, and which address the scenarios of a specification connect to.
\<close>

section \<open>Case of letters\<close>

definition is_upper :: "char \<Rightarrow> bool" where
  "is_upper c \<longleftrightarrow> (let n = of_char c :: nat in 65 \<le> n \<and> n < 91)"

definition is_lower :: "char \<Rightarrow> bool" where
  "is_lower c \<longleftrightarrow> (let n = of_char c :: nat in 97 \<le> n \<and> n < 123)"

lemma of_char_less: "(of_char c :: nat) < 256"
  by simp

lemma upper_lower: "is_upper c \<Longrightarrow> to_upper (to_lower c) = c"
  and lower_upper: "is_lower c \<Longrightarrow> to_lower (to_upper c) = c"
  by (auto simp: is_upper_def is_lower_def to_upper_def to_lower_def shift_case_def Let_def)

lemma ascii_case:
  "is_upper c \<Longrightarrow> (of_char (to_lower c) :: nat) < 128 \<and> to_lower c \<noteq> CHR ''-''"
  "is_lower c \<Longrightarrow> (of_char (to_upper c) :: nat) < 128"
  by (auto simp: is_upper_def is_lower_def to_upper_def to_lower_def shift_case_def Let_def)
    (auto dest: arg_cong [where f = "of_char :: char \<Rightarrow> nat"])

section \<open>From a property to a field and back\<close>

text \<open>
  The field of a property: a hyphen and the small letter for each capital letter. It is the
  way the specifications are written, \<open>minMsgSize\<close> as \<open>min-msg-size\<close>.
\<close>

fun to_hyphens :: "string \<Rightarrow> string" where
  "to_hyphens [] = []"
| "to_hyphens (c # s) =
     (if is_upper c then CHR ''-'' # to_lower c # to_hyphens s else c # to_hyphens s)"

text \<open>A name that starts with a small letter and holds ASCII characters other than the hyphen.\<close>

definition plain_char :: "char \<Rightarrow> bool" where
  "plain_char c \<longleftrightarrow> (of_char c :: nat) < 128 \<and> c \<noteq> CHR ''-''"

fun property_name :: "string \<Rightarrow> bool" where
  "property_name [] = False"
| "property_name (c # s) = (is_lower c \<and> (\<forall>d \<in> set s. plain_char d))"

lemma parts_of_hyphens:
  assumes "plain_char c" and "\<forall>d \<in> set s. plain_char d"
  shows "\<exists>ps. mapE (change_first to_upper) (split_chr (CHR ''-'') (c # to_hyphens s)) = Inr ps \<and>
    concat ps = to_upper c # s"
  using assms
proof (induction s arbitrary: c)
  case Nil
  then show ?case by (simp add: plain_char_def)
next
  case (Cons d s)
  show ?case
  proof (cases "is_upper d")
    case True
    have "plain_char (to_lower d)" using ascii_case(1) [OF True] by (simp add: plain_char_def)
    then obtain ps where "mapE (change_first to_upper) (split_chr (CHR ''-'') (to_lower d # to_hyphens s)) = Inr ps"
        "concat ps = d # s"
      using Cons upper_lower [OF True] by fastforce
    then show ?thesis using Cons.prems(1) True by (simp add: plain_char_def del: split_chr.simps(2)) (simp add: plain_char_def)
  next
    case False
    obtain w ws where w: "split_chr (CHR ''-'') (to_hyphens s) = w # ws"
      using split_chr_nonempty by (metis list.exhaust)
    have d: "d \<noteq> CHR ''-''" "(of_char d :: nat) < 128" using Cons.prems by (auto simp: plain_char_def)
    then have sd: "split_chr (CHR ''-'') (d # to_hyphens s) = (d # w) # ws" by (simp add: w)
    have "plain_char d" "\<forall>x \<in> set s. plain_char x" using Cons.prems by simp_all
    from Cons.IH [OF this, unfolded sd] obtain ps where
        ps: "mapE (change_first to_upper) ((d # w) # ws) = Inr ps" "concat ps = to_upper d # s"
      by blast
    then obtain qs where qs: "mapE (change_first to_upper) ws = Inr qs" "w @ concat qs = s"
      using d by (auto simp: bindE_Inr_iff)
    then show ?thesis using Cons.prems(1) False d by (auto simp: plain_char_def w)
  qed
qed

lemma hyphen_parts_plain:
  assumes "\<forall>p \<in> set (split_chr (CHR ''-'') s). p \<noteq> []"
  shows "hyphen_parts s = split_chr (CHR ''-'') s"
proof (cases "CHR ''-'' \<in> set s")
  case True
  have "dropWhile (\<lambda>p. p = []) (rev (split_chr (CHR ''-'') s)) = rev (split_chr (CHR ''-'') s)"
    using assms hd_in_set [of "rev (split_chr (CHR ''-'') s)"] by (simp add: dropWhile_eq_self_iff)
  then show ?thesis using True by (simp add: hyphen_parts_def)
qed (simp add: hyphen_parts_def split_chr_none)

lemma hyphensToCamel_to_hyphens:
  assumes "property_name p"
  shows "hyphensToCamel (to_hyphens p) = Inr p"
proof -
  obtain c s where p: "p = c # s" "is_lower c" "\<forall>d \<in> set s. plain_char d" using assms by (cases p) auto
  have nu: "\<not> is_upper c" "plain_char c"
    using p(2) by (auto simp: is_lower_def is_upper_def Let_def plain_char_def)
  obtain ps where ps: "mapE (change_first to_upper) (split_chr (CHR ''-'') (to_hyphens p)) = Inr ps"
      "concat ps = to_upper c # s"
    using parts_of_hyphens [OF nu(2) p(3)] by (auto simp: p(1) nu(1))
  have "w \<noteq> []" if "w \<in> set (split_chr (CHR ''-'') (to_hyphens p))" for w
    using ps(1) that by (auto simp: mapE_Inr_iff list_all2_conv_all_nth in_set_conv_nth)
  then have "hyphen_parts (to_hyphens p) = split_chr (CHR ''-'') (to_hyphens p)" by (intro hyphen_parts_plain) blast
  then show ?thesis
    using ps lower_upper [OF p(2)] ascii_case(2) [OF p(2)] by (simp add: hyphensToCamel_def p(1))
qed

text \<open>
  A round trip. For every property of the parameters, but the three names whose fields mean
  something else, the field that spells it with hyphens is mapped back to it: each setter can
  be reached from a specification, and by a field that is told from it by rule.
\<close>

theorem field_of_property:
  assumes "property_name p" and "p \<notin> {''body'', ''rate'', ''consumerRate''}"
  shows "mapJsonFieldToPropertyName (to_hyphens p) = Inr p"
proof -
  have special: "hyphensToCamel ''body'' = Inr ''body''" "hyphensToCamel ''rate'' = Inr ''rate''"
      "hyphensToCamel ''consumer-rate'' = Inr ''consumerRate''"
    by code_simp+
  have "to_hyphens p \<noteq> q" if "hyphensToCamel q = Inr p'" "p' \<noteq> p" for q p'
    using hyphensToCamel_to_hyphens [OF assms(1)] that by auto
  then have "to_hyphens p \<notin> {''body'', ''rate'', ''consumer-rate''}"
    using special assms(2) by blast
  then show ?thesis
    using hyphensToCamel_to_hyphens [OF assms(1)] by (simp add: mapJsonFieldToPropertyName_def json_fields_def)
qed

theorem field_of_property_witness:
  "mapJsonFieldToPropertyName ''min-msg-size'' = Inr ''minMsgSize''"
proof -
  have "property_name ''minMsgSize''" "to_hyphens ''minMsgSize'' = ''min-msg-size''" by code_simp+
  then show ?thesis using field_of_property [of "''minMsgSize''"] by simp
qed

section \<open>The connection of the scenarios\<close>

lemma connect_same:
  assumes "\<And>x. set_uri w x f1 = set_uri w x f2"
  shows "connect w name m f1 = connect w name m f2"
  by (simp add: connect_def assms)

lemma from_json_same:
  assumes "\<And>x. set_uri w x f1 = set_uri w x f2"
  shows "from_json w j f1 = from_json w j f2"
  by (simp add: from_json_def connect_same [OF assms])

lemma bindE_assoc: "bindE (bindE m g) h = bindE m (\<lambda>x. bindE (g x) h)"
  by (cases m) simp_all

lemma bindE_if: "bindE (if c then a else b) h = (if c then bindE a h else bindE b h)"
  by simp

lemma bindE_list_case:
  "bindE (case xs of [] \<Rightarrow> a | y # ys \<Rightarrow> g y ys) h = (case xs of [] \<Rightarrow> bindE a h | y # ys \<Rightarrow> bindE (g y ys) h)"
  by (cases xs) simp_all

lemma read_other:
  assumes "k \<noteq> l"
  shows "read_required k (put l v m) c = read_required k m c"
    and "read_default k (put l v m) c d = read_default k m c d"
  using assms by (simp_all add: read_required_def read_default_def read0_def)

lemma connect_put: "connect w name (put ''uri'' (JString u) m) f =
    (case set_uri w u f of Inr f' \<Rightarrow> Inr f' | Inl e \<Rightarrow> Inl (Runtime_Exception (''scenario: '' @ name @ '' with malformed uri'')))"
  by (simp add: connect_def read_default_def read0_def)

text \<open>The address of a scenario decides the state of the factory after it, and nothing else.\<close>

lemma from_json_address:
  assumes "set_uri w u f = Inr fu" and "set_uri w v f = Inr fv"
  shows "from_json w (JMap (put ''uri'' (JString v) m)) f =
    bindE (from_json w (JMap (put ''uri'' (JString u) m)) f) (\<lambda>(sc, f'). Inr (sc, fv))"
  by (simp add: from_json_def read_other connect_put assms bindE_assoc bindE_if bindE_list_case Let_def
      cong: if_cong list.case_cong)

lemma from_json_factory:
  assumes "set_uri w u f = Inr fu" and "from_json w (JMap (put ''uri'' (JString u) m)) f = Inr (sc, f')"
  shows "f' = fu"
  using assms(2)
  by (auto simp: from_json_def read_other connect_put assms(1) bindE_Inr_iff Let_def split: if_splits list.splits)

lemma make_scenarios_append:
  "make_scenarios w (xs @ ys) f =
     bindE (make_scenarios w xs f) (\<lambda>(scs, f').
     bindE (make_scenarios w ys f') (\<lambda>(scs', f''). Inr (scs @ scs', f'')))"
proof (induction xs arbitrary: f)
  case Nil
  then show ?case by (cases "make_scenarios w ys f") auto
next
  case (Cons x xs)
  show ?case
  proof (cases "from_json w x f")
    case (Inr p)
    obtain sc g where p: "p = (sc, g)" by fastforce
    show ?thesis
    proof (cases "make_scenarios w xs g")
      case (Inr q)
      obtain scs g' where q: "q = (scs, g')" by fastforce
      show ?thesis
        by (cases "make_scenarios w ys g'") (auto simp: \<open>from_json w x f = Inr p\<close> p Cons.IH Inr q)
    qed (simp add: Inr p Cons.IH)
  qed simp
qed

text \<open>
  The scenarios share one connection factory, and all are made before the first one runs:
  every scenario connects to the address of the last scenario of the specification. Another
  address for an earlier scenario makes no difference to any result, when the addresses set
  the same fields of the factory (the law on \<open>set_uri\<close>) and are well formed.
\<close>

theorem earlier_address_ignored:
  assumes "\<forall>x f fu fv. set_uri w u f = Inr fu \<and> set_uri w v f = Inr fv \<longrightarrow> set_uri w x fu = set_uri w x fv"
    and "\<forall>f. (\<exists>fu. set_uri w u f = Inr fu) \<and> (\<exists>fv. set_uri w v f = Inr fv)"
  shows "perf_test_multi w (pre @ JMap (put ''uri'' (JString u) m) # j # post) f =
    perf_test_multi w (pre @ JMap (put ''uri'' (JString v) m) # j # post) f"
proof -
  let ?a = "JMap (put ''uri'' (JString u) m)" and ?b = "JMap (put ''uri'' (JString v) m)"
  have "make_scenarios w (?a # j # post) g = make_scenarios w (?b # j # post) g" for g
  proof -
    obtain gu gv where g: "set_uri w u g = Inr gu" "set_uri w v g = Inr gv" using assms(2) by blast
    have "set_uri w x gu = set_uri w x gv" for x using assms(1) g by blast
    then have same: "make_scenarios w (j # post) gu = make_scenarios w (j # post) gv"
      by (simp add: from_json_same [of w gu gv])
    show ?thesis
    proof (cases "from_json w ?a g")
      case (Inl e)
      then show ?thesis by (simp add: from_json_address [OF g] del: put_def)
    next
      case (Inr p)
      obtain sc g' where p: "p = (sc, g')" by fastforce
      have "g' = gu" using from_json_factory [OF g(1)] Inr p by blast
      moreover have "from_json w ?b g = Inr (sc, gv)" using from_json_address [OF g, of m] by (simp add: Inr p)
      ultimately show ?thesis using same Inr p by (simp only: make_scenarios.simps(2) bindE_simps prod.case)
    qed
  qed
  then show ?thesis by (simp add: perf_test_multi_def make_scenarios_append del: make_scenarios.simps)
qed

text \<open>A factory that remembers its address, and a load that depends on it.\<close>

definition address_world :: "(int, string) world" where
  "address_world = \<lparr>clock = (\<lambda>n. 0), load = (\<lambda>n f p. Inr (if f = ''a'' then [] else [(Send, 10)])),
     set_value = (\<lambda>p k v. Inr p), get_min_msg_size = (\<lambda>p. 0), new_params = 0,
     set_uri = (\<lambda>u f. Inr u)\<rparr>"

definition simple_spec :: "string \<Rightarrow> jmap" where
  "simple_spec name = [(''name'', JString name), (''type'', JString ''simple''), (''params'', JList [JMap []])]"

theorem earlier_address_ignored_witness:
  "perf_test_multi address_world
     [JMap (put ''uri'' (JString ''a'') (simple_spec ''x'')), JMap (put ''uri'' (JString ''b'') (simple_spec ''y''))] [] =
   perf_test_multi address_world
     [JMap (put ''uri'' (JString ''b'') (simple_spec ''x'')), JMap (put ''uri'' (JString ''b'') (simple_spec ''y''))] []"
  using earlier_address_ignored [of address_world "''a''" "''b''" "[]" "simple_spec ''x''"
      "JMap (put ''uri'' (JString ''b'') (simple_spec ''y''))" "[]" "[]"]
  by (simp add: address_world_def)

end
