(* ===== verification/Data_Specs.thy ===== *)
theory Data_Specs
  imports Perf_Factory
begin

text \<open>
  The two specifications of \<open>html/examples\<close>, as Gson reads them for \<open>PerfTestMulti\<close>: the
  quotes may be single ones, and every number becomes a \<open>Double\<close>.
\<close>

definition num :: "nat \<Rightarrow> jobj" where
  "num n = JDouble (Fin (of_nat n))"

definition various_spec :: "jobj list" where
  "various_spec =
    [JMap [(''name'', JString ''no-ack''),
           (''type'', JString ''simple''),
           (''params'', JList [JMap [(''time-limit'', num 30)]])],
     JMap [(''name'', JString ''message-sizes-and-producers''),
           (''type'', JString ''varying''),
           (''params'', JList [JMap [(''time-limit'', num 30), (''consumer-count'', num 0)]]),
           (''variables'', JList
             [JMap [(''name'', JString ''min-msg-size''),
                    (''values'', JList [num 0, num 1000, num 10000, num 100000])],
              JMap [(''name'', JString ''producer-count''),
                    (''values'', JList [num 1, num 2, num 3, num 4, num 5, num 6, num 7, num 8, num 9, num 10])]])],
     JMap [(''name'', JString ''message-sizes-large''),
           (''type'', JString ''varying''),
           (''params'', JList [JMap [(''time-limit'', num 30)]]),
           (''variables'', JList
             [JMap [(''name'', JString ''min-msg-size''),
                    (''values'', JList [num 5000, num 10000, num 50000, num 100000, num 500000, num 1000000])]])],
     JMap [(''name'', JString ''rate-vs-latency''),
           (''type'', JString ''rate-vs-latency''),
           (''params'', JList [JMap [(''time-limit'', num 30)]])]]"

definition publish_consume_spec :: "jobj list" where
  "publish_consume_spec =
    [JMap [(''name'', JString ''consume''),
           (''type'', JString ''simple''),
           (''params'', JList [JMap [(''time-limit'', num 30),
                                     (''producer-count'', num 4),
                                     (''consumer-count'', num 2)]])]]"

end
