(* ===== verification/Perf_End_To_End.thy ===== *)
theory Perf_End_To_End
  imports Perf_Written_Charts Perf_Examples Perf_Factory_Spec Data_Specs
begin

text \<open>
  From the specification \<open>html/examples/various-spec.js\<close> through the Java program to the page
  \<open>html/examples/various.html\<close>: what any successful run writes is drawn by the page.
\<close>

section \<open>The scenarios of the specification\<close>

lemma field_names:
  "mapJsonFieldToPropertyName ''min-msg-size'' = Inr ''minMsgSize''"
  "mapJsonFieldToPropertyName ''producer-count'' = Inr ''producerCount''"
proof -
  have "hyphensToCamel ''min-msg-size'' = Inr ''minMsgSize''" "hyphensToCamel ''producer-count'' = Inr ''producerCount''"
    by code_simp+
  then show "mapJsonFieldToPropertyName ''min-msg-size'' = Inr ''minMsgSize''"
    "mapJsonFieldToPropertyName ''producer-count'' = Inr ''producerCount''"
    by (simp_all add: mapJsonFieldToPropertyName_def json_fields_def)
qed

definition grid_variables_spec :: "(string \<times> jobj list) list" where
  "grid_variables_spec =
     [(''minMsgSize'', [num 0, num 1000, num 10000, num 100000]),
      (''producerCount'', [num 1, num 2, num 3, num 4, num 5, num 6, num 7, num 8, num 9, num 10])]"

definition size_variables_spec :: "(string \<times> jobj list) list" where
  "size_variables_spec =
     [(''minMsgSize'', [num 5000, num 10000, num 50000, num 100000, num 500000, num 1000000])]"

lemma to_string_num: "to_string (num n) = Inr (double_text (Fin (of_nat n)))"
  by (simp add: num_def del: double_text.simps)

lemma spec_grids: "full_grid grid_variables_spec" "full_grid size_variables_spec"
  by (simp_all add: full_grid_def grid_variables_spec_def size_variables_spec_def to_string_num)

lemma various_scenarios:
  assumes "make_scenarios w various_spec f = Inr (scs, f')"
  shows "\<exists>p1 p2 p3 p4. scs =
    [Simple ''no-ack'' 1000 [p1],
     Varying ''message-sizes-and-producers'' [p2] (variables_of grid_variables_spec),
     Varying ''message-sizes-large'' [p3] (variables_of size_variables_spec),
     Rate_Vs_Latency ''rate-vs-latency'' p4]"
proof -
  obtain s1 s2 s3 s4 f1 f2 f3 f4 where sc: "scs = [s1, s2, s3, s4]"
      "from_json w (various_spec ! 0) f = Inr (s1, f1)" "from_json w (various_spec ! 1) f1 = Inr (s2, f2)"
      "from_json w (various_spec ! 2) f2 = Inr (s3, f3)" "from_json w (various_spec ! 3) f3 = Inr (s4, f4)"
    using assms by (auto simp: various_spec_def bindE_Inr_iff simp del: from_json_def)
  have "\<exists>p1. s1 = Simple ''no-ack'' 1000 [p1]"
    using sc(2) by (auto simp: various_spec_def from_json_def read_required_def read_default_def read0_def
        bindE_Inr_iff Let_def to_int_simps simp del: to_int.simps(4))
  moreover have "\<exists>p2. s2 = Varying ''message-sizes-and-producers'' [p2] (variables_of grid_variables_spec)"
    using sc(3) by (auto simp: various_spec_def from_json_def read_required_def read_default_def read0_def
        bindE_Inr_iff Let_def variable_from_json_def field_names variables_of_def grid_variables_spec_def)
  moreover have "\<exists>p3. s3 = Varying ''message-sizes-large'' [p3] (variables_of size_variables_spec)"
    using sc(4) by (auto simp: various_spec_def from_json_def read_required_def read_default_def read0_def
        bindE_Inr_iff Let_def variable_from_json_def field_names variables_of_def size_variables_spec_def)
  moreover have "\<exists>p4. s4 = Rate_Vs_Latency ''rate-vs-latency'' p4"
    using sc(5) by (auto simp: various_spec_def from_json_def read_required_def read_default_def read0_def
        bindE_Inr_iff Let_def)
  ultimately show ?thesis using sc(1) by blast
qed

section \<open>From the file to the page\<close>

lemma nat_texts:
  assumes "\<forall>n \<in> set ns. n < 10 ^ 7" and "distinct ns"
  shows "firsts (map value_text (map num ns)) = map (\<lambda>n. dec n @ ''.0'') ns"
proof -
  have t: "map value_text (map num ns) = map (\<lambda>n. dec n @ ''.0'') ns"
    using assms(1) by (auto simp: value_text_def to_string_num double_text_nat simp del: double_text.simps)
  moreover have "distinct (map (\<lambda>n. dec n @ ''.0'') ns)"
    using assms(2) by (auto simp: distinct_map inj_on_def dest: dec_inj)
  ultimately show ?thesis by (simp only: firsts_distinct)
qed

lemma written_scenario:
  assumes "run_tests w f scs n [] = Inr m" and "distinct (map scenario_name scs)" and "sc \<in> set scs"
    and "rep (JMap m) results"
  shows "\<exists>k r k' v. run_scenario w f sc k = Inr (r, k') \<and> path results [scenario_name sc] = Some v \<and> rep (JMap r) v"
proof -
  obtain k r k' where r: "run_scenario w f sc k = Inr (r, k')" "map_of m (scenario_name sc) = Some (JMap r)"
    using run_tests_results [OF assms(1-3)] by blast
  then have "jpath (JMap m) [scenario_name sc] = Some (JMap r)" by simp
  from rep_path [OF assms(4) this] r(1) show ?thesis by blast
qed

definition series_count :: "plot_call \<Rightarrow> nat" where
  "series_count c = (case pc_data c of Arr cd \<Rightarrow> length cd | _ \<Rightarrow> 0)"

text \<open>The charts of the page, for whatever a run of the specification wrote.\<close>

lemma various_written:
  assumes "perf_test_multi w various_spec f = Inr m" and "rep (JMap m) results"
  shows "\<exists>cd ex. chart_spec results time_div = Inr (Some (cd, ex)) \<and> length cd = 2"
    and "\<exists>q. chart_spec results series_div = Inr (Some
      (map (\<lambda>s. series_obj (''minMsgSize = '' @ s)
         (map (\<lambda>x. point (Str x) (Num (Fin (q s x)))) (map (\<lambda>n. dec n @ ''.0'') [1, 2, 3, 4, 5, 6, 7, 8, 9, 10])) None)
         (map (\<lambda>n. dec n @ ''.0'') [0, 1000, 10000, 100000]), []))"
    and "\<exists>cd ex. chart_spec results xy_div = Inr (Some (cd, ex)) \<and> length cd = 2"
    and "\<exists>cd ex. chart_spec results rl_div = Inr (Some (cd, ex)) \<and> length cd = 2"
proof -
  obtain scs f' where scs: "make_scenarios w various_spec f = Inr (scs, f')" "run_tests w f' scs 0 [] = Inr m"
    using assms(1) by (auto simp: perf_test_multi_def bindE_Inr_iff)
  from various_scenarios [OF scs(1)] obtain p1 p2 p3 p4 where s: "scs =
    [Simple ''no-ack'' 1000 [p1],
     Varying ''message-sizes-and-producers'' [p2] (variables_of grid_variables_spec),
     Varying ''message-sizes-large'' [p3] (variables_of size_variables_spec),
     Rate_Vs_Latency ''rate-vs-latency'' p4]"
    by blast
  have "distinct (map scenario_name scs)" by (simp add: s)
  note at = written_scenario [OF scs(2) this _ assms(2)]
  have in_scs: "Simple ''no-ack'' 1000 [p1] \<in> set scs"
      "Varying ''message-sizes-and-producers'' [p2] (variables_of grid_variables_spec) \<in> set scs"
      "Varying ''message-sizes-large'' [p3] (variables_of size_variables_spec) \<in> set scs"
      "Rate_Vs_Latency ''rate-vs-latency'' p4 \<in> set scs"
    by (simp_all add: s)
  obtain n ps st n' r v where "run_simple w f' 1000 [p1] n = Inr (ps, n', st)" "simple_results st = Inr r"
      "path results [''no-ack''] = Some v" "rep (JMap r) v"
    using at [OF in_scs(1)] by (auto simp: bindE_Inr_iff)
  from written_time [OF this, of time_div]
  show "\<exists>cd ex. chart_spec results time_div = Inr (Some (cd, ex)) \<and> length cd = 2"
    by (auto simp: time_div_def attr_def time_keys_def simp del: sample_time.simps)
  obtain n st r v where "run_varying w f' [p2] (variables_of grid_variables_spec) n = Inr st"
      "varying_results (vr_stats st) = Inr r"
      "path results [''message-sizes-and-producers''] = Some v" "rep (JMap r) v"
    using at [OF in_scs(2)] by (auto simp: bindE_Inr_iff)
  from written_series [OF spec_grids(1) [unfolded grid_variables_spec_def] this [unfolded grid_variables_spec_def],
      of series_div "''minMsgSize''" "''producerCount''"]
  obtain q where q: "chart_spec results series_div = Inr (Some
      (map (\<lambda>s. series_obj (''minMsgSize'' @ '' = '' @ s)
         (map (\<lambda>x. point (Str x) (Num (Fin (q s x)))) (firsts (map value_text (map num [1, 2, 3, 4, 5, 6, 7, 8, 9, 10])))) None)
         (firsts (map value_text (map num [0, 1000, 10000, 100000]))), []))"
    by (auto simp: series_div_def attr_def attr_default_def)
  have texts: "firsts (map value_text (map num [1, 2, 3, 4, 5, 6, 7, 8, 9, 10])) =
      map (\<lambda>n. dec n @ ''.0'') [1, 2, 3, 4, 5, 6, 7, 8, 9, 10]"
    "firsts (map value_text (map num [0, 1000, 10000, 100000])) = map (\<lambda>n. dec n @ ''.0'') [0, 1000, 10000, 100000]"
    by (intro nat_texts, simp, simp)+
  show "\<exists>q. chart_spec results series_div = Inr (Some
      (map (\<lambda>s. series_obj (''minMsgSize = '' @ s)
         (map (\<lambda>x. point (Str x) (Num (Fin (q s x)))) (map (\<lambda>n. dec n @ ''.0'') [1, 2, 3, 4, 5, 6, 7, 8, 9, 10])) None)
         (map (\<lambda>n. dec n @ ''.0'') [0, 1000, 10000, 100000]), []))"
    using q unfolding texts by (simp only: append.simps) blast
  obtain n st r v where "run_varying w f' [p3] (variables_of size_variables_spec) n = Inr st"
      "varying_results (vr_stats st) = Inr r"
      "path results [''message-sizes-large''] = Some v" "rep (JMap r) v"
    using at [OF in_scs(3)] by (auto simp: bindE_Inr_iff)
  from written_xy_chart [OF spec_grids(2) [unfolded size_variables_spec_def] this [unfolded size_variables_spec_def], of xy_div]
  show "\<exists>cd ex. chart_spec results xy_div = Inr (Some (cd, ex)) \<and> length cd = 2"
    by (simp add: xy_div_def attr_def attr_default_def shown_def rate_keys_def numeral_2_eq_2)
  obtain n ps n' s1 st r v where "run_varying w f' ps [multicast_variable 0 ''producerRateLimit'' (rate_limits (max_rate s1))] n' = Inr st"
      "varying_results (vr_stats st) = Inr r" "path results [''rate-vs-latency''] = Some v" "rep (JMap r) v"
    using at [OF in_scs(4)] by (auto simp: bindE_Inr_iff run_rate_vs_latency_def)
  moreover have "full_grid [(''producerRateLimit'', rate_limits (max_rate s1))]"
    by (simp add: full_grid_def rate_limits_def rate_factors_def)
  ultimately show "\<exists>cd ex. chart_spec results rl_div = Inr (Some (cd, ex)) \<and> length cd = 2"
    using written_rl_chart [of "rate_limits (max_rate s1)" w f' ps n' st r results "''rate-vs-latency''" v rl_div]
    by (simp add: variables_of_def rl_div_def attr_def)
qed

lemma spec_texts:
  "map (\<lambda>n. dec n @ ''.0'') [1, 2, 3, 4, 5, 6, 7, 8, 9, 10] =
      [''1.0'', ''2.0'', ''3.0'', ''4.0'', ''5.0'', ''6.0'', ''7.0'', ''8.0'', ''9.0'', ''10.0'']"
    "map (\<lambda>n. dec n @ ''.0'') [0, 1000, 10000, 100000] = [''0.0'', ''1000.0'', ''10000.0'', ''100000.0'']"
  by (simp_all add: dec.simps digit_chr_def char_of_def bit_0)

lemma various_written_ready:
  assumes "perf_test_multi w various_spec f = Inr m" and "rep (JMap m) results"
  shows "\<forall>d \<in> set (charts None various_page). ready_at results various_page d"
proof -
  obtain cd1 ex1 where 1: "chart_spec results time_div = Inr (Some (cd1, ex1))"
    using various_written(1) [OF assms] by blast
  obtain cd2 where 2: "chart_spec results series_div = Inr (Some (cd2, []))" using various_written(2) [OF assms] by blast
  obtain cd3 ex3 where 3: "chart_spec results xy_div = Inr (Some (cd3, ex3))" using various_written(3) [OF assms] by blast
  obtain cd4 ex4 where 4: "chart_spec results rl_div = Inr (Some (cd4, ex4))" using various_written(4) [OF assms] by blast
  have "ready results time_div" "ready results series_div" "ready results xy_div" "ready results rl_div"
    by (simp_all add: ready_def 1 2 3 4) (simp_all add: label_keys_def safe_def shown_def attr_def div_defs)
  moreover have "\<not> root_is d (doc various_page)" if "d \<noteq> 0" for d
    using that by (simp add: various_page_def various_doc_def)
  ultimately show ?thesis by (simp add: various_charts ready_at_def various_lookup)
qed

text \<open>
  C4: from the specification to the charts. Whatever the loads of a run of the program on
  \<open>html/examples/various-spec.js\<close> were, if it ends with results, then the page
  \<open>html/examples/various.html\<close> draws each of its four charts once from them, in whatever order
  the file has the keys: two series over the samples, four series over the ten numbers of
  producers with a finite rate at every point, two rates over the large sizes, and the
  achieved rate and the latency. The sizes and the numbers appear as the texts of doubles.
\<close>

theorem specification_to_charts:
  assumes "perf_test_multi w various_spec f = Inr m" and "rep (JMap m) results"
    and "html_contract e" and "\<forall>c. flot e c = None"
  shows "\<exists>calls q. plots (snd (render_graphs e results None various_page)) = calls \<and>
    map pc_div calls = [6, 9, 12, 15] \<and> map series_count calls = [2, 4, 2, 2] \<and>
    pc_data (calls ! 1) = Arr
      (map (\<lambda>s. series_obj (''minMsgSize = '' @ s)
         (map (\<lambda>x. point (Str x) (Num (Fin (q s x))))
            [''1.0'', ''2.0'', ''3.0'', ''4.0'', ''5.0'', ''6.0'', ''7.0'', ''8.0'', ''9.0'', ''10.0'']) None)
         [''0.0'', ''1000.0'', ''10000.0'', ''100000.0''])"
proof -
  obtain cd1 ex1 where 1: "chart_spec results time_div = Inr (Some (cd1, ex1))" "length cd1 = 2"
    using various_written(1) [OF assms(1,2)] by blast
  obtain q where 2: "chart_spec results series_div = Inr (Some
      (map (\<lambda>s. series_obj (''minMsgSize = '' @ s)
         (map (\<lambda>x. point (Str x) (Num (Fin (q s x))))
            [''1.0'', ''2.0'', ''3.0'', ''4.0'', ''5.0'', ''6.0'', ''7.0'', ''8.0'', ''9.0'', ''10.0'']) None)
         [''0.0'', ''1000.0'', ''10000.0'', ''100000.0''], []))"
    using various_written(2) [OF assms(1,2)] unfolding spec_texts by blast
  obtain cd3 ex3 where 3: "chart_spec results xy_div = Inr (Some (cd3, ex3))" "length cd3 = 2"
    using various_written(3) [OF assms(1,2)] by blast
  obtain cd4 ex4 where 4: "chart_spec results rl_div = Inr (Some (cd4, ex4))" "length cd4 = 2"
    using various_written(4) [OF assms(1,2)] by blast
  have files: "attr time_div ''data-file'' = Undefined" "attr series_div ''data-file'' = Undefined"
      "attr xy_div ''data-file'' = Undefined" "attr rl_div ''data-file'' = Undefined"
    by (simp_all add: attr_def div_defs)
  let ?calls = "[\<lparr>pc_div = 6, pc_data = Arr cd1, pc_options = options time_div ex1\<rparr>,
    \<lparr>pc_div = 9, pc_data = Arr (map (\<lambda>s. series_obj (''minMsgSize = '' @ s)
         (map (\<lambda>x. point (Str x) (Num (Fin (q s x))))
            [''1.0'', ''2.0'', ''3.0'', ''4.0'', ''5.0'', ''6.0'', ''7.0'', ''8.0'', ''9.0'', ''10.0'']) None)
         [''0.0'', ''1000.0'', ''10000.0'', ''100000.0'']), pc_options = options series_div []\<rparr>,
    \<lparr>pc_div = 12, pc_data = Arr cd3, pc_options = options xy_div ex3\<rparr>,
    \<lparr>pc_div = 15, pc_data = Arr cd4, pc_options = options rl_div ex4\<rparr>]"
  have "plots (snd (render_graphs e results None various_page)) = page_calls results various_page [6, 9, 12, 15]"
    using render_plots [OF various_page_wf assms(3,4) various_written_ready [OF assms(1,2)] ] various_charts
    by (simp add: various_page_def)
  also have "\<dots> = ?calls"
    by (simp only: page_calls_def list.map concat.simps various_lookup option.case chart_calls_def files if_True
        1 2 3 4 sum.case prod.case append.simps append_Nil2 simp_thms)
  finally have calls: "plots (snd (render_graphs e results None various_page)) = ?calls" .
  have "map pc_div ?calls = [6, 9, 12, 15]" by simp
  moreover have "map series_count ?calls = [2, 4, 2, 2]" by (simp add: series_count_def 1 3 4)
  ultimately show ?thesis
    by (intro exI [of _ ?calls] exI [of _ q] conjI calls) (simp_all only: nth_Cons_0 nth_Cons_Suc One_nat_def plot_call.simps)
qed

section \<open>A run of the specification\<close>

lemma demo_scenario:
  assumes "sc = Simple name 1000 [p] \<or> sc = Rate_Vs_Latency name p \<or>
    sc = Varying name [p] (variables_of nvs) \<and> full_grid nvs"
  shows "\<exists>r. run_scenario demo_world f sc n = Inr r"
proof -
  obtain p' n' s r where s: "run_simple demo_world f 1000 [p] n = Inr ([p'], n', s)" "simple_results s = Inr r"
    using demo_simple by blast
  let ?v = "(''producerRateLimit'', rate_limits (max_rate s))"
  have "full_grid [?v]" by (simp add: full_grid_def rate_limits_def rate_factors_def)
  then obtain st m where st: "run_varying demo_world f [p'] (variables_of [?v]) n' = Inr st"
      "varying_results (vr_stats st) = Inr m"
    using demo_grid by blast
  have "\<exists>r. run_scenario demo_world f (Rate_Vs_Latency name p) n = Inr r"
    using s(1) st by (simp add: run_rate_vs_latency_def variables_of_def)
  moreover have "\<exists>r. run_scenario demo_world f (Simple name 1000 [p]) n = Inr r" using s by simp
  moreover have "\<exists>r. run_scenario demo_world f (Varying name [p] (variables_of nvs)) n = Inr r" if "full_grid nvs"
    using demo_grid [OF that, of f p n] by auto
  ultimately show ?thesis using assms by blast
qed

lemma demo_tests:
  "\<forall>sc \<in> set scs. \<forall>n. \<exists>r. run_scenario w f sc n = Inr r \<Longrightarrow> \<exists>m. run_tests w f scs n res = Inr m"
proof (induction scs arbitrary: n res)
  case (Cons sc scs)
  then obtain r n' where "run_scenario w f sc n = Inr (r, n')" by fastforce
  then show ?case using Cons by simp
qed simp

lemma demo_various: "\<exists>m. perf_test_multi demo_world various_spec () = Inr m"
proof -
  have names: "mapJsonFieldToPropertyName ''time-limit'' = Inr ''timeLimit''"
    "mapJsonFieldToPropertyName ''consumer-count'' = Inr ''consumerCount''"
    by code_simp+
  have one: "\<forall>j \<in> set various_spec. \<exists>sc. from_json demo_world j () = Inr (sc, ())"
    by (simp add: various_spec_def demo_world_def from_json_def read_required_def read_default_def read0_def connect_def
        params_from_json_def Let_def variable_from_json_def field_names names)
  have "\<exists>scs. make_scenarios demo_world js () = Inr (scs, ())"
    if "\<forall>j \<in> set js. \<exists>sc. from_json demo_world j () = Inr (sc, ())" for js
    using that by (induction js) auto
  from this [OF one]
  obtain scs where scs: "make_scenarios demo_world various_spec () = Inr (scs, ())" by blast
  from various_scenarios [OF this] have "\<forall>sc \<in> set scs. \<forall>n. \<exists>r. run_scenario demo_world () sc n = Inr r"
    using demo_scenario spec_grids by (elim exE) (simp only: list.set ball_simps insert_iff, blast)
  from demo_tests [OF this] show ?thesis by (simp add: perf_test_multi_def scs)
qed

theorem specification_to_charts_witness:
  "\<exists>m. perf_test_multi demo_world various_spec () = Inr m \<and>
    map pc_div (plots (snd (render_graphs template_env (to_js (JMap m)) None various_page))) = [6, 9, 12, 15]"
proof -
  obtain m where m: "perf_test_multi demo_world various_spec () = Inr m" using demo_various by blast
  then obtain scs f' where "run_tests demo_world f' scs 0 [] = Inr m" by (auto simp: perf_test_multi_def bindE_Inr_iff)
  then have "writable (JMap m)" using run_tests_writable [OF demo_sizes] writable_empty by blast
  then have "rep (JMap m) (to_js (JMap m))" by (rule rep_to_js)
  moreover have "\<forall>c. flot template_env c = None" by (simp add: template_env_def)
  ultimately show ?thesis using specification_to_charts [OF m _ template_contract] m by fastforce
qed

end
