(* ===== verification/Perf_Threads.thy ===== *)
theory Perf_Threads
  imports Perf_Stats
begin

text \<open>
  The handlers of \<open>Stats.java\<close> and \<open>SimpleScenarioStats.java\<close> as threads run them. A handler is a
  list of instructions, each of which reads or writes one counter (an \<open>AtomicLong\<close>), the flag
  \<open>ongoingReport\<close>, the monitor of the object, or fields only the holder of the monitor touches;
  between two instructions other threads may run. Histograms, timers and gauges of the metrics
  libraries are left out.
\<close>

section \<open>Counters\<close>

datatype counter =
    Last_Published | Last_Returned | Last_Confirmed | Last_Nacked | Last_Consumed
  | Last_Stats_Time | Start_Time_For_Globals
  | Send_Interval | Return_Interval | Confirm_Interval | Nack_Interval | Recv_Interval
  | Send_Total | Recv_Total | Latency_Count_Interval | Latency_Count_Total
  | Min_Latency | Max_Latency | Cumulative_Interval | Cumulative_Total
  | Elapsed_Interval | Elapsed_Total | Elapsed_To_Ignore

fun get_counter :: "counter \<Rightarrow> stats \<Rightarrow> int" where
  "get_counter Last_Published s = lastPublishedCount s"
| "get_counter Last_Returned s = lastReturnedCount s"
| "get_counter Last_Confirmed s = lastConfirmedCount s"
| "get_counter Last_Nacked s = lastNackedCount s"
| "get_counter Last_Consumed s = lastConsumedCount s"
| "get_counter Last_Stats_Time s = lastStatsTime s"
| "get_counter Start_Time_For_Globals s = startTimeForGlobals s"
| "get_counter Send_Interval s = sendCountInterval s"
| "get_counter Return_Interval s = returnCountInterval s"
| "get_counter Confirm_Interval s = confirmCountInterval s"
| "get_counter Nack_Interval s = nackCountInterval s"
| "get_counter Recv_Interval s = recvCountInterval s"
| "get_counter Send_Total s = sendCountTotal s"
| "get_counter Recv_Total s = recvCountTotal s"
| "get_counter Latency_Count_Interval s = latencyCountInterval s"
| "get_counter Latency_Count_Total s = latencyCountTotal s"
| "get_counter Min_Latency s = minLatency s"
| "get_counter Max_Latency s = maxLatency s"
| "get_counter Cumulative_Interval s = cumulativeLatencyInterval s"
| "get_counter Cumulative_Total s = cumulativeLatencyTotal s"
| "get_counter Elapsed_Interval s = elapsedInterval s"
| "get_counter Elapsed_Total s = elapsedTotal s"
| "get_counter Elapsed_To_Ignore s = elapsedTotalToIgnore s"

fun set_counter :: "counter \<Rightarrow> int \<Rightarrow> stats \<Rightarrow> stats" where
  "set_counter Last_Published n s = s\<lparr>lastPublishedCount := n\<rparr>"
| "set_counter Last_Returned n s = s\<lparr>lastReturnedCount := n\<rparr>"
| "set_counter Last_Confirmed n s = s\<lparr>lastConfirmedCount := n\<rparr>"
| "set_counter Last_Nacked n s = s\<lparr>lastNackedCount := n\<rparr>"
| "set_counter Last_Consumed n s = s\<lparr>lastConsumedCount := n\<rparr>"
| "set_counter Last_Stats_Time n s = s\<lparr>lastStatsTime := n\<rparr>"
| "set_counter Start_Time_For_Globals n s = s\<lparr>startTimeForGlobals := n\<rparr>"
| "set_counter Send_Interval n s = s\<lparr>sendCountInterval := n\<rparr>"
| "set_counter Return_Interval n s = s\<lparr>returnCountInterval := n\<rparr>"
| "set_counter Confirm_Interval n s = s\<lparr>confirmCountInterval := n\<rparr>"
| "set_counter Nack_Interval n s = s\<lparr>nackCountInterval := n\<rparr>"
| "set_counter Recv_Interval n s = s\<lparr>recvCountInterval := n\<rparr>"
| "set_counter Send_Total n s = s\<lparr>sendCountTotal := n\<rparr>"
| "set_counter Recv_Total n s = s\<lparr>recvCountTotal := n\<rparr>"
| "set_counter Latency_Count_Interval n s = s\<lparr>latencyCountInterval := n\<rparr>"
| "set_counter Latency_Count_Total n s = s\<lparr>latencyCountTotal := n\<rparr>"
| "set_counter Min_Latency n s = s\<lparr>minLatency := n\<rparr>"
| "set_counter Max_Latency n s = s\<lparr>maxLatency := n\<rparr>"
| "set_counter Cumulative_Interval n s = s\<lparr>cumulativeLatencyInterval := n\<rparr>"
| "set_counter Cumulative_Total n s = s\<lparr>cumulativeLatencyTotal := n\<rparr>"
| "set_counter Elapsed_Interval n s = s\<lparr>elapsedInterval := n\<rparr>"
| "set_counter Elapsed_Total n s = s\<lparr>elapsedTotal := n\<rparr>"
| "set_counter Elapsed_To_Ignore n s = s\<lparr>elapsedTotalToIgnore := n\<rparr>"

section \<open>Instructions\<close>

text \<open>
  A thread has the value it read last, the time \<open>now\<close>, and inside a report the time of the
  interval in milliseconds, a sum it keeps while it reads a count, and the sample it builds. A
  condition that fails skips instructions, or returns.
\<close>

record local =
  l_now :: int
  l_read :: int
  l_sum :: int
  l_elapsed :: int
  l_sample :: jmap

datatype instr =
    Add counter int
  | Load counter
  | Store counter int
  | Store_Read counter
  | Store_Now counter
  | Store_Min int
  | Store_Max int
  | Clock
  | Store_Elapsed
  | Add_Read counter
  | Return_Unless_Due
  | Try_Report
  | Monitor_Enter
  | Monitor_Exit
  | Release_Report
  | Unless_Fourth nat
  | New_Sample
  | Put_Rate string
  | Put_Bytes_Rate string
  | Put_Millis string
  | Unless_Positive nat
  | Keep_Sum
  | Put_Average string
  | Put_Micros string
  | Add_Sample
  | Unless_Equal counter nat
  | Skip nat

record shared =
  counters :: stats
  ongoingReport :: bool
  monitor :: "nat option"

text \<open>
  The next instruction after skipping some, the end of the handler, or waiting for the monitor.
  An exception ends the handler; it gives the monitor back, but not the flag.
\<close>

datatype move = Go nat | Stop | Blocked

definition on_counters :: "(stats \<Rightarrow> stats) \<Rightarrow> shared \<Rightarrow> shared" where
  "on_counters f sh = sh\<lparr>counters := f (counters sh)\<rparr>"

fun exec :: "int \<Rightarrow> nat \<Rightarrow> instr \<Rightarrow> local \<Rightarrow> shared \<Rightarrow> move \<times> local \<times> shared" where
  "exec now i (Add c n) l sh = (Go 0, l, on_counters (\<lambda>s. set_counter c (wrap64 (get_counter c s + n)) s) sh)"
| "exec now i (Load c) l sh = (Go 0, l\<lparr>l_read := get_counter c (counters sh)\<rparr>, sh)"
| "exec now i (Store c n) l sh = (Go 0, l, on_counters (set_counter c n) sh)"
| "exec now i (Store_Read c) l sh = (Go 0, l, on_counters (set_counter c (l_read l)) sh)"
| "exec now i (Store_Now c) l sh = (Go 0, l, on_counters (set_counter c (l_now l)) sh)"
| "exec now i (Store_Min n) l sh = (Go 0, l, on_counters (set_counter Min_Latency (min (l_read l) n)) sh)"
| "exec now i (Store_Max n) l sh = (Go 0, l, on_counters (set_counter Max_Latency (max (l_read l) n)) sh)"
| "exec now i Clock l sh = (Go 0, l\<lparr>l_now := now\<rparr>, sh)"
| "exec now i Store_Elapsed l sh =
     (Go 0, l, on_counters (set_counter Elapsed_Interval (wrap64 (l_now l - l_read l))) sh)"
| "exec now i (Add_Read c) l sh =
     (Go 0, l, on_counters (\<lambda>s. set_counter c (wrap64 (get_counter c s + l_read l)) s) sh)"
| "exec now i Return_Unless_Due l sh =
     (if intervalInNanoSeconds (counters sh) \<le> l_read l then Go 0 else Stop, l, sh)"
| "exec now i Try_Report l sh =
     (if ongoingReport sh then (Stop, l, sh) else (Go 0, l, sh\<lparr>ongoingReport := True\<rparr>))"
| "exec now i Monitor_Enter l sh =
     (if monitor sh = None then (Go 0, l, sh\<lparr>monitor := Some i\<rparr>) else (Blocked, l, sh))"
| "exec now i Monitor_Exit l sh = (Go 0, l, sh\<lparr>monitor := None\<rparr>)"
| "exec now i Release_Report l sh = (Go 0, l, sh\<lparr>ongoingReport := False\<rparr>)"
| "exec now i (Unless_Fourth n) l sh =
     (if length (samples (counters sh)) = IGNORE_FIRST then Go 0 else Go n, l, sh)"
| "exec now i New_Sample l sh = (Go 0, l\<lparr>l_elapsed := quot (l_read l) 1000000, l_sample := []\<rparr>, sh)"
| "exec now i (Put_Rate k) l sh =
     (Go 0, l\<lparr>l_sample := put k (JDouble (rate (l_read l) (l_elapsed l))) (l_sample l)\<rparr>, sh)"
| "exec now i (Put_Bytes_Rate k) l sh =
     (Go 0, l\<lparr>l_sample := put k (JDouble (rate (l_read l) (l_elapsed l) * of_long (minMsgSize (counters sh)))) (l_sample l)\<rparr>, sh)"
| "exec now i (Put_Millis k) l sh =
     (Go 0, l\<lparr>l_sample := put k (JLong (quot (l_read l) 1000000)) (l_sample l)\<rparr>, sh)"
| "exec now i (Unless_Positive n) l sh = (if 0 < l_read l then Go 0 else Go n, l, sh)"
| "exec now i Keep_Sum l sh = (Go 0, l\<lparr>l_sum := l_read l\<rparr>, sh)"
| "exec now i (Put_Average k) l sh =
     (case long_div (l_sum l) (wrap64 (1000 * l_read l)) of
        Inr avg \<Rightarrow> (Go 0, l\<lparr>l_sample := put k (JLong avg) (l_sample l)\<rparr>, sh)
      | Inl e \<Rightarrow> (Stop, l, sh\<lparr>monitor := None\<rparr>))"
| "exec now i (Put_Micros k) l sh =
     (Go 0, l\<lparr>l_sample := put k (JLong (quot (l_read l) 1000)) (l_sample l)\<rparr>, sh)"
| "exec now i Add_Sample l sh =
     (Go 0, l, on_counters (\<lambda>s. s\<lparr>samples := samples s @ [l_sample l]\<rparr>) sh)"
| "exec now i (Unless_Equal c n) l sh =
     (if l_read l = get_counter c (counters sh) then Go 0 else Go n, l, sh)"
| "exec now i (Skip n) l sh = (Go n, l, sh)"

section \<open>The methods\<close>

text \<open>\<open>resetLastCounts()\<close>, \<open>reset(t)\<close> and the two parts of \<open>report(long)\<close>.\<close>

definition reset_last_code :: "instr list" where
  "reset_last_code =
     [Load Send_Interval, Store_Read Last_Published,
      Load Return_Interval, Store_Read Last_Returned,
      Load Confirm_Interval, Store_Read Last_Confirmed,
      Load Nack_Interval, Store_Read Last_Nacked,
      Load Recv_Interval, Store_Read Last_Consumed]"

definition reset_code :: "instr list" where
  "reset_code =
     Store_Now Last_Stats_Time # reset_last_code @
     [Store Send_Interval 0, Store Return_Interval 0, Store Confirm_Interval 0,
      Store Nack_Interval 0, Store Recv_Interval 0,
      Store Min_Latency long_max, Store Max_Latency long_min,
      Store Latency_Count_Interval 0, Store Cumulative_Interval 0]"

definition warm_up_code :: "instr list" where
  "warm_up_code =
     [Unless_Fourth 6,
      Store Cumulative_Total 0, Store Latency_Count_Total 0, Store Send_Total 0, Store Recv_Total 0,
      Load Elapsed_Total, Store_Read Elapsed_To_Ignore]"

definition sample_code :: "instr list" where
  "sample_code =
     [Load Elapsed_Interval, New_Sample,
      Load Send_Interval, Put_Rate ''send-msg-rate'',
      Load Send_Interval, Put_Bytes_Rate ''send-bytes-rate'',
      Load Recv_Interval, Put_Rate ''recv-msg-rate'',
      Load Recv_Interval, Put_Bytes_Rate ''recv-bytes-rate'',
      Load Elapsed_Total, Put_Millis ''elapsed'',
      Load Latency_Count_Interval, Unless_Positive 8,
      Load Cumulative_Interval, Keep_Sum, Load Latency_Count_Interval, Put_Average ''avg-latency'',
      Load Min_Latency, Put_Micros ''min-latency'',
      Load Max_Latency, Put_Micros ''max-latency'',
      Add_Sample]"

definition due_code :: "instr list" where
  "due_code =
     [Clock, Load Last_Stats_Time, Store_Elapsed,
      Load Elapsed_Interval, Return_Unless_Due,
      Load Elapsed_Interval, Add_Read Elapsed_Total]"

definition report_code :: "instr list" where
  "report_code =
     due_code @ [Try_Report, Monitor_Enter] @ warm_up_code @ sample_code @ reset_code @
     [Monitor_Exit, Release_Report]"

definition latency_code :: "int \<Rightarrow> instr list" where
  "latency_code lat =
     (if 0 \<le> lat
      then [Load Min_Latency, Store_Min lat, Load Max_Latency, Store_Max lat,
            Add Cumulative_Interval lat, Add Cumulative_Total lat,
            Add Latency_Count_Interval 1, Add Latency_Count_Total 1]
      else [])"

text \<open>
  The comparisons of \<open>noActivity()\<close> read both sides, in order, up to the first difference, which
  leads to \<open>resetLastCounts()\<close>.
\<close>

definition gauges_code :: "instr list" where
  "gauges_code =
     [Monitor_Enter,
      Load Last_Published, Unless_Equal Send_Interval 12,
      Load Last_Returned, Unless_Equal Return_Interval 10,
      Load Last_Confirmed, Unless_Equal Confirm_Interval 8,
      Load Last_Nacked, Unless_Equal Nack_Interval 6,
      Load Last_Consumed, Unless_Equal Recv_Interval 4,
      Clock, Load Last_Stats_Time, Store_Elapsed, Skip 10] @
     reset_last_code @ [Monitor_Exit]"

fun program :: "handler \<Rightarrow> instr list" where
  "program Send = [Add Send_Interval 1, Add Send_Total 1] @ report_code"
| "program Return = Add Return_Interval 1 # report_code"
| "program (Confirm n) = Add Confirm_Interval n # report_code"
| "program (Nack n) = Add Nack_Interval n # report_code"
| "program (Recv lat) = [Add Recv_Interval 1, Add Recv_Total 1] @ latency_code lat @ report_code"
| "program Maybe_Reset_Gauges = gauges_code"
| "program Reset_Globals = [Store Send_Total 0, Store Recv_Total 0, Clock, Store_Now Start_Time_For_Globals]"

section \<open>Threads\<close>

text \<open>A thread of the load generator is idle or inside a handler.\<close>

definition fresh_local :: local where
  "fresh_local = \<lparr>l_now = 0, l_read = 0, l_sum = 0, l_elapsed = 0, l_sample = []\<rparr>"

record system =
  shared_state :: shared
  threads :: "(instr list \<times> local) list"
  nano_time :: int

fun continue :: "instr list \<Rightarrow> move \<Rightarrow> instr list option" where
  "continue rest (Go n) = Some (drop n rest)"
| "continue rest Stop = Some []"
| "continue rest Blocked = None"

inductive sys_step :: "system \<Rightarrow> system \<Rightarrow> bool" where
  call: "i < length (threads p) \<Longrightarrow> fst (threads p ! i) = [] \<Longrightarrow>
    sys_step p (p\<lparr>threads := (threads p)[i := (program h, fresh_local)]\<rparr>)"
| exec: "i < length (threads p) \<Longrightarrow> threads p ! i = (ins # rest, l) \<Longrightarrow>
    exec (nano_time p) i ins l (shared_state p) = (m, l', sh) \<Longrightarrow> continue rest m = Some c \<Longrightarrow>
    sys_step p (p\<lparr>shared_state := sh, threads := (threads p)[i := (c, l')]\<rparr>)"
| tick: "nano_time p \<le> t \<Longrightarrow> sys_step p (p\<lparr>nano_time := t\<rparr>)"

inductive sys_steps :: "system \<Rightarrow> system \<Rightarrow> bool" where
  none: "sys_steps p p"
| more: "sys_steps p q \<Longrightarrow> sys_step q r \<Longrightarrow> sys_steps p r"

text \<open>A handler that is alone: the thread runs to its end with no other thread in between.\<close>

fun run_alone :: "int \<Rightarrow> nat \<Rightarrow> instr list \<Rightarrow> local \<Rightarrow> shared \<Rightarrow> (local \<times> shared) option" where
  "run_alone now i [] l sh = Some (l, sh)"
| "run_alone now i (ins # rest) l sh =
     (case exec now i ins l sh of
        (Go n, l', sh') \<Rightarrow> run_alone now i (drop n rest) l' sh'
      | (Stop, l', sh') \<Rightarrow> Some (l', sh')
      | (Blocked, l', sh') \<Rightarrow> None)"

end
