(* ===== verification/Perf_Threads_Step.thy ===== *)
theory Perf_Threads_Step
  imports Perf_Threads Perf_Rates
begin

text \<open>
  A thread that is not disturbed: the instructions of a handler, run without another thread in
  between, do what the one step of \<open>Perf_Stats\<close> does.
\<close>

section \<open>A thread alone\<close>

lemma alone_reset_last:
  "\<exists>l'. l_now l' = l_now l \<and>
     run_alone now i (reset_last_code @ rest) l sh = run_alone now i rest l' (on_counters resetLastCounts sh)"
  by (simp add: reset_last_code_def resetLastCounts_def on_counters_def)
    (rule exI, rule conjI [rotated], rule refl, simp)

lemma alone_reset:
  "\<exists>l'. run_alone now i (reset_code @ rest) l sh = run_alone now i rest l' (on_counters (reset (l_now l)) sh)"
  by (simp add: reset_code_def reset_last_code_def reset_def resetLastCounts_def on_counters_def)
    (rule exI, rule refl)

lemma alone_warm_up:
  "\<exists>l'. l_now l' = l_now l \<and>
     run_alone now i (warm_up_code @ rest) l sh = run_alone now i rest l' (on_counters drop_warm_up sh)"
proof (cases "length (samples (counters sh)) = IGNORE_FIRST")
  case True
  then show ?thesis
    by (simp add: warm_up_code_def drop_warm_up_def on_counters_def)
      (rule exI, rule conjI [rotated], rule refl, simp)
next
  case False
  then show ?thesis by (intro exI [of _ l]) (simp add: warm_up_code_def drop_warm_up_def on_counters_def)
qed

lemma alone_sample:
  assumes "new_sample (counters sh) = Inr m"
  shows "\<exists>l'. l_now l' = l_now l \<and> run_alone now i (sample_code @ rest) l sh =
     run_alone now i rest l' (on_counters (\<lambda>s. s\<lparr>samples := samples s @ [m]\<rparr>) sh)"
proof (cases "0 < latencyCountInterval (counters sh)")
  case True
  then obtain avg where avg: "long_div (cumulativeLatencyInterval (counters sh)) (wrap64 (1000 * latencyCountInterval (counters sh))) = Inr avg"
      "m = put ''max-latency'' (JLong (quot (maxLatency (counters sh)) 1000))
             (put ''min-latency'' (JLong (quot (minLatency (counters sh)) 1000))
             (put ''avg-latency'' (JLong avg) (sample_rates (counters sh))))"
    using assms by (auto simp: new_sample_def intervalAverageLatency_def bindE_Inr_iff simp del: put_def)
  then show ?thesis
    by (simp add: sample_code_def True sample_rates_def Let_def on_counters_def del: put_def)
      (rule exI, rule conjI [rotated], rule refl, simp)
next
  case False
  then have "m = sample_rates (counters sh)" using assms by (simp add: new_sample_def)
  then show ?thesis
    by (simp add: sample_code_def False sample_rates_def Let_def on_counters_def del: put_def)
      (rule exI, rule conjI [rotated], rule refl, simp)
qed

definition quiet :: "stats \<Rightarrow> shared" where
  "quiet s = \<lparr>counters = s, ongoingReport = False, monitor = None\<rparr>"

lemma on_counters_quiet [simp]: "on_counters f (quiet s) = quiet (f s)"
  by (simp add: on_counters_def quiet_def)

lemma quiet_simps [simp]: "counters (quiet s) = s" "ongoingReport (quiet s) = False" "monitor (quiet s) = None"
  by (simp_all add: quiet_def)

definition tail_code :: "instr list" where
  "tail_code = [Try_Report, Monitor_Enter] @ warm_up_code @ sample_code @ reset_code @ [Monitor_Exit, Release_Report]"

lemma report_code_tail: "report_code = due_code @ tail_code"
  by (simp add: report_code_def tail_code_def)

text \<open>A thread that finds the flag free makes the sample and resets the counters.\<close>

definition reported :: "int \<Rightarrow> jmap \<Rightarrow> stats \<Rightarrow> stats" where
  "reported now m s = (let s1 = drop_warm_up s in reset now (s1\<lparr>samples := samples s1 @ [m]\<rparr>))"

lemma alone_tail:
  assumes "new_sample (drop_warm_up s) = Inr m"
  shows "\<exists>l'. run_alone now i tail_code l (quiet s) = Some (l', quiet (reported (l_now l) m s))"
proof -
  define sh where "sh = \<lparr>counters = s, ongoingReport = True, monitor = Some i\<rparr>"
  let ?leaving = "[Monitor_Exit, Release_Report]"
  have "run_alone now i tail_code l (quiet s) = run_alone now i (warm_up_code @ sample_code @ reset_code @ ?leaving) l sh"
    by (simp add: tail_code_def sh_def quiet_def)
  also obtain l1 where l1: "l_now l1 = l_now l"
    "run_alone now i (warm_up_code @ sample_code @ reset_code @ ?leaving) l sh =
     run_alone now i (sample_code @ reset_code @ ?leaving) l1 (on_counters drop_warm_up sh)"
    using alone_warm_up [of l now i "sample_code @ reset_code @ ?leaving" sh] by auto
  note l1(2)
  also obtain l2 where l2: "l_now l2 = l_now l"
    "run_alone now i (sample_code @ reset_code @ ?leaving) l1 (on_counters drop_warm_up sh) =
     run_alone now i (reset_code @ ?leaving) l2 (on_counters (\<lambda>s. s\<lparr>samples := samples s @ [m]\<rparr>) (on_counters drop_warm_up sh))"
    using alone_sample [of "on_counters drop_warm_up sh" m l1 now i "reset_code @ ?leaving"] assms l1(1)
    by (auto simp: sh_def on_counters_def)
  note l2(2)
  also obtain l3 where "run_alone now i (reset_code @ ?leaving) l2
      (on_counters (\<lambda>s. s\<lparr>samples := samples s @ [m]\<rparr>) (on_counters drop_warm_up sh)) =
    run_alone now i ?leaving l3 (on_counters (reset (l_now l)) (on_counters (\<lambda>s. s\<lparr>samples := samples s @ [m]\<rparr>) (on_counters drop_warm_up sh)))"
    using alone_reset [of now i ?leaving l2 "on_counters (\<lambda>s. s\<lparr>samples := samples s @ [m]\<rparr>) (on_counters drop_warm_up sh)"]
    unfolding l2(1) by (rule exE)
  note this
  also have "run_alone now i ?leaving l3 (on_counters (reset (l_now l)) (on_counters (\<lambda>s. s\<lparr>samples := samples s @ [m]\<rparr>) (on_counters drop_warm_up sh))) =
      Some (l3, quiet (reported (l_now l) m s))"
    by (simp add: reported_def Let_def sh_def on_counters_def quiet_def)
  finally show ?thesis by blast
qed

lemma alone_report:
  assumes "report now s = Inr s'"
  shows "\<exists>l'. run_alone now i report_code l (quiet s) = Some (l', quiet s')"
proof -
  define s1 where "s1 = s\<lparr>elapsedInterval := wrap64 (now - lastStatsTime s)\<rparr>"
  show ?thesis
  proof (cases "intervalInNanoSeconds s \<le> wrap64 (now - lastStatsTime s)")
    case False
    then have "s' = s1" using assms by (simp add: report_def Let_def s1_def)
    then show ?thesis using False by (simp add: report_code_tail due_code_def s1_def)
  next
    case True
    define s2 where "s2 = s1\<lparr>elapsedTotal := wrap64 (elapsedTotal s1 + elapsedInterval s1)\<rparr>"
    obtain m where m: "new_sample (drop_warm_up s2) = Inr m" "s' = reported now m s2"
      using assms True by (auto simp: report_def Let_def report_sample_def reported_def bindE_Inr_iff s1_def s2_def)
    have "run_alone now i report_code l (quiet s) =
        run_alone now i tail_code (l\<lparr>l_now := now, l_read := elapsedInterval s2\<rparr>) (quiet s2)"
      using True by (simp add: report_code_tail due_code_def s1_def s2_def)
    then show ?thesis using alone_tail [OF m(1), of now i "l\<lparr>l_now := now, l_read := elapsedInterval s2\<rparr>"] m(2) by simp
  qed
qed

lemma alone_handler:
  assumes "handle_call h now s = Inr s'"
  shows "\<exists>l'. run_alone now i (program h) l (quiet s) = Some (l', quiet s')"
proof (cases h)
  case (Recv lat)
  then show ?thesis
    using assms alone_report [of now "count_latency lat (s\<lparr>recvCountInterval := wrap64 (recvCountInterval s + 1),
        recvCountTotal := wrap64 (recvCountTotal s + 1)\<rparr>)" s' i]
    by (cases "0 \<le> lat") (simp_all add: latency_code_def count_latency_def)
next
  case Maybe_Reset_Gauges
  have 1: "\<exists>l'. run_alone now i (reset_last_code @ [Monitor_Exit]) l \<lparr>counters = s, ongoingReport = False, monitor = Some i\<rparr> =
      Some (l', quiet (resetLastCounts s))" for l
  proof -
    obtain l' where "run_alone now i (reset_last_code @ [Monitor_Exit]) l \<lparr>counters = s, ongoingReport = False, monitor = Some i\<rparr> =
        run_alone now i [Monitor_Exit] l' (on_counters resetLastCounts \<lparr>counters = s, ongoingReport = False, monitor = Some i\<rparr>)"
      using alone_reset_last by metis
    then show ?thesis by (simp add: on_counters_def quiet_def)
  qed
  show ?thesis
  proof (cases "noActivity s")
    case True
    then show ?thesis
      using assms Maybe_Reset_Gauges
      by (simp add: gauges_code_def noActivity_def maybeResetGauges_def on_counters_def quiet_def reset_last_code_def)
  next
    case False
    then show ?thesis
      using assms Maybe_Reset_Gauges 1
      by (auto simp: gauges_code_def noActivity_def maybeResetGauges_def quiet_def)
  qed
next
  case Reset_Globals
  then show ?thesis using assms by (simp add: resetGlobals_def)
qed (use assms alone_report in simp_all)

section \<open>From a thread to the system\<close>

lemma steps_trans: "sys_steps q r \<Longrightarrow> sys_steps p q \<Longrightarrow> sys_steps p r"
  by (induction rule: sys_steps.induct) (auto intro: sys_steps.more)

lemma steps_one: "sys_step p q \<Longrightarrow> sys_steps p q"
  by (rule sys_steps.more [OF sys_steps.none])

fun advance :: "int \<Rightarrow> nat \<Rightarrow> nat \<Rightarrow> instr list \<Rightarrow> local \<Rightarrow> shared \<Rightarrow> (instr list \<times> local \<times> shared) option" where
  "advance now i 0 c l sh = Some (c, l, sh)"
| "advance now i (Suc n) [] l sh = None"
| "advance now i (Suc n) (ins # rest) l sh =
     (case exec now i ins l sh of (m, l', sh') \<Rightarrow>
        (case continue rest m of Some c \<Rightarrow> advance now i n c l' sh' | None \<Rightarrow> None))"

definition put_thread :: "nat \<Rightarrow> instr list \<Rightarrow> local \<Rightarrow> shared \<Rightarrow> system \<Rightarrow> system" where
  "put_thread i c l sh p = p\<lparr>shared_state := sh, threads := (threads p)[i := (c, l)]\<rparr>"

lemma put_thread_simps [simp]:
  "shared_state (put_thread i c l sh p) = sh" "nano_time (put_thread i c l sh p) = nano_time p"
  "threads (put_thread i c l sh p) = (threads p)[i := (c, l)]"
  "put_thread i c l sh (put_thread i c' l' sh' p) = put_thread i c l sh p"
  by (simp_all add: put_thread_def)

lemma put_thread_same: "threads p ! i = (c, l) \<Longrightarrow> put_thread i c l (shared_state p) p = p"
  by (cases p) (auto simp: put_thread_def, metis list_update_id)

lemma advance_steps:
  "advance now i n c l sh = Some (c', l', sh') \<Longrightarrow> i < length (threads p) \<Longrightarrow> threads p ! i = (c, l) \<Longrightarrow>
   shared_state p = sh \<Longrightarrow> nano_time p = now \<Longrightarrow> sys_steps p (put_thread i c' l' sh' p)"
proof (induction now i n c l sh arbitrary: p rule: advance.induct)
  case (1 now i c l sh)
  then show ?case using put_thread_same by (auto intro: sys_steps.none)
next
  case (3 now i n ins rest l sh)
  obtain m l1 sh1 where e: "exec now i ins l sh = (m, l1, sh1)" by (cases "exec now i ins l sh") auto
  then obtain c1 where c1: "continue rest m = Some c1" "advance now i n c1 l1 sh1 = Some (c', l', sh')"
    using 3(2) by (auto split: option.splits)
  let ?q = "put_thread i c1 l1 sh1 p"
  have step: "sys_step p ?q" unfolding put_thread_def using e c1 3(3-6) by (intro sys_step.exec) auto
  have "sys_steps ?q (put_thread i c' l' sh' ?q)"
    using 3(1) [OF e [symmetric] refl c1, of ?q] 3(3-6) by simp
  then show ?case using steps_trans [OF _ steps_one [OF step] ] by simp
qed simp

lemma alone_advance: "run_alone now i c l sh = Some (l', sh') \<Longrightarrow> \<exists>n. advance now i n c l sh = Some ([], l', sh')"
proof (induction now i c l sh rule: run_alone.induct)
  case (1 now i l sh)
  then show ?case by (intro exI [of _ 0]) simp
next
  case (2 now i ins rest l sh)
  obtain m l1 sh1 where e: "exec now i ins l sh = (m, l1, sh1)" by (cases "exec now i ins l sh") auto
  show ?case
  proof (cases m)
    case (Go n)
    then obtain k where "advance now i k (drop n rest) l1 sh1 = Some ([], l', sh')"
      using 2(1) [OF e [symmetric] Go refl] 2(2) e by auto
    then show ?thesis using e Go by (intro exI [of _ "Suc k"]) simp
  next
    case Stop
    then show ?thesis using 2(2) e by (intro exI [of _ 1]) simp
  next
    case Blocked
    then show ?thesis using 2(2) e by simp
  qed
qed

lemma alone_steps:
  "run_alone (nano_time p) i c l (shared_state p) = Some (l', sh') \<Longrightarrow> i < length (threads p) \<Longrightarrow>
   threads p ! i = (c, l) \<Longrightarrow> sys_steps p (put_thread i [] l' sh' p)"
  using alone_advance advance_steps by blast

text \<open>
  C7: a thread that is not disturbed runs a handler as one step. From a state in which no report is
  going on, an idle thread that calls a handler and runs to its end, while the others stand
  still and the clock shows one time, leaves exactly the statistics of the atomic step, and
  gives the flag and the monitor back.
\<close>

theorem handler_runs_as_step:
  assumes "i < length (threads p)" and "fst (threads p ! i) = []" and "shared_state p = quiet s"
    and "handle_call h (nano_time p) s = Inr s'"
  shows "\<exists>l'. sys_steps p (put_thread i [] l' (quiet s') p)"
proof -
  let ?q = "p\<lparr>threads := (threads p)[i := (program h, fresh_local)]\<rparr>"
  obtain l' where l': "run_alone (nano_time ?q) i (program h) fresh_local (shared_state ?q) = Some (l', quiet s')"
    using alone_handler [OF assms(4), of i fresh_local] assms(3) by auto
  then have "sys_steps ?q (put_thread i [] l' (quiet s') ?q)"
    using assms(1) by (intro alone_steps) simp_all
  moreover have "sys_step p ?q" by (rule sys_step.call [OF assms(1,2)])
  ultimately show ?thesis using steps_trans [OF _ steps_one] by (fastforce simp: put_thread_def)
qed

definition two_threads :: "stats \<Rightarrow> system" where
  "two_threads s = \<lparr>shared_state = quiet s, threads = replicate 2 ([], fresh_local), nano_time = 1000000000\<rparr>"

theorem handler_runs_as_step_witness:
  "\<exists>s' l'. sys_steps (two_threads (setup_stats 12 demo_stats))
     (put_thread 0 [] l' (quiet s') (two_threads (setup_stats 12 demo_stats))) \<and> length (samples s') = 1"
proof -
  let ?es = "[(Send, 1000000000)] :: call list"
  have "well_timed 0 ?es" "small_load ?es"
    by (simp_all add: well_timed_def small_load_def lats_def map_filter_def)
  then obtain s' where s': "handle_call Send 1000000000 (setup_stats 12 demo_stats) = Inr s'"
      "tracks 1000000000 0 12 (run_of 1000000000 0 ?es) s'"
    using handle_calls_tracks [OF new_stats_tracks [OF demo_new], of ?es 12] by (auto simp: bindE_Inr_iff)
  have "run_of 1000000000 0 ?es = \<lparr>r_closed = [\<lparr>w_from = 0, w_to = 1000000000, w_calls = [Send]\<rparr>],
      r_opened = 1000000000, r_pending = []\<rparr>"
    by (simp add: run_of_def step_run_def reports_def)
  then have "length (samples s') = 1" using s'(2) by (simp add: tracks_def)
  moreover have "\<exists>l'. sys_steps (two_threads (setup_stats 12 demo_stats))
     (put_thread 0 [] l' (quiet s') (two_threads (setup_stats 12 demo_stats)))"
    using s'(1) by (intro handler_runs_as_step [of 0 _ _ Send]) (simp_all add: two_threads_def del: handle_call.simps)
  ultimately show ?thesis by blast
qed

end
