(* ===== verification/Perf_Threads_Safe.thy ===== *)
theory Perf_Threads_Safe
  imports Perf_Threads_Step
begin

text \<open>
  Safety of the interleaved handlers: the protocol of the flag \<open>ongoingReport\<close> and the monitor is
  an invariant of every run.
\<close>

section \<open>One report at a time\<close>

text \<open>What is left of the protocol of flag and monitor in the instructions of a thread.\<close>

fun is_sync :: "instr \<Rightarrow> bool" where
  "is_sync Try_Report = True"
| "is_sync Monitor_Enter = True"
| "is_sync Monitor_Exit = True"
| "is_sync Release_Report = True"
| "is_sync ins = False"

definition phase :: "instr list \<Rightarrow> instr list" where
  "phase c = filter is_sync c"

definition phases :: "instr list set" where
  "phases = {[], [Try_Report, Monitor_Enter, Monitor_Exit, Release_Report],
     [Monitor_Enter, Monitor_Exit, Release_Report], [Monitor_Exit, Release_Report], [Release_Report],
     [Monitor_Enter, Monitor_Exit], [Monitor_Exit]}"

definition reporting :: "instr list \<Rightarrow> bool" where
  "reporting c \<longleftrightarrow> Release_Report \<in> set (phase c) \<and> Try_Report \<notin> set (phase c)"

definition inside :: "instr list \<Rightarrow> bool" where
  "inside c \<longleftrightarrow> Monitor_Exit \<in> set (phase c) \<and> Monitor_Enter \<notin> set (phase c)"

text \<open>Jumps do not cross the protocol, returns happen before it, and exceptions inside the monitor.\<close>

fun jump_ok :: "instr \<Rightarrow> instr list \<Rightarrow> bool" where
  "jump_ok (Unless_Fourth n) rest = (phase (take n rest) = [])"
| "jump_ok (Unless_Positive n) rest = (phase (take n rest) = [])"
| "jump_ok (Unless_Equal c n) rest = (phase (take n rest) = [])"
| "jump_ok (Skip n) rest = (phase (take n rest) = [])"
| "jump_ok Return_Unless_Due rest = (phase rest = [Try_Report, Monitor_Enter, Monitor_Exit, Release_Report])"
| "jump_ok (Put_Average k) rest = (phase rest = [Monitor_Exit, Release_Report])"
| "jump_ok ins rest = True"

fun well_formed :: "instr list \<Rightarrow> bool" where
  "well_formed [] = True"
| "well_formed (ins # rest) \<longleftrightarrow> jump_ok ins rest \<and> well_formed rest"

lemma phase_simps [simp]:
  "phase [] = []" "phase (ins # rest) = (if is_sync ins then ins # phase rest else phase rest)"
  "phase (c @ d) = phase c @ phase d"
  by (simp_all add: phase_def)

lemma phase_drop: "phase (take n c) = [] \<Longrightarrow> phase (drop n c) = phase c"
  by (metis append_Nil append_take_drop_id phase_simps(3))

lemma well_formed_drop: "well_formed c \<Longrightarrow> well_formed (drop n c)"
  by (induction c arbitrary: n) (auto simp: drop_Cons split: nat.split)

lemmas codes = report_code_def due_code_def warm_up_code_def sample_code_def reset_code_def reset_last_code_def

lemma report_ok: "well_formed report_code" "phase report_code = [Try_Report, Monitor_Enter, Monitor_Exit, Release_Report]"
  by (simp_all add: codes)

lemma gauges_ok: "well_formed gauges_code" "phase gauges_code = [Monitor_Enter, Monitor_Exit]"
  by (simp_all add: gauges_code_def reset_last_code_def)

lemma program_well_formed: "well_formed (program h)"
  by (cases h) (simp_all add: report_ok gauges_ok latency_code_def)

lemma program_phase: "phase (program h) = (case h of Maybe_Reset_Gauges \<Rightarrow> [Monitor_Enter, Monitor_Exit] | Reset_Globals \<Rightarrow> []
      | _ \<Rightarrow> [Try_Report, Monitor_Enter, Monitor_Exit, Release_Report])"
  by (cases h) (simp_all add: report_ok gauges_ok latency_code_def)

lemma program_phases: "phase (program h) \<in> phases" "\<not> reporting (program h)" "\<not> inside (program h)"
  by (simp_all add: program_phase phases_def reporting_def inside_def split: handler.split)

lemma continue_well_formed: "continue rest m = Some c \<Longrightarrow> well_formed rest \<Longrightarrow> well_formed c"
  by (cases m) (auto simp: well_formed_drop)

text \<open>The things a step of a thread can do to the protocol.\<close>

lemma exec_plain:
  assumes "exec now i ins l sh = (m, l', sh')" and "continue rest m = Some c" and "jump_ok ins rest"
    and "\<not> is_sync ins"
  shows "ongoingReport sh' = ongoingReport sh \<and>
    (monitor sh' = monitor sh \<and> (phase c = phase rest \<or> Try_Report \<in> set (phase rest) \<and> phase c = []) \<or>
     monitor sh' = None \<and> phase rest = [Monitor_Exit, Release_Report] \<and> phase c = [])"
  using assms by (cases ins) (clarsimp simp: on_counters_def phase_drop split: if_splits sum.splits)+

lemma exec_sync:
  assumes "exec now i ins l sh = (m, l', sh')" and "continue rest m = Some c" and "is_sync ins"
  shows "ins = Try_Report \<and> monitor sh' = monitor sh \<and>
       (c = [] \<and> ongoingReport sh' = ongoingReport sh \<or> c = rest \<and> \<not> ongoingReport sh \<and> ongoingReport sh') \<or>
     ins = Monitor_Enter \<and> c = rest \<and> monitor sh = None \<and> monitor sh' = Some i \<and> ongoingReport sh' = ongoingReport sh \<or>
     ins = Monitor_Exit \<and> c = rest \<and> monitor sh' = None \<and> ongoingReport sh' = ongoingReport sh \<or>
     ins = Release_Report \<and> c = rest \<and> monitor sh' = monitor sh \<and> \<not> ongoingReport sh'"
  using assms by (cases ins) (auto split: if_splits)

lemma phases_tl: "x # ph \<in> phases \<Longrightarrow> ph \<in> phases"
  by (simp add: phases_def) (elim disjE conjE; simp)

text \<open>The moves of the protocol, seen from the thread that makes them.\<close>

lemma exec_reporting:
  assumes "exec now i ins l sh = (m, l', sh')" and "continue rest m = Some c" and "jump_ok ins rest"
    and "phase (ins # rest) \<in> phases"
  shows "reporting c \<and> reporting (ins # rest) \<and> ongoingReport sh' = ongoingReport sh \<or>
     reporting c \<and> \<not> ongoingReport sh \<and> ongoingReport sh' \<or>
     \<not> reporting c \<and> \<not> reporting (ins # rest) \<and> ongoingReport sh' = ongoingReport sh \<or>
     \<not> reporting c \<and> reporting (ins # rest)"
proof (cases "is_sync ins")
  case True
  show ?thesis using exec_sync [OF assms(1,2) True] assms(4)
    by (elim disjE conjE) (auto simp: phases_def reporting_def)
next
  case False
  show ?thesis using exec_plain [OF assms(1-3) False] False assms(4)
    by (elim disjE conjE) (auto simp: reporting_def phases_def)
qed

lemma exec_inside:
  assumes "exec now i ins l sh = (m, l', sh')" and "continue rest m = Some c" and "jump_ok ins rest"
    and "phase (ins # rest) \<in> phases" and "inside (ins # rest) \<longleftrightarrow> monitor sh = Some i"
  shows "(inside c \<longleftrightarrow> monitor sh' = Some i) \<and>
    (monitor sh' = monitor sh \<or> monitor sh = None \<and> monitor sh' = Some i \<or> monitor sh = Some i \<and> monitor sh' = None)"
proof (cases "is_sync ins")
  case True
  show ?thesis using exec_sync [OF assms(1,2) True] assms(4,5)
    by (elim disjE conjE) (auto simp: phases_def inside_def)
next
  case False
  show ?thesis using exec_plain [OF assms(1-3) False] False assms(4,5)
    by (elim disjE conjE) (auto simp: inside_def phases_def)
qed

lemma exec_phases:
  assumes "exec now i ins l sh = (m, l', sh')" and "continue rest m = Some c" and "jump_ok ins rest"
    and "phase (ins # rest) \<in> phases"
  shows "phase c \<in> phases"
proof (cases "is_sync ins")
  case True
  have "[] \<in> phases" by (simp add: phases_def)
  then show ?thesis using exec_sync [OF assms(1,2) True] assms(4) phases_tl True by auto
next
  case False
  have "[] \<in> phases" by (simp add: phases_def)
  then show ?thesis using exec_plain [OF assms(1-3) False] False assms(4) by auto
qed

text \<open>
  The invariant: the threads follow the protocol, the one that reports holds the flag, and the one
  inside holds the monitor.
\<close>

definition code_of :: "system \<Rightarrow> nat \<Rightarrow> instr list" where
  "code_of p i = fst (threads p ! i)"

definition protocol :: "system \<Rightarrow> bool" where
  "protocol p \<longleftrightarrow>
     (\<forall>i < length (threads p). well_formed (code_of p i) \<and> phase (code_of p i) \<in> phases) \<and>
     (\<forall>i < length (threads p). reporting (code_of p i) \<longrightarrow> ongoingReport (shared_state p)) \<and>
     (\<forall>i < length (threads p). \<forall>j < length (threads p).
        reporting (code_of p i) \<longrightarrow> reporting (code_of p j) \<longrightarrow> i = j) \<and>
     (\<forall>i < length (threads p). inside (code_of p i) \<longleftrightarrow> monitor (shared_state p) = Some i) \<and>
     (\<forall>i. monitor (shared_state p) = Some i \<longrightarrow> i < length (threads p))"

lemma protocolI:
  assumes "\<And>i. i < length (threads p) \<Longrightarrow> well_formed (code_of p i) \<and> phase (code_of p i) \<in> phases"
    and "\<And>i. i < length (threads p) \<Longrightarrow> reporting (code_of p i) \<Longrightarrow> ongoingReport (shared_state p)"
    and "\<And>i j. i < length (threads p) \<Longrightarrow> j < length (threads p) \<Longrightarrow> reporting (code_of p i) \<Longrightarrow>
      reporting (code_of p j) \<Longrightarrow> i = j"
    and "\<And>i. i < length (threads p) \<Longrightarrow> inside (code_of p i) \<longleftrightarrow> monitor (shared_state p) = Some i"
    and "\<And>i. monitor (shared_state p) = Some i \<Longrightarrow> i < length (threads p)"
  shows "protocol p"
  unfolding protocol_def using assms by simp

lemma protocolD:
  assumes "protocol p"
  shows "i < length (threads p) \<Longrightarrow> well_formed (code_of p i)"
    and "i < length (threads p) \<Longrightarrow> phase (code_of p i) \<in> phases"
    and "i < length (threads p) \<Longrightarrow> reporting (code_of p i) \<Longrightarrow> ongoingReport (shared_state p)"
    and "i < length (threads p) \<Longrightarrow> j < length (threads p) \<Longrightarrow> reporting (code_of p i) \<Longrightarrow>
      reporting (code_of p j) \<Longrightarrow> i = j"
    and "i < length (threads p) \<Longrightarrow> inside (code_of p i) \<longleftrightarrow> monitor (shared_state p) = Some i"
    and "monitor (shared_state p) = Some i \<Longrightarrow> i < length (threads p)"
  using assms unfolding protocol_def by simp_all

lemma protocol_exec:
  assumes p: "protocol p" and i: "i < length (threads p)" and at: "threads p ! i = (ins # rest, l)"
    and e: "exec (nano_time p) i ins l (shared_state p) = (m, l', sh)" "continue rest m = Some c"
  shows "protocol (p\<lparr>shared_state := sh, threads := (threads p)[i := (c, l')]\<rparr>)" (is "protocol ?q")
proof (rule protocolI)
  have code: "code_of p i = ins # rest" using at by (simp add: code_of_def)
  have wf: "jump_ok ins rest" "well_formed rest" "phase (ins # rest) \<in> phases"
    using protocolD(1,2) [OF p i] unfolding code by simp_all
  have now: "code_of ?q j = (if j = i then c else code_of p j)" if "j < length (threads p)" for j
    using that by (simp add: code_of_def)
  note r = exec_reporting [OF e wf(1,3)]
  note n = exec_inside [OF e wf(1,3) protocolD(5) [OF p i, unfolded code] ]
  show "well_formed (code_of ?q j) \<and> phase (code_of ?q j) \<in> phases" if "j < length (threads ?q)" for j
    using that now protocolD(1,2) [OF p] continue_well_formed [OF e(2) wf(2)] exec_phases [OF e wf(1,3)] by simp
  show "ongoingReport (shared_state ?q)" if j: "j < length (threads ?q)" "reporting (code_of ?q j)" for j
  proof (cases "j = i")
    case True
    then show ?thesis using j now r protocolD(3) [OF p i] code by auto
  next
    case False
    then have "reporting (code_of p j)" using j now by simp
    then have "ongoingReport (shared_state p)" "\<not> reporting (ins # rest)"
      using protocolD(3,4) [OF p] j(1) i False code by auto
    then show ?thesis using r by auto
  qed
  have alone: "\<not> reporting c" if j: "j < length (threads p)" "j \<noteq> i" "reporting (code_of p j)" for j
  proof -
    have "\<not> reporting (ins # rest)" "ongoingReport (shared_state p)"
      using protocolD(3,4) [OF p j(1)] j i code by metis+
    then show ?thesis using r by blast
  qed
  show "j = k" if jk: "j < length (threads ?q)" "k < length (threads ?q)" "reporting (code_of ?q j)" "reporting (code_of ?q k)" for j k
  proof (cases "j = i \<or> k = i")
    case True
    then show ?thesis using jk now alone by (auto split: if_splits)
  next
    case False
    then show ?thesis using jk now protocolD(4) [OF p, of j k] by simp
  qed
  show "inside (code_of ?q j) \<longleftrightarrow> monitor (shared_state ?q) = Some j" if j: "j < length (threads ?q)" for j
    using n now j protocolD(5) [OF p, of j] by (cases "j = i") auto
  show "j < length (threads ?q)" if "monitor (shared_state ?q) = Some j" for j
    using that n protocolD(6) [OF p] i by auto
qed

lemma protocol_step: "sys_step p q \<Longrightarrow> protocol p \<Longrightarrow> protocol q"
proof (induction rule: sys_step.induct)
  case (call i p h)
  let ?q = "p\<lparr>threads := (threads p)[i := (program h, fresh_local)]\<rparr>"
  have now: "code_of ?q j = (if j = i then program h else code_of p j)" if "j < length (threads p)" for j
    using that by (simp add: code_of_def)
  have idle: "\<not> inside (code_of p i)" using call.hyps(2) by (simp add: code_of_def inside_def)
  show ?case
    by (rule protocolI)
      (use call now idle program_well_formed program_phases protocolD [OF call.prems] in \<open>auto split: if_splits\<close>)
next
  case (exec i p ins rest l m l' sh c)
  then show ?case using protocol_exec by blast
next
  case (tick p t)
  then show ?case by (simp add: protocol_def code_of_def)
qed

definition at_rest :: "system \<Rightarrow> bool" where
  "at_rest p \<longleftrightarrow> monitor (shared_state p) = None \<and> (\<forall>c \<in> set (threads p). fst c = [])"

lemma protocol_steps: "sys_steps p q \<Longrightarrow> protocol p \<Longrightarrow> protocol q"
  by (induction rule: sys_steps.induct) (auto intro: protocol_step)

lemma protocol_start: "at_rest p \<Longrightarrow> protocol p"
  by (rule protocolI) (auto simp: at_rest_def code_of_def phases_def reporting_def inside_def)

text \<open>
  C8: one report at a time. Whatever the threads do, at most one is between taking the flag and
  giving it back, the monitor belongs to exactly the thread that is inside, and as long as a
  thread is in a handler some thread can take a step: the flag and the monitor cannot block
  each other.
\<close>

theorem one_report_at_a_time:
  assumes "at_rest p0" and "sys_steps p0 p"
  shows "(\<forall>i < length (threads p). \<forall>j < length (threads p).
      reporting (fst (threads p ! i)) \<and> reporting (fst (threads p ! j)) \<longrightarrow> i = j) \<and>
    (\<forall>i < length (threads p). inside (fst (threads p ! i)) \<longleftrightarrow> monitor (shared_state p) = Some i) \<and>
    ((\<exists>i < length (threads p). fst (threads p ! i) \<noteq> []) \<longrightarrow>
     (\<exists>i ins rest l m l' sh. i < length (threads p) \<and> threads p ! i = (ins # rest, l) \<and>
        exec (nano_time p) i ins l (shared_state p) = (m, l', sh) \<and> m \<noteq> Blocked))"
proof -
  have p: "protocol p" using protocol_steps [OF assms(2) protocol_start [OF assms(1)] ] .
  have move: "\<exists>i ins rest l m l' sh. i < length (threads p) \<and> threads p ! i = (ins # rest, l) \<and>
        exec (nano_time p) i ins l (shared_state p) = (m, l', sh) \<and> m \<noteq> Blocked"
    if busy: "i < length (threads p)" "fst (threads p ! i) \<noteq> []" for i
  proof -
    have runs: "m \<noteq> Blocked" if "exec now j ins l (shared_state p) = (m, l', sh)"
        "ins = Monitor_Enter \<longrightarrow> monitor (shared_state p) = None" for now j ins l m l' sh
      using that by (cases ins) (auto split: if_splits sum.splits)
    have some: "\<exists>m l' sh. exec (nano_time p) j ins l (shared_state p) = (m, l', sh)" for j ins l
      by (metis prod_cases3)
    obtain ins rest l where at: "threads p ! i = (ins # rest, l)"
      using busy(2) by (cases "threads p ! i", cases "fst (threads p ! i)") auto
    show ?thesis
    proof (cases "ins = Monitor_Enter \<and> monitor (shared_state p) \<noteq> None")
      case False
      obtain m l' sh where e: "exec (nano_time p) i ins l (shared_state p) = (m, l', sh)" using some by blast
      have "m \<noteq> Blocked" using runs [OF e] False by blast
      then show ?thesis using e at busy(1) by blast
    next
      case True
      then obtain j where j: "monitor (shared_state p) = Some j" by blast
      have jl: "j < length (threads p)" using protocolD(6) [OF p j] .
      have ins: "inside (code_of p j)" using protocolD(5) [OF p jl] j by simp
      then obtain ins' rest' l2 where at': "threads p ! j = (ins' # rest', l2)"
        by (cases "threads p ! j", cases "fst (threads p ! j)") (auto simp: code_of_def inside_def)
      have "ins' \<noteq> Monitor_Enter" using ins at' by (auto simp: code_of_def inside_def)
      obtain m l' sh where e: "exec (nano_time p) j ins' l2 (shared_state p) = (m, l', sh)" using some by blast
      have "m \<noteq> Blocked" using runs [OF e] \<open>ins' \<noteq> Monitor_Enter\<close> by blast
      then show ?thesis using e at' jl by blast
    qed
  qed
  show ?thesis
    using protocolD(4,5) [OF p] move unfolding code_of_def by blast
qed

theorem one_report_at_a_time_witness:
  "\<exists>i ins rest l m l' sh. threads ((two_threads demo_stats)\<lparr>threads := [(program Send, fresh_local), ([], fresh_local)]\<rparr>) ! i = (ins # rest, l) \<and>
     exec 1000000000 i ins l (quiet demo_stats) = (m, l', sh) \<and> m \<noteq> Blocked"
proof -
  let ?p = "two_threads demo_stats"
  let ?q = "?p\<lparr>threads := (threads ?p)[0 := (program Send, fresh_local)]\<rparr>"
  have rest: "at_rest ?p" by (simp add: at_rest_def two_threads_def)
  have "sys_steps ?p ?q" by (intro steps_one sys_step.call) (simp_all add: two_threads_def)
  from one_report_at_a_time [OF rest this]
  have "\<exists>i ins rest l m l' sh. i < length (threads ?q) \<and> threads ?q ! i = (ins # rest, l) \<and>
        exec (nano_time ?q) i ins l (shared_state ?q) = (m, l', sh) \<and> m \<noteq> Blocked"
    by (auto simp: two_threads_def dest!: spec [of _ 0])
  moreover have "?q = ?p\<lparr>threads := [(program Send, fresh_local), ([], fresh_local)]\<rparr>"
    "nano_time ?q = 1000000000" "shared_state ?q = quiet demo_stats"
    by (simp_all add: two_threads_def numeral_2_eq_2)
  ultimately show ?thesis by (metis (no_types, lifting))
qed

end
