(* ===== verification/Perf_Threads_Race.thy ===== *)
theory Perf_Threads_Race
  imports Perf_Threads_Step
begin

text \<open>
  What interleaving breaks: the time of an interval is added before the flag is tested, and the
  test does not look at the interval again.
\<close>

section \<open>Two threads report one interval\<close>

lemma call_advance:
  assumes "i < length (threads p)" and "fst (threads p ! i) = []"
    and "advance (nano_time p) i n (program h) fresh_local (shared_state p) = Some (c, l, sh)"
  shows "sys_steps p (put_thread i c l sh p)"
proof -
  let ?q = "p\<lparr>threads := (threads p)[i := (program h, fresh_local)]\<rparr>"
  have "sys_steps ?q (put_thread i c l sh ?q)"
    using assms(1,3) by (intro advance_steps [of "nano_time p" i n "program h" fresh_local "shared_state p"]) simp_all
  moreover have "put_thread i c l sh ?q = put_thread i c l sh p" by (simp add: put_thread_def)
  moreover have "sys_step p ?q" by (rule sys_step.call [OF assms(1,2)])
  ultimately show ?thesis using steps_trans [OF _ steps_one] by metis
qed

text \<open>A thread that sends while the interval is over, up to the test of the flag.\<close>

definition sent :: "int \<Rightarrow> stats \<Rightarrow> stats" where
  "sent now s = s\<lparr>sendCountInterval := wrap64 (sendCountInterval s + 1), sendCountTotal := wrap64 (sendCountTotal s + 1),
     elapsedInterval := wrap64 (now - lastStatsTime s),
     elapsedTotal := wrap64 (elapsedTotal s + wrap64 (now - lastStatsTime s))\<rparr>"

lemma send_advance:
  assumes "intervalInNanoSeconds s \<le> wrap64 (now - lastStatsTime s)"
  shows "advance now i 9 (program Send) fresh_local (quiet s) =
    Some (tail_code, fresh_local\<lparr>l_now := now, l_read := wrap64 (now - lastStatsTime s)\<rparr>, quiet (sent now s))"
  using assms by (simp add: eval_nat_numeral report_code_tail due_code_def sent_def)

lemma warm_up_keeps [simp]:
  "latencyCountInterval (drop_warm_up s) = latencyCountInterval s" "elapsedTotal (drop_warm_up s) = elapsedTotal s"
  "samples (drop_warm_up s) = samples s" "elapsedInterval (drop_warm_up s) = elapsedInterval s"
  "sendCountInterval (drop_warm_up s) = sendCountInterval s"
  by (simp_all add: drop_warm_up_def)

lemma rate_zero: "0 \<le> t \<Longrightarrow> t < 2 ^ 53 \<Longrightarrow> rate 0 t = Fin 0"
  using rate_Fin [of 0 t] by (cases "t = 0") (simp_all add: rate_def rate_of_def)

lemma sample_exists:
  assumes "0 \<le> latencyCountInterval s" and "latencyCountInterval s < 2 ^ 53"
  shows "\<exists>m. new_sample (drop_warm_up s) = Inr m \<and>
    map_of m ''elapsed'' = Some (JLong (quot (elapsedTotal s) 1000000))"
proof -
  have "wrap64 (1000 * latencyCountInterval s) = 1000 * latencyCountInterval s"
    using assms by (intro wrap64_nonneg) simp_all
  then show ?thesis
    by (auto simp: new_sample_def intervalAverageLatency_def long_div_def sample_rates_def Let_def)
qed

text \<open>A thread about to report does so when no other one moves.\<close>

lemma tail_reports:
  assumes "i < length (threads p)" "threads p ! i = (tail_code, l)" "shared_state p = quiet s"
    and "new_sample (drop_warm_up s) = Inr m" "l_now l = nano_time p"
  shows "\<exists>l'. sys_steps p (put_thread i [] l' (quiet (reported (nano_time p) m s)) p)"
proof -
  obtain l' where "run_alone (nano_time p) i tail_code l (quiet s) = Some (l', quiet (reported (nano_time p) m s))"
    using alone_tail [OF assms(4), of "nano_time p" i l] assms(5) by auto
  then show ?thesis using assms(1-3) by (intro exI [of _ l'] alone_steps) simp_all
qed

lemma silent_sample:
  assumes "new_sample (drop_warm_up s) = Inr m" "sendCountInterval s = 0" "latencyCountInterval s = 0"
    and "elapsedInterval s = e" "0 \<le> e" "e < 2 ^ 61"
  shows "map_of m ''send-msg-rate'' = Some (JDouble (Fin 0))"
proof -
  have "m = sample_rates (drop_warm_up s)" using assms(1,3) by (simp add: new_sample_def)
  moreover have "rate 0 (quot e 1000000) = Fin 0" using assms(5,6) by (intro rate_zero) (simp_all add: quot_nonneg)
  ultimately show ?thesis using assms(2,4) by (simp add: sample_rates_def Let_def)
qed

text \<open>
  C14: two threads can report the same interval. Both add the time of the interval to the total
  before they compete for the flag, and the one that comes second reports again once the
  first has reset the counters: when the interval is over, two messages sent at the same time
  can leave two samples, the second with no message at all, and the total time grows twice as
  much as the clock. The elapsed times of all later samples and the overall rates are wrong.
\<close>

theorem interval_reported_twice:
  assumes "i < length (threads p)" and "j < length (threads p)" and "i \<noteq> j"
    and "fst (threads p ! i) = []" and "fst (threads p ! j) = []" and "shared_state p = quiet s"
    and "e = nano_time p - lastStatsTime s" and "0 \<le> e" and "intervalInNanoSeconds s \<le> e"
    and "e < 2 ^ 61" and "0 \<le> elapsedTotal s" and "elapsedTotal s < 2 ^ 61"
    and "0 \<le> latencyCountInterval s" and "latencyCountInterval s < 2 ^ 53"
  shows "\<exists>p' s' m1 m2. sys_steps p p' \<and> nano_time p' = nano_time p \<and> shared_state p' = quiet s' \<and>
    samples s' = samples s @ [m1, m2] \<and> elapsedTotal s' = elapsedTotal s + 2 * e \<and>
    map_of m1 ''elapsed'' = Some (JLong ((elapsedTotal s + 2 * e) div 1000000)) \<and>
    map_of m2 ''elapsed'' = Some (JLong ((elapsedTotal s + 2 * e) div 1000000)) \<and>
    map_of m2 ''send-msg-rate'' = Some (JDouble (Fin 0))"
proof -
  let ?now = "nano_time p" and ?l = "fresh_local\<lparr>l_now := nano_time p, l_read := e\<rparr>"
  have e: "wrap64 (?now - lastStatsTime s) = e" using assms(7,8,10) by (simp add: wrap64_nonneg)
  define s0 where "s0 = sent ?now (sent ?now s)"
  have s0: "elapsedTotal s0 = elapsedTotal s + 2 * e" "samples s0 = samples s"
    "latencyCountInterval s0 = latencyCountInterval s" "elapsedInterval s0 = e"
    using assms(8,10-12) by (simp_all add: s0_def sent_def e wrap64_nonneg)
  define p1 where "p1 = put_thread i tail_code ?l (quiet (sent ?now s)) p"
  define p2 where "p2 = put_thread j tail_code ?l (quiet s0) p1"
  have 1: "sys_steps p p1"
    unfolding p1_def using send_advance [of s ?now i] assms(1,4,6,9) e
    by (intro call_advance [where h = Send and n = 9]) (simp_all del: program.simps)
  have 2: "sys_steps p1 p2"
    unfolding p2_def s0_def using send_advance [of "sent ?now s" ?now j] assms(2,3,5,9) e
    by (intro call_advance [where h = Send and n = 9]) (simp_all add: p1_def sent_def del: program.simps)
  obtain m1 where m1: "new_sample (drop_warm_up s0) = Inr m1"
      "map_of m1 ''elapsed'' = Some (JLong (quot (elapsedTotal s + 2 * e) 1000000))"
    using sample_exists [of s0] assms(13,14) unfolding s0(1,3) by blast
  define s1 where "s1 = reported ?now m1 s0"
  obtain l1 where 3: "sys_steps p2 (put_thread i [] l1 (quiet s1) p2)"
    using tail_reports [of i p2 ?l s0 m1] m1(1) assms(1,3) by (auto simp: p1_def p2_def s1_def)
  have s1: "elapsedTotal s1 = elapsedTotal s + 2 * e" "samples s1 = samples s @ [m1]" "sendCountInterval s1 = 0"
      "latencyCountInterval s1 = 0" "elapsedInterval s1 = e"
    using s0 by (simp_all add: s1_def reported_def Let_def reset_def resetLastCounts_def drop_warm_up_def)
  obtain m2 where m2: "new_sample (drop_warm_up s1) = Inr m2"
      "map_of m2 ''elapsed'' = Some (JLong (quot (elapsedTotal s + 2 * e) 1000000))"
    using sample_exists [of s1] unfolding s1(1,4) by auto
  note rate = silent_sample [OF m2(1) s1(3,4,5) assms(8)]
  define s2 where "s2 = reported ?now m2 s1"
  let ?q = "put_thread i [] l1 (quiet s1) p2"
  obtain l2 where 4: "sys_steps ?q (put_thread j [] l2 (quiet s2) ?q)"
    using tail_reports [of j ?q ?l s1 m2] m2(1) assms(2,3) by (auto simp: p1_def p2_def s2_def)
  have s2: "elapsedTotal s2 = elapsedTotal s + 2 * e" "samples s2 = samples s @ [m1, m2]"
    using s1 by (simp_all add: s2_def reported_def Let_def reset_def resetLastCounts_def drop_warm_up_def)
  have "sys_steps p (put_thread j [] l2 (quiet s2) ?q)"
    using steps_trans [OF 4 steps_trans [OF 3 steps_trans [OF 2 1] ] ] .
  moreover have "quot (elapsedTotal s + 2 * e) 1000000 = (elapsedTotal s + 2 * e) div 1000000"
    using assms(8,11) by (simp add: quot_nonneg)
  ultimately show ?thesis
    using s2 m1(2) m2(2) rate assms(10)
    by (intro exI [of _ "put_thread j [] l2 (quiet s2) ?q"] exI [of _ s2] exI [of _ m1] exI [of _ m2])
      (simp add: p1_def p2_def)
qed

lemma demo_stats_fields:
  "lastStatsTime demo_stats = 0" "intervalInNanoSeconds demo_stats = 1000000000" "elapsedTotal demo_stats = 0"
  "latencyCountInterval demo_stats = 0" "samples demo_stats = []"
  by (simp_all add: demo_stats_def new_stats_def long_min_def long_max_def reset_def resetLastCounts_def)

theorem interval_reported_twice_witness:
  "\<exists>p' s'. sys_steps (two_threads demo_stats) p' \<and> nano_time p' = 1000000000 \<and> shared_state p' = quiet s' \<and>
    length (samples s') = 2 \<and> elapsedTotal s' = 2000000000"
  using interval_reported_twice [of 0 "two_threads demo_stats" 1 demo_stats 1000000000]
  by (fastforce simp: two_threads_def demo_stats_fields)

end
