(* ===== verification/Perf_Messages.thy ===== *)
theory Perf_Messages
  imports Perf_Stats_Spec "HOL-Library.Word"
begin

text \<open>
  The bodies of messages and the latencies measured with them: \<open>TimestampProvider.java\<close>,
  \<open>TimeSequenceMessageBodySource.java\<close>, and the part of \<open>Consumer.java\<close> that reads the timestamp
  of a message. A body starts with a sequence number of 4 bytes and a time of 8 bytes, the most
  significant byte first.
\<close>

section \<open>Big-endian integers\<close>

type_synonym byte = "8 word"

fun be_bytes :: "nat \<Rightarrow> nat \<Rightarrow> byte list" where
  "be_bytes 0 x = []"
| "be_bytes (Suc n) x = be_bytes n (x div 256) @ [of_nat x]"

definition be_value :: "byte list \<Rightarrow> nat" where
  "be_value bs = foldl (\<lambda>a b. 256 * a + unat b) 0 bs"

lemma length_be_bytes [simp]: "length (be_bytes n x) = n"
  by (induction n arbitrary: x) simp_all

lemma unat_byte [simp]: "unat (of_nat x :: byte) = x mod 256"
  by (simp add: unat_of_nat)

lemma be_value_bytes: "be_value (be_bytes n x) = x mod 256 ^ n"
proof (induction n arbitrary: x)
  case (Suc n)
  have "be_value (be_bytes (Suc n) x) = 256 * (x div 256 mod 256 ^ n) + x mod 256"
    using Suc by (simp add: be_value_def)
  also have "\<dots> = x mod (256 * 256 ^ n)" by (simp add: mod_mult2_eq)
  finally show ?case by simp
qed (simp add: be_value_def)

text \<open>The methods \<open>writeInt\<close>, \<open>writeLong\<close>, \<open>readInt\<close> and \<open>readLong\<close> of the data streams.\<close>

definition writeInt :: "int \<Rightarrow> byte list" where
  "writeInt v = be_bytes 4 (nat (v mod 2 ^ 32))"

definition writeLong :: "int \<Rightarrow> byte list" where
  "writeLong v = be_bytes 8 (nat (v mod 2 ^ 64))"

text \<open>Reading past the end of the bytes is an \<open>EOFException\<close>.\<close>

definition readInt :: "byte list \<Rightarrow> (int \<times> byte list) option" where
  "readInt bs = (if length bs < 4 then None
     else let n = int (be_value (take 4 bs)) in Some (if n < 2 ^ 31 then n else n - 2 ^ 32, drop 4 bs))"

definition readLong :: "byte list \<Rightarrow> (int \<times> byte list) option" where
  "readLong bs = (if length bs < 8 then None else Some (wrap64 (int (be_value (take 8 bs))), drop 8 bs))"

lemma wrap64_mod: "wrap64 (x mod 2 ^ 64) = wrap64 x"
  by (simp add: wrap64_def mod_add_left_eq)

lemma be_value_signed: "int (be_value (be_bytes n (nat (v mod 256 ^ n)))) = v mod 256 ^ n"
proof -
  have "nat (v mod 256 ^ n) mod 256 ^ n = nat (v mod 256 ^ n)"
    by (intro mod_less) (simp add: nat_less_iff)
  then show ?thesis by (simp add: be_value_bytes)
qed

lemma readLong_writeLong:
  assumes "long_min \<le> v" and "v \<le> long_max"
  shows "readLong (writeLong v @ bs) = Some (v, bs)"
proof -
  have "int (be_value (writeLong v)) = v mod 2 ^ 64"
    using be_value_signed [of 8 v] by (simp add: writeLong_def)
  moreover have "wrap64 v = v" using assms by (intro wrap64_id) (simp_all add: long_min_def long_max_def)
  ultimately show ?thesis by (simp add: readLong_def writeLong_def [of v, THEN arg_cong, of length] wrap64_mod [simplified])
qed

lemma readInt_writeInt:
  assumes "- (2 ^ 31) \<le> v" and "v < 2 ^ 31"
  shows "readInt (writeInt v @ bs) = Some (v, bs)"
proof -
  have "int (be_value (writeInt v)) = v mod 2 ^ 32"
    using be_value_signed [of 4 v] by (simp add: writeInt_def)
  moreover have "v mod 2 ^ 32 = (if 0 \<le> v then v else v + 2 ^ 32)"
  proof (cases "0 \<le> v")
    case False
    have "v mod 2 ^ 32 = (v + 2 ^ 32) mod 2 ^ 32" by simp
    also have "\<dots> = v + 2 ^ 32" using False assms by (intro mod_pos_pos_trivial) simp_all
    finally show ?thesis using False by simp
  qed (use assms in simp)
  ultimately show ?thesis
    using assms by (simp add: readInt_def writeInt_def [of v, THEN arg_cong, of length] Let_def)
qed

section \<open>Timestamps\<close>

record timestamp_provider =
  useMillis :: bool
  isTimestampInHeader :: bool

definition INCORRECT_VALUE :: int where
  "INCORRECT_VALUE = long_max"

text \<open>\<open>System.nanoTime()\<close> and \<open>System.currentTimeMillis()\<close> are arguments.\<close>

definition getCurrentTime :: "timestamp_provider \<Rightarrow> int \<Rightarrow> int \<Rightarrow> int" where
  "getCurrentTime tp nanos millis = (if useMillis tp then millis else nanos)"

text \<open>\<open>Math.abs\<close> of the least \<open>long\<close> is that number itself.\<close>

definition long_abs :: "int \<Rightarrow> int" where
  "long_abs x = (if x = long_min then long_min else \<bar>x\<bar>)"

definition getDifference :: "int \<Rightarrow> int \<Rightarrow> int" where
  "getDifference ts1 ts2 = (if ts2 = INCORRECT_VALUE then - 1 else long_abs (wrap64 (ts1 - ts2)))"

section \<open>Bodies\<close>

definition doCreate :: "int \<Rightarrow> int \<Rightarrow> byte list" where
  "doCreate timestamp sequenceNumber = writeInt sequenceNumber @ writeLong timestamp"

text \<open>
  The arrays of a source: one for each possible size. They are reused by all messages of the
  source; the sent body is what the array holds when the message is published, right after
  it is made.
\<close>

type_synonym body_source = "byte list list"

text \<open>
  The constructor, for the possible sizes of the indicator (one when the size is fixed); an array
  of negative size is a \<open>NegativeArraySizeException\<close>.
\<close>

definition new_body_source :: "int list \<Rightarrow> body_source option" where
  "new_body_source sizes =
     (if \<exists>n \<in> set sizes. n < 0 then None else Some (map (\<lambda>n. replicate (nat n) 0) sizes))"

text \<open>\<open>System.arraycopy(m, 0, message, 0, m.length)\<close>, for the first array of the size.\<close>

fun copy_into :: "byte list \<Rightarrow> int \<Rightarrow> byte list list \<Rightarrow> byte list \<times> byte list list" where
  "copy_into m sz [] = (m, [])"
| "copy_into m sz (a # as) =
     (if int (length a) = sz
      then (if length m \<le> length a then (let b = m @ drop (length m) a in (b, b # as)) else (m, a # as))
      else (let (b, as') = copy_into m sz as in (b, a # as')))"

text \<open>
  \<open>create\<close>: the body, its time, and the source with its arrays. \<open>sz\<close>, the size, is the value of the
  indicator, which is the size of the only array when the size is fixed. For a size without an
  array the empty array is used, that is, the bare message.
\<close>

definition create :: "timestamp_provider \<Rightarrow> int \<Rightarrow> int \<Rightarrow> int \<Rightarrow> int \<Rightarrow> body_source \<Rightarrow> (byte list \<times> int) \<times> body_source" where
  "create tp nanos millis sz sequenceNumber src =
     (let time = getCurrentTime tp nanos millis;
          (b, as) = copy_into (doCreate time sequenceNumber) sz src
      in ((b, time), as))"

section \<open>Reading a message\<close>

text \<open>
  The headers of a message, as far as they are read: it may have none at all (\<open>getHeaders()\<close> is null), no
  timestamp among them, a timestamp, or a value of another type under its name.
\<close>

datatype timestamp_header = No_Headers | No_Timestamp | Timestamp int | Not_A_Long

text \<open>
  The timestamp extractor of a consumer. In the body, reading past the end is caught; in the headers,
  the exceptions leave.
\<close>

definition extract_timestamp :: "timestamp_provider \<Rightarrow> timestamp_header \<Rightarrow> byte list \<Rightarrow> int jres" where
  "extract_timestamp tp header body =
     (if isTimestampInHeader tp
      then (case header of
              No_Headers \<Rightarrow> Inl Null_Pointer
            | No_Timestamp \<Rightarrow> Inr INCORRECT_VALUE
            | Timestamp t \<Rightarrow> Inr t
            | Not_A_Long \<Rightarrow> Inl Class_Cast)
      else (case readInt body of
              None \<Rightarrow> Inr INCORRECT_VALUE
            | Some (n, rest) \<Rightarrow> (case readLong rest of None \<Rightarrow> Inr INCORRECT_VALUE | Some (t, _) \<Rightarrow> Inr t)))"

text \<open>The latency a consumer hands to the statistics.\<close>

definition message_latency ::
  "timestamp_provider \<Rightarrow> int \<Rightarrow> int \<Rightarrow> timestamp_header \<Rightarrow> byte list \<Rightarrow> int jres" where
  "message_latency tp nanos millis header body =
     bindE (extract_timestamp tp header body) (\<lambda>t.
       Inr (getDifference (getCurrentTime tp nanos millis) t))"

section \<open>A latency is the time between publishing and receiving\<close>

lemma length_doCreate [simp]: "length (doCreate t n) = 12"
  by (simp add: doCreate_def writeInt_def writeLong_def)

lemma copy_into_body:
  assumes "copy_into m sz as = (b, as')" and "0 \<le> sz" and "sz \<in> (\<lambda>a. int (length a)) ` set as"
  shows "take (length m) b = m \<and> int (length b) = max (int (length m)) sz \<and> map length as' = map length as"
  using assms
proof (induction as arbitrary: b as')
  case (Cons a as)
  then show ?case by (auto simp: Let_def split: if_splits prod.splits)
qed simp

lemma extract_created:
  assumes "\<not> isTimestampInHeader tp" and "take 12 b = doCreate t n"
    and "long_min \<le> t" "t \<le> long_max" "- (2 ^ 31) \<le> n" "n < 2 ^ 31"
  shows "extract_timestamp tp h b = Inr t"
proof -
  have "b = writeInt n @ writeLong t @ drop 12 b"
    using append_take_drop_id [of 12 b] assms(2) by (simp add: doCreate_def)
  then show ?thesis
    using assms(1) readInt_writeInt [OF assms(5,6), of "writeLong t @ drop 12 b"] readLong_writeLong [OF assms(3,4), of "drop 12 b"]
    by (simp add: extract_timestamp_def)
qed

lemma extract_short:
  assumes "\<not> isTimestampInHeader tp" and "length c < 12"
  shows "extract_timestamp tp h c = Inr INCORRECT_VALUE"
proof (cases "length c < 4")
  case True
  then show ?thesis using assms(1) by (simp add: extract_timestamp_def readInt_def)
next
  case False
  then obtain n where "readInt c = Some (n, drop 4 c)" by (auto simp: readInt_def Let_def)
  moreover have "readLong (drop 4 c) = None" using assms(2) by (simp add: readLong_def)
  ultimately show ?thesis using assms(1) by (simp add: extract_timestamp_def)
qed

text \<open>
  The time between two readings of a clock, of either sign: the first not the value that stands for
  an unreadable timestamp, the second at most \<open>2 ^ 63 - 1\<close> later.
\<close>

lemma difference_of_clock:
  assumes "t < long_max" "t \<le> t'" "t' - t < 2 ^ 63"
  shows "getDifference t' t = t' - t"
proof -
  have "wrap64 (t' - t) = t' - t" using assms by (intro wrap64_nonneg) simp_all
  then show ?thesis using assms by (simp add: getDifference_def INCORRECT_VALUE_def long_abs_def long_min_def)
qed

text \<open>
  C12: a round trip through the body of a message. Whatever the sizes, the arrays and the messages
  before it were, a body has the larger of the size that was asked for and the twelve bytes it
  needs, and the latency a consumer measures with it is the time that passed since it was
  made, in the unit of the clock: for every reading of the clock, negative or not, but the
  largest \<open>long\<close>, and a time that fits in a \<open>long\<close>. A body of another program that is too short
  has no latency and is not counted. (The timestamp is in the body; the size is one of the sizes
  the source was made for, and not negative.)
\<close>

theorem latency_of_message:
  assumes "\<not> isTimestampInHeader tp" and "create tp nanos millis sz n src = ((b, t), src')"
    and "0 \<le> sz" and "sz \<in> (\<lambda>a. int (length a)) ` set src" and "- (2 ^ 31) \<le> n" and "n < 2 ^ 31"
    and "t' = getCurrentTime tp nanos' millis'" and "long_min \<le> t" and "t < long_max" and "t \<le> t'" and "t' - t < 2 ^ 63"
  shows "int (length b) = max 12 sz \<and> map length src' = map length src \<and>
    message_latency tp nanos' millis' h b = Inr (t' - t) \<and>
    (\<forall>c s. length c < 12 \<longrightarrow> (\<exists>l. message_latency tp nanos' millis' h c = Inr l \<and> count_latency l s = s))"
proof -
  have c: "copy_into (doCreate t n) sz src = (b, src')" "t = getCurrentTime tp nanos millis"
    using assms(2) by (auto simp: create_def Let_def split: prod.splits)
  note b = copy_into_body [OF c(1) assms(3,4)]
  have "extract_timestamp tp h b = Inr t"
    using b assms(5,6,8,9) by (intro extract_created [OF assms(1)]) simp_all
  then have "message_latency tp nanos' millis' h b = Inr (t' - t)"
    using difference_of_clock [OF assms(9-11)] by (simp add: message_latency_def assms(7) [symmetric])
  moreover have "\<exists>l. message_latency tp nanos' millis' h c = Inr l \<and> count_latency l s = s" if "length c < 12" for c s
    using extract_short [OF assms(1) that] by (simp add: message_latency_def getDifference_def count_latency_def)
  ultimately show ?thesis using b by simp
qed

text \<open>A message of 20 bytes made before and received after the zero of the clock.\<close>

theorem latency_of_message_witness:
  "\<exists>b t src'. create \<lparr>useMillis = False, isTimestampInHeader = False\<rparr> (- 1000) 5 20 7 [replicate 20 0] = ((b, t), src') \<and>
     length b = 20 \<and> message_latency \<lparr>useMillis = False, isTimestampInHeader = False\<rparr> 2000 6 No_Headers b = Inr 3000"
proof -
  let ?tp = "\<lparr>useMillis = False, isTimestampInHeader = False\<rparr>"
  obtain b t src' where c: "create ?tp (- 1000) 5 20 7 [replicate 20 0] = ((b, t), src')"
    by (cases "create ?tp (- 1000) 5 20 7 [replicate 20 0]") auto
  then have "t = - 1000" by (auto simp: create_def getCurrentTime_def Let_def split: prod.splits)
  then have "int (length b) = max 12 20" "message_latency ?tp 2000 6 No_Headers b = Inr 3000"
    using latency_of_message [OF _ c, of 2000 2000 6 No_Headers]
    by (simp_all add: getCurrentTime_def long_max_def long_min_def)
  then show ?thesis using c by (intro exI conjI) simp_all
qed

end
