(* ===== verification/Perf_Values.thy ===== *)
theory Perf_Values
  imports Java_Value
begin

text \<open>
  The values that vary during a run (\<open>VariableValueIndicator\<close>): definitions
  \<open>VALUE:DURATION\<close> are checked and laid one after the other on a cycle, and a task that
  runs every so many seconds, the greatest common divisor of the durations, sets the value
  of the interval the elapsed time falls in. The conversion of the text of a value is an
  argument, as in the code. The scheduler is the list of the instants at which it runs the
  task.
\<close>

section \<open>Integers of 32 bits\<close>

definition wrap32 :: "int \<Rightarrow> int" where
  "wrap32 x = (x + 2 ^ 31) mod 2 ^ 32 - 2 ^ 31"

text \<open>The remainder has the sign of the dividend.\<close>

definition rem_int :: "int \<Rightarrow> int \<Rightarrow> int" where
  "rem_int a b = sgn a * (\<bar>a\<bar> mod \<bar>b\<bar>)"

lemma wrap32_id: "0 \<le> x \<Longrightarrow> x \<le> int_max \<Longrightarrow> wrap32 x = x"
  by (simp add: wrap32_def int_max_def)

lemma rem_int_nonneg: "0 \<le> a \<Longrightarrow> 0 < b \<Longrightarrow> rem_int a b = a mod b"
  by (cases "a = 0") (simp_all add: rem_int_def)

text \<open>\<open>Integer.valueOf\<close>: an optional sign and digits, within the range of an \<open>int\<close>.\<close>

definition parse_int :: "string \<Rightarrow> int option" where
  "parse_int s =
     (let signed = s \<noteq> [] \<and> hd s \<in> {CHR ''-'', CHR ''+''};
          neg = s \<noteq> [] \<and> hd s = CHR ''-'';
          ds = if signed then tl s else s;
          n = if neg then - int (dec_val ds) else int (dec_val ds)
      in if ds = [] \<or> \<not> list_all is_digit ds then None
         else if int_min \<le> n \<and> n \<le> int_max then Some n else None)"

section \<open>Definitions\<close>

text \<open>\<open>String.split(":")\<close>: trailing empty parts are dropped.\<close>

definition colon_parts :: "string \<Rightarrow> string list" where
  "colon_parts s =
     (if CHR '':'' \<notin> set s then [s]
      else rev (dropWhile (\<lambda>p. p = []) (rev (split_chr (CHR '':'') s))))"

definition valid_definition :: "string option \<Rightarrow> bool" where
  "valid_definition d =
     (case d of None \<Rightarrow> False
      | Some s \<Rightarrow>
          if s = [] \<or> CHR '':'' \<notin> set s then False
          else (let parts = colon_parts s in
                if length parts \<noteq> 2 then False
                else (case parse_int (parts ! 0) of None \<Rightarrow> False | Some v \<Rightarrow> 0 \<le> v) \<and>
                     (case parse_int (parts ! 1) of None \<Rightarrow> False | Some v \<Rightarrow> 0 < v)))"

definition validate :: "string option \<Rightarrow> unit jres" where
  "validate d =
     (if valid_definition d then Inr ()
      else Inl (Runtime_Exception
        (''Invalid variable value definition: '' @ (case d of None \<Rightarrow> ''null'' | Some s \<Rightarrow> s) @ ''. '' @
         ''Should be [VALUE]:[DURATION] with VALUE integer >= 0 and DURATION integer > 0'')))"

text \<open>\<open>Integer.valueOf(definition.split(":")[1])\<close>, of a definition that is not null.\<close>

definition duration_of :: "string option \<Rightarrow> int jres" where
  "duration_of d =
     (case d of None \<Rightarrow> Inl Null_Pointer
      | Some s \<Rightarrow>
          if length (colon_parts s) \<le> 1 then Inl Index_Out_Of_Bounds
          else (case parse_int (colon_parts s ! 1) of
                  None \<Rightarrow> Inl (Runtime_Exception (''For input string: '' @ colon_parts s ! 1))
                | Some n \<Rightarrow> Inr n))"

record 'v interval =
  first :: int
  last_end :: int
  held :: 'v

definition isIn :: "'v interval \<Rightarrow> int \<Rightarrow> bool" where
  "isIn i x \<longleftrightarrow> first i \<le> x \<and> x < last_end i"

fun lay_intervals :: "(string \<Rightarrow> 'v jres) \<Rightarrow> int \<Rightarrow> string option list \<Rightarrow> 'v interval list jres" where
  "lay_intervals conversion start [] = Inr []"
| "lay_intervals conversion start (d # ds) =
     bindE (validate d) (\<lambda>_.
     bindE (duration_of d) (\<lambda>n.
     let stop = wrap32 (start + n) in
     bindE (conversion (colon_parts (the d) ! 0)) (\<lambda>v.
     bindE (lay_intervals conversion stop ds) (\<lambda>is.
       Inr (\<lparr> first = start, last_end = stop, held = v \<rparr> # is)))))"

definition intervals :: "string option list \<Rightarrow> (string \<Rightarrow> 'v jres) \<Rightarrow> 'v interval list jres" where
  "intervals ds conversion = lay_intervals conversion 0 ds"

section \<open>The period of the task\<close>

function gcd_pair :: "int \<Rightarrow> int \<Rightarrow> int" where
  "gcd_pair a b = (if a = 0 then b else gcd_pair (rem_int b a) a)"
  by pat_completeness auto
termination
proof (relation "measure (\<lambda>(a, b). nat \<bar>a\<bar>)", simp)
  fix a b :: int assume "a \<noteq> 0"
  then have "\<bar>rem_int b a\<bar> < \<bar>a\<bar>" by (auto simp: rem_int_def abs_mult sgn_if)
  then show "((rem_int b a, a), (a, b)) \<in> measure (\<lambda>(a, b). nat \<bar>a\<bar>)" by simp
qed

declare gcd_pair.simps [simp del]

text \<open>The loop over the array, from its first element.\<close>

definition gcd_all :: "int list \<Rightarrow> int jres" where
  "gcd_all ns =
     (case ns of [] \<Rightarrow> Inl Index_Out_Of_Bounds
      | n # rest \<Rightarrow> Inr (foldl (\<lambda>result m. gcd_pair m result) n rest))"

section \<open>The indicator\<close>

text \<open>
  The state the task changes: the value, and what the listeners were told, oldest first
  (the old and the new value; what a listener throws is caught).
\<close>

record 'v indicator =
  definitions :: "string option list"
  laid :: "'v interval list"
  current :: 'v
  told :: "('v \<times> 'v) list"

definition new_indicator ::
  "string option list option \<Rightarrow> (string \<Rightarrow> 'v jres) \<Rightarrow> 'v indicator jres" where
  "new_indicator given conversion =
     (case given of None \<Rightarrow> Inl (Runtime_Exception ''null'')
      | Some ds \<Rightarrow>
          if ds = [] then Inl (Runtime_Exception ''null'')
          else bindE (mapE validate ds) (\<lambda>_.
               bindE (intervals ds conversion) (\<lambda>is.
                 case is of [] \<Rightarrow> Inl Index_Out_Of_Bounds
                 | i # _ \<Rightarrow> Inr \<lparr> definitions = ds, laid = is, current = held i, told = [] \<rparr>)))"

definition NANO_TO_SECOND :: int where
  "NANO_TO_SECOND = 10 ^ 9"

text \<open>
  The first interval the elapsed time is in, if any, gives the value; the listeners hear
  of it when it is another one. A cycle of length zero is a division by zero.
\<close>

definition updateValueIfNecessary ::
  "'v interval list \<Rightarrow> int \<Rightarrow> int \<Rightarrow> int \<Rightarrow> 'v \<times> ('v \<times> 'v) list \<Rightarrow> ('v \<times> ('v \<times> 'v) list) jres" where
  "updateValueIfNecessary is startTime now cycleDuration st =
     (if cycleDuration = 0 then Inl Arithmetic
      else let elapsed = rem_int (quot (wrap64 (now - startTime)) NANO_TO_SECOND) cycleDuration in
        Inr (case List.find (\<lambda>i. isIn i elapsed) is of
               None \<Rightarrow> st
             | Some i \<Rightarrow>
                 if fst st = held i then st else (held i, snd st @ [(fst st, held i)])))"

definition cycle_of :: "'v interval list \<Rightarrow> int" where
  "cycle_of is = last_end (is ! (length is - 1))"

text \<open>The period in seconds, and one run of the task.\<close>

definition period :: "'v indicator \<Rightarrow> int jres" where
  "period ind =
     bindE (mapE duration_of (definitions ind)) (\<lambda>ns.
       Inr (case gcd_all ns of Inl _ \<Rightarrow> 1 | Inr g \<Rightarrow> g))"

definition tick :: "int \<Rightarrow> 'v indicator \<Rightarrow> int \<Rightarrow> 'v indicator jres" where
  "tick startTime ind now =
     bindE (updateValueIfNecessary (laid ind) startTime now (cycle_of (laid ind))
              (current ind, told ind)) (\<lambda>(v, ls).
       Inr (ind\<lparr> current := v, told := ls \<rparr>))"

text \<open>The executor runs the task at these instants; a task that throws is not run again.\<close>

fun ticks :: "int \<Rightarrow> 'v indicator \<Rightarrow> int list \<Rightarrow> 'v indicator" where
  "ticks startTime ind [] = ind"
| "ticks startTime ind (t # ts) =
     (case tick startTime ind t of Inl _ \<Rightarrow> ind | Inr ind' \<Rightarrow> ticks startTime ind' ts)"

definition getValue :: "'v indicator \<Rightarrow> 'v" where
  "getValue ind = current ind"

definition indicator_values :: "'v indicator \<Rightarrow> 'v list" where
  "indicator_values ind = map held (laid ind)"

end
