(* ===== verification/Perf_Producer.thy ===== *)
theory Perf_Producer
  imports Perf_Stats_Spec Perf_Messages Perf_Values
begin

text \<open>
  The publishing side of a producer (\<open>Producer.java\<close>): the pool of permits that bounds the
  messages waiting for a confirm, the map of the messages not yet confirmed, the thread that
  publishes, the listener that receives the confirms, the reset of the pool after a
  recovery of the connection, and the loop with its limit of messages. The channel and the
  broker are the client library's: what they do is the list of the events of a run.
\<close>

section \<open>The map of unconfirmed messages\<close>

text \<open>A \<open>ConcurrentSkipListMap\<close>: associations in ascending order of their keys.\<close>

type_synonym skip_map = "(int \<times> int) list"

definition skip_put :: "int \<Rightarrow> int \<Rightarrow> skip_map \<Rightarrow> skip_map" where
  "skip_put k v m = filter (\<lambda>p. fst p < k) m @ (k, v) # filter (\<lambda>p. k < fst p) m"

definition skip_remove :: "int \<Rightarrow> skip_map \<Rightarrow> skip_map" where
  "skip_remove k m = filter (\<lambda>p. fst p \<noteq> k) m"

text \<open>\<open>headMap(k, true)\<close>, and \<open>clear()\<close> of that view.\<close>

definition head_map :: "int \<Rightarrow> skip_map \<Rightarrow> skip_map" where
  "head_map k m = filter (\<lambda>p. fst p \<le> k) m"

definition clear_head :: "int \<Rightarrow> skip_map \<Rightarrow> skip_map" where
  "clear_head k m = filter (\<lambda>p. k < fst p) m"

section \<open>State\<close>

text \<open>
  The fields of the producer the threads share. \<open>metrics\<close> holds the calls made on the metrics
  of the run, oldest first (the latencies of confirms go to histograms only).
\<close>

record producer =
  maxOutstandingConfirms :: int
  confirmTimeout :: int
  confirmPool :: "int option"
  unconfirmed :: skip_map
  msgCount :: int
  recoveryInProgress :: bool
  metrics :: "handler list"

definition shouldTrackPublishConfirms :: "producer \<Rightarrow> bool" where
  "shouldTrackPublishConfirms p \<longleftrightarrow> confirmPool p \<noteq> None"

definition new_producer :: "int \<Rightarrow> int \<Rightarrow> producer" where
  "new_producer confirm timeout =
     (if 0 < confirm
      then \<lparr> maxOutstandingConfirms = wrap32 confirm, confirmTimeout = timeout,
             confirmPool = Some (wrap32 confirm), unconfirmed = [], msgCount = 0,
             recoveryInProgress = False, metrics = [] \<rparr>
      else \<lparr> maxOutstandingConfirms = - 1, confirmTimeout = - 1, confirmPool = None,
             unconfirmed = [], msgCount = 0, recoveryInProgress = False, metrics = [] \<rparr>)"

section \<open>Operations\<close>

text \<open>\<open>acquire\<close> of one permit: nothing while none is available; no pool, no wait.\<close>

definition maybeWaitIfTooManyOutstandingPublishConfirms :: "producer \<Rightarrow> producer option" where
  "maybeWaitIfTooManyOutstandingPublishConfirms p =
     (case confirmPool p of None \<Rightarrow> Some p
      | Some n \<Rightarrow> if 0 < n then Some (p\<lparr> confirmPool := Some (n - 1) \<rparr>) else None)"

text \<open>What \<open>publish\<close> does before the message is handed to the channel.\<close>

definition track_message :: "int \<Rightarrow> int \<Rightarrow> producer \<Rightarrow> producer" where
  "track_message seqNo timestamp p =
     (if shouldTrackPublishConfirms p
      then p\<lparr> unconfirmed := skip_put seqNo timestamp (unconfirmed p) \<rparr> else p)"

text \<open>The latencies reported with a confirm, its number, and the map after it.\<close>

definition processAck :: "int \<Rightarrow> int \<Rightarrow> bool \<Rightarrow> producer \<Rightarrow> (int \<times> int list) \<times> producer" where
  "processAck currentTime seqNo multiple p =
     (if multiple
      then let confirmed = head_map seqNo (unconfirmed p) in
        ((int (length confirmed), map (\<lambda>e. getDifference currentTime (snd e)) confirmed),
         p\<lparr> unconfirmed := clear_head seqNo (unconfirmed p),
            metrics := metrics p @ [Confirm (int (length confirmed))] \<rparr>)
      else
        ((1, case map_of (unconfirmed p) seqNo of
               None \<Rightarrow> [] | Some t \<Rightarrow> [getDifference currentTime t]),
         p\<lparr> unconfirmed := skip_remove seqNo (unconfirmed p),
            metrics := metrics p @ [Confirm 1] \<rparr>))"

text \<open>
  The timestamp of a single negative confirm is unboxed for the logger: there must be one.
\<close>

definition processNack :: "int \<Rightarrow> bool \<Rightarrow> producer \<Rightarrow> (int \<times> producer) jres" where
  "processNack seqNo multiple p =
     (if multiple
      then let n = int (length (head_map seqNo (unconfirmed p))) in
        Inr (n, p\<lparr> unconfirmed := clear_head seqNo (unconfirmed p), metrics := metrics p @ [Nack n] \<rparr>)
      else
        (case map_of (unconfirmed p) seqNo of None \<Rightarrow> Inl Null_Pointer
         | Some t \<Rightarrow>
             Inr (1, p\<lparr> unconfirmed := skip_remove seqNo (unconfirmed p),
                        metrics := metrics p @ [Nack 1] \<rparr>)))"

definition release :: "int \<Rightarrow> producer \<Rightarrow> producer" where
  "release n p =
     (case confirmPool p of None \<Rightarrow> p
      | Some k \<Rightarrow> if 0 < n then p\<lparr> confirmPool := Some (k + n) \<rparr> else p)"

text \<open>\<open>release\<close> of a negative number of permits throws \<open>IllegalArgumentException\<close>.\<close>

definition maybeResetConfirmPool :: "producer \<Rightarrow> producer jres" where
  "maybeResetConfirmPool p =
     (case confirmPool p of None \<Rightarrow> Inr p
      | Some available \<Rightarrow>
          let usedPermits = maxOutstandingConfirms p - available in
          if usedPermits < 0 then Inl (Runtime_Exception ''null'')
          else Inr (p\<lparr> confirmPool := Some (available + usedPermits) \<rparr>))"

text \<open>
  What the recovery listener runs once the connection is back: when the agent throws, the
  flag stays up.
\<close>

definition handleRecovery :: "producer \<Rightarrow> producer" where
  "handleRecovery p =
     (case maybeResetConfirmPool p of Inl _ \<Rightarrow> p
      | Inr p' \<Rightarrow> p'\<lparr> recoveryInProgress := False \<rparr>)"

section \<open>The threads\<close>

text \<open>
  Where the publishing thread is: outside \<open>handlePublish\<close>, past the test of the recovery, with a
  permit, with the message in the map, or with the message handed over (or its write error
  swallowed); or stopped by a wait for a permit that was too long. And the listener: between two
  confirms, or with the permits of one still to give back.
\<close>

datatype producer_at =
    At_Loop | Not_Recovering | Permit_Held | Tracked int | Written | Stopped

datatype listener_at = No_Confirm | To_Release int | Listener_Failed

text \<open>
  A run: the producer, the two threads, and the channel: whether it is open and confirms what is
  published, its next sequence number, and the messages the broker has and will confirm.
\<close>

record exchange =
  agent :: producer
  publisher :: producer_at
  listener :: listener_at
  confirming :: bool
  connected :: bool
  nextPublishSeqNo :: int
  at_broker :: "int list"

datatype producer_event =
    Check_Recovery
  | Acquire
  | Wait_Too_Long
  | Track int
  | Publish
  | Swallowed_Error bool
  | Fatal_Error
  | Count_Message
  | Confirm_One bool int
  | Confirm_Up_To bool int
  | Release_Permits
  | Connection_Down
  | Recovery_Done

definition count_message :: "producer \<Rightarrow> producer" where
  "count_message p =
     p\<lparr> msgCount := wrap32 (msgCount p + 1), metrics := metrics p @ [Send] \<rparr>"

text \<open>
  \<open>handleAckNack\<close> up to the release. The latencies of a positive confirm, which depend on the
  clock, go to histograms only, so the time it is given does not matter here.
\<close>

definition take_confirm :: "bool \<Rightarrow> bool \<Rightarrow> int \<Rightarrow> exchange \<Rightarrow> exchange" where
  "take_confirm nack multiple seqNo x =
     (if nack
      then (case processNack seqNo multiple (agent x) of
              Inl _ \<Rightarrow> x\<lparr> listener := Listener_Failed \<rparr>
            | Inr (n, p) \<Rightarrow> x\<lparr> agent := p, listener := To_Release n \<rparr>)
      else let ((n, _), p) = processAck 0 seqNo multiple (agent x) in
           x\<lparr> agent := p, listener := To_Release n \<rparr>)"

text \<open>
  One event, where it is possible. A broker confirms a message it has, once, alone or with
  every one before it. A write on a lost connection fails, with an error the recovery process
  lets the producer ignore (whether the channel counted the message is its own affair), or
  with one that ends the thread, as it does without a recovery process; the messages on the lost connection are not confirmed any more, and after the recovery the
  channel counts from one again.
\<close>

fun fire :: "producer_event \<Rightarrow> exchange \<Rightarrow> exchange option" where
  "fire Check_Recovery x =
     (if publisher x = At_Loop \<and> \<not> recoveryInProgress (agent x)
      then Some (x\<lparr> publisher := Not_Recovering \<rparr>) else None)"
| "fire Acquire x =
     (if publisher x \<noteq> Not_Recovering then None
      else (case maybeWaitIfTooManyOutstandingPublishConfirms (agent x) of None \<Rightarrow> None
            | Some p \<Rightarrow> Some (x\<lparr> agent := p, publisher := Permit_Held \<rparr>)))"
| "fire Wait_Too_Long x =
     (if publisher x = Not_Recovering \<and> 0 \<le> confirmTimeout (agent x) \<and>
         maybeWaitIfTooManyOutstandingPublishConfirms (agent x) = None
      then Some (x\<lparr> publisher := Stopped \<rparr>) else None)"
| "fire (Track t) x =
     (if publisher x = Permit_Held
      then Some (x\<lparr> agent := track_message (nextPublishSeqNo x) t (agent x),
                    publisher := Tracked (nextPublishSeqNo x) \<rparr>) else None)"
| "fire Publish x =
     (case publisher x of
        Tracked n \<Rightarrow>
          if connected x
          then Some (x\<lparr> publisher := Written, nextPublishSeqNo := nextPublishSeqNo x + 1,
                        at_broker := nextPublishSeqNo x # at_broker x \<rparr>)
          else None
      | _ \<Rightarrow> None)"
| "fire (Swallowed_Error counted) x =
     (case publisher x of
        Tracked n \<Rightarrow>
          if connected x then None
          else Some (x\<lparr> publisher := Written,
                        nextPublishSeqNo := nextPublishSeqNo x + (if counted then 1 else 0) \<rparr>)
      | _ \<Rightarrow> None)"
| "fire Fatal_Error x =
     (case publisher x of
        Tracked n \<Rightarrow> if connected x then None else Some (x\<lparr> publisher := Stopped \<rparr>)
      | _ \<Rightarrow> None)"
| "fire Count_Message x =
     (if publisher x = Written
      then Some (x\<lparr> agent := count_message (agent x), publisher := At_Loop \<rparr>) else None)"
| "fire (Confirm_One nack n) x =
     (if listener x = No_Confirm \<and> n \<in> set (at_broker x) \<and> confirming x
      then Some (take_confirm nack False n (x\<lparr> at_broker := filter (\<lambda>m. m \<noteq> n) (at_broker x) \<rparr>))
      else None)"
| "fire (Confirm_Up_To nack n) x =
     (if listener x = No_Confirm \<and> n \<in> set (at_broker x) \<and> confirming x
      then Some (take_confirm nack True n (x\<lparr> at_broker := filter (\<lambda>m. n < m) (at_broker x) \<rparr>))
      else None)"
| "fire Release_Permits x =
     (case listener x of
        To_Release n \<Rightarrow> Some (x\<lparr> agent := release n (agent x), listener := No_Confirm \<rparr>)
      | _ \<Rightarrow> None)"
| "fire Connection_Down x =
     Some (x\<lparr> agent := (agent x)\<lparr> recoveryInProgress := True \<rparr>, connected := False, at_broker := [] \<rparr>)"
| "fire Recovery_Done x =
     (if connected x then None
      else Some (x\<lparr> agent := handleRecovery (agent x), connected := True, nextPublishSeqNo := 1 \<rparr>))"

fun fire_all :: "producer_event list \<Rightarrow> exchange \<Rightarrow> exchange option" where
  "fire_all [] x = Some x"
| "fire_all (e # es) x = (case fire e x of None \<Rightarrow> None | Some x' \<Rightarrow> fire_all es x')"

text \<open>\<open>createProducer\<close> puts the channel in confirm mode unless \<open>confirm\<close> is negative.\<close>

definition new_exchange :: "int \<Rightarrow> int \<Rightarrow> exchange" where
  "new_exchange confirm timeout =
     \<lparr> agent = new_producer confirm timeout, publisher = At_Loop, listener = No_Confirm,
       confirming = (0 \<le> confirm), connected = True, nextPublishSeqNo = 1, at_broker = [] \<rparr>"

section \<open>The loop and its limit\<close>

text \<open>
  One turn of the loop of \<open>run\<close>, with what it reads from outside: whether the thread was
  interrupted, whether a recovery is in progress, whether the rate is zero, and the clock at its
  end. Here a message is published in one step.
\<close>

record turn =
  interrupted :: bool
  recovering :: bool
  rate_zero :: bool
  turn_end :: int

record loop_state =
  state_msgCount :: int
  lastStatsTime :: int
  sent :: nat

definition keepGoing :: "int \<Rightarrow> turn \<Rightarrow> loop_state \<Rightarrow> bool" where
  "keepGoing msgLimit t s \<longleftrightarrow> (msgLimit = 0 \<or> state_msgCount s < msgLimit) \<and> \<not> interrupted t"

definition handlePublish :: "turn \<Rightarrow> loop_state \<Rightarrow> loop_state" where
  "handlePublish t s =
     (if recovering t then s
      else s\<lparr> state_msgCount := wrap32 (state_msgCount s + 1), sent := sent s + 1 \<rparr>)"

definition loop_turn :: "bool \<Rightarrow> turn \<Rightarrow> loop_state \<Rightarrow> loop_state" where
  "loop_turn variableRate t s =
     (let s1 = if variableRate \<and> rate_zero t then s else handlePublish t s in
      if variableRate \<and> 1000 < wrap64 (turn_end t - lastStatsTime s1)
      then s1\<lparr> lastStatsTime := turn_end t, state_msgCount := 0 \<rparr> else s1)"

text \<open>The state after the turns, and whether the loop has ended by then.\<close>

fun run_loop :: "bool \<Rightarrow> int \<Rightarrow> turn list \<Rightarrow> loop_state \<Rightarrow> loop_state \<times> bool" where
  "run_loop variableRate msgLimit [] s = (s, False)"
| "run_loop variableRate msgLimit (t # ts) s =
     (if keepGoing msgLimit t s then run_loop variableRate msgLimit ts (loop_turn variableRate t s)
      else (s, True))"

definition new_loop :: "int \<Rightarrow> loop_state" where
  "new_loop startTime = \<lparr> state_msgCount = 0, lastStatsTime = startTime, sent = 0 \<rparr>"

text \<open>
  After the loop: the reason handed to the completion handler, and whether the last confirms are
  waited for before. A loop that was interrupted below its limit hands none.
\<close>

definition finish_run :: "int \<Rightarrow> loop_state \<Rightarrow> (string \<times> bool) option" where
  "finish_run msgLimit s =
     (if msgLimit \<le> state_msgCount s
      then Some (if msgLimit = 0 then (''Producer thread interrupted'', False)
                 else (''Producer reached message limit'', True))
      else None)"

text \<open>
  The wait at the end for the confirms still to come, given for each look at the map whether
  it is empty and for each sleep whether it is interrupted: the number of sleeps, of 100
  milliseconds each. The product with 1000 is one of 32 bits.
\<close>

function wait_polls :: "int \<Rightarrow> (nat \<Rightarrow> bool) \<Rightarrow> (nat \<Rightarrow> bool) \<Rightarrow> int \<Rightarrow> nat \<Rightarrow> nat" where
  "wait_polls timeout empty_at interrupted_at waited k =
     (if timeout < waited then k
      else let waited1 = if empty_at k then timeout else waited;
               waited2 = if interrupted_at k then timeout else waited1
           in wait_polls timeout empty_at interrupted_at (waited2 + 100) (Suc k))"
  by pat_completeness auto
termination
  by (relation "measure (\<lambda>(timeout, e, i, waited, k). nat (timeout + 1 - waited))") (auto simp: Let_def)

declare wait_polls.simps [simp del]

definition maybeWaitForPublishConfirms ::
  "producer \<Rightarrow> (nat \<Rightarrow> bool) \<Rightarrow> (nat \<Rightarrow> bool) \<Rightarrow> nat" where
  "maybeWaitForPublishConfirms p empty_at interrupted_at =
     (case confirmPool p of None \<Rightarrow> 0
      | Some _ \<Rightarrow> wait_polls (wrap32 (confirmTimeout p * 1000)) empty_at interrupted_at 0 0)"

end
