(* ===== verification/Perf_Producer_Spec.thy ===== *)
theory Perf_Producer_Spec
  imports Perf_Producer
begin

text \<open>
  What the publishing side promises while the connection holds: permits and unconfirmed
  messages account for each other whatever the interleaving, and every message is reported
  once. Then what a recovery does to it, and the limit of messages.
\<close>

section \<open>Maps in order\<close>

definition ordered :: "skip_map \<Rightarrow> bool" where
  "ordered m \<longleftrightarrow> sorted_wrt (<) (map fst m)"

lemma ordered_Nil [simp]: "ordered []"
  by (simp add: ordered_def)

lemma ordered_filter: "ordered m \<Longrightarrow> ordered (filter P m)"
  unfolding ordered_def by (induction m) auto

lemma skip_put_last: "\<forall>k \<in> fst ` set m. k < n \<Longrightarrow> skip_put n t m = m @ [(n, t)]"
proof -
  assume a: "\<forall>k \<in> fst ` set m. k < n"
  then have "filter (\<lambda>p. fst p < n) m = m" by (simp add: filter_id_conv)
  moreover have "filter (\<lambda>p. n < fst p) m = []" using a by (fastforce simp: filter_empty_conv)
  ultimately show ?thesis by (simp add: skip_put_def)
qed

lemma ordered_put: "ordered m \<Longrightarrow> \<forall>k \<in> fst ` set m. k < n \<Longrightarrow> ordered (m @ [(n, t)])"
  by (auto simp: ordered_def sorted_wrt_append)

lemma length_remove:
  "ordered m \<Longrightarrow> n \<in> fst ` set m \<Longrightarrow> Suc (length (skip_remove n m)) = length m"
proof (induction m)
  case (Cons p m)
  show ?case
  proof (cases "fst p = n")
    case True
    then have "filter (\<lambda>p. fst p \<noteq> n) m = m" using Cons.prems(1) by (auto simp: ordered_def filter_id_conv)
    then show ?thesis using True by (simp add: skip_remove_def)
  next
    case False
    then show ?thesis using Cons by (auto simp: ordered_def skip_remove_def)
  qed
qed simp

lemma length_head_clear: "length (head_map n m) + length (clear_head n m) = length m"
  unfolding head_map_def clear_head_def
  using sum_length_filter_compl [of "\<lambda>p. fst p \<le> n" m] by (simp add: not_le)

section \<open>What was reported\<close>

definition settled :: "handler list \<Rightarrow> int" where
  "settled hs = sum_list (map (\<lambda>h. case h of Confirm n \<Rightarrow> n | Nack n \<Rightarrow> n | _ \<Rightarrow> 0) hs)"

lemma reported_simps [simp]:
  "settled [] = 0" "settled (hs @ ks) = settled hs + settled ks"
  "sends [Send] = 1" "settled [Send] = 0"
  "sends [Confirm n] = 0" "settled [Confirm n] = n"
  "sends [Nack n] = 0" "settled [Nack n] = n"
  by (simp_all add: sends_def settled_def)

section \<open>The account of permits and messages\<close>

fun in_hand :: "producer_at \<Rightarrow> int" where
  "in_hand Permit_Held = 1"
| "in_hand _ = 0"

fun uncounted :: "producer_at \<Rightarrow> int" where
  "uncounted (Tracked _) = 1"
| "uncounted Written = 1"
| "uncounted _ = 0"

fun releasing :: "listener_at \<Rightarrow> int" where
  "releasing (To_Release n) = n"
| "releasing _ = 0"

definition accounted :: "int \<Rightarrow> exchange \<Rightarrow> bool" where
  "accounted confirm x \<longleftrightarrow>
     (\<exists>permits. confirmPool (agent x) = Some permits \<and> 0 \<le> permits \<and>
        permits + in_hand (publisher x) + int (length (unconfirmed (agent x))) +
          releasing (listener x) = confirm) \<and>
     sends (metrics (agent x)) + uncounted (publisher x) =
       settled (metrics (agent x)) + int (length (unconfirmed (agent x))) \<and>
     listener x \<noteq> Listener_Failed \<and> 0 \<le> releasing (listener x) \<and>
     distinct (at_broker x) \<and> set (at_broker x) \<subseteq> fst ` set (unconfirmed (agent x))"

definition numbered :: "exchange \<Rightarrow> bool" where
  "numbered x \<longleftrightarrow>
     connected x \<and> ordered (unconfirmed (agent x)) \<and>
     (case publisher x of
        Tracked n \<Rightarrow> n = nextPublishSeqNo x \<and> n \<notin> set (at_broker x) \<and>
          n \<in> fst ` set (unconfirmed (agent x)) \<and> (\<forall>k \<in> fst ` set (unconfirmed (agent x)). k \<le> n)
      | _ \<Rightarrow> \<forall>k \<in> fst ` set (unconfirmed (agent x)). k < nextPublishSeqNo x)"

lemma fire_accounted:
  assumes "accounted confirm x" "numbered x" "fire e x = Some y" "e \<noteq> Connection_Down"
  shows "accounted confirm y \<and> numbered y"
proof (cases e)
  case Check_Recovery
  then show ?thesis using assms by (auto simp: accounted_def numbered_def split: if_splits)
next
  case Acquire
  then show ?thesis using assms
    by (auto simp: accounted_def numbered_def maybeWaitIfTooManyOutstandingPublishConfirms_def
        split: if_splits option.splits)
next
  case Wait_Too_Long
  then show ?thesis using assms by (auto simp: accounted_def numbered_def split: if_splits)
next
  case (Track t)
  then have p: "publisher x = Permit_Held" and y: "y = x\<lparr> agent := track_message (nextPublishSeqNo x) t (agent x),
      publisher := Tracked (nextPublishSeqNo x) \<rparr>" using assms(3) by (auto split: if_splits)
  have k: "\<forall>k \<in> fst ` set (unconfirmed (agent x)). k < nextPublishSeqNo x" "ordered (unconfirmed (agent x))"
    using assms(2) p by (simp_all add: numbered_def)
  have a: "shouldTrackPublishConfirms (agent x)" using assms(1) by (auto simp: accounted_def shouldTrackPublishConfirms_def)
  have u: "unconfirmed (agent y) = unconfirmed (agent x) @ [(nextPublishSeqNo x, t)]"
    "metrics (agent y) = metrics (agent x)" "confirmPool (agent y) = confirmPool (agent x)"
    using y a skip_put_last [OF k(1)] by (simp_all add: track_message_def)
  have n: "nextPublishSeqNo x \<notin> set (at_broker x)" using assms(1) k(1) by (fastforce simp: accounted_def)
  have "accounted confirm y" using assms(1) p y u unfolding accounted_def by auto
  moreover have "numbered y" using assms(2) p y u n k ordered_put [OF k(2,1)]
    unfolding numbered_def by (auto intro: less_imp_le)
  ultimately show ?thesis ..
next
  case Publish
  then obtain n where p: "publisher x = Tracked n" and y: "y = x\<lparr> publisher := Written,
      nextPublishSeqNo := nextPublishSeqNo x + 1, at_broker := nextPublishSeqNo x # at_broker x \<rparr>"
    using assms(3) by (auto split: producer_at.splits if_splits)
  show ?thesis using assms(1,2) p y by (auto simp: accounted_def numbered_def)
next
  case (Swallowed_Error c)
  then show ?thesis using assms(2,3) by (auto simp: numbered_def split: producer_at.splits if_splits)
next
  case Fatal_Error
  then show ?thesis using assms(2,3) by (auto simp: numbered_def split: producer_at.splits if_splits)
next
  case Count_Message
  then show ?thesis using assms
    by (auto simp: accounted_def numbered_def count_message_def split: if_splits)
next
  case (Confirm_One nack n)
  then have g: "listener x = No_Confirm" "n \<in> set (at_broker x)"
    and y: "y = take_confirm nack False n (x\<lparr> at_broker := filter (\<lambda>m. m \<noteq> n) (at_broker x) \<rparr>)"
    using assms(3) by (auto split: if_splits)
  let ?m = "unconfirmed (agent x)"
  have m: "ordered ?m" using assms(2) by (simp add: numbered_def)
  have n: "n \<in> fst ` set ?m" using assms(1) g(2) by (auto simp: accounted_def)
  then obtain t where t: "map_of ?m n = Some t" by (metis map_of_eq_None_iff option.exhaust)
  have l: "int (length ?m) = 1 + int (length (skip_remove n ?m))" using length_remove [OF m n] by simp
  have u: "unconfirmed (agent y) = skip_remove n ?m" "confirmPool (agent y) = confirmPool (agent x)"
    "metrics (agent y) = metrics (agent x) @ [if nack then Nack 1 else Confirm 1]"
    "listener y = To_Release 1" "publisher y = publisher x" "connected y = connected x"
    "at_broker y = filter (\<lambda>m. m \<noteq> n) (at_broker x)" "nextPublishSeqNo y = nextPublishSeqNo x"
    using y t by (simp_all add: take_confirm_def processAck_def processNack_def)
  have "accounted confirm y" using assms(1) g l n u unfolding accounted_def
    by (auto simp: skip_remove_def)
  moreover have "numbered y"
    using assms(2) u g ordered_filter [OF m] unfolding numbered_def skip_remove_def
    by (cases "publisher x") (auto simp: image_iff)
  ultimately show ?thesis ..
next
  case (Confirm_Up_To nack n)
  then have g: "listener x = No_Confirm" "n \<in> set (at_broker x)"
    and y: "y = take_confirm nack True n (x\<lparr> at_broker := filter (\<lambda>m. n < m) (at_broker x) \<rparr>)"
    using assms(3) by (auto split: if_splits)
  let ?m = "unconfirmed (agent x)"
  let ?n = "int (length (head_map n ?m))"
  have m: "ordered ?m" using assms(2) by (simp add: numbered_def)
  have l: "int (length ?m) = ?n + int (length (clear_head n ?m))"
    using length_head_clear [of n ?m] by linarith
  have u: "unconfirmed (agent y) = clear_head n ?m" "confirmPool (agent y) = confirmPool (agent x)"
    "metrics (agent y) = metrics (agent x) @ [if nack then Nack ?n else Confirm ?n]"
    "listener y = To_Release ?n" "publisher y = publisher x" "connected y = connected x"
    "at_broker y = filter (\<lambda>m. n < m) (at_broker x)" "nextPublishSeqNo y = nextPublishSeqNo x"
    using y by (simp_all add: take_confirm_def processAck_def processNack_def Let_def)
  have "accounted confirm y" using assms(1) g l u unfolding accounted_def
    by (auto simp: clear_head_def)
  moreover have "numbered y"
  proof (cases "publisher x")
    case (Tracked j)
    have "n \<in> fst ` set ?m" "j \<notin> set (at_broker x)" "\<forall>k \<in> fst ` set ?m. k \<le> j"
      using assms(1,2) g(2) Tracked by (auto simp: accounted_def numbered_def)
    then have "n < j" using g(2) by (metis order_le_neq_trans)
    then show ?thesis using assms(2) u g Tracked ordered_filter [OF m] unfolding numbered_def clear_head_def
      by (auto simp: image_iff)
  qed (use assms(2) u ordered_filter [OF m] in \<open>auto simp: numbered_def clear_head_def\<close>)
  ultimately show ?thesis ..
next
  case Release_Permits
  then obtain n where l: "listener x = To_Release n" and y: "y = x\<lparr> agent := release n (agent x), listener := No_Confirm \<rparr>"
    using assms(3) by (auto split: listener_at.splits)
  have n: "0 \<le> n" using assms(1) l by (simp add: accounted_def)
  show ?thesis using assms(1,2) l y n
    by (cases "publisher x") (auto simp: accounted_def numbered_def release_def split: option.splits)
next
  case Recovery_Done
  then show ?thesis using assms(2,3) by (simp add: numbered_def)
qed (use assms in simp)

lemma fire_all_accounted:
  "fire_all es x = Some y \<Longrightarrow> Connection_Down \<notin> set es \<Longrightarrow> accounted confirm x \<Longrightarrow> numbered x \<Longrightarrow>
   accounted confirm y \<and> numbered y"
proof (induction es arbitrary: x)
  case (Cons e es)
  then obtain x' where x': "fire e x = Some x'" "fire_all es x' = Some y" by (auto split: option.splits)
  have "accounted confirm x' \<and> numbered x'" using Cons.prems x'(1) by (intro fire_accounted [of confirm x]) auto
  then show ?case using Cons.IH [OF x'(2)] Cons.prems(2) by simp
qed simp

lemma length_at_broker:
  assumes "accounted confirm x" shows "int (length (at_broker x)) \<le> confirm"
proof -
  have d: "distinct (at_broker x)" "set (at_broker x) \<subseteq> fst ` set (unconfirmed (agent x))"
    using assms by (simp_all add: accounted_def)
  have "length (at_broker x) = card (set (at_broker x))" using d(1) by (simp add: distinct_card)
  also have "\<dots> \<le> card (fst ` set (unconfirmed (agent x)))" using d(2) by (intro card_mono) auto
  also have "\<dots> \<le> length (unconfirmed (agent x))" using card_image_le [of "set (unconfirmed (agent x))" fst]
      card_length [of "unconfirmed (agent x)"] by simp
  moreover have "0 \<le> in_hand (publisher x)" by (cases "publisher x") simp_all
  ultimately show ?thesis using assms unfolding accounted_def by linarith
qed


text \<open>
  C9: while the connection holds, permits and messages account for each other in every
  interleaving of the publishing thread, the broker's confirms (positive or negative, alone
  or up to a number) and the listener that gives permits back. The permits left, the one in
  hand, the messages in the map and the permits still to be given back always add up to the
  limit; so at most that many messages are with the broker, and each of them is in the map. Every
  message counted as published is confirmed, refused or in the map: each is reported
  exactly once, and the listener never meets a message it does not know.
\<close>
theorem confirms_accounted:
  assumes "0 < confirm" "confirm \<le> int_max"
    and "Connection_Down \<notin> set es"
    and "fire_all es (new_exchange confirm timeout) = Some x"
  shows "(case confirmPool (agent x) of None \<Rightarrow> False
          | Some permits \<Rightarrow> 0 \<le> permits \<and>
              permits + in_hand (publisher x) + int (length (unconfirmed (agent x))) +
                releasing (listener x) = confirm) \<and>
         sends (metrics (agent x)) + uncounted (publisher x) =
           settled (metrics (agent x)) + int (length (unconfirmed (agent x))) \<and>
         int (length (at_broker x)) \<le> confirm \<and>
         set (at_broker x) \<subseteq> fst ` set (unconfirmed (agent x)) \<and>
         listener x \<noteq> Listener_Failed"
proof -
  have "wrap32 confirm = confirm" using assms(1,2) by (simp add: wrap32_id)
  then have "accounted confirm (new_exchange confirm timeout) \<and> numbered (new_exchange confirm timeout)"
    using assms(1) by (simp add: accounted_def numbered_def new_exchange_def new_producer_def)
  then have a: "accounted confirm x" using fire_all_accounted [OF assms(4,3)] by blast
  show ?thesis using a length_at_broker [OF a] by (auto simp: accounted_def)
qed

theorem confirms_accounted_witness:
  "\<exists>x. fire_all [Check_Recovery, Acquire, Track 5, Publish, Count_Message, Check_Recovery, Acquire, Track 7,
                 Publish, Confirm_Up_To False 2, Count_Message, Check_Recovery] (new_exchange 2 30) = Some x \<and>
       confirmPool (agent x) = Some 0 \<and> metrics (agent x) = [Send, Confirm 2, Send] \<and>
       listener x = To_Release 2 \<and>
       sends (metrics (agent x)) = settled (metrics (agent x)) + int (length (unconfirmed (agent x)))"
proof -
  let ?es = "[Check_Recovery, Acquire, Track 5, Publish, Count_Message, Check_Recovery, Acquire, Track 7,
              Publish, Confirm_Up_To False 2, Count_Message, Check_Recovery]"
  have f: "fire_all ?es (new_exchange 2 30) \<noteq> None" by code_simp
  have r: "map_option (\<lambda>x. (confirmPool (agent x), metrics (agent x), listener x, publisher x))
          (fire_all ?es (new_exchange 2 30)) =
        Some (Some 0, [Send, Confirm 2, Send], To_Release 2, Not_Recovering)" by code_simp
  from f obtain x where x: "fire_all ?es (new_exchange 2 30) = Some x" by blast
  have "sends (metrics (agent x)) + uncounted (publisher x) =
      settled (metrics (agent x)) + int (length (unconfirmed (agent x)))"
    using confirms_accounted [of 2 ?es 30 x] x by (simp add: int_max_def)
  then show ?thesis using x r by (intro exI [of _ x]) simp
qed

section \<open>Recoveries\<close>

text \<open>
  A producer outside \<open>handlePublish\<close> whose pool has more permits than its limit, with the flag of
  the recovery up: nothing changes that.
\<close>

definition stopped_for_good :: "int \<Rightarrow> exchange \<Rightarrow> bool" where
  "stopped_for_good n x \<longleftrightarrow>
     publisher x = At_Loop \<and> recoveryInProgress (agent x) \<and>
     (\<exists>k. confirmPool (agent x) = Some k \<and> maxOutstandingConfirms (agent x) < k) \<and>
     sends (metrics (agent x)) = n"

lemma take_confirm_fields:
  "publisher (take_confirm nack m k x) = publisher x"
  "recoveryInProgress (agent (take_confirm nack m k x)) = recoveryInProgress (agent x)"
  "confirmPool (agent (take_confirm nack m k x)) = confirmPool (agent x)"
  "maxOutstandingConfirms (agent (take_confirm nack m k x)) = maxOutstandingConfirms (agent x)"
  "sends (metrics (agent (take_confirm nack m k x))) = sends (metrics (agent x))"
  by (auto simp: take_confirm_def processAck_def processNack_def Let_def split: option.splits sum.splits)

lemma fire_stopped: "stopped_for_good n x \<Longrightarrow> fire e x = Some y \<Longrightarrow> stopped_for_good n y"
proof (cases e)
  case Recovery_Done
  assume "stopped_for_good n x" "fire e x = Some y"
  then show ?thesis using Recovery_Done
    by (auto simp: stopped_for_good_def handleRecovery_def maybeResetConfirmPool_def split: if_splits)
next
  case Release_Permits
  assume "stopped_for_good n x" "fire e x = Some y"
  then show ?thesis using Release_Permits
    by (auto simp: stopped_for_good_def release_def split: listener_at.splits)
qed (auto simp: stopped_for_good_def take_confirm_fields split: if_splits)

lemma fire_all_stopped: "stopped_for_good n x \<Longrightarrow> fire_all es x = Some y \<Longrightarrow> stopped_for_good n y"
proof (induction es arbitrary: x)
  case (Cons e es)
  then obtain x' where "fire e x = Some x'" "fire_all es x' = Some y" by (auto split: option.splits)
  then show ?case using Cons.IH [of x'] fire_stopped [OF Cons.prems(1)] by blast
qed simp

lemma fire_all_append:
  "fire_all (es @ fs) x = (case fire_all es x of None \<Rightarrow> None | Some y \<Rightarrow> fire_all fs y)"
  by (induction es arbitrary: x) (auto split: option.splits)

text \<open>
  C13: a recovery can stop a producer for good. When the connection is lost and back while the
  thread is between the permit and the message, the reset of the pool gives back a permit the
  confirm of the message gives back again, so the pool has one more than its limit. At
  the next loss of the connection the reset asks for the release of \<open>- 1\<close> permits, which throws,
  and the flag of the recovery stays up: whatever happens then, recoveries included, the
  producer never publishes again. This holds for every limit, and the run exists.
\<close>
theorem recovery_stops_producer:
  assumes "0 < confirm" "confirm < int_max"
    and "race = [Check_Recovery, Acquire, Connection_Down, Recovery_Done, Track t, Publish,
                 Count_Message, Confirm_One False 1, Release_Permits]"
  shows "(case fire_all race (new_exchange confirm timeout) of None \<Rightarrow> False
          | Some x \<Rightarrow> confirmPool (agent x) = Some (confirm + 1) \<and> unconfirmed (agent x) = []) \<and>
         fire_all (race @ [Connection_Down, Recovery_Done]) (new_exchange confirm timeout) \<noteq> None \<and>
         (case fire_all (race @ Connection_Down # es) (new_exchange confirm timeout) of None \<Rightarrow> True
          | Some y \<Rightarrow> recoveryInProgress (agent y) \<and> publisher y = At_Loop \<and>
                      sends (metrics (agent y)) = 1)"
proof -
  have w: "wrap32 confirm = confirm" using assms(1,2) by (simp add: wrap32_id)
  obtain x where x: "fire_all race (new_exchange confirm timeout) = Some x"
    and r: "confirmPool (agent x) = Some (confirm + 1)" "unconfirmed (agent x) = []" "connected x"
      "publisher x = At_Loop" "maxOutstandingConfirms (agent x) = confirm" "metrics (agent x) = [Send, Confirm 1]"
    using assms(1) w
    by (simp add: assms(3) new_exchange_def new_producer_def maybeWaitIfTooManyOutstandingPublishConfirms_def
        handleRecovery_def maybeResetConfirmPool_def track_message_def shouldTrackPublishConfirms_def
        skip_put_def count_message_def take_confirm_def processAck_def skip_remove_def release_def Let_def)
  let ?x = "x\<lparr> agent := (agent x)\<lparr> recoveryInProgress := True \<rparr>, connected := False, at_broker := [] \<rparr>"
  have s: "sends [Send, Confirm 1] = 1" by (simp add: sends_def)
  have "stopped_for_good 1 ?x" using r s by (simp add: stopped_for_good_def)
  then have "case fire_all es ?x of None \<Rightarrow> True
      | Some y \<Rightarrow> recoveryInProgress (agent y) \<and> publisher y = At_Loop \<and> sends (metrics (agent y)) = 1"
    using fire_all_stopped [of 1 ?x es] by (auto simp: stopped_for_good_def split: option.splits)
  then show ?thesis using x r by (simp add: fire_all_append)
qed

theorem recovery_stops_producer_witness:
  "case fire_all [Check_Recovery, Acquire, Connection_Down, Recovery_Done, Track 0, Publish, Count_Message,
                  Confirm_One False 1, Release_Permits, Connection_Down, Recovery_Done] (new_exchange 100 30)
   of None \<Rightarrow> False | Some y \<Rightarrow> recoveryInProgress (agent y) \<and> sends (metrics (agent y)) = 1"
proof -
  let ?race = "[Check_Recovery, Acquire, Connection_Down, Recovery_Done, Track 0, Publish, Count_Message,
                Confirm_One False 1, Release_Permits]"
  let ?run = "fire_all (?race @ [Connection_Down, Recovery_Done]) (new_exchange 100 30)"
  have "(0::int) < 100" "(100::int) < int_max" by (simp_all add: int_max_def)
  from recovery_stops_producer [OF this refl, of 0 30 "[Recovery_Done]"]
  have "?run \<noteq> None"
    "case ?run of None \<Rightarrow> True
     | Some y \<Rightarrow> recoveryInProgress (agent y) \<and> publisher y = At_Loop \<and> sends (metrics (agent y)) = 1"
    by blast+
  then have "case ?run of None \<Rightarrow> False
     | Some y \<Rightarrow> recoveryInProgress (agent y) \<and> sends (metrics (agent y)) = 1"
    by (cases ?run) (simp_all only: option.case, blast+)
  then show ?thesis by (simp only: append_Cons append_Nil)
qed


text \<open>
  With a limit of zero the channel confirms but the producer does not keep its messages:
  a confirm of several messages reports none, and the negative confirm of one makes the
  listener throw, as there is no timestamp to log.
\<close>
theorem confirm_zero:
  assumes "fire_all es (new_exchange 0 timeout) = Some x"
  shows "confirmPool (agent x) = None \<and> unconfirmed (agent x) = [] \<and>
         (case fire (Confirm_Up_To nack n) x of None \<Rightarrow> True
          | Some y \<Rightarrow> metrics (agent y) = metrics (agent x) @ [if nack then Nack 0 else Confirm 0]) \<and>
         (case fire (Confirm_One True n) x of None \<Rightarrow> True
          | Some y \<Rightarrow> listener y = Listener_Failed \<and> metrics (agent y) = metrics (agent x))"
proof -
  have keep: "confirmPool (agent y) = None \<and> unconfirmed (agent y) = []"
    if "confirmPool (agent x) = None \<and> unconfirmed (agent x) = []" "fire e x = Some y" for e x y
    using that
    by (cases e)
      (auto simp: maybeWaitIfTooManyOutstandingPublishConfirms_def track_message_def
        shouldTrackPublishConfirms_def count_message_def take_confirm_def processAck_def processNack_def
        release_def handleRecovery_def maybeResetConfirmPool_def clear_head_def skip_remove_def Let_def
        split: if_splits producer_at.splits listener_at.splits)
  have "confirmPool (agent y) = None \<and> unconfirmed (agent y) = []"
    if "confirmPool (agent x) = None \<and> unconfirmed (agent x) = []" "fire_all es x = Some y" for es x y
    using that
  proof (induction es arbitrary: x)
    case (Cons e es)
    then obtain x' where "fire e x = Some x'" "fire_all es x' = Some y" by (auto split: option.splits)
    then show ?case using Cons.IH [of x'] keep [OF Cons.prems(1)] by blast
  qed simp
  from this [OF _ assms] have x: "confirmPool (agent x) = None" "unconfirmed (agent x) = []"
    by (simp_all add: new_exchange_def new_producer_def)
  then show ?thesis by (simp add: take_confirm_def processAck_def processNack_def head_map_def)
qed

theorem confirm_zero_witness:
  "\<exists>x y. fire_all [Check_Recovery, Acquire, Track 0, Publish, Count_Message, Check_Recovery, Acquire,
                   Track 0, Publish, Count_Message] (new_exchange 0 30) = Some x \<and>
         fire (Confirm_Up_To False 2) x = Some y \<and> metrics (agent y) = [Send, Send, Confirm 0]"
proof -
  let ?es = "[Check_Recovery, Acquire, Track 0, Publish, Count_Message, Check_Recovery, Acquire,
              Track 0, Publish, Count_Message]"
  have r: "map_option (\<lambda>x. (metrics (agent x), fire (Confirm_Up_To False 2) x = None))
          (fire_all ?es (new_exchange 0 30)) = Some ([Send, Send], False)" by code_simp
  then obtain x where x: "fire_all ?es (new_exchange 0 30) = Some x" by blast
  with r obtain y where y: "fire (Confirm_Up_To False 2) x = Some y" by auto
  have "case fire (Confirm_Up_To False 2) x of None \<Rightarrow> True
      | Some y \<Rightarrow> metrics (agent y) = metrics (agent x) @ [if False then Nack 0 else Confirm 0]"
    using confirm_zero [OF x, of False 2] by blast
  then show ?thesis using x y r by (intro exI [of _ x] exI [of _ y]) simp
qed

section \<open>The limit of messages\<close>

lemma fixed_loop:
  "0 \<le> state_msgCount s \<Longrightarrow> state_msgCount s \<le> L \<Longrightarrow> L \<le> int_max \<Longrightarrow> 0 < L \<Longrightarrow>
   \<forall>t \<in> set ts. \<not> interrupted t \<Longrightarrow> run_loop False L ts s = (s', ended) \<Longrightarrow>
   sent s' = sent s + min (nat (L - state_msgCount s)) (length (filter (\<lambda>t. \<not> recovering t) ts)) \<and>
   (ended \<longrightarrow> sent s' = sent s + nat (L - state_msgCount s) \<and> state_msgCount s' = L) \<and>
   (nat (L - state_msgCount s) < length (filter (\<lambda>t. \<not> recovering t) ts) \<longrightarrow> ended)"
proof (induction ts arbitrary: s)
  case (Cons t ts)
  show ?case
  proof (cases "state_msgCount s < L")
    case True
    then have k: "keepGoing L t s" using Cons.prems by (simp add: keepGoing_def)
    then have run: "run_loop False L ts (loop_turn False t s) = (s', ended)" using Cons.prems by simp
    show ?thesis
    proof (cases "recovering t")
      case rec: True
      have "loop_turn False t s = s" using rec by (simp add: loop_turn_def handlePublish_def)
      then have r: "run_loop False L ts s = (s', ended)" using run by simp
      have i: "\<forall>t \<in> set ts. \<not> interrupted t" using Cons.prems(5) by simp
      have f: "filter (\<lambda>t. \<not> recovering t) (t # ts) = filter (\<lambda>t. \<not> recovering t) ts" using rec by simp
      show ?thesis unfolding f by (rule Cons.IH [OF Cons.prems(1-4) i r])
    next
      case False
      have w: "wrap32 (state_msgCount s + 1) = state_msgCount s + 1"
        using True Cons.prems by (intro wrap32_id) simp_all
      have l: "state_msgCount (loop_turn False t s) = state_msgCount s + 1"
        "sent (loop_turn False t s) = Suc (sent s)"
        using False w by (simp_all add: loop_turn_def handlePublish_def Let_def)
      have n: "nat (L - state_msgCount s) = Suc (nat (L - (state_msgCount s + 1)))" using True by simp
      have "\<forall>t \<in> set ts. \<not> interrupted t" using Cons.prems(5) by simp
      then have "sent s' = sent (loop_turn False t s) + min (nat (L - (state_msgCount s + 1)))
          (length (filter (\<lambda>t. \<not> recovering t) ts)) \<and>
        (ended \<longrightarrow> sent s' = sent (loop_turn False t s) + nat (L - (state_msgCount s + 1)) \<and> state_msgCount s' = L) \<and>
        (nat (L - (state_msgCount s + 1)) < length (filter (\<lambda>t. \<not> recovering t) ts) \<longrightarrow> ended)"
        unfolding l(1) [symmetric] using Cons.prems True l(1) run by (intro Cons.IH) simp_all
      then show ?thesis using False l(2) n by auto
    qed
  next
    case False
    then have "state_msgCount s = L" using Cons.prems by simp
    then show ?thesis using Cons.prems by (simp add: keepGoing_def)
  qed
qed simp

text \<open>
  With a constant rate the loop publishes exactly \<open>msgLimit\<close> messages: a message per turn
  that is not in a recovery until the limit, and it ends at the limit, neither before nor later
  than the first turn after it; then the last confirms are waited for and the completion
  handler gets the limit as the reason.
\<close>
theorem fixed_rate_stops_at_limit:
  assumes "0 < msgLimit" "msgLimit \<le> int_max" "\<forall>t \<in> set ts. \<not> interrupted t"
    and "run_loop False msgLimit ts (new_loop start) = (s, ended)"
    and "n = length (filter (\<lambda>t. \<not> recovering t) ts)"
  shows "int (sent s) = min msgLimit (int n) \<and> (msgLimit < int n \<longrightarrow> ended) \<and>
         (ended \<longrightarrow> int (sent s) = msgLimit \<and>
            finish_run msgLimit s = Some (''Producer reached message limit'', True))"
  using fixed_loop [of "new_loop start" msgLimit ts s ended] assms by (auto simp: new_loop_def finish_run_def)

theorem fixed_rate_stops_at_limit_witness:
  "let ts = replicate 4 \<lparr> interrupted = False, recovering = False, rate_zero = False, turn_end = 7 \<rparr> in
   sent (fst (run_loop False 3 ts (new_loop 0))) = 3 \<and> snd (run_loop False 3 ts (new_loop 0))"
proof -
  let ?ts = "replicate 4 \<lparr> interrupted = False, recovering = False, rate_zero = False, turn_end = 7 \<rparr>"
  obtain s ended where r: "run_loop False 3 ?ts (new_loop 0) = (s, ended)" by force
  have "int (sent s) = min 3 (int 4) \<and> ((3::int) < int 4 \<longrightarrow> ended) \<and>
      (ended \<longrightarrow> int (sent s) = 3 \<and> finish_run 3 s = Some (''Producer reached message limit'', True))"
    by (rule fixed_rate_stops_at_limit [OF _ _ _ r]) (simp_all add: int_max_def)
  then show ?thesis by (simp add: Let_def r)
qed

text \<open>The ends of the turns, each more than 1000 nanoseconds after the one before.\<close>

fun spaced :: "int \<Rightarrow> turn list \<Rightarrow> bool" where
  "spaced before [] \<longleftrightarrow> True"
| "spaced before (t # ts) \<longleftrightarrow> 1000 < wrap64 (turn_end t - before) \<and> spaced (turn_end t) ts"

lemma variable_loop:
  "state_msgCount s = 0 \<Longrightarrow> 0 \<le> L \<Longrightarrow> L \<noteq> 0 \<Longrightarrow>
   \<forall>t \<in> set ts. \<not> interrupted t \<and> \<not> recovering t \<and> \<not> rate_zero t \<Longrightarrow>
   spaced (lastStatsTime s) ts \<Longrightarrow>
   sent (fst (run_loop True L ts s)) = sent s + length ts \<and> \<not> snd (run_loop True L ts s)"
proof (induction ts arbitrary: s)
  case (Cons t ts)
  have k: "keepGoing L t s" using Cons.prems by (simp add: keepGoing_def)
  have l: "loop_turn True t s =
      s\<lparr> state_msgCount := 0, sent := sent s + 1, lastStatsTime := turn_end t \<rparr>"
    using Cons.prems by (simp add: loop_turn_def handlePublish_def Let_def)
  have "sent (fst (run_loop True L ts (loop_turn True t s))) = sent (loop_turn True t s) + length ts \<and>
      \<not> snd (run_loop True L ts (loop_turn True t s))"
    using Cons.prems by (intro Cons.IH) (simp_all only: l, simp_all)
  moreover have "sent (loop_turn True t s) = sent s + 1" by (simp only: l) simp
  ultimately show ?case using k by simp
qed simp

text \<open>
  With a rate that varies the limit does not hold: when each turn of the loop takes more
  than 1000 nanoseconds, the count the limit is compared with goes back to zero at every turn, and
  the producer publishes a message per turn for ever, whatever the limit. (The
  comment speaks of a reset every second; the clock is in nanoseconds.)
\<close>
theorem variable_rate_never_stops:
  assumes "0 < msgLimit"
    and "\<forall>t \<in> set ts. \<not> interrupted t \<and> \<not> recovering t \<and> \<not> rate_zero t"
    and "spaced start ts"
  shows "sent (fst (run_loop True msgLimit ts (new_loop start))) = length ts \<and>
         \<not> snd (run_loop True msgLimit ts (new_loop start))"
  using variable_loop [of "new_loop start" msgLimit ts] assms by (simp add: new_loop_def)

theorem variable_rate_never_stops_witness:
  "let ts = map (\<lambda>k. \<lparr> interrupted = False, recovering = False, rate_zero = False,
                       turn_end = int k * 2000 \<rparr>) [1, 2, 3, 4, 5] in
   sent (fst (run_loop True 1 ts (new_loop 0))) = 5 \<and> \<not> snd (run_loop True 1 ts (new_loop 0))"
proof -
  let ?ts = "map (\<lambda>k. \<lparr> interrupted = False, recovering = False, rate_zero = False,
                       turn_end = int k * 2000 \<rparr>) [1, 2, 3, 4, 5]"
  have "sent (fst (run_loop True 1 ?ts (new_loop 0))) = length ?ts \<and> \<not> snd (run_loop True 1 ?ts (new_loop 0))"
    by (rule variable_rate_never_stops) (simp_all add: wrap64_def)
  moreover have "length ?ts = 5" by simp
  ultimately show ?thesis unfolding Let_def by argo
qed

section \<open>The wait at the end\<close>

lemma wait_polls_from:
  assumes "0 \<le> T" "int k \<le> T div 100"
  shows "\<exists>n \<ge> k. wait_polls T e i (int k * 100) k = Suc n \<and> int n \<le> T div 100 \<and>
           (\<forall>j. k \<le> j \<and> j < n \<longrightarrow> \<not> e j \<and> \<not> i j) \<and> (int n = T div 100 \<or> e n \<or> i n)"
  using assms(2)
proof (induction "nat (T div 100) - k" arbitrary: k rule: less_induct)
  case less
  have le: "\<not> T < int k * 100" using less.prems by linarith
  have stop: "wait_polls T e i (T + 100) (Suc k) = Suc k" by (simp add: wait_polls.simps)
  show ?case
  proof (cases "e k \<or> i k")
    case True
    then have "wait_polls T e i (int k * 100) k = Suc k"
      using le stop by (subst wait_polls.simps) (auto simp: Let_def)
    then show ?thesis using True less.prems by (intro exI [of _ k]) auto
  next
    case False
    have step: "wait_polls T e i (int k * 100) k = wait_polls T e i (int (Suc k) * 100) (Suc k)"
      using False le by (subst wait_polls.simps) (simp add: Let_def algebra_simps)
    show ?thesis
    proof (cases "int k = T div 100")
      case True
      moreover have "T < (1 + T div 100) * 100" by presburger
      ultimately have "T < int (Suc k) * 100" by (simp only: of_nat_Suc)
      then have "wait_polls T e i (int k * 100) k = Suc k" unfolding step by (simp add: wait_polls.simps)
      then show ?thesis using True by (intro exI [of _ k]) auto
    next
      case neq: False
      then obtain n where n: "Suc k \<le> n" "wait_polls T e i (int (Suc k) * 100) (Suc k) = Suc n"
        "int n \<le> T div 100" "\<forall>j. Suc k \<le> j \<and> j < n \<longrightarrow> \<not> e j \<and> \<not> i j" "int n = T div 100 \<or> e n \<or> i n"
        using less.hyps [of "Suc k"] less.prems neq by force
      have "\<forall>j. k \<le> j \<and> j < n \<longrightarrow> \<not> e j \<and> \<not> i j" using n(4) False by (metis Suc_leI le_neq_implies_less)
      then show ?thesis using n step by (intro exI [of _ n]) auto
    qed
  qed
qed

text \<open>
  The wait for the last confirms ends: it sleeps until just after the first look at the map
  that finds it empty or the first interruption, and at most once more than every 100
  milliseconds of the timeout. With a negative timeout, which makes the producer wait without
  bound for a permit, or one whose milliseconds overflow to a negative \<open>int\<close>, it does not wait
  at all.
\<close>
theorem last_confirms_waited:
  assumes "confirmPool p \<noteq> None" and "timeout = wrap32 (confirmTimeout p * 1000)"
  shows "if timeout < 0 then maybeWaitForPublishConfirms p empty_at interrupted_at = 0
         else \<exists>n. maybeWaitForPublishConfirms p empty_at interrupted_at = Suc n \<and>
                  int n \<le> timeout div 100 \<and>
                  (\<forall>j \<in> {..<n}. \<not> empty_at j \<and> \<not> interrupted_at j) \<and>
                  (int n = timeout div 100 \<or> empty_at n \<or> interrupted_at n)"
proof (cases "timeout < 0")
  case True
  then show ?thesis using assms
    by (auto simp: maybeWaitForPublishConfirms_def wait_polls.simps)
next
  case False
  then have "0 \<le> timeout div 100" by (simp add: pos_imp_zdiv_nonneg_iff)
  with False wait_polls_from [of timeout 0 empty_at interrupted_at] show ?thesis
    using assms by (auto simp: maybeWaitForPublishConfirms_def)
qed

theorem last_confirms_waited_witness:
  "maybeWaitForPublishConfirms (new_producer 10 30) (\<lambda>k. 4 \<le> k) (\<lambda>_. False) = 5 \<and>
   maybeWaitForPublishConfirms (new_producer 10 2147484) (\<lambda>k. 4 \<le> k) (\<lambda>_. False) = 0"
proof -
  let ?p = "new_producer 10 30" and ?q = "new_producer 10 2147484"
  have p: "confirmPool ?p \<noteq> None" "30000 = wrap32 (confirmTimeout ?p * 1000)"
    "confirmPool ?q \<noteq> None" "- 2147483296 = wrap32 (confirmTimeout ?q * 1000)"
    by (simp_all add: new_producer_def wrap32_def)
  obtain n where n: "maybeWaitForPublishConfirms ?p (\<lambda>k. 4 \<le> k) (\<lambda>_. False) = Suc n" "int n \<le> 300"
    "\<forall>j \<in> {..<n}. \<not> 4 \<le> j" "int n = 300 \<or> 4 \<le> n"
    using last_confirms_waited [OF p(1,2), of "\<lambda>k. 4 \<le> k" "\<lambda>_. False"] by auto
  have "n \<le> 4" using n(3) by (metis lessThan_iff linorder_le_less_linear order_refl)
  then have "n = 4" using n(4) by auto
  moreover have "maybeWaitForPublishConfirms ?q (\<lambda>k. 4 \<le> k) (\<lambda>_. False) = 0"
    using last_confirms_waited [OF p(3,4), of "\<lambda>k. 4 \<le> k" "\<lambda>_. False"] by simp
  ultimately show ?thesis using n(1) by simp
qed

end
