(* ===== verification/Perf_Consumer.thy ===== *)
theory Perf_Consumer
  imports Perf_Stats_Spec Perf_Messages Perf_Values
begin

text \<open>
  The consuming side (\<open>Consumer.java\<close>, and the write operations of \<open>AgentBase.java\<close>): what a
  consumer does with each message it is given, its acknowledgements alone or several at a time,
  its transactions, its limit of messages, and the acknowledgement before it stops because it
  is idle. The channel is the client library's: whether it is open and how each write on it ends come
  with the message.
\<close>

section \<open>Write operations\<close>

text \<open>
  How a write on the channel ends: done, by a shutdown (which may be one that triggers the
  recovery of the connection), by an error of the socket, or by another \<open>IOException\<close>.
\<close>

datatype write_outcome = Write_Ok | Shutdown_Signal bool | Socket_Error | IO_Error

definition shouldStop :: "bool \<Rightarrow> bool \<Rightarrow> bool" where
  "shouldStop recoveryEnabled triggersRecovery = (if recoveryEnabled then \<not> triggersRecovery else True)"

text \<open>Whether the operation ran to its end, or the exception that leaves it.\<close>

definition dealWithWriteOperation :: "bool \<Rightarrow> write_outcome \<Rightarrow> bool jres" where
  "dealWithWriteOperation recoveryEnabled w =
     (case w of
        Write_Ok \<Rightarrow> Inr True
      | Shutdown_Signal triggers \<Rightarrow>
          if shouldStop recoveryEnabled triggers
          then Inl (Checked_Exception ''ShutdownSignalException'') else Inr False
      | Socket_Error \<Rightarrow>
          if recoveryEnabled then Inr False else Inl (Checked_Exception ''SocketException'')
      | IO_Error \<Rightarrow> Inl (Checked_Exception ''IOException''))"

section \<open>State\<close>

record consumer_config =
  timestamps :: timestamp_provider
  autoAck :: bool
  multiAckEvery :: int
  nackMessages :: bool
  requeue :: bool
  consumer_limit :: int
  txSize :: int
  rateLimitation :: bool
  recoveryEnabled :: bool

datatype channel_op =
    Basic_Ack int bool
  | Basic_Nack int bool bool
  | Tx_Commit

record consumer =
  receivedMessageCount :: int
  epochMessageCount :: int
  consumer_msgCount :: int
  consumer_statsTime :: int
  lastActivityTimestamp :: int
  lastDeliveryTag :: int
  lastAckedDeliveryTag :: int
  completed :: "string option"
  reports_made :: "handler list"
  channel_ops :: "channel_op list"

text \<open>
  A message as it arrives: its tag, its headers and its body, the two clocks when it is
  received and the one after it is acknowledged, whether the channel is open, whether the simulated
  latency passed without an interruption, and how an acknowledgement and a commit would end.
\<close>

record delivery =
  tag :: int
  header :: timestamp_header
  body :: "byte list"
  nanos :: int
  millis :: int
  clock :: int
  channel_open :: bool
  latency_passed :: bool
  ack_outcome :: write_outcome
  commit_outcome :: write_outcome

definition new_consumer :: "int \<Rightarrow> consumer" where
  "new_consumer now =
     \<lparr> receivedMessageCount = 0, epochMessageCount = 0, consumer_msgCount = 0, consumer_statsTime = now,
       lastActivityTimestamp = - 1, lastDeliveryTag = 0, lastAckedDeliveryTag = 0, completed = None,
       reports_made = [], channel_ops = [] \<rparr>"

section \<open>Operations\<close>

definition ackNackOperation :: "consumer_config \<Rightarrow> int \<Rightarrow> bool \<Rightarrow> channel_op" where
  "ackNackOperation cfg t multiple =
     (if nackMessages cfg then Basic_Nack t multiple (requeue cfg) else Basic_Ack t multiple)"

text \<open>One acknowledgement, where it is done.\<close>

definition ack_one :: "consumer_config \<Rightarrow> delivery \<Rightarrow> bool \<Rightarrow> consumer \<Rightarrow> consumer jres" where
  "ack_one cfg d multiple c =
     bindE (dealWithWriteOperation (recoveryEnabled cfg) (ack_outcome d)) (\<lambda>done.
       Inr (if done
            then c\<lparr> channel_ops := channel_ops c @ [ackNackOperation cfg (tag d) multiple],
                    lastAckedDeliveryTag := tag d \<rparr>
            else c))"

definition ackIfNecessary :: "consumer_config \<Rightarrow> delivery \<Rightarrow> int \<Rightarrow> consumer \<Rightarrow> consumer jres" where
  "ackIfNecessary cfg d currentMessageCount c =
     (if autoAck cfg then Inr c
      else if multiAckEvery cfg = 0 then ack_one cfg d False c
      else if rem_int currentMessageCount (multiAckEvery cfg) = 0 then ack_one cfg d True c
      else Inr c)"

definition commitTransactionIfNecessary ::
  "consumer_config \<Rightarrow> delivery \<Rightarrow> int \<Rightarrow> consumer \<Rightarrow> consumer jres" where
  "commitTransactionIfNecessary cfg d currentMessageCount c =
     (if txSize cfg \<noteq> 0 \<and> rem_int currentMessageCount (txSize cfg) = 0
      then bindE (dealWithWriteOperation (recoveryEnabled cfg) (commit_outcome d)) (\<lambda>done.
             Inr (if done then c\<lparr> channel_ops := channel_ops c @ [Tx_Commit] \<rparr> else c))
      else Inr c)"

text \<open>The completion handler is called once.\<close>

definition countDown :: "string \<Rightarrow> consumer \<Rightarrow> consumer" where
  "countDown reason c = (if completed c = None then c\<lparr> completed := Some reason \<rparr> else c)"

definition resetStats :: "consumer_config \<Rightarrow> delivery \<Rightarrow> consumer \<Rightarrow> consumer" where
  "resetStats cfg d c =
     (if rateLimitation cfg \<and> 1000 < wrap64 (clock d - consumer_statsTime c)
      then c\<lparr> consumer_statsTime := clock d, consumer_msgCount := 0 \<rparr> else c)"

text \<open>The latency of a delivery, or the exception of reading its timestamp.\<close>

definition delivery_latency :: "consumer_config \<Rightarrow> delivery \<Rightarrow> int jres" where
  "delivery_latency cfg d = message_latency (timestamps cfg) (nanos d) (millis d) (header d) (body d)"

text \<open>The part of \<open>handleMessage\<close> within the limit, and the whole.\<close>

definition handle_within_limit :: "consumer_config \<Rightarrow> delivery \<Rightarrow> consumer \<Rightarrow> consumer jres" where
  "handle_within_limit cfg d c =
     bindE (delivery_latency cfg d) (\<lambda>diff_time.
       let c1 = c\<lparr> reports_made := reports_made c @ [Recv diff_time] \<rparr> in
       if latency_passed d
       then bindE (ackIfNecessary cfg d (epochMessageCount c1) c1) (\<lambda>c2.
            bindE (commitTransactionIfNecessary cfg d (epochMessageCount c2) c2) (\<lambda>c3.
              Inr (resetStats cfg d (c3\<lparr> lastDeliveryTag := tag d \<rparr>))))
       else Inr c1)"

text \<open>
  The latency itself, for the statements about deliveries whose timestamp can be read: always in the
  body, and in the headers when there are some and what stands under the name is a \<open>long\<close>.
\<close>

definition latency_in :: "consumer_config \<Rightarrow> delivery \<Rightarrow> int" where
  "latency_in cfg d = (case delivery_latency cfg d of Inr l \<Rightarrow> l | Inl _ \<Rightarrow> - 1)"

definition timestamp_readable :: "consumer_config \<Rightarrow> delivery \<Rightarrow> bool" where
  "timestamp_readable cfg d \<longleftrightarrow> isTimestampInHeader (timestamps cfg) \<longrightarrow> header d \<noteq> No_Headers \<and> header d \<noteq> Not_A_Long"

lemma readable_latency: "timestamp_readable cfg d \<Longrightarrow> delivery_latency cfg d = Inr (latency_in cfg d)"
  by (cases "header d")
    (auto simp: timestamp_readable_def latency_in_def delivery_latency_def message_latency_def extract_timestamp_def
      split: option.splits)

lemma latency_in_read: "delivery_latency cfg d = Inr l \<Longrightarrow> latency_in cfg d = l"
  by (simp add: latency_in_def)

definition handleMessage :: "consumer_config \<Rightarrow> delivery \<Rightarrow> consumer \<Rightarrow> consumer jres" where
  "handleMessage cfg d c =
     (let c1 = c\<lparr> receivedMessageCount := wrap64 (receivedMessageCount c + 1),
                  epochMessageCount := wrap64 (epochMessageCount c + 1),
                  consumer_msgCount := wrap32 (consumer_msgCount c + 1),
                  lastActivityTimestamp := getCurrentTime (timestamps cfg) (nanos d) (millis d) \<rparr> in
      bindE (if consumer_limit cfg = 0 \<or> receivedMessageCount c1 \<le> consumer_limit cfg
             then handle_within_limit cfg d c1 else Inr c1) (\<lambda>c2.
        Inr (if consumer_limit cfg \<noteq> 0 \<and> consumer_limit cfg \<le> receivedMessageCount c2
             then countDown ''Consumer reached message limit'' c2 else c2)))"

definition maybeHandleMessage :: "consumer_config \<Rightarrow> delivery \<Rightarrow> consumer \<Rightarrow> consumer jres" where
  "maybeHandleMessage cfg d c = (if channel_open d then handleMessage cfg d c else Inr c)"

fun deliver_all :: "consumer_config \<Rightarrow> delivery list \<Rightarrow> consumer \<Rightarrow> consumer jres" where
  "deliver_all cfg [] c = Inr c"
| "deliver_all cfg (d # ds) c = bindE (maybeHandleMessage cfg d c) (deliver_all cfg ds)"

text \<open>A recovery, or a cancellation by the broker, starts the count of the acknowledgements again.\<close>

definition reset_epoch :: "consumer \<Rightarrow> consumer" where
  "reset_epoch c = c\<lparr> epochMessageCount := 0 \<rparr>"

text \<open>
  What is not acknowledged yet is, before the consumer stops; what is thrown there is
  logged, unless it is a shutdown the recovery does not handle.
\<close>

definition maybeAckCommitBeforeExit ::
  "consumer_config \<Rightarrow> write_outcome \<Rightarrow> write_outcome \<Rightarrow> consumer \<Rightarrow> consumer jres" where
  "maybeAckCommitBeforeExit cfg ack_out commit_out c =
     (if \<not> autoAck cfg \<and> lastAckedDeliveryTag c < lastDeliveryTag c
      then let out = if ack_out = Write_Ok \<and> txSize cfg \<noteq> 0 then commit_out else ack_out;
               ops = (if ack_out = Write_Ok then [Basic_Ack (lastDeliveryTag c) True] else []) @
                     (if ack_out = Write_Ok \<and> txSize cfg \<noteq> 0 \<and> commit_out = Write_Ok then [Tx_Commit] else []);
               c1 = c\<lparr> channel_ops := channel_ops c @ ops \<rparr>
           in (case dealWithWriteOperation (recoveryEnabled cfg) out of
                 Inl e \<Rightarrow> if e = Checked_Exception ''ShutdownSignalException'' then Inl e else Inr c1
               | Inr _ \<Rightarrow> Inr c1)
      else Inr c)"

text \<open>\<open>Duration.ofMillis(d)\<close> or \<open>Duration.ofNanos(d)\<close>, and its \<open>toMillis()\<close>, which rounds down.\<close>

definition difference_millis :: "timestamp_provider \<Rightarrow> int \<Rightarrow> int \<Rightarrow> int" where
  "difference_millis tp ts1 ts2 =
     (if useMillis tp then getDifference ts1 ts2 else getDifference ts1 ts2 div 10 ^ 6)"

text \<open>
  The check of the activity, for the two ways of stopping: idle for more than a second, and then
  with an empty queue (given for each queue the number of its messages, nothing when asking fails).
\<close>

datatype exit_when = Exit_Never | Exit_Empty | Exit_Idle

definition maybeStopIfNoActivityOrQueueEmpty ::
  "consumer_config \<Rightarrow> exit_when \<Rightarrow> int \<Rightarrow> int option list \<Rightarrow> write_outcome \<Rightarrow> write_outcome \<Rightarrow>
   consumer \<Rightarrow> consumer jres" where
  "maybeStopIfNoActivityOrQueueEmpty cfg exitWhen now queue_counts ack_out commit_out c =
     (if exitWhen = Exit_Never then Inr c
      else if lastActivityTimestamp c = - 1 then Inr (c\<lparr> lastActivityTimestamp := now \<rparr>)
      else if 1000 < difference_millis (timestamps cfg) now (lastActivityTimestamp c) then
        if exitWhen = Exit_Idle
        then bindE (maybeAckCommitBeforeExit cfg ack_out commit_out c) (\<lambda>c1.
               Inr (countDown ''Consumer is idle for more than 1 second'' c1))
        else if Some 0 \<in> set queue_counts
        then bindE (maybeAckCommitBeforeExit cfg ack_out commit_out c) (\<lambda>c1.
               Inr (countDown ''Consumer queue(s) empty'' c1))
        else Inr c
      else Inr c)"

end
