(* ===== verification/Perf_Consumer_Spec.thy ===== *)
theory Perf_Consumer_Spec
  imports Perf_Consumer
begin

text \<open>
  Which messages a consumer reports and acknowledges, message by message and before it stops.
\<close>

section \<open>What an acknowledgement covers\<close>

text \<open>An acknowledgement covers its tag, and with \<open>multiple\<close> every tag before it.\<close>

fun covers :: "channel_op \<Rightarrow> int \<Rightarrow> bool" where
  "covers (Basic_Ack n multiple) t = (if multiple then t \<le> n else t = n)"
| "covers (Basic_Nack n multiple _) t = (if multiple then t \<le> n else t = n)"
| "covers Tx_Commit t = False"

definition acked :: "consumer \<Rightarrow> int \<Rightarrow> bool" where
  "acked c t = (\<exists>x \<in> set (channel_ops c). covers x t)"

lemma covers_op: "covers (ackNackOperation cfg n multiple) t = (if multiple then t \<le> n else t = n)"
  by (simp add: ackNackOperation_def)

text \<open>A message without trouble.\<close>

definition smooth :: "consumer_config \<Rightarrow> delivery \<Rightarrow> bool" where
  "smooth cfg d \<longleftrightarrow> timestamp_readable cfg d \<and> channel_open d \<and> latency_passed d \<and> ack_outcome d = Write_Ok \<and> commit_outcome d = Write_Ok"

definition counted :: "consumer_config \<Rightarrow> nat \<Rightarrow> nat" where
  "counted cfg n = (if consumer_limit cfg = 0 then n else min (nat (consumer_limit cfg)) n)"

text \<open>
  The messages acknowledged after \<open>m\<close> messages within the limit: all of them, or the full groups.
\<close>

definition acked_of :: "consumer_config \<Rightarrow> nat \<Rightarrow> nat" where
  "acked_of cfg m =
     (if multiAckEvery cfg = 0 then m
      else m div nat (multiAckEvery cfg) * nat (multiAckEvery cfg))"

definition consumed :: "consumer_config \<Rightarrow> delivery list \<Rightarrow> consumer \<Rightarrow> bool" where
  "consumed cfg ds c \<longleftrightarrow>
     (let m = counted cfg (length ds); a = acked_of cfg m in
      receivedMessageCount c = int (length ds) \<and> epochMessageCount c = int (length ds) \<and>
      reports_made c = map (\<lambda>d. Recv (latency_in cfg d)) (take m ds) \<and>
      lastDeliveryTag c = (if m = 0 then 0 else tag (ds ! (m - 1))) \<and>
      lastAckedDeliveryTag c = (if a = 0 then 0 else tag (ds ! (a - 1))) \<and>
      (\<forall>t. acked c t \<longleftrightarrow>
         (if multiAckEvery cfg = 0 then t \<in> tag ` set (take m ds)
          else a \<noteq> 0 \<and> t \<le> tag (ds ! (a - 1)))) \<and>
      completed c =
        (if consumer_limit cfg \<noteq> 0 \<and> consumer_limit cfg \<le> int (length ds)
         then Some ''Consumer reached message limit'' else None))"

lemma acked_of_le: "acked_of cfg m \<le> m"
  by (simp add: acked_of_def)

lemma acked_of_Suc:
  "0 < multiAckEvery cfg \<Longrightarrow>
   acked_of cfg (Suc m) = (if rem_int (int (Suc m)) (multiAckEvery cfg) = 0 then Suc m else acked_of cfg m)"
proof -
  assume k: "0 < multiAckEvery cfg"
  let ?k = "nat (multiAckEvery cfg)"
  have "rem_int (int (Suc m)) (multiAckEvery cfg) = int (Suc m mod ?k)"
    using k by (subst rem_int_nonneg) (simp_all add: zmod_int)
  moreover have "Suc m div ?k * ?k = (if Suc m mod ?k = 0 then Suc m else m div ?k * ?k)"
  proof (cases "Suc m mod ?k = 0")
    case True
    then show ?thesis using div_mult_mod_eq [of "Suc m" ?k] by simp
  next
    case False
    then have "Suc m div ?k = m div ?k" by (simp add: div_Suc)
    then show ?thesis using False by simp
  qed
  ultimately show ?thesis using k by (simp add: acked_of_def)
qed

section \<open>One message\<close>

definition ack_due :: "consumer_config \<Rightarrow> int \<Rightarrow> bool" where
  "ack_due cfg n \<longleftrightarrow> multiAckEvery cfg = 0 \<or> rem_int n (multiAckEvery cfg) = 0"

lemma handle_within_smooth:
  assumes "smooth cfg d" "\<not> autoAck cfg"
  shows "\<exists>c'. handle_within_limit cfg d c = Inr c' \<and>
     receivedMessageCount c' = receivedMessageCount c \<and> epochMessageCount c' = epochMessageCount c \<and>
     completed c' = completed c \<and> reports_made c' = reports_made c @ [Recv (latency_in cfg d)] \<and>
     lastDeliveryTag c' = tag d \<and>
     lastAckedDeliveryTag c' =
       (if ack_due cfg (epochMessageCount c) then tag d else lastAckedDeliveryTag c) \<and>
     (\<forall>t. acked c' t \<longleftrightarrow> acked c t \<or> (ack_due cfg (epochMessageCount c) \<and>
        (if multiAckEvery cfg = 0 then t = tag d else t \<le> tag d)))"
proof -
  let ?c1 = "c\<lparr> reports_made := reports_made c @ [Recv (latency_in cfg d)] \<rparr>"
  have ok: "dealWithWriteOperation r (ack_outcome d) = Inr True" "dealWithWriteOperation r (commit_outcome d) = Inr True" for r
    using assms(1) by (simp_all add: smooth_def dealWithWriteOperation_def)
  let ?due = "ack_due cfg (epochMessageCount c)"
  let ?op = "ackNackOperation cfg (tag d) (multiAckEvery cfg \<noteq> 0)"
  let ?c2 = "if ?due then ?c1\<lparr> channel_ops := channel_ops c @ [?op], lastAckedDeliveryTag := tag d \<rparr> else ?c1"
  have ack: "ackIfNecessary cfg d (epochMessageCount c) ?c1 = Inr ?c2"
    using assms(2) by (simp add: ackIfNecessary_def ack_one_def ok ack_due_def)
  let ?tx = "txSize cfg \<noteq> 0 \<and> rem_int (epochMessageCount c) (txSize cfg) = 0"
  let ?c3 = "if ?tx then ?c2\<lparr> channel_ops := channel_ops ?c2 @ [Tx_Commit] \<rparr> else ?c2"
  have e: "epochMessageCount ?c2 = epochMessageCount c" "epochMessageCount ?c1 = epochMessageCount c" by simp_all
  have commit: "commitTransactionIfNecessary cfg d (epochMessageCount c) ?c2 = Inr ?c3"
    by (simp add: commitTransactionIfNecessary_def ok)
  have run: "handle_within_limit cfg d c = Inr (resetStats cfg d (?c3\<lparr> lastDeliveryTag := tag d \<rparr>))"
    using assms(1) unfolding handle_within_limit_def Let_def
    by (simp only: smooth_def readable_latency if_True e ack bindE_simps commit)
  have a2: "acked ?c2 t \<longleftrightarrow> acked c t \<or> (?due \<and> (if multiAckEvery cfg = 0 then t = tag d else t \<le> tag d))" for t
    by (auto simp: acked_def covers_op)
  have a3: "acked ?c3 t \<longleftrightarrow> acked ?c2 t" for t by (simp add: acked_def)
  have "acked (resetStats cfg d (?c3\<lparr> lastDeliveryTag := tag d \<rparr>)) t \<longleftrightarrow> acked ?c3 t" for t
    by (simp add: acked_def resetStats_def)
  then have "acked (resetStats cfg d (?c3\<lparr> lastDeliveryTag := tag d \<rparr>)) t \<longleftrightarrow>
      acked c t \<or> (?due \<and> (if multiAckEvery cfg = 0 then t = tag d else t \<le> tag d))" for t
    using a2 a3 by simp
  then show ?thesis by (intro exI [of _ "resetStats cfg d (?c3\<lparr> lastDeliveryTag := tag d \<rparr>)"] conjI run)
      (auto simp: resetStats_def)
qed

lemma consumed_step:
  assumes c: "consumed cfg ds c" and d: "smooth cfg d" "\<not> autoAck cfg"
    and cfg: "0 \<le> multiAckEvery cfg" "0 \<le> consumer_limit cfg"
    and tags: "\<forall>e \<in> set ds. tag e < tag d" and n: "Suc (length ds) < 2 ^ 63"
  shows "\<exists>c'. maybeHandleMessage cfg d c = Inr c' \<and> consumed cfg (ds @ [d]) c'"
proof -
  let ?n = "length ds"
  let ?L = "consumer_limit cfg"
  let ?c1 = "c\<lparr> receivedMessageCount := int (Suc ?n), epochMessageCount := int (Suc ?n),
                consumer_msgCount := wrap32 (consumer_msgCount c + 1),
                lastActivityTimestamp := getCurrentTime (timestamps cfg) (nanos d) (millis d) \<rparr>"
  have w: "wrap64 (int ?n + 1) = int (Suc ?n)" using n by simp
  have open_: "channel_open d" using d(1) by (simp add: smooth_def)
  have cnt: "receivedMessageCount c = int ?n" "epochMessageCount c = int ?n"
    using c by (simp_all add: consumed_def Let_def)
  have hm: "maybeHandleMessage cfg d c =
      bindE (if ?L = 0 \<or> int (Suc ?n) \<le> ?L then handle_within_limit cfg d ?c1 else Inr ?c1) (\<lambda>c2.
        Inr (if ?L \<noteq> 0 \<and> ?L \<le> receivedMessageCount c2
             then countDown ''Consumer reached message limit'' c2 else c2))"
    using open_ cnt w by (simp add: maybeHandleMessage_def handleMessage_def Let_def)
  show ?thesis
  proof (cases "?L = 0 \<or> int (Suc ?n) \<le> ?L")
    case True
    obtain c2 where c2: "handle_within_limit cfg d ?c1 = Inr c2"
      "receivedMessageCount c2 = int (Suc ?n)" "epochMessageCount c2 = int (Suc ?n)"
      "completed c2 = completed c" "reports_made c2 = reports_made c @ [Recv (latency_in cfg d)]"
      "lastDeliveryTag c2 = tag d"
      "lastAckedDeliveryTag c2 = (if ack_due cfg (int (Suc ?n)) then tag d else lastAckedDeliveryTag c)"
      "\<And>t. acked c2 t \<longleftrightarrow> acked c t \<or> (ack_due cfg (int (Suc ?n)) \<and>
        (if multiAckEvery cfg = 0 then t = tag d else t \<le> tag d))"
      using handle_within_smooth [OF d, of ?c1] by (auto simp: acked_def)
    have m: "counted cfg ?n = ?n" "counted cfg (Suc ?n) = Suc ?n" using True cfg(2) by (auto simp: counted_def)
    have none: "completed c = None" using c True by (auto simp: consumed_def Let_def)
    let ?c' = "if ?L \<noteq> 0 \<and> ?L \<le> int (Suc ?n) then countDown ''Consumer reached message limit'' c2 else c2"
    have run: "maybeHandleMessage cfg d c = Inr ?c'"
      using True c2(1,2) by (simp only: hm if_True bindE_simps)
    have same: "receivedMessageCount ?c' = receivedMessageCount c2" "epochMessageCount ?c' = epochMessageCount c2"
      "reports_made ?c' = reports_made c2" "lastDeliveryTag ?c' = lastDeliveryTag c2"
      "lastAckedDeliveryTag ?c' = lastAckedDeliveryTag c2" "\<And>t. acked ?c' t = acked c2 t"
      by (simp_all add: countDown_def acked_def)
    have comp: "completed ?c' = (if ?L \<noteq> 0 \<and> ?L \<le> int (Suc ?n) then Some ''Consumer reached message limit'' else None)"
      using c2(4) none by (simp add: countDown_def)
    let ?a = "acked_of cfg ?n"
    have old: "lastAckedDeliveryTag c = (if ?a = 0 then 0 else tag (ds ! (?a - 1)))"
      "acked c t \<longleftrightarrow> (if multiAckEvery cfg = 0 then t \<in> tag ` set ds else ?a \<noteq> 0 \<and> t \<le> tag (ds ! (?a - 1)))"
      "reports_made c = map (\<lambda>d. Recv (latency_in cfg d)) ds" for t
      using c m by (simp_all add: consumed_def Let_def)
    have a': "acked_of cfg (Suc ?n) = (if ack_due cfg (int (Suc ?n)) then Suc ?n else ?a)"
    proof (cases "multiAckEvery cfg = 0")
      case True
      then show ?thesis by (simp add: acked_of_def ack_due_def)
    next
      case False
      then show ?thesis using acked_of_Suc [of cfg ?n] cfg(1) by (simp only: ack_due_def) simp
    qed
    have nth: "(ds @ [d]) ! (?a - 1) = ds ! (?a - 1)" if "?a \<noteq> 0"
    proof -
      have "?a - 1 < ?n" using that acked_of_le [of cfg ?n] by linarith
      then show ?thesis by (simp add: nth_append)
    qed
    have last: "lastAckedDeliveryTag ?c' = (if acked_of cfg (Suc ?n) = 0 then 0
        else tag ((ds @ [d]) ! (acked_of cfg (Suc ?n) - 1)))"
      unfolding same a' c2(7) old(1) using nth by simp
    have cov: "acked ?c' t \<longleftrightarrow> (if multiAckEvery cfg = 0 then t \<in> tag ` set (ds @ [d])
        else acked_of cfg (Suc ?n) \<noteq> 0 \<and> t \<le> tag ((ds @ [d]) ! (acked_of cfg (Suc ?n) - 1)))" for t
    proof (cases "multiAckEvery cfg = 0")
      case True
      then have "ack_due cfg (int (Suc ?n))" by (simp add: ack_due_def)
      then show ?thesis unfolding same c2(8) old(2) using True by auto
    next
      case k: False
      show ?thesis
      proof (cases "ack_due cfg (int (Suc ?n))")
        case True
        have "?a \<noteq> 0 \<Longrightarrow> tag (ds ! (?a - 1)) < tag d" using tags acked_of_le [of cfg ?n] by auto
        then show ?thesis unfolding same c2(8) old(2) a' using True k by auto
      next
        case False
        then show ?thesis unfolding same c2(8) old(2) a' using k nth by auto
      qed
    qed
    have "receivedMessageCount ?c' = int (Suc ?n)" "epochMessageCount ?c' = int (Suc ?n)"
      by (simp_all only: same c2(2,3))
    moreover have "reports_made ?c' = map (\<lambda>d. Recv (latency_in cfg d)) (take (Suc ?n) (ds @ [d]))"
      by (simp only: same c2(5) old(3)) simp
    moreover have "lastDeliveryTag ?c' = (if Suc ?n = 0 then 0 else tag ((ds @ [d]) ! (Suc ?n - 1)))"
      by (simp only: same c2(6)) simp
    moreover have "take (Suc ?n) (ds @ [d]) = ds @ [d]" by simp
    ultimately have "consumed cfg (ds @ [d]) ?c'"
      using last cov comp unfolding consumed_def Let_def length_append_singleton m(2) by (intro conjI allI) (simp_all only:)
    with run show ?thesis by blast
  next
    case False
    then have L: "?L \<noteq> 0" "?L \<le> int ?n" by simp_all
    then have m: "counted cfg ?n = nat ?L" "counted cfg (Suc ?n) = nat ?L" "nat ?L \<le> ?n" by (auto simp: counted_def)
    have fin: "completed c = Some ''Consumer reached message limit''" using c L by (simp add: consumed_def Let_def)
    have run: "maybeHandleMessage cfg d c = Inr ?c1"
      using False L fin by (simp only: hm if_False bindE_simps) (simp add: countDown_def)
    let ?m = "nat ?L" and ?a = "acked_of cfg (nat ?L)"
    have "?a - 1 < ?n" if "?a \<noteq> 0" using that acked_of_le [of cfg ?m] m(3) by linarith
    then have nth: "tag ((ds @ [d]) ! (?a - 1)) = tag (ds ! (?a - 1))" if "?a \<noteq> 0"
      using that by (simp add: nth_append)
    have "?m - 1 < ?n" if "?m \<noteq> 0" using that m(3) by linarith
    then have nth': "tag ((ds @ [d]) ! (?m - 1)) = tag (ds ! (?m - 1))" if "?m \<noteq> 0"
      using that by (simp add: nth_append)
    have take: "take ?m (ds @ [d]) = take ?m ds" using m(3) by simp
    have old: "reports_made c = map (\<lambda>d. Recv (latency_in cfg d)) (take ?m ds)"
      "lastDeliveryTag c = (if ?m = 0 then 0 else tag (ds ! (?m - 1)))"
      "lastAckedDeliveryTag c = (if ?a = 0 then 0 else tag (ds ! (?a - 1)))"
      "acked c t \<longleftrightarrow> (if multiAckEvery cfg = 0 then t \<in> tag ` set (take ?m ds)
         else ?a \<noteq> 0 \<and> t \<le> tag (ds ! (?a - 1)))" for t
      using c unfolding consumed_def Let_def m(1) by blast+
    have "acked ?c1 t = acked c t" for t by (simp add: acked_def)
    then have "\<forall>t. acked ?c1 t \<longleftrightarrow> (if multiAckEvery cfg = 0 then t \<in> tag ` set (take ?m (ds @ [d]))
         else ?a \<noteq> 0 \<and> t \<le> tag ((ds @ [d]) ! (?a - 1)))"
      unfolding take old using nth by auto
    moreover have "lastDeliveryTag ?c1 = (if ?m = 0 then 0 else tag ((ds @ [d]) ! (?m - 1)))"
      using old(2) nth' by simp
    moreover have "lastAckedDeliveryTag ?c1 = (if ?a = 0 then 0 else tag ((ds @ [d]) ! (?a - 1)))"
      using old(3) nth by simp
    moreover have "reports_made ?c1 = map (\<lambda>d. Recv (latency_in cfg d)) (take ?m (ds @ [d]))"
      unfolding take using old(1) by simp
    moreover have "completed ?c1 = (if ?L \<noteq> 0 \<and> ?L \<le> int (Suc ?n)
        then Some ''Consumer reached message limit'' else None)" using fin L by simp
    moreover have "receivedMessageCount ?c1 = int (Suc ?n)" "epochMessageCount ?c1 = int (Suc ?n)" by simp_all
    ultimately have "consumed cfg (ds @ [d]) ?c1"
      unfolding consumed_def Let_def length_append_singleton m(2) by (intro conjI)
    with run show ?thesis by blast
  qed
qed


section \<open>All messages\<close>

lemma consumed_new: "0 \<le> consumer_limit cfg \<Longrightarrow> consumed cfg [] (new_consumer now)"
  by (auto simp: consumed_def new_consumer_def counted_def acked_of_def acked_def Let_def)

lemma deliver_all_snoc:
  "deliver_all cfg (ds @ [d]) c = bindE (deliver_all cfg ds c) (maybeHandleMessage cfg d)"
proof (induction ds arbitrary: c)
  case Nil
  then show ?case by (cases "maybeHandleMessage cfg d c") simp_all
next
  case (Cons e ds)
  then show ?case by (cases "maybeHandleMessage cfg e c") simp_all
qed

lemma consumed_all:
  assumes "\<forall>d \<in> set ds. smooth cfg d" "\<not> autoAck cfg" "0 \<le> multiAckEvery cfg" "0 \<le> consumer_limit cfg"
    and "sorted_wrt (<) (map tag ds)" "length ds < 2 ^ 63"
  shows "\<exists>c. deliver_all cfg ds (new_consumer now) = Inr c \<and> consumed cfg ds c"
  using assms
proof (induction ds rule: rev_induct)
  case Nil
  then show ?case by (simp add: consumed_new)
next
  case (snoc d ds)
  then obtain c where c: "deliver_all cfg ds (new_consumer now) = Inr c" "consumed cfg ds c"
    by (auto simp: sorted_wrt_append)
  obtain c' where "maybeHandleMessage cfg d c = Inr c'" "consumed cfg (ds @ [d]) c'"
    using consumed_step [OF c(2), of d] snoc.prems by (auto simp: sorted_wrt_append)
  then show ?case using c(1) by (simp add: deliver_all_snoc)
qed

lemma filter_prefix:
  assumes "a \<le> length ts" "\<forall>i < a. P (ts ! i)" "\<forall>i < length ts. a \<le> i \<longrightarrow> \<not> P (ts ! i)"
  shows "filter P ts = take a ts"
proof -
  have "filter P (take a ts) = take a ts"
    unfolding filter_id_conv by (auto simp: in_set_conv_nth assms(2))
  moreover have "filter P (drop a ts) = []"
    using assms(3) by (auto simp: filter_empty_conv in_set_conv_nth)
  moreover have "filter P ts = filter P (take a ts) @ filter P (drop a ts)"
    by (metis append_take_drop_id filter_append)
  ultimately show ?thesis by simp
qed

lemma filter_upto:
  assumes "sorted_wrt (<) ts" "a \<le> length ts" "a \<noteq> 0"
  shows "filter (\<lambda>t. t \<le> ts ! (a - 1)) ts = take a (ts :: int list)"
proof (rule filter_prefix [OF assms(2)])
  show "\<forall>i < a. ts ! i \<le> ts ! (a - 1)"
  proof (intro allI impI)
    fix i assume "i < a"
    then have "i = a - 1 \<or> i < a - 1" "a - 1 < length ts" using assms(2) by linarith+
    then show "ts ! i \<le> ts ! (a - 1)"
      using sorted_wrt_nth_less [OF assms(1), of i "a - 1"] by auto
  qed
  show "\<forall>i < length ts. a \<le> i \<longrightarrow> \<not> ts ! i \<le> ts ! (a - 1)"
  proof (intro allI impI)
    fix i assume "i < length ts" "a \<le> i"
    moreover have "a - 1 < i" using assms(3) \<open>a \<le> i\<close> by linarith
    ultimately show "\<not> ts ! i \<le> ts ! (a - 1)"
      using sorted_wrt_nth_less [OF assms(1), of "a - 1" i] by simp
  qed
qed

lemma filter_taken:
  assumes "sorted_wrt (<) ts" "a \<le> length ts"
  shows "filter (\<lambda>t. t \<in> set (take a ts)) ts = take a (ts :: int list)"
proof (rule filter_prefix [OF assms(2)])
  show "\<forall>i < a. ts ! i \<in> set (take a ts)" using assms(2) by (auto simp: in_set_conv_nth)
  show "\<forall>i < length ts. a \<le> i \<longrightarrow> ts ! i \<notin> set (take a ts)"
  proof (intro allI impI notI)
    fix i assume "i < length ts" "a \<le> i" "ts ! i \<in> set (take a ts)"
    then obtain j where "j < a" "ts ! j = ts ! i" by (auto simp: in_set_conv_nth)
    then show False using sorted_wrt_nth_less [OF assms(1), of j i] \<open>i < length ts\<close> \<open>a \<le> i\<close> by simp
  qed
qed

text \<open>What a consumer holds after its messages, on the list of their tags.\<close>

lemma consumed_fields:
  assumes "consumed cfg ds c" "m = counted cfg (length ds)" "a = acked_of cfg m"
  shows "reports_made c = map (\<lambda>d. Recv (latency_in cfg d)) (take m ds)"
    "lastDeliveryTag c = (if m = 0 then 0 else map tag ds ! (m - 1))"
    "lastAckedDeliveryTag c = (if a = 0 then 0 else map tag ds ! (a - 1))"
    "acked c t \<longleftrightarrow> (if multiAckEvery cfg = 0 then t \<in> set (take m (map tag ds))
                   else a \<noteq> 0 \<and> t \<le> map tag ds ! (a - 1))"
    "completed c \<noteq> None \<longleftrightarrow> consumer_limit cfg \<noteq> 0 \<and> consumer_limit cfg \<le> int (length ds)"
proof -
  have "m \<le> length ds" "a \<le> m" using assms(2,3) acked_of_le by (simp_all add: counted_def)
  then show "reports_made c = map (\<lambda>d. Recv (latency_in cfg d)) (take m ds)"
    "lastDeliveryTag c = (if m = 0 then 0 else map tag ds ! (m - 1))"
    "lastAckedDeliveryTag c = (if a = 0 then 0 else map tag ds ! (a - 1))"
    "acked c t \<longleftrightarrow> (if multiAckEvery cfg = 0 then t \<in> set (take m (map tag ds))
                   else a \<noteq> 0 \<and> t \<le> map tag ds ! (a - 1))"
    "completed c \<noteq> None \<longleftrightarrow> consumer_limit cfg \<noteq> 0 \<and> consumer_limit cfg \<le> int (length ds)"
    using assms(1) unfolding consumed_def Let_def assms(2,3) by (auto simp: take_map)
qed

lemma consumed_covers:
  assumes "consumed cfg ds c" "m = counted cfg (length ds)" "a = acked_of cfg m"
    and ts: "sorted_wrt (<) (map tag ds)"
  shows "filter (acked c) (map tag ds) = take a (map tag ds)"
proof (cases "multiAckEvery cfg = 0")
  case True
  then have "a = m" "acked c = (\<lambda>t. t \<in> set (take m (map tag ds)))"
    using assms(3) consumed_fields(4) [OF assms(1-3)] by (auto simp: acked_of_def)
  then show ?thesis using filter_taken [OF ts, of m] assms(2) by (simp add: counted_def)
next
  case False
  then have ac: "acked c = (\<lambda>t. a \<noteq> 0 \<and> t \<le> map tag ds ! (a - 1))"
    using consumed_fields(4) [OF assms(1-3)] by auto
  have "m \<le> length ds" using assms(2) by (simp add: counted_def)
  then have le: "a \<le> length ds" using assms(3) acked_of_le [of cfg m] by linarith
  show ?thesis
  proof (cases "a = 0")
    case False
    then show ?thesis using ac filter_upto [OF ts, of a] le by simp
  qed (simp add: ac)
qed

lemma exit_due:
  assumes "consumed cfg ds c" "m = counted cfg (length ds)" "a = acked_of cfg m"
    and "sorted_wrt (<) (map tag ds)" "\<forall>d \<in> set ds. 0 < tag d"
  shows "lastAckedDeliveryTag c < lastDeliveryTag c \<longleftrightarrow> a < m"
proof (cases "a < m")
  case True
  moreover have "m \<le> length ds" using assms(2) by (simp add: counted_def)
  ultimately have "0 < map tag ds ! (m - 1)" "a \<noteq> 0 \<longrightarrow> map tag ds ! (a - 1) < map tag ds ! (m - 1)"
    using assms(5) sorted_wrt_nth_less [OF assms(4), of "a - 1" "m - 1"] by auto
  then show ?thesis using True consumed_fields(2,3) [OF assms(1-3)] by simp
next
  case False
  then have "a = m" using assms(3) acked_of_le [of cfg m] by simp
  then show ?thesis using consumed_fields(2,3) [OF assms(1-3)] by simp
qed

lemma exit_covers:
  assumes "consumed cfg ds c" "m = counted cfg (length ds)" "a = acked_of cfg m"
    and "sorted_wrt (<) (map tag ds)" "\<forall>d \<in> set ds. 0 < tag d" "\<not> autoAck cfg"
  shows "\<exists>c'. maybeAckCommitBeforeExit cfg Write_Ok Write_Ok c = Inr c' \<and>
           filter (acked c') (map tag ds) = take m (map tag ds)"
proof (cases "a < m")
  case True
  let ?ts = "map tag ds"
  let ?c' = "c\<lparr> channel_ops := channel_ops c @ Basic_Ack (?ts ! (m - 1)) True #
      (if txSize cfg = 0 then [] else [Tx_Commit]) \<rparr>"
  have m: "m \<le> length ?ts" "m \<noteq> 0" using True assms(2) by (simp_all add: counted_def)
  have exit: "maybeAckCommitBeforeExit cfg Write_Ok Write_Ok c = Inr ?c'"
    using assms(6) True consumed_fields(2) [OF assms(1-3)] exit_due [OF assms(1-5)]
    by (auto simp: maybeAckCommitBeforeExit_def dealWithWriteOperation_def Let_def)
  have "t \<le> ?ts ! (m - 1)" if "t \<in> set ?ts" "acked c t" for t
  proof -
    have "t \<in> set (filter (acked c) ?ts)" using that by simp
    then have "t \<in> set (take m ?ts)"
      using consumed_covers [OF assms(1-4)] set_take_subset_set_take [of a m ?ts] True by auto
    then have "t \<in> set (filter (\<lambda>t. t \<le> ?ts ! (m - 1)) ?ts)" using filter_upto [OF assms(4) m] by simp
    then show ?thesis by simp
  qed
  then have "filter (acked ?c') ?ts = filter (\<lambda>t. t \<le> ?ts ! (m - 1)) ?ts"
    by (intro filter_cong) (auto simp: acked_def)
  then show ?thesis using exit filter_upto [OF assms(4) m] by (intro exI [of _ ?c']) simp
next
  case False
  then have "a = m" using assms(3) acked_of_le [of cfg m] by simp
  moreover have "maybeAckCommitBeforeExit cfg Write_Ok Write_Ok c = Inr c"
    using False exit_due [OF assms(1-5)] by (simp add: maybeAckCommitBeforeExit_def)
  ultimately show ?thesis using consumed_covers [OF assms(1-4)] by blast
qed

text \<open>
  C10: of the messages a consumer receives, exactly those within the limit are reported to the
  statistics, each with its latency and in order; the acknowledgements cover exactly all of
  these, or with one acknowledgement for several the full groups of \<open>multiAckEvery\<close>, so that
  fewer than \<open>multiAckEvery\<close> reported messages are left, the last ones; the completion handler
  hears of the limit as soon as it is reached, and the acknowledgement before a stop covers
  what is left and nothing else.
\<close>
theorem consumer_acknowledges:
  assumes "\<forall>d \<in> set ds. smooth cfg d" "\<not> autoAck cfg" "0 \<le> multiAckEvery cfg" "0 \<le> consumer_limit cfg"
    and "sorted_wrt (<) (map tag ds)" "\<forall>d \<in> set ds. 0 < tag d" "length ds < 2 ^ 63"
    and "m = (if consumer_limit cfg = 0 then length ds else min (nat (consumer_limit cfg)) (length ds))"
    and "a = (if multiAckEvery cfg = 0 then m else m div nat (multiAckEvery cfg) * nat (multiAckEvery cfg))"
  shows "\<exists>c c'. deliver_all cfg ds (new_consumer now) = Inr c \<and>
           reports_made c = map (\<lambda>d. Recv (latency_in cfg d)) (take m ds) \<and>
           filter (acked c) (map tag ds) = take a (map tag ds) \<and>
           (completed c \<noteq> None \<longleftrightarrow> consumer_limit cfg \<noteq> 0 \<and> consumer_limit cfg \<le> int (length ds)) \<and>
           maybeAckCommitBeforeExit cfg Write_Ok Write_Ok c = Inr c' \<and>
           filter (acked c') (map tag ds) = take m (map tag ds)"
proof -
  obtain c where c: "deliver_all cfg ds (new_consumer now) = Inr c" "consumed cfg ds c"
    using consumed_all [OF assms(1-5,7)] by blast
  have ma: "m = counted cfg (length ds)" "a = acked_of cfg m"
    using assms(8,9) by (simp_all add: counted_def acked_of_def)
  obtain c' where "maybeAckCommitBeforeExit cfg Write_Ok Write_Ok c = Inr c'"
    "filter (acked c') (map tag ds) = take m (map tag ds)"
    using exit_covers [OF c(2) ma assms(5,6,2)] by blast
  then show ?thesis
    using c(1) consumed_fields(1,5) [OF c(2) ma] consumed_covers [OF c(2) ma assms(5)] by blast
qed

theorem consumer_acknowledges_witness:
  "\<exists>c c'. deliver_all \<lparr> timestamps = \<lparr> useMillis = False, isTimestampInHeader = False \<rparr>, autoAck = False,
            multiAckEvery = 2, nackMessages = False, requeue = True, consumer_limit = 3, txSize = 2,
            rateLimitation = False, recoveryEnabled = True \<rparr>
          (map (\<lambda>k. \<lparr> tag = int k, header = No_Headers, body = doCreate (int k) 0, nanos = int k * 3, millis = 0,
                     clock = 0, channel_open = True, latency_passed = True, ack_outcome = Write_Ok,
                     commit_outcome = Write_Ok \<rparr>) [1, 2, 3, 4]) (new_consumer 0) = Inr c \<and>
        reports_made c = [Recv 2, Recv 4, Recv 6] \<and> filter (acked c) [1, 2, 3, 4] = [1, 2] \<and>
        filter (acked c') [1, 2, 3, 4] = [1, 2, 3]"
proof -
  let ?cfg = "\<lparr> timestamps = \<lparr> useMillis = False, isTimestampInHeader = False \<rparr>, autoAck = False,
            multiAckEvery = 2, nackMessages = False, requeue = True, consumer_limit = 3, txSize = 2,
            rateLimitation = False, recoveryEnabled = True \<rparr>"
  let ?ds = "map (\<lambda>k. \<lparr> tag = int k, header = No_Headers, body = doCreate (int k) 0, nanos = int k * 3, millis = 0,
                     clock = 0, channel_open = True, latency_passed = True, ack_outcome = Write_Ok,
                     commit_outcome = Write_Ok \<rparr>) [1, 2, 3, 4]"
  have lat: "map (latency_in ?cfg) (take 3 ?ds) = [2, 4, 6]" by code_simp
  have "\<exists>c c'. deliver_all ?cfg ?ds (new_consumer 0) = Inr c \<and>
           reports_made c = map (\<lambda>d. Recv (latency_in ?cfg d)) (take 3 ?ds) \<and>
           filter (acked c) (map tag ?ds) = take 2 (map tag ?ds) \<and>
           (completed c \<noteq> None \<longleftrightarrow> consumer_limit ?cfg \<noteq> 0 \<and> consumer_limit ?cfg \<le> int (length ?ds)) \<and>
           maybeAckCommitBeforeExit ?cfg Write_Ok Write_Ok c = Inr c' \<and>
           filter (acked c') (map tag ?ds) = take 3 (map tag ?ds)"
    by (rule consumer_acknowledges) (simp_all add: smooth_def timestamp_readable_def)
  then obtain c c' where r: "deliver_all ?cfg ?ds (new_consumer 0) = Inr c"
    "reports_made c = map (\<lambda>d. Recv (latency_in ?cfg d)) (take 3 ?ds)"
    "filter (acked c) (map tag ?ds) = take 2 (map tag ?ds)"
    "filter (acked c') (map tag ?ds) = take 3 (map tag ?ds)" by blast
  have "map (\<lambda>d. Recv (latency_in ?cfg d)) (take 3 ?ds) = map Recv (map (latency_in ?cfg) (take 3 ?ds))" by simp
  then have "reports_made c = [Recv 2, Recv 4, Recv 6]" using r(2) by (simp only: lat) simp
  moreover have ts: "map tag ?ds = [1, 2, 3, 4]" by simp
  have "filter (acked c) [1, 2, 3, 4] = take 2 [1, 2, 3, 4]" "filter (acked c') [1, 2, 3, 4] = take 3 [1, 2, 3, 4]"
    using r(3,4) unfolding ts by blast+
  moreover have "take 2 [1, 2, 3, 4 :: int] = [1, 2]" "take 3 [1, 2, 3, 4 :: int] = [1, 2, 3]" by simp_all
  ultimately have "reports_made c = [Recv 2, Recv 4, Recv 6] \<and> filter (acked c) [1, 2, 3, 4] = [1, 2] \<and>
      filter (acked c') [1, 2, 3, 4] = [1, 2, 3]" by presburger
  with r(1) show ?thesis by blast
qed

end
