(* ===== verification/Perf_Values_Spec.thy ===== *)
theory Perf_Values_Spec
  imports Perf_Values
begin

text \<open>
  What the varying values promise: which definitions are accepted, and that the value read
  at any second is the one the cycle of the definitions has at that second.
\<close>

section \<open>The plan the definitions stand for\<close>

text \<open>
  The value at each second of a cycle, written out: every value as many times as its
  duration has seconds, over and over.
\<close>

definition plan :: "(string \<Rightarrow> 'v jres) \<Rightarrow> string option list \<Rightarrow> ('v \<times> nat) list" where
  "plan conversion ds =
     map (\<lambda>d. (projr (conversion (colon_parts (the d) ! 0)), nat (projr (duration_of d)))) ds"

definition cycle_values :: "('v \<times> nat) list \<Rightarrow> 'v list" where
  "cycle_values ps = concat (map (\<lambda>(v, d). replicate d v) ps)"

definition planned_value :: "('v \<times> nat) list \<Rightarrow> nat \<Rightarrow> 'v" where
  "planned_value ps s = cycle_values ps ! (s mod length (cycle_values ps))"

text \<open>The changes along a list of values, from a first one.\<close>

fun changes :: "'v \<Rightarrow> 'v list \<Rightarrow> ('v \<times> 'v) list" where
  "changes v [] = []"
| "changes v (x # xs) = (if v = x then changes v xs else (v, x) # changes x xs)"

lemma cycle_values_simps [simp]:
  "cycle_values [] = []"
  "cycle_values ((v, d) # ps) = replicate d v @ cycle_values ps"
  by (simp_all add: cycle_values_def)

lemma length_cycle_values: "length (cycle_values ps) = sum_list (map snd ps)"
  by (induction ps) auto

section \<open>Accepted definitions\<close>

lemma is_digit_colon [simp]: "\<not> is_digit (CHR '':'')"
  by (simp add: is_digit_def)

lemma parse_int_no_colon: "parse_int s = Some n \<Longrightarrow> CHR '':'' \<notin> set s"
  by (cases s) (auto simp: parse_int_def Let_def list_all_iff split: if_splits)

lemma parse_int_nonempty: "parse_int s = Some n \<Longrightarrow> s \<noteq> []"
  by (auto simp: parse_int_def)

lemma parse_int_dec: "int n \<le> int_max \<Longrightarrow> parse_int (dec n) = Some (int n)"
proof -
  assume n: "int n \<le> int_max"
  obtain c cs where c: "dec n = c # cs" using dec_nonempty [of n] by (cases "dec n") auto
  then have "is_digit c" using dec_digits [of c n] by simp
  then have "c \<noteq> CHR ''-''" "c \<noteq> CHR ''+''" by (auto simp: is_digit_def)
  moreover have "list_all is_digit (dec n)" by (simp add: list_all_iff dec_digits)
  moreover have "int_min \<le> int n" by (simp add: int_min_def)
  moreover have "dec_val (c # cs) = n" using dec_val_dec [of n] c by simp
  ultimately show ?thesis using n c by (simp add: parse_int_def)
qed

lemma split_chr_colons: "split_chr c (replicate k c) = replicate (Suc k) []"
  by (induction k) auto

lemma colon_parts_two:
  assumes "CHR '':'' \<notin> set a" "CHR '':'' \<notin> set b" "b \<noteq> []"
  shows "colon_parts (a @ CHR '':'' # b @ replicate k (CHR '':'')) = [a, b]"
proof -
  have "split_chr (CHR '':'') (b @ replicate k (CHR '':'')) = b # replicate k []"
  proof (cases k)
    case 0
    then show ?thesis using assms by (simp add: split_chr_none)
  next
    case (Suc j)
    then show ?thesis using split_chr_append [OF assms(2), of "replicate j (CHR '':'')"]
      by (simp add: split_chr_colons del: replicate_Suc) simp
  qed
  then have "split_chr (CHR '':'') (a @ CHR '':'' # b @ replicate k (CHR '':'')) = a # b # replicate k []"
    using assms(1) by (simp add: split_chr_append)
  moreover have "dropWhile (\<lambda>p. p = []) (replicate k [] @ xs) = dropWhile (\<lambda>p. p = []) xs" for xs :: "string list"
    by (induction k) simp_all
  ultimately show ?thesis using assms(3) by (simp add: colon_parts_def)
qed

lemma dropWhile_suffix_replicate:
  "\<exists>k. ps = rev (dropWhile (\<lambda>p. p = e) (rev ps)) @ replicate k e"
proof (induction ps rule: rev_induct)
  case (snoc p ps)
  then obtain k where k: "ps = rev (dropWhile (\<lambda>p. p = e) (rev ps)) @ replicate k e" by blast
  show ?case
  proof (cases "p = e")
    case True
    have "ps @ [e] = rev (dropWhile (\<lambda>p. p = e) (rev ps)) @ replicate k e @ [e]"
      using arg_cong [OF k, of "\<lambda>x. x @ [e]"] by simp
    also have "replicate k e @ [e] = replicate (Suc k) e" by (simp add: replicate_append_same)
    finally have "ps @ [e] = rev (dropWhile (\<lambda>p. p = e) (rev ps)) @ replicate (Suc k) e" .
    moreover have "dropWhile (\<lambda>p. p = e) (rev (ps @ [p])) = dropWhile (\<lambda>p. p = e) (rev ps)" using True by simp
    ultimately show ?thesis using True by metis
  next
    case False
    then show ?thesis by (intro exI [of _ 0]) simp
  qed
qed simp

lemma join_colons: "join [c] (b # replicate k []) = b @ replicate k c"
proof (induction k arbitrary: b)
  case (Suc k)
  then show ?case using Suc.IH [of "[]"] by simp
qed simp

lemma colon_parts_twoD:
  assumes "length (colon_parts s) = 2"
  shows "\<exists>a b k. colon_parts s = [a, b] \<and> s = a @ CHR '':'' # b @ replicate k (CHR '':'')"
proof -
  have c: "CHR '':'' \<in> set s" using assms by (auto simp: colon_parts_def split: if_splits)
  obtain k where k: "split_chr (CHR '':'') s = colon_parts s @ replicate k []"
    using dropWhile_suffix_replicate [of "split_chr (CHR '':'') s" "[]"] c by (auto simp: colon_parts_def)
  obtain a b where ab: "colon_parts s = [a, b]"
    using assms by (cases "colon_parts s"; cases "tl (colon_parts s)") auto
  have "s = join [CHR '':''] (a # b # replicate k [])"
    using k ab join_split_chr [of "CHR '':''" s] by simp
  also have "\<dots> = a @ CHR '':'' # b @ replicate k (CHR '':'')"
    using join_colons [of "CHR '':''" b k] by (simp add: join_Cons)
  finally show ?thesis using ab by blast
qed

text \<open>
  \<open>validate\<close> accepts exactly the definitions of the form \<open>VALUE:DURATION\<close>, possibly
  followed by colons (which \<open>split\<close> drops), where both parts are integers within the 32 bits, the
  value not negative and the duration positive; anything else is refused with the exception
  that names the definition.
\<close>
theorem validate_exactly:
  "validate (Some s) =
     (if \<exists>a b n d k. s = a @ '':'' @ b @ replicate k (CHR '':'') \<and>
           parse_int a = Some n \<and> 0 \<le> n \<and> parse_int b = Some d \<and> 0 < d
      then Inr ()
      else Inl (Runtime_Exception (''Invalid variable value definition: '' @ s @
        ''. Should be [VALUE]:[DURATION] with VALUE integer >= 0 and DURATION integer > 0'')))"
    (is "_ = (if ?ok then _ else _)")
proof -
  have v: "valid_definition (Some s) \<longleftrightarrow> ?ok"
  proof
    assume v: "valid_definition (Some s)"
    then have "length (colon_parts s) = 2" by (auto simp: valid_definition_def Let_def split: if_splits)
    from colon_parts_twoD [OF this] obtain a b k
      where s: "colon_parts s = [a, b]" "s = a @ CHR '':'' # b @ replicate k (CHR '':'')" by blast
    with v show ?ok
      by (auto simp: valid_definition_def Let_def split: if_splits option.splits)
  next
    assume ?ok
    then obtain a b n d k where s: "s = a @ CHR '':'' # b @ replicate k (CHR '':'')"
      and p: "parse_int a = Some n" "0 \<le> n" "parse_int b = Some d" "0 < d" by auto
    have "colon_parts s = [a, b]"
      unfolding s using p parse_int_no_colon parse_int_nonempty by (intro colon_parts_two) blast+
    then show "valid_definition (Some s)" using p by (simp add: valid_definition_def s)
  qed
  show ?thesis
    by (cases ?ok; simp only: validate_def v if_True if_False option.case append_Cons append_Nil append_assoc)
qed


section \<open>The intervals\<close>

fun laid_from :: "nat \<Rightarrow> ('v \<times> nat) list \<Rightarrow> 'v interval list" where
  "laid_from k [] = []"
| "laid_from k ((v, d) # ps) =
     \<lparr> first = int k, last_end = int (k + d), held = v \<rparr> # laid_from (k + d) ps"

lemma lay_intervals_plan:
  assumes "lay_intervals conversion (int k) ds = Inr is"
    and "k + sum_list (map snd (plan conversion ds)) < 2 ^ 31"
  shows "is = laid_from k (plan conversion ds) \<and>
         list_all2 (\<lambda>d p. duration_of d = Inr (int (snd p)) \<and> 0 < snd p) ds (plan conversion ds)"
  using assms
proof (induction ds arbitrary: k "is")
  case Nil
  then show ?case by (simp add: plan_def)
next
  case (Cons d ds)
  from Cons.prems(1) obtain n v is' where v: "validate d = Inr ()" "duration_of d = Inr n"
    "conversion (colon_parts (the d) ! 0) = Inr v"
    "lay_intervals conversion (wrap32 (int k + n)) ds = Inr is'"
    "is = \<lparr> first = int k, last_end = wrap32 (int k + n), held = v \<rparr> # is'"
    by (auto simp: bindE_Inr_iff Let_def)
  have "0 < n" using v(1,2)
    by (auto simp: validate_def valid_definition_def duration_of_def Let_def
        split: if_splits option.splits)
  then have n: "n = int (nat n)" "0 < nat n" by simp_all
  have p: "plan conversion (d # ds) = (v, nat n) # plan conversion ds" using v by (simp add: plan_def)
  have k: "k + nat n + sum_list (map snd (plan conversion ds)) < 2 ^ 31" using Cons.prems(2) p by simp
  have w: "wrap32 (int k + n) = int (k + nat n)"
    using k n by (subst wrap32_id) (simp_all add: int_max_def)
  show ?case using Cons.IH [OF v(4) [unfolded w] k] v n w p by simp
qed

lemma find_laid:
  "k \<le> s \<Longrightarrow> s < k + length (cycle_values ps) \<Longrightarrow>
   \<exists>i. List.find (\<lambda>i. isIn i (int s)) (laid_from k ps) = Some i \<and> held i = cycle_values ps ! (s - k)"
proof (induction ps arbitrary: k)
  case (Cons p ps)
  obtain v d where p: "p = (v, d)" by force
  show ?case
  proof (cases "s < k + d")
    case True
    then have "s - k < d" using Cons.prems(1) by linarith
    then show ?thesis using True Cons.prems p by (simp add: isIn_def nth_append)
  next
    case False
    then have "\<not> s - k < d" by linarith
    then show ?thesis using False Cons.IH [of "k + d"] Cons.prems p by (simp add: isIn_def nth_append)
  qed
qed simp

lemma cycle_of_laid: "ps \<noteq> [] \<Longrightarrow> cycle_of (laid_from k ps) = int (k + length (cycle_values ps))"
proof (induction ps arbitrary: k)
  case (Cons p ps)
  obtain v d where p: "p = (v, d)" by force
  then show ?case using Cons.IH [of "k + d"]
    by (cases ps; cases "hd ps") (auto simp: cycle_of_def)
qed simp

section \<open>The period\<close>

lemma gcd_pair_eq: "0 \<le> a \<Longrightarrow> 0 \<le> b \<Longrightarrow> gcd_pair a b = gcd a b"
proof (induction a b rule: gcd_pair.induct)
  case (1 a b)
  show ?case
  proof (cases "a = 0")
    case False
    then have r: "rem_int b a = b mod a" using 1 by (intro rem_int_nonneg) simp_all
    then have "gcd_pair (rem_int b a) a = gcd (b mod a) a"
      using 1 False by simp
    then show ?thesis using False r by (simp add: gcd_pair.simps [of a b] gcd.commute gcd_red_int [symmetric])
  qed (use 1 in \<open>simp add: gcd_pair.simps\<close>)
qed

lemma foldl_gcd_pair:
  "0 < n \<Longrightarrow> \<forall>m \<in> set ns. 0 < m \<Longrightarrow>
   foldl (\<lambda>result m. gcd_pair m result) n ns > 0 \<and>
   (\<forall>m \<in> set (n # ns). foldl (\<lambda>result m. gcd_pair m result) n ns dvd m)"
proof (induction ns arbitrary: n)
  case (Cons m ns)
  then have g: "gcd_pair m n = gcd m n" by (simp add: gcd_pair_eq)
  with Cons.prems have "0 < gcd_pair m n" by simp
  with Cons.IH [of "gcd_pair m n"] Cons.prems g show ?case by (auto intro: dvd_trans)
qed simp

lemma gcd_all_divides:
  "ns \<noteq> [] \<Longrightarrow> \<forall>n \<in> set ns. 0 < n \<Longrightarrow> \<exists>g. gcd_all ns = Inr g \<and> 0 < g \<and> (\<forall>n \<in> set ns. g dvd n)"
  using foldl_gcd_pair [of "hd ns" "tl ns"] by (cases ns) (auto simp: gcd_all_def)

text \<open>Between two multiples of a common divisor of the durations the plan does not change.\<close>

lemma cycle_values_block:
  assumes "\<forall>p \<in> set ps. g dvd snd p" "0 < (g :: nat)" "i < length (cycle_values ps)"
  shows "cycle_values ps ! (g * (i div g)) = cycle_values ps ! i"
  using assms
proof (induction ps arbitrary: i)
  case (Cons p ps)
  obtain v d where p: "p = (v, d)" by force
  obtain k where k: "d = g * k" using Cons.prems(1) p by (auto elim: dvdE)
  have le: "g * (i div g) \<le> i" by simp
  show ?case
  proof (cases "i < d")
    case True
    then have "g * (i div g) < d" using le by linarith
    then show ?thesis using True p by (simp add: nth_append)
  next
    case False
    then have i: "i = (i - d) + k * g" using k by simp
    have "((i - d) + k * g) div g = k + (i - d) div g" using Cons.prems(2) by (intro div_mult_self1) simp
    then have "i div g = k + (i - d) div g" using i by argo
    then have e: "g * (i div g) = d + g * ((i - d) div g)" using k by (simp add: distrib_left)
    have "g * (i div g) - d = g * ((i - d) div g)" "\<not> g * (i div g) < d" unfolding e by simp_all
    then show ?thesis using Cons.IH [of "i - d"] Cons.prems False p by (simp add: nth_append del: mult_eq_if)
  qed
qed simp

lemma planned_value_block:
  assumes "\<forall>p \<in> set ps. g dvd snd p" "0 < (g :: nat)" "cycle_values ps \<noteq> []"
  shows "planned_value ps (g * (s div g)) = planned_value ps s"
proof -
  let ?n = "length (cycle_values ps)"
  have "g dvd ?n" unfolding length_cycle_values using assms(1) by (induction ps) auto
  then obtain m where m: "?n = g * m" by (auto elim: dvdE)
  have "(g * (s div g)) mod ?n = g * ((s div g) mod m)" by (simp add: m)
  also have "\<dots> = g * ((s mod ?n) div g)"
    using assms(2) by (simp add: m mod_mult2_eq)
  finally show ?thesis
    using cycle_values_block [OF assms(1,2), of "s mod ?n"] assms(3) by (simp add: planned_value_def)
qed


section \<open>The runs of the task\<close>

lemma wrap64_diff: "wrap64 (wrap64 a - b) = wrap64 (a - b)"
  unfolding wrap64_def by (simp add: mod_simps algebra_simps)

lemma tick_sets:
  assumes ps: "laid ind = laid_from 0 ps" "cycle_values ps \<noteq> []"
    and e: "0 \<le> e" "e < 2 ^ 63"
  shows "tick start ind (wrap64 (start + e)) =
           Inr (let v = planned_value ps (nat (e div NANO_TO_SECOND)) in
                ind\<lparr> current := v, told := told ind @ changes (current ind) [v] \<rparr>)"
proof -
  let ?n = "length (cycle_values ps)"
  let ?s = "nat (e div NANO_TO_SECOND)"
  have n: "0 < ?n" using ps(2) by simp
  have cyc: "cycle_of (laid ind) = int ?n" using ps by (subst ps(1), subst cycle_of_laid) auto
  have "wrap64 (wrap64 (start + e) - start) = e" using e by (simp add: wrap64_diff)
  then have q: "quot (wrap64 (wrap64 (start + e) - start)) NANO_TO_SECOND = int ?s"
    using e by (simp add: quot_nonneg NANO_TO_SECOND_def pos_imp_zdiv_nonneg_iff)
  have r: "rem_int (int ?s) (int ?n) = int (?s mod ?n)"
    using n by (subst rem_int_nonneg) (simp_all only: of_nat_0_le_iff of_nat_0_less_iff of_nat_mod)
  have "?s mod ?n < 0 + length (cycle_values ps)" using n by simp
  from find_laid [OF le0 this] obtain i
    where i: "List.find (\<lambda>i. isIn i (int (?s mod ?n))) (laid ind) = Some i" "held i = planned_value ps ?s"
    by (auto simp: ps(1) planned_value_def)
  have "updateValueIfNecessary (laid ind) start (wrap64 (start + e)) (cycle_of (laid ind)) st =
          Inr (if fst st = held i then st else (held i, snd st @ [(fst st, held i)]))" for st
    using n unfolding updateValueIfNecessary_def Let_def q cyc r i(1) by simp
  then show ?thesis using i(2) by (simp add: tick_def Let_def)
qed

lemma changes_append: "changes v (xs @ ys) = changes v xs @ changes (last (v # xs)) ys"
  by (induction xs arbitrary: v) auto

lemma ticks_run:
  assumes "laid ind = laid_from 0 ps" "cycle_values ps \<noteq> []"
    and "\<forall>e \<in> set es. 0 \<le> e \<and> e < 2 ^ 63"
  shows "ticks start ind (map (\<lambda>e. wrap64 (start + e)) es) =
           (let vs = map (\<lambda>e. planned_value ps (nat (e div NANO_TO_SECOND))) es in
            ind\<lparr> current := last (current ind # vs), told := told ind @ changes (current ind) vs \<rparr>)"
  using assms
proof (induction es arbitrary: ind)
  case (Cons e es)
  let ?v = "planned_value ps (nat (e div NANO_TO_SECOND))"
  let ?ind = "ind\<lparr> current := ?v, told := told ind @ changes (current ind) [?v] \<rparr>"
  have t: "tick start ind (wrap64 (start + e)) = Inr ?ind"
    using Cons.prems by (simp add: tick_sets [OF Cons.prems(1,2)] Let_def)
  let ?vs = "map (\<lambda>e. planned_value ps (nat (e div NANO_TO_SECOND))) es"
  have "ticks start ?ind (map (\<lambda>e. wrap64 (start + e)) es) =
          ?ind\<lparr> current := last (current ?ind # ?vs), told := told ?ind @ changes (current ?ind) ?vs \<rparr>"
    using Cons.prems Cons.IH [of ?ind] by (simp add: Let_def)
  also have "\<dots> = ind\<lparr> current := last (current ind # ?v # ?vs),
                     told := told ind @ changes (current ind) (?v # ?vs) \<rparr>"
    by simp
  finally show ?case using t by (simp only: list.map ticks.simps sum.case Let_def)
qed simp

text \<open>What a new indicator holds.\<close>

lemma new_indicator_laid:
  assumes "new_indicator (Some ds) conversion = Inr ind"
    and "sum_list (map snd (plan conversion ds)) < 2 ^ 31"
  shows "laid ind = laid_from 0 (plan conversion ds)" "cycle_values (plan conversion ds) \<noteq> []"
    "current ind = planned_value (plan conversion ds) 0" "told ind = []"
    "\<exists>g. period ind = Inr (int g) \<and> 0 < g \<and> (\<forall>p \<in> set (plan conversion ds). g dvd snd p)"
proof -
  let ?ps = "plan conversion ds"
  from assms(1) obtain is' where is': "ds \<noteq> []" "lay_intervals conversion 0 ds = Inr is'"
    "(case is' of [] \<Rightarrow> Inl Index_Out_Of_Bounds
      | i # _ \<Rightarrow> Inr \<lparr> definitions = ds, laid = is', current = held i, told = [] \<rparr>) = Inr ind"
    unfolding new_indicator_def bindE_Inr_iff intervals_def by (auto simp: bindE_Inr_iff split: if_splits)
  then obtain i "is" where i: "ds \<noteq> []" "lay_intervals conversion (int 0) ds = Inr (i # is)"
    "ind = \<lparr> definitions = ds, laid = i # is, current = held i, told = [] \<rparr>"
    by (cases is') auto
  from lay_intervals_plan [OF i(2)] assms(2)
  have l: "i # is = laid_from 0 ?ps"
    "list_all2 (\<lambda>d p. duration_of d = Inr (int (snd p)) \<and> 0 < snd p) ds ?ps" by simp_all
  obtain v d ps where p: "?ps = (v, d) # ps" using i(1) by (cases ds) (auto simp: plan_def)
  have d: "0 < d" using l(2) p by (auto simp: list_all2_Cons2)
  show "laid ind = laid_from 0 ?ps" "told ind = []" using i l by simp_all
  show "cycle_values ?ps \<noteq> []" using p d by simp
  show "current ind = planned_value ?ps 0" using i l(1) p d by (simp add: planned_value_def nth_append)
  have ns: "mapE duration_of ds = Inr (map (int \<circ> snd) ?ps)"
    using l(2) by (auto simp: mapE_Inr_iff list_all2_map2 elim: list_all2_mono)
  have pos: "\<forall>n \<in> set (map (int \<circ> snd) ?ps). 0 < n"
    using l(2) by (fastforce simp: list_all2_conv_all_nth in_set_conv_nth)
  obtain g where g: "gcd_all (map (int \<circ> snd) ?ps) = Inr g" "0 < g"
    "\<forall>n \<in> set (map (int \<circ> snd) ?ps). g dvd n"
    using gcd_all_divides [OF _ pos] p by auto
  then have "period ind = Inr (int (nat g))" using i ns by (simp add: period_def)
  moreover have "\<forall>p \<in> set ?ps. nat g dvd snd p" using g(2,3) by (auto simp: nat_dvd_iff)
  ultimately show "\<exists>g. period ind = Inr (int g) \<and> 0 < g \<and> (\<forall>p \<in> set ?ps. g dvd snd p)"
    using g(2) by (intro exI [of _ "nat g"]) auto
qed

lemma changes_plan:
  assumes "\<forall>p \<in> set ps. g dvd snd p" "0 < (g :: nat)" "cycle_values ps \<noteq> []"
  shows "changes v (map (planned_value ps) [0..<Suc s]) =
         changes v (map (\<lambda>j. planned_value ps (g * j)) [0..<Suc (s div g)])"
proof (induction s)
  case (Suc s)
  let ?F = "\<lambda>n. map (\<lambda>j. planned_value ps (g * j)) [0..<Suc n]"
  have last: "last (v # ?F n) = planned_value ps (g * n)" for n by simp
  have "changes v (map (planned_value ps) [0..<Suc (Suc s)]) =
          changes v (map (planned_value ps) [0..<Suc s]) @ changes (planned_value ps s) [planned_value ps (Suc s)]"
    using changes_append [of v "map (planned_value ps) [0..<Suc s]" "[planned_value ps (Suc s)]"] by simp
  also have "\<dots> = changes v (?F (s div g)) @ changes (planned_value ps (g * (s div g))) [planned_value ps (g * (Suc s div g))]"
    by (simp only: Suc.IH planned_value_block [OF assms])
  also have "\<dots> = changes v (?F (Suc s div g))"
  proof (cases "Suc s div g = s div g")
    case False
    then have "Suc s div g = Suc (s div g)" by (simp add: div_Suc split: if_splits)
    then show ?thesis
      using changes_append [of v "?F (s div g)" "[planned_value ps (g * Suc (s div g))]"]
      by (simp only: last) simp
  qed simp
  finally show ?case .
qed simp

lemma ticks_follow_plan:
  assumes "new_indicator (Some ds) conversion = Inr ind"
    and "sum_list (map snd (plan conversion ds)) < 2 ^ 31"
    and "period ind = Inr (int g)"
    and "\<forall>j \<in> {..n}. 0 \<le> late j \<and> late j < 10 ^ 9"
    and "int (n * g + 1) * 10 ^ 9 < 2 ^ 63"
    and "n = s div g"
  shows "(let run = ticks start ind
                 (map (\<lambda>j. wrap64 (start + (int (j * g) * 10 ^ 9 + late j))) [0..<Suc n])
          in getValue run = planned_value (plan conversion ds) s \<and>
             told run = changes (planned_value (plan conversion ds) 0)
                          (map (planned_value (plan conversion ds)) [0..<Suc s]))"
proof -
  let ?ps = "plan conversion ds"
  note new = new_indicator_laid [OF assms(1,2)]
  from new(5) assms(3) have g: "0 < g" "\<forall>p \<in> set ?ps. g dvd snd p" by auto
  let ?e = "\<lambda>j. int (j * g) * 10 ^ 9 + late j"
  have bounds: "0 \<le> ?e j \<and> ?e j < 2 ^ 63 \<and> nat (?e j div NANO_TO_SECOND) = g * j" if "j \<le> n" for j
  proof -
    have l: "0 \<le> late j" "late j < 10 ^ 9" using assms(4) that by simp_all
    have "int (j * g) * 10 ^ 9 \<le> int (n * g) * 10 ^ 9" using that by (simp add: mult_right_mono)
    moreover have "int (n * g) * 10 ^ 9 + 10 ^ 9 < 2 ^ 63" using assms(5) by (simp add: algebra_simps)
    ultimately have "?e j < 2 ^ 63" using l by linarith
    moreover have "?e j div NANO_TO_SECOND = int (j * g)" using l by (simp add: NANO_TO_SECOND_def)
    ultimately show ?thesis using l by (simp only: nat_int mult.commute [of g]) simp
  qed
  have "ticks start ind (map (\<lambda>e. wrap64 (start + e)) (map ?e [0..<Suc n])) =
          (let vs = map (\<lambda>e. planned_value ?ps (nat (e div NANO_TO_SECOND))) (map ?e [0..<Suc n]) in
            ind\<lparr> current := last (current ind # vs), told := told ind @ changes (current ind) vs \<rparr>)"
    using bounds by (intro ticks_run new(1,2)) auto
  moreover have "map (\<lambda>e. planned_value ?ps (nat (e div NANO_TO_SECOND))) (map ?e [0..<Suc n]) =
          map (\<lambda>j. planned_value ?ps (g * j)) [0..<Suc n]"
    unfolding map_map
  proof (rule map_cong [OF refl])
    fix j assume "j \<in> set [0..<Suc n]"
    then have "j \<le> n" by auto
    then show "((\<lambda>e. planned_value ?ps (nat (e div NANO_TO_SECOND))) \<circ> ?e) j = planned_value ?ps (g * j)"
      using bounds [of j] by (simp only: comp_def)
  qed
  ultimately have run: "ticks start ind (map (\<lambda>j. wrap64 (start + ?e j)) [0..<Suc n]) =
      ind\<lparr> current := last (current ind # map (\<lambda>j. planned_value ?ps (g * j)) [0..<Suc n]),
           told := told ind @ changes (current ind) (map (\<lambda>j. planned_value ?ps (g * j)) [0..<Suc n]) \<rparr>"
    by (simp only: map_map o_def Let_def)
  have "planned_value ?ps (g * n) = planned_value ?ps s"
    using planned_value_block [OF g(2,1) new(2), of s] assms(6) by simp
  then show ?thesis
    using changes_plan [OF g(2,1) new(2), of "planned_value ?ps 0" s] new(3,4) assms(6)
    unfolding run Let_def by (simp add: getValue_def)
qed

text \<open>
  C11: the value follows its plan. For any accepted definitions whose durations add up to less
  than the range of an \<open>int\<close>, the period computed from the greatest common divisor is short
  enough: when the executor runs the task every period, each run late by less than a second,
  the value read in any second \<open>s\<close> up to the next run is the one the cyclic plan has at \<open>s\<close>,
  whatever \<open>System.nanoTime\<close> starts from (its wrap-around included); and the listeners have heard
  of each change of the plan, in order, and of nothing else.
\<close>
theorem value_follows_plan:
  assumes "new_indicator (Some ds) conversion = Inr ind"
    and "sum_list (map snd (plan conversion ds)) < 2 ^ 31"
    and "period ind = Inr (int g)"
    and "\<forall>j \<in> {..n}. 0 \<le> late j \<and> late j < 10 ^ 9"
    and "int (n * g + 1) * 10 ^ 9 < 2 ^ 63"
    and "n = s div g"
  shows "(let run = ticks start ind
                 (map (\<lambda>j. wrap64 (start + (int (j * g) * 10 ^ 9 + late j))) [0..<Suc n])
          in getValue run = planned_value (plan conversion ds) s \<and>
             told run = changes (planned_value (plan conversion ds) 0)
                          (map (planned_value (plan conversion ds)) [0..<Suc s]))"
  using assms by (rule ticks_follow_plan)

theorem value_follows_plan_witness:
  "\<exists>ind. new_indicator (Some [Some ''7:4'', Some ''9:2'']) (\<lambda>s. Inr (dec_val s)) = Inr ind \<and>
     (let run = ticks (2 ^ 63 - 5) ind (map (\<lambda>j. wrap64 (2 ^ 63 - 5 + (int (j * 2) * 10 ^ 9 + 7))) [0..<Suc 3]) in
       getValue run = 7 \<and> told run = [(7, 9), (9, 7)])"
proof -
  let ?ds = "[Some ''7:4'', Some ''9:2'']"
  let ?c = "\<lambda>s. Inr (dec_val s) :: nat jres"
  have "isl (new_indicator (Some ?ds) ?c) = False" "period (projr (new_indicator (Some ?ds) ?c)) = Inr (int 2)"
    by code_simp+
  then obtain ind where ind: "new_indicator (Some ?ds) ?c = Inr ind" "period ind = Inr (int 2)"
    by (cases "new_indicator (Some ?ds) ?c") auto
  have p: "plan ?c ?ds = [(7, 4), (9, 2)]" by code_simp
  have sum: "sum_list (map snd (plan ?c ?ds)) < 2 ^ 31" unfolding p by simp
  have v: "planned_value (plan ?c ?ds) 6 = 7" unfolding p by code_simp
  have c: "changes (planned_value (plan ?c ?ds) 0) (map (planned_value (plan ?c ?ds)) [0..<Suc 6]) = [(7, 9), (9, 7)]"
    unfolding p by code_simp
  let ?run = "ticks (2 ^ 63 - 5) ind (map (\<lambda>j. wrap64 (2 ^ 63 - 5 + (int (j * 2) * 10 ^ 9 + 7))) [0..<Suc 3])"
  have "let run = ?run in getValue run = planned_value (plan ?c ?ds) 6 \<and>
      told run = changes (planned_value (plan ?c ?ds) 0) (map (planned_value (plan ?c ?ds)) [0..<Suc 6])"
    by (rule value_follows_plan [OF ind(1) sum ind(2)]) simp_all
  then have "let run = ?run in getValue run = 7 \<and> told run = [(7, 9), (9, 7)]"
    by (simp only: v c)
  with ind(1) show ?thesis by blast
qed

end
