(* ===== verification/Perf_Sizes.thy ===== *)
theory Perf_Sizes
  imports Perf_Messages Perf_Values_Spec
begin

text \<open>
  The size of the messages. A source of bodies is made once, with an array for each value its
  indicator can have (\<open>values()\<close>), and asks the indicator for its value at each message: what
  it needs is that the value is one of these. This is the contract of \<open>ValueIndicator\<close>, and
  both indicators keep it.
\<close>

section \<open>The constant indicator\<close>

definition fixed_getValue :: "'v \<Rightarrow> 'v" where
  "fixed_getValue v = v"

definition fixed_values :: "'v \<Rightarrow> 'v list" where
  "fixed_values v = [v]"

section \<open>The contract\<close>

text \<open>
  \<open>live\<close>: the states an indicator can be in; \<open>values_of\<close> does not change while a run lasts.
\<close>

locale value_indicator =
  fixes live :: "'s \<Rightarrow> 's \<Rightarrow> bool"
    and value_of :: "'s \<Rightarrow> int"
    and values_of :: "'s \<Rightarrow> int list"
  assumes value_possible: "live s0 s \<Longrightarrow> value_of s \<in> set (values_of s0)"
begin

lemma new_source_lengths:
  "new_body_source (values_of s0) = Some src \<Longrightarrow> live s0 s \<Longrightarrow>
   0 \<le> value_of s \<and> value_of s \<in> (\<lambda>a. int (length a)) ` set src"
  using value_possible [of s0 s]
  by (auto simp: new_body_source_def image_iff not_less split: if_splits intro!: bexI [of _ "value_of s"])

text \<open>A body made in a live state, from arrays that earlier messages may have used.\<close>

lemma body_size:
  assumes "new_body_source (values_of s0) = Some src0" "live s0 s" "map length src = map length src0"
    and "create tp nanos millis (value_of s) n src = ((b, t), src')"
  shows "int (length b) = max 12 (value_of s) \<and> map length src' = map length src0 \<and> take 12 b = doCreate t n"
proof -
  have "(\<lambda>a. int (length a)) ` set src = (\<lambda>a. int (length a)) ` set src0"
    using arg_cong [OF assms(3), of "\<lambda>xs. int ` set xs"] by (simp add: image_image)
  then have sz: "0 \<le> value_of s" "value_of s \<in> (\<lambda>a. int (length a)) ` set src"
    using new_source_lengths [OF assms(1,2)] by simp_all
  have c: "copy_into (doCreate t n) (value_of s) src = (b, src')"
    using assms(4) by (auto simp: create_def Let_def split: prod.splits)
  show ?thesis using copy_into_body [OF c sz] assms(3) by simp
qed

end

interpretation fixed_vi: value_indicator "\<lambda>v0 v. v = v0" fixed_getValue fixed_values
  by unfold_locales (simp add: fixed_getValue_def fixed_values_def)

text \<open>A varying indicator after the task was run at any instants.\<close>

definition ran :: "int indicator \<Rightarrow> int indicator \<Rightarrow> bool" where
  "ran ind0 ind \<longleftrightarrow> current ind \<in> held ` set (laid ind0) \<and> laid ind = laid ind0"

lemma tick_ran: "ran ind0 ind \<Longrightarrow> tick start ind now = Inr ind' \<Longrightarrow> ran ind0 ind'"
  by (auto simp: ran_def tick_def updateValueIfNecessary_def bindE_Inr_iff Let_def find_Some_iff
      split: if_splits option.splits)

lemma ticks_ran: "ran ind0 ind \<Longrightarrow> ran ind0 (ticks start ind ts)"
proof (induction ts arbitrary: ind)
  case (Cons t ts)
  then show ?case using tick_ran [OF Cons.prems] by (auto split: sum.splits)
qed simp

lemma new_indicator_ran: "new_indicator given conversion = Inr ind \<Longrightarrow> ran ind ind"
proof -
  assume "new_indicator given conversion = Inr ind"
  then obtain ds "is" where "(case is of [] \<Rightarrow> Inl Index_Out_Of_Bounds
      | i # _ \<Rightarrow> Inr \<lparr> definitions = ds, laid = is, current = held i, told = [] \<rparr>) = Inr ind"
    unfolding new_indicator_def bindE_Inr_iff by (auto simp: bindE_Inr_iff split: option.splits if_splits)
  then show ?thesis by (cases "is") (auto simp: ran_def)
qed

interpretation variable_vi: value_indicator ran getValue indicator_values
  by unfold_locales (auto simp: ran_def getValue_def indicator_values_def)

text \<open>
  C36: the messages have the size the plan of sizes wants. For definitions of varying sizes that
  are accepted and none of which is negative, the source has an array for each, and when the
  task runs every period, each run late by less than a second, a message made in any second is
  as long as the plan has it at that second, or the twelve bytes it needs, whatever messages
  were made before; it begins with its number and its time.
\<close>
theorem message_size_follows_plan:
  assumes "new_indicator (Some ds) conversion = Inr ind"
    and "sum_list (map snd (plan conversion ds)) < 2 ^ 31"
    and "period ind = Inr (int g)"
    and "\<forall>j \<in> {..s div g}. 0 \<le> late j \<and> late j < 10 ^ 9"
    and "int (s div g * g + 1) * 10 ^ 9 < 2 ^ 63"
    and "now = ticks start ind
                 (map (\<lambda>j. wrap64 (start + (int (j * g) * 10 ^ 9 + late j))) [0..<Suc (s div g)])"
    and "new_body_source (indicator_values ind) = Some src0" "map length src = map length src0"
    and "create tp nanos millis (getValue now) n src = ((b, t), src')"
  shows "int (length b) = max 12 (planned_value (plan conversion ds) s) \<and>
         take 12 b = doCreate t n \<and> map length src' = map length src0"
proof -
  have "ran ind now" unfolding assms(6) by (intro ticks_ran new_indicator_ran [OF assms(1)])
  moreover have "getValue now = planned_value (plan conversion ds) s"
    using ticks_follow_plan [OF assms(1-5) refl, of start] assms(6) by (simp only: Let_def)
  ultimately show ?thesis using variable_vi.body_size [OF assms(7) _ assms(8,9)] by simp
qed

theorem message_size_follows_plan_witness:
  "\<exists>ind b t src'. new_indicator (Some [Some ''14:4'', Some ''20:2'']) (\<lambda>s. Inr (int (dec_val s))) = Inr ind \<and>
     create \<lparr> useMillis = False, isTimestampInHeader = False \<rparr> 1000 0
       (getValue (ticks 0 ind (map (\<lambda>j. wrap64 (0 + (int (j * 2) * 10 ^ 9 + 7))) [0..<Suc 2]))) 3
       (map (\<lambda>n. replicate (nat n) 0) (indicator_values ind)) = ((b, t), src') \<and>
     length b = 20 \<and> take 12 b = doCreate t 3"
proof -
  let ?ds = "[Some ''14:4'', Some ''20:2'']"
  let ?c = "\<lambda>s. Inr (int (dec_val s)) :: int jres"
  let ?tp = "\<lparr> useMillis = False, isTimestampInHeader = False \<rparr>"
  have "isl (new_indicator (Some ?ds) ?c) = False" "period (projr (new_indicator (Some ?ds) ?c)) = Inr (int 2)"
    "indicator_values (projr (new_indicator (Some ?ds) ?c)) = [14, 20]"
    by code_simp+
  then obtain ind where ind: "new_indicator (Some ?ds) ?c = Inr ind" "period ind = Inr (int 2)"
    "indicator_values ind = [14, 20]"
    by (cases "new_indicator (Some ?ds) ?c") auto
  have p: "plan ?c ?ds = [(14, 4), (20, 2)]" by code_simp
  have sum: "sum_list (map snd (plan ?c ?ds)) < 2 ^ 31" unfolding p by simp
  have v: "planned_value (plan ?c ?ds) 5 = 20" unfolding p by code_simp
  let ?now = "ticks 0 ind (map (\<lambda>j. wrap64 (0 + (int (j * 2) * 10 ^ 9 + 7))) [0..<Suc (5 div 2)])"
  let ?src = "map (\<lambda>n. replicate (nat n) 0) (indicator_values ind)"
  obtain b t src' where c: "create ?tp 1000 0 (getValue ?now) 3 ?src = ((b, t), src')"
    by (metis surj_pair)
  have src: "new_body_source (indicator_values ind) = Some ?src" by (simp add: new_body_source_def ind(3))
  have "int (length b) = max 12 (planned_value (plan ?c ?ds) 5) \<and> take 12 b = doCreate t 3"
    using message_size_follows_plan [where late = "\<lambda>_. 7" and s = 5 and start = 0,
      OF ind(1) sum ind(2) _ _ refl src refl c] by simp
  then have "length b = 20" "take 12 b = doCreate t 3" unfolding v by simp_all
  moreover have "5 div 2 = (2 :: nat)" by simp
  ultimately show ?thesis using ind(1) c by metis
qed

end
