(* ===== verification/Perf_Flow.thy ===== *)
theory Perf_Flow
  imports Perf_Consumer
begin

text \<open>
  From the publishing of messages to the written latency: the bodies a producer makes, the
  consumer that reads them and calls the statistics, and the results of the run.
\<close>

section \<open>The reports of a consumer\<close>

definition same_reports :: "consumer \<Rightarrow> consumer \<Rightarrow> bool" where
  "same_reports c c' \<longleftrightarrow>
     reports_made c' = reports_made c \<and> receivedMessageCount c' = receivedMessageCount c"

lemma ack_one_reports: "ack_one cfg d m c = Inr c' \<Longrightarrow> same_reports c c'"
  by (cases "dealWithWriteOperation (recoveryEnabled cfg) (ack_outcome d)")
    (auto simp: ack_one_def same_reports_def)

lemma ack_reports: "ackIfNecessary cfg d n c = Inr c' \<Longrightarrow> same_reports c c'"
  using ack_one_reports by (auto simp: ackIfNecessary_def same_reports_def split: if_splits)

lemma commit_reports: "commitTransactionIfNecessary cfg d n c = Inr c' \<Longrightarrow> same_reports c c'"
  by (cases "dealWithWriteOperation (recoveryEnabled cfg) (commit_outcome d)")
    (auto simp: commitTransactionIfNecessary_def same_reports_def split: if_splits)

lemma handle_within_reports:
  assumes "handle_within_limit cfg d c = Inr c'"
  shows "reports_made c' = reports_made c @ [Recv (latency_in cfg d)]"
    and "receivedMessageCount c' = receivedMessageCount c"
proof -
  let ?c1 = "c\<lparr> reports_made := reports_made c @ [Recv (latency_in cfg d)] \<rparr>"
  have "same_reports ?c1 c'"
  proof (cases "latency_passed d")
    case False
    then show ?thesis using assms by (auto simp: handle_within_limit_def same_reports_def bindE_Inr_iff latency_in_read)
  next
    case True
    then obtain c2 c3 where "ackIfNecessary cfg d (epochMessageCount ?c1) ?c1 = Inr c2"
      "commitTransactionIfNecessary cfg d (epochMessageCount c2) c2 = Inr c3"
      "c' = resetStats cfg d (c3\<lparr> lastDeliveryTag := tag d \<rparr>)"
      using assms unfolding handle_within_limit_def Let_def by (auto simp: bindE_Inr_iff latency_in_read)
    then show ?thesis using ack_reports [of cfg d _ ?c1 c2] commit_reports [of cfg d _ c2 c3]
      by (simp add: same_reports_def resetStats_def)
  qed
  then show "reports_made c' = reports_made c @ [Recv (latency_in cfg d)]"
    "receivedMessageCount c' = receivedMessageCount c" by (simp_all add: same_reports_def)
qed

lemma handle_message_reports:
  assumes "handleMessage cfg d c = Inr c'" "receivedMessageCount c = int r" "Suc r < 2 ^ 63"
  shows "receivedMessageCount c' = int (Suc r) \<and>
    reports_made c' = reports_made c @
      (if consumer_limit cfg = 0 \<or> int (Suc r) \<le> consumer_limit cfg then [Recv (latency_in cfg d)] else [])"
proof -
  let ?c1 = "c\<lparr> receivedMessageCount := wrap64 (receivedMessageCount c + 1),
                epochMessageCount := wrap64 (epochMessageCount c + 1),
                consumer_msgCount := wrap32 (consumer_msgCount c + 1),
                lastActivityTimestamp := getCurrentTime (timestamps cfg) (nanos d) (millis d) \<rparr>"
  have w: "wrap64 (int r + 1) = int (Suc r)" using assms(3) by simp
  let ?in = "consumer_limit cfg = 0 \<or> int (Suc r) \<le> consumer_limit cfg"
  obtain c2 where c2: "(if ?in then handle_within_limit cfg d ?c1 else Inr ?c1) = Inr c2"
    "reports_made c' = reports_made c2" "receivedMessageCount c' = receivedMessageCount c2"
    using assms(1,2) w unfolding handleMessage_def Let_def bindE_Inr_iff
    by (auto simp: countDown_def split: if_splits)
  show ?thesis
  proof (cases ?in)
    case True
    then have "handle_within_limit cfg d ?c1 = Inr c2" using c2(1) by simp
    from handle_within_reports [OF this] show ?thesis using c2(2,3) True assms(2) w by simp
  next
    case False
    then show ?thesis using c2 assms(2) w by auto
  qed
qed

text \<open>
  Whatever happens to the acknowledgements, a consumer that gets through its messages has reported the
  first ones that came on an open channel, up to its limit, with their latencies.
\<close>

lemma reports_of_deliveries:
  assumes "deliver_all cfg ds c = Inr c'" "receivedMessageCount c = int r" "r + length ds < 2 ^ 63"
    and "0 \<le> consumer_limit cfg"
  shows "reports_made c' = reports_made c @ map (\<lambda>d. Recv (latency_in cfg d))
    (if consumer_limit cfg = 0 then filter channel_open ds
     else take (nat (consumer_limit cfg) - r) (filter channel_open ds))"
  using assms
proof (induction ds arbitrary: c r)
  case (Cons d ds)
  then obtain c1 where c1: "maybeHandleMessage cfg d c = Inr c1" "deliver_all cfg ds c1 = Inr c'"
    by (auto simp: bindE_Inr_iff)
  show ?case
  proof (cases "channel_open d")
    case False
    then show ?thesis using c1 Cons.IH [of c r] Cons.prems by (simp add: maybeHandleMessage_def)
  next
    case True
    then have "handleMessage cfg d c = Inr c1" using c1(1) by (simp add: maybeHandleMessage_def)
    from handle_message_reports [OF this Cons.prems(2)] Cons.prems(3)
    have h: "receivedMessageCount c1 = int (Suc r)" "reports_made c1 = reports_made c @
        (if consumer_limit cfg = 0 \<or> int (Suc r) \<le> consumer_limit cfg then [Recv (latency_in cfg d)] else [])"
      by simp_all
    have ih: "reports_made c' = reports_made c1 @ map (\<lambda>d. Recv (latency_in cfg d))
        (if consumer_limit cfg = 0 then filter channel_open ds
         else take (nat (consumer_limit cfg) - Suc r) (filter channel_open ds))"
      using Cons.IH [OF c1(2) h(1)] Cons.prems(3,4) by simp
    show ?thesis
    proof (cases "consumer_limit cfg = 0 \<or> int (Suc r) \<le> consumer_limit cfg")
      case within: True
      then have "consumer_limit cfg = 0 \<or> nat (consumer_limit cfg) - r = Suc (nat (consumer_limit cfg) - Suc r)"
        by linarith
      then show ?thesis using ih h(2) True within by auto
    next
      case False
      then have "nat (consumer_limit cfg) - r = 0" "nat (consumer_limit cfg) - Suc r = 0" by linarith+
      then show ?thesis using ih h(2) False by simp
    qed
  qed
qed simp

section \<open>Latencies\<close>

text \<open>The delivery holds the body of a message made at the time \<open>t\<close>, and comes later.\<close>

definition made_at :: "timestamp_provider \<Rightarrow> delivery \<Rightarrow> int \<Rightarrow> bool" where
  "made_at tp d t \<longleftrightarrow>
     (\<exists>ns ms sz n src src'. create tp ns ms sz n src = ((body d, t), src') \<and> 0 \<le> sz \<and>
        sz \<in> (\<lambda>a. int (length a)) ` set src \<and> - (2 ^ 31) \<le> n \<and> n < 2 ^ 31) \<and>
     long_min \<le> t \<and> t < long_max \<and> t \<le> getCurrentTime tp (nanos d) (millis d) \<and>
     getCurrentTime tp (nanos d) (millis d) - t < 2 ^ 63"

lemma latency_in_made:
  assumes "made_at (timestamps cfg) d t" "\<not> isTimestampInHeader (timestamps cfg)"
  shows "latency_in cfg d = getCurrentTime (timestamps cfg) (nanos d) (millis d) - t"
proof -
  let ?tp = "timestamps cfg" and ?q = "getCurrentTime (timestamps cfg) (nanos d) (millis d)"
  obtain ns ms sz n src src' where c: "create ?tp ns ms sz n src = ((body d, t), src')" "0 \<le> sz"
    "sz \<in> (\<lambda>a. int (length a)) ` set src" "- (2 ^ 31) \<le> n" "n < 2 ^ 31"
    and t: "long_min \<le> t" "t < long_max" "t \<le> ?q" "?q - t < 2 ^ 63"
    using assms(1) by (auto simp: made_at_def)
  have "copy_into (doCreate t n) sz src = (body d, src')"
    using c(1) by (auto simp: create_def Let_def split: prod.splits)
  from copy_into_body [OF this c(2,3)]
  have "extract_timestamp ?tp (header d) (body d) = Inr t"
    using c(4,5) t by (intro extract_created [OF assms(2)]) simp_all
  then show ?thesis using difference_of_clock [OF t(2-4)]
    by (simp add: latency_in_def delivery_latency_def message_latency_def)
qed

lemma lats_recv: "lats hs = lats (filter is_recv hs)"
proof (induction hs)
  case (Cons h hs)
  then show ?case by (cases h) (simp_all add: lats_def map_filter_def is_recv_def)
qed simp

lemma lats_map_Recv: "\<forall>l \<in> set ls. 0 \<le> l \<Longrightarrow> lats (map Recv ls) = ls"
  by (induction ls) (simp_all add: lats_def map_filter_def)

text \<open>The messages of the windows that are not measured, and those that are.\<close>

definition skipped :: "run \<Rightarrow> nat" where
  "skipped r =
     (if warm_up \<le> length (r_closed r)
      then length (lats (concat (map w_calls (take warm_up (r_closed r))))) else 0)"

lemma lats_measured:
  assumes "concat (map w_calls (r_closed r)) @ r_pending r = hs"
  shows "lats (measured_calls r) = drop (skipped r) (lats hs)"
proof (cases "warm_up \<le> length (r_closed r)")
  case True
  let ?w = "concat (map w_calls (take warm_up (r_closed r)))"
  have "hs = ?w @ concat (map w_calls (drop warm_up (r_closed r))) @ r_pending r"
    unfolding assms [symmetric] by (metis append_assoc append_take_drop_id concat_append map_append)
  then have "lats hs = lats ?w @ lats (measured_calls r)"
    using True by (simp add: measured_calls_def measured_windows_def)
  then show ?thesis using True by (simp add: skipped_def)
next
  case False
  then show ?thesis using assms by (auto simp: skipped_def measured_calls_def measured_windows_def)
qed

text \<open>
  C6: the latency in the result file. A consumer receives messages whose bodies a producer made at the
  times \<open>ts\<close>; the statistics get its reports, in order, among any other calls. Then the
  overall mean latency in the results is the mean, over the messages reported after the windows of
  the warm-up, of the time between making and receiving a message, divided by 1000 and
  rounded down (microseconds for the clock of nanoseconds; for that of milliseconds it is
  divided by 1000 all the same), and it is absent when there is no such message.
\<close>
theorem average_latency_written:
  assumes "\<not> isTimestampInHeader (timestamps cfg)" "0 \<le> consumer_limit cfg" "length ds < 2 ^ 63"
    and "deliver_all cfg ds (new_consumer now) = Inr c"
    and "filter channel_open ds = fs" "list_all2 (made_at (timestamps cfg)) fs ts"
    and "filter is_recv (map fst es) = reports_made c"
    and "new_stats ms t0 = Inr s0" "well_timed t0 es" "small_load es" "Reset_Globals \<notin> fst ` set es"
    and "handle_calls es (setup_stats sz s0) = Inr s"
    and "reported = (if consumer_limit cfg = 0 then length fs else nat (consumer_limit cfg))"
    and "ls = drop (skipped (run_of (ms * 1000000) t0 es))
                (take reported (map2 (\<lambda>d t. getCurrentTime (timestamps cfg) (nanos d) (millis d) - t) fs ts))"
  shows "case simple_results s of Inl _ \<Rightarrow> False
         | Inr m \<Rightarrow> map_of m ''avg-latency'' =
             (if ls = [] then None else Some (JLong (sum_list ls div (1000 * int (length ls)))))"
proof -
  let ?r = "run_of (ms * 1000000) t0 es"
  let ?all = "take reported (map2 (\<lambda>d t. getCurrentTime (timestamps cfg) (nanos d) (millis d) - t) fs ts)"
  have lat: "map (latency_in cfg) fs = map2 (\<lambda>d t. getCurrentTime (timestamps cfg) (nanos d) (millis d) - t) fs ts"
    using assms(6) latency_in_made [OF _ assms(1)] by (induction rule: list_all2_induct) auto
  have "reports_made c = map (\<lambda>d. Recv (latency_in cfg d)) (take reported fs)"
    using reports_of_deliveries [OF assms(4), of 0] assms(2,3,5,13) by (auto simp: new_consumer_def)
  also have "\<dots> = map Recv ?all" unfolding lat [symmetric] by (simp add: take_map)
  finally have recv: "reports_made c = map Recv ?all" .
  have "\<forall>l \<in> set ?all. 0 \<le> l"
  proof
    fix l assume "l \<in> set ?all"
    then have "l \<in> set (map2 (\<lambda>d t. getCurrentTime (timestamps cfg) (nanos d) (millis d) - t) fs ts)"
      using in_set_takeD by metis
    then show "0 \<le> l" using assms(6) by (auto simp: list_all2_iff made_at_def)
  qed
  then have "lats (map fst es) = ?all"
    using lats_recv [of "map fst es"] assms(7) recv by (simp add: lats_map_Recv)
  then have "lats (measured_calls ?r) = ls"
    using lats_measured [OF run_of_calls [of "ms * 1000000" t0 es]] assms(14) by simp
  then show ?thesis
    using results_run [OF assms(8-12)]
    by (simp add: run_results_def mean_latency_def Let_def)
qed

text \<open>One message made at 1000 and received at 8000 nanoseconds.\<close>

theorem average_latency_written_witness:
  "\<exists>c s m. deliver_all \<lparr> timestamps = \<lparr> useMillis = False, isTimestampInHeader = False \<rparr>, autoAck = False,
       multiAckEvery = 0, nackMessages = False, requeue = True, consumer_limit = 0, txSize = 0,
       rateLimitation = False, recoveryEnabled = False \<rparr>
     [\<lparr> tag = 1, header = No_Headers, body = doCreate 1000 5, nanos = 8000, millis = 0, clock = 0, channel_open = True,
        latency_passed = True, ack_outcome = Write_Ok, commit_outcome = Write_Ok \<rparr>] (new_consumer 0) = Inr c \<and>
     handle_calls [(Send, 10), (Recv 7000, 20), (Send, 30)] (setup_stats 12 demo_stats) = Inr s \<and>
     reports_made c = [Recv 7000] \<and>
     simple_results s = Inr m \<and> map_of m ''avg-latency'' = Some (JLong 7)"
proof -
  let ?tp = "\<lparr> useMillis = False, isTimestampInHeader = False \<rparr>"
  let ?cfg = "\<lparr> timestamps = ?tp, autoAck = False,
       multiAckEvery = 0, nackMessages = False, requeue = True, consumer_limit = 0, txSize = 0,
       rateLimitation = False, recoveryEnabled = False \<rparr>"
  let ?d = "\<lparr> tag = 1, header = No_Headers, body = doCreate 1000 5, nanos = 8000, millis = 0, clock = 0, channel_open = True,
        latency_passed = True, ack_outcome = Write_Ok, commit_outcome = Write_Ok \<rparr>"
  let ?es = "[(Send, 10), (Recv 7000, 20), (Send, 30)]"
  have made: "made_at ?tp ?d 1000"
    unfolding made_at_def
    by (intro conjI exI [of _ 1000] exI [of _ 0] exI [of _ 12] exI [of _ 5] exI [of _ "[replicate 12 0]"]
        exI [of _ "[doCreate 1000 5]"])
      (simp_all add: create_def getCurrentTime_def long_max_def long_min_def Let_def)
  have "isl (deliver_all ?cfg [?d] (new_consumer 0)) = False"
    "(case deliver_all ?cfg [?d] (new_consumer 0) of Inl _ \<Rightarrow> [] | Inr c \<Rightarrow> reports_made c) = [Recv 7000]"
    by code_simp+
  then obtain c where c: "deliver_all ?cfg [?d] (new_consumer 0) = Inr c" "reports_made c = [Recv 7000]"
    by (cases "deliver_all ?cfg [?d] (new_consumer 0)") auto
  have es: "well_timed 0 ?es" "small_load ?es" "Reset_Globals \<notin> fst ` set ?es"
    by (auto simp: well_timed_def small_load_def lats_def map_filter_def)
  obtain s where s: "handle_calls ?es (setup_stats 12 demo_stats) = Inr s"
    using handle_calls_tracks [OF new_stats_tracks [OF demo_new] es(1,2), of 12] by auto
  have run: "skipped (run_of 1000000000 0 ?es) = 0"
    by (simp add: run_of_def step_run_def reports_def skipped_def warm_up_def IGNORE_FIRST_def)
  have "case simple_results s of Inl _ \<Rightarrow> False
         | Inr m \<Rightarrow> map_of m ''avg-latency'' =
             (if [7000 :: int] = [] then None
              else Some (JLong (sum_list [7000] div (1000 * int (length [7000 :: int])))))"
    by (rule average_latency_written [where cfg = ?cfg and ds = "[?d]" and fs = "[?d]" and ts = "[1000]" and es = ?es
          and reported = 1 and ms = 1000, OF _ _ _ c(1) _ _ _ demo_new es s _ _])
      (simp_all add: made c(2) run is_recv_def getCurrentTime_def)
  then show ?thesis using c s by (auto split: sum.splits)
qed

end
