(* ===== verification/Perf_Main.thy ===== *)
theory Perf_Main
  imports Perf_Results
begin

text \<open>
  The program \<open>PerfTestMulti\<close> from its arguments to its exit code, its output file and its
  console: which mistakes end it with a message, which with an exception, when the file is
  opened, and that an error of writing it goes unnoticed. The file system and Gson are arguments;
  \<open>exit\<close> ends the program, as it does with the exiter of the command line.
\<close>

text \<open>
  \<open>read_file\<close>: the text of a file, nothing when it is not found, or another exception.
  \<open>from_gson\<close>: the specification, nothing when Gson returns null. \<open>open_file\<close>: whether the output
  file can be opened; \<open>to_gson\<close>: the printed text of an object. \<open>cut_short\<close>: for a file and a text, what
  the file holds when an \<open>IOException\<close> is raised on the way of the text into it, at the printing or at
  the closing of the printer, and nothing when all of the text gets there. \<open>close_fails\<close>: whether the
  \<open>FileWriter\<close> throws when it is closed itself, after the printer has closed it (depending on the
  JDK it may then try again to write what is left).
\<close>

record environment =
  read_file :: "string \<Rightarrow> string option jres"
  from_gson :: "string \<Rightarrow> jobj list option jres"
  open_file :: "string \<Rightarrow> bool"
  to_gson :: "jmap \<Rightarrow> string jres"
  cut_short :: "string \<Rightarrow> string \<Rightarrow> string option"
  close_fails :: "string \<Rightarrow> string \<Rightarrow> bool"

text \<open>The output file at the end: as it was, emptied, with the printed text, or with a part of it.\<close>

datatype output_file = Untouched | Emptied | Holds string | Holds_Part string

datatype ending = Exit int | Uncaught jerr

record program_run =
  console :: "string list"
  out_file :: output_file
  ended :: ending

text \<open>The lines printed by the scenarios that were started, the last one included.\<close>

fun running_lines :: "('p, 'f) world \<Rightarrow> 'f \<Rightarrow> 'p scenario list \<Rightarrow> nat \<Rightarrow> string list" where
  "running_lines w f [] n = []"
| "running_lines w f (sc # scs) n =
     (''Running scenario '' @ [CHR 0x27] @ scenario_name sc @ [CHR 0x27] @ '' '') #
     (case run_scenario w f sc n of Inl _ \<Rightarrow> [] | Inr (m, n') \<Rightarrow> running_lines w f scs n')"

text \<open>
  The file is opened, and so emptied, before the object is printed to it. The \<open>PrintWriter\<close> catches
  every \<open>IOException\<close> of \<open>println\<close> and of its own \<open>close\<close>; \<open>checkError\<close> is not called.
\<close>

definition println_closed :: "environment \<Rightarrow> string \<Rightarrow> string \<Rightarrow> output_file" where
  "println_closed env outJSON s =
     (case cut_short env outJSON s of None \<Rightarrow> Holds s | Some t \<Rightarrow> Holds_Part t)"

definition writeJSON :: "environment \<Rightarrow> string \<Rightarrow> jmap \<Rightarrow> output_file \<times> ending" where
  "writeJSON env outJSON m =
     (if \<not> open_file env outJSON then (Untouched, Exit 1)
      else (case to_gson env m of
              Inl _ \<Rightarrow> (Emptied, Exit 1)
            | Inr s \<Rightarrow> (println_closed env outJSON s, if close_fails env outJSON s then Exit 1 else Exit 0)))"

definition perf_test_main :: "environment \<Rightarrow> ('p, 'f) world \<Rightarrow> 'f \<Rightarrow> string list \<Rightarrow> program_run" where
  "perf_test_main env w f args =
     (if length args \<noteq> 2
      then \<lparr> console = [''Usage: PerfTestMulti input-json-file output-json-file''],
             out_file = Untouched, ended = Exit 1 \<rparr>
      else (case read_file env (args ! 0) of
        Inl e \<Rightarrow> \<lparr> console = [], out_file = Untouched, ended = Uncaught e \<rparr>
      | Inr None \<Rightarrow> \<lparr> console = [''Input json file '' @ args ! 0 @ '' could not be found''],
                      out_file = Untouched, ended = Exit 1 \<rparr>
      | Inr (Some json) \<Rightarrow> (case from_gson env json of
          Inl e \<Rightarrow> \<lparr> console = [], out_file = Untouched, ended = Uncaught e \<rparr>
        | Inr None \<Rightarrow> \<lparr> console = [''Input json file could not be parsed''],
                        out_file = Untouched, ended = Exit 1 \<rparr>
        | Inr (Some spec) \<Rightarrow> (case make_scenarios w spec f of
            Inl e \<Rightarrow> \<lparr> console = [], out_file = Untouched, ended = Uncaught e \<rparr>
          | Inr (scs, f') \<Rightarrow>
              let lines = running_lines w f' scs 0 in
              (case run_tests w f' scs 0 [] of
                 Inl e \<Rightarrow> \<lparr> console = lines, out_file = Untouched, ended = Exit 1 \<rparr>
               | Inr m \<Rightarrow> let (file, code) = writeJSON env (args ! 1) m in
                   \<lparr> console = lines, out_file = file, ended = code \<rparr>)))))"

lemma main_holds:
  assumes "out_file (perf_test_main env w f args) \<noteq> Untouched"
  obtains json spec m where "read_file env (args ! 0) = Inr (Some json)"
    "from_gson env json = Inr (Some spec)" "perf_test_multi w spec f = Inr m"
    "open_file env (args ! 1)"
    "(out_file (perf_test_main env w f args), ended (perf_test_main env w f args)) = writeJSON env (args ! 1) m"
proof -
  have len: "length args = 2" using assms by (auto simp: perf_test_main_def split: if_splits)
  obtain json where json: "read_file env (args ! 0) = Inr (Some json)"
    using assms len by (auto simp: perf_test_main_def split: sum.splits option.splits)
  obtain spec where spec: "from_gson env json = Inr (Some spec)"
    using assms len json by (auto simp: perf_test_main_def split: sum.splits option.splits)
  obtain scs f' where scs: "make_scenarios w spec f = Inr (scs, f')"
    using assms len json spec by (cases "make_scenarios w spec f") (auto simp: perf_test_main_def)
  obtain m where m: "run_tests w f' scs 0 [] = Inr m"
    using assms len json spec scs by (cases "run_tests w f' scs 0 []") (auto simp: perf_test_main_def)
  have "(out_file (perf_test_main env w f args), ended (perf_test_main env w f args)) = writeJSON env (args ! 1) m"
    using len json spec scs m by (simp add: perf_test_main_def split: prod.splits)
  moreover from this assms have "open_file env (args ! 1)" by (auto simp: writeJSON_def split: if_splits)
  moreover have "perf_test_multi w spec f = Inr m" by (simp add: perf_test_multi_def scs m)
  ultimately show ?thesis using that json spec by blast
qed

text \<open>What a run that opens the output file does to it, and how it ends.\<close>

definition printed :: "environment \<Rightarrow> ('p, 'f) world \<Rightarrow> 'f \<Rightarrow> string list \<Rightarrow> string \<Rightarrow> bool" where
  "printed env w f args s \<longleftrightarrow> length args = 2 \<and> open_file env (args ! 1) \<and>
     (\<exists>json spec m. read_file env (args ! 0) = Inr (Some json) \<and> from_gson env json = Inr (Some spec) \<and>
        perf_test_multi w spec f = Inr m \<and> to_gson env m = Inr s)"

lemma main_printed:
  assumes "printed env w f args s"
  shows "out_file (perf_test_main env w f args) = println_closed env (args ! 1) s"
    and "ended (perf_test_main env w f args) = (if close_fails env (args ! 1) s then Exit 1 else Exit 0)"
proof -
  obtain json spec m where r: "length args = 2" "open_file env (args ! 1)" "read_file env (args ! 0) = Inr (Some json)"
    "from_gson env json = Inr (Some spec)" "perf_test_multi w spec f = Inr m" "to_gson env m = Inr s"
    using assms by (auto simp: printed_def)
  obtain scs f' where "make_scenarios w spec f = Inr (scs, f')" "run_tests w f' scs 0 [] = Inr m"
    using r(5) by (auto simp: perf_test_multi_def bindE_Inr_iff)
  then have "perf_test_main env w f args = \<lparr> console = running_lines w f' scs 0,
      out_file = println_closed env (args ! 1) s,
      ended = (if close_fails env (args ! 1) s then Exit 1 else Exit 0) \<rparr>"
    using r by (simp add: perf_test_main_def writeJSON_def)
  then show "out_file (perf_test_main env w f args) = println_closed env (args ! 1) s"
    and "ended (perf_test_main env w f args) = (if close_fails env (args ! 1) s then Exit 1 else Exit 0)" by simp_all
qed

lemma main_not_printed:
  assumes gson: "\<forall>m \<in> Collect (\<lambda>m. writable (JMap m)). \<not> isl (to_gson env m)"
    and sizes: "\<forall>p. \<bar>get_min_msg_size w p\<bar> \<le> 2 ^ 31"
    and none: "\<nexists>s. printed env w f args s"
  shows "out_file (perf_test_main env w f args) = Untouched"
    and "ended (perf_test_main env w f args) = Exit 1 \<or> (\<exists>e. ended (perf_test_main env w f args) = Uncaught e)"
proof -
  show u: "out_file (perf_test_main env w f args) = Untouched"
  proof (rule ccontr)
    assume c: "out_file (perf_test_main env w f args) \<noteq> Untouched"
    then obtain json spec m where r: "read_file env (args ! 0) = Inr (Some json)"
      "from_gson env json = Inr (Some spec)" "perf_test_multi w spec f = Inr m" "open_file env (args ! 1)"
      by (rule main_holds)
    obtain scs f' where "run_tests w f' scs 0 [] = Inr m"
      using r(3) by (auto simp: perf_test_multi_def bindE_Inr_iff)
    then have "writable (JMap m)" using run_tests_writable [OF sizes] writable_empty by blast
    then obtain s where "to_gson env m = Inr s" using gson by (cases "to_gson env m") auto
    moreover have "length args = 2" using c by (auto simp: perf_test_main_def split: if_splits)
    ultimately show False using none r by (auto simp: printed_def)
  qed
  then show "ended (perf_test_main env w f args) = Exit 1 \<or> (\<exists>e. ended (perf_test_main env w f args) = Uncaught e)"
    by (auto simp: perf_test_main_def writeJSON_def println_closed_def Let_def
        split: if_splits sum.splits option.splits prod.splits)
qed

lemma writeJSON_ending: "snd (writeJSON (env\<lparr>cut_short := taken\<rparr>) out m) = snd (writeJSON env out m)"
  by (cases "to_gson env m") (simp_all add: writeJSON_def)

lemma ended_same_env: "ended (perf_test_main (env\<lparr>cut_short := taken\<rparr>) w f args) = ended (perf_test_main env w f args)"
  by (simp add: perf_test_main_def Let_def split_beta writeJSON_ending if_distrib [of ended] sum.case_distrib [of ended]
      option.case_distrib [of ended] cong: sum.case_cong option.case_cong)

text \<open>
  C35: the code 0 says that every scenario of the specification ran and that its results were handed
  to the printer of an output file that could be opened (and whose last closing did not throw), and
  nothing about what the file holds: a run ends in the same way whatever becomes of the text on its
  way into the file, so that with a full disk the code is 0 and the file has a part of
  the results. When nothing goes wrong there, it has the printed results of every scenario. In
  every case where nothing was printed (wrong arguments, a missing or malformed input file, a
  scenario that cannot be made or that throws while it runs, an output file that cannot be
  opened) the code is 1 or an exception leaves \<open>main\<close>, and the file is as it was before: it
  is never left emptied, because Gson, which refuses only what is not a JSON value, always
  prints what a run computes. (Message sizes are within the range of an \<open>int\<close>.)
\<close>
theorem exit_zero_iff_printed:
  assumes "\<forall>m \<in> Collect (\<lambda>m. writable (JMap m)). \<not> isl (to_gson env m)"
    and "\<forall>p. \<bar>get_min_msg_size w p\<bar> \<le> 2 ^ 31"
  shows "(ended (perf_test_main env w f args) = Exit 0 \<longleftrightarrow>
            (\<exists>s. printed env w f args s \<and> \<not> close_fails env (args ! 1) s)) \<and>
         ended (perf_test_main (env\<lparr>cut_short := taken\<rparr>) w f args) = ended (perf_test_main env w f args) \<and>
         (\<forall>s. printed env w f args s \<longrightarrow> out_file (perf_test_main env w f args) =
            (case cut_short env (args ! 1) s of None \<Rightarrow> Holds s | Some t \<Rightarrow> Holds_Part t)) \<and>
         ((\<nexists>s. printed env w f args s) \<longrightarrow> out_file (perf_test_main env w f args) = Untouched \<and>
            (ended (perf_test_main env w f args) = Exit 1 \<or>
             (\<exists>e. ended (perf_test_main env w f args) = Uncaught e)))"
proof -
  note none = main_not_printed [OF assms]
  have unique: "printed env w f args s \<Longrightarrow> printed env w f args s' \<Longrightarrow> s = s'" for s s'
    by (auto simp: printed_def)
  have zero: "ended (perf_test_main env w f args) = Exit 0 \<longleftrightarrow>
      (\<exists>s. printed env w f args s \<and> \<not> close_fails env (args ! 1) s)"
  proof (cases "\<exists>s. printed env w f args s")
    case True
    then obtain s where s: "printed env w f args s" by blast
    have "(\<exists>s'. printed env w f args s' \<and> \<not> close_fails env (args ! 1) s') \<longleftrightarrow> \<not> close_fails env (args ! 1) s"
      using s unique [OF s] by blast
    then show ?thesis by (simp add: main_printed(2) [OF s])
  next
    case False
    from none(2) [OF this] have "ended (perf_test_main env w f args) \<noteq> Exit 0" by (elim disjE exE) simp_all
    with False show ?thesis by blast
  qed
  have held: "\<forall>s. printed env w f args s \<longrightarrow> out_file (perf_test_main env w f args) =
      (case cut_short env (args ! 1) s of None \<Rightarrow> Holds s | Some t \<Rightarrow> Holds_Part t)"
    by (intro allI impI) (rule main_printed(1) [unfolded println_closed_def])
  have rest: "(\<nexists>s. printed env w f args s) \<longrightarrow> out_file (perf_test_main env w f args) = Untouched \<and>
      (ended (perf_test_main env w f args) = Exit 1 \<or> (\<exists>e. ended (perf_test_main env w f args) = Uncaught e))"
    using none by blast
  show ?thesis by (intro conjI zero ended_same_env held rest)
qed

text \<open>An environment with two specifications; the file \<open>full\<close> is on a disk that takes nothing more.\<close>

definition demo_env :: environment where
  "demo_env = \<lparr> read_file = (\<lambda>p. if p = ''in'' then Inr (Some ''[]'') else Inr None),
     from_gson = (\<lambda>s. if s = ''[]'' then Inr (Some []) else Inr None),
     open_file = (\<lambda>p. True),
     to_gson = (\<lambda>m. if m = [] then Inr ''{}'' else Inr ''{...}''),
     cut_short = (\<lambda>p s. if p = ''full'' then Some [] else None),
     close_fails = (\<lambda>p s. False) \<rparr>"

theorem exit_zero_iff_printed_witness:
  "out_file (perf_test_main demo_env demo_world () [''in'', ''out'']) = Holds ''{}'' \<and>
   ended (perf_test_main demo_env demo_world () [''in'', ''out'']) = Exit 0 \<and>
   out_file (perf_test_main demo_env demo_world () [''in'', ''full'']) = Holds_Part [] \<and>
   ended (perf_test_main demo_env demo_world () [''in'', ''full'']) = Exit 0 \<and>
   out_file (perf_test_main demo_env demo_world () [''absent'', ''out'']) = Untouched"
proof -
  have t: "\<forall>m \<in> Collect (\<lambda>m. writable (JMap m)). \<not> isl (to_gson demo_env m)" by (simp add: demo_env_def)
  have p: "printed demo_env demo_world () [''in'', x] ''{}''" for x
    by (simp add: printed_def demo_env_def perf_test_multi_def)
  have a: "\<nexists>s. printed demo_env demo_world () [''absent'', ''out''] s" by (simp add: printed_def demo_env_def)
  have d: "close_fails demo_env p s = False" "cut_short demo_env ''out'' s = None" "cut_short demo_env ''full'' s = Some []" for p s
    by (simp_all add: demo_env_def)
  note r = exit_zero_iff_printed [OF t demo_sizes]
  have "ended (perf_test_main demo_env demo_world () [''in'', x]) = Exit 0" for x
    using r [of "()" "[''in'', x]" undefined] p [of x] d(1) by blast
  moreover have "out_file (perf_test_main demo_env demo_world () [''in'', ''out'']) = Holds ''{}''"
    "out_file (perf_test_main demo_env demo_world () [''in'', ''full'']) = Holds_Part []"
    using r [of "()" "[''in'', ''out'']" undefined] r [of "()" "[''in'', ''full'']" undefined] p d(2,3) by force+
  moreover have "out_file (perf_test_main demo_env demo_world () [''absent'', ''out'']) = Untouched"
    using r [of "()" "[''absent'', ''out'']" undefined] a by blast
  ultimately show ?thesis by simp
qed

end
