(* ===== verification/Perf_Completion.thy ===== *)
theory Perf_Completion
  imports Perf_Producer Perf_Consumer
begin

text \<open>
  The end of a run: the completion handlers of \<open>MulticastSet.java\<close> and the choice between them
  (\<open>getCompletionHandler\<close> of \<open>PerfTest.java\<close>). The thread of the run waits at a latch, and the threads of
  the producers and consumers count it down, each once and with a reason. Neither is one step:
  a call reads the flag, adds its reason to the map, and then counts down; the steps of
  the calls and of the thread that waits come in any order.
\<close>

section \<open>The limits of a run\<close>

record load_params =
  timeLimit :: int
  producerMsgCount :: int
  consumerMsgCount :: int
  exitWhen :: exit_when
  producerCount :: int
  producerChannelCount :: int
  consumerCount :: int
  consumerChannelCount :: int

definition getProducerThreadCount :: "'z load_params_scheme \<Rightarrow> int" where
  "getProducerThreadCount p = wrap32 (producerCount p * producerChannelCount p)"

definition getConsumerThreadCount :: "'z load_params_scheme \<Rightarrow> int" where
  "getConsumerThreadCount p = wrap32 (consumerCount p * consumerChannelCount p)"

definition hasLimit :: "load_params \<Rightarrow> bool" where
  "hasLimit p \<longleftrightarrow> 0 < timeLimit p \<or> 0 < consumerMsgCount p \<or> 0 < producerMsgCount p \<or>
     exitWhen p = Exit_Empty \<or> exitWhen p = Exit_Idle"

definition count_limit :: "load_params \<Rightarrow> int" where
  "count_limit p =
     (let c1 = (if 0 < producerMsgCount p then wrap32 (0 + getProducerThreadCount p) else 0) in
      if 0 < consumerMsgCount p \<or> exitWhen p = Exit_Empty \<or> exitWhen p = Exit_Idle
      then wrap32 (c1 + getConsumerThreadCount p) else c1)"

section \<open>The state\<close>

datatype completion_handler = Default_Handler int | No_Limit_Handler

text \<open>
  Where the thread of the run stands: at the latch; past it, with what \<open>await\<close> returned (whether
  the count reached zero, or the time limit passed before); the flag set; returned.
\<close>

datatype waiter_at = Awaiting | Woken bool | Marked bool | Returned bool

text \<open>
  A call of \<open>countDown\<close>: to be made, past the test of the flag, with its reason in the map, counted
  down; or ignored, since the flag was set.
\<close>

datatype caller_at =
    Calling string
  | Recording string
  | Counting string
  | Counted string
  | Ignored string

record completion =
  completion_kind :: completion_handler
  latch :: int
  reasons :: "(string \<times> int) list"
  completed_flag :: bool
  waiter :: waiter_at
  callers :: "caller_at list"

definition STOP_REASON_REACHED_TIME_LIMIT :: string where
  "STOP_REASON_REACHED_TIME_LIMIT = ''Reached time limit''"

definition recordReason :: "string \<Rightarrow> (string \<times> int) list \<Rightarrow> (string \<times> int) list" where
  "recordReason reason rs =
     put reason (case map_of rs reason of None \<Rightarrow> 1 | Some count \<Rightarrow> wrap32 (count + 1)) rs"

definition new_default_handler :: "int \<Rightarrow> int \<Rightarrow> string list \<Rightarrow> completion" where
  "new_default_handler limit countLimit calls =
     \<lparr> completion_kind = Default_Handler limit, latch = (if countLimit \<le> 0 then 1 else countLimit),
       reasons = [], completed_flag = False, waiter = Awaiting, callers = map Calling calls \<rparr>"

definition new_no_limit_handler :: "string list \<Rightarrow> completion" where
  "new_no_limit_handler calls =
     \<lparr> completion_kind = No_Limit_Handler, latch = 1, reasons = [], completed_flag = False,
       waiter = Awaiting, callers = map Calling calls \<rparr>"

definition getCompletionHandler :: "load_params \<Rightarrow> string list \<Rightarrow> completion" where
  "getCompletionHandler p calls =
     (if hasLimit p then new_default_handler (timeLimit p) (count_limit p) calls
      else new_no_limit_handler calls)"

section \<open>Steps\<close>

text \<open>\<open>CountDownLatch.countDown\<close> does nothing at zero.\<close>

definition latch_down :: "int \<Rightarrow> int" where
  "latch_down n = (if 0 < n then n - 1 else n)"

text \<open>One step of a call of \<open>countDown\<close>. The handler without a limit does not read the flag.\<close>

definition caller_step :: "nat \<Rightarrow> completion \<Rightarrow> completion option" where
  "caller_step i s =
     (if i < length (callers s) then
        (case callers s ! i of
           Calling r \<Rightarrow>
             (case completion_kind s of
                Default_Handler _ \<Rightarrow>
                  Some (s\<lparr> callers := (callers s)[i := if completed_flag s then Ignored r else Recording r] \<rparr>)
              | No_Limit_Handler \<Rightarrow>
                  Some (s\<lparr> reasons := recordReason r (reasons s), callers := (callers s)[i := Counting r] \<rparr>))
         | Recording r \<Rightarrow>
             Some (s\<lparr> reasons := recordReason r (reasons s), callers := (callers s)[i := Counting r] \<rparr>)
         | Counting r \<Rightarrow> Some (s\<lparr> latch := latch_down (latch s), callers := (callers s)[i := Counted r] \<rparr>)
         | _ \<Rightarrow> None)
      else None)"

text \<open>
  One step of \<open>waitForCompletion\<close>. The time limit can pass at any moment, while the count is not
  zero; without a positive time limit it never does.
\<close>

datatype completion_move = Caller nat | Wake | Time_Up | Waiter

definition waiter_step :: "completion_move \<Rightarrow> completion \<Rightarrow> completion option" where
  "waiter_step m s =
     (case (m, waiter s) of
        (Wake, Awaiting) \<Rightarrow> if latch s = 0 then Some (s\<lparr> waiter := Woken True \<rparr>) else None
      | (Time_Up, Awaiting) \<Rightarrow>
          (case completion_kind s of
             Default_Handler limit \<Rightarrow>
               if 0 < limit \<and> latch s \<noteq> 0 then Some (s\<lparr> waiter := Woken False \<rparr>) else None
           | No_Limit_Handler \<Rightarrow> None)
      | (Waiter, Woken b) \<Rightarrow>
          (case completion_kind s of
             Default_Handler _ \<Rightarrow> Some (s\<lparr> completed_flag := True, waiter := Marked b \<rparr>)
           | No_Limit_Handler \<Rightarrow> Some (s\<lparr> waiter := Returned b \<rparr>))
      | (Waiter, Marked b) \<Rightarrow>
          Some (s\<lparr> reasons := if b then reasons s
                              else recordReason STOP_REASON_REACHED_TIME_LIMIT (reasons s),
                   waiter := Returned b \<rparr>)
      | _ \<Rightarrow> None)"

definition completion_step :: "completion_move \<Rightarrow> completion \<Rightarrow> completion option" where
  "completion_step m s = (case m of Caller i \<Rightarrow> caller_step i s | _ \<Rightarrow> waiter_step m s)"

fun completion_run :: "completion_move list \<Rightarrow> completion \<Rightarrow> completion option" where
  "completion_run [] s = Some s"
| "completion_run (m # ms) s =
     (case completion_step m s of None \<Rightarrow> None | Some s1 \<Rightarrow> completion_run ms s1)"

text \<open>Nothing can move any more.\<close>

definition run_at_rest :: "completion \<Rightarrow> bool" where
  "run_at_rest s \<longleftrightarrow>
     (\<forall>m \<in> set ([Wake, Time_Up, Waiter] @ map Caller [0..<length (callers s)]). completion_step m s = None)"

section \<open>What the agents hand over\<close>

text \<open>The call a producer makes at the end of \<open>run\<close>, and the one a consumer has made.\<close>

definition producer_call :: "int \<Rightarrow> loop_state \<times> bool \<Rightarrow> string option" where
  "producer_call msgLimit out =
     (if snd out then map_option fst (finish_run msgLimit (fst out)) else None)"

definition agent_calls :: "int \<Rightarrow> (loop_state \<times> bool) list \<Rightarrow> consumer list \<Rightarrow> string list" where
  "agent_calls msgLimit outs cs =
     List.map_filter (producer_call msgLimit) outs @ List.map_filter completed cs"

end
