(* ===== verification/Perf_Completion_Spec.thy ===== *)
theory Perf_Completion_Spec
  imports Perf_Completion Perf_Producer_Spec
begin

text \<open>
  When a run ends, and with which reasons: the invariant of the completion handlers under every order
  of the steps, the bound on the number of steps, and the runs of producers under a limit.
\<close>

section \<open>Counting in a list\<close>

definition tally :: "('a \<Rightarrow> bool) \<Rightarrow> 'a list \<Rightarrow> nat" where
  "tally P xs = length (filter P xs)"

lemma tally_simps [simp]:
  "tally P [] = 0"
  "tally P (x # xs) = (if P x then Suc (tally P xs) else tally P xs)"
  by (simp_all add: tally_def)

lemma tally_update:
  "i < length xs \<Longrightarrow> tally P (xs[i := y]) + (if P (xs ! i) then 1 else 0) = tally P xs + (if P y then 1 else 0)"
proof (induction xs arbitrary: i)
  case (Cons x xs)
  then show ?case by (cases i) auto
qed simp

lemma tally_le: "tally P xs \<le> length xs"
  by (simp add: tally_def)

lemma tally_all: "(\<forall>x \<in> set xs. P x) \<Longrightarrow> tally P xs = length xs"
  by (simp add: tally_def)

lemma tally_map: "tally P (map f xs) = tally (P \<circ> f) xs"
  by (induction xs) simp_all

lemma tally_mono: "(\<And>x. x \<in> set xs \<Longrightarrow> P x \<Longrightarrow> Q x) \<Longrightarrow> tally P xs \<le> tally Q xs"
  by (induction xs) auto

lemma tally_cong: "(\<And>x. x \<in> set xs \<Longrightarrow> P x = Q x) \<Longrightarrow> tally P xs = tally Q xs"
  by (induction xs) auto

lemma map_update_id: "i < length xs \<Longrightarrow> f y = f (xs ! i) \<Longrightarrow> map f (xs[i := y]) = map f xs"
  by (simp add: map_update list_update_same_conv)

section \<open>The invariant\<close>

fun reason_of :: "caller_at \<Rightarrow> string" where
  "reason_of (Calling r) = r"
| "reason_of (Recording r) = r"
| "reason_of (Counting r) = r"
| "reason_of (Counted r) = r"
| "reason_of (Ignored r) = r"

fun has_counted :: "caller_at \<Rightarrow> bool" where
  "has_counted (Counted r) = True"
| "has_counted _ = False"

fun has_recorded :: "caller_at \<Rightarrow> bool" where
  "has_recorded (Counting r) = True"
| "has_recorded (Counted r) = True"
| "has_recorded _ = False"

fun was_ignored :: "caller_at \<Rightarrow> bool" where
  "was_ignored (Ignored r) = True"
| "was_ignored _ = False"

definition recorded_with :: "string \<Rightarrow> completion \<Rightarrow> nat" where
  "recorded_with r s = tally (\<lambda>c. has_recorded c \<and> reason_of c = r) (callers s)"

definition late_note :: "string \<Rightarrow> completion \<Rightarrow> nat" where
  "late_note r s =
     (if waiter s = Returned False \<and> r = STOP_REASON_REACHED_TIME_LIMIT then 1 else 0)"

definition reason_count :: "string \<Rightarrow> completion \<Rightarrow> int" where
  "reason_count r s = (case map_of (reasons s) r of None \<Rightarrow> 0 | Some n \<Rightarrow> n)"

definition time_limited :: "completion \<Rightarrow> bool" where
  "time_limited s \<longleftrightarrow> (case completion_kind s of Default_Handler limit \<Rightarrow> 0 < limit | _ \<Rightarrow> False)"

fun woken :: "waiter_at \<Rightarrow> bool option" where
  "woken Awaiting = None"
| "woken (Woken b) = Some b"
| "woken (Marked b) = Some b"
| "woken (Returned b) = Some b"

text \<open>
  For a latch of \<open>N\<close> and the calls \<open>cs\<close>. The reasons say how many calls are past their
  record, the latch how many have counted, and who was ignored came after the flag.
\<close>

record run_shape =
  shape_kind :: completion_handler
  shape_latch :: int
  shape_calls :: "string list"

definition completion_inv :: "run_shape \<Rightarrow> completion \<Rightarrow> bool" where
  "completion_inv sh s \<longleftrightarrow>
     completion_kind s = shape_kind sh \<and> map reason_of (callers s) = shape_calls sh \<and>
     latch s = max 0 (shape_latch sh - int (tally has_counted (callers s))) \<and>
     (\<forall>r. reason_count r s = int (recorded_with r s + late_note r s)) \<and>
     (completed_flag s \<longrightarrow> woken (waiter s) \<noteq> None) \<and>
     ((\<exists>c \<in> set (callers s). was_ignored c) \<longrightarrow> completed_flag s) \<and>
     (woken (waiter s) = Some True \<longrightarrow> latch s = 0) \<and>
     (woken (waiter s) = Some False \<longrightarrow> time_limited s)"

lemma completion_invI:
  assumes "completion_kind s = shape_kind sh" "map reason_of (callers s) = shape_calls sh"
    "latch s = max 0 (shape_latch sh - int (tally has_counted (callers s)))"
    "\<And>r. reason_count r s = int (recorded_with r s + late_note r s)"
    "completed_flag s \<Longrightarrow> woken (waiter s) \<noteq> None"
    "\<And>c. c \<in> set (callers s) \<Longrightarrow> was_ignored c \<Longrightarrow> completed_flag s"
    "woken (waiter s) = Some True \<Longrightarrow> latch s = 0"
    "woken (waiter s) = Some False \<Longrightarrow> time_limited s"
  shows "completion_inv sh s"
  using assms by (auto simp: completion_inv_def)

lemma completion_invD:
  assumes "completion_inv sh s"
  shows "completion_kind s = shape_kind sh" "map reason_of (callers s) = shape_calls sh"
    "latch s = max 0 (shape_latch sh - int (tally has_counted (callers s)))"
    "reason_count r s = int (recorded_with r s + late_note r s)"
    "completed_flag s \<Longrightarrow> woken (waiter s) \<noteq> None"
    "c \<in> set (callers s) \<Longrightarrow> was_ignored c \<Longrightarrow> completed_flag s"
    "woken (waiter s) = Some True \<Longrightarrow> latch s = 0"
    "woken (waiter s) = Some False \<Longrightarrow> time_limited s"
    "length (callers s) = length (shape_calls sh)"
proof -
  from assms have "map reason_of (callers s) = shape_calls sh" by (simp add: completion_inv_def)
  then show "length (callers s) = length (shape_calls sh)" by (metis length_map)
qed (use assms in \<open>simp_all add: completion_inv_def\<close>, blast)

lemma reason_count_record:
  assumes "reasons s' = recordReason r (reasons s)" "0 \<le> reason_count r s" "reason_count r s < int_max"
  shows "reason_count q s' = reason_count q s + (if q = r then 1 else 0)"
proof (cases "map_of (reasons s) r")
  case None
  then show ?thesis using assms by (simp add: reason_count_def recordReason_def)
next
  case (Some n)
  then have "wrap32 (n + 1) = n + 1" using assms by (simp add: reason_count_def wrap32_id)
  then show ?thesis using assms Some by (simp add: reason_count_def recordReason_def)
qed

lemma record_caller:
  assumes inv: "completion_inv sh s" and i: "i < length (callers s)"
    and few: "int (length (shape_calls sh)) + 1 < int_max"
    and c: "\<not> has_recorded (callers s ! i)" "\<not> was_ignored (callers s ! i)" "reason_of (callers s ! i) = r"
    and s': "s' = s\<lparr> reasons := recordReason r (reasons s), callers := (callers s)[i := Counting r] \<rparr>"
  shows "completion_inv sh s'"
proof (rule completion_invI)
  note d = completion_invD [OF inv]
  show "map reason_of (callers s') = shape_calls sh" using d(2) i c(3) by (simp add: s' map_update_id)
  have nc: "\<not> has_counted (callers s ! i)" using c(1) by (cases "callers s ! i") simp_all
  then have t: "tally has_counted (callers s') = tally has_counted (callers s)"
    using tally_update [OF i, of has_counted "Counting r"] by (simp add: s')
  then show "latch s' = max 0 (shape_latch sh - int (tally has_counted (callers s')))"
    using d(3) by (simp add: s')
  fix q
  have le: "recorded_with r s \<le> length (shape_calls sh)"
    using tally_le [of _ "callers s"] by (simp add: recorded_with_def d(9) [symmetric])
  then have "reason_count r s < int_max" "0 \<le> reason_count r s"
    using d(4) [of r] few by (auto simp: late_note_def)
  then have "reason_count q s' = reason_count q s + (if q = r then 1 else 0)"
    by (intro reason_count_record) (simp_all add: s')
  moreover have "recorded_with q s' = recorded_with q s + (if q = r then 1 else 0)"
    using tally_update [OF i, of "\<lambda>c. has_recorded c \<and> reason_of c = q" "Counting r"] c
    by (auto simp: recorded_with_def s')
  ultimately show "reason_count q s' = int (recorded_with q s' + late_note q s')"
    using d(4) [of q] by (simp add: late_note_def s')
next
  fix c assume "c \<in> set (callers s')" "was_ignored c"
  then have "c \<in> set (callers s)" using set_update_subset_insert [of "callers s" i "Counting r"] by (auto simp: s')
  then show "completed_flag s'" using completion_invD(6) [OF inv] \<open>was_ignored c\<close> by (simp add: s')
qed (use completion_invD [OF inv] in \<open>simp_all add: s' time_limited_def\<close>)

lemma caller_step_inv:
  assumes inv: "completion_inv sh s" and few: "int (length (shape_calls sh)) + 1 < int_max"
    and step: "caller_step i s = Some s'"
  shows "completion_inv sh s'"
proof -
  note d = completion_invD [OF inv]
  have i: "i < length (callers s)" using step by (simp add: caller_step_def split: if_splits)
  have sub: "\<And>c y. c \<in> set ((callers s)[i := y]) \<Longrightarrow> c = y \<or> c \<in> set (callers s)"
    using set_update_subset_insert [of "callers s" i] by blast
  note rc = record_caller [OF inv i few, of _ s']
  show ?thesis
  proof (cases "callers s ! i")
    case (Calling r)
    show ?thesis
    proof (cases "completion_kind s")
      case No_Limit_Handler
      then show ?thesis using rc Calling step i by (simp add: caller_step_def)
    next
      case (Default_Handler limit)
      let ?y = "if completed_flag s then Ignored r else Recording r"
      have s': "s' = s\<lparr> callers := (callers s)[i := ?y] \<rparr>"
        using step i Calling Default_Handler by (simp add: caller_step_def)
      have t: "tally has_counted ((callers s)[i := ?y]) = tally has_counted (callers s)"
        "recorded_with q s' = recorded_with q s" for q
        using tally_update [OF i, of has_counted ?y] Calling
          tally_update [OF i, of "\<lambda>c. has_recorded c \<and> reason_of c = q" ?y]
        by (auto simp: s' recorded_with_def)
      show ?thesis
      proof (rule completion_invI)
        fix c assume c: "c \<in> set (callers s')" "was_ignored c"
        then have "c = ?y \<or> c \<in> set (callers s)" using sub [of c ?y] by (simp add: s')
        then show "completed_flag s'" using c(2) d(6) [of c] by (auto simp: s' split: if_splits)
      qed (use d t Calling i in \<open>auto simp: s' late_note_def reason_count_def time_limited_def map_update_id\<close>)
    qed
  next
    case (Recording r)
    then show ?thesis using rc step i by (simp add: caller_step_def)
  next
    case (Counting r)
    have s': "s' = s\<lparr> latch := latch_down (latch s), callers := (callers s)[i := Counted r] \<rparr>"
      using step i Counting by (simp add: caller_step_def)
    have t: "tally has_counted ((callers s)[i := Counted r]) = Suc (tally has_counted (callers s))"
      "recorded_with q s' = recorded_with q s" for q
      using tally_update [OF i, of has_counted "Counted r"] Counting
        tally_update [OF i, of "\<lambda>c. has_recorded c \<and> reason_of c = q" "Counted r"]
      by (auto simp: s' recorded_with_def)
    show ?thesis
    proof (rule completion_invI)
      show "latch s' = max 0 (shape_latch sh - int (tally has_counted (callers s')))"
        using d(3) t(1) by (simp add: s' latch_down_def)
      fix c assume c: "c \<in> set (callers s')" "was_ignored c"
      then have "c = Counted r \<or> c \<in> set (callers s)" using sub [of c "Counted r"] by (simp add: s')
      then show "completed_flag s'" using c(2) d(6) [of c] by (auto simp: s')
    qed (use d t Counting i in \<open>auto simp: s' late_note_def reason_count_def time_limited_def map_update_id latch_down_def\<close>)
  qed (use step i in \<open>simp_all add: caller_step_def\<close>)
qed

lemma waiter_step_inv:
  assumes inv: "completion_inv sh s" and few: "int (length (shape_calls sh)) + 1 < int_max"
    and step: "waiter_step m s = Some s'"
  shows "completion_inv sh s'"
proof -
  note d = completion_invD [OF inv]
  have cases: "(m = Wake \<and> waiter s = Awaiting \<and> latch s = 0 \<and> s' = s\<lparr> waiter := Woken True \<rparr>) \<or>
    (m = Time_Up \<and> waiter s = Awaiting \<and> time_limited s \<and> s' = s\<lparr> waiter := Woken False \<rparr>) \<or>
    (\<exists>b. waiter s = Woken b \<and> (s' = s\<lparr> completed_flag := True, waiter := Marked b \<rparr> \<or>
        completion_kind s = No_Limit_Handler \<and> s' = s\<lparr> waiter := Returned b \<rparr>)) \<or>
    (\<exists>b. waiter s = Marked b \<and> s' = s\<lparr> reasons := if b then reasons s
        else recordReason STOP_REASON_REACHED_TIME_LIMIT (reasons s), waiter := Returned b \<rparr>)"
    using step by (auto simp: waiter_step_def time_limited_def
        split: completion_move.splits waiter_at.splits completion_handler.splits if_splits)
  have same: "recorded_with q s' = recorded_with q s" "callers s' = callers s" "latch s' = latch s"
    "time_limited s' = time_limited s" "completion_kind s' = completion_kind s" for q
    using cases by (auto simp: recorded_with_def time_limited_def)
  let ?late = "waiter s = Marked False \<and>
    s' = s\<lparr> reasons := recordReason STOP_REASON_REACHED_TIME_LIMIT (reasons s), waiter := Returned False \<rparr>"
  have "?late \<or> reasons s' = reasons s \<and> waiter s' \<noteq> Returned False"
    using cases
  proof (elim disjE exE conjE)
    fix b assume "waiter s = Woken b" "completion_kind s = No_Limit_Handler" "s' = s\<lparr>waiter := Returned b\<rparr>"
    then show ?thesis using d(8) by (cases b) (simp_all add: time_limited_def)
  next
    fix b assume "waiter s = Marked b" "s' = s\<lparr> reasons := if b then reasons s
        else recordReason STOP_REASON_REACHED_TIME_LIMIT (reasons s), waiter := Returned b \<rparr>"
    then show ?thesis by (cases b) simp_all
  qed simp_all
  then consider (late) ?late | (other) "reasons s' = reasons s" "waiter s' \<noteq> Returned False" by blast
  then show ?thesis
  proof cases
    case other
    have "waiter s \<noteq> Returned False" using cases by auto
    then have n: "reason_count q s' = int (recorded_with q s' + late_note q s')" for q
      using d(4) [of q] other same(1) by (auto simp: late_note_def reason_count_def)
    show ?thesis
      by (rule completion_invI) (use d n cases same in \<open>auto simp: recorded_with_def\<close>)
  next
    case late
    let ?t = STOP_REASON_REACHED_TIME_LIMIT
    have "recorded_with ?t s \<le> length (shape_calls sh)"
      using tally_le [of _ "callers s"] by (simp add: recorded_with_def d(9) [symmetric])
    then have "0 \<le> reason_count ?t s" "reason_count ?t s < int_max"
      using d(4) [of ?t] few late by (simp_all add: late_note_def)
    then have "reason_count q s' = reason_count q s + (if q = ?t then 1 else 0)" for q
      by (intro reason_count_record) (simp_all add: late)
    then have n: "reason_count q s' = int (recorded_with q s' + late_note q s')" for q
      using d(4) [of q] late same(1) by (simp add: late_note_def)
    show ?thesis
      by (rule completion_invI) (use d n late same in \<open>auto simp: recorded_with_def\<close>)
  qed
qed

lemma completion_step_inv:
  "completion_inv sh s \<Longrightarrow> int (length (shape_calls sh)) + 1 < int_max \<Longrightarrow>
   completion_step m s = Some s' \<Longrightarrow> completion_inv sh s'"
  by (auto simp: completion_step_def intro: caller_step_inv waiter_step_inv split: completion_move.splits)

lemma completion_run_inv:
  "completion_inv sh s \<Longrightarrow> int (length (shape_calls sh)) + 1 < int_max \<Longrightarrow>
   completion_run ms s = Some s' \<Longrightarrow> completion_inv sh s'"
  by (induction ms arbitrary: s) (auto intro: completion_step_inv split: option.splits)

section \<open>The number of steps\<close>

fun caller_rank :: "caller_at \<Rightarrow> nat" where
  "caller_rank (Calling r) = 3"
| "caller_rank (Recording r) = 2"
| "caller_rank (Counting r) = 1"
| "caller_rank _ = 0"

fun waiter_rank :: "waiter_at \<Rightarrow> nat" where
  "waiter_rank Awaiting = 3"
| "waiter_rank (Woken b) = 2"
| "waiter_rank (Marked b) = 1"
| "waiter_rank (Returned b) = 0"

definition steps_left :: "completion \<Rightarrow> nat" where
  "steps_left s = sum_list (map caller_rank (callers s)) + waiter_rank (waiter s)"

lemma sum_list_update_less:
  "i < length xs \<Longrightarrow> f y < f (xs ! i) \<Longrightarrow> sum_list (map f (xs[i := y])) < (sum_list (map f xs) :: nat)"
proof (induction xs arbitrary: i)
  case (Cons x xs)
  then show ?case by (cases i) auto
qed simp

lemma steps_left_step: "completion_step m s = Some s' \<Longrightarrow> steps_left s' < steps_left s"
  by (auto simp: completion_step_def caller_step_def waiter_step_def steps_left_def
      intro!: sum_list_update_less
      split: completion_move.splits waiter_at.splits caller_at.splits completion_handler.splits if_splits)

lemma steps_left_run: "completion_run ms s = Some s' \<Longrightarrow> length ms + steps_left s' \<le> steps_left s"
proof (induction ms arbitrary: s)
  case (Cons m ms)
  then obtain s1 where s1: "completion_step m s = Some s1" "completion_run ms s1 = Some s'"
    by (auto split: option.splits)
  from Cons.IH [OF s1(2)] steps_left_step [OF s1(1)] show ?case by simp
qed simp

section \<open>At rest\<close>

lemma run_at_rest_callers:
  assumes "run_at_rest s" "c \<in> set (callers s)"
  shows "has_counted c \<or> was_ignored c"
proof -
  obtain i where i: "i < length (callers s)" "c = callers s ! i" using assms(2) by (auto simp: in_set_conv_nth)
  then have "caller_step i s = None" using assms(1) by (simp add: run_at_rest_def completion_step_def)
  then show ?thesis using i by (auto simp: caller_step_def split: caller_at.splits completion_handler.splits)
qed

lemma run_at_rest_waiter:
  assumes "run_at_rest s"
  shows "(\<exists>b. waiter s = Returned b) \<or> waiter s = Awaiting \<and> latch s \<noteq> 0 \<and> \<not> time_limited s"
proof -
  have "waiter_step Wake s = None" "waiter_step Time_Up s = None" "waiter_step Waiter s = None"
    using assms by (simp_all add: run_at_rest_def completion_step_def)
  then show ?thesis
    by (auto simp: waiter_step_def time_limited_def
        split: waiter_at.splits completion_handler.splits if_splits)
qed

text \<open>
  At rest the thread of the run has returned, or there are fewer calls than the latch wants and
  no time limit; then every call has counted.
\<close>

lemma rest_decided:
  assumes inv: "completion_inv sh s" and rest: "run_at_rest s"
  shows "(\<exists>b. waiter s = Returned b) \<longleftrightarrow> time_limited s \<or> shape_latch sh \<le> int (length (shape_calls sh))"
    and "waiter s = Awaiting \<Longrightarrow> tally has_counted (callers s) = length (shape_calls sh)"
proof -
  note d = completion_invD [OF inv]
  have all: "tally has_counted (callers s) = length (shape_calls sh)" if w: "waiter s = Awaiting"
  proof -
    have "\<forall>c \<in> set (callers s). has_counted c"
      using run_at_rest_callers [OF rest] d(5,6) w by fastforce
    then show ?thesis by (simp add: tally_all d(9))
  qed
  then show "waiter s = Awaiting \<Longrightarrow> tally has_counted (callers s) = length (shape_calls sh)" .
  show "(\<exists>b. waiter s = Returned b) \<longleftrightarrow> time_limited s \<or> shape_latch sh \<le> int (length (shape_calls sh))"
  proof (cases "waiter s = Awaiting")
    case True
    then have "latch s \<noteq> 0" "\<not> time_limited s" using run_at_rest_waiter [OF rest] by auto
    then show ?thesis using all [OF True] d(3) True by simp
  next
    case False
    then obtain b where b: "waiter s = Returned b" using run_at_rest_waiter [OF rest] by blast
    have "shape_latch sh \<le> int (length (shape_calls sh))" if "b"
      using d(3,7) b that tally_le [of has_counted "callers s"] d(9) by simp
    moreover have "time_limited s" if "\<not> b" using d(8) b that by simp
    ultimately show ?thesis using b by blast
  qed
qed

section \<open>The handler of a run\<close>

definition latch_of :: "load_params \<Rightarrow> int" where
  "latch_of p = (if hasLimit p \<and> 0 < count_limit p then count_limit p else 1)"

definition shape_of :: "load_params \<Rightarrow> string list \<Rightarrow> run_shape" where
  "shape_of p cs =
     \<lparr> shape_kind = (if hasLimit p then Default_Handler (timeLimit p) else No_Limit_Handler),
       shape_latch = latch_of p, shape_calls = cs \<rparr>"

lemma shape_of_simps [simp]: "shape_latch (shape_of p cs) = latch_of p" "shape_calls (shape_of p cs) = cs"
  by (simp_all add: shape_of_def)

lemma tally_none: "(\<forall>x \<in> set xs. \<not> P x) \<Longrightarrow> tally P xs = 0"
  by (induction xs) simp_all

lemma handler_inv: "completion_inv (shape_of p cs) (getCompletionHandler p cs)"
  by (rule completion_invI)
    (auto simp: getCompletionHandler_def new_default_handler_def new_no_limit_handler_def shape_of_def
      latch_of_def reason_count_def recorded_with_def late_note_def tally_none comp_def split: if_splits)

lemma handler_steps: "steps_left (getCompletionHandler p cs) = 3 * length cs + 3"
  by (simp add: getCompletionHandler_def new_default_handler_def new_no_limit_handler_def steps_left_def
      comp_def sum_list_const_mult sum_list_triv)

lemma handler_run_inv:
  "completion_run ms (getCompletionHandler p cs) = Some s \<Longrightarrow> int (length cs) + 1 < int_max \<Longrightarrow>
   completion_inv (shape_of p cs) s"
  using completion_run_inv [OF handler_inv, of p cs] by simp

lemma time_limited_iff: "completion_inv (shape_of p cs) s \<Longrightarrow> time_limited s \<longleftrightarrow> 0 < timeLimit p"
  using completion_invD(1) [of "shape_of p cs" s] by (auto simp: time_limited_def shape_of_def hasLimit_def)

text \<open>
  C18: whatever the order in which the agents and the thread of the run take their steps, the run is
  let go only after as many calls have counted as the limits ask for, or by its time limit, which is
  then among the reasons; and at every moment the map of the reasons says for each reason how many
  calls are past their record of it.
\<close>
theorem run_let_go:
  assumes "completion_run ms (getCompletionHandler p cs) = Some s" "int (length cs) + 1 < int_max"
  shows "(waiter s = Returned True \<longrightarrow> latch_of p \<le> int (tally has_counted (callers s))) \<and>
         (waiter s = Returned False \<longrightarrow> 0 < timeLimit p \<and> 0 < reason_count STOP_REASON_REACHED_TIME_LIMIT s) \<and>
         reason_count r s = int (tally (\<lambda>c. has_recorded c \<and> reason_of c = r) (callers s)) +
           (if waiter s = Returned False \<and> r = STOP_REASON_REACHED_TIME_LIMIT then 1 else 0)"
proof -
  note inv = handler_run_inv [OF assms]
  note d = completion_invD [OF inv]
  have "latch_of p \<le> int (tally has_counted (callers s))" if "waiter s = Returned True"
    using d(3,7) that by simp
  moreover have "0 < timeLimit p \<and> 0 < reason_count STOP_REASON_REACHED_TIME_LIMIT s" if "waiter s = Returned False"
    using d(8) d(4) [of STOP_REASON_REACHED_TIME_LIMIT] that time_limited_iff [OF inv]
    by (simp add: late_note_def)
  ultimately show ?thesis using d(4) [of r] by (simp add: recorded_with_def late_note_def)
qed

text \<open>A run with a limit of messages for two producers, and a time limit.\<close>

definition demo_params :: load_params where
  "demo_params = \<lparr> timeLimit = 9, producerMsgCount = 5, consumerMsgCount = 0, exitWhen = Exit_Never,
     producerCount = 1, producerChannelCount = 2, consumerCount = 1, consumerChannelCount = 1 \<rparr>"

theorem run_let_go_witness:
  "\<exists>s. completion_run [Caller 1, Caller 1, Time_Up, Caller 1, Waiter, Caller 0, Waiter]
         (getCompletionHandler demo_params [''a'', ''b'']) = Some s \<and>
       waiter s = Returned False \<and> callers s = [Ignored ''a'', Counted ''b''] \<and>
       0 < timeLimit demo_params \<and> reason_count ''b'' s = 1"
proof -
  let ?ms = "[Caller 1, Caller 1, Time_Up, Caller 1, Waiter, Caller 0, Waiter]"
  have "(case completion_run ?ms (getCompletionHandler demo_params [''a'', ''b'']) of
      None \<Rightarrow> False | Some s \<Rightarrow> waiter s = Returned False \<and> callers s = [Ignored ''a'', Counted ''b''])"
    by code_simp
  then obtain s where s: "completion_run ?ms (getCompletionHandler demo_params [''a'', ''b'']) = Some s"
    "waiter s = Returned False" "callers s = [Ignored ''a'', Counted ''b'']" by (auto split: option.splits)
  from run_let_go [OF s(1), of "''b''"] s(2,3) show ?thesis
    using s(1) by (simp add: int_max_def STOP_REASON_REACHED_TIME_LIMIT_def)
qed

text \<open>
  C19: no order of the steps goes on for ever, and when no step is left the run has ended exactly when
  it has a time limit or the agents make at least as many calls as the limits ask for. With fewer
  calls and no time limit it waits for ever.
\<close>
theorem run_ends_iff:
  assumes "completion_run ms (getCompletionHandler p cs) = Some s" "int (length cs) + 1 < int_max"
  shows "length ms \<le> 3 * length cs + 3 \<and>
         (run_at_rest s \<longrightarrow> ((\<exists>b. waiter s = Returned b) \<longleftrightarrow> 0 < timeLimit p \<or> latch_of p \<le> int (length cs)))"
proof -
  note inv = handler_run_inv [OF assms]
  have "length ms \<le> 3 * length cs + 3" using steps_left_run [OF assms(1)] by (simp add: handler_steps)
  then show ?thesis using rest_decided(1) [OF inv] time_limited_iff [OF inv] by simp
qed

theorem run_ends_iff_witness:
  "\<exists>s. completion_run [Caller 0, Caller 0, Caller 0] (getCompletionHandler (demo_params\<lparr> timeLimit := 0 \<rparr>) [''a'']) = Some s \<and>
       run_at_rest s \<and> \<not> (\<exists>b. waiter s = Returned b)"
proof -
  let ?p = "demo_params\<lparr> timeLimit := 0 \<rparr>"
  have "(case completion_run [Caller 0, Caller 0, Caller 0] (getCompletionHandler ?p [''a'']) of
      None \<Rightarrow> False | Some s \<Rightarrow> run_at_rest s) \<and> latch_of ?p = 2"
    by code_simp
  then obtain s where s: "completion_run [Caller 0, Caller 0, Caller 0] (getCompletionHandler ?p [''a'']) = Some s"
    "run_at_rest s" "latch_of ?p = 2" by (auto split: option.splits)
  from run_ends_iff [OF s(1)] s(2,3) show ?thesis using s(1) by (simp add: int_max_def)
qed

end
