(* ===== verification/Perf_Completion_Runs.thy ===== *)
theory Perf_Completion_Runs
  imports Perf_Completion_Spec Perf_Consumer_Spec
begin

text \<open>
  Runs under limits, from the loops of the producers and the messages of the consumers to the end of
  the run: the calls the agents make are those the latch waits for.
\<close>

section \<open>Runs in which every call is needed\<close>

lemma tally_full: "tally P xs = length xs \<Longrightarrow> x \<in> set xs \<Longrightarrow> P x"
  unfolding tally_def by (metis filter_id_conv length_filter_less less_irrefl)

lemma all_calls_counted:
  assumes inv: "completion_inv (shape_of p cs) s" and rest: "run_at_rest s"
    and exact: "latch_of p = int (length cs)" and no_time: "timeLimit p \<le> 0"
  shows "waiter s = Returned True \<and> reason_count r s = int (tally (\<lambda>x. x = r) cs)"
proof -
  note d = completion_invD [OF inv]
  have nt: "\<not> time_limited s" using time_limited_iff [OF inv] no_time by simp
  obtain b where "waiter s = Returned b" using rest_decided(1) [OF inv rest] exact by auto
  then have w: "waiter s = Returned True" using d(8) nt by (cases b) simp_all
  then have "length (callers s) \<le> tally has_counted (callers s)" using d(3,7,9) exact by simp
  then have full: "tally has_counted (callers s) = length (callers s)"
    using tally_le [of has_counted "callers s"] by simp
  have "(has_recorded c \<and> reason_of c = r) = (reason_of c = r)" if "c \<in> set (callers s)" for c
    using tally_full [OF full that] by (cases c) simp_all
  then have "recorded_with r s = tally (\<lambda>c. reason_of c = r) (callers s)"
    unfolding recorded_with_def by (rule tally_cong)
  also have "\<dots> = tally (\<lambda>x. x = r) (map reason_of (callers s))" by (simp add: tally_map comp_def)
  finally show ?thesis using d(4) [of r] d(2) w by (simp add: late_note_def)
qed

lemma no_calls_waiting:
  assumes inv: "completion_inv (shape_of p []) s" and rest: "run_at_rest s"
    and no_time: "timeLimit p \<le> 0"
  shows "waiter s = Awaiting \<and> reason_count r s = 0"
proof -
  note d = completion_invD [OF inv]
  have "\<not> (\<exists>b. waiter s = Returned b)"
    using rest_decided(1) [OF inv rest] time_limited_iff [OF inv] no_time by (simp add: latch_of_def)
  then have "waiter s = Awaiting" using run_at_rest_waiter [OF rest] by blast
  moreover have "recorded_with r s = 0" using d(2) by (simp add: recorded_with_def)
  ultimately show ?thesis using d(4) [of r] by (simp add: late_note_def)
qed

section \<open>Calls of the agents\<close>

lemma producer_calls:
  assumes L: "0 < L" "L \<le> int_max"
    and ts: "\<forall>ts \<in> set tss. (\<forall>t \<in> set ts. \<not> interrupted t) \<and> L < int (length (filter (\<lambda>t. \<not> recovering t) ts))"
    and outs: "outs = map (\<lambda>ts. run_loop False L ts (new_loop start)) tss"
  shows "List.map_filter (producer_call L) outs = replicate (length tss) ''Producer reached message limit'' \<and>
         (\<forall>out \<in> set outs. int (sent (fst out)) = L)"
  using ts unfolding outs
proof (induction tss)
  case (Cons ts tss)
  obtain s ended where r: "run_loop False L ts (new_loop start) = (s, ended)" by force
  have "sent s = nat L" "ended" "state_msgCount s = L"
    using fixed_loop [OF _ _ L(2,1) _ r] Cons.prems L by (auto simp: new_loop_def)
  then have "producer_call L (s, ended) = Some ''Producer reached message limit''" "int (sent s) = L"
    using L by (simp_all add: producer_call_def finish_run_def)
  then show ?case using Cons r by (simp add: List.map_filter_def)
qed (simp add: List.map_filter_def)

text \<open>
  A consumer that gets at least as many messages as its limit on an open channel, however it
  acknowledges them and whatever becomes of the acknowledgements.
\<close>

definition served :: "int \<Rightarrow> consumer_config \<times> delivery list \<Rightarrow> bool" where
  "served M cd \<longleftrightarrow> consumer_limit (fst cd) = M \<and> length (snd cd) < 2 ^ 63 \<and>
     M \<le> int (length (filter channel_open (snd cd)))"

definition same_progress :: "consumer \<Rightarrow> consumer \<Rightarrow> bool" where
  "same_progress c c' \<longleftrightarrow> receivedMessageCount c' = receivedMessageCount c \<and> completed c' = completed c"

lemma ack_progress: "ackIfNecessary cfg d n c = Inr c' \<Longrightarrow> same_progress c c'"
  by (cases "dealWithWriteOperation (recoveryEnabled cfg) (ack_outcome d)")
    (auto simp: ackIfNecessary_def ack_one_def same_progress_def split: if_splits)

lemma commit_progress: "commitTransactionIfNecessary cfg d n c = Inr c' \<Longrightarrow> same_progress c c'"
  by (cases "dealWithWriteOperation (recoveryEnabled cfg) (commit_outcome d)")
    (auto simp: commitTransactionIfNecessary_def same_progress_def split: if_splits)

lemma within_progress:
  assumes "handle_within_limit cfg d c = Inr c'"
  shows "same_progress c c'"
proof -
  obtain l where l: "delivery_latency cfg d = Inr l" using assms by (auto simp: handle_within_limit_def bindE_Inr_iff)
  let ?c1 = "c\<lparr> reports_made := reports_made c @ [Recv l] \<rparr>"
  show ?thesis
  proof (cases "latency_passed d")
    case True
    then obtain c2 c3 where "ackIfNecessary cfg d (epochMessageCount ?c1) ?c1 = Inr c2"
      "commitTransactionIfNecessary cfg d (epochMessageCount c2) c2 = Inr c3"
      "c' = resetStats cfg d (c3\<lparr> lastDeliveryTag := tag d \<rparr>)"
      using assms l unfolding handle_within_limit_def Let_def by (auto simp: bindE_Inr_iff)
    then show ?thesis using ack_progress [of cfg d _ ?c1 c2] commit_progress [of cfg d _ c2 c3]
      by (simp add: same_progress_def resetStats_def)
  qed (use assms l in \<open>auto simp: handle_within_limit_def same_progress_def\<close>)
qed

text \<open>After \<open>n\<close> messages the consumer has handed over its reason exactly when its limit is reached.\<close>

definition counted_to :: "int \<Rightarrow> nat \<Rightarrow> consumer \<Rightarrow> bool" where
  "counted_to M n c \<longleftrightarrow> receivedMessageCount c = int n \<and>
     completed c = (if M \<le> int n then Some ''Consumer reached message limit'' else None)"

lemma handled_counted:
  assumes "maybeHandleMessage cfg d c = Inr c'" "counted_to M n c" "consumer_limit cfg = M" "0 < M" "Suc n < 2 ^ 63"
  shows "counted_to M (if channel_open d then Suc n else n) c'"
proof (cases "channel_open d")
  case True
  let ?c1 = "c\<lparr> receivedMessageCount := int (Suc n),
                epochMessageCount := wrap64 (epochMessageCount c + 1),
                consumer_msgCount := wrap32 (consumer_msgCount c + 1),
                lastActivityTimestamp := getCurrentTime (timestamps cfg) (nanos d) (millis d) \<rparr>"
  have w: "wrap64 (int n + 1) = int (Suc n)" using assms(5) by simp
  define r where "r = (if int (Suc n) \<le> M then handle_within_limit cfg d ?c1 else Inr ?c1)"
  have "maybeHandleMessage cfg d c = bindE r (\<lambda>c2.
      Inr (if M \<le> receivedMessageCount c2 then countDown ''Consumer reached message limit'' c2 else c2))"
    using assms(2-4) True w by (simp add: maybeHandleMessage_def handleMessage_def Let_def counted_to_def r_def)
  then obtain c2 where c2: "r = Inr c2"
    "c' = (if M \<le> receivedMessageCount c2 then countDown ''Consumer reached message limit'' c2 else c2)"
    using assms(1) by (cases r) auto
  have "same_progress ?c1 c2"
    using c2(1) within_progress by (auto simp: r_def same_progress_def split: if_splits)
  then show ?thesis using c2(2) assms(2) True
    by (auto simp: same_progress_def counted_to_def countDown_def split: if_splits)
qed (use assms in \<open>simp add: maybeHandleMessage_def\<close>)

lemma delivered_counted:
  assumes "deliver_all cfg ds c = Inr c'" "counted_to M n c" "consumer_limit cfg = M" "0 < M"
    and "n + length ds < 2 ^ 63"
  shows "counted_to M (n + length (filter channel_open ds)) c'"
  using assms
proof (induction ds arbitrary: c n)
  case (Cons d ds)
  then obtain c1 where c1: "maybeHandleMessage cfg d c = Inr c1" "deliver_all cfg ds c1 = Inr c'"
    by (auto simp: bindE_Inr_iff)
  have "counted_to M (if channel_open d then Suc n else n) c1"
    using handled_counted [OF c1(1) Cons.prems(2-4)] Cons.prems(5) by simp
  from Cons.IH [OF c1(2) this Cons.prems(3,4)] Cons.prems(5) show ?case by (cases "channel_open d") simp_all
qed simp

lemma consumer_calls:
  assumes M: "0 < M" and served: "\<forall>cd \<in> set cds. served M cd"
    and cs: "mapE (\<lambda>cd. deliver_all (fst cd) (snd cd) (new_consumer now)) cds = Inr cs"
  shows "List.map_filter completed cs = replicate (length cds) ''Consumer reached message limit''"
  using served cs
proof (induction cds arbitrary: cs)
  case (Cons cd cds)
  then obtain c cs' where c: "deliver_all (fst cd) (snd cd) (new_consumer now) = Inr c" "cs = c # cs'"
    "mapE (\<lambda>cd. deliver_all (fst cd) (snd cd) (new_consumer now)) cds = Inr cs'"
    by (auto simp: bindE_Inr_iff)
  have s: "served M cd" using Cons.prems by simp
  have "counted_to M 0 (new_consumer now)" using M by (simp add: counted_to_def new_consumer_def)
  from delivered_counted [OF c(1) this _ M] s
  have "completed c = Some ''Consumer reached message limit''"
    by (simp add: served_def counted_to_def)
  moreover have "List.map_filter completed cs' = replicate (length cds) ''Consumer reached message limit''"
    using Cons.IH [OF _ c(3)] Cons.prems by simp
  ultimately show ?case using c(2) by (simp add: List.map_filter_def)
qed (simp add: List.map_filter_def)

lemma tally_replicate: "tally P (replicate n x) = (if P x then n else 0)"
  by (induction n) simp_all

lemma tally_append: "tally P (xs @ ys) = tally P xs + tally P ys"
  by (induction xs) simp_all

section \<open>Runs\<close>

text \<open>
  C20: a run with limits of messages for its producers and its consumers, a constant rate and no limit of
  time ends, with every order of the steps of all its threads, once each producer, which is
  not interrupted, has had more turns without a recovery than its limit, and each consumer as many
  messages on an open channel as its limit (in any mode of acknowledgement, and whatever becomes of the
  acknowledgements, as long as no exception leaves the handling of a message): every
  producer has then published exactly its limit, the run has heard of each agent once, of the
  limits and of nothing else.
\<close>
theorem limited_run_completes:
  assumes p: "producerMsgCount p = L" "consumerMsgCount p = M" "0 < L" "L \<le> int_max" "0 < M" "timeLimit p \<le> 0"
    and threads: "getProducerThreadCount p = int (length tss)" "getConsumerThreadCount p = int (length cds)"
      "0 < length tss" "int (length tss + length cds) + 1 < int_max"
    and producers: "\<forall>ts \<in> set tss. (\<forall>t \<in> set ts. \<not> interrupted t) \<and>
                      L < int (length (filter (\<lambda>t. \<not> recovering t) ts))"
      "outs = map (\<lambda>ts. run_loop False L ts (new_loop start)) tss"
    and consumers: "\<forall>cd \<in> set cds. served M cd"
      "mapE (\<lambda>cd. deliver_all (fst cd) (snd cd) (new_consumer now)) cds = Inr cs"
    and run: "completion_run ms (getCompletionHandler p (agent_calls L outs cs)) = Some s" "run_at_rest s"
  shows "waiter s = Returned True \<and>
         reason_count r s = (if r = ''Producer reached message limit'' then int (length tss)
                             else if r = ''Consumer reached message limit'' then int (length cds) else 0) \<and>
         (\<forall>out \<in> set outs. int (sent (fst out)) = L)"
proof -
  let ?calls = "replicate (length tss) ''Producer reached message limit'' @
                replicate (length cds) ''Consumer reached message limit''"
  have calls: "agent_calls L outs cs = ?calls" and sent: "\<forall>out \<in> set outs. int (sent (fst out)) = L"
    using producer_calls [OF p(3,4) producers] consumer_calls [OF p(5) consumers]
    by (simp_all add: agent_calls_def)
  have inv: "completion_inv (shape_of p ?calls) s"
    using handler_run_inv [OF run(1)] threads(4) by (simp add: calls)
  have pos: "0 < int (length tss) + int (length cds)" using threads(3) by linarith
  have "latch_of p = int (length ?calls)"
    using p threads by (simp add: latch_of_def count_limit_def hasLimit_def Let_def wrap32_id pos)
  from all_calls_counted [OF inv run(2) this p(6), of r] sent show ?thesis
    by (simp add: tally_append tally_replicate)
qed

text \<open>A producer with its turns, and a consumer with one message.\<close>

definition one_turn :: turn where
  "one_turn = \<lparr> interrupted = False, recovering = False, rate_zero = False, turn_end = 2000 \<rparr>"

definition one_consumer :: "consumer_config \<times> delivery list" where
  "one_consumer =
     (\<lparr> timestamps = \<lparr> useMillis = False, isTimestampInHeader = False \<rparr>, autoAck = False,
        multiAckEvery = 0, nackMessages = False, requeue = True, consumer_limit = 1, txSize = 0,
        rateLimitation = False, recoveryEnabled = True \<rparr>,
      [\<lparr> tag = 1, header = No_Headers, body = [], nanos = 3, millis = 0, clock = 0, channel_open = True,
         latency_passed = True, ack_outcome = Write_Ok, commit_outcome = Write_Ok \<rparr>])"

definition both_limits :: load_params where
  "both_limits = \<lparr> timeLimit = 0, producerMsgCount = 1, consumerMsgCount = 1, exitWhen = Exit_Never,
     producerCount = 1, producerChannelCount = 1, consumerCount = 1, consumerChannelCount = 1 \<rparr>"

lemma both_limits_run:
  "\<exists>s. completion_run [Caller 0, Caller 1, Caller 0, Caller 1, Caller 1, Caller 0, Wake, Waiter, Waiter]
           (getCompletionHandler both_limits [a, b]) = Some s \<and> run_at_rest s"
  by (simp add: both_limits_def getCompletionHandler_def hasLimit_def count_limit_def new_default_handler_def
      getProducerThreadCount_def getConsumerThreadCount_def wrap32_def completion_step_def caller_step_def
      waiter_step_def latch_down_def run_at_rest_def atLeast0_lessThan_Suc)

theorem limited_run_completes_witness:
  "\<exists>cs s. completion_run [Caller 0, Caller 1, Caller 0, Caller 1, Caller 1, Caller 0, Wake, Waiter, Waiter]
           (getCompletionHandler both_limits
              (agent_calls 1 [run_loop False 1 [one_turn, one_turn] (new_loop 0)] cs)) = Some s \<and>
         waiter s = Returned True \<and> reason_count ''Producer reached message limit'' s = 1"
proof -
  let ?ms = "[Caller 0, Caller 1, Caller 0, Caller 1, Caller 1, Caller 0, Wake, Waiter, Waiter]"
  let ?calls = "[''Producer reached message limit'', ''Consumer reached message limit'']"
  let ?tss = "[[one_turn, one_turn]]" and ?cds = "[one_consumer]"
  let ?outs = "map (\<lambda>ts. run_loop False 1 ts (new_loop 0)) ?tss"
  have served: "\<forall>cd \<in> set ?cds. served 1 cd" by (simp add: served_def one_consumer_def)
  have turns: "\<forall>ts \<in> set ?tss. (\<forall>t \<in> set ts. \<not> interrupted t) \<and> 1 < int (length (filter (\<lambda>t. \<not> recovering t) ts))"
    by (simp add: one_turn_def)
  obtain c where "deliver_all (fst one_consumer) (snd one_consumer) (new_consumer 0) = Inr c"
    using consumed_all [of "snd one_consumer" "fst one_consumer" 0]
    by (auto simp: one_consumer_def smooth_def timestamp_readable_def)
  then have cs: "mapE (\<lambda>cd. deliver_all (fst cd) (snd cd) (new_consumer 0)) ?cds = Inr [c]" by simp
  have calls: "agent_calls 1 ?outs [c] = ?calls"
    using producer_calls [OF _ _ turns refl, of 0] consumer_calls [OF _ served cs]
    by (simp add: agent_calls_def int_max_def)
  obtain s where s: "completion_run ?ms (getCompletionHandler both_limits (agent_calls 1 ?outs [c])) = Some s"
    "run_at_rest s" using both_limits_run unfolding calls by blast
  have counts: "getProducerThreadCount both_limits = int (length ?tss)"
    "getConsumerThreadCount both_limits = int (length ?cds)" "0 < length ?tss"
    "int (length ?tss + length ?cds) + 1 < int_max"
    by (simp_all add: both_limits_def getProducerThreadCount_def getConsumerThreadCount_def int_max_def wrap32_id)
  have limits: "producerMsgCount both_limits = 1" "consumerMsgCount both_limits = 1" "(0::int) < 1"
    "1 \<le> int_max" "(0::int) < 1" "timeLimit both_limits \<le> 0" by (simp_all add: both_limits_def int_max_def)
  from limited_run_completes [OF limits counts turns refl served cs s, of "''Producer reached message limit''"]
  have "waiter s = Returned True" "reason_count ''Producer reached message limit'' s = 1" by simp_all
  then show ?thesis using s(1) by (intro exI [of _ "[c]"] exI [of _ s]) simp
qed

text \<open>
  C21: with a rate that varies a limit of messages does not end the run: when every turn of a loop lasts
  more than 1000 nanoseconds, each of the producers has published at each of its turns, however
  many these are, no reason is recorded, and the thread of the run still waits.
\<close>
theorem variable_rate_run_hangs:
  assumes p: "producerMsgCount p = L" "0 < L" "timeLimit p \<le> 0"
    and producers: "\<forall>ts \<in> set tss. (\<forall>t \<in> set ts. \<not> interrupted t \<and> \<not> recovering t \<and> \<not> rate_zero t) \<and>
                      spaced start ts"
      "outs = map (\<lambda>ts. run_loop True L ts (new_loop start)) tss"
    and consumers: "\<forall>c \<in> set cs. completed c = None"
    and run: "completion_run ms (getCompletionHandler p (agent_calls L outs cs)) = Some s" "run_at_rest s"
  shows "waiter s = Awaiting \<and> reason_count r s = 0 \<and> map (\<lambda>out. sent (fst out)) outs = map length tss"
proof -
  have loops: "sent (fst (run_loop True L ts (new_loop start))) = length ts \<and>
      \<not> snd (run_loop True L ts (new_loop start))" if "ts \<in> set tss" for ts
    using variable_loop [of "new_loop start" L ts] producers(1) that p(2) by (simp add: new_loop_def)
  have "producer_call L out = None" if "out \<in> set outs" for out
    using that loops by (auto simp: producers(2) producer_call_def)
  then have calls: "agent_calls L outs cs = []" using consumers
    by (simp add: agent_calls_def List.map_filter_def filter_empty_conv)
  have "completion_inv (shape_of p []) s"
    using handler_run_inv [OF run(1)] by (simp add: calls int_max_def)
  from no_calls_waiting [OF this run(2) p(3), of r] loops show ?thesis by (simp add: producers(2))
qed

theorem variable_rate_run_hangs_witness:
  "\<exists>s. completion_run [] (getCompletionHandler both_limits
          (agent_calls 1 [run_loop True 1 [one_turn, one_turn\<lparr> turn_end := 4000 \<rparr>] (new_loop 0)] [])) = Some s \<and>
       waiter s = Awaiting \<and>
       sent (fst (run_loop True 1 [one_turn, one_turn\<lparr> turn_end := 4000 \<rparr>] (new_loop 0))) = 2"
proof -
  let ?ts = "[one_turn, one_turn\<lparr> turn_end := 4000 \<rparr>]"
  let ?outs = "map (\<lambda>ts. run_loop True 1 ts (new_loop 0)) [?ts]"
  let ?s = "getCompletionHandler both_limits (agent_calls 1 ?outs [])"
  have ok: "\<forall>ts \<in> set [?ts]. (\<forall>t \<in> set ts. \<not> interrupted t \<and> \<not> recovering t \<and> \<not> rate_zero t) \<and> spaced 0 ts"
    by (simp add: one_turn_def wrap64_def)
  have "run_at_rest ?s" by code_simp
  moreover have "completion_run [] ?s = Some ?s" by simp
  ultimately have "waiter ?s = Awaiting \<and> reason_count [] ?s = 0 \<and>
      map (\<lambda>out. sent (fst out)) ?outs = map length [?ts]"
    by (intro variable_rate_run_hangs [where p = both_limits and cs = "[]" and ms = "[]", OF _ _ _ ok refl])
      (simp_all add: both_limits_def)
  then show ?thesis by simp
qed

end
