(* ===== verification/Perf_Scheduled.thy ===== *)
theory Perf_Scheduled
  imports Perf_Completion_Runs
begin

text \<open>
  A producer that a scheduler runs (\<open>createRunnableForScheduling\<close> and \<open>maybeHandlePublish\<close> of
  \<open>Producer.java\<close>), the bodies of its messages when they are files (\<open>LocalFilesMessageBodySource.java\<close>), and
  its random routing keys (\<open>CachingRoutingKeyGenerator\<close>).
\<close>

section \<open>The scheduled producer\<close>

text \<open>
  Its state is that of the loop, and the reason it has handed over, which it does once. The clock of the
  last statistics is set at the first run and not read.
\<close>

record scheduled_state =
  scheduled_loop :: loop_state
  handed_over :: "string option"

definition new_scheduled :: scheduled_state where
  "new_scheduled = \<lparr> scheduled_loop = new_loop 0, handed_over = None \<rparr>"

definition messageLimitReached :: "int \<Rightarrow> loop_state \<Rightarrow> bool" where
  "messageLimitReached msgLimit s \<longleftrightarrow> (if msgLimit = 0 then False else msgLimit \<le> state_msgCount s)"

definition maybeHandlePublish :: "int \<Rightarrow> turn \<Rightarrow> scheduled_state \<Rightarrow> scheduled_state" where
  "maybeHandlePublish msgLimit t s =
     (if keepGoing msgLimit t (scheduled_loop s)
      then s\<lparr> scheduled_loop := handlePublish t (scheduled_loop s) \<rparr>
      else (let reason = (if messageLimitReached msgLimit (scheduled_loop s)
                          then ''Producer reached message limit'' else ''Producer thread interrupted'') in
            if handed_over s = None then s\<lparr> handed_over := Some reason \<rparr> else s))"

fun scheduled_runs :: "int \<Rightarrow> turn list \<Rightarrow> scheduled_state \<Rightarrow> scheduled_state" where
  "scheduled_runs msgLimit [] s = s"
| "scheduled_runs msgLimit (t # ts) s = scheduled_runs msgLimit ts (maybeHandlePublish msgLimit t s)"

section \<open>Bodies from files, and keys\<close>

definition local_file_body :: "'b list \<Rightarrow> int \<Rightarrow> 'b jres" where
  "local_file_body bodies sequenceNumber =
     (if bodies = [] then Inl Arithmetic
      else (let i = rem_int sequenceNumber (int (length bodies)) in
            if i < 0 then Inl Index_Out_Of_Bounds else Inr (bodies ! nat i)))"

text \<open>The numbers \<open>run\<close> hands to the source of bodies, one for each message it publishes.\<close>

fun sequence_numbers :: "bool \<Rightarrow> int \<Rightarrow> turn list \<Rightarrow> loop_state \<Rightarrow> int list" where
  "sequence_numbers variableRate msgLimit [] s = []"
| "sequence_numbers variableRate msgLimit (t # ts) s =
     (if keepGoing msgLimit t s
      then (if (variableRate \<and> rate_zero t) \<or> recovering t then [] else [state_msgCount s]) @
           sequence_numbers variableRate msgLimit ts (loop_turn variableRate t s)
      else [])"

record key_generator =
  keys :: "string list"
  key_count :: int

definition new_key_generator :: "string list \<Rightarrow> key_generator jres" where
  "new_key_generator ks = (if ks = [] then Inl (Runtime_Exception ''0'') else Inr \<lparr> keys = ks, key_count = 0 \<rparr>)"

definition next_key :: "key_generator \<Rightarrow> string \<times> key_generator" where
  "next_key g =
     (let count = (if key_count g = int (length (keys g)) then 0 else key_count g) in
      (keys g ! nat (rem_int count (int (length (keys g)))), g\<lparr> key_count := wrap32 (count + 1) \<rparr>))"

fun next_keys :: "nat \<Rightarrow> key_generator \<Rightarrow> string list" where
  "next_keys 0 g = []"
| "next_keys (Suc n) g = (case next_key g of (k, g1) \<Rightarrow> k # next_keys n g1)"

section \<open>The schedule and the loop agree\<close>

lemma handlePublish_loop: "loop_turn False t s = handlePublish t s"
  by (simp add: loop_turn_def Let_def)

lemma scheduled_after_limit:
  assumes "\<forall>t \<in> set ts. \<not> interrupted t" "0 < L" "L \<le> state_msgCount (scheduled_loop s)" "handed_over s \<noteq> None"
  shows "scheduled_runs L ts s = s"
  using assms
proof (induction ts)
  case (Cons t ts)
  then have "maybeHandlePublish L t s = s" by (simp add: maybeHandlePublish_def keepGoing_def)
  then show ?case using Cons by simp
qed simp

lemma scheduled_loop_agree:
  assumes "\<forall>t \<in> set ts. \<not> interrupted t" "0 \<le> L" "L \<le> int_max"
    and "0 < L \<longrightarrow> 0 \<le> state_msgCount s \<and> state_msgCount s \<le> L"
    and "run_loop False L ts s = (s', ended)"
  shows "scheduled_runs L ts \<lparr> scheduled_loop = s, handed_over = None \<rparr> =
    \<lparr> scheduled_loop = s', handed_over = if ended then Some ''Producer reached message limit'' else None \<rparr>"
  using assms
proof (induction ts arbitrary: s)
  case (Cons t ts)
  have i: "\<not> interrupted t" "\<forall>t \<in> set ts. \<not> interrupted t" using Cons.prems(1) by simp_all
  show ?case
  proof (cases "keepGoing L t s")
    case True
    have r: "run_loop False L ts (handlePublish t s) = (s', ended)"
      using Cons.prems(5) True by (simp add: handlePublish_loop)
    have "0 \<le> state_msgCount (handlePublish t s) \<and> state_msgCount (handlePublish t s) \<le> L" if "0 < L"
    proof -
      have lt: "state_msgCount s < L" using True that by (simp add: keepGoing_def)
      then have "wrap32 (state_msgCount s + 1) = state_msgCount s + 1"
        using Cons.prems(3,4) that by (intro wrap32_id) simp_all
      then show ?thesis using lt Cons.prems(4) that by (simp add: handlePublish_def)
    qed
    then show ?thesis using Cons.IH [OF i(2) Cons.prems(2,3) _ r] True by (simp add: maybeHandlePublish_def)
  next
    case False
    then have L: "L \<noteq> 0" "L \<le> state_msgCount s" using i(1) by (auto simp: keepGoing_def)
    then have m: "maybeHandlePublish L t \<lparr> scheduled_loop = s, handed_over = None \<rparr> =
        \<lparr> scheduled_loop = s, handed_over = Some ''Producer reached message limit'' \<rparr>"
      using False by (simp add: maybeHandlePublish_def messageLimitReached_def)
    have "s' = s" "ended" using Cons.prems(5) False by simp_all
    then show ?thesis using scheduled_after_limit [OF i(2)] L Cons.prems(2) by (simp add: m)
  qed
qed simp

text \<open>
  C30: a producer run by a scheduler does what the loop does with a constant rate: after the same runs,
  none of them interrupted, it has published the same messages, and the completion handler has heard
  from it once if the loop has ended by then and handed over its reason, and else never.
\<close>
theorem scheduled_as_loop:
  assumes "\<forall>t \<in> set ts. \<not> interrupted t" "0 \<le> L" "L \<le> int_max"
    and "run_loop False L ts (new_loop 0) = out"
  shows "scheduled_loop (scheduled_runs L ts new_scheduled) = fst out \<and>
         handed_over (scheduled_runs L ts new_scheduled) = producer_call L out"
proof -
  obtain s' ended where out: "out = (s', ended)" by force
  have r: "run_loop False L ts (new_loop 0) = (s', ended)" using assms(4) out by simp
  have agree: "scheduled_runs L ts new_scheduled =
      \<lparr> scheduled_loop = s', handed_over = if ended then Some ''Producer reached message limit'' else None \<rparr>"
    unfolding new_scheduled_def
    by (rule scheduled_loop_agree [OF assms(1-3) _ r]) (use assms(2) in \<open>simp add: new_loop_def\<close>)
  have "L \<noteq> 0 \<and> state_msgCount s' = L" if ended
  proof -
    have "0 < L"
    proof (rule ccontr)
      assume "\<not> 0 < L"
      then have "L = 0" using assms(2) by simp
      then have "\<not> snd (run_loop False L ts s)" for s
        using assms(1) by (induction ts arbitrary: s) (simp_all add: keepGoing_def)
      from this [of "new_loop 0"] show False using r that by simp
    qed
    then show ?thesis using fixed_loop [OF _ _ assms(3) _ assms(1) r] that by (simp add: new_loop_def)
  qed
  then show ?thesis by (auto simp: agree out producer_call_def finish_run_def)
qed

theorem scheduled_as_loop_witness:
  "handed_over (scheduled_runs 2 (replicate 4 one_turn) new_scheduled) = Some ''Producer reached message limit'' \<and>
   sent (scheduled_loop (scheduled_runs 2 (replicate 4 one_turn) new_scheduled)) = 2"
proof -
  let ?ts = "replicate 4 one_turn" and ?out = "run_loop False 2 (replicate 4 one_turn) (new_loop 0)"
  have "scheduled_loop (scheduled_runs 2 ?ts new_scheduled) = fst ?out \<and>
      handed_over (scheduled_runs 2 ?ts new_scheduled) = producer_call 2 ?out"
    by (rule scheduled_as_loop [OF _ _ _ refl]) (simp_all add: one_turn_def int_max_def)
  moreover have "sent (fst ?out) = 2 \<and> producer_call 2 ?out = Some ''Producer reached message limit''" by code_simp
  ultimately show ?thesis by simp
qed

section \<open>Bodies and keys in turn\<close>

lemma fixed_sequence:
  assumes "0 \<le> state_msgCount s" "state_msgCount s + int (length ts) \<le> int_max"
  shows "\<exists>n. sent (fst (run_loop False L ts s)) = sent s + n \<and>
           sequence_numbers False L ts s = map (\<lambda>k. state_msgCount s + int k) [0..<n]"
  using assms
proof (induction ts arbitrary: s)
  case (Cons t ts)
  let ?s1 = "handlePublish t s"
  show ?case
  proof (cases "keepGoing L t s")
    case False
    then show ?thesis by (intro exI [of _ 0]) simp
  next
    case True
    show ?thesis
    proof (cases "recovering t")
      case rec: True
      then have "?s1 = s" by (simp add: handlePublish_def)
      then show ?thesis using Cons.IH [of s] Cons.prems True rec by (simp add: handlePublish_loop)
    next
      case False
      have w: "wrap32 (state_msgCount s + 1) = state_msgCount s + 1"
        using Cons.prems by (intro wrap32_id) simp_all
      then have s1: "state_msgCount ?s1 = state_msgCount s + 1" "sent ?s1 = Suc (sent s)"
        using False by (simp_all add: handlePublish_def)
      then obtain n where n: "sent (fst (run_loop False L ts ?s1)) = sent ?s1 + n"
        "sequence_numbers False L ts ?s1 = map (\<lambda>k. state_msgCount ?s1 + int k) [0..<n]"
        using Cons.IH [of ?s1] Cons.prems by auto
      have "[0..<Suc n] = 0 # map Suc [0..<n]" by (simp only: upt_conv_Cons zero_less_Suc map_Suc_upt)
      then show ?thesis using n s1 True False
        by (intro exI [of _ "Suc n"]) (simp add: handlePublish_loop comp_def algebra_simps del: upt_Suc)
    qed
  qed
qed simp

lemma variable_sequence:
  assumes "state_msgCount s = 0" "0 < L"
    and "\<forall>t \<in> set ts. \<not> interrupted t \<and> \<not> recovering t \<and> \<not> rate_zero t" "spaced (lastStatsTime s) ts"
  shows "sequence_numbers True L ts s = replicate (length ts) 0"
  using assms
proof (induction ts arbitrary: s)
  case (Cons t ts)
  have k: "keepGoing L t s" using Cons.prems by (simp add: keepGoing_def)
  have l: "loop_turn True t s =
      s\<lparr> state_msgCount := 0, sent := sent s + 1, lastStatsTime := turn_end t \<rparr>"
    using Cons.prems by (simp add: loop_turn_def handlePublish_def Let_def)
  have "sequence_numbers True L ts (loop_turn True t s) = replicate (length ts) 0"
    by (rule Cons.IH) (use Cons.prems(2-4) in \<open>simp_all add: l\<close>)
  then show ?case using Cons.prems(1,3) k by simp
qed simp

text \<open>
  With a constant rate the bodies read from files are sent in turn, the first message having the
  first, and over again after the last. With a rate that varies every message has the first body,
  when every turn of the loop lasts more than 1000 nanoseconds: the number it is chosen by is
  set back at each turn.
\<close>
theorem file_bodies:
  assumes "bodies \<noteq> []" "int (length ts) \<le> int_max"
  shows "map (local_file_body bodies) (sequence_numbers False L ts (new_loop start)) =
           map (\<lambda>k. Inr (bodies ! (k mod length bodies))) [0..<sent (fst (run_loop False L ts (new_loop start)))] \<and>
         (0 < L \<and> (\<forall>t \<in> set ts. \<not> interrupted t \<and> \<not> recovering t \<and> \<not> rate_zero t) \<and> spaced start ts \<longrightarrow>
           map (local_file_body bodies) (sequence_numbers True L ts (new_loop start)) =
           replicate (length ts) (Inr (bodies ! 0)))"
proof -
  have body: "local_file_body bodies (int k) = Inr (bodies ! (k mod length bodies))" for k
  proof -
    have "rem_int (int k) (int (length bodies)) = int (k mod length bodies)"
      using assms(1) rem_int_nonneg [of "int k" "int (length bodies)"] by (simp only: zmod_int) simp
    then show ?thesis using assms(1) by (simp only: local_file_body_def Let_def if_False) simp
  qed
  obtain n where "sent (fst (run_loop False L ts (new_loop start))) = n"
    "sequence_numbers False L ts (new_loop start) = map int [0..<n]"
    using fixed_sequence [of "new_loop start" ts L] assms(2) by (auto simp: new_loop_def)
  then have "map (local_file_body bodies) (sequence_numbers False L ts (new_loop start)) =
      map (\<lambda>k. Inr (bodies ! (k mod length bodies))) [0..<sent (fst (run_loop False L ts (new_loop start)))]"
    by (simp add: body)
  moreover have "map (local_file_body bodies) (sequence_numbers True L ts (new_loop start)) =
      replicate (length ts) (Inr (bodies ! 0))"
    if "0 < L" "\<forall>t \<in> set ts. \<not> interrupted t \<and> \<not> recovering t \<and> \<not> rate_zero t" "spaced start ts"
    using variable_sequence [of "new_loop start" L ts] that body [of 0] by (simp add: new_loop_def)
  ultimately show ?thesis by blast
qed

theorem file_bodies_witness:
  "map (local_file_body [''a'', ''b'']) (sequence_numbers False 0 (replicate 3 one_turn) (new_loop 0)) =
     [Inr ''a'', Inr ''b'', Inr ''a''] \<and>
   map (local_file_body [''a'', ''b'']) (sequence_numbers True 9 [one_turn, one_turn\<lparr> turn_end := 4000 \<rparr>] (new_loop 0)) =
     [Inr ''a'', Inr ''a'']"
proof -
  have "sent (fst (run_loop False 0 (replicate 3 one_turn) (new_loop 0))) = 3" by code_simp
  moreover have "map (\<lambda>k. Inr ([''a'', ''b''] ! (k mod length [''a'', ''b'']))) [0..<3] =
      [Inr ''a'', Inr ''b'', Inr ''a'' :: string jres]" by code_simp
  ultimately have "map (local_file_body [''a'', ''b'']) (sequence_numbers False 0 (replicate 3 one_turn) (new_loop 0)) =
     [Inr ''a'', Inr ''b'', Inr ''a'']"
    using file_bodies [of "[''a'', ''b'']" "replicate 3 one_turn" 0 0] by (simp add: int_max_def)
  moreover have "map (local_file_body [''a'', ''b'']) (sequence_numbers True 9 [one_turn, one_turn\<lparr> turn_end := 4000 \<rparr>] (new_loop 0)) =
     [Inr ''a'', Inr ''a'']"
    using file_bodies [of "[''a'', ''b'']" "[one_turn, one_turn\<lparr> turn_end := 4000 \<rparr>]" 9 0]
    by (simp add: int_max_def one_turn_def wrap64_def)
  ultimately show ?thesis by blast
qed

lemma next_keys_in_turn:
  assumes "keys g \<noteq> []" "0 \<le> key_count g" "key_count g \<le> int (length (keys g))" "int (length (keys g)) \<le> int_max"
  shows "next_keys n g = map (\<lambda>k. keys g ! ((nat (key_count g) + k) mod length (keys g))) [0..<n]"
  using assms
proof (induction n arbitrary: g)
  case (Suc n)
  let ?l = "length (keys g)"
  define c where "c = (if key_count g = int ?l then 0 else nat (key_count g))"
  have c: "c < ?l" "int c = (if key_count g = int ?l then 0 else key_count g)"
    using Suc.prems by (auto simp: c_def)
  have cm: "(nat (key_count g) + k) mod ?l = (c + k) mod ?l" for k
    using Suc.prems by (auto simp: c_def)
  have "wrap32 (int c + 1) = int (Suc c)" using c(1) Suc.prems(4) by (subst wrap32_id) simp_all
  moreover have "rem_int (int c) (int ?l) = int c" using c(1) Suc.prems(1) rem_int_nonneg [of "int c" "int ?l"] by simp
  ultimately have k: "next_key g = (keys g ! c, g\<lparr> key_count := int (Suc c) \<rparr>)"
    by (simp add: next_key_def Let_def c(2) [symmetric])
  have ih: "next_keys n (g\<lparr> key_count := int (Suc c) \<rparr>) = map (\<lambda>k. keys g ! ((Suc c + k) mod ?l)) [0..<n]"
    using Suc.IH [of "g\<lparr> key_count := int (Suc c) \<rparr>"] c(1) Suc.prems by (simp del: of_nat_Suc)
  have "[0..<Suc n] = 0 # map Suc [0..<n]" by (simp only: upt_conv_Cons zero_less_Suc map_Suc_upt)
  then show ?case using c(1) by (simp add: k ih cm comp_def del: upt_Suc of_nat_Suc)
qed simp

end
