(* ===== verification/Perf_Polling.thy ===== *)
theory Perf_Polling
  imports Perf_Consumer_Spec
begin

text \<open>
  The polling consumer (\<open>startBasicGetConsumer\<close> of \<open>Consumer.java\<close>): it asks its queues one after the other for
  a message, pass after pass, until it has handed over a reason to stop.
\<close>

section \<open>What an exception leaves behind\<close>

text \<open>
  The loop catches some exceptions of the handling of a message and goes on with the same consumer, so
  that what was done before the exception counts: the handling once more, with the
  consumer it leaves beside the exception.
\<close>

definition handle_within_limit_keeping ::
  "consumer_config \<Rightarrow> delivery \<Rightarrow> consumer \<Rightarrow> consumer \<times> jerr option" where
  "handle_within_limit_keeping cfg d c =
     (case delivery_latency cfg d of
        Inl e \<Rightarrow> (c, Some e)
      | Inr diff_time \<Rightarrow>
          let c1 = c\<lparr> reports_made := reports_made c @ [Recv diff_time] \<rparr> in
          if latency_passed d
          then (case ackIfNecessary cfg d (epochMessageCount c1) c1 of
                  Inl e \<Rightarrow> (c1, Some e)
                | Inr c2 \<Rightarrow> (case commitTransactionIfNecessary cfg d (epochMessageCount c2) c2 of
                    Inl e \<Rightarrow> (c2, Some e)
                  | Inr c3 \<Rightarrow> (resetStats cfg d (c3\<lparr> lastDeliveryTag := tag d \<rparr>), None)))
          else (c1, None))"

definition handleMessage_keeping ::
  "consumer_config \<Rightarrow> delivery \<Rightarrow> consumer \<Rightarrow> consumer \<times> jerr option" where
  "handleMessage_keeping cfg d c =
     (let c1 = c\<lparr> receivedMessageCount := wrap64 (receivedMessageCount c + 1),
                  epochMessageCount := wrap64 (epochMessageCount c + 1),
                  consumer_msgCount := wrap32 (consumer_msgCount c + 1),
                  lastActivityTimestamp := getCurrentTime (timestamps cfg) (nanos d) (millis d) \<rparr> in
      case (if consumer_limit cfg = 0 \<or> receivedMessageCount c1 \<le> consumer_limit cfg
            then handle_within_limit_keeping cfg d c1 else (c1, None)) of
        (c2, Some e) \<Rightarrow> (c2, Some e)
      | (c2, None) \<Rightarrow>
          (if consumer_limit cfg \<noteq> 0 \<and> consumer_limit cfg \<le> receivedMessageCount c2
           then countDown ''Consumer reached message limit'' c2 else c2, None))"

definition maybeHandleMessage_keeping ::
  "consumer_config \<Rightarrow> delivery \<Rightarrow> consumer \<Rightarrow> consumer \<times> jerr option" where
  "maybeHandleMessage_keeping cfg d c =
     (if channel_open d then handleMessage_keeping cfg d c else (c, None))"

definition forget_state :: "'s \<times> jerr option \<Rightarrow> 's jres" where
  "forget_state r = (case r of (s, None) \<Rightarrow> Inr s | (s, Some e) \<Rightarrow> Inl e)"

lemma within_limit_keeping: "handle_within_limit cfg d c = forget_state (handle_within_limit_keeping cfg d c)"
  by (simp add: handle_within_limit_def handle_within_limit_keeping_def forget_state_def bindE_def Let_def
      split: sum.splits)

lemma handling_keeping: "maybeHandleMessage cfg d c = forget_state (maybeHandleMessage_keeping cfg d c)"
  by (simp add: maybeHandleMessage_def maybeHandleMessage_keeping_def handleMessage_def handleMessage_keeping_def
      within_limit_keeping forget_state_def bindE_def Let_def split: prod.splits option.splits)

lemma handling_done: "maybeHandleMessage cfg d c = Inr c' \<Longrightarrow> maybeHandleMessage_keeping cfg d c = (c', None)"
  by (cases "maybeHandleMessage_keeping cfg d c") (auto simp: handling_keeping forget_state_def split: option.splits)

section \<open>The loop\<close>

text \<open>
  What asking one queue gives: a message, none, an \<open>IOException\<close> or a closed connection, which are logged, or
  a wait when the connection is being recovered. With a message comes whether a shutdown met in its
  handling is an \<open>AlreadyClosedException\<close>. A pass has one of these for each queue, and whether the
  thread is interrupted before it.
\<close>

datatype got = Got delivery bool | Nothing_There | Get_Failed | While_Recovering

text \<open>
  Caught in the loop: an \<open>IOException\<close>, of which the \<open>SocketException\<close> is one, after which a new channel is made
  (with each later message comes whether the channel it is handled on is open), and an
  \<open>AlreadyClosedException\<close>. Anything else ends the task of the consumer.
\<close>

definition caught_in_loop :: "bool \<Rightarrow> jerr \<Rightarrow> bool" where
  "caught_in_loop already_closed e \<longleftrightarrow>
     e = Checked_Exception ''IOException'' \<or> e = Checked_Exception ''SocketException'' \<or>
     e = Checked_Exception ''ShutdownSignalException'' \<and> already_closed"

fun poll_queues :: "consumer_config \<Rightarrow> got list \<Rightarrow> consumer \<Rightarrow> consumer jres" where
  "poll_queues cfg [] c = Inr c"
| "poll_queues cfg (g # gs) c =
     (case g of
        Got d already_closed \<Rightarrow>
          (case maybeHandleMessage_keeping cfg d c of
             (c', None) \<Rightarrow> poll_queues cfg gs c'
           | (c', Some e) \<Rightarrow> if caught_in_loop already_closed e then poll_queues cfg gs c' else Inl e)
      | _ \<Rightarrow> poll_queues cfg gs c)"

text \<open>The consumer after the passes, and whether the loop has ended by then.\<close>

fun poll_loop :: "consumer_config \<Rightarrow> (bool \<times> got list) list \<Rightarrow> consumer \<Rightarrow> (consumer \<times> bool) jres" where
  "poll_loop cfg [] c = Inr (c, False)"
| "poll_loop cfg ((was_interrupted, gs) # passes) c =
     (if completed c = None \<and> \<not> was_interrupted
      then bindE (poll_queues cfg gs c) (poll_loop cfg passes)
      else Inr (c, True))"

text \<open>\<open>run\<close> starts the count of the acknowledgements again.\<close>

definition startBasicGetConsumer ::
  "consumer_config \<Rightarrow> (bool \<times> got list) list \<Rightarrow> consumer \<Rightarrow> (consumer \<times> bool) jres" where
  "startBasicGetConsumer cfg passes c = poll_loop cfg passes (reset_epoch c)"

section \<open>Messages offered\<close>

fun messages_in :: "got list \<Rightarrow> delivery list" where
  "messages_in [] = []"
| "messages_in (Got d a # gs) = d # messages_in gs"
| "messages_in (_ # gs) = messages_in gs"

definition offered :: "(bool \<times> got list) list \<Rightarrow> delivery list" where
  "offered passes = concat (map (messages_in \<circ> snd) passes)"

lemma offered_simps [simp]:
  "offered [] = []"
  "offered (p # passes) = messages_in (snd p) @ offered passes"
  by (simp_all add: offered_def)

lemma messages_in_length: "length (messages_in gs) \<le> length gs"
  by (induction gs rule: messages_in.induct) simp_all

lemma poll_queues_consumed:
  assumes "consumed cfg ds c" "\<forall>d \<in> set (messages_in gs). smooth cfg d" "\<not> autoAck cfg"
    and "0 \<le> multiAckEvery cfg" "0 \<le> consumer_limit cfg"
    and "sorted_wrt (<) (map tag (ds @ messages_in gs))" "length ds + length (messages_in gs) < 2 ^ 63"
  shows "\<exists>c'. poll_queues cfg gs c = Inr c' \<and> consumed cfg (ds @ messages_in gs) c'"
  using assms
proof (induction gs arbitrary: ds c rule: messages_in.induct)
  case (2 d a gs)
  have "\<forall>e \<in> set ds. tag e < tag d" "smooth cfg d" using 2(3,7) by (auto simp: sorted_wrt_append)
  then obtain c1 where c1: "maybeHandleMessage cfg d c = Inr c1" "consumed cfg (ds @ [d]) c1"
    using consumed_step [OF 2(2) _ 2(4-6)] 2(8) by auto
  then show ?case using 2(1) [OF c1(2)] 2(3-8) handling_done [OF c1(1)] by simp
qed simp_all

lemma completed_iff:
  "consumed cfg ds c \<Longrightarrow> completed c \<noteq> None \<longleftrightarrow> consumer_limit cfg \<noteq> 0 \<and> consumer_limit cfg \<le> int (length ds)"
  by (simp add: consumed_def Let_def)

lemma poll_loop_consumed:
  assumes "consumed cfg ds c" "\<forall>d \<in> set (offered passes). smooth cfg d" "\<not> autoAck cfg"
    and "0 \<le> multiAckEvery cfg" "0 < consumer_limit cfg" "\<forall>p \<in> set passes. \<not> fst p \<and> length (snd p) \<le> q"
    and "sorted_wrt (<) (map tag (ds @ offered passes))" "length ds + length (offered passes) < 2 ^ 63"
    and "int (length ds) < consumer_limit cfg + int q"
  shows "\<exists>c' ended n. poll_loop cfg passes c = Inr (c', ended) \<and> n \<le> length (offered passes) \<and>
           consumed cfg (ds @ take n (offered passes)) c' \<and>
           (n = length (offered passes) \<or> completed c' \<noteq> None) \<and>
           int (length ds + n) < consumer_limit cfg + int q"
  using assms
proof (induction passes arbitrary: ds c)
  case (Cons p passes)
  obtain gs where p: "p = (False, gs)" using Cons.prems(6) by (cases p) auto
  let ?ms = "messages_in gs"
  show ?case
  proof (cases "completed c = None")
    case False
    show ?thesis
      using False Cons.prems(1,9) by (intro exI [of _ c] exI [of _ True] exI [of _ 0]) (auto simp: p)
  next
    case True
    then have below: "int (length ds) < consumer_limit cfg"
      using completed_iff [OF Cons.prems(1)] Cons.prems(5) by auto
    obtain c1 where c1: "poll_queues cfg gs c = Inr c1" "consumed cfg (ds @ ?ms) c1"
      using poll_queues_consumed [OF Cons.prems(1), of gs] Cons.prems(2-8) by (auto simp: p sorted_wrt_append)
    have q: "length ?ms \<le> q" using messages_in_length [of gs] Cons.prems(6) by (simp add: p)
    have "\<exists>c' ended n. poll_loop cfg passes c1 = Inr (c', ended) \<and> n \<le> length (offered passes) \<and>
           consumed cfg ((ds @ ?ms) @ take n (offered passes)) c' \<and>
           (n = length (offered passes) \<or> completed c' \<noteq> None) \<and>
           int (length (ds @ ?ms) + n) < consumer_limit cfg + int q"
      by (rule Cons.IH [OF c1(2)]) (use Cons.prems below q in \<open>auto simp: p\<close>)
    then obtain c' ended n where r: "poll_loop cfg passes c1 = Inr (c', ended)" "n \<le> length (offered passes)"
      "consumed cfg ((ds @ ?ms) @ take n (offered passes)) c'" "n = length (offered passes) \<or> completed c' \<noteq> None"
      "int (length (ds @ ?ms) + n) < consumer_limit cfg + int q" by blast
    show ?thesis
      using r True c1(1) by (intro exI [of _ c'] exI [of _ ended] exI [of _ "length ?ms + n"]) (auto simp: p)
  qed
qed (simp add: exI [of _ False])

text \<open>
  C31: a polling consumer with a limit reports exactly the first messages it gets up to its limit, and
  hands over its reason exactly when it is offered that many; it asks on only to the end of
  the pass, so it takes fewer messages above the limit than it has queues. (These are
  received and neither reported nor acknowledged.)
\<close>
theorem polled_within_limit:
  assumes "\<forall>d \<in> set (offered passes). smooth cfg d" "\<not> autoAck cfg" "0 \<le> multiAckEvery cfg"
    and "0 < consumer_limit cfg" "\<forall>p \<in> set passes. \<not> fst p \<and> length (snd p) \<le> q"
    and "sorted_wrt (<) (map tag (offered passes))" "length (offered passes) < 2 ^ 63"
  shows "\<exists>c ended. startBasicGetConsumer cfg passes (new_consumer now) = Inr (c, ended) \<and>
           reports_made c = map (\<lambda>d. Recv (latency_in cfg d)) (take (nat (consumer_limit cfg)) (offered passes)) \<and>
           (completed c \<noteq> None \<longleftrightarrow> consumer_limit cfg \<le> int (length (offered passes))) \<and>
           receivedMessageCount c < consumer_limit cfg + int q"
proof -
  have new: "reset_epoch (new_consumer now) = new_consumer now" by (simp add: reset_epoch_def new_consumer_def)
  have start: "consumed cfg [] (new_consumer now)" using consumed_new assms(4) by simp
  obtain c ended n where r: "poll_loop cfg passes (new_consumer now) = Inr (c, ended)" "n \<le> length (offered passes)"
    "consumed cfg (take n (offered passes)) c" "n = length (offered passes) \<or> completed c \<noteq> None"
    "int n < consumer_limit cfg + int q"
    using poll_loop_consumed [OF start assms(1-5)] assms(4,6,7) by auto
  let ?L = "nat (consumer_limit cfg)"
  have c: "completed c \<noteq> None \<longleftrightarrow> consumer_limit cfg \<le> int n"
    using completed_iff [OF r(3)] assms(4) r(2) by auto
  have "take (min ?L n) (take n (offered passes)) = take ?L (offered passes)"
    using r(2,4) c by (auto simp: min_def)
  moreover have "reports_made c = map (\<lambda>d. Recv (latency_in cfg d)) (take (min ?L n) (take n (offered passes)))"
    "receivedMessageCount c = int n"
    using r(2,3) assms(4) by (simp_all add: consumed_def counted_def Let_def min_def)
  moreover have "completed c \<noteq> None \<longleftrightarrow> consumer_limit cfg \<le> int (length (offered passes))"
    using c r(2,4) by auto
  ultimately show ?thesis
    using r(1,5) by (intro exI [of _ c] exI [of _ ended]) (simp add: startBasicGetConsumer_def new)
qed

definition polled :: "int \<Rightarrow> delivery" where
  "polled k = \<lparr> tag = k, header = No_Headers, body = [], nanos = k, millis = 0, clock = 0, channel_open = True,
     latency_passed = True, ack_outcome = Write_Ok, commit_outcome = Write_Ok \<rparr>"

definition polling_config :: consumer_config where
  "polling_config = \<lparr> timestamps = \<lparr> useMillis = False, isTimestampInHeader = False \<rparr>, autoAck = False,
     multiAckEvery = 0, nackMessages = False, requeue = True, consumer_limit = 3, txSize = 0,
     rateLimitation = False, recoveryEnabled = True \<rparr>"

theorem polled_within_limit_witness:
  "\<exists>c ended. startBasicGetConsumer polling_config
       [(False, [Got (polled 1) False, Nothing_There]), (False, [Got (polled 2) False, Got (polled 3) True]), (False, [Got (polled 4) False])]
       (new_consumer 0) = Inr (c, ended) \<and>
     length (reports_made c) = 3 \<and> completed c \<noteq> None \<and> receivedMessageCount c < 5"
proof -
  let ?passes = "[(False, [Got (polled 1) False, Nothing_There]), (False, [Got (polled 2) False, Got (polled 3) True]), (False, [Got (polled 4) False])]"
  have "\<exists>c ended. startBasicGetConsumer polling_config ?passes (new_consumer 0) = Inr (c, ended) \<and>
           reports_made c = map (\<lambda>d. Recv (latency_in polling_config d)) (take (nat (consumer_limit polling_config)) (offered ?passes)) \<and>
           (completed c \<noteq> None \<longleftrightarrow> consumer_limit polling_config \<le> int (length (offered ?passes))) \<and>
           receivedMessageCount c < consumer_limit polling_config + int 2"
    by (rule polled_within_limit) (simp_all add: polled_def polling_config_def smooth_def timestamp_readable_def)
  then show ?thesis by (auto simp: polling_config_def)
qed

end
