(* ===== verification/Perf_Set.thy ===== *)
theory Perf_Set
  imports Perf_Completion
begin

text \<open>
  What \<open>MulticastSet.java\<close> does before a run: it waits for the servers, opens the connections, gives each
  consumer its pool of threads, makes the producers and the consumers, and decides how the
  producers are started. The client library is a parameter: how a URI is read, which
  connections it opens, and how a list of addresses is shuffled; and so are the configuration of
  the queues on its connections (\<open>Perf_Queues\<close> has it) and the setting up of an agent.
\<close>

section \<open>Parameters\<close>

record set_params = load_params +
  polling :: bool
  consumersThreadPools :: int
  producerSchedulerThreadCount :: int
  serversStartUpTimeout :: int
  serversUpLimit :: int

record 'c client_library =
  address_of :: "string \<Rightarrow> string option"
  newConnection :: "string list \<Rightarrow> string \<Rightarrow> 'c jres"
  shuffled :: "string \<Rightarrow> string list \<Rightarrow> string list"
  configure_queues :: "'c list \<Rightarrow> unit jres"
  setup_consumer :: "int \<Rightarrow> 'c \<Rightarrow> unit jres"
  setup_producer :: "int \<Rightarrow> 'c \<Rightarrow> unit jres"

section \<open>Waiting for the servers\<close>

text \<open>
  What a test of a server gives in a pass: no connection; one that is opened and closed; or one that is
  opened and whose closing throws, which is caught after what the block did. Equal URIs have equal
  answers in a pass.
\<close>

datatype server_test = Refuses | Connects | Close_Fails

text \<open>
  One pass over the URIs still to be tested: the URIs left, those that have connected so far, the URIs of
  the run, and whether it returns. When the number of connected servers meets the limit the URIs of the run
  are replaced and the block returns before its URI is removed; a closing that throws then takes
  the return back.
\<close>

fun try_servers ::
  "(string \<Rightarrow> server_test) \<Rightarrow> int \<Rightarrow> string list \<Rightarrow> string list \<Rightarrow> string list \<Rightarrow> string list \<Rightarrow>
   string list \<times> string list \<times> string list \<times> bool" where
  "try_servers test limit [] kept found uris = (kept, found, uris, False)"
| "try_servers test limit (uri # tested) kept found uris =
     (if test uri = Refuses then try_servers test limit tested (kept @ [uri]) found uris
      else (let found1 = found @ [uri] in
            if int (length found1) = limit
            then (if test uri = Connects then (kept @ uri # tested, found1, found1, True)
                  else try_servers test limit tested (kept @ [uri]) found1 found1)
            else try_servers test limit tested kept found1 uris))"

text \<open>
  The loop, given for each of its tests of the clock the nanoseconds since the start and the answers of the
  servers in the pass after it: whether the run may start, with the URIs of the run then.
  Nothing, when it still waits after the passes given.
\<close>

fun wait_for_servers ::
  "int \<Rightarrow> int \<Rightarrow> (int \<times> (string \<Rightarrow> server_test)) list \<Rightarrow> string list \<Rightarrow> string list \<Rightarrow> string list \<Rightarrow>
   (bool \<times> string list) option" where
  "wait_for_servers timeout limit [] uris tested found = None"
| "wait_for_servers timeout limit ((elapsed, test) # passes) uris tested found =
     (if quot elapsed 1000000000 < timeout
      then (case try_servers test limit tested [] found uris of
              (tested1, found1, uris1, met) \<Rightarrow>
                if met then Some (True, uris1)
                else wait_for_servers timeout limit passes uris1 tested1 found1)
      else Some (False, uris))"

definition waitUntilBrokerAvailableIfNecessary ::
  "int \<Rightarrow> int \<Rightarrow> string list \<Rightarrow> (int \<times> (string \<Rightarrow> server_test)) list \<Rightarrow> (bool \<times> string list) option" where
  "waitUntilBrokerAvailableIfNecessary timeout limit uris passes =
     (if timeout \<le> 0 \<or> uris = [] then Some (True, uris)
      else wait_for_servers timeout limit passes uris uris [])"

text \<open>The limit \<open>run\<close> hands over.\<close>

definition servers_limit :: "set_params \<Rightarrow> string list \<Rightarrow> int" where
  "servers_limit p uris = (if serversUpLimit p = - 1 then int (length uris) else serversUpLimit p)"

section \<open>Connections\<close>

datatype connection_allocation = RANDOM | ROUND_ROBIN

record creator =
  addresses :: "string list"
  connectionAllocation :: connection_allocation
  allocationCount :: int

definition new_creator :: "'c client_library \<Rightarrow> string list \<Rightarrow> connection_allocation \<Rightarrow> creator jres" where
  "new_creator lib uris allocation =
     bindE (mapE (\<lambda>uri. case address_of lib uri of
                          None \<Rightarrow> Inl (Runtime_Exception (''Could not parse URI: '' @ uri))
                        | Some address \<Rightarrow> Inr address) uris)
       (\<lambda>as. Inr \<lparr> addresses = as, connectionAllocation = allocation, allocationCount = 0 \<rparr>)"

text \<open>The addresses one connection is given.\<close>

definition allocate :: "'c client_library \<Rightarrow> string \<Rightarrow> creator \<Rightarrow> (string list \<times> creator) jres" where
  "allocate lib name cr =
     (case connectionAllocation cr of
        RANDOM \<Rightarrow>
          Inr (if 1 < length (addresses cr) then shuffled lib name (addresses cr) else addresses cr, cr)
      | ROUND_ROBIN \<Rightarrow>
          (let i = rem_int (allocationCount cr) (int (length (addresses cr))) in
           if i < 0 then Inl Index_Out_Of_Bounds
           else Inr ([addresses cr ! nat i],
                     cr\<lparr> allocationCount := wrap32 (allocationCount cr + 1) \<rparr>)))"

definition createConnection :: "'c client_library \<Rightarrow> string \<Rightarrow> creator \<Rightarrow> ('c \<times> creator) jres" where
  "createConnection lib name cr =
     (if addresses cr = []
      then bindE (newConnection lib [] name) (\<lambda>c. Inr (c, cr))
      else bindE (allocate lib name cr) (\<lambda>(as, cr1).
             bindE (newConnection lib as name) (\<lambda>c. Inr (c, cr1))))"

definition configuration_name :: "int \<Rightarrow> string" where
  "configuration_name i = ''perf-test-configuration-'' @ int_text i"

definition createConfigurationConnections :: "'c client_library \<Rightarrow> creator \<Rightarrow> 'c list jres" where
  "createConfigurationConnections lib cr =
     (if addresses cr = []
      then bindE (createConnection lib (configuration_name 0) cr) (\<lambda>(c, cr1). Inr [c])
      else mapE (\<lambda>i. newConnection lib [addresses cr ! i] (configuration_name (int i)))
             [0..<length (addresses cr)])"

section \<open>Threads of the consumers\<close>

text \<open>The executors made so far, by name and number of threads, and those that are shared.\<close>

record pools =
  executors :: "(string \<times> int) list"
  shared :: "nat option list"

definition executorService :: "string \<Rightarrow> int \<Rightarrow> pools \<Rightarrow> nat \<times> pools" where
  "executorService name nbThreads ps =
     (length (executors ps), ps\<lparr> executors := executors ps @ [(name, nbThreads)] \<rparr>)"

definition nbThreadsForConsumer :: "int \<Rightarrow> 'z load_params_scheme \<Rightarrow> int" where
  "nbThreadsForConsumer processors p = min (consumerChannelCount p) (wrap32 (processors * 2))"

datatype executors_factory = Polling_Executors | Cached_Executors int | Own_Executors

definition createConsumersExecutorsFactory :: "set_params \<Rightarrow> executors_factory" where
  "createConsumersExecutorsFactory p =
     (if polling p then Polling_Executors
      else if 0 < consumersThreadPools p then Cached_Executors (consumersThreadPools p)
      else Own_Executors)"

definition new_pools :: "executors_factory \<Rightarrow> pools" where
  "new_pools f =
     \<lparr> executors = [], shared = (case f of Cached_Executors poolCount \<Rightarrow> replicate (nat poolCount) None | _ \<Rightarrow> []) \<rparr>"

definition consumer_pool ::
  "int \<Rightarrow> set_params \<Rightarrow> executors_factory \<Rightarrow> int \<Rightarrow> pools \<Rightarrow> nat \<times> pools" where
  "consumer_pool processors p f consumerNumber ps =
     (case f of
        Polling_Executors \<Rightarrow>
          executorService (''perf-test-synchronous-consumer-'' @ int_text consumerNumber @ ''-worker-'')
            (wrap32 (consumerChannelCount p + 1)) ps
      | Own_Executors \<Rightarrow>
          executorService (''perf-test-consumer-'' @ int_text consumerNumber @ ''-worker-'')
            (nbThreadsForConsumer processors p) ps
      | Cached_Executors poolCount \<Rightarrow>
          (let remaining = rem_int consumerNumber poolCount in
           case shared ps ! nat remaining of
             Some e \<Rightarrow> (e, ps)
           | None \<Rightarrow>
               (case executorService (''perf-test-shared-consumer-worker-'' @ int_text remaining @ ''-'')
                       (nbThreadsForConsumer processors p) ps of
                  (e, ps1) \<Rightarrow> (e, ps1\<lparr> shared := (shared ps1)[nat remaining := Some e] \<rparr>))))"

section \<open>Agents\<close>

text \<open>
  An agent: its number, its connection and, for a consumer, its executor. They are kept in an array,
  one after the other for each connection.
\<close>

record 'c agent =
  agent_id :: int
  agent_connection :: 'c
  agent_executor :: "nat option"

record 'c agents =
  agent_array :: "'c agent option list"
  agent_connections :: "'c list"
  agent_index :: int

definition new_agents :: "int \<Rightarrow> 'c agents jres" where
  "new_agents n =
     (if n < 0 then Inl (Runtime_Exception ''NegativeArraySizeException'')
      else Inr \<lparr> agent_array = replicate (nat n) None, agent_connections = [], agent_index = 0 \<rparr>)"

definition place :: "int \<Rightarrow> 'c agent \<Rightarrow> 'c agents \<Rightarrow> 'c agents jres" where
  "place k a st =
     (if 0 \<le> k \<and> k < int (length (agent_array st))
      then Inr (st\<lparr> agent_array := (agent_array st)[nat k := Some a] \<rparr>)
      else Inl Index_Out_Of_Bounds)"

text \<open>The loop over the channels \<open>js\<close> of connection \<open>i\<close>.\<close>

fun create_channels ::
  "(int \<Rightarrow> 'c \<Rightarrow> unit jres) \<Rightarrow> int \<Rightarrow> int \<Rightarrow> 'c \<Rightarrow> nat option \<Rightarrow> nat list \<Rightarrow> 'c agents \<Rightarrow> 'c agents jres" where
  "create_channels setup channelCount i c e [] st = Inr st"
| "create_channels setup channelCount i c e (j # js) st =
     bindE (setup (agent_index st) c) (\<lambda>_.
       bindE (place (wrap32 (wrap32 (i * channelCount) + int j))
                \<lparr> agent_id = agent_index st, agent_connection = c, agent_executor = e \<rparr>
                (st\<lparr> agent_index := wrap32 (agent_index st + 1) \<rparr>))
         (create_channels setup channelCount i c e js))"

definition consumer_name :: "int \<Rightarrow> string" where
  "consumer_name i = ''perf-test-consumer-'' @ int_text i"

definition producer_name :: "int \<Rightarrow> string" where
  "producer_name i = ''perf-test-producer-'' @ int_text i"

fun create_consumers ::
  "'c client_library \<Rightarrow> int \<Rightarrow> set_params \<Rightarrow> nat list \<Rightarrow> 'c agents \<times> creator \<times> pools \<Rightarrow>
   ('c agents \<times> creator \<times> pools) jres" where
  "create_consumers lib processors p [] st = Inr st"
| "create_consumers lib processors p (i # is) (st, cr, ps) =
     (case consumer_pool processors p (createConsumersExecutorsFactory p) (int i) ps of
        (e, ps1) \<Rightarrow>
          bindE (createConnection lib (consumer_name (int i)) cr) (\<lambda>(c, cr1).
            bindE (create_channels (setup_consumer lib) (consumerChannelCount p) (int i) c (Some e)
                     [0..<nat (consumerChannelCount p)]
                     (st\<lparr> agent_connections := agent_connections st @ [c] \<rparr>)) (\<lambda>st1.
              create_consumers lib processors p is (st1, cr1, ps1))))"

fun create_producers ::
  "'c client_library \<Rightarrow> set_params \<Rightarrow> nat list \<Rightarrow> 'c agents \<times> creator \<Rightarrow> ('c agents \<times> creator) jres" where
  "create_producers lib p [] st = Inr st"
| "create_producers lib p (i # is) (st, cr) =
     bindE (createConnection lib (producer_name (int i)) cr) (\<lambda>(c, cr1).
       bindE (create_channels (setup_producer lib) (producerChannelCount p) (int i) c None
                [0..<nat (producerChannelCount p)]
                (st\<lparr> agent_connections := agent_connections st @ [c] \<rparr>)) (\<lambda>st1.
         create_producers lib p is (st1, cr1)))"

definition createConsumers ::
  "'c client_library \<Rightarrow> int \<Rightarrow> set_params \<Rightarrow> creator \<Rightarrow> ('c agents \<times> creator \<times> pools) jres" where
  "createConsumers lib processors p cr =
     bindE (new_agents (getConsumerThreadCount p)) (\<lambda>st.
       create_consumers lib processors p [0..<nat (consumerCount p)]
         (st, cr, new_pools (createConsumersExecutorsFactory p)))"

definition createProducers :: "'c client_library \<Rightarrow> set_params \<Rightarrow> creator \<Rightarrow> ('c agents \<times> creator) jres" where
  "createProducers lib p cr =
     bindE (new_agents (getProducerThreadCount p)) (\<lambda>st.
       create_producers lib p [0..<nat (producerCount p)] (st, cr))"

section \<open>The start of the producers\<close>

fun to_long :: "dbl \<Rightarrow> int" where
  "to_long NaN = 0"
| "to_long PInf = long_max"
| "to_long NInf = long_min"
| "to_long (Fin q) = max long_min (min long_max (trunc q))"

definition rateToPublishingInterval :: "dbl \<Rightarrow> int" where
  "rateToPublishingInterval r = to_long (dbl_quot (Fin 1) r * Fin 1000)"

definition nbThreadsForProducerScheduledExecutorService :: "set_params \<Rightarrow> int option \<Rightarrow> int" where
  "nbThreadsForProducerScheduledExecutorService p publishingInterval =
     (if producerSchedulerThreadCount p \<le> 0
      then (let ms = (case publishingInterval of None \<Rightarrow> 1000 | Some d \<Rightarrow> d);
                r = dbl_quot (of_long (getProducerThreadCount p)) (dbl_quot (of_long ms) (Fin 1000))
            in wrap32 (to_int (dbl_quot r (Fin 100)) + 1))
      else producerSchedulerThreadCount p)"

text \<open>
  The producers run by a scheduler every so many milliseconds, on so many threads; or they are made and
  never started; or each runs on a thread of its own.
\<close>

datatype producers_start =
    Scheduled_Every int int
  | Created_Only
  | On_Threads int

definition startProducers :: "set_params \<Rightarrow> bool \<Rightarrow> dbl \<Rightarrow> int option \<Rightarrow> producers_start" where
  "startProducers p isVariable r publishingInterval =
     (let interval = (if \<not> isVariable \<and> Fin 1 \<le> r \<and> r \<le> Fin 10
                      then Some (rateToPublishingInterval r) else publishingInterval) in
      case interval of
        Some ms \<Rightarrow> Scheduled_Every ms (nbThreadsForProducerScheduledExecutorService p (Some ms))
      | None \<Rightarrow>
          if \<not> isVariable \<and> r = Fin 0 then Created_Only
          else On_Threads (getProducerThreadCount p))"

section \<open>The run, up to its start\<close>

text \<open>
  The constructor reads the URIs; \<open>run\<close> then waits for the servers and keeps those that are up, opens the
  connections for the configuration of the queues, configures these, and makes the consumers and the
  producers.
  Nothing, when no server could be reached in time; no answer, when it still waits.
\<close>

record 'c set_ready =
  kept_uris :: "string list"
  configuration_connections :: "'c list"
  consumers_made :: "'c agents"
  producers_made :: "'c agents"

definition set_run ::
  "'c client_library \<Rightarrow> int \<Rightarrow> set_params \<Rightarrow> connection_allocation \<Rightarrow> string list \<Rightarrow>
   (int \<times> (string \<Rightarrow> server_test)) list \<Rightarrow> 'c set_ready option jres option" where
  "set_run lib processors p allocation uris passes =
     (case new_creator lib uris allocation of
        Inl err \<Rightarrow> Some (Inl err)
      | Inr cr \<Rightarrow>
          (case waitUntilBrokerAvailableIfNecessary (serversStartUpTimeout p) (servers_limit p uris) uris passes of
             None \<Rightarrow> None
           | Some (False, kept) \<Rightarrow> Some (Inr None)
           | Some (True, kept) \<Rightarrow>
               Some (bindE (createConfigurationConnections lib cr) (\<lambda>conf.
                 bindE (configure_queues lib conf) (\<lambda>_.
                   bindE (createConsumers lib processors p cr) (\<lambda>(cs, cr1, ps).
                     bindE (createProducers lib p cr1) (\<lambda>(prs, cr2).
                       Inr (Some \<lparr> kept_uris = kept, configuration_connections = conf,
                                   consumers_made = cs, producers_made = prs \<rparr>))))))))"

end
