(* ===== verification/Perf_Set_Spec.thy ===== *)
theory Perf_Set_Spec
  imports Perf_Set Perf_Completion_Spec
begin

text \<open>
  What is made before a run: the servers that are waited for, the agents in their array with their
  connections and pools of threads, the spread of the connections over the servers.
\<close>

section \<open>Agents in their array\<close>

lemma create_channels_array:
  assumes "create_channels setup (int ch) (int i) c e [j..<ch] st = Inr st'" "j \<le> ch"
    and "agent_index st = int (i * ch + j)" "(i + 1) * ch \<le> length (agent_array st)"
    and "int (length (agent_array st)) \<le> int_max"
  shows "agent_connections st' = agent_connections st \<and> agent_index st' = int ((i + 1) * ch) \<and>
         length (agent_array st') = length (agent_array st) \<and>
         (\<forall>k < length (agent_array st). agent_array st' ! k =
            (if i * ch + j \<le> k \<and> k < (i + 1) * ch
             then Some \<lparr> agent_id = int k, agent_connection = c, agent_executor = e \<rparr> else agent_array st ! k))"
  using assms
proof (induction "ch - j" arbitrary: j st)
  case 0
  then show ?case by auto
next
  case (Suc d)
  let ?k = "i * ch + j"
  have j: "j < ch" "[j..<ch] = j # [Suc j..<ch]" using Suc.hyps(2) by (simp_all add: upt_conv_Cons)
  then have k: "?k < length (agent_array st)" using Suc.prems(4) by simp
  then have kn: "int ?k < int_max" using Suc.prems(5) by linarith
  have "int i * int ch \<le> int ?k" by simp
  then have w1: "wrap32 (int i * int ch) = int i * int ch" using kn by (intro wrap32_id) simp_all
  have w2: "wrap32 (int i * int ch + int j) = int ?k" using kn by (subst wrap32_id) simp_all
  have w3: "wrap32 (int ?k + 1) = int (i * ch + Suc j)" using kn by (subst wrap32_id) simp_all
  let ?a = "\<lparr> agent_id = int ?k, agent_connection = c, agent_executor = e \<rparr>"
  let ?st1 = "st\<lparr> agent_index := int (i * ch + Suc j), agent_array := (agent_array st)[?k := Some ?a] \<rparr>"
  have "create_channels setup (int ch) (int i) c e [Suc j..<ch] ?st1 = Inr st'"
    using Suc.prems(1,3) k unfolding j(2)
    by (auto simp: bindE_Inr_iff w1 w2 w3 place_def simp del: of_nat_add of_nat_mult of_nat_Suc split: if_splits)
  then have ih: "agent_connections st' = agent_connections ?st1 \<and> agent_index st' = int ((i + 1) * ch) \<and>
         length (agent_array st') = length (agent_array ?st1) \<and>
         (\<forall>k < length (agent_array ?st1). agent_array st' ! k =
            (if i * ch + Suc j \<le> k \<and> k < (i + 1) * ch
             then Some \<lparr> agent_id = int k, agent_connection = c, agent_executor = e \<rparr> else agent_array ?st1 ! k))"
    using Suc.prems(4,5) j(1) Suc.hyps(2) by (intro Suc.hyps(1)) simp_all
  have "agent_array st' ! q = (if ?k \<le> q \<and> q < (i + 1) * ch
      then Some \<lparr> agent_id = int q, agent_connection = c, agent_executor = e \<rparr> else agent_array st ! q)"
    if "q < length (agent_array st)" for q
    using ih that j(1) by (cases "q = ?k") simp_all
  then show ?case using ih by simp
qed

text \<open>The agents of the first \<open>i\<close> connections are in place.\<close>

definition laid_out :: "nat \<Rightarrow> (nat \<Rightarrow> nat option) \<Rightarrow> nat \<Rightarrow> nat \<Rightarrow> 'c agents \<Rightarrow> bool" where
  "laid_out ch ex n i st \<longleftrightarrow>
     length (agent_array st) = n * ch \<and> length (agent_connections st) = i \<and> agent_index st = int (i * ch) \<and>
     (\<forall>k < i * ch. agent_array st ! k =
        Some \<lparr> agent_id = int k, agent_connection = agent_connections st ! (k div ch),
               agent_executor = ex (k div ch) \<rparr>)"

lemma laid_out_step:
  assumes "laid_out ch ex n i st" "i < n" "int (n * ch) \<le> int_max"
    and "create_channels setup (int ch) (int i) c (ex i) [0..<ch]
           (st\<lparr> agent_connections := agent_connections st @ [c] \<rparr>) = Inr st'"
  shows "laid_out ch ex n (Suc i) st' \<and> agent_connections st' = agent_connections st @ [c]"
proof -
  let ?st = "st\<lparr> agent_connections := agent_connections st @ [c] \<rparr>"
  note l = assms(1) [unfolded laid_out_def]
  have le: "(i + 1) * ch \<le> n * ch" using assms(2) by (intro mult_right_mono) simp_all
  have r: "agent_connections st' = agent_connections ?st \<and> agent_index st' = int ((i + 1) * ch) \<and>
         length (agent_array st') = length (agent_array ?st) \<and>
         (\<forall>k < length (agent_array ?st). agent_array st' ! k =
            (if i * ch + 0 \<le> k \<and> k < (i + 1) * ch
             then Some \<lparr> agent_id = int k, agent_connection = c, agent_executor = ex i \<rparr>
             else agent_array ?st ! k))"
    by (rule create_channels_array [OF assms(4)]) (use l le assms(3) in simp_all)
  have "agent_array st' ! k = Some \<lparr> agent_id = int k, agent_connection = agent_connections st' ! (k div ch),
      agent_executor = ex (k div ch) \<rparr>" if k: "k < Suc i * ch" for k
  proof (cases "k < i * ch")
    case True
    then have "k div ch < i" by (metis less_mult_imp_div_less mult.commute)
    then show ?thesis using True l r k le by (simp add: nth_append)
  next
    case False
    then have d: "k div ch = i" using k by (intro div_nat_eqI) (simp_all add: mult.commute)
    have "k < n * ch" using k le by simp
    then have "agent_array st' ! k = Some \<lparr> agent_id = int k, agent_connection = c, agent_executor = ex i \<rparr>"
      using r l k False by simp
    then show ?thesis using r l by (simp add: d nth_append)
  qed
  then show ?thesis using l r by (simp add: laid_out_def)
qed

section \<open>Pools of threads\<close>

text \<open>
  The number of the pool of a consumer: with shared pools the consumers take them in turn, else each
  has its own.
\<close>

definition pool_number :: "executors_factory \<Rightarrow> nat \<Rightarrow> nat" where
  "pool_number f i = (case f of Cached_Executors poolCount \<Rightarrow> i mod nat poolCount | _ \<Rightarrow> i)"

definition pools_after :: "executors_factory \<Rightarrow> nat \<Rightarrow> pools \<Rightarrow> bool" where
  "pools_after f i ps \<longleftrightarrow>
     (case f of
        Cached_Executors poolCount \<Rightarrow>
          length (executors ps) = min i (nat poolCount) \<and> length (shared ps) = nat poolCount \<and>
          (\<forall>q < nat poolCount. shared ps ! q = (if q < i then Some q else None))
      | _ \<Rightarrow> length (executors ps) = i)"

fun positive_pools :: "executors_factory \<Rightarrow> bool" where
  "positive_pools (Cached_Executors poolCount) = (0 < poolCount)"
| "positive_pools _ = True"

lemma positive_factory: "positive_pools (createConsumersExecutorsFactory p)"
  by (simp add: createConsumersExecutorsFactory_def)

lemma new_pools_after: "pools_after f 0 (new_pools f)"
  by (cases f) (simp_all add: pools_after_def new_pools_def)

lemma consumer_pool_step:
  assumes "pools_after f i ps" "positive_pools f" "consumer_pool processors p f (int i) ps = (e, ps')"
  shows "e = pool_number f i \<and> pools_after f (Suc i) ps'"
proof (cases f)
  case (Cached_Executors m)
  let ?m = "nat m"
  have m: "0 < ?m" "rem_int (int i) m = int (i mod ?m)"
    using assms(2) Cached_Executors by (simp_all add: rem_int_nonneg zmod_int)
  note a = assms(1) [unfolded pools_after_def Cached_Executors executors_factory.case]
  show ?thesis
  proof (cases "i < ?m")
    case True
    then have "i mod ?m = i" "shared ps ! i = None" using a by simp_all
    then show ?thesis
      using assms(3) a m True unfolding Cached_Executors
      by (auto simp: consumer_pool_def Let_def executorService_def pool_number_def pools_after_def nth_list_update)
  next
    case False
    then have q: "i mod ?m < i" using m(1) mod_less_divisor [of ?m i] by linarith
    then have "shared ps ! (i mod ?m) = Some (i mod ?m)" using a m(1) by simp
    then show ?thesis
      using assms(3) a m False unfolding Cached_Executors
      by (auto simp: consumer_pool_def Let_def pool_number_def pools_after_def)
  qed
qed (use assms in \<open>auto simp: pools_after_def consumer_pool_def executorService_def pool_number_def\<close>)

lemma create_consumers_laid_out:
  assumes "create_consumers lib processors p [i..<n] (st, cr, ps) = Inr (st', cr', ps')" "i \<le> n"
    and "consumerChannelCount p = int ch" "int (n * ch) \<le> int_max" "f = createConsumersExecutorsFactory p"
    and "laid_out ch (\<lambda>i. Some (pool_number f i)) n i st" "pools_after f i ps"
  shows "laid_out ch (\<lambda>i. Some (pool_number f i)) n n st' \<and> pools_after f n ps'"
  using assms
proof (induction "n - i" arbitrary: i st cr ps)
  case (Suc d)
  have i: "i < n" "[i..<n] = i # [Suc i..<n]" using Suc.hyps(2) by (simp_all add: upt_conv_Cons)
  obtain e ps1 where e: "consumer_pool processors p f (int i) ps = (e, ps1)" by force
  have pool: "e = pool_number f i" "pools_after f (Suc i) ps1"
    using consumer_pool_step [OF Suc.prems(7) _ e] positive_factory Suc.prems(5) by simp_all
  obtain c cr1 st1 where c: "create_channels (setup_consumer lib) (int ch) (int i) c (Some e) [0..<ch]
      (st\<lparr> agent_connections := agent_connections st @ [c] \<rparr>) = Inr st1"
    "create_consumers lib processors p [Suc i..<n] (st1, cr1, ps1) = Inr (st', cr', ps')"
    using Suc.prems(1,3,5) e unfolding i(2) by (auto simp: bindE_Inr_iff)
  have l: "laid_out ch (\<lambda>i. Some (pool_number f i)) n (Suc i) st1"
    using laid_out_step [OF Suc.prems(6) i(1) Suc.prems(4)] c(1) pool(1) by blast
  show ?case
    by (rule Suc.hyps(1) [OF _ c(2) _ Suc.prems(3,4,5) l pool(2)]) (use Suc.hyps(2) i(1) in simp_all)
qed simp

section \<open>Connections in turn\<close>

definition at_turn :: "string list \<Rightarrow> nat \<Rightarrow> creator \<Rightarrow> bool" where
  "at_turn as k cr \<longleftrightarrow>
     addresses cr = as \<and> as \<noteq> [] \<and> connectionAllocation cr = ROUND_ROBIN \<and> allocationCount cr = int k"

text \<open>The connections \<open>cs\<close> are opened to the addresses in turn, from the address of turn \<open>k\<close> on.\<close>

definition in_turn :: "'c client_library \<Rightarrow> (int \<Rightarrow> string) \<Rightarrow> string list \<Rightarrow> nat \<Rightarrow> nat \<Rightarrow> 'c list \<Rightarrow> bool" where
  "in_turn lib nm as k i cs \<longleftrightarrow>
     (\<forall>j < length cs. newConnection lib [as ! ((k + j) mod length as)] (nm (int (i + j))) = Inr (cs ! j))"

lemma in_turn_Nil [simp]: "in_turn lib nm as k i []"
  by (simp add: in_turn_def)

lemma in_turn_Cons:
  "newConnection lib [as ! (k mod length as)] (nm (int i)) = Inr c \<Longrightarrow> in_turn lib nm as (Suc k) (Suc i) cs \<Longrightarrow>
   in_turn lib nm as k i (c # cs)"
  by (auto simp: in_turn_def less_Suc_eq_0_disj ac_simps)

lemma connection_in_turn:
  assumes "at_turn as k cr" "int k < int_max" "createConnection lib name cr = Inr (c, cr1)"
  shows "newConnection lib [as ! (k mod length as)] name = Inr c \<and> at_turn as (Suc k) cr1"
proof -
  have "rem_int (int k) (int (length as)) = int (k mod length as)"
    using assms(1) by (simp add: at_turn_def rem_int_nonneg zmod_int)
  moreover have "wrap32 (int k + 1) = int (Suc k)" using assms(2) by (subst wrap32_id) simp_all
  ultimately show ?thesis
    using assms(1,3) by (auto simp: at_turn_def createConnection_def allocate_def Let_def bindE_Inr_iff)
qed

lemma create_channels_connections:
  "create_channels setup ch i c e js st = Inr st' \<Longrightarrow> agent_connections st' = agent_connections st"
proof (induction js arbitrary: st)
  case (Cons j js)
  then obtain k a st1 where st1: "place k a (st\<lparr> agent_index := wrap32 (agent_index st + 1) \<rparr>) = Inr st1"
    "create_channels setup ch i c e js st1 = Inr st'" by (auto simp: bindE_Inr_iff)
  have "agent_connections st1 = agent_connections st" using st1(1) by (auto simp: place_def split: if_splits)
  then show ?case using Cons.IH [OF st1(2)] by simp
qed simp

lemma create_consumers_in_turn:
  assumes "create_consumers lib processors p [i..<n] (st, cr, ps) = Inr (st', cr', ps')" "i \<le> n"
    and "at_turn as k cr" "int (k + (n - i)) \<le> int_max"
  shows "\<exists>cs. agent_connections st' = agent_connections st @ cs \<and> length cs = n - i \<and>
           in_turn lib consumer_name as k i cs \<and> at_turn as (k + (n - i)) cr'"
  using assms
proof (induction "n - i" arbitrary: i k st cr ps)
  case (Suc d)
  have i: "i < n" "[i..<n] = i # [Suc i..<n]" using Suc.hyps(2) by (simp_all add: upt_conv_Cons)
  obtain e ps1 c cr1 st1 where c: "createConnection lib (consumer_name (int i)) cr = Inr (c, cr1)"
    "create_channels (setup_consumer lib) (consumerChannelCount p) (int i) c (Some e)
       [0..<nat (consumerChannelCount p)] (st\<lparr> agent_connections := agent_connections st @ [c] \<rparr>) = Inr st1"
    "create_consumers lib processors p [Suc i..<n] (st1, cr1, ps1) = Inr (st', cr', ps')"
    using Suc.prems(1) unfolding i(2) by (auto simp: bindE_Inr_iff split: prod.splits)
  have k: "int k < int_max" using Suc.prems(4) i(1) by linarith
  note turn = connection_in_turn [OF Suc.prems(3) k c(1)]
  have "d = n - Suc i" "Suc i \<le> n" "int (Suc k + (n - Suc i)) \<le> int_max"
    using Suc.hyps(2) Suc.prems(4) i(1) by (simp_all add: Suc_diff_Suc)
  from Suc.hyps(1) [OF this(1) c(3) this(2) _ this(3)] turn
  obtain cs where "agent_connections st' = agent_connections st1 @ cs" "length cs = n - Suc i"
    "in_turn lib consumer_name as (Suc k) (Suc i) cs" "at_turn as (Suc k + (n - Suc i)) cr'" by blast
  moreover have "k + (n - i) = Suc k + (n - Suc i)" "n - i = Suc (n - Suc i)" using i(1) by simp_all
  ultimately show ?case using create_channels_connections [OF c(2)] turn
    by (intro exI [of _ "c # cs"]) (simp add: in_turn_Cons)
qed simp

lemma create_producers_in_turn:
  assumes "create_producers lib p [i..<n] (st, cr) = Inr (st', cr')" "i \<le> n"
    and "at_turn as k cr" "int (k + (n - i)) \<le> int_max"
  shows "\<exists>cs. agent_connections st' = agent_connections st @ cs \<and> length cs = n - i \<and>
           in_turn lib producer_name as k i cs \<and> at_turn as (k + (n - i)) cr'"
  using assms
proof (induction "n - i" arbitrary: i k st cr)
  case (Suc d)
  have i: "i < n" "[i..<n] = i # [Suc i..<n]" using Suc.hyps(2) by (simp_all add: upt_conv_Cons)
  obtain c cr1 st1 where c: "createConnection lib (producer_name (int i)) cr = Inr (c, cr1)"
    "create_channels (setup_producer lib) (producerChannelCount p) (int i) c None
       [0..<nat (producerChannelCount p)] (st\<lparr> agent_connections := agent_connections st @ [c] \<rparr>) = Inr st1"
    "create_producers lib p [Suc i..<n] (st1, cr1) = Inr (st', cr')"
    using Suc.prems(1) unfolding i(2) by (auto simp: bindE_Inr_iff split: prod.splits)
  have k: "int k < int_max" using Suc.prems(4) i(1) by linarith
  note turn = connection_in_turn [OF Suc.prems(3) k c(1)]
  have "d = n - Suc i" "Suc i \<le> n" "int (Suc k + (n - Suc i)) \<le> int_max"
    using Suc.hyps(2) Suc.prems(4) i(1) by (simp_all add: Suc_diff_Suc)
  from Suc.hyps(1) [OF this(1) c(3) this(2) _ this(3)] turn
  obtain cs where "agent_connections st' = agent_connections st1 @ cs" "length cs = n - Suc i"
    "in_turn lib producer_name as (Suc k) (Suc i) cs" "at_turn as (Suc k + (n - Suc i)) cr'" by blast
  moreover have "k + (n - i) = Suc k + (n - Suc i)" "n - i = Suc (n - Suc i)" using i(1) by simp_all
  ultimately show ?case using create_channels_connections [OF c(2)] turn
    by (intro exI [of _ "c # cs"]) (simp add: in_turn_Cons)
qed simp

section \<open>Waiting for the servers\<close>

text \<open>The answers of servers whose connections can be closed, given those that are up.\<close>

definition answers :: "(string \<Rightarrow> bool) \<Rightarrow> string \<Rightarrow> server_test" where
  "answers up u = (if up u then Connects else Refuses)"

lemma answers_simps [simp]: "answers up u = Refuses \<longleftrightarrow> \<not> up u" "answers up u = Connects \<longleftrightarrow> up u"
  by (simp_all add: answers_def)

definition closing_passes :: "(int \<times> (string \<Rightarrow> bool)) list \<Rightarrow> (int \<times> (string \<Rightarrow> server_test)) list" where
  "closing_passes = map (\<lambda>(elapsed, up). (elapsed, answers up))"

lemma closing_simps [simp]:
  "closing_passes [] = []" "closing_passes ((e, up) # ps) = (e, answers up) # closing_passes ps"
  by (simp_all add: closing_passes_def)

lemma try_servers_found:
  assumes "int (length found) < L \<or> L \<le> 0"
  shows "try_servers (answers up) L tested kept found uris =
    (if 0 < L \<and> L \<le> int (length found + length (filter up tested))
     then (fst (try_servers (answers up) L tested kept found uris),
           found @ take (nat L - length found) (filter up tested),
           found @ take (nat L - length found) (filter up tested), True)
     else (kept @ filter (\<lambda>u. \<not> up u) tested, found @ filter up tested, uris, False))"
  using assms
proof (induction tested arbitrary: kept found)
  case (Cons u tested)
  show ?case
  proof (cases "up u")
    case False
    then show ?thesis using Cons.IH [of found "kept @ [u]"] Cons.prems by auto
  next
    case True
    show ?thesis
    proof (cases "int (length found) + 1 = L")
      case met: True
      then have "nat L - length found = 1" by linarith
      then show ?thesis using True met by (simp add: Let_def)
    next
      case False
      then have "int (length (found @ [u])) < L \<or> L \<le> 0" using Cons.prems by auto
      moreover have "0 < L \<Longrightarrow> nat L - length found = Suc (nat L - Suc (length found))" using False Cons.prems by auto
      ultimately show ?thesis using True False Cons.IH [of "found @ [u]" kept] by (auto simp: Let_def)
    qed
  qed
qed (auto simp: zless_nat_eq_int_zless)

definition in_time :: "int \<Rightarrow> (int \<times> (string \<Rightarrow> bool)) list \<Rightarrow> (int \<times> (string \<Rightarrow> bool)) list" where
  "in_time timeout passes = takeWhile (\<lambda>pass. quot (fst pass) 1000000000 < timeout) passes"

definition seen_in :: "(int \<times> (string \<Rightarrow> bool)) list \<Rightarrow> string list \<Rightarrow> string list" where
  "seen_in passes uris = filter (\<lambda>u. \<exists>pass \<in> set passes. snd pass u) uris"

lemma seen_in_Cons_length:
  "length (seen_in (pass # passes) us) =
   length (filter (snd pass) us) + length (seen_in passes (filter (\<lambda>u. \<not> snd pass u) us))"
  by (induction us) (simp_all add: seen_in_def)

lemma wait_for_servers_result:
  assumes "int (length found) < L \<or> L \<le> 0"
  shows "if 0 < L \<and> L \<le> int (length found + length (seen_in (in_time timeout passes) tested))
         then \<exists>more. wait_for_servers timeout L (closing_passes passes) uris tested found = Some (True, found @ more) \<and>
                int (length (found @ more)) = L \<and> set more \<subseteq> set (seen_in (in_time timeout passes) tested)
         else wait_for_servers timeout L (closing_passes passes) uris tested found =
                (if length (in_time timeout passes) < length passes then Some (False, uris) else None)"
  using assms
proof (induction passes arbitrary: tested found)
  case (Cons pass passes)
  obtain elapsed up where pass: "pass = (elapsed, up)" by force
  show ?case
  proof (cases "quot elapsed 1000000000 < timeout")
    case False
    then show ?thesis using Cons.prems by (auto simp: pass in_time_def seen_in_def)
  next
    case True
    let ?ups = "filter up tested" and ?rest = "filter (\<lambda>u. \<not> up u) tested"
    have early: "in_time timeout (pass # passes) = pass # in_time timeout passes"
      using True by (simp add: in_time_def pass)
    note tr = try_servers_found [OF Cons.prems, of up tested "[]" uris]
    have seen: "length (seen_in (pass # in_time timeout passes) tested) =
        length ?ups + length (seen_in (in_time timeout passes) ?rest)"
      by (simp add: seen_in_Cons_length pass)
    show ?thesis
    proof (cases "0 < L \<and> L \<le> int (length found + length ?ups)")
      case met: True
      let ?more = "take (nat L - length found) ?ups"
      have "try_servers (answers up) L tested [] found uris =
          (fst (try_servers (answers up) L tested [] found uris), found @ ?more, found @ ?more, True)"
        using tr met by argo
      then obtain kept1 where "try_servers (answers up) L tested [] found uris = (kept1, found @ ?more, found @ ?more, True)"
        by blast
      then have "wait_for_servers timeout L (closing_passes (pass # passes)) uris tested found = Some (True, found @ ?more)"
        using True by (simp add: pass)
      moreover have "set ?more \<subseteq> set (seen_in (pass # in_time timeout passes) tested)"
        by (auto simp: seen_in_def pass dest!: in_set_takeD)
      moreover have "int (length (found @ ?more)) = L" using met Cons.prems by auto
      ultimately show ?thesis using met unfolding early seen by (intro if_P [THEN iffD2]) auto
    next
      case unmet: False
      then have "int (length (found @ ?ups)) < L \<or> L \<le> 0" by auto
      note ih = Cons.IH [OF this, of ?rest]
      have step: "wait_for_servers timeout L (closing_passes (pass # passes)) uris tested found =
          wait_for_servers timeout L (closing_passes passes) uris ?rest (found @ ?ups)"
      proof -
        have "try_servers (answers up) L tested [] found uris = (?rest, found @ ?ups, uris, False)"
          using tr unmet by (simp only: if_False append_Nil)
        then show ?thesis using True by (simp add: pass)
      qed
      have sub: "set ?ups \<subseteq> set (seen_in (pass # in_time timeout passes) tested)"
        "set (seen_in (in_time timeout passes) ?rest) \<subseteq> set (seen_in (pass # in_time timeout passes) tested)"
        by (auto simp: seen_in_def pass)
      show ?thesis
      proof (cases "0 < L \<and> L \<le> int (length (found @ ?ups) + length (seen_in (in_time timeout passes) ?rest))")
        case enough: True
        then obtain more where "wait_for_servers timeout L (closing_passes passes) uris ?rest (found @ ?ups) = Some (True, (found @ ?ups) @ more)"
          "int (length ((found @ ?ups) @ more)) = L" "set more \<subseteq> set (seen_in (in_time timeout passes) ?rest)"
          using ih by auto
        then show ?thesis using enough step sub unfolding early seen
          by (intro if_P [THEN iffD2]) (auto intro!: exI [of _ "?ups @ more"])
      next
        case False
        then show ?thesis using ih step unfolding early seen by auto
      qed
    qed
  qed
qed (auto simp: in_time_def seen_in_def)

text \<open>
  With a time to wait, and servers whose test connections can be closed, the run starts exactly when as many of the servers as it asks for, at
  least one, were each seen up in a pass within that time, and keeps this number of servers, all of them
  seen; otherwise it gives up as soon as the time is over. So a limit of zero, or above the
  number of servers, is never met, even with every server up.
\<close>
theorem servers_waited:
  assumes "0 < timeout" "uris \<noteq> []"
  shows "if 0 < L \<and> L \<le> int (length (seen_in (in_time timeout passes) uris))
         then \<exists>kept. waitUntilBrokerAvailableIfNecessary timeout L uris (closing_passes passes) = Some (True, kept) \<and>
                int (length kept) = L \<and> set kept \<subseteq> set (seen_in (in_time timeout passes) uris)
         else waitUntilBrokerAvailableIfNecessary timeout L uris (closing_passes passes) =
                (if length (in_time timeout passes) < length passes then Some (False, uris) else None)"
  using wait_for_servers_result [of "[]" L timeout passes uris uris] assms
  by (auto simp: waitUntilBrokerAvailableIfNecessary_def)

theorem servers_waited_witness:
  "\<exists>kept. waitUntilBrokerAvailableIfNecessary 4 2 [''a'', ''b'', ''c'']
            (closing_passes [(0, \<lambda>u. u = ''a''), (1200000000, \<lambda>u. u \<noteq> ''b'')]) = Some (True, kept) \<and> int (length kept) = 2"
proof -
  let ?passes = "[(0, \<lambda>u. u = ''a''), (1200000000, \<lambda>u. u \<noteq> ''b'')] :: (int \<times> (string \<Rightarrow> bool)) list"
  have "in_time 4 ?passes = ?passes" by (simp add: in_time_def quot_def)
  then have "length (seen_in (in_time 4 ?passes) [''a'', ''b'', ''c'']) = 2" by (simp add: seen_in_def)
  then show ?thesis using servers_waited [of 4 "[''a'', ''b'', ''c'']" 2 ?passes] by auto
qed

text \<open>
  A closing that throws takes the start back: the only server connects in every pass, and its first
  connection cannot be closed; the run waits until the time is over.
\<close>

lemma close_failure_prevents_start:
  "waitUntilBrokerAvailableIfNecessary 4 1 [''a'']
     [(0, \<lambda>u. Close_Fails), (1000000000, \<lambda>u. Connects), (2000000000, \<lambda>u. Connects), (4000000000, \<lambda>u. Connects)] =
   Some (False, [''a''])"
  by code_simp

section \<open>The agents of a run\<close>

text \<open>
  C27: the consumers of a run are made one after the other, the channels of a connection next to
  each other: the agent at place \<open>k\<close> of the array has the number \<open>k\<close>, the connection \<open>k div ch\<close> and
  the executor of that connection, its own one or, with shared pools, the one whose turn it is; no
  place is left empty, and no more pools are made than there are connections or were asked for.
\<close>
theorem consumers_laid_out:
  assumes "createConsumers lib processors p cr = Inr (st, cr', ps)"
    and "consumerCount p = int n" "consumerChannelCount p = int ch" "int (n * ch) \<le> int_max"
    and "f = createConsumersExecutorsFactory p"
  shows "agent_array st = map (\<lambda>k. Some \<lparr> agent_id = int k, agent_connection = agent_connections st ! (k div ch),
                                  agent_executor = Some (pool_number f (k div ch)) \<rparr>) [0..<n * ch] \<and>
         length (agent_connections st) = n \<and>
         length (executors ps) = (case f of Cached_Executors poolCount \<Rightarrow> min n (nat poolCount) | _ \<Rightarrow> n)"
proof -
  let ?ex = "\<lambda>i. Some (pool_number f i)"
  have "getConsumerThreadCount p = int (n * ch)"
    using assms(2-4) by (simp add: getConsumerThreadCount_def wrap32_id)
  then obtain st0 where st0: "st0 = \<lparr> agent_array = replicate (n * ch) None, agent_connections = [], agent_index = 0 \<rparr>"
    "create_consumers lib processors p [0..<n] (st0, cr, new_pools f) = Inr (st, cr', ps)"
    using assms(1,2,5) by (auto simp: createConsumers_def new_agents_def bindE_Inr_iff simp del: of_nat_mult)
  have "laid_out ch ?ex n 0 st0" by (simp add: laid_out_def st0(1))
  then have l: "laid_out ch ?ex n n st \<and> pools_after f n ps"
    by (intro create_consumers_laid_out [OF st0(2) _ assms(3-5)] new_pools_after) simp_all
  have "agent_array st = map (\<lambda>k. Some \<lparr> agent_id = int k, agent_connection = agent_connections st ! (k div ch),
      agent_executor = ?ex (k div ch) \<rparr>) [0..<n * ch]"
    using l by (intro nth_equalityI) (simp_all add: laid_out_def)
  then show ?thesis using l by (simp add: laid_out_def pools_after_def split: executors_factory.splits)
qed

text \<open>A library whose connections are their addresses and names; a run of three consumers.\<close>

definition demo_library :: "(string list \<times> string) client_library" where
  "demo_library = \<lparr> address_of = Some, newConnection = (\<lambda>as name. if as = [''down''] then Inl (Checked_Exception ''IOException'') else Inr (as, name)),
     shuffled = (\<lambda>_ as. rev as), configure_queues = (\<lambda>_. Inr ()), setup_consumer = (\<lambda>_ _. Inr ()), setup_producer = (\<lambda>_ _. Inr ()) \<rparr>"

definition demo_set :: set_params where
  "demo_set = \<lparr> timeLimit = 0, producerMsgCount = 0, consumerMsgCount = 0, exitWhen = Exit_Never,
     producerCount = 2, producerChannelCount = 1, consumerCount = 3, consumerChannelCount = 2,
     polling = False, consumersThreadPools = 2, producerSchedulerThreadCount = 0,
     serversStartUpTimeout = 5, serversUpLimit = 1 \<rparr>"

lemma demo_creator: "new_creator demo_library uris allocation =
    Inr \<lparr> addresses = uris, connectionAllocation = allocation, allocationCount = 0 \<rparr>"
proof -
  have "mapE (\<lambda>uri. case address_of demo_library uri of
      None \<Rightarrow> Inl (Runtime_Exception (''Could not parse URI: '' @ uri)) | Some a \<Rightarrow> Inr a) uris = Inr (map id uris)"
    by (rule mapE_total) (simp add: demo_library_def)
  then show ?thesis by (simp add: new_creator_def)
qed

theorem consumers_laid_out_witness:
  "\<exists>st cr' ps. createConsumers demo_library 4 demo_set
       \<lparr> addresses = [''a'', ''b''], connectionAllocation = ROUND_ROBIN, allocationCount = 0 \<rparr> = Inr (st, cr', ps) \<and>
     map (map_option agent_executor) (agent_array st) =
       [Some (Some 0), Some (Some 0), Some (Some 1), Some (Some 1), Some (Some 0), Some (Some 0)] \<and>
     length (executors ps) = 2"
proof -
  let ?cr = "\<lparr> addresses = [''a'', ''b''], connectionAllocation = ROUND_ROBIN, allocationCount = 0 \<rparr>"
  have "case createConsumers demo_library 4 demo_set ?cr of Inr _ \<Rightarrow> True | Inl _ \<Rightarrow> False" by code_simp
  then obtain st cr' ps where r: "createConsumers demo_library 4 demo_set ?cr = Inr (st, cr', ps)"
    by (auto split: sum.splits)
  have f: "createConsumersExecutorsFactory demo_set = Cached_Executors 2"
    by (simp add: createConsumersExecutorsFactory_def demo_set_def)
  have n: "consumerCount demo_set = int 3" "consumerChannelCount demo_set = int 2" "int (3 * 2) \<le> int_max"
    by (simp_all add: demo_set_def int_max_def)
  have six: "[0..<3 * 2] = [0, 1, 2, 3, 4, 5 :: nat]" by code_simp
  from consumers_laid_out [OF r n f [symmetric]] show ?thesis
    unfolding six by (intro exI [of _ st] exI [of _ cr'] exI [of _ ps]) (simp add: r pool_number_def)
qed

lemma parsed_iff:
  "(case x of None \<Rightarrow> Inl e | Some a \<Rightarrow> Inr a) = Inr y \<longleftrightarrow> x = Some y"
  by (cases x) simp_all

lemma new_creator_fields:
  assumes "new_creator lib uris allocation = Inr cr"
  shows "cr = \<lparr> addresses = map (\<lambda>u. the (address_of lib u)) uris, connectionAllocation = allocation,
               allocationCount = 0 \<rparr>"
proof -
  obtain bs where bs: "list_all2 (\<lambda>u a. address_of lib u = Some a) uris bs"
    "cr = \<lparr> addresses = bs, connectionAllocation = allocation, allocationCount = 0 \<rparr>"
    using assms by (auto simp: new_creator_def bindE_Inr_iff mapE_Inr_iff parsed_iff)
  have "bs = map (\<lambda>u. the (address_of lib u)) uris"
    using bs(1) by (auto simp: list_all2_conv_all_nth intro!: nth_equalityI)
  then show ?thesis using bs(2) by simp
qed

text \<open>
  C28: with the allocation in turn the connections of the consumers and then those of the producers are
  opened to the given servers one after the other, over and over, each to one server only: so any two
  servers get the same number of connections, or numbers that differ by one. Which
  servers the run has seen up makes no difference.
\<close>
theorem connections_in_turn:
  assumes "set_run lib processors p ROUND_ROBIN uris passes = Some (Inr (Some r))" "uris \<noteq> []"
    and "consumerCount p = int n" "producerCount p = int m" "int (n + m) \<le> int_max"
    and "as = map (\<lambda>u. the (address_of lib u)) uris"
  shows "(\<forall>i < n. newConnection lib [as ! (i mod length uris)] (consumer_name (int i)) =
                  Inr (agent_connections (consumers_made r) ! i)) \<and>
         (\<forall>i < m. newConnection lib [as ! ((n + i) mod length uris)] (producer_name (int i)) =
                  Inr (agent_connections (producers_made r) ! i))"
proof -
  obtain cr kept where cr: "new_creator lib uris ROUND_ROBIN = Inr cr"
    "waitUntilBrokerAvailableIfNecessary (serversStartUpTimeout p) (servers_limit p uris) uris passes = Some (True, kept)"
    using assms(1) by (auto simp: set_run_def split: sum.splits option.splits prod.splits bool.splits)
  obtain cr1 ps cr2 where made: "createConsumers lib processors p cr = Inr (consumers_made r, cr1, ps)"
    "createProducers lib p cr1 = Inr (producers_made r, cr2)"
    using assms(1) cr by (auto simp: set_run_def bindE_Inr_iff)
  note fields = new_creator_fields [OF cr(1)]
  have len: "length uris = length as" by (simp add: assms(6))
  have turn: "at_turn as 0 cr" using assms(2,6) by (simp add: at_turn_def fields)
  have st0: "create_consumers lib processors p [0..<n]
      (\<lparr> agent_array = replicate (nat (getConsumerThreadCount p)) None, agent_connections = [], agent_index = 0 \<rparr>,
       cr, new_pools (createConsumersExecutorsFactory p)) = Inr (consumers_made r, cr1, ps)"
    using made(1) assms(3) by (auto simp: createConsumers_def new_agents_def bindE_Inr_iff split: if_splits)
  obtain cs where cs: "agent_connections (consumers_made r) = cs" "length cs = n"
    "in_turn lib consumer_name as 0 0 cs" "at_turn as n cr1"
    using create_consumers_in_turn [OF st0 _ turn] assms(5) by auto
  have st1: "create_producers lib p [0..<m]
      (\<lparr> agent_array = replicate (nat (getProducerThreadCount p)) None, agent_connections = [], agent_index = 0 \<rparr>,
       cr1) = Inr (producers_made r, cr2)"
    using made(2) assms(4) by (auto simp: createProducers_def new_agents_def bindE_Inr_iff split: if_splits)
  obtain ds where ds: "agent_connections (producers_made r) = ds" "length ds = m"
    "in_turn lib producer_name as n 0 ds"
    using create_producers_in_turn [OF st1 _ cs(4)] assms(5) by auto
  show ?thesis using cs(1-3) ds by (simp add: in_turn_def len(1))
qed

theorem connections_in_turn_witness:
  "\<exists>r. set_run demo_library 4 (demo_set\<lparr> serversStartUpTimeout := 0 \<rparr>) ROUND_ROBIN [''a'', ''b''] [] = Some (Inr (Some r)) \<and>
     newConnection demo_library [''a''] (consumer_name 2) = Inr (agent_connections (consumers_made r) ! 2) \<and>
     newConnection demo_library [''b''] (producer_name 0) = Inr (agent_connections (producers_made r) ! 0)"
proof -
  let ?p = "demo_set\<lparr> serversStartUpTimeout := 0 \<rparr>"
  have "case set_run demo_library 4 ?p ROUND_ROBIN [''a'', ''b''] [] of Some (Inr (Some _)) \<Rightarrow> True | _ \<Rightarrow> False"
    by code_simp
  then obtain r where r: "set_run demo_library 4 ?p ROUND_ROBIN [''a'', ''b''] [] = Some (Inr (Some r))"
    by (auto split: option.splits sum.splits)
  have "(\<forall>i < 3. newConnection demo_library [[''a'', ''b''] ! (i mod length [''a'', ''b''])] (consumer_name (int i)) =
                  Inr (agent_connections (consumers_made r) ! i)) \<and>
         (\<forall>i < 2. newConnection demo_library [[''a'', ''b''] ! ((3 + i) mod length [''a'', ''b''])] (producer_name (int i)) =
                  Inr (agent_connections (producers_made r) ! i))"
    by (rule connections_in_turn [OF r]) (simp_all add: demo_set_def int_max_def demo_library_def)
  note h = this
  have e: "(3 :: nat) mod Suc (Suc 0) = Suc 0" "(2 :: nat) mod Suc (Suc 0) = 0" by code_simp+
  have "newConnection demo_library [''a''] (consumer_name 2) = Inr (agent_connections (consumers_made r) ! 2)"
    using conjunct1 [OF h, rule_format, of 2] by (simp add: e)
  moreover have "newConnection demo_library [''b''] (producer_name 0) = Inr (agent_connections (producers_made r) ! 0)"
    using conjunct2 [OF h, rule_format, of 0] by (simp add: e)
  ultimately show ?thesis using r by blast
qed

text \<open>
  C29: the number of servers needed for a start does not let a run start while one of the servers is down:
  the addresses are read before the servers are waited for, and the connections for the configuration
  go to each of them. So a run that may start, having seen as many servers up as it asks for, ends
  with an exception when one of the others refuses its connection.
\<close>
theorem server_down_ends_run:
  assumes "new_creator lib uris allocation = Inr cr"
    and "waitUntilBrokerAvailableIfNecessary (serversStartUpTimeout p) (servers_limit p uris) uris passes = Some (True, kept)"
    and "j < length (addresses cr)"
    and "newConnection lib [addresses cr ! j] (configuration_name (int j)) = Inl err"
  shows "\<exists>err'. set_run lib processors p allocation uris passes = Some (Inl err')"
proof -
  have "createConfigurationConnections lib cr \<noteq> Inr cs" for cs
    using assms(3,4) by (auto simp: createConfigurationConnections_def mapE_Inr_iff list_all2_conv_all_nth)
  then obtain err' where "createConfigurationConnections lib cr = Inl err'"
    by (cases "createConfigurationConnections lib cr") auto
  then show ?thesis using assms(1,2) by (simp add: set_run_def)
qed

theorem server_down_ends_run_witness:
  "waitUntilBrokerAvailableIfNecessary 5 1 [''a'', ''down''] [(0, answers (\<lambda>u. u = ''a''))] = Some (True, [''a'']) \<and>
   (\<exists>err. set_run demo_library 4 demo_set RANDOM [''a'', ''down''] [(0, answers (\<lambda>u. u = ''a''))] = Some (Inl err))"
proof -
  have w: "waitUntilBrokerAvailableIfNecessary (serversStartUpTimeout demo_set) (servers_limit demo_set [''a'', ''down''])
      [''a'', ''down''] [(0, answers (\<lambda>u. u = ''a''))] = Some (True, [''a''])"
    by (simp add: waitUntilBrokerAvailableIfNecessary_def demo_set_def servers_limit_def quot_def Let_def)
  have "\<exists>err. set_run demo_library 4 demo_set RANDOM [''a'', ''down''] [(0, answers (\<lambda>u. u = ''a''))] = Some (Inl err)"
    by (rule server_down_ends_run [OF demo_creator w, of 1]) (simp_all add: demo_library_def)
  then show ?thesis using w by (simp add: demo_set_def servers_limit_def)
qed

section \<open>Slow rates\<close>

lemma tenth: "1 / 10 \<le> rnd_mag (1 / 10)"
proof -
  have "flogb 2 (1 / 10) = - 4" by (rule flogb_unique) (simp_all add: bpow_def)
  then have "lsb (1 / 10) = - 56" by (simp add: lsb_def)
  moreover have "\<lfloor>36028797018963968 / (5 :: rat)\<rfloor> = 7205759403792793" by (rule floor_unique) simp_all
  ultimately show ?thesis by (simp add: rnd_mag_def rhe_def bpow_def Let_def)
qed

lemma rnd_int_mag: "0 \<le> i \<Longrightarrow> i \<le> 2 ^ 53 \<Longrightarrow> 0 < i \<Longrightarrow> rnd_mag (of_int i) = of_int i"
  using rnd_int [of i] rnd_pos [of "of_int i"] by (auto split: if_splits)

lemma below_huge: "q \<le> 1000 \<Longrightarrow> \<not> bpow 2 1024 \<le> q"
proof -
  have "(1000 :: rat) < bpow 2 10" by (simp add: bpow_def)
  also have "bpow 2 10 \<le> bpow 2 1024" by (rule bpow_mono) simp_all
  finally show "q \<le> 1000 \<Longrightarrow> \<not> bpow 2 1024 \<le> q" by simp
qed

lemma publishing_interval_bounds:
  assumes "1 \<le> q" "q \<le> 10"
  shows "100 \<le> rateToPublishingInterval (Fin q) \<and> rateToPublishingInterval (Fin q) \<le> 1000"
proof -
  let ?d = "rnd_mag (1 / q)" and ?p = "rnd_mag (rnd_mag (1 / q) * 1000)"
  have q: "0 < 1 / q" "1 / 10 \<le> 1 / q" "1 / q \<le> 1" using assms by (simp_all add: field_simps)
  have "rnd_mag (1 / 10) \<le> ?d" by (rule rnd_mag_mono) (use q in simp_all)
  moreover have "?d \<le> rnd_mag 1" by (rule rnd_mag_mono) (use q in simp_all)
  ultimately have d: "1 / 10 \<le> ?d" "?d \<le> 1" using tenth rnd_int_mag [of 1] by simp_all
  have "rnd_mag 100 \<le> ?p" by (rule rnd_mag_mono) (use d in simp_all)
  moreover have "?p \<le> rnd_mag 1000" by (rule rnd_mag_mono) (use d in simp_all)
  ultimately have p: "100 \<le> ?p" "?p \<le> 1000" using rnd_int_mag [of 100] rnd_int_mag [of 1000] by simp_all
  have "dbl_quot (Fin 1) (Fin q) = Fin ?d" using assms q d below_huge [of ?d] by (simp add: rnd_pos)
  moreover have "Fin ?d * Fin 1000 = Fin ?p" using d p below_huge [of ?p] by (simp add: times_dbl_def rnd_pos)
  ultimately have "rateToPublishingInterval (Fin q) = max long_min (min long_max \<lfloor>?p\<rfloor>)"
    using p by (simp add: rateToPublishingInterval_def trunc_def)
  moreover have "100 \<le> \<lfloor>?p\<rfloor>" "\<lfloor>?p\<rfloor> \<le> 1000" using p by (simp_all add: le_floor_iff floor_le_iff)
  ultimately show ?thesis by (simp add: long_min_def long_max_def)
qed

text \<open>
  Producers with a constant rate from 1 to 10 messages a second are run by a scheduler, whatever
  interval was asked for, every 100 to 1000 milliseconds; with the rate 0 and no interval they are
  made and never run; with any other constant rate and no interval each runs on its own thread.
\<close>
theorem producers_started:
  "(1 \<le> q \<and> q \<le> 10 \<longrightarrow> (\<exists>ms n. startProducers p False (Fin q) interval = Scheduled_Every ms n \<and> 100 \<le> ms \<and> ms \<le> 1000)) \<and>
         (q = 0 \<longrightarrow> startProducers p False (Fin q) None = Created_Only) \<and>
         (q \<noteq> 0 \<and> (q < 1 \<or> 10 < q) \<longrightarrow>
            startProducers p False (Fin q) None = On_Threads (getProducerThreadCount p))"
  using publishing_interval_bounds [of q] by (auto simp: startProducers_def Let_def less_eq_dbl_def)

theorem producers_started_witness:
  "(\<exists>ms n. startProducers demo_set False (Fin 3) (Some 5000) = Scheduled_Every ms n \<and> ms \<le> 1000) \<and>
   startProducers demo_set False (Fin (1 / 2)) None = On_Threads (getProducerThreadCount demo_set)"
  using producers_started [of 3 demo_set "Some 5000"] producers_started [of "1 / 2" demo_set None] by auto

end
