(* ===== verification/Perf_Topology.thy ===== *)
theory Perf_Topology
  imports Java_Value
begin

text \<open>
  Queues, exchanges and bindings, and their recovery (\<open>TopologyRecording.java\<close>, the topology handlers of
  \<open>MulticastParams.java\<close>, and the parts of \<open>Consumer.java\<close> that subscribe again). The server is a parameter: a
  function of the calls made so far and the next call. Recordings refer to the records of the
  queues, which several of them share, and to their children, by number.
\<close>

section \<open>Calls to the server\<close>

datatype server_call =
    New_Channel
  | Exchange_Declare_Passive string
  | Exchange_Declare string string
  | Queue_Declare_Passive string
  | Queue_Declare string bool bool bool "(string \<times> string) list"
  | Queue_Bind string string string
  | Queue_Delete string
  | Basic_Consume string string

text \<open>
  The answer to a declaration of a queue is its name. \<open>Not_Found\<close>: the channel is closed with that
  code; \<open>Refused\<close>: any other \<open>IOException\<close>; \<open>Closed\<close>: an \<open>AlreadyClosedException\<close>, which is not an
  \<open>IOException\<close>.
\<close>

datatype server_answer = Accepted string | Not_Found | Refused | Closed

type_synonym server = "server_call list \<Rightarrow> server_call \<Rightarrow> server_answer"

section \<open>State\<close>

record recorded_queue =
  queue_name :: string
  durable :: bool
  exclusive :: bool
  autoDelete :: bool
  arguments :: "(string \<times> string) list"
  serverNamed :: bool

record recorded_binding =
  bound_queue :: string
  bound_exchange :: string
  routingKey :: string

definition routingKeyIsQueue :: "recorded_binding \<Rightarrow> bool" where
  "routingKeyIsQueue b \<longleftrightarrow> bound_queue b = routingKey b"

record recording =
  rec_exchanges :: "(string \<times> string) list"
  rec_queues :: "(string \<times> nat) list"
  rec_bindings :: "recorded_binding list"
  rec_children :: "nat list"

record topology =
  queue_store :: "recorded_queue list"
  recordings :: "recording list"
  calls_made :: "server_call list"

definition empty_recording :: recording where
  "empty_recording = \<lparr> rec_exchanges = [], rec_queues = [], rec_bindings = [], rec_children = [] \<rparr>"

text \<open>A new run: one recording, the parent of the others.\<close>

definition new_topology :: topology where
  "new_topology = \<lparr> queue_store = [], recordings = [empty_recording], calls_made = [] \<rparr>"

definition change_recording :: "nat \<Rightarrow> (recording \<Rightarrow> recording) \<Rightarrow> topology \<Rightarrow> topology" where
  "change_recording i f s = s\<lparr> recordings := (recordings s)[i := f (recordings s ! i)] \<rparr>"

text \<open>A call that may fail gives nothing; the state it leaves stays.\<close>

definition ask :: "server \<Rightarrow> server_call \<Rightarrow> topology \<Rightarrow> string option \<times> topology" where
  "ask srv c s =
     (case srv (calls_made s) c of Accepted n \<Rightarrow> Some n | _ \<Rightarrow> None, s\<lparr> calls_made := calls_made s @ [c] \<rparr>)"

definition andThen :: "('s \<Rightarrow> 'a option \<times> 's) \<Rightarrow> ('a \<Rightarrow> 's \<Rightarrow> 'b option \<times> 's) \<Rightarrow> 's \<Rightarrow> 'b option \<times> 's" where
  "andThen m f s = (case m s of (None, s1) \<Rightarrow> (None, s1) | (Some x, s1) \<Rightarrow> f x s1)"

fun each_in_turn :: "('a \<Rightarrow> 's \<Rightarrow> unit option \<times> 's) \<Rightarrow> 'a list \<Rightarrow> 's \<Rightarrow> unit option \<times> 's" where
  "each_in_turn f [] s = (Some (), s)"
| "each_in_turn f (x # xs) s = andThen (f x) (\<lambda>_. each_in_turn f xs) s"

section \<open>Recording\<close>

definition child :: "nat \<Rightarrow> topology \<Rightarrow> nat \<times> topology" where
  "child i s =
     (let n = length (recordings s) in
      (n, change_recording i (\<lambda>r. r\<lparr> rec_children := rec_children r @ [n] \<rparr>)
            (s\<lparr> recordings := recordings s @ [empty_recording] \<rparr>)))"

definition put_if_absent :: "string \<Rightarrow> 'v \<Rightarrow> (string \<times> 'v) list \<Rightarrow> (string \<times> 'v) list" where
  "put_if_absent k v m = (case map_of m k of None \<Rightarrow> m @ [(k, v)] | Some _ \<Rightarrow> m)"

definition recordExchange :: "nat \<Rightarrow> string \<Rightarrow> string \<Rightarrow> topology \<Rightarrow> topology" where
  "recordExchange i n t = change_recording i (\<lambda>r. r\<lparr> rec_exchanges := put_if_absent n t (rec_exchanges r) \<rparr>)"

definition recordQueue :: "nat \<Rightarrow> recorded_queue \<Rightarrow> topology \<Rightarrow> topology" where
  "recordQueue i q s =
     change_recording i
       (\<lambda>r. r\<lparr> rec_queues := put_if_absent (queue_name q) (length (queue_store s)) (rec_queues r) \<rparr>)
       (s\<lparr> queue_store := queue_store s @ [q] \<rparr>)"

definition recordBinding :: "nat \<Rightarrow> recorded_binding \<Rightarrow> topology \<Rightarrow> topology" where
  "recordBinding i b = change_recording i (\<lambda>r. r\<lparr> rec_bindings := rec_bindings r @ [b] \<rparr>)"

definition getBindingsFor :: "nat \<Rightarrow> string \<Rightarrow> topology \<Rightarrow> recorded_binding list" where
  "getBindingsFor i q s = filter (\<lambda>b. bound_queue b = q) (rec_bindings (recordings s ! i))"

fun first_some :: "('a \<Rightarrow> 'b option) \<Rightarrow> 'a list \<Rightarrow> 'b option" where
  "first_some f [] = None"
| "first_some f (x # xs) = (case f x of None \<Rightarrow> first_some f xs | Some y \<Rightarrow> Some y)"

text \<open>
  The search goes down the children. The first argument bounds its depth; it is called with the
  number of recordings, which no chain of children reaches, since a child is made after its parent.
\<close>

fun lookup_down :: "nat \<Rightarrow> topology \<Rightarrow> string \<Rightarrow> nat \<Rightarrow> nat option" where
  "lookup_down 0 s q i = None"
| "lookup_down (Suc d) s q i =
     (case map_of (rec_queues (recordings s ! i)) q of
        Some ref \<Rightarrow> Some ref
      | None \<Rightarrow> first_some (lookup_down d s q) (rec_children (recordings s ! i)))"

definition lookupQueueInHierarchy :: "string \<Rightarrow> nat \<Rightarrow> topology \<Rightarrow> nat option" where
  "lookupQueueInHierarchy q i s = lookup_down (length (recordings s)) s q i"

text \<open>The bindings of one queue, copied from recording \<open>i\<close> to recording \<open>c\<close> with their exchanges.\<close>

fun copy_bindings :: "nat \<Rightarrow> nat \<Rightarrow> recorded_binding list \<Rightarrow> topology \<Rightarrow> topology jres" where
  "copy_bindings i c [] s = Inr s"
| "copy_bindings i c (b # bs) s =
     (let s1 = recordBinding c b s in
      case map_of (rec_exchanges (recordings s1 ! i)) (bound_exchange b) of
        None \<Rightarrow> Inl Null_Pointer
      | Some t \<Rightarrow>
          copy_bindings i c bs
            (change_recording c (\<lambda>r. r\<lparr> rec_exchanges := put (bound_exchange b) t (rec_exchanges r) \<rparr>) s1))"

fun sub_record :: "nat \<Rightarrow> nat \<Rightarrow> string list \<Rightarrow> topology \<Rightarrow> topology jres" where
  "sub_record i c [] s = Inr s"
| "sub_record i c (q # qs) s =
     (case lookupQueueInHierarchy q i s of
        None \<Rightarrow> Inl (Runtime_Exception (''Not able to sub-record queue '' @ q @ '', it is not in the parent recording''))
      | Some ref \<Rightarrow>
          bindE (copy_bindings i c (getBindingsFor i q s)
                   (change_recording c (\<lambda>r. r\<lparr> rec_queues := put_if_absent q ref (rec_queues r) \<rparr>) s))
            (sub_record i c qs))"

definition subRecording :: "nat \<Rightarrow> string list \<Rightarrow> topology \<Rightarrow> (nat \<times> topology) jres" where
  "subRecording i qs s =
     (case child i s of (c, s1) \<Rightarrow> bindE (sub_record i c qs s1) (\<lambda>s2. Inr (c, s2)))"

section \<open>Recovery\<close>

definition reliableWrite ::
  "server \<Rightarrow> (topology \<Rightarrow> unit option \<times> topology) \<Rightarrow> topology \<Rightarrow> unit option \<times> topology" where
  "reliableWrite srv operation s =
     (case operation s of
        (Some _, s1) \<Rightarrow> (Some (), s1)
      | (None, s1) \<Rightarrow> andThen (ask srv New_Channel) (\<lambda>_ s2. (Some (), s2)) s1)"

definition discard :: "'a option \<times> 's \<Rightarrow> unit option \<times> 's" where
  "discard r = (map_option (\<lambda>_. ()) (fst r), snd r)"

text \<open>The exchange is declared even where the log says that its creation is skipped.\<close>

definition exchangeDeclare :: "server \<Rightarrow> string \<Rightarrow> string \<Rightarrow> topology \<Rightarrow> unit option \<times> topology" where
  "exchangeDeclare srv n t s = discard (ask srv (Exchange_Declare n t) s)"

definition rename_queue :: "nat \<Rightarrow> string \<Rightarrow> topology \<Rightarrow> topology" where
  "rename_queue ref n s =
     s\<lparr> queue_store := (queue_store s)[ref := (queue_store s ! ref)\<lparr> queue_name := n \<rparr>] \<rparr>"

definition redeclare_queue :: "server \<Rightarrow> nat \<Rightarrow> topology \<Rightarrow> unit option \<times> topology" where
  "redeclare_queue srv ref s =
     (let q = queue_store s ! ref in
      andThen (ask srv (Queue_Declare (if serverNamed q then [] else queue_name q) (durable q) (exclusive q)
                          (autoDelete q) (arguments q)))
        (\<lambda>n s1. (Some (), rename_queue ref n s1)) s)"

text \<open>
  A queue of the server's naming that can outlive its connection is looked for before. Only an \<open>IOException\<close>
  is caught there.
\<close>

definition may_remain :: "recorded_queue \<Rightarrow> bool" where
  "may_remain q \<longleftrightarrow> durable q \<and> serverNamed q \<and> \<not> autoDelete q \<and> \<not> exclusive q"

definition must_redeclare :: "server \<Rightarrow> recorded_queue \<Rightarrow> topology \<Rightarrow> bool option \<times> topology" where
  "must_redeclare srv q s =
     (if may_remain q
      then (let c = Queue_Declare_Passive (queue_name q);
                s1 = s\<lparr> calls_made := calls_made s @ [c] \<rparr> in
            case srv (calls_made s) c of
              Accepted _ \<Rightarrow> (Some False, s1)
            | Closed \<Rightarrow> (None, s1)
            | _ \<Rightarrow> andThen (ask srv New_Channel) (\<lambda>_ s2. (Some True, s2)) s1)
      else (Some True, s))"

text \<open>When polling, the former queue is deleted by hand.\<close>

definition delete_former :: "server \<Rightarrow> bool \<Rightarrow> recorded_queue \<Rightarrow> topology \<Rightarrow> unit option \<times> topology" where
  "delete_former srv polling q s =
     (if polling \<and> autoDelete q \<and> serverNamed q \<and> \<not> exclusive q
      then reliableWrite srv (\<lambda>s. discard (ask srv (Queue_Delete (queue_name q)) s)) s
      else (Some (), s))"

definition recoverQueue :: "server \<Rightarrow> bool \<Rightarrow> nat \<Rightarrow> topology \<Rightarrow> unit option \<times> topology" where
  "recoverQueue srv polling ref s =
     (let q = queue_store s ! ref in
      andThen (must_redeclare srv q) (\<lambda>redeclare.
        andThen (\<lambda>s1. if redeclare then reliableWrite srv (redeclare_queue srv ref) s1 else (Some (), s1)) (\<lambda>_.
          delete_former srv polling q)) s)"

definition recover_binding :: "server \<Rightarrow> nat \<Rightarrow> recorded_binding \<Rightarrow> topology \<Rightarrow> unit option \<times> topology" where
  "recover_binding srv i b s =
     (let n = (case map_of (rec_queues (recordings s ! i)) (bound_queue b) of
                 None \<Rightarrow> bound_queue b | Some ref \<Rightarrow> queue_name (queue_store s ! ref))
      in reliableWrite srv (\<lambda>s1. discard (ask srv
           (Queue_Bind n (bound_exchange b) (if routingKeyIsQueue b then n else routingKey b)) s1)) s)"

text \<open>What is thrown is logged, and the rest not recovered.\<close>

definition recover :: "server \<Rightarrow> bool \<Rightarrow> nat \<Rightarrow> topology \<Rightarrow> topology" where
  "recover srv polling i s =
     (let r = recordings s ! i in
      snd (andThen (ask srv New_Channel) (\<lambda>_.
             andThen (each_in_turn (\<lambda>(k, ref). recoverQueue srv polling ref) (rec_queues r)) (\<lambda>_.
               andThen (each_in_turn (\<lambda>(n, t). reliableWrite srv (exchangeDeclare srv n t)) (rec_exchanges r)) (\<lambda>_.
                 each_in_turn (recover_binding srv i) (rec_bindings r)))) s))"

definition recoverQueueAndBindings :: "server \<Rightarrow> bool \<Rightarrow> nat \<Rightarrow> nat \<Rightarrow> topology \<Rightarrow> topology" where
  "recoverQueueAndBindings srv polling i ref s =
     (let oldQueueName = queue_name (queue_store s ! ref) in
      snd (andThen (ask srv New_Channel) (\<lambda>_.
             andThen (recoverQueue srv polling ref) (\<lambda>_ s1.
               let n = queue_name (queue_store s1 ! ref) in
               each_in_turn (\<lambda>b s2. discard (ask srv
                   (Queue_Bind n (bound_exchange b) (if routingKeyIsQueue b then n else routingKey b)) s2))
                 (getBindingsFor i oldQueueName s1) s1)) s))"

section \<open>Subscribing again\<close>

definition isClassic :: "recorded_queue \<Rightarrow> bool" where
  "isClassic q \<longleftrightarrow> map_of (arguments q) ''x-queue-type'' \<notin> {Some ''quorum'', Some ''stream''}"

definition queueMayBeDown :: "bool \<Rightarrow> recorded_queue \<Rightarrow> bool" where
  "queueMayBeDown cluster q \<longleftrightarrow> isClassic q \<and> durable q \<and> cluster"

text \<open>
  \<open>Utils.exists\<close>: whether what a passive declaration names is there, asked on a channel of its own; any other
  answer is thrown.
\<close>

definition exists_on_server :: "server \<Rightarrow> server_call \<Rightarrow> topology \<Rightarrow> bool option \<times> topology" where
  "exists_on_server srv c =
     andThen (ask srv New_Channel) (\<lambda>_ s.
       (case srv (calls_made s) c of
          Accepted _ \<Rightarrow> Some True | Not_Found \<Rightarrow> Some False | Refused \<Rightarrow> None | Closed \<Rightarrow> None,
        s\<lparr> calls_made := calls_made s @ [c] \<rparr>))"

definition queue_exists :: "server \<Rightarrow> string \<Rightarrow> topology \<Rightarrow> bool option \<times> topology" where
  "queue_exists srv n = exists_on_server srv (Queue_Declare_Passive n)"

text \<open>
  The recording of a consumer is \<open>i\<close>. The result is the name a later subscription is scheduled for, when one
  is; nothing, when an exception leaves. A queue that is not recorded (it was predeclared) and not there
  is not re-created: the attempt ends in an exception that is logged.
\<close>

definition subscribe :: "server \<Rightarrow> string \<Rightarrow> string \<Rightarrow> topology \<Rightarrow> string option option \<times> topology" where
  "subscribe srv n tag s = (case ask srv (Basic_Consume n tag) s of (r, s1) \<Rightarrow> (map_option (\<lambda>_. None) r, s1))"

definition create_again :: "server \<Rightarrow> bool \<Rightarrow> nat \<Rightarrow> nat option \<Rightarrow> topology \<Rightarrow> topology" where
  "create_again srv polling i queueRecord s =
     (case queueRecord of
        None \<Rightarrow> snd (ask srv New_Channel s)
      | Some ref \<Rightarrow> recoverQueueAndBindings srv polling i ref s)"

definition consumeOrScheduleConsume ::
  "server \<Rightarrow> bool \<Rightarrow> bool \<Rightarrow> nat \<Rightarrow> nat option \<Rightarrow> string \<Rightarrow> string \<Rightarrow> topology \<Rightarrow> string option option \<times> topology" where
  "consumeOrScheduleConsume srv polling cluster i queueRecord tag queueName s =
     andThen (queue_exists srv queueName) (\<lambda>there s1.
       if (case queueRecord of None \<Rightarrow> False | Some ref \<Rightarrow> queueMayBeDown cluster (queue_store s1 ! ref))
       then (if there then subscribe srv queueName tag s1
             else (Some (Some queueName), create_again srv polling i queueRecord s1))
       else (let s2 = (if there then s1 else create_again srv polling i queueRecord s1) in
             subscribe srv (case queueRecord of None \<Rightarrow> queueName | Some ref \<Rightarrow> queue_name (queue_store s2 ! ref)) tag s2)) s"

text \<open>
  The scheduled subscription, every five seconds: given for each check whether the queue is there, the
  number of checks made and whether it has subscribed. Nothing yet, when the answers run out before.
\<close>

definition maxRetry :: int where
  "maxRetry = 600 div 5"

fun resubscription :: "int \<Rightarrow> bool list \<Rightarrow> (nat \<times> bool) option" where
  "resubscription retryCount [] = None"
| "resubscription retryCount (there # answers) =
     (if there then Some (1, True)
      else if (retryCount + 1) \<le> maxRetry
           then map_option (\<lambda>(n, done). (Suc n, done)) (resubscription (retryCount + 1) answers)
           else Some (1, False))"

text \<open>A consumer is recovered under the present name of its queue, after a cancellation under the first.\<close>

definition queueName :: "nat \<Rightarrow> string \<Rightarrow> topology \<Rightarrow> string" where
  "queueName i q s =
     (case map_of (rec_queues (recordings s ! i)) q of
        None \<Rightarrow> q | Some ref \<Rightarrow> queue_name (queue_store s ! ref))"

definition handleCancel ::
  "server \<Rightarrow> bool \<Rightarrow> bool \<Rightarrow> nat \<Rightarrow> string \<Rightarrow> string \<Rightarrow> topology \<Rightarrow> string option option \<times> topology" where
  "handleCancel srv polling cluster i tag qName s =
     consumeOrScheduleConsume srv polling cluster i (map_of (rec_queues (recordings s ! i)) qName) tag qName s"

text \<open>The consumer's own part of a recovery, for its tags and the first names of their queues.\<close>

fun recover_consumer ::
  "server \<Rightarrow> bool \<Rightarrow> bool \<Rightarrow> nat \<Rightarrow> (string \<times> string) list \<Rightarrow> topology \<Rightarrow> topology" where
  "recover_consumer srv polling cluster i [] s = s"
| "recover_consumer srv polling cluster i ((tag, q) # tags) s =
     recover_consumer srv polling cluster i tags
       (snd (consumeOrScheduleConsume srv polling cluster i
               (map_of (rec_queues (recordings s ! i)) q) tag (queueName i q s) s))"

end
