(* ===== verification/Perf_Queues.thy ===== *)
theory Perf_Queues
  imports Perf_Topology
begin

text \<open>
  The queues of a run (\<open>configureQueues\<close> and the two topology handlers of \<open>MulticastParams.java\<close>): where
  they are declared, bound and recorded, and the recording each consumer gets.
\<close>

section \<open>Parameters\<close>

record topology_params =
  exchangeName :: string
  exchangeType :: string
  predeclared :: bool
  isExclusive :: bool
  autoDeleteQueues :: bool
  queueArguments :: "(string \<times> string) list"
  skipBindingQueues :: bool

section \<open>Declaring and recording\<close>

definition exchangeExists :: "server \<Rightarrow> string \<Rightarrow> topology \<Rightarrow> bool option \<times> topology" where
  "exchangeExists srv n s =
     (if n = [] \<or> take 4 n = ''amq.'' then (Some True, s)
      else exists_on_server srv (Exchange_Declare_Passive n) s)"

text \<open>A child recording for each of the connections.\<close>

fun open_channels :: "server \<Rightarrow> nat \<Rightarrow> nat \<Rightarrow> topology \<Rightarrow> nat list option \<times> topology" where
  "open_channels srv parent 0 s = (Some [], s)"
| "open_channels srv parent (Suc k) s =
     andThen (ask srv New_Channel) (\<lambda>_ s1.
       case child parent s1 of (c, s2) \<Rightarrow>
         andThen (open_channels srv parent k) (\<lambda>cs s3. (Some (c # cs), s3)) s2) s"

fun open_children :: "nat \<Rightarrow> nat \<Rightarrow> topology \<Rightarrow> nat list \<times> topology" where
  "open_children 0 parent s = ([], s)"
| "open_children (Suc k) parent s =
     (case child parent s of (c, s1) \<Rightarrow>
        case open_children k parent s1 of (cs, s2) \<Rightarrow> (c # cs, s2))"

definition declare_exchange :: "server \<Rightarrow> topology_params \<Rightarrow> nat \<Rightarrow> topology \<Rightarrow> unit option \<times> topology" where
  "declare_exchange srv p c s =
     andThen (\<lambda>s. if \<not> predeclared p then (Some False, s) else exchangeExists srv (exchangeName p) s) (\<lambda>there.
       if there then (\<lambda>s. (Some (), s))
       else andThen (exchangeDeclare srv (exchangeName p) (exchangeType p)) (\<lambda>_ s1.
              (Some (), recordExchange c (exchangeName p) (exchangeType p) s1))) s"

text \<open>One queue, recorded in \<open>c\<close>, and its name.\<close>

definition declare_queue :: "server \<Rightarrow> topology_params \<Rightarrow> nat \<Rightarrow> string \<Rightarrow> topology \<Rightarrow> string option \<times> topology" where
  "declare_queue srv p c qName s =
     andThen (\<lambda>s. if \<not> predeclared p then (Some False, s) else queue_exists srv qName s) (\<lambda>there.
       if there then (\<lambda>s. (Some qName, s))
       else andThen (ask srv (Queue_Declare qName (\<not> isExclusive p) (isExclusive p) (autoDeleteQueues p)
                                (queueArguments p))) (\<lambda>n s1.
              (Some n, recordQueue c
                 \<lparr> queue_name = n, durable = \<not> isExclusive p, exclusive = isExclusive p,
                   autoDelete = autoDeleteQueues p, arguments = queueArguments p, serverNamed = (qName = []) \<rparr> s1))) s"

definition bind_queue :: "server \<Rightarrow> topology_params \<Rightarrow> nat \<Rightarrow> string \<Rightarrow> string \<Rightarrow> topology \<Rightarrow> unit option \<times> topology" where
  "bind_queue srv p c qName key s =
     (if exchangeName p \<noteq> [] \<and> exchangeName p \<noteq> ''amq.default'' \<and> \<not> skipBindingQueues p
      then andThen (ask srv (Queue_Bind qName (exchangeName p) key)) (\<lambda>_ s1.
             (Some (), recordBinding c
                \<lparr> bound_queue = qName, bound_exchange = exchangeName p, routingKey = key \<rparr> s1)) s
      else (Some (), s))"

text \<open>The queues from number \<open>i\<close> on, spread over the recordings \<open>cs\<close>; the result has them with their recording.\<close>

fun configure_each ::
  "server \<Rightarrow> topology_params \<Rightarrow> nat list \<Rightarrow> (nat \<Rightarrow> string) \<Rightarrow> nat \<Rightarrow> string list \<Rightarrow> topology \<Rightarrow>
   (nat \<times> string) list option \<times> topology" where
  "configure_each srv p cs key i [] s = (Some [], s)"
| "configure_each srv p cs key i (q # qs) s =
     (let c = cs ! (i mod length cs) in
      andThen (declare_queue srv p c q) (\<lambda>n.
        andThen (bind_queue srv p c n (key i)) (\<lambda>_.
          andThen (configure_each srv p cs key (Suc i) qs) (\<lambda>ns s1. (Some ((c, n) # ns), s1)))) s)"

text \<open>
  \<open>configureQueues\<close>, for a number of connections that is not zero: for each of them its recording and the
  names of its queues.
\<close>

definition configureQueues ::
  "server \<Rightarrow> topology_params \<Rightarrow> nat \<Rightarrow> string list \<Rightarrow> nat \<Rightarrow> (nat \<Rightarrow> string) \<Rightarrow> topology \<Rightarrow>
   (nat \<times> string list) list option \<times> topology" where
  "configureQueues srv p connections qs parent key s =
     andThen (open_channels srv parent connections) (\<lambda>cs.
       andThen (declare_exchange srv p (hd cs)) (\<lambda>_.
         andThen (configure_each srv p cs key 0 (if \<not> predeclared p \<and> qs = [] then [[]] else qs)) (\<lambda>ns s1.
           (Some (map (\<lambda>c. (c, map snd (filter (\<lambda>cn. fst cn = c) ns))) cs), s1)))) s"

section \<open>The handlers\<close>

text \<open>
  The handler of a sequence of queues. Its index starts at zero, moves on with each queue it configures,
  and is set back before the consumers are made.
\<close>

definition sequence_key :: "string option \<Rightarrow> string list \<Rightarrow> nat \<Rightarrow> string" where
  "sequence_key rk qs index = (case rk of None \<Rightarrow> qs ! (index mod length qs) | Some k \<Rightarrow> k)"

definition sequence_all ::
  "server \<Rightarrow> topology_params \<Rightarrow> nat \<Rightarrow> string list \<Rightarrow> string option \<Rightarrow> topology \<Rightarrow>
   (nat \<times> string list) list option \<times> topology" where
  "sequence_all srv p connections qs rk s =
     (if isExclusive p
      then (case open_children connections 0 s of (cs, s1) \<Rightarrow> (Some (map (\<lambda>c. (c, [])) cs), s1))
      else configureQueues srv p connections qs 0 (sequence_key rk qs) s)"

text \<open>
  The queue of consumer \<open>index\<close> and the recording it gets: with exclusive queues the queue is configured
  for the consumer, on its own connection or the one that has it already (\<open>next\<close> does nothing here, so that
  the routing key is that of the index); otherwise it is there, and the recording is a part of the
  run's. A call that is not accepted leaves as an exception, which ends the run.
\<close>

definition sequence_client ::
  "server \<Rightarrow> topology_params \<Rightarrow> string list \<Rightarrow> string option \<Rightarrow> nat \<Rightarrow> topology \<Rightarrow>
   (string list \<times> nat \<times> topology) jres" where
  "sequence_client srv p qs rk index s =
     (let mine = [qs ! (index mod length qs)] in
      if isExclusive p
      then (case configureQueues srv p 1 mine 0 (\<lambda>_. sequence_key rk qs index) s of
              (Some made, s1) \<Rightarrow> Inr (snd (hd made), fst (hd made), s1)
            | (None, s1) \<Rightarrow> Inl (Checked_Exception ''IOException or AlreadyClosedException''))
      else bindE (subRecording 0 (if predeclared p then [] else mine) s) (\<lambda>(c, s1). Inr (mine, c, s1)))"

text \<open>
  The consumers from number \<open>index\<close> on, one after the other, each with the recordings the former ones left;
  after each the index moves on.
\<close>

fun sequence_clients ::
  "server \<Rightarrow> topology_params \<Rightarrow> string list \<Rightarrow> string option \<Rightarrow> nat \<Rightarrow> nat \<Rightarrow> topology \<Rightarrow>
   ((string list \<times> nat) list \<times> topology) jres" where
  "sequence_clients srv p qs rk index 0 s = Inr ([], s)"
| "sequence_clients srv p qs rk index (Suc n) s =
     bindE (sequence_client srv p qs rk index s) (\<lambda>(mine, c, s1).
       bindE (sequence_clients srv p qs rk (Suc index) n s1) (\<lambda>(cs, s2). Inr ((mine, c) # cs, s2)))"

text \<open>The handler of fixed queues configures them again for each consumer.\<close>

definition fixed_client ::
  "server \<Rightarrow> topology_params \<Rightarrow> string list \<Rightarrow> string \<Rightarrow> topology \<Rightarrow> (nat \<times> string list) list option \<times> topology" where
  "fixed_client srv p qs key s = configureQueues srv p 1 qs 0 (\<lambda>_. key) s"

end
