(* ===== verification/Perf_Topology_Spec.thy ===== *)
theory Perf_Topology_Spec
  imports Perf_Queues
begin

text \<open>
  What a recovery restores: queues under their new names and their bindings; what is lost of a queue
  that is created again on its own, and of the recording of a consumer of a sequence; and the
  number of attempts to subscribe again.
\<close>

section \<open>Bindings among the calls\<close>

fun is_bind :: "server_call \<Rightarrow> bool" where
  "is_bind (Queue_Bind _ _ _) = True"
| "is_bind _ = False"

definition binds :: "topology \<Rightarrow> server_call list" where
  "binds s = filter is_bind (calls_made s)"

text \<open>
  An operation that makes no binding and leaves the recordings, and one that at most changes names of
  queues besides.
\<close>

definition asks_no_binding :: "(topology \<Rightarrow> 'a option \<times> topology) \<Rightarrow> bool" where
  "asks_no_binding f \<longleftrightarrow> (\<forall>s. binds (snd (f s)) = binds s \<and> recordings (snd (f s)) = recordings s)"

definition accepts_all :: "server \<Rightarrow> bool" where
  "accepts_all srv \<longleftrightarrow> (\<forall>log c. \<exists>n. srv log c = Accepted n)"

lemma quietI: "(\<And>s. binds (snd (f s)) = binds s \<and> recordings (snd (f s)) = recordings s) \<Longrightarrow> asks_no_binding f"
  by (simp add: asks_no_binding_def)

lemma quiet_ask: "\<not> is_bind c \<Longrightarrow> asks_no_binding (ask srv c)"
  by (simp add: asks_no_binding_def ask_def binds_def)

lemma quiet_andThen: "asks_no_binding m \<Longrightarrow> (\<And>x. asks_no_binding (f x)) \<Longrightarrow> asks_no_binding (andThen m f)"
  by (auto simp: asks_no_binding_def andThen_def split: prod.splits option.splits) (metis snd_conv)+

lemma quiet_pure: "asks_no_binding (\<lambda>s. (x, s))"
  by (simp add: asks_no_binding_def)

lemma quiet_if: "(b \<Longrightarrow> asks_no_binding f) \<Longrightarrow> (\<not> b \<Longrightarrow> asks_no_binding g) \<Longrightarrow> asks_no_binding (\<lambda>s. if b then f s else g s)"
  by (cases b) simp_all

lemma quiet_reliable: "asks_no_binding f \<Longrightarrow> asks_no_binding (reliableWrite srv f)"
proof -
  assume f: "asks_no_binding f"
  have g: "asks_no_binding (andThen (ask srv New_Channel) (\<lambda>_ s. (Some (), s)))"
    by (intro quiet_andThen quiet_ask quiet_pure) simp
  show ?thesis
  proof (rule quietI)
    fix s
    obtain r s1 where r: "f s = (r, s1)" by force
    have "binds s1 = binds s \<and> recordings s1 = recordings s" using f r by (metis asks_no_binding_def snd_conv)
    then show "binds (snd (reliableWrite srv f s)) = binds s \<and> recordings (snd (reliableWrite srv f s)) = recordings s"
      using g r by (cases r) (simp_all add: reliableWrite_def asks_no_binding_def)
  qed
qed

lemma quiet_discard: "asks_no_binding f \<Longrightarrow> asks_no_binding (\<lambda>s. discard (f s))"
  by (simp add: asks_no_binding_def discard_def)

lemma quiet_rename: "asks_no_binding (\<lambda>s. (x, rename_queue ref n s))"
  by (simp add: asks_no_binding_def rename_queue_def binds_def)

lemma quiet_redeclare: "asks_no_binding (redeclare_queue srv ref)"
proof (rule quietI)
  fix s :: topology
  let ?q = "queue_store s ! ref"
  have "asks_no_binding (andThen (ask srv (Queue_Declare (if serverNamed ?q then [] else queue_name ?q) (durable ?q)
      (exclusive ?q) (autoDelete ?q) (arguments ?q))) (\<lambda>n s1. (Some (), rename_queue ref n s1)))"
    by (intro quiet_andThen quiet_ask quiet_rename) simp
  then show "binds (snd (redeclare_queue srv ref s)) = binds s \<and> recordings (snd (redeclare_queue srv ref s)) = recordings s"
    by (simp add: redeclare_queue_def Let_def asks_no_binding_def)
qed

lemma quiet_must_redeclare: "asks_no_binding (must_redeclare srv q)"
proof (rule quietI)
  fix s :: topology
  have n: "asks_no_binding (andThen (ask srv New_Channel) (\<lambda>_ s2. (Some True, s2)))"
    by (intro quiet_andThen quiet_ask quiet_pure) simp
  let ?s1 = "s\<lparr> calls_made := calls_made s @ [Queue_Declare_Passive (queue_name q)] \<rparr>"
  have "binds ?s1 = binds s \<and> recordings ?s1 = recordings s" by (simp add: binds_def)
  moreover have "must_redeclare srv q s \<in> {(Some True, s), (Some False, ?s1), (None, ?s1),
      andThen (ask srv New_Channel) (\<lambda>_ s2. (Some True, s2)) ?s1}"
    by (simp add: must_redeclare_def Let_def split: server_answer.split)
  ultimately show "binds (snd (must_redeclare srv q s)) = binds s \<and> recordings (snd (must_redeclare srv q s)) = recordings s"
    using n unfolding asks_no_binding_def by fastforce
qed

lemma quiet_delete_former: "asks_no_binding (delete_former srv polling q)"
  unfolding delete_former_def by (intro quiet_if quiet_reliable quiet_discard quiet_ask quiet_pure) simp

lemma quiet_recoverQueue: "asks_no_binding (recoverQueue srv polling ref)"
proof (rule quietI)
  fix s :: topology
  let ?q = "queue_store s ! ref"
  let ?m = "andThen (must_redeclare srv ?q) (\<lambda>redeclare.
        andThen (\<lambda>s1. if redeclare then reliableWrite srv (redeclare_queue srv ref) s1 else (Some (), s1)) (\<lambda>_.
          delete_former srv polling ?q))"
  have "asks_no_binding ?m"
    by (intro quiet_andThen quiet_must_redeclare quiet_if quiet_reliable quiet_redeclare quiet_pure quiet_delete_former)
  moreover have "recoverQueue srv polling ref s = ?m s" by (simp only: recoverQueue_def Let_def)
  ultimately show "binds (snd (recoverQueue srv polling ref s)) = binds s \<and>
      recordings (snd (recoverQueue srv polling ref s)) = recordings s" by (simp only: asks_no_binding_def)
qed

lemma quiet_each: "(\<And>x. asks_no_binding (f x)) \<Longrightarrow> asks_no_binding (each_in_turn f xs)"
proof (induction xs)
  case (Cons x xs)
  have "each_in_turn f (x # xs) = andThen (f x) (\<lambda>_. each_in_turn f xs)" by (simp add: fun_eq_iff)
  then show ?case using Cons by (simp add: quiet_andThen)
qed (simp add: asks_no_binding_def)

lemma quiet_exchange: "asks_no_binding (exchangeDeclare srv n t)"
  unfolding exchangeDeclare_def by (intro quiet_discard quiet_ask) simp

section \<open>The calls of a recovery\<close>

text \<open>The calls for a queue, for a server that refuses nothing.\<close>

definition queue_calls :: "bool \<Rightarrow> recorded_queue \<Rightarrow> server_call list" where
  "queue_calls polling q =
     (if may_remain q
      then [Queue_Declare_Passive (queue_name q)]
      else [Queue_Declare (if serverNamed q then [] else queue_name q) (durable q) (exclusive q) (autoDelete q)
              (arguments q)]) @
     (if polling \<and> autoDelete q \<and> serverNamed q \<and> \<not> exclusive q then [Queue_Delete (queue_name q)] else [])"

definition bind_call :: "nat \<Rightarrow> topology \<Rightarrow> recorded_binding \<Rightarrow> server_call" where
  "bind_call i s b =
     (let n = queueName i (bound_queue b) s in
      Queue_Bind n (bound_exchange b) (if routingKeyIsQueue b then n else routingKey b))"

lemma queueName_calls [simp]: "queueName i q (s\<lparr> calls_made := c \<rparr>) = queueName i q s"
  by (simp add: queueName_def cong: option.case_cong)

lemma bind_call_calls [simp]: "bind_call i (s\<lparr> calls_made := c \<rparr>) = bind_call i s"
  by (simp add: bind_call_def fun_eq_iff)

lemma andThen_Some: "m s = (Some x, s1) \<Longrightarrow> andThen m f s = f x s1"
  by (simp add: andThen_def)

lemma ask_accepted:
  assumes "accepts_all srv"
  obtains n where "ask srv c s = (Some n, s\<lparr> calls_made := calls_made s @ [c] \<rparr>)"
proof -
  obtain n where "srv (calls_made s) c = Accepted n" using assms by (auto simp: accepts_all_def)
  then show ?thesis using that by (simp add: ask_def)
qed

lemma reliable_accepted: "f s = (Some x, s1) \<Longrightarrow> reliableWrite srv f s = (Some (), s1)"
  by (simp add: reliableWrite_def)

lemma reliable_ask_accepted:
  assumes "accepts_all srv"
  shows "reliableWrite srv (\<lambda>s. discard (ask srv c s)) s = (Some (), s\<lparr> calls_made := calls_made s @ [c] \<rparr>)"
proof -
  obtain n where "ask srv c s = (Some n, s\<lparr> calls_made := calls_made s @ [c] \<rparr>)" using ask_accepted [OF assms] .
  then show ?thesis by (intro reliable_accepted [of _ _ "()"]) (simp add: discard_def)
qed

lemma delete_former_accepted:
  "accepts_all srv \<Longrightarrow> delete_former srv polling q s =
    (Some (), s\<lparr> calls_made := calls_made s @
      (if polling \<and> autoDelete q \<and> serverNamed q \<and> \<not> exclusive q then [Queue_Delete (queue_name q)] else []) \<rparr>)"
  by (simp add: delete_former_def reliable_ask_accepted)

lemma recoverQueue_accepted:
  assumes "accepts_all srv"
  shows "\<exists>n. recoverQueue srv polling ref s =
    (Some (), s\<lparr> queue_store := (queue_store s)[ref := (queue_store s ! ref)\<lparr> queue_name := n \<rparr>],
                 calls_made := calls_made s @ queue_calls polling (queue_store s ! ref) \<rparr>)"
proof -
  let ?q = "queue_store s ! ref"
  note former = delete_former_accepted [OF assms, of polling ?q]
  show ?thesis
  proof (cases "may_remain ?q")
    case True
    obtain m where "srv (calls_made s) (Queue_Declare_Passive (queue_name ?q)) = Accepted m"
      using assms by (auto simp: accepts_all_def)
    then have "must_redeclare srv ?q s = (Some False, s\<lparr> calls_made := calls_made s @ [Queue_Declare_Passive (queue_name ?q)] \<rparr>)"
      using True by (simp add: must_redeclare_def)
    then show ?thesis using True
      by (intro exI [of _ "queue_name ?q"]) (simp add: recoverQueue_def Let_def andThen_def former queue_calls_def)
  next
    case False
    let ?d = "Queue_Declare (if serverNamed ?q then [] else queue_name ?q) (durable ?q) (exclusive ?q)
      (autoDelete ?q) (arguments ?q)"
    obtain n where n: "ask srv ?d s = (Some n, s\<lparr> calls_made := calls_made s @ [?d] \<rparr>)"
      using ask_accepted [OF assms] .
    let ?s1 = "rename_queue ref n (s\<lparr> calls_made := calls_made s @ [?d] \<rparr>)"
    have "redeclare_queue srv ref s = (Some (), ?s1)"
      by (simp add: redeclare_queue_def Let_def andThen_def n)
    then have re: "reliableWrite srv (redeclare_queue srv ref) s = (Some (), ?s1)" by (rule reliable_accepted)
    have "must_redeclare srv ?q s = (Some True, s)" using False by (simp add: must_redeclare_def)
    then have "recoverQueue srv polling ref s = delete_former srv polling ?q ?s1"
      unfolding recoverQueue_def Let_def by (simp add: andThen_Some re)
    then show ?thesis using False
      by (intro exI [of _ n]) (simp add: former rename_queue_def queue_calls_def)
  qed
qed

lemma recover_queues_accepted:
  assumes "accepts_all srv" "distinct (map snd ks)"
  shows "\<exists>store. each_in_turn (\<lambda>(k, ref). recoverQueue srv polling ref) ks s =
    (Some (), s\<lparr> queue_store := store,
       calls_made := calls_made s @ concat (map (\<lambda>(k, ref). queue_calls polling (queue_store s ! ref)) ks) \<rparr>)"
  using assms(2)
proof (induction ks arbitrary: s)
  case Nil
  show ?case by (intro exI [of _ "queue_store s"]) simp
next
  case (Cons kr ks)
  obtain k ref where kr: "kr = (k, ref)" by force
  obtain n where n: "recoverQueue srv polling ref s =
      (Some (), s\<lparr> queue_store := (queue_store s)[ref := (queue_store s ! ref)\<lparr> queue_name := n \<rparr>],
                   calls_made := calls_made s @ queue_calls polling (queue_store s ! ref) \<rparr>)"
    using recoverQueue_accepted [OF assms(1)] by blast
  let ?s1 = "s\<lparr> queue_store := (queue_store s)[ref := (queue_store s ! ref)\<lparr> queue_name := n \<rparr>],
                   calls_made := calls_made s @ queue_calls polling (queue_store s ! ref) \<rparr>"
  have same: "queue_store ?s1 ! r = queue_store s ! r" if "(l, r) \<in> set ks" for l r
    using that Cons.prems by (auto simp: kr image_iff nth_list_update_neq)
  have calls: "concat (map (\<lambda>(k, ref). queue_calls polling (queue_store ?s1 ! ref)) ks) =
      concat (map (\<lambda>(k, ref). queue_calls polling (queue_store s ! ref)) ks)"
    by (intro arg_cong [of _ _ concat] map_cong refl) (use same in auto)
  obtain store where "each_in_turn (\<lambda>(k, ref). recoverQueue srv polling ref) ks ?s1 =
    (Some (), ?s1\<lparr> queue_store := store,
       calls_made := calls_made ?s1 @ concat (map (\<lambda>(k, ref). queue_calls polling (queue_store ?s1 ! ref)) ks) \<rparr>)"
    using Cons.IH [of ?s1] Cons.prems by auto
  then show ?case unfolding calls by (intro exI [of _ store]) (simp add: kr andThen_def n)
qed

lemma recover_exchanges_accepted:
  assumes "accepts_all srv"
  shows "each_in_turn (\<lambda>(n, t). reliableWrite srv (exchangeDeclare srv n t)) es s =
    (Some (), s\<lparr> calls_made := calls_made s @ map (\<lambda>(n, t). Exchange_Declare n t) es \<rparr>)"
proof (induction es arbitrary: s)
  case (Cons e es)
  obtain n t where e: "e = (n, t)" by force
  let ?s1 = "s\<lparr> calls_made := calls_made s @ [Exchange_Declare n t] \<rparr>"
  have "reliableWrite srv (exchangeDeclare srv n t) s = (Some (), ?s1)"
    using reliable_ask_accepted [OF assms, of "Exchange_Declare n t" s]
    by (simp add: exchangeDeclare_def [abs_def])
  then show ?case using Cons by (simp add: e andThen_def)
qed simp

lemma recover_bindings_accepted:
  assumes "accepts_all srv"
  shows "each_in_turn (recover_binding srv i) bs s =
    (Some (), s\<lparr> calls_made := calls_made s @ map (bind_call i s) bs \<rparr>)"
proof (induction bs arbitrary: s)
  case (Cons b bs)
  let ?s1 = "s\<lparr> calls_made := calls_made s @ [bind_call i s b] \<rparr>"
  have "recover_binding srv i b s = reliableWrite srv (\<lambda>s1. discard (ask srv (bind_call i s b) s1)) s"
    by (simp add: recover_binding_def bind_call_def queueName_def Let_def)
  then have "recover_binding srv i b s = (Some (), ?s1)" by (simp add: reliable_ask_accepted [OF assms])
  then show ?case using Cons by (simp add: andThen_def)
qed simp

text \<open>
  C22: a recovery whose calls are all accepted makes exactly these, in this order: it declares each
  queue of the recording again with its options (a queue the server named without a name, and
  looks first whether it is still there when it can be), deletes the queues that polling leaves
  behind, declares the exchanges, and then makes every binding again, to the names the queues
  have by then, with the new name as routing key where the key was the name.
\<close>
theorem recovery_restores:
  assumes "accepts_all srv" "r = recordings s ! i" "distinct (map snd (rec_queues r))"
    and "s' = recover srv polling i s"
  shows "calls_made s' = calls_made s @ [New_Channel] @
           concat (map (\<lambda>(k, ref). queue_calls polling (queue_store s ! ref)) (rec_queues r)) @
           map (\<lambda>(n, t). Exchange_Declare n t) (rec_exchanges r) @ map (bind_call i s') (rec_bindings r)"
proof -
  let ?s1 = "s\<lparr> calls_made := calls_made s @ [New_Channel] \<rparr>"
  obtain m where m: "ask srv New_Channel s = (Some m, ?s1)" using ask_accepted [OF assms(1)] by blast
  obtain store where q: "each_in_turn (\<lambda>(k, ref). recoverQueue srv polling ref) (rec_queues r) ?s1 =
    (Some (), ?s1\<lparr> queue_store := store,
       calls_made := calls_made ?s1 @ concat (map (\<lambda>(k, ref). queue_calls polling (queue_store ?s1 ! ref)) (rec_queues r)) \<rparr>)"
    using recover_queues_accepted [OF assms(1,3)] by blast
  let ?s2 = "?s1\<lparr> queue_store := store,
       calls_made := calls_made ?s1 @ concat (map (\<lambda>(k, ref). queue_calls polling (queue_store ?s1 ! ref)) (rec_queues r)) \<rparr>"
  let ?s3 = "?s2\<lparr> calls_made := calls_made ?s2 @ map (\<lambda>(n, t). Exchange_Declare n t) (rec_exchanges r) \<rparr>"
  note x = recover_exchanges_accepted [OF assms(1), of "rec_exchanges r" ?s2]
  have "s' = snd (each_in_turn (recover_binding srv i) (rec_bindings r) ?s3)"
    unfolding assms(4) recover_def Let_def assms(2) [symmetric] 
      andThen_Some [of "ask srv New_Channel" s, OF m]
      andThen_Some [of "each_in_turn (\<lambda>(k, ref). recoverQueue srv polling ref) (rec_queues r)" ?s1, OF q]
      andThen_Some [of "each_in_turn (\<lambda>(n, t). reliableWrite srv (exchangeDeclare srv n t)) (rec_exchanges r)" ?s2, OF x] ..
  then have "s' = ?s3\<lparr> calls_made := calls_made ?s3 @ map (bind_call i ?s3) (rec_bindings r) \<rparr>"
    by (simp only: recover_bindings_accepted [OF assms(1)] snd_conv)
  moreover from this have "bind_call i s' = bind_call i ?s3" by (simp only: bind_call_calls)
  ultimately show ?thesis by simp
qed

text \<open>A server that names queues after the number of calls, and refuses nothing.\<close>

definition naming_server :: server where
  "naming_server made c =
     Accepted (case c of Queue_Declare n _ _ _ _ \<Rightarrow> if n = [] then ''gen-'' @ dec (length made) else n | _ \<Rightarrow> [])"

lemma naming_accepts: "accepts_all naming_server"
  by (simp add: accepts_all_def naming_server_def)

text \<open>A recording with a queue the server has named, bound under its name.\<close>

definition one_queue :: topology where
  "one_queue = \<lparr> queue_store = [\<lparr> queue_name = ''gen-0'', durable = True, exclusive = False, autoDelete = True,
                                arguments = [], serverNamed = True \<rparr>],
     recordings = [\<lparr> rec_exchanges = [(''direct'', ''direct'')], rec_queues = [(''gen-0'', 0)],
                     rec_bindings = [\<lparr> bound_queue = ''gen-0'', bound_exchange = ''direct'', routingKey = ''key'' \<rparr>],
                     rec_children = [] \<rparr>],
     calls_made = [] \<rparr>"

theorem recovery_restores_witness:
  "calls_made (recover naming_server False 0 one_queue) =
     [New_Channel, Queue_Declare [] True False True [], Exchange_Declare ''direct'' ''direct'',
      Queue_Bind ''gen-1'' ''direct'' ''key'']"
proof -
  have "distinct (map snd (rec_queues (recordings one_queue ! 0)))" by (simp add: one_queue_def)
  note calls = recovery_restores [OF naming_accepts refl this refl, of False]
  have name: "queueName 0 ''gen-0'' (recover naming_server False 0 one_queue) = ''gen-1''" by code_simp
  have b: "map (bind_call 0 (recover naming_server False 0 one_queue)) (rec_bindings (recordings one_queue ! 0)) =
      [Queue_Bind ''gen-1'' ''direct'' ''key'']"
    using name by (simp add: one_queue_def bind_call_def routingKeyIsQueue_def)
  show ?thesis unfolding calls b by (simp add: one_queue_def queue_calls_def may_remain_def)
qed

section \<open>A queue created again\<close>

lemma exists_on_server_leaves:
  "exists_on_server srv c s = (e, s1) \<Longrightarrow> \<not> is_bind c \<Longrightarrow>
   binds s1 = binds s \<and> recordings s1 = recordings s \<and> queue_store s1 = queue_store s"
  by (auto simp: exists_on_server_def andThen_def ask_def binds_def split: prod.splits option.splits)

lemma recoverQueueAndBindings_binds:
  assumes "getBindingsFor i (queue_name (queue_store s ! ref)) s = []"
  shows "binds (recoverQueueAndBindings srv polling i ref s) = binds s \<and>
         recordings (recoverQueueAndBindings srv polling i ref s) = recordings s"
proof -
  let ?old = "queue_name (queue_store s ! ref)"
  obtain r s1 where r: "ask srv New_Channel s = (r, s1)" by force
  have s1: "binds s1 = binds s" "recordings s1 = recordings s"
    using quiet_ask [of New_Channel srv] r by (auto simp: asks_no_binding_def) (metis snd_conv)+
  obtain q s2 where q: "recoverQueue srv polling ref s1 = (q, s2)" by force
  have s2: "binds s2 = binds s1" "recordings s2 = recordings s1"
    using quiet_recoverQueue [of srv polling ref] q by (auto simp: asks_no_binding_def) (metis snd_conv)+
  have "getBindingsFor i ?old s2 = []" using assms s1(2) s2(2) by (simp add: getBindingsFor_def)
  then show ?thesis using s1 s2
    by (cases r; cases q) (simp_all add: recoverQueueAndBindings_def Let_def andThen_def r q)
qed

lemma consume_binds:
  assumes "\<And>ref s'. queueRecord = Some ref \<Longrightarrow> recordings s' = recordings s \<Longrightarrow> queue_store s' = queue_store s \<Longrightarrow>
             getBindingsFor i (queue_name (queue_store s' ! ref)) s' = []"
  shows "binds (snd (consumeOrScheduleConsume srv polling cluster i queueRecord tag n s)) = binds s"
proof -
  obtain e s1 where e: "queue_exists srv n s = (e, s1)" by force
  then have s1: "binds s1 = binds s" "recordings s1 = recordings s" "queue_store s1 = queue_store s"
    using exists_on_server_leaves [of srv "Queue_Declare_Passive n"] by (simp_all add: queue_exists_def)
  have again: "binds (create_again srv polling i queueRecord s1) = binds s1"
  proof (cases queueRecord)
    case None
    then show ?thesis by (simp add: create_again_def ask_def binds_def)
  next
    case (Some ref)
    then show ?thesis
      using recoverQueueAndBindings_binds [OF assms [OF Some s1(2,3)]] by (simp add: create_again_def)
  qed
  have sub: "binds (snd (subscribe srv m tag t)) = binds t" for m t
    by (simp add: subscribe_def ask_def binds_def)
  show ?thesis
    using again sub s1(1)
    by (cases e) (simp_all add: consumeOrScheduleConsume_def andThen_def e Let_def)
qed

text \<open>
  C23: a queue that is created again on its own keeps its bindings once only. As long as it has the name
  it was recorded under, all its bindings are made again, to its new name; when the server has named it
  anew before, none is, whatever the server answers: they are looked for under the present name and kept
  under the first. So a consumer that the server cancels after a recovery ends on a queue
  without bindings.
\<close>
theorem bindings_lost:
  assumes "\<forall>b \<in> set (rec_bindings (recordings s ! i)). bound_queue b = k"
    and "map_of (rec_queues (recordings s ! i)) k = Some ref"
  shows "(queue_name (queue_store s ! ref) = k \<and> accepts_all srv \<and> s' = recoverQueueAndBindings srv polling i ref s \<longrightarrow>
            binds s' = binds s @ map (bind_call i s') (rec_bindings (recordings s ! i))) \<and>
         (queue_name (queue_store s ! ref) \<noteq> k \<longrightarrow>
            binds (recoverQueueAndBindings srv polling i ref s) = binds s \<and>
            binds (snd (handleCancel srv polling cluster i tag k s)) = binds s)"
proof (intro conjI impI; (elim conjE)?)
  assume k: "queue_name (queue_store s ! ref) = k" and acc: "accepts_all srv"
    and s': "s' = recoverQueueAndBindings srv polling i ref s"
  let ?s1 = "s\<lparr> calls_made := calls_made s @ [New_Channel] \<rparr>" and ?bs = "rec_bindings (recordings s ! i)"
  obtain m where m: "ask srv New_Channel s = (Some m, ?s1)" using ask_accepted [OF acc] .
  obtain s2 where n: "recoverQueue srv polling ref ?s1 = (Some (), s2)"
    and s2: "calls_made s2 = calls_made s @ New_Channel # queue_calls polling (queue_store s ! ref)"
      "recordings s2 = recordings s"
    using recoverQueue_accepted [OF acc, of polling ref ?s1] by auto
  let ?n = "queue_name (queue_store s2 ! ref)"
  have bs: "getBindingsFor i k s2 = ?bs" using assms(1) by (simp add: getBindingsFor_def s2)
  let ?call = "\<lambda>b. Queue_Bind ?n (bound_exchange b) (if routingKeyIsQueue b then ?n else routingKey b)"
  have each: "each_in_turn (\<lambda>b s2. discard (ask srv (?call b) s2)) xs t =
      (Some (), t\<lparr> calls_made := calls_made t @ map ?call xs \<rparr>)" for xs t
  proof (induction xs arbitrary: t)
    case (Cons b xs)
    obtain m where "ask srv (?call b) t = (Some m, t\<lparr> calls_made := calls_made t @ [?call b] \<rparr>)"
      using ask_accepted [OF acc] .
    then show ?case using Cons by (simp add: andThen_def discard_def)
  qed simp
  have s'2: "s' = s2\<lparr> calls_made := calls_made s2 @ map ?call ?bs \<rparr>"
    unfolding s' recoverQueueAndBindings_def Let_def
      andThen_Some [of "ask srv New_Channel" s, OF m] andThen_Some [of "recoverQueue srv polling ref" ?s1, OF n]
    by (simp only: k bs each snd_conv)
  have mm: "map ?call ?bs = map (bind_call i s') ?bs"
    using assms by (intro map_cong refl) (simp add: s'2 bind_call_def queueName_def Let_def s2)
  have "calls_made s' = calls_made s2 @ map ?call ?bs" by (simp add: s'2)
  then have "calls_made s' = calls_made s2 @ map (bind_call i s') ?bs" by (simp only: mm)
  moreover have "filter is_bind (queue_calls polling q) = []" for q by (simp add: queue_calls_def)
  moreover have "filter is_bind (map (bind_call i s') xs) = map (bind_call i s') xs" for xs
    by (induction xs) (simp_all add: bind_call_def Let_def)
  ultimately show "binds s' = binds s @ map (bind_call i s') ?bs" by (simp add: binds_def s2)
next
  assume k: "queue_name (queue_store s ! ref) \<noteq> k"
  have none: "getBindingsFor i (queue_name (queue_store t ! ref)) t = []"
    if "recordings t = recordings s" "queue_store t = queue_store s" for t
    using assms(1) k that by (auto simp: getBindingsFor_def filter_empty_conv)
  show "binds (recoverQueueAndBindings srv polling i ref s) = binds s"
    using recoverQueueAndBindings_binds none by blast
  show "binds (snd (handleCancel srv polling cluster i tag k s)) = binds s"
    unfolding handleCancel_def assms(2) by (rule consume_binds) (use none in simp)
qed

text \<open>The queue the server knew first is gone.\<close>

definition gone_server :: server where
  "gone_server made c = (if c = Queue_Declare_Passive ''gen-0'' then Not_Found else naming_server made c)"

theorem bindings_lost_witness:
  "let s = recover naming_server False 0 one_queue;
       t = snd (handleCancel gone_server False False 0 ''tag'' ''gen-0'' s)
   in binds t = binds s \<and> last (calls_made t) = Basic_Consume ''gen-7'' ''tag''"
proof -
  let ?s = "recover naming_server False 0 one_queue"
  let ?t = "snd (handleCancel gone_server False False 0 ''tag'' ''gen-0'' ?s)"
  have "(\<forall>b \<in> set (rec_bindings (recordings ?s ! 0)). bound_queue b = ''gen-0'') \<and>
      map_of (rec_queues (recordings ?s ! 0)) ''gen-0'' = Some 0 \<and>
      queue_name (queue_store ?s ! 0) \<noteq> ''gen-0'' \<and> last (calls_made ?t) = Basic_Consume ''gen-7'' ''tag''"
    by code_simp
  then show ?thesis
    using bindings_lost [where s = ?s and i = 0 and k = "''gen-0''" and ref = 0 and srv = gone_server and
        polling = False and cluster = False and tag = "''tag''"] by (simp add: Let_def)
qed

section \<open>Subscribing again\<close>

lemma resubscription_from:
  assumes "int n + int (length answers) \<ge> 121" "int n \<le> 120"
  shows "\<exists>m ok. resubscription (int n) answers = Some (m, ok) \<and> n + m \<le> 121 \<and> 0 < m \<and> m \<le> length answers \<and>
           \<not> (\<exists>a \<in> set (take (m - 1) answers). a) \<and> ok = answers ! (m - 1) \<and> (\<not> ok \<longrightarrow> n + m = 121)"
  using assms
proof (induction answers arbitrary: n)
  case (Cons a answers)
  show ?case
  proof (cases "a \<or> n = 120")
    case True
    then show ?thesis using Cons.prems by (intro exI [of _ 1] exI [of _ a]) (auto simp: maxRetry_def)
  next
    case False
    then have n: "int (Suc n) + int (length answers) \<ge> 121" "int (Suc n) \<le> 120" using Cons.prems by simp_all
    obtain m ok where m: "resubscription (int (Suc n)) answers = Some (m, ok)" "Suc n + m \<le> 121" "0 < m" "m \<le> length answers"
      "\<not> (\<exists>a \<in> set (take (m - 1) answers). a)" "ok = answers ! (m - 1)" "\<not> ok \<longrightarrow> Suc n + m = 121"
      using Cons.IH [OF n] by blast
    have "resubscription (int n) (a # answers) = Some (Suc m, ok)"
      using False m(1) n(2) by (simp add: maxRetry_def add.commute)
    moreover have "take (Suc m - 1) (a # answers) = a # take (m - 1) answers" using m(3) by (simp add: take_Cons')
    ultimately show ?thesis using m(2-7) False by (intro exI [of _ "Suc m"] exI [of _ ok]) (simp add: nth_Cons')
  qed
qed simp

text \<open>
  The attempts to subscribe again end: at the first check that finds the queue, which is
  subscribed to, or without a subscription after the check number 121.
\<close>
theorem resubscription_ends:
  assumes "121 \<le> length answers"
  shows "\<exists>m ok. resubscription 0 answers = Some (m, ok) \<and> 0 < m \<and> m \<le> 121 \<and>
           \<not> (\<exists>a \<in> set (take (m - 1) answers). a) \<and> ok = answers ! (m - 1) \<and> (\<not> ok \<longrightarrow> m = 121)"
  using resubscription_from [of 0 answers] assms by auto

theorem resubscription_ends_witness:
  "resubscription 0 (replicate 121 False) = Some (121, False)"
proof -
  let ?answers = "replicate 121 False"
  have "121 \<le> length ?answers" by (simp only: length_replicate)
  from resubscription_ends [OF this] obtain m ok where m: "resubscription 0 ?answers = Some (m, ok)" "0 < m" "m \<le> 121"
    "ok = ?answers ! (m - 1)" "\<not> ok \<longrightarrow> m = 121" by blast
  have "m - 1 < 121" using m(2,3) by linarith
  then have "\<not> ok" using m(4) nth_replicate [of "m - 1" 121 False] by metis
  then have "m = 121" "ok = False" using m(5) by simp_all
  then show ?thesis using m(1) by (simp only:)
qed

end
