(* ===== verification/Perf_Queues_Invariant.thy ===== *)
theory Perf_Queues_Invariant
  imports Perf_Queues
begin

text \<open>
  Properties that the configuration of the queues keeps: the locale of those that each way of
  recording keeps, carried to whole handlers, and its instances on the recordings of a run.
\<close>

section \<open>Properties kept by recording\<close>

text \<open>\<open>fresh c\<close>: what may be said of the recordings that are written to, children of the first.\<close>

locale topology_invariant =
  fixes P :: "topology \<Rightarrow> bool" and fresh :: "nat \<Rightarrow> bool"
  assumes calls [simp]: "P (s\<lparr> calls_made := made \<rparr>) = P s"
    and exchange: "fresh c \<Longrightarrow> P s \<Longrightarrow> P (recordExchange c n t s)"
    and queue: "fresh c \<Longrightarrow> P s \<Longrightarrow> P (recordQueue c q s)"
    and binding: "fresh c \<Longrightarrow> P s \<Longrightarrow> P (recordBinding c b s)"
    and first_child: "P s \<Longrightarrow> child 0 s = (c, s1) \<Longrightarrow> P s1 \<and> fresh c"
begin

definition leaves :: "(topology \<Rightarrow> 'a option \<times> topology) \<Rightarrow> bool" where
  "leaves f \<longleftrightarrow> (\<forall>s. P s \<longrightarrow> P (snd (f s)))"

lemma leavesD: "leaves f \<Longrightarrow> P s \<Longrightarrow> f s = (r, s1) \<Longrightarrow> P s1"
  by (metis leaves_def snd_conv)

lemma leaves_andThen: "leaves m \<Longrightarrow> (\<And>x. leaves (f x)) \<Longrightarrow> leaves (andThen m f)"
  by (auto simp: leaves_def andThen_def split: prod.splits option.splits)

lemma leaves_pure: "leaves (\<lambda>s. (x, s))"
  by (simp add: leaves_def)

lemma leaves_ask: "leaves (ask srv c)"
  by (simp add: leaves_def ask_def)

lemma leaves_exists_on_server: "leaves (exists_on_server srv c)"
  unfolding exists_on_server_def by (intro leaves_andThen leaves_ask) (simp add: leaves_def)

lemma leaves_exists: "leaves (queue_exists srv n)" "leaves (exchangeExists srv n)"
  using leaves_exists_on_server by (simp_all add: queue_exists_def exchangeExists_def leaves_def)

lemma leaves_if: "leaves f \<Longrightarrow> leaves g \<Longrightarrow> leaves (\<lambda>s. if b then f s else g s)"
  by (cases b) simp_all

lemma leaves_fun_if: "leaves f \<Longrightarrow> leaves g \<Longrightarrow> leaves (if b then f else g)"
  by simp

lemma leaves_declare_exchange: "fresh c \<Longrightarrow> leaves (declare_exchange srv p c)"
proof -
  assume c: "fresh c"
  have r: "leaves (\<lambda>s1. (Some (), recordExchange c n t s1))" for n t
    using exchange [OF c] by (simp add: leaves_def)
  have e: "leaves (exchangeDeclare srv n t)" for n t
    using leaves_ask [of srv] by (simp add: leaves_def exchangeDeclare_def discard_def)
  show ?thesis unfolding declare_exchange_def
    by (intro leaves_andThen leaves_if leaves_fun_if leaves_pure leaves_exists r e)
qed

lemma leaves_declare_queue: "fresh c \<Longrightarrow> leaves (declare_queue srv p c q)"
proof -
  assume c: "fresh c"
  have r: "leaves (\<lambda>s1. (Some n, recordQueue c x s1))" for n x
    using queue [OF c] by (simp add: leaves_def)
  show ?thesis unfolding declare_queue_def
    by (intro leaves_andThen leaves_if leaves_fun_if leaves_pure leaves_exists leaves_ask r)
qed

lemma leaves_bind_queue: "fresh c \<Longrightarrow> leaves (bind_queue srv p c q key)"
proof -
  assume c: "fresh c"
  have r: "leaves (\<lambda>s1. (Some (), recordBinding c b s1))" for b
    using binding [OF c] by (simp add: leaves_def)
  show ?thesis unfolding bind_queue_def
    by (intro leaves_andThen leaves_if leaves_pure leaves_ask r)
qed

lemma leaves_configure_each:
  "\<forall>c \<in> set cs. fresh c \<Longrightarrow> cs \<noteq> [] \<Longrightarrow> leaves (configure_each srv p cs key i qs)"
proof (induction qs arbitrary: i)
  case Nil
  then show ?case by (simp add: leaves_def)
next
  case (Cons q qs)
  let ?c = "cs ! (i mod length cs)"
  have c: "fresh ?c" using Cons.prems by simp
  have "leaves (andThen (declare_queue srv p ?c q) (\<lambda>n.
        andThen (bind_queue srv p ?c n (key i)) (\<lambda>_.
          andThen (configure_each srv p cs key (Suc i) qs) (\<lambda>ns s1. (Some ((?c, n) # ns), s1)))))"
    by (intro leaves_andThen leaves_declare_queue leaves_bind_queue leaves_pure Cons.IH c Cons.prems)
  then show ?case by (simp add: leaves_def Let_def)
qed

lemma open_channels_keeps:
  "P s \<Longrightarrow> open_channels srv 0 k s = (r, s1) \<Longrightarrow>
   P s1 \<and> (\<forall>cs. r = Some cs \<longrightarrow> length cs = k \<and> (\<forall>c \<in> set cs. fresh c))"
proof (induction k arbitrary: s r s1)
  case (Suc k)
  obtain a s2 where a: "ask srv New_Channel s = (a, s2)" by force
  have b2: "P s2" using leavesD [OF leaves_ask Suc.prems(1) a] .
  show ?case
  proof (cases a)
    case None
    then show ?thesis using Suc.prems(2) a b2 by (auto simp: andThen_def)
  next
    case (Some m)
    obtain c s3 where c: "child 0 s2 = (c, s3)" by force
    obtain q s4 where q: "open_channels srv 0 k s3 = (q, s4)" by force
    have "fresh c" "P s3" using first_child [OF b2 c] by simp_all
    with Suc.IH [OF _ q] show ?thesis using Suc.prems(2) Some a c q
      by (cases q) (auto simp: andThen_def)
  qed
qed auto

lemma configureQueues_keeps:
  assumes "P s" "0 < connections"
  shows "P (snd (configureQueues srv p connections qs 0 key s))"
proof -
  obtain r s1 where r: "open_channels srv 0 connections s = (r, s1)" by force
  note o = open_channels_keeps [OF assms(1) r]
  show ?thesis
  proof (cases r)
    case None
    then show ?thesis using o r by (simp add: configureQueues_def andThen_def)
  next
    case (Some cs)
    then have cs: "cs \<noteq> []" "\<forall>c \<in> set cs. fresh c" using o assms(2) by auto
    let ?rest = "andThen (declare_exchange srv p (hd cs)) (\<lambda>_.
        andThen (configure_each srv p cs key 0 (if \<not> predeclared p \<and> qs = [] then [[]] else qs)) (\<lambda>ns s1.
          (Some (map (\<lambda>c. (c, map snd (filter (\<lambda>cn. fst cn = c) ns))) cs), s1)))"
    have "leaves ?rest"
      using cs by (intro leaves_andThen leaves_declare_exchange leaves_configure_each leaves_pure) auto
    moreover have "configureQueues srv p connections qs 0 key s = ?rest s1"
      using r Some by (simp add: configureQueues_def andThen_def)
    ultimately show ?thesis using o by (simp add: leaves_def)
  qed
qed

end

section \<open>Recordings one by one\<close>

lemma length_change [simp]: "length (recordings (change_recording c f s)) = length (recordings s)"
  "recordings (change_recording c f s) = [] \<longleftrightarrow> recordings s = []"
  by (simp_all add: change_recording_def)

lemma nth_change:
  "recordings (change_recording c f s) ! i =
     (if i = c \<and> c < length (recordings s) then f (recordings s ! i) else recordings s ! i)"
  by (cases "c < length (recordings s)") (auto simp: change_recording_def nth_list_update list_update_beyond)

lemma store_change [simp]: "queue_store (change_recording c f s) = queue_store s"
  by (simp add: change_recording_def)

lemma length_recorded [simp]:
  "length (recordings (recordExchange c n t s)) = length (recordings s)"
  "length (recordings (recordQueue c q s)) = length (recordings s)"
  "length (recordings (recordBinding c b s)) = length (recordings s)"
  "recordings (recordExchange c n t s) = [] \<longleftrightarrow> recordings s = []"
  "recordings (recordQueue c q s) = [] \<longleftrightarrow> recordings s = []"
  "recordings (recordBinding c b s) = [] \<longleftrightarrow> recordings s = []"
  by (simp_all add: recordExchange_def recordQueue_def recordBinding_def)

lemma children_recorded [simp]:
  "rec_children (recordings (recordExchange c n t s) ! i) = rec_children (recordings s ! i)"
  "rec_children (recordings (recordQueue c q s) ! i) = rec_children (recordings s ! i)"
  "rec_children (recordings (recordBinding c b s) ! i) = rec_children (recordings s ! i)"
  by (simp_all add: recordExchange_def recordQueue_def recordBinding_def nth_change)

lemma queues_recorded [simp]:
  "rec_queues (recordings (recordExchange c n t s) ! i) = rec_queues (recordings s ! i)"
  "rec_queues (recordings (recordBinding c b s) ! i) = rec_queues (recordings s ! i)"
  "rec_queues (recordings (recordQueue c q s) ! i) =
     (if i = c \<and> c < length (recordings s)
      then put_if_absent (queue_name q) (length (queue_store s)) (rec_queues (recordings s ! i))
      else rec_queues (recordings s ! i))"
  by (simp_all add: recordExchange_def recordQueue_def recordBinding_def nth_change)

lemma store_recorded [simp]:
  "queue_store (recordExchange c n t s) = queue_store s"
  "queue_store (recordBinding c b s) = queue_store s"
  "queue_store (recordQueue c q s) = queue_store s @ [q]"
  by (simp_all add: recordExchange_def recordQueue_def recordBinding_def)

lemma child_made:
  assumes "child i s = (c, s1)" "i < length (recordings s)"
  shows "c = length (recordings s)" "length (recordings s1) = Suc c" "queue_store s1 = queue_store s"
    "recordings s1 ! c = empty_recording" "recordings s1 \<noteq> []"
    "j < c \<Longrightarrow> recordings s1 ! j =
       (if j = i then (recordings s ! j)\<lparr> rec_children := rec_children (recordings s ! j) @ [c] \<rparr> else recordings s ! j)"
proof -
  have s1: "c = length (recordings s)"
    "s1 = change_recording i (\<lambda>r. r\<lparr> rec_children := rec_children r @ [c] \<rparr>)
            (s\<lparr> recordings := recordings s @ [empty_recording] \<rparr>)"
    using assms(1) by (auto simp: child_def Let_def)
  then show "c = length (recordings s)" "length (recordings s1) = Suc c" "queue_store s1 = queue_store s"
    "recordings s1 ! c = empty_recording" "recordings s1 \<noteq> []"
    "j < c \<Longrightarrow> recordings s1 ! j =
       (if j = i then (recordings s ! j)\<lparr> rec_children := rec_children (recordings s ! j) @ [c] \<rparr> else recordings s ! j)"
    using assms(2) by (auto simp: nth_change nth_append)
qed

text \<open>A child is made after its parent.\<close>

definition children_later :: "topology \<Rightarrow> bool" where
  "children_later s \<longleftrightarrow> recordings s \<noteq> [] \<and>
     (\<forall>i < length (recordings s). \<forall>c \<in> set (rec_children (recordings s ! i)). i < c \<and> c < length (recordings s))"

lemma children_later_recorded [simp]:
  "children_later (s\<lparr> calls_made := made \<rparr>) = children_later s"
  "children_later (recordExchange c n t s) = children_later s"
  "children_later (recordQueue c q s) = children_later s"
  "children_later (recordBinding c b s) = children_later s"
  unfolding children_later_def by simp_all

section \<open>The search for a queue\<close>

definition child_of :: "topology \<Rightarrow> nat \<Rightarrow> nat \<Rightarrow> bool" where
  "child_of s i c \<longleftrightarrow> c \<in> set (rec_children (recordings s ! i))"

lemma child_of_later:
  "children_later s \<Longrightarrow> child_of s i c \<Longrightarrow> i < length (recordings s) \<Longrightarrow> i < c \<and> c < length (recordings s)"
  unfolding children_later_def child_of_def by blast

lemma first_some_None: "first_some f xs = None \<longleftrightarrow> (\<forall>x \<in> set xs. f x = None)"
  by (induction xs) (auto split: option.split)

lemma first_some_Some: "first_some f xs = Some y \<Longrightarrow> \<exists>x \<in> set xs. f x = Some y"
  by (induction xs) (auto split: option.splits)

lemma lookup_down_sound:
  "lookup_down d s q i = Some ref \<Longrightarrow> \<exists>c. (child_of s)\<^sup>*\<^sup>* i c \<and> map_of (rec_queues (recordings s ! c)) q = Some ref"
proof (induction d arbitrary: i)
  case (Suc d)
  show ?case
  proof (cases "map_of (rec_queues (recordings s ! i)) q")
    case None
    then obtain k where "child_of s i k" "lookup_down d s q k = Some ref"
      using Suc.prems by (auto simp: child_of_def dest: first_some_Some)
    then show ?thesis using Suc.IH by (metis converse_rtranclp_into_rtranclp)
  qed (use Suc.prems in auto)
qed simp

lemma lookup_down_finds:
  assumes "children_later s" "(child_of s)\<^sup>*\<^sup>* i c" "q \<in> fst ` set (rec_queues (recordings s ! c))"
    and "i < length (recordings s)" "length (recordings s) \<le> d + i"
  shows "lookup_down d s q i \<noteq> None"
  using assms(2-5)
proof (induction arbitrary: d rule: converse_rtranclp_induct)
  case base
  then obtain e where "d = Suc e" by (cases d) auto
  moreover have "map_of (rec_queues (recordings s ! c)) q \<noteq> None" using base by (simp add: map_of_eq_None_iff)
  ultimately show ?case by (auto split: option.split)
next
  case (step i k)
  then obtain e where d: "d = Suc e" by (cases d) auto
  have k: "i < k" "k < length (recordings s)" using child_of_later [OF assms(1) step(1,5)] by simp_all
  have "lookup_down e s q k \<noteq> None" using step(3) [OF step(4) k(2)] k(1) step(6) d by simp
  then have "first_some (lookup_down e s q) (rec_children (recordings s ! i)) \<noteq> None"
    using step(1) by (auto simp: first_some_None child_of_def)
  then show ?case by (auto simp: d split: option.split)
qed

lemma child_of_length:
  "(child_of s)\<^sup>*\<^sup>* i c \<Longrightarrow> children_later s \<Longrightarrow> i < length (recordings s) \<Longrightarrow> c < length (recordings s)"
  by (induction rule: rtranclp_induct) (auto dest: child_of_later)

text \<open>
  The depth \<open>lookupQueueInHierarchy\<close> starts with is enough: it finds a queue exactly when the recording or
  one below it has it.
\<close>

lemma lookup_iff:
  assumes "children_later s" "i < length (recordings s)"
  shows "lookupQueueInHierarchy q i s \<noteq> None \<longleftrightarrow>
         (\<exists>c. (child_of s)\<^sup>*\<^sup>* i c \<and> q \<in> fst ` set (rec_queues (recordings s ! c)))"
proof
  assume "lookupQueueInHierarchy q i s \<noteq> None"
  then obtain ref where "lookup_down (length (recordings s)) s q i = Some ref" by (auto simp: lookupQueueInHierarchy_def)
  from lookup_down_sound [OF this] obtain c where "(child_of s)\<^sup>*\<^sup>* i c" "map_of (rec_queues (recordings s ! c)) q = Some ref"
    by blast
  moreover have "q \<in> fst ` set (rec_queues (recordings s ! c))" using map_of_SomeD [OF calculation(2)] by force
  ultimately show "\<exists>c. (child_of s)\<^sup>*\<^sup>* i c \<and> q \<in> fst ` set (rec_queues (recordings s ! c))" by blast
next
  assume "\<exists>c. (child_of s)\<^sup>*\<^sup>* i c \<and> q \<in> fst ` set (rec_queues (recordings s ! c))"
  then show "lookupQueueInHierarchy q i s \<noteq> None"
    unfolding lookupQueueInHierarchy_def using lookup_down_finds [OF assms(1) _ _ assms(2)] by fastforce
qed

text \<open>What the search finds is recorded somewhere below.\<close>

definition known :: "string \<Rightarrow> nat \<Rightarrow> topology \<Rightarrow> bool" where
  "known q ref s \<longleftrightarrow> (\<exists>i < length (recordings s). map_of (rec_queues (recordings s ! i)) q = Some ref)"

lemma lookup_known:
  assumes "children_later s" "lookupQueueInHierarchy q 0 s = Some ref"
  shows "known q ref s"
proof -
  have z: "0 < length (recordings s)" using assms(1) by (simp add: children_later_def)
  obtain c where "(child_of s)\<^sup>*\<^sup>* 0 c" "map_of (rec_queues (recordings s ! c)) q = Some ref"
    using assms(2) lookup_down_sound unfolding lookupQueueInHierarchy_def by blast
  then show ?thesis using child_of_length [OF _ assms(1) z] by (auto simp: known_def)
qed

section \<open>Properties kept by the consumers\<close>

text \<open>The record of a queue given to one more recording, and an exchange that goes with it.\<close>

definition share_queue :: "nat \<Rightarrow> string \<Rightarrow> nat \<Rightarrow> topology \<Rightarrow> topology" where
  "share_queue c q ref = change_recording c (\<lambda>r. r\<lparr> rec_queues := put_if_absent q ref (rec_queues r) \<rparr>)"

definition share_exchange :: "nat \<Rightarrow> string \<Rightarrow> string \<Rightarrow> topology \<Rightarrow> topology" where
  "share_exchange c n t = change_recording c (\<lambda>r. r\<lparr> rec_exchanges := put n t (rec_exchanges r) \<rparr>)"

lemma length_shared [simp]:
  "length (recordings (share_queue c q ref s)) = length (recordings s)"
  "length (recordings (share_exchange c n t s)) = length (recordings s)"
  "recordings (share_queue c q ref s) = [] \<longleftrightarrow> recordings s = []"
  "recordings (share_exchange c n t s) = [] \<longleftrightarrow> recordings s = []"
  "queue_store (share_queue c q ref s) = queue_store s"
  "queue_store (share_exchange c n t s) = queue_store s"
  by (simp_all add: share_queue_def share_exchange_def)

lemma children_shared [simp]:
  "rec_children (recordings (share_queue c q ref s) ! i) = rec_children (recordings s ! i)"
  "rec_children (recordings (share_exchange c n t s) ! i) = rec_children (recordings s ! i)"
  "rec_queues (recordings (share_exchange c n t s) ! i) = rec_queues (recordings s ! i)"
  "rec_queues (recordings (share_queue c q ref s) ! i) =
     (if i = c \<and> c < length (recordings s) then put_if_absent q ref (rec_queues (recordings s ! i))
      else rec_queues (recordings s ! i))"
  by (simp_all add: share_queue_def share_exchange_def nth_change)

lemma children_later_shared [simp]:
  "children_later (share_queue c q ref s) = children_later s"
  "children_later (share_exchange c n t s) = children_later s"
  unfolding children_later_def by simp_all

lemma children_later_child:
  assumes "children_later s" "i < length (recordings s)" "child i s = (c, s1)"
  shows "children_later s1"
proof -
  note made = child_made [OF assms(3,2)]
  have "j < k \<and> k < Suc c" if "j < Suc c" "k \<in> set (rec_children (recordings s1 ! j))" for j k
  proof (cases "j = c")
    case True
    then show ?thesis using that(2) made(4) by (simp add: empty_recording_def)
  next
    case False
    then have j: "j < c" using that(1) by simp
    then have "k \<in> set (rec_children (recordings s ! j)) \<or> k = c" using that(2) made(6) [OF j] by (auto split: if_splits)
    moreover have "j < k \<and> k < c" if "k \<in> set (rec_children (recordings s ! j))"
      using that j assms(1) unfolding children_later_def made(1) by blast
    ultimately show ?thesis using j by auto
  qed
  then show ?thesis using made(5) unfolding children_later_def made(2) by blast
qed

locale client_invariant = topology_invariant +
  assumes queue_shared: "fresh c \<Longrightarrow> P s \<Longrightarrow> known q ref s \<Longrightarrow> P (share_queue c q ref s)"
    and exchange_shared: "fresh c \<Longrightarrow> P s \<Longrightarrow> P (share_exchange c n t s)"
begin

lemma copy_bindings_keeps:
  "copy_bindings i c bs s = Inr s' \<Longrightarrow> fresh c \<Longrightarrow> P s \<Longrightarrow> children_later s \<Longrightarrow> P s' \<and> children_later s'"
proof (induction bs arbitrary: s)
  case (Cons b bs)
  obtain t where "copy_bindings i c bs (share_exchange c (bound_exchange b) t (recordBinding c b s)) = Inr s'"
    using Cons.prems(1) by (auto simp: Let_def share_exchange_def split: option.splits)
  then show ?case by (rule Cons.IH) (use Cons.prems in \<open>simp_all add: exchange_shared binding\<close>)
qed simp

lemma sub_record_keeps:
  "sub_record 0 c qs s = Inr s' \<Longrightarrow> fresh c \<Longrightarrow> P s \<Longrightarrow> children_later s \<Longrightarrow> P s'"
proof (induction qs arbitrary: s)
  case (Cons q qs)
  obtain ref s1 where ref: "lookupQueueInHierarchy q 0 s = Some ref"
    and s1: "copy_bindings 0 c (getBindingsFor 0 q s) (share_queue c q ref s) = Inr s1"
    and rest: "sub_record 0 c qs s1 = Inr s'"
    using Cons.prems(1) by (auto simp: share_queue_def bindE_Inr_iff split: option.splits)
  have "P (share_queue c q ref s)"
    using queue_shared [OF Cons.prems(2,3) lookup_known [OF Cons.prems(4) ref] ] .
  with copy_bindings_keeps [OF s1 Cons.prems(2)] Cons.prems(4) have "P s1" "children_later s1" by simp_all
  then show ?case using Cons.IH [OF rest Cons.prems(2)] by blast
qed simp

lemma client_keeps:
  assumes "sequence_client srv p qs rk i s = Inr (mine, c, s')" "P s" "children_later s"
  shows "P s'"
proof (cases "isExclusive p")
  case True
  then show ?thesis
    using assms(1) configureQueues_keeps [OF assms(2), of 1 srv p "[qs ! (i mod length qs)]" "\<lambda>_. sequence_key rk qs i"]
    by (auto simp: sequence_client_def Let_def split: prod.splits option.splits)
next
  case False
  let ?qs = "if predeclared p then [] else [qs ! (i mod length qs)]"
  obtain s1 where s1: "child 0 s = (c, s1)" "sub_record 0 c ?qs s1 = Inr s'"
    using assms(1) False by (auto simp: sequence_client_def subRecording_def Let_def bindE_Inr_iff split: prod.splits if_splits)
  have "0 < length (recordings s)" using assms(3) by (simp add: children_later_def)
  then have "children_later s1" using children_later_child [OF assms(3) _ s1(1)] by blast
  then show ?thesis using sub_record_keeps [OF s1(2)] first_child [OF assms(2) s1(1)] by blast
qed

end

section \<open>Instances\<close>

text \<open>The recording of the run holds no binding, no exchange and no queue itself.\<close>

definition bare :: "topology \<Rightarrow> bool" where
  "bare s \<longleftrightarrow> recordings s \<noteq> [] \<and> rec_bindings (recordings s ! 0) = [] \<and> rec_exchanges (recordings s ! 0) = [] \<and>
     rec_queues (recordings s ! 0) = []"

lemma bare_calls [simp]: "bare (s\<lparr> calls_made := c \<rparr>) = bare s" "bare (s\<lparr> queue_store := qs \<rparr>) = bare s"
  by (simp_all add: bare_def)

lemma bare_change: "c \<noteq> 0 \<Longrightarrow> bare s \<Longrightarrow> bare (change_recording c f s)"
  by (simp add: bare_def nth_change)

lemma bare_child: "bare s \<Longrightarrow> child 0 s = (c, s1) \<Longrightarrow> c \<noteq> 0 \<and> c < length (recordings s1) \<and> bare s1 \<and>
    recordings s1 ! c = empty_recording"
  using child_made(1-5) [of 0 s c s1] child_made(6) [of 0 s c s1 0] by (simp add: bare_def)

interpretation empty_parent: client_invariant bare "\<lambda>c. c \<noteq> 0"
proof unfold_locales
  show "bare (recordQueue c q s)" if "c \<noteq> 0" "bare s" for c q s
    using that by (simp add: recordQueue_def bare_change)
qed (auto simp: recordExchange_def recordBinding_def share_queue_def share_exchange_def bare_change dest: bare_child)

interpretation older_parent: client_invariant children_later "\<lambda>_. True"
proof unfold_locales
  show "children_later s1 \<and> True" if "children_later s" "child 0 s = (d, s1)" for s s1 d
  proof -
    have "0 < length (recordings s)" using that(1) unfolding children_later_def by blast
    then show ?thesis using children_later_child [OF that(1) _ that(2)] by blast
  qed
qed simp_all

text \<open>Recording \<open>c\<close> is a child of the run's, and has a queue \<open>n\<close>.\<close>

definition has_child :: "nat \<Rightarrow> topology \<Rightarrow> bool" where
  "has_child c s \<longleftrightarrow> c < length (recordings s) \<and> c \<in> set (rec_children (recordings s ! 0))"

lemma has_child_child: "has_child c s \<Longrightarrow> child 0 s = (d, s1) \<Longrightarrow> has_child c s1 \<and> has_child d s1 \<and> (0 < c \<longrightarrow> recordings s1 ! c = recordings s ! c)"
  using child_made(1-5) [of 0 s d s1] child_made(6) [of 0 s d s1 0] child_made(6) [of 0 s d s1 c]
  by (cases "recordings s") (simp_all add: has_child_def)

interpretation attached: client_invariant "has_child c" "\<lambda>_. True" for c
proof unfold_locales
  show "has_child c s1 \<and> True" if "has_child c s" "child 0 s = (d, s1)" for s s1 d
    using has_child_child [OF that] by simp
qed (simp_all add: has_child_def)

lemma put_if_absent_keys [simp]: "fst ` set (put_if_absent k v m) = insert k (fst ` set m)"
  by (force simp: put_if_absent_def map_of_eq_None_iff split: option.splits dest: map_of_SomeD)

definition has_queue :: "string \<Rightarrow> nat \<Rightarrow> topology \<Rightarrow> bool" where
  "has_queue n c s \<longleftrightarrow> 0 < c \<and> has_child c s \<and> n \<in> fst ` set (rec_queues (recordings s ! c))"

interpretation queue_kept: client_invariant "has_queue n c" "\<lambda>_. True" for n c
proof unfold_locales
  show "has_queue n c s1 \<and> True" if "has_queue n c s" "child 0 s = (d, s1)" for s s1 d
    using that has_child_child [of c s d s1] by (simp add: has_queue_def)
qed (auto simp: has_queue_def has_child_def)

text \<open>The record of a queue has the name it is recorded under.\<close>

definition well_named :: "topology \<Rightarrow> bool" where
  "well_named s \<longleftrightarrow> recordings s \<noteq> [] \<and> (\<forall>i < length (recordings s). \<forall>(n, ref) \<in> set (rec_queues (recordings s ! i)).
     ref < length (queue_store s) \<and> queue_name (queue_store s ! ref) = n)"

lemma put_if_absent_set: "set (put_if_absent k v m) \<subseteq> insert (k, v) (set m)"
  by (auto simp: put_if_absent_def split: option.split)

lemma well_named_child:
  assumes "well_named s" "child 0 s = (c, s1)"
  shows "well_named s1"
proof -
  have "0 < length (recordings s)" using assms(1) by (simp add: well_named_def)
  note made = child_made [OF assms(2) this]
  have "rec_queues (recordings s1 ! j) = (if j < c then rec_queues (recordings s ! j) else [])" if "j < Suc c" for j
    using that made(4) made(6) [of j] by (cases "j = c") (simp_all add: empty_recording_def)
  then show ?thesis using assms(1) made(5) unfolding well_named_def made(2,3) made(1) by (auto split: if_splits)
qed

interpretation named: client_invariant well_named "\<lambda>_. True"
proof unfold_locales
  show "well_named (recordQueue c q s)" if "well_named s" for c q s
    using that put_if_absent_set by (fastforce simp: well_named_def nth_append split: if_splits)
  show "well_named s1 \<and> True" if "well_named s" "child 0 s = (d, s1)" for s s1 d
    using well_named_child [OF that] by simp
  show "well_named (share_queue c q ref s)" if w: "well_named s" and k: "known q ref s" for c q ref s
  proof -
    have "ref < length (queue_store s) \<and> queue_name (queue_store s ! ref) = q"
      using w k map_of_SomeD unfolding known_def well_named_def by fastforce
    then show ?thesis using w put_if_absent_set by (fastforce simp: well_named_def split: if_splits)
  qed
qed (simp_all add: well_named_def)

text \<open>A recording other than the run's, as it is at some time: nothing that is done for others changes it.\<close>

definition settled :: "nat \<Rightarrow> recording \<Rightarrow> topology \<Rightarrow> bool" where
  "settled d r s \<longleftrightarrow> 0 < d \<and> d < length (recordings s) \<and> recordings s ! d = r"

lemma settled_child: "settled d r s \<Longrightarrow> child 0 s = (c, s1) \<Longrightarrow> settled d r s1 \<and> c \<noteq> d"
  using child_made(1,2) [of 0 s c s1] child_made(6) [of 0 s c s1 d]
  by (cases "recordings s") (auto simp: settled_def)

interpretation kept: client_invariant "settled d r" "\<lambda>c. c \<noteq> d" for d r
proof unfold_locales
  show "settled d r s1 \<and> c \<noteq> d" if "settled d r s" "child 0 s = (c, s1)" for s c s1
    using settled_child [OF that] .
qed (simp_all add: settled_def recordExchange_def recordQueue_def recordBinding_def share_queue_def share_exchange_def
    nth_change)

section \<open>Consumers one after the other\<close>

context client_invariant
begin

lemma open_children_keep: "open_children k 0 s = (cs, s') \<Longrightarrow> P s \<Longrightarrow> P s'"
proof (induction k arbitrary: s cs)
  case (Suc k)
  obtain c s1 where c: "child 0 s = (c, s1)" by force
  obtain ds where "open_children k 0 s1 = (ds, s')" using Suc.prems(1) c by (auto split: prod.splits)
  then show ?case using Suc.IH first_child [OF Suc.prems(2) c] by blast
qed simp

lemma all_keeps: "sequence_all srv p connections qs rk s = (r, s') \<Longrightarrow> P s \<Longrightarrow> 0 < connections \<Longrightarrow> P s'"
  using configureQueues_keeps [of s connections srv p qs "sequence_key rk qs"] open_children_keep
  by (force simp: sequence_all_def split: if_splits prod.splits)

lemma clients_keep:
  "sequence_clients srv p qs rk i n s = Inr (cs, s') \<Longrightarrow> P s \<Longrightarrow> children_later s \<Longrightarrow> P s' \<and> children_later s'"
proof (induction n arbitrary: i s cs)
  case (Suc n)
  then obtain mine c s1 ds where s1: "sequence_client srv p qs rk i s = Inr (mine, c, s1)"
    and rest: "sequence_clients srv p qs rk (Suc i) n s1 = Inr (ds, s')" by (auto simp: bindE_Inr_iff)
  show ?case
    using Suc.IH [OF rest] client_keeps [OF s1] older_parent.client_keeps [OF s1] Suc.prems by blast
qed simp

end

text \<open>The consumer of each number is made between the former and the later ones.\<close>

lemma clients_split:
  "sequence_clients srv p qs rk i n s = Inr (cs, s') \<Longrightarrow> k < n \<Longrightarrow>
   \<exists>sk sl. sequence_clients srv p qs rk i k s = Inr (take k cs, sk) \<and>
     sequence_client srv p qs rk (i + k) sk = Inr (fst (cs ! k), snd (cs ! k), sl) \<and>
     sequence_clients srv p qs rk (i + Suc k) (n - Suc k) sl = Inr (drop (Suc k) cs, s') \<and> k < length cs"
proof (induction n arbitrary: i k s cs)
  case (Suc n)
  then obtain mine c s1 ds where s1: "sequence_client srv p qs rk i s = Inr (mine, c, s1)"
    and rest: "sequence_clients srv p qs rk (Suc i) n s1 = Inr (ds, s')" and cs: "cs = (mine, c) # ds"
    by (auto simp: bindE_Inr_iff)
  show ?case
  proof (cases k)
    case 0
    then show ?thesis using s1 rest cs by simp
  next
    case (Suc j)
    then obtain sk sl where "sequence_clients srv p qs rk (Suc i) j s1 = Inr (take j ds, sk)"
      "sequence_client srv p qs rk (Suc i + j) sk = Inr (fst (ds ! j), snd (ds ! j), sl)"
      "sequence_clients srv p qs rk (Suc i + Suc j) (n - Suc j) sl = Inr (drop (Suc j) ds, s')" "j < length ds"
      using Suc.IH [OF rest, of j] Suc.prems(2) by auto
    then show ?thesis using s1 cs Suc by (intro exI [of _ sk] exI [of _ sl]) simp
  qed
qed simp

lemma clients_length: "sequence_clients srv p qs rk i n s = Inr (cs, s') \<Longrightarrow> length cs = n"
  by (induction n arbitrary: i s cs) (auto simp: bindE_Inr_iff)

end
