(* ===== verification/Perf_Queues_Spec.thy ===== *)
theory Perf_Queues_Spec
  imports Perf_Topology_Spec Perf_Queues_Invariant
begin

text \<open>
  The recordings of a sequence of queues: everything is recorded in the children of the run's
  recording, and the recording of a consumer is filled from the run's recording itself.
\<close>

section \<open>The recording of a consumer\<close>

lemma sub_record_bare:
  assumes "sub_record 0 c qs s = Inr s'" "bare s" "c \<noteq> 0" "c < length (recordings s)"
    and "rec_bindings (recordings s ! c) = []" "rec_exchanges (recordings s ! c) = []"
  shows "bare s' \<and> rec_bindings (recordings s' ! c) = [] \<and> rec_exchanges (recordings s' ! c) = [] \<and>
         set (map fst (rec_queues (recordings s' ! c))) = set (map fst (rec_queues (recordings s ! c))) \<union> set qs \<and>
         binds s' = binds s"
  using assms
proof (induction qs arbitrary: s)
  case (Cons q qs)
  let ?s1 = "\<lambda>ref. change_recording c (\<lambda>r. r\<lparr> rec_queues := put_if_absent q ref (rec_queues r) \<rparr>) s"
  have "getBindingsFor 0 q s = []" using Cons.prems(2) by (simp add: getBindingsFor_def bare_def)
  then obtain ref where ref: "sub_record 0 c qs (?s1 ref) = Inr s'"
    using Cons.prems(1) by (auto split: option.splits)
  have f: "bare (?s1 ref)" "c < length (recordings (?s1 ref))"
    "rec_bindings (recordings (?s1 ref) ! c) = []" "rec_exchanges (recordings (?s1 ref) ! c) = []"
    "binds (?s1 ref) = binds s"
    using Cons.prems by (simp_all add: bare_change, simp_all add: change_recording_def binds_def)
  have "set (map fst (rec_queues (recordings (?s1 ref) ! c))) =
      insert q (set (map fst (rec_queues (recordings s ! c))))"
    using Cons.prems(4) by (auto simp: change_recording_def put_if_absent_def map_of_eq_None_iff
        split: option.splits dest!: map_of_SomeD intro: rev_image_eqI)
  then show ?case using Cons.IH [OF ref f(1) Cons.prems(3) f(2-4)] f(5) by auto
qed simp

lemma client_without_bindings:
  assumes "sequence_client srv p qs rk i s = Inr (mine, c, s')" "\<not> isExclusive p" "bare s"
  shows "c \<noteq> 0" "c < length (recordings s')"
    and "set (map fst (rec_queues (recordings s' ! c))) = (if predeclared p then {} else {qs ! (i mod length qs)})"
    and "rec_bindings (recordings s' ! c) = []" "rec_exchanges (recordings s' ! c) = []"
proof -
  let ?qs = "if predeclared p then [] else [qs ! (i mod length qs)]"
  obtain s1 where c: "child 0 s = (c, s1)" "sub_record 0 c ?qs s1 = Inr s'"
    using assms(1,2) by (auto simp: sequence_client_def subRecording_def Let_def bindE_Inr_iff split: prod.splits if_splits)
  note k = bare_child [OF assms(3) c(1)]
  have f: "bare s' \<and> rec_bindings (recordings s' ! c) = [] \<and> rec_exchanges (recordings s' ! c) = [] \<and>
      set (map fst (rec_queues (recordings s' ! c))) = set (map fst (rec_queues (recordings s1 ! c))) \<union> set ?qs \<and>
      binds s' = binds s1"
    by (rule sub_record_bare [OF c(2)]) (use k in \<open>simp_all add: empty_recording_def\<close>)
  have l: "length (recordings s') = length (recordings s1)"
    using c(2) k by (auto simp: bindE_Inr_iff getBindingsFor_def bare_def split: if_splits option.splits)
  show "c \<noteq> 0" "c < length (recordings s')" using k l by simp_all
  show "set (map fst (rec_queues (recordings s' ! c))) = (if predeclared p then {} else {qs ! (i mod length qs)})"
    and "rec_bindings (recordings s' ! c) = []" "rec_exchanges (recordings s' ! c) = []"
    using f k by (simp_all add: empty_recording_def split: if_splits)
qed

lemma no_bindings_recovered:
  assumes "rec_bindings (recordings s ! c) = []"
  shows "binds (recover srv polling c s) = binds s" "binds (recoverQueueAndBindings srv polling c ref s) = binds s"
proof -
  have q: "asks_no_binding (each_in_turn (\<lambda>(k, ref). recoverQueue srv polling ref) ks)" for ks :: "(string \<times> nat) list"
    by (rule quiet_each) (auto simp: quiet_recoverQueue split: prod.split)
  have e: "asks_no_binding (each_in_turn (\<lambda>(n, t). reliableWrite srv (exchangeDeclare srv n t)) es)" for es
    by (rule quiet_each) (auto simp: quiet_reliable quiet_exchange split: prod.split)
  have n: "asks_no_binding (each_in_turn (recover_binding srv c) [])" by (simp add: asks_no_binding_def)
  have rec: "asks_no_binding (andThen (ask srv New_Channel) (\<lambda>_.
       andThen (each_in_turn (\<lambda>(k, ref). recoverQueue srv polling ref) (rec_queues r)) (\<lambda>_.
         andThen (each_in_turn (\<lambda>(n, t). reliableWrite srv (exchangeDeclare srv n t)) (rec_exchanges r)) (\<lambda>_.
           each_in_turn (recover_binding srv c) []))))" for r
    by (intro quiet_andThen quiet_ask q e n) simp
  show "binds (recover srv polling c s) = binds s"
    using rec [of "recordings s ! c"] assms by (simp add: recover_def Let_def asks_no_binding_def)
  show "binds (recoverQueueAndBindings srv polling c ref s) = binds s"
    using recoverQueueAndBindings_binds [of c s ref srv polling] assms by (simp add: getBindingsFor_def)
qed

text \<open>Exclusive queues are configured for their consumer: there the recording has the binding.\<close>

definition binds_queues :: "topology_params \<Rightarrow> bool" where
  "binds_queues p \<longleftrightarrow> exchangeName p \<noteq> [] \<and> exchangeName p \<noteq> ''amq.default'' \<and> \<not> skipBindingQueues p"

lemma configured_for_one:
  assumes "configureQueues srv p 1 [q] 0 key s = (Some made, s')" "\<not> predeclared p" "bare s"
  shows "\<exists>c n. made = [(c, [n])] \<and> c \<noteq> 0 \<and> c < length (recordings s') \<and> map fst (rec_queues (recordings s' ! c)) = [n] \<and>
    rec_bindings (recordings s' ! c) =
      (if binds_queues p then [\<lparr> bound_queue = n, bound_exchange = exchangeName p, routingKey = key 0 \<rparr>] else [])"
proof -
  obtain m s1 where s1: "ask srv New_Channel s = (Some m, s1)"
    using assms(1) by (auto simp: configureQueues_def andThen_def split: prod.splits option.splits)
  obtain c s2 where c: "child 0 s1 = (c, s2)" by force
  have b: "bare s1" using empty_parent.leavesD [OF empty_parent.leaves_ask assms(3) s1] .
  note k = bare_child [OF b c]
  have cs: "open_channels srv 0 1 s = (Some [c], s2)" by (simp add: andThen_def s1 c)
  let ?result = "\<lambda>ns. map (\<lambda>c. (c, map snd (filter (\<lambda>cn. fst cn = c) ns))) [c]"
  have "configureQueues srv p 1 [q] 0 key s = andThen (declare_exchange srv p c) (\<lambda>_.
      andThen (configure_each srv p [c] key 0 [q]) (\<lambda>ns s1. (Some (?result ns), s1))) s2"
    unfolding configureQueues_def andThen_Some [of "open_channels srv 0 1" s, OF cs] by (simp only: list.sel list.distinct simp_thms if_False)
  then have conf: "andThen (declare_exchange srv p c) (\<lambda>_.
      andThen (configure_each srv p [c] key 0 [q]) (\<lambda>ns s1. (Some (?result ns), s1))) s2 = (Some made, s')"
    using assms(1) by (simp only:)
  obtain s3 where s3: "declare_exchange srv p c s2 = (Some (), s3)"
    using conf by (auto simp: andThen_def split: prod.splits option.splits)
  obtain ns where ns: "configure_each srv p [c] key 0 [q] s3 = (Some ns, s')" "made = ?result ns"
    using conf unfolding andThen_Some [of "declare_exchange srv p c" s2, OF s3]
    by (auto simp: andThen_def simp del: configure_each.simps split: prod.splits option.splits)
  obtain n s4 where n: "declare_queue srv p c q s3 = (Some n, s4)"
    using ns(1) by (auto simp: Let_def andThen_def split: prod.splits option.splits)
  have b4: "bind_queue srv p c n (key 0) s4 = (Some (), s')" and nsn: "ns = [(c, n)]"
    using ns(1) by (auto simp: n Let_def andThen_def split: prod.splits option.splits)
  have "s3 = recordExchange c (exchangeName p) (exchangeType p)
      (s2\<lparr> calls_made := calls_made s2 @ [Exchange_Declare (exchangeName p) (exchangeType p)] \<rparr>)"
    using s3 assms(2) by (auto simp: declare_exchange_def andThen_def exchangeDeclare_def discard_def ask_def
        split: server_answer.splits)
  then have r3: "length (recordings s3) = length (recordings s2)" "rec_queues (recordings s3 ! c) = []"
    "rec_bindings (recordings s3 ! c) = []"
    using k by (simp_all add: recordExchange_def nth_change empty_recording_def)
  obtain x t where x: "s4 = recordQueue c x t" "queue_name x = n" "recordings t = recordings s3"
    using n assms(2) by (auto simp: declare_queue_def andThen_def ask_def split: server_answer.splits)
  then have r4: "length (recordings s4) = length (recordings s2)" "map fst (rec_queues (recordings s4 ! c)) = [n]"
    "rec_bindings (recordings s4 ! c) = []"
    using k r3 by (simp_all add: recordQueue_def nth_change put_if_absent_def)
  have "length (recordings s') = length (recordings s2)" "map fst (rec_queues (recordings s' ! c)) = [n]"
    "rec_bindings (recordings s' ! c) =
      (if binds_queues p then [\<lparr> bound_queue = n, bound_exchange = exchangeName p, routingKey = key 0 \<rparr>] else [])"
    using b4 r4 k by (auto simp: bind_queue_def binds_queues_def andThen_def ask_def recordBinding_def nth_change
        split: if_splits server_answer.splits)
  then show ?thesis using k ns(2) nsn by (intro exI [of _ c] exI [of _ n]) simp
qed

text \<open>
  C24: with a sequence of queues that are not exclusive, the recording of a consumer of any number, once all
  consumers have been made one after the other, has its queue (or none, when queues are predeclared)
  and never a binding nor an exchange: these are recorded in the children of the run's
  recording, and looked for in the run's own. So neither the recovery of the consumer's connection nor
  the repair of its queue alone, on any server, binds anything. With exclusive queues (not predeclared)
  it is otherwise: the queue is configured for its consumer, and the recording has its binding,
  whenever queues are bound at all.
\<close>
theorem consumer_recording_without_bindings:
  assumes "0 < connections" "sequence_all srv p connections qs rk new_topology = (Some made, s)"
    and "sequence_clients srv p qs rk 0 n s = Inr (cs, s')" "k < n" "r = recordings s' ! snd (cs ! k)"
  shows "(\<not> isExclusive p \<longrightarrow>
           set (map fst (rec_queues r)) = (if predeclared p then {} else {qs ! (k mod length qs)}) \<and>
           rec_bindings r = [] \<and> rec_exchanges r = [] \<and>
           binds (recover srv' polling (snd (cs ! k)) s') = binds s' \<and>
           binds (recoverQueueAndBindings srv' polling (snd (cs ! k)) ref s') = binds s') \<and>
         (isExclusive p \<and> \<not> predeclared p \<longrightarrow>
           (\<exists>q. fst (cs ! k) = [q] \<and> map fst (rec_queues r) = [q] \<and> rec_bindings r =
             (if binds_queues p
              then [\<lparr> bound_queue = q, bound_exchange = exchangeName p, routingKey = sequence_key rk qs k \<rparr>]
              else [])))"
proof -
  have new: "bare new_topology" "children_later new_topology"
    by (simp_all add: bare_def children_later_def new_topology_def empty_recording_def)
  have s: "bare s" "children_later s"
    using empty_parent.all_keeps [OF assms(2) new(1) assms(1)] older_parent.all_keeps [OF assms(2) new(2) assms(1)] .
  let ?c = "snd (cs ! k)"
  obtain sk sl where before: "sequence_clients srv p qs rk 0 k s = Inr (take k cs, sk)"
    and made: "sequence_client srv p qs rk k sk = Inr (fst (cs ! k), ?c, sl)"
    and after: "sequence_clients srv p qs rk (Suc k) (n - Suc k) sl = Inr (drop (Suc k) cs, s')"
    using clients_split [OF assms(3,4)] by auto
  have sk: "bare sk" "children_later sk" using empty_parent.clients_keep [OF before s] by simp_all
  have later: "children_later sl" using older_parent.client_keeps [OF made sk(2,2)] .
  have final: "r = recordings sl ! ?c" if "?c \<noteq> 0" "?c < length (recordings sl)"
    using kept.clients_keep [OF after _ later, of ?c "recordings sl ! ?c"] that by (simp add: settled_def assms(5))
  show ?thesis
  proof (intro conjI impI)
    assume "\<not> isExclusive p"
    note f = client_without_bindings [OF made this sk(1)]
    show "set (map fst (rec_queues r)) = (if predeclared p then {} else {qs ! (k mod length qs)})"
      and b: "rec_bindings r = []" and "rec_exchanges r = []" using f(3-5) final [OF f(1,2)] by simp_all
    show "binds (recover srv' polling ?c s') = binds s'" "binds (recoverQueueAndBindings srv' polling ?c ref s') = binds s'"
      using no_bindings_recovered [of s' ?c] b by (simp_all add: assms(5))
  next
    assume e: "isExclusive p \<and> \<not> predeclared p"
    then obtain all where all: "configureQueues srv p 1 [qs ! (k mod length qs)] 0 (\<lambda>_. sequence_key rk qs k) sk = (Some all, sl)"
      "fst (cs ! k) = snd (hd all)" "?c = fst (hd all)"
      using made by (auto simp: sequence_client_def Let_def split: prod.splits option.splits)
    show "\<exists>q. fst (cs ! k) = [q] \<and> map fst (rec_queues r) = [q] \<and> rec_bindings r = (if binds_queues p
        then [\<lparr> bound_queue = q, bound_exchange = exchangeName p, routingKey = sequence_key rk qs k \<rparr>] else [])"
      using configured_for_one [OF all(1) _ sk(1)] e all(2,3) final by auto
  qed
qed

definition demo_topology :: topology_params where
  "demo_topology = \<lparr> exchangeName = ''direct'', exchangeType = ''direct'', predeclared = False, isExclusive = False,
     autoDeleteQueues = False, queueArguments = [], skipBindingQueues = False \<rparr>"

text \<open>The state after the configuration of two queues over one connection.\<close>

definition demo_queue :: "string \<Rightarrow> recorded_queue" where
  "demo_queue n = \<lparr> queue_name = n, durable = True, exclusive = False, autoDelete = False, arguments = [],
     serverNamed = False \<rparr>"

definition demo_binding :: "string \<Rightarrow> recorded_binding" where
  "demo_binding n = \<lparr> bound_queue = n, bound_exchange = ''direct'', routingKey = n \<rparr>"

definition demo_sequence :: topology where
  "demo_sequence =
     \<lparr> queue_store = [demo_queue ''q-1'', demo_queue ''q-2''],
       recordings =
         [empty_recording\<lparr> rec_children := [1] \<rparr>,
          \<lparr> rec_exchanges = [(''direct'', ''direct'')], rec_queues = [(''q-1'', 0), (''q-2'', 1)],
            rec_bindings = [demo_binding ''q-1'', demo_binding ''q-2''], rec_children = [] \<rparr>],
       calls_made = [New_Channel, Exchange_Declare ''direct'' ''direct'',
         Queue_Declare ''q-1'' True False False [], Queue_Bind ''q-1'' ''direct'' ''q-1'',
         Queue_Declare ''q-2'' True False False [], Queue_Bind ''q-2'' ''direct'' ''q-2''] \<rparr>"

lemma demo_sequence_made:
  "sequence_all naming_server demo_topology 1 [''q-1'', ''q-2''] None new_topology =
     (Some [(1, [''q-1'', ''q-2''])], demo_sequence)"
  by (simp add: sequence_all_def configureQueues_def andThen_def demo_topology_def naming_server_def new_topology_def
      ask_def child_def Let_def change_recording_def declare_exchange_def exchangeDeclare_def discard_def
      recordExchange_def declare_queue_def recordQueue_def bind_queue_def recordBinding_def sequence_key_def
      demo_sequence_def demo_queue_def demo_binding_def empty_recording_def put_if_absent_def)

lemma demo_clients:
  "sequence_clients srv demo_topology [''q-1'', ''q-2''] None 0 3 demo_sequence =
     Inr ([([''q-1''], 2), ([''q-2''], 3), ([''q-1''], 4)],
       demo_sequence\<lparr> recordings :=
         [empty_recording\<lparr> rec_children := [1, 2, 3, 4] \<rparr>, recordings demo_sequence ! 1,
          empty_recording\<lparr> rec_queues := [(''q-1'', 0)] \<rparr>, empty_recording\<lparr> rec_queues := [(''q-2'', 1)] \<rparr>,
          empty_recording\<lparr> rec_queues := [(''q-1'', 0)] \<rparr>] \<rparr>)"
  by (simp add: numeral_3_eq_3 sequence_client_def subRecording_def child_def Let_def change_recording_def demo_topology_def
      lookupQueueInHierarchy_def demo_sequence_def empty_recording_def getBindingsFor_def put_if_absent_def)

text \<open>Three consumers of two queues; and an exclusive one, which has its binding.\<close>

theorem consumer_recording_without_bindings_witness:
  "(\<exists>cs s'. sequence_clients naming_server demo_topology [''q-1'', ''q-2''] None 0 3
       (snd (sequence_all naming_server demo_topology 1 [''q-1'', ''q-2''] None new_topology)) = Inr (cs, s') \<and>
     set (map fst (rec_queues (recordings s' ! snd (cs ! 2)))) = {''q-1''} \<and>
     rec_bindings (recordings s' ! snd (cs ! 2)) = [] \<and>
     binds (recover naming_server False (snd (cs ! 2)) s') = binds s') \<and>
   (\<exists>cs s'. sequence_clients naming_server (demo_topology\<lparr> isExclusive := True \<rparr>) [''q-1'', ''q-2''] None 0 1
       (snd (sequence_all naming_server (demo_topology\<lparr> isExclusive := True \<rparr>) 1 [''q-1'', ''q-2''] None new_topology)) =
         Inr (cs, s') \<and> rec_bindings (recordings s' ! snd (cs ! 0)) = [demo_binding ''q-1''])"
proof (intro conjI)
  note r = consumer_recording_without_bindings [OF _ demo_sequence_made demo_clients, of 2 _ naming_server False 0]
  show "\<exists>cs s'. sequence_clients naming_server demo_topology [''q-1'', ''q-2''] None 0 3
       (snd (sequence_all naming_server demo_topology 1 [''q-1'', ''q-2''] None new_topology)) = Inr (cs, s') \<and>
     set (map fst (rec_queues (recordings s' ! snd (cs ! 2)))) = {''q-1''} \<and>
     rec_bindings (recordings s' ! snd (cs ! 2)) = [] \<and> binds (recover naming_server False (snd (cs ! 2)) s') = binds s'"
    unfolding demo_sequence_made snd_conv
    by (rule exI, rule exI, rule conjI [OF demo_clients]) (use r [OF _ _ refl] in \<open>simp add: demo_topology_def\<close>)
next
  let ?p = "demo_topology\<lparr> isExclusive := True \<rparr>" and ?qs = "[''q-1'', ''q-2'']"
  obtain made s where s: "sequence_all naming_server ?p 1 ?qs None new_topology = (Some made, s)"
    by (simp add: sequence_all_def demo_topology_def child_def Let_def)
  have "\<exists>cs s'. sequence_clients naming_server ?p ?qs None 0 1 s = Inr (cs, s')"
    using s by (auto simp: sequence_all_def sequence_client_def configureQueues_def andThen_def demo_topology_def
        naming_server_def new_topology_def ask_def child_def Let_def change_recording_def declare_exchange_def
        exchangeDeclare_def discard_def recordExchange_def declare_queue_def recordQueue_def bind_queue_def
        recordBinding_def)
  then obtain cs s' where c: "sequence_clients naming_server ?p ?qs None 0 1 s = Inr (cs, s')" by blast
  note e = consumer_recording_without_bindings [OF _ s c, of 0 _ naming_server False 0, OF _ _ refl]
  have "fst (cs ! 0) = [''q-1'']"
    using c s by (auto simp: sequence_all_def sequence_client_def configureQueues_def andThen_def demo_topology_def
        naming_server_def new_topology_def ask_def child_def Let_def change_recording_def declare_exchange_def
        exchangeDeclare_def discard_def recordExchange_def declare_queue_def recordQueue_def bind_queue_def
        recordBinding_def)
  then have "rec_bindings (recordings s' ! snd (cs ! 0)) = [demo_binding ''q-1'']"
    using e by (simp add: demo_topology_def binds_queues_def sequence_key_def demo_binding_def)
  then show "\<exists>cs s'. sequence_clients naming_server ?p ?qs None 0 1
      (snd (sequence_all naming_server ?p 1 ?qs None new_topology)) = Inr (cs, s') \<and>
      rec_bindings (recordings s' ! snd (cs ! 0)) = [demo_binding ''q-1'']"
    using c s by auto
qed

end
