(* ===== verification/Perf_Queues_Client.thy ===== *)
theory Perf_Queues_Client
  imports Perf_Queues_Spec
begin

text \<open>
  The consumers of a sequence of queues, made one after the other, get their queues: what one of them is
  given stays where the next one looks for it.
\<close>

section \<open>The queues of a sequence\<close>

text \<open>A server that gives a queue declared with a name this name.\<close>

definition keeps_names :: "server \<Rightarrow> bool" where
  "keeps_names srv \<longleftrightarrow>
     (\<forall>made n d e a args m. n \<noteq> [] \<longrightarrow> srv made (Queue_Declare n d e a args) = Accepted m \<longrightarrow> m = n)"

lemma declare_queue_has:
  assumes "declare_queue srv p c q s = (Some n, s1)" "\<not> predeclared p" "keeps_names srv" "q \<noteq> []"
    and "has_child c s" "0 < c"
  shows "n = q" "has_queue q c s1"
proof -
  let ?d = "Queue_Declare q (\<not> isExclusive p) (isExclusive p) (autoDeleteQueues p) (queueArguments p)"
  let ?r = "\<lparr> queue_name = n, durable = \<not> isExclusive p, exclusive = isExclusive p,
     autoDelete = autoDeleteQueues p, arguments = queueArguments p, serverNamed = (q = []) \<rparr>"
  have n: "srv (calls_made s) ?d = Accepted n" and s1: "s1 = recordQueue c ?r (s\<lparr> calls_made := calls_made s @ [?d] \<rparr>)"
    using assms(1,2) by (auto simp: declare_queue_def andThen_def ask_def split: server_answer.splits)
  show q: "n = q" using n assms(3,4) unfolding keeps_names_def by blast
  show "has_queue q c s1" using assms(5,6) q by (simp add: s1 has_queue_def has_child_def)
qed

lemma configure_each_has:
  assumes "configure_each srv p cs key i qs s = (Some ns, s1)" "\<not> predeclared p" "keeps_names srv" "[] \<notin> set qs"
    and "\<forall>c \<in> set cs. has_child c s \<and> 0 < c" "cs \<noteq> []"
  shows "\<forall>q \<in> set qs. \<exists>c. has_queue q c s1"
  using assms(1,4,5)
proof (induction qs arbitrary: i s ns)
  case (Cons q qs)
  let ?c = "cs ! (i mod length cs)"
  have c: "?c \<in> set cs" using assms(6) by simp
  obtain n t where n: "declare_queue srv p ?c q s = (Some n, t)"
    using Cons.prems(1) by (auto simp: Let_def andThen_def split: prod.splits option.splits)
  obtain u where u: "bind_queue srv p ?c n (key i) t = (Some (), u)"
    using Cons.prems(1) by (auto simp: n Let_def andThen_def split: prod.splits option.splits)
  obtain ms where v: "configure_each srv p cs key (Suc i) qs u = (Some ms, s1)"
    using Cons.prems(1) by (auto simp: n u Let_def andThen_def split: prod.splits option.splits)
  have "has_queue q ?c t" using declare_queue_has(2) [OF n assms(2,3)] Cons.prems(2,3) c by auto
  then have "has_queue q ?c u" by (rule queue_kept.leavesD [OF queue_kept.leaves_bind_queue [OF TrueI] _ u])
  then have "has_queue q ?c s1"
    using queue_kept.leavesD [OF queue_kept.leaves_configure_each _ v] assms(6) by blast
  moreover have "has_child d u" if "has_child d s" for d
    using attached.leavesD [OF attached.leaves_bind_queue [OF TrueI]
        attached.leavesD [OF attached.leaves_declare_queue [OF TrueI] that n] u] .
  ultimately show ?case using Cons.IH [OF v] Cons.prems(2,3) by auto
qed simp

lemma open_channels_attached:
  "bare s \<Longrightarrow> open_channels srv 0 k s = (Some cs, s1) \<Longrightarrow> \<forall>c \<in> set cs. has_child c s1 \<and> 0 < c"
proof (induction k arbitrary: s cs)
  case (Suc k)
  obtain m s2 where a: "ask srv New_Channel s = (Some m, s2)"
    using Suc.prems(2) by (auto simp: andThen_def split: prod.splits option.splits)
  have b: "bare s2" using empty_parent.leavesD [OF empty_parent.leaves_ask Suc.prems(1) a] .
  obtain c s3 where c: "child 0 s2 = (c, s3)" by force
  obtain ds where ds: "open_channels srv 0 k s3 = (Some ds, s1)" "cs = c # ds"
    using Suc.prems(2) by (auto simp: a c andThen_def split: prod.splits option.splits)
  have z: "0 < length (recordings s2)" using b by (simp add: bare_def)
  have "has_child c s3" "0 < c"
    using child_made(1,2) [OF c z] child_made(6) [OF c z, of 0] z by (simp_all add: has_child_def)
  moreover have "has_child c s1" if "has_child c s3"
    using attached.open_channels_keeps [OF that ds(1)] by blast
  ultimately show ?case using Suc.IH [OF _ ds(1)] bare_child [OF b c] ds(2) by auto
qed simp

lemma configureQueues_has:
  assumes "configureQueues srv p connections qs 0 key s = (Some made, s')" "bare s" "0 < connections"
    and "\<not> predeclared p" "keeps_names srv" "[] \<notin> set qs"
  shows "\<forall>q \<in> set qs. \<exists>c. has_queue q c s'"
proof -
  obtain cs s1 where cs: "open_channels srv 0 connections s = (Some cs, s1)"
    using assms(1) by (auto simp: configureQueues_def andThen_def split: prod.splits option.splits)
  obtain s2 where s2: "declare_exchange srv p (hd cs) s1 = (Some (), s2)"
    using assms(1) by (auto simp: configureQueues_def andThen_def cs split: prod.splits option.splits)
  let ?qs = "if \<not> predeclared p \<and> qs = [] then [[]] else qs"
  obtain ns where ns: "configure_each srv p cs key 0 ?qs s2 = (Some ns, s')"
    using assms(1) by (auto simp: configureQueues_def andThen_def cs s2 split: prod.splits option.splits)
  have ne: "cs \<noteq> []" using empty_parent.open_channels_keeps [OF assms(2) cs] assms(3) by auto
  have "\<forall>c \<in> set cs. has_child c s2 \<and> 0 < c"
    using open_channels_attached [OF assms(2) cs] attached.leavesD [OF attached.leaves_declare_exchange [OF TrueI] _ s2] by blast
  then show ?thesis
    using configure_each_has [OF _ assms(4,5,6) _ ne, of key 0 s2 ns s'] ns by (cases "qs = []") auto
qed

section \<open>The queues of the consumers\<close>

definition queues_ready :: "string list \<Rightarrow> topology \<Rightarrow> bool" where
  "queues_ready qs s \<longleftrightarrow> bare s \<and> children_later s \<and> well_named s \<and> (\<forall>q \<in> set qs. \<exists>c. has_queue q c s)"

lemma configured_ready:
  assumes "0 < connections" "sequence_all srv p connections qs rk new_topology = (Some made, s)"
    and "\<not> predeclared p" "\<not> isExclusive p" "keeps_names srv" "[] \<notin> set qs"
  shows "queues_ready qs s"
proof -
  have new: "bare new_topology" "children_later new_topology" "well_named new_topology"
    by (simp_all add: bare_def children_later_def well_named_def new_topology_def empty_recording_def)
  have conf: "configureQueues srv p connections qs 0 (sequence_key rk qs) new_topology = (Some made, s)"
    using assms(2,4) by (simp add: sequence_all_def)
  have "bare s" "children_later s" "well_named s"
    using empty_parent.all_keeps [OF assms(2) new(1) assms(1)] older_parent.all_keeps [OF assms(2) new(2) assms(1)]
      named.all_keeps [OF assms(2) new(3) assms(1)] .
  then show ?thesis using configureQueues_has [OF conf new(1) assms(1,3,5,6)] by (simp add: queues_ready_def)
qed

lemma client_ready: "queues_ready qs s \<Longrightarrow> sequence_client srv p ns rk i s = Inr (mine, c, s') \<Longrightarrow> queues_ready qs s'"
  using empty_parent.client_keeps older_parent.client_keeps named.client_keeps queue_kept.client_keeps
  unfolding queues_ready_def by metis

text \<open>One consumer, whatever consumers were made before.\<close>

lemma client_served:
  assumes "queues_ready qs s" "\<not> predeclared p" "\<not> isExclusive p" "qs \<noteq> []" "q = qs ! (i mod length qs)"
  shows "\<exists>c s' ref. sequence_client srv p qs rk i s = Inr ([q], c, s') \<and> c \<noteq> 0 \<and> c < length (recordings s') \<and>
           rec_queues (recordings s' ! c) = [(q, ref)] \<and> ref < length (queue_store s) \<and>
           queue_name (queue_store s ! ref) = q \<and> queue_store s' = queue_store s"
proof -
  have s: "bare s" "children_later s" "well_named s" using assms(1) by (simp_all add: queues_ready_def)
  have "q \<in> set qs" using assms(4,5) by simp
  then obtain d where "has_queue q d s" using assms(1) by (auto simp: queues_ready_def)
  moreover obtain c s1 where c: "child 0 s = (c, s1)" by force
  ultimately have d: "has_queue q d s1" using queue_kept.first_child by blast
  have s1: "bare s1" "children_later s1" "well_named s1" "c \<noteq> 0" "c < length (recordings s1)" "recordings s1 ! c = empty_recording"
    using bare_child [OF s(1) c] older_parent.first_child [OF s(2) c] named.first_child [OF s(3) c] by simp_all
  have z: "0 < length (recordings s1)" using s1(5) by linarith
  have "(child_of s1)\<^sup>*\<^sup>* 0 d" using d by (auto simp: has_queue_def has_child_def child_of_def)
  then obtain ref where ref: "lookupQueueInHierarchy q 0 s1 = Some ref"
    using lookup_iff [OF s1(2) z, of q] d by (auto simp: has_queue_def)
  have st: "queue_store s1 = queue_store s" using child_made(3) [OF c] s(1) by (simp add: bare_def)
  have named: "ref < length (queue_store s1) \<and> queue_name (queue_store s1 ! ref) = q"
    using lookup_known [OF s1(2) ref] s1(3) map_of_SomeD unfolding known_def well_named_def by fastforce
  have "getBindingsFor 0 q s1 = []" using s1(1) by (simp add: getBindingsFor_def bare_def)
  then have "sequence_client srv p qs rk i s = Inr ([q], c, share_queue c q ref s1)"
    using assms(2,3,5) ref by (simp add: sequence_client_def subRecording_def c share_queue_def)
  moreover have "rec_queues (recordings (share_queue c q ref s1) ! c) = [(q, ref)]"
    using s1(5,6) by (simp add: empty_recording_def put_if_absent_def)
  ultimately show ?thesis using named s1(4,5) st
    by (intro exI [of _ c] exI [of _ "share_queue c q ref s1"] exI [of _ ref]) simp
qed

lemma clients_served:
  assumes "queues_ready qs s" "\<not> predeclared p" "\<not> isExclusive p" "qs \<noteq> []"
  shows "\<exists>cs s'. sequence_clients srv p qs rk i n s = Inr (cs, s') \<and> queue_store s' = queue_store s"
  using assms(1)
proof (induction n arbitrary: i s)
  case (Suc n)
  obtain c s1 where s1: "sequence_client srv p qs rk i s = Inr ([qs ! (i mod length qs)], c, s1)"
    "queue_store s1 = queue_store s"
    using client_served [OF Suc.prems assms(2-4) refl, where i = i and srv = srv and rk = rk] by blast
  obtain cs s' where "sequence_clients srv p qs rk (Suc i) n s1 = Inr (cs, s')" "queue_store s' = queue_store s1"
    using Suc.IH [OF client_ready [OF Suc.prems s1(1)], of "Suc i"] by blast
  then show ?case using s1 by simp
qed simp

lemma clients_ready:
  "queues_ready qs s \<Longrightarrow> sequence_clients srv p ns rk i n s = Inr (cs, s') \<Longrightarrow> queues_ready qs s'"
proof (induction n arbitrary: i s cs)
  case (Suc n)
  then show ?case using client_ready by (fastforce simp: bindE_Inr_iff)
qed simp

text \<open>
  C25: the consumers of a sequence of queues (not exclusive and not predeclared) get their queues. When the
  configuration of all queues has succeeded, on a server that keeps the names it is given, any number of
  consumers can be made one after the other: the search for a queue never fails, because what a
  consumer is given stays where it was found. Consumer number \<open>k\<close> has the queue whose turn it is, \<open>k\<close>
  modulo the number of queues, and once all are made its recording refers to one record, made at
  the configuration, which has the name of this queue.
\<close>
theorem consumers_get_queues:
  assumes "0 < connections" "sequence_all srv p connections qs rk new_topology = (Some made, s)"
    and "\<not> predeclared p" "\<not> isExclusive p" "keeps_names srv" "qs \<noteq> []" "[] \<notin> set qs"
  shows "\<exists>cs s'. sequence_clients srv p qs rk 0 n s = Inr (cs, s') \<and> length cs = n \<and> queue_store s' = queue_store s \<and>
           (\<forall>k < n. \<exists>ref. fst (cs ! k) = [qs ! (k mod length qs)] \<and>
              rec_queues (recordings s' ! snd (cs ! k)) = [(qs ! (k mod length qs), ref)] \<and>
              ref < length (queue_store s) \<and> queue_name (queue_store s ! ref) = qs ! (k mod length qs))"
proof -
  have s: "queues_ready qs s" by (rule configured_ready [OF assms(1-5,7)])
  obtain cs s' where all: "sequence_clients srv p qs rk 0 n s = Inr (cs, s')" "queue_store s' = queue_store s"
    using clients_served [OF s assms(3,4,6)] by blast
  have "\<exists>ref. fst (cs ! k) = [qs ! (k mod length qs)] \<and>
      rec_queues (recordings s' ! snd (cs ! k)) = [(qs ! (k mod length qs), ref)] \<and>
      ref < length (queue_store s) \<and> queue_name (queue_store s ! ref) = qs ! (k mod length qs)" if k: "k < n" for k
  proof -
    obtain sk sl where before: "sequence_clients srv p qs rk 0 k s = Inr (take k cs, sk)"
      and made: "sequence_client srv p qs rk k sk = Inr (fst (cs ! k), snd (cs ! k), sl)"
      and after: "sequence_clients srv p qs rk (Suc k) (n - Suc k) sl = Inr (drop (Suc k) cs, s')"
      using clients_split [OF all(1) k] by auto
    have sk: "queues_ready qs sk" using clients_ready [OF s before] .
    have "queue_store sk = queue_store s"
      using clients_served [OF s assms(3,4,6), of srv rk 0 k] before by auto
    then obtain ref where c: "fst (cs ! k) = [qs ! (k mod length qs)]" "snd (cs ! k) \<noteq> 0" "snd (cs ! k) < length (recordings sl)"
      "rec_queues (recordings sl ! snd (cs ! k)) = [(qs ! (k mod length qs), ref)]" "ref < length (queue_store s)"
      "queue_name (queue_store s ! ref) = qs ! (k mod length qs)"
      using client_served [OF sk assms(3,4,6) refl, of srv rk k] made by auto
    have "children_later sl" using client_ready [OF sk made] by (simp add: queues_ready_def)
    then have "recordings s' ! snd (cs ! k) = recordings sl ! snd (cs ! k)"
      using kept.clients_keep [OF after, of "snd (cs ! k)" "recordings sl ! snd (cs ! k)"] c(2,3) by (simp add: settled_def)
    then show ?thesis using c by auto
  qed
  then show ?thesis using all clients_length [OF all(1)] by blast
qed

lemma naming_keeps: "keeps_names naming_server"
  by (simp add: keeps_names_def naming_server_def)

text \<open>Five consumers of two queues.\<close>

theorem consumers_get_queues_witness:
  "\<exists>cs s' ref. sequence_clients naming_server demo_topology [''q-1'', ''q-2''] None 0 5 demo_sequence = Inr (cs, s') \<and>
     fst (cs ! 4) = [''q-1''] \<and> rec_queues (recordings s' ! snd (cs ! 4)) = [(''q-1'', ref)] \<and>
     queue_name (queue_store demo_sequence ! ref) = ''q-1''"
proof -
  have "\<exists>cs s'. sequence_clients naming_server demo_topology [''q-1'', ''q-2''] None 0 5 demo_sequence = Inr (cs, s') \<and>
      length cs = 5 \<and> queue_store s' = queue_store demo_sequence \<and>
      (\<forall>k < 5. \<exists>ref. fst (cs ! k) = [[''q-1'', ''q-2''] ! (k mod length [''q-1'', ''q-2''])] \<and>
         rec_queues (recordings s' ! snd (cs ! k)) = [([''q-1'', ''q-2''] ! (k mod length [''q-1'', ''q-2'']), ref)] \<and>
         ref < length (queue_store demo_sequence) \<and>
         queue_name (queue_store demo_sequence ! ref) = [''q-1'', ''q-2''] ! (k mod length [''q-1'', ''q-2'']))"
    by (rule consumers_get_queues [OF _ demo_sequence_made _ _ naming_keeps]) (simp_all add: demo_topology_def)
  then obtain cs s' where r: "sequence_clients naming_server demo_topology [''q-1'', ''q-2''] None 0 5 demo_sequence = Inr (cs, s')"
    and each: "\<forall>k < 5. \<exists>ref. fst (cs ! k) = [[''q-1'', ''q-2''] ! (k mod length [''q-1'', ''q-2''])] \<and>
         rec_queues (recordings s' ! snd (cs ! k)) = [([''q-1'', ''q-2''] ! (k mod length [''q-1'', ''q-2'']), ref)] \<and>
         ref < length (queue_store demo_sequence) \<and>
         queue_name (queue_store demo_sequence ! ref) = [''q-1'', ''q-2''] ! (k mod length [''q-1'', ''q-2''])"
    by blast
  have "[''q-1'', ''q-2''] ! (4 mod length [''q-1'', ''q-2'']) = ''q-1''" by (simp add: numeral_2_eq_2 [symmetric])
  with each [rule_format, of 4] obtain ref where "fst (cs ! 4) = [''q-1'']" "rec_queues (recordings s' ! snd (cs ! 4)) = [(''q-1'', ref)]"
    "queue_name (queue_store demo_sequence ! ref) = ''q-1''" by auto
  with r show ?thesis by blast
qed

end
