(* ===== verification/Perf_Resubscribe.thy ===== *)
theory Perf_Resubscribe
  imports Perf_Topology_Spec "HOL-Library.Multiset"
begin

text \<open>
  A consumer over a recovery of its connection: its first subscriptions (\<open>registerAsynchronousConsumer\<close>), the
  recovery of the topology and then of the agent (\<open>handleRecovery\<close> of \<open>Recovery.java\<close>), and the
  names it uses afterwards (\<open>recover\<close> of \<open>Consumer.java\<close>).
\<close>

section \<open>Subscribing and recovering\<close>

text \<open>The server names the tags, which are kept with the names of the queues.\<close>

fun registerAsynchronousConsumer ::
  "server \<Rightarrow> string list \<Rightarrow> (string \<times> string) list \<Rightarrow> topology \<Rightarrow> (string \<times> string) list option \<times> topology" where
  "registerAsynchronousConsumer srv [] tags s = (Some tags, s)"
| "registerAsynchronousConsumer srv (q # qs) tags s =
     andThen (ask srv (Basic_Consume q [])) (\<lambda>tag. registerAsynchronousConsumer srv qs (put tag q tags)) s"

text \<open>
  The names of the queues a polling consumer asks from then on, and the state after the recovery; \<open>entries\<close>
  are the tags with their queues in the order in which the map of the consumer gives them, which is
  any.
\<close>

definition recover_agent ::
  "server \<Rightarrow> bool \<Rightarrow> bool \<Rightarrow> nat \<Rightarrow> string list \<Rightarrow> (string \<times> string) list \<Rightarrow> topology \<Rightarrow> string list \<times> topology" where
  "recover_agent srv polling cluster i initialQueueNames entries s =
     (let s1 = recover srv polling i s in
      if polling then (map (\<lambda>q. queueName i q s1) initialQueueNames, s1)
      else (initialQueueNames, recover_consumer srv polling cluster i entries s1))"

section \<open>The tags\<close>

text \<open>With a tag of its own for each subscription, every queue keeps its tag.\<close>

lemma registered_tags:
  assumes "registerAsynchronousConsumer srv qs tags s = (Some tags', s')" "distinct (map fst tags)"
  shows "length tags' \<le> length tags + length qs \<and>
         (length tags' = length tags + length qs \<longrightarrow> map snd tags' = map snd tags @ qs)"
  using assms
proof (induction qs arbitrary: tags s)
  case (Cons q qs)
  obtain tag s1 where r: "registerAsynchronousConsumer srv qs (put tag q tags) s1 = (Some tags', s')"
    using Cons.prems(1) by (auto simp: andThen_def split: prod.splits option.splits)
  note IH = Cons.IH [OF r distinct_put [OF Cons.prems(2)]]
  show ?case
  proof (cases "tag \<in> set (map fst tags)")
    case True
    then have "length (put tag q tags) = length tags" by (metis keys_put length_map)
    then show ?thesis using IH by simp
  next
    case False
    then have "put tag q tags = tags @ [(tag, q)]"
      by (induction tags) (auto simp: put_def)
    then show ?thesis using IH by simp
  qed
qed simp

section \<open>The present names\<close>

lemma exists_accepted:
  assumes "accepts_all srv"
  shows "exists_on_server srv c s = (Some True, s\<lparr> calls_made := calls_made s @ [New_Channel, c] \<rparr>)"
proof -
  obtain n where "ask srv New_Channel s = (Some n, s\<lparr> calls_made := calls_made s @ [New_Channel] \<rparr>)"
    using ask_accepted [OF assms] .
  moreover obtain m where "srv (calls_made s @ [New_Channel]) c = Accepted m"
    using assms by (auto simp: accepts_all_def)
  ultimately show ?thesis by (simp add: exists_on_server_def andThen_def)
qed

lemma subscribe_accepted:
  assumes "accepts_all srv"
  shows "subscribe srv n tag s = (Some None, s\<lparr> calls_made := calls_made s @ [Basic_Consume n tag] \<rparr>)"
proof -
  obtain m where "ask srv (Basic_Consume n tag) s = (Some m, s\<lparr> calls_made := calls_made s @ [Basic_Consume n tag] \<rparr>)"
    using ask_accepted [OF assms] .
  then show ?thesis by (simp add: subscribe_def)
qed

definition subscribed :: "nat \<Rightarrow> topology \<Rightarrow> string \<times> string \<Rightarrow> server_call list" where
  "subscribed i s tq =
     (let n = queueName i (snd tq) s in [New_Channel, Queue_Declare_Passive n, Basic_Consume n (fst tq)])"

lemma subscribed_calls [simp]: "subscribed i (s\<lparr> calls_made := c \<rparr>) = subscribed i s"
  by (simp add: subscribed_def fun_eq_iff)

lemma consume_accepted:
  assumes "accepts_all srv" "queueRecord = map_of (rec_queues (recordings s ! i)) q" "n = queueName i q s"
  shows "snd (consumeOrScheduleConsume srv polling cluster i queueRecord tag n s) =
           s\<lparr> calls_made := calls_made s @ subscribed i s (tag, q) \<rparr>"
proof -
  have "(case queueRecord of None \<Rightarrow> n | Some ref \<Rightarrow> queue_name (queue_store s ! ref)) = n"
    using assms(2,3) by (simp add: queueName_def split: option.split)
  then show ?thesis
    by (simp add: consumeOrScheduleConsume_def queue_exists_def andThen_def exists_accepted [OF assms(1)]
        subscribe_accepted [OF assms(1)] subscribed_def assms(3) Let_def cong: option.case_cong)
qed

lemma recover_consumer_accepted:
  assumes "accepts_all srv"
  shows "recover_consumer srv polling cluster i tags s =
           s\<lparr> calls_made := calls_made s @ concat (map (subscribed i s) tags) \<rparr>"
proof (induction tags arbitrary: s)
  case (Cons tq tags)
  obtain tag q where tq: "tq = (tag, q)" by force
  show ?case using Cons by (simp add: tq consume_accepted [OF assms refl refl])
qed simp

text \<open>
  C26: after a recovery a consumer goes on with its queues: with the server accepting its calls it looks
  for each of its queues under the name this has then, and subscribes to it with the tag it had, in
  whatever order its map gives the tags; one that polls asks from then on under these names. Nothing
  else is called for.
\<close>
theorem consumer_follows_queues:
  assumes "accepts_all srv" "s' = recover srv polling i s"
    and "registerAsynchronousConsumer srv0 qs [] s0 = (Some tags, s1)" "length tags = length qs"
    and "mset entries = mset tags"
  shows "recover_agent srv polling cluster i qs entries s =
           (if polling then (map (\<lambda>q. queueName i q s') qs, s')
            else (qs, s'\<lparr> calls_made := calls_made s' @
                            concat (map (\<lambda>(tag, q). [New_Channel, Queue_Declare_Passive (queueName i q s'),
                                                     Basic_Consume (queueName i q s') tag]) entries) \<rparr>)) \<and>
         mset entries = mset (zip (map fst tags) qs)"
proof -
  have "map snd tags = qs" using registered_tags [OF assms(3)] assms(4) by simp
  then have z: "zip (map fst tags) qs = tags" by (metis zip_map_fst_snd)
  have sub: "subscribed i s' = (\<lambda>(tag, q). [New_Channel, Queue_Declare_Passive (queueName i q s'),
      Basic_Consume (queueName i q s') tag])"
    by (simp add: fun_eq_iff subscribed_def Let_def)
  have "recover_agent srv polling cluster i qs entries s =
      (if polling then (map (\<lambda>q. queueName i q s') qs, s') else (qs, recover_consumer srv polling cluster i entries s'))"
    by (simp add: recover_agent_def assms(2) Let_def)
  then show ?thesis unfolding z recover_consumer_accepted [OF assms(1)] sub using assms(5) by blast
qed

text \<open>The consumer of the one queue of \<open>one_queue\<close>, which the recovery names anew.\<close>

theorem consumer_follows_queues_witness:
  "\<exists>tags s1 s'. registerAsynchronousConsumer naming_server [''gen-0''] [] one_queue = (Some tags, s1) \<and>
     recover_agent naming_server False False 0 [''gen-0''] tags one_queue = ([''gen-0''], s') \<and>
     last (calls_made s') = Basic_Consume (queueName 0 ''gen-0'' (recover naming_server False 0 one_queue)) (fst (hd tags))"
proof -
  obtain tags s1 where r: "registerAsynchronousConsumer naming_server [''gen-0''] [] one_queue = (Some tags, s1)"
    and l: "length tags = length [''gen-0'']"
    by (simp add: andThen_def ask_def naming_server_def put_def)
  obtain tag q where t: "tags = [(tag, q)]" using l by (cases tags) auto
  note f = consumer_follows_queues [OF naming_accepts refl r l refl, where polling = False and i = 0 and s = one_queue
      and cluster = False]
  have "q = ''gen-0''" using f t by simp
  then show ?thesis using f r t
    by (intro exI [of _ tags] exI [of _ s1]
        exI [of _ "snd (recover_agent naming_server False False 0 [''gen-0''] tags one_queue)"]) simp
qed

end
