(* ===== verification/Perf_Shutdown.thy ===== *)
theory Perf_Shutdown
  imports Perf_Queues_Client
begin

text \<open>
  The end of a load: \<open>ShutdownService.java\<close>, the shutdown of \<open>MulticastSet.java\<close>, and the deletion of the queues
  that polling leaves behind (\<open>deleteAutoDeleteQueuesIfNecessary\<close> of \<open>MulticastParams.java\<close>).
\<close>

section \<open>The callbacks\<close>

text \<open>Which of the registered callbacks has been closed, and the order in which they ran.\<close>

record shutdown_service =
  callback_closed :: "bool list"
  callbacks_ran :: "nat list"

definition new_service :: shutdown_service where
  "new_service = \<lparr> callback_closed = [], callbacks_ran = [] \<rparr>"

definition wrap_callback :: "shutdown_service \<Rightarrow> shutdown_service" where
  "wrap_callback s = s\<lparr> callback_closed := callback_closed s @ [False] \<rparr>"

definition close_one :: "nat \<Rightarrow> shutdown_service \<Rightarrow> shutdown_service" where
  "close_one i s =
     (if callback_closed s ! i then s
      else s\<lparr> callback_closed := (callback_closed s)[i := True], callbacks_ran := callbacks_ran s @ [i] \<rparr>)"

text \<open>What a callback throws is logged.\<close>

definition close_all :: "shutdown_service \<Rightarrow> shutdown_service" where
  "close_all s = fold close_one (rev [0..<length (callback_closed s)]) s"

text \<open>Registrations and single closings, in any order; only what is registered can be closed.\<close>

datatype service_call = Wrap | Close_One nat | Close_All

fun service_calls :: "service_call list \<Rightarrow> shutdown_service \<Rightarrow> shutdown_service option" where
  "service_calls [] s = Some s"
| "service_calls (Wrap # cs) s = service_calls cs (wrap_callback s)"
| "service_calls (Close_One i # cs) s =
     (if i < length (callback_closed s) then service_calls cs (close_one i s) else None)"
| "service_calls (Close_All # cs) s = service_calls cs (close_all s)"

section \<open>The shutdown of a load\<close>

text \<open>The task of a producer: none yet, the one that does nothing, or one of an executor, and whether it is done.\<close>

datatype task = No_Task | No_Op_Task | Future_Task bool

text \<open>A task that is cancelled is done from then on, also while its thread still runs (\<open>Future.cancel\<close>).\<close>

fun cancel_task :: "task \<Rightarrow> task" where
  "cancel_task (Future_Task d) = Future_Task True"
| "cancel_task t = t"

fun is_done :: "task \<Rightarrow> bool" where
  "is_done (Future_Task d) = d"
| "is_done t = True"

datatype shutdown_action =
    Cancel nat
  | Wait_For nat
  | Close_Configuration nat
  | Close_Producer nat
  | Close_Consumer nat
  | Shut_Down_Threads

text \<open>
  Each element of the list is a test whether the thread is interrupted, and what is done when it is not;
  \<open>flags\<close> answers the tests by their number. The shutdown ends at the first test that is answered yes.
\<close>

fun guarded :: "(nat \<Rightarrow> bool) \<Rightarrow> shutdown_action list list \<Rightarrow> nat \<Rightarrow> shutdown_action list" where
  "guarded flags [] n = []"
| "guarded flags (act # acts) n = (if flags n then [] else act @ guarded flags acts (Suc n))"

definition closeConnections :: "(nat \<Rightarrow> shutdown_action) \<Rightarrow> nat \<Rightarrow> shutdown_action list list" where
  "closeConnections close n = map (\<lambda>i. [close i]) [0..<n]"

definition cancel_tasks :: "task list \<Rightarrow> shutdown_action list list" where
  "cancel_tasks ts = map (\<lambda>i. if ts ! i = No_Task then [] else [Cancel i]) [0..<length ts]"

definition wait_for_tasks :: "task list \<Rightarrow> shutdown_action list list" where
  "wait_for_tasks ts = map (\<lambda>i. [Wait_For i]) (filter (\<lambda>i. ts ! i \<noteq> No_Task \<and> \<not> is_done (ts ! i)) [0..<length ts])"

definition shutdown_load :: "(nat \<Rightarrow> bool) \<Rightarrow> task list \<Rightarrow> nat \<Rightarrow> nat \<Rightarrow> nat \<Rightarrow> shutdown_action list" where
  "shutdown_load flags ts configurations producers consumers =
     guarded flags
       (cancel_tasks ts @ wait_for_tasks (map cancel_task ts) @ [[]] @
        closeConnections Close_Configuration configurations @ closeConnections Close_Producer producers @
        closeConnections Close_Consumer consumers @ [[Shut_Down_Threads]]) 0"

section \<open>The queues of a run\<close>

text \<open>As for the search for a queue, the depth is the number of recordings.\<close>

fun queues_down :: "nat \<Rightarrow> topology \<Rightarrow> nat \<Rightarrow> nat list" where
  "queues_down 0 s i = []"
| "queues_down (Suc d) s i =
     map snd (rec_queues (recordings s ! i)) @ concat (map (queues_down d s) (rec_children (recordings s ! i)))"

definition all_queues :: "nat \<Rightarrow> topology \<Rightarrow> nat list" where
  "all_queues i s = queues_down (length (recordings s)) s i"

text \<open>Again \<open>flags\<close> answers the tests; a refusal of the server ends the deletion with an exception.\<close>

fun delete_queues :: "server \<Rightarrow> (nat \<Rightarrow> bool) \<Rightarrow> nat list \<Rightarrow> nat \<Rightarrow> topology \<Rightarrow> unit option \<times> topology" where
  "delete_queues srv flags [] n s = (Some (), s)"
| "delete_queues srv flags (ref # refs) n s =
     (if autoDelete (queue_store s ! ref) \<and> \<not> exclusive (queue_store s ! ref)
      then (if flags n then (Some (), s)
            else andThen (ask srv (Queue_Delete (queue_name (queue_store s ! ref))))
                   (\<lambda>_. delete_queues srv flags refs (Suc n)) s)
      else delete_queues srv flags refs n s)"

definition deleteAutoDeleteQueuesIfNecessary ::
  "server \<Rightarrow> bool \<Rightarrow> (nat \<Rightarrow> bool) \<Rightarrow> topology \<Rightarrow> unit option \<times> topology" where
  "deleteAutoDeleteQueuesIfNecessary srv polling flags s =
     (if polling
      then andThen (ask srv New_Channel) (\<lambda>_. delete_queues srv flags (all_queues 0 s) 0) s
      else (Some (), s))"

end
