(* ===== verification/Perf_Shutdown_Spec.thy ===== *)
theory Perf_Shutdown_Spec
  imports Perf_Shutdown
begin

text \<open>
  Every callback runs once, the shutdown does its steps in order and never waits for a producer, and the
  deletion reaches every queue.
\<close>

section \<open>Callbacks\<close>

definition service_inv :: "shutdown_service \<Rightarrow> bool" where
  "service_inv s \<longleftrightarrow> distinct (callbacks_ran s) \<and> set (callbacks_ran s) = {i. i < length (callback_closed s) \<and> callback_closed s ! i}"

lemma service_inv_wrap: "service_inv s \<Longrightarrow> service_inv (wrap_callback s)"
proof -
  have "{i. i < Suc (length bs) \<and> (bs @ [False]) ! i} = {i. i < length bs \<and> bs ! i}" for bs
    by (auto simp: nth_append less_Suc_eq)
  moreover assume "service_inv s"
  ultimately show ?thesis by (simp add: service_inv_def wrap_callback_def)
qed

lemma service_inv_close_one: "service_inv s \<Longrightarrow> i < length (callback_closed s) \<Longrightarrow> service_inv (close_one i s)"
  by (auto simp: service_inv_def close_one_def nth_list_update)

lemma close_one_length [simp]: "length (callback_closed (close_one i s)) = length (callback_closed s)"
  by (simp add: close_one_def)

lemma close_each:
  assumes "\<forall>i \<in> set is. i < length (callback_closed s)" "distinct is" "service_inv s"
  shows "callbacks_ran (fold close_one is s) = callbacks_ran s @ filter (\<lambda>i. \<not> callback_closed s ! i) is \<and>
         length (callback_closed (fold close_one is s)) = length (callback_closed s) \<and> service_inv (fold close_one is s) \<and>
         (\<forall>i < length (callback_closed s). callback_closed (fold close_one is s) ! i = (callback_closed s ! i \<or> i \<in> set is))"
  using assms
proof (induction "is" arbitrary: s)
  case (Cons i "is")
  have "service_inv (close_one i s)" using Cons.prems by (simp add: service_inv_close_one)
  then have IH: "callbacks_ran (fold close_one is (close_one i s)) =
        callbacks_ran (close_one i s) @ filter (\<lambda>j. \<not> callback_closed (close_one i s) ! j) is"
      "length (callback_closed (fold close_one is (close_one i s))) = length (callback_closed s)"
      "service_inv (fold close_one is (close_one i s))"
      "\<forall>j < length (callback_closed s). callback_closed (fold close_one is (close_one i s)) ! j = (callback_closed (close_one i s) ! j \<or> j \<in> set is)"
    using Cons.IH [of "close_one i s"] Cons.prems by auto
  have same: "filter (\<lambda>j. \<not> callback_closed (close_one i s) ! j) is = filter (\<lambda>j. \<not> callback_closed s ! j) is"
    using Cons.prems(2) by (intro filter_cong refl) (metis close_one_def distinct.simps(2) nth_list_update_neq
        shutdown_service.select_convs(1) shutdown_service.surjective shutdown_service.update_convs(1,2))
  have ran: "callbacks_ran (close_one i s) = callbacks_ran s @ (if callback_closed s ! i then [] else [i])"
    by (simp add: close_one_def)
  have cl: "callback_closed (close_one i s) ! j = (callback_closed s ! j \<or> j = i)" if "j < length (callback_closed s)" for j
    using that by (cases "j = i") (simp_all add: close_one_def)
  show ?case using IH cl unfolding same ran by auto
qed simp

lemma close_all_spec:
  assumes "service_inv s"
  shows "callbacks_ran (close_all s) = callbacks_ran s @ filter (\<lambda>i. \<not> callback_closed s ! i) (rev [0..<length (callback_closed s)])"
    "service_inv (close_all s)" "\<forall>i < length (callback_closed s). callback_closed (close_all s) ! i"
    "length (callback_closed (close_all s)) = length (callback_closed s)"
  using close_each [of "rev [0..<length (callback_closed s)]" s] assms by (simp_all add: close_all_def)

lemma service_calls_inv: "service_calls cs s = Some t \<Longrightarrow> service_inv s \<Longrightarrow> service_inv t"
  by (induction cs s rule: service_calls.induct)
    (auto simp: service_inv_wrap service_inv_close_one close_all_spec split: if_splits)

text \<open>
  Whatever has been registered and closed before, in any order, the end of the program runs each
  callback that has not run, the last registered first; so each registered callback has run
  then, and none has run twice.
\<close>
theorem callbacks_run_once:
  assumes "service_calls cs new_service = Some s"
  shows "callbacks_ran (close_all s) = callbacks_ran s @ rev (filter (\<lambda>i. \<not> callback_closed s ! i) [0..<length (callback_closed s)]) \<and>
         distinct (callbacks_ran (close_all s)) \<and> set (callbacks_ran (close_all s)) = {0..<length (callback_closed s)}"
proof -
  have "service_inv s" using service_calls_inv [OF assms] by (simp add: service_inv_def new_service_def)
  note all = close_all_spec [OF this]
  show ?thesis using all(1-4) by (auto simp: service_inv_def rev_filter)
qed

theorem callbacks_run_once_witness:
  "\<exists>s. service_calls [Wrap, Wrap, Wrap, Close_One 1] new_service = Some s \<and> callbacks_ran (close_all s) = [1, 2, 0]"
proof -
  let ?s = "\<lparr> callback_closed = [False, True, False], callbacks_ran = [1] \<rparr>"
  have s: "service_calls [Wrap, Wrap, Wrap, Close_One 1] new_service = Some ?s"
    by (simp add: new_service_def wrap_callback_def close_one_def numeral_2_eq_2)
  have "filter (\<lambda>i. \<not> callback_closed ?s ! i) [0..<length (callback_closed ?s)] = [0, 2]" by (simp add: upt_rec)
  then show ?thesis using callbacks_run_once [OF s] s by (intro exI [of _ ?s] conjI) simp_all
qed

section \<open>The shutdown\<close>

lemma guarded_prefix: "\<exists>rest. concat acts = guarded flags acts n @ rest"
  by (induction acts arbitrary: n) auto

lemma guarded_free: "(\<And>n. \<not> flags n) \<Longrightarrow> guarded flags acts n = concat acts"
  by (induction acts arbitrary: n) simp_all

lemma cancelled_is_done: "is_done (cancel_task t)"
  by (cases t) simp_all

lemma never_waits: "wait_for_tasks (map cancel_task ts) = []"
  by (auto simp: wait_for_tasks_def filter_empty_conv cancelled_is_done)

lemma concat_singletons: "concat (map (\<lambda>i. [f i]) xs) = map f xs"
  by (induction xs) simp_all

text \<open>
  A shutdown cancels every producer, closes the connections of the configuration, of the producers and
  of the consumers, and ends the threads, in this order; an interruption makes it stop after some of these
  steps. It never waits for a producer to end: a cancelled task counts as done, also while its
  thread still publishes, so the loop that waits passes over all of them.
\<close>
theorem shutdown_never_waits:
  "let full = map Cancel (filter (\<lambda>i. ts ! i \<noteq> No_Task) [0..<length ts]) @ map Close_Configuration [0..<c] @
              map Close_Producer [0..<p] @ map Close_Consumer [0..<k] @ [Shut_Down_Threads]
   in (\<exists>rest. full = shutdown_load flags ts c p k @ rest) \<and> ((\<forall>n. \<not> flags n) \<longrightarrow> shutdown_load flags ts c p k = full)"
proof -
  have cancel: "concat (cancel_tasks ts) = map Cancel (filter (\<lambda>i. ts ! i \<noteq> No_Task) [0..<length ts])"
  proof -
    have "concat (map (\<lambda>i. if ts ! i = No_Task then [] else [Cancel i]) xs) =
        map Cancel (filter (\<lambda>i. ts ! i \<noteq> No_Task) xs)" for xs
      by (induction xs) simp_all
    then show ?thesis by (simp add: cancel_tasks_def)
  qed
  let ?acts = "cancel_tasks ts @ [] @ [[]] @ closeConnections Close_Configuration c @
      closeConnections Close_Producer p @ closeConnections Close_Consumer k @ [[Shut_Down_Threads]]"
  have full: "concat ?acts = map Cancel (filter (\<lambda>i. ts ! i \<noteq> No_Task) [0..<length ts]) @
      map Close_Configuration [0..<c] @ map Close_Producer [0..<p] @ map Close_Consumer [0..<k] @ [Shut_Down_Threads]"
    by (simp add: cancel closeConnections_def concat_singletons)
  have "shutdown_load flags ts c p k = guarded flags ?acts 0"
    by (simp add: shutdown_load_def never_waits)
  then show ?thesis
    using guarded_prefix [of ?acts flags 0] guarded_free [of flags ?acts 0] unfolding full Let_def by metis
qed

theorem shutdown_never_waits_witness:
  "shutdown_load (\<lambda>n. False) [Future_Task False, No_Task] 1 1 0 =
     [Cancel 0, Close_Configuration 0, Close_Producer 0, Shut_Down_Threads]"
proof -
  have "filter (\<lambda>i. [Future_Task False, No_Task] ! i \<noteq> No_Task) [0..<2] = [0]" by (simp add: upt_rec)
  then show ?thesis
    using shutdown_never_waits [of "[Future_Task False, No_Task]" 1 1 0 "\<lambda>n. False"] by (simp add: Let_def numeral_2_eq_2)
qed

section \<open>The deletion of the queues\<close>

lemma queues_down_sound:
  "ref \<in> set (queues_down d s i) \<Longrightarrow> \<exists>c. (child_of s)\<^sup>*\<^sup>* i c \<and> ref \<in> snd ` set (rec_queues (recordings s ! c))"
proof (induction d arbitrary: i)
  case (Suc d)
  show ?case
  proof (cases "ref \<in> snd ` set (rec_queues (recordings s ! i))")
    case False
    then obtain k where "child_of s i k" "ref \<in> set (queues_down d s k)"
      using Suc.prems by (auto simp: child_of_def)
    then show ?thesis using Suc.IH by (metis converse_rtranclp_into_rtranclp)
  qed auto
qed simp

lemma queues_down_complete:
  assumes "children_later s" "(child_of s)\<^sup>*\<^sup>* i c" "ref \<in> snd ` set (rec_queues (recordings s ! c))"
    and "i < length (recordings s)" "length (recordings s) \<le> d + i"
  shows "ref \<in> set (queues_down d s i)"
  using assms(2-5)
proof (induction arbitrary: d rule: converse_rtranclp_induct)
  case base
  then show ?case by (cases d) auto
next
  case (step i k)
  then obtain e where d: "d = Suc e" by (cases d) auto
  have k: "i < k" "k < length (recordings s)" using child_of_later [OF assms(1) step(1,5)] by simp_all
  have "ref \<in> set (queues_down e s k)" using step(3) [OF step(4) k(2)] k(1) step(6) d by simp
  then show ?case using step(1) by (auto simp: d child_of_def)
qed

lemma all_queues_iff:
  assumes "children_later s" "i < length (recordings s)"
  shows "ref \<in> set (all_queues i s) \<longleftrightarrow>
         (\<exists>c. (child_of s)\<^sup>*\<^sup>* i c \<and> ref \<in> snd ` set (rec_queues (recordings s ! c)))"
  unfolding all_queues_def
  using queues_down_complete [OF assms(1) _ _ assms(2)] queues_down_sound [of ref "length (recordings s)" s i]
  by (metis le_add1)

lemma delete_queues_calls:
  assumes "accepts_all srv" "\<And>n. \<not> flags n"
  shows "snd (delete_queues srv flags refs n s) = s\<lparr> calls_made := calls_made s @
    map (\<lambda>ref. Queue_Delete (queue_name (queue_store s ! ref)))
      (filter (\<lambda>ref. autoDelete (queue_store s ! ref) \<and> \<not> exclusive (queue_store s ! ref)) refs) \<rparr>"
proof (induction refs arbitrary: n s)
  case (Cons ref refs)
  let ?c = "Queue_Delete (queue_name (queue_store s ! ref))"
  obtain m where "ask srv ?c s = (Some m, s\<lparr> calls_made := calls_made s @ [?c] \<rparr>)"
    using ask_accepted [OF assms(1)] .
  then show ?case using Cons assms(2) by (simp add: andThen_def)
qed simp

text \<open>
  At the end of a run that polls every queue that deletes itself and is not exclusive is deleted under
  the name it has by then, wherever below the run's recording it is recorded, and no other queue.
\<close>
theorem polled_queues_deleted:
  assumes "accepts_all srv" "children_later s" "\<And>n. \<not> flags n"
    and "s' = snd (deleteAutoDeleteQueuesIfNecessary srv True flags s)"
  shows "Queue_Delete n \<in> set (drop (length (calls_made s)) (calls_made s')) \<longleftrightarrow>
         (\<exists>c ref. (child_of s)\<^sup>*\<^sup>* 0 c \<and> ref \<in> snd ` set (rec_queues (recordings s ! c)) \<and>
            autoDelete (queue_store s ! ref) \<and> \<not> exclusive (queue_store s ! ref) \<and> queue_name (queue_store s ! ref) = n)"
proof -
  obtain m where "ask srv New_Channel s = (Some m, s\<lparr> calls_made := calls_made s @ [New_Channel] \<rparr>)"
    using ask_accepted [OF assms(1)] .
  then have "s' = s\<lparr> calls_made := calls_made s @ New_Channel #
      map (\<lambda>ref. Queue_Delete (queue_name (queue_store s ! ref)))
        (filter (\<lambda>ref. autoDelete (queue_store s ! ref) \<and> \<not> exclusive (queue_store s ! ref)) (all_queues 0 s)) \<rparr>"
    by (simp add: assms(4) deleteAutoDeleteQueuesIfNecessary_def andThen_def delete_queues_calls [OF assms(1,3)])
  moreover have "0 < length (recordings s)" using assms(2) unfolding children_later_def by blast
  ultimately show ?thesis using all_queues_iff [OF assms(2)] by auto
qed

text \<open>The one queue of \<open>one_queue\<close> deletes itself.\<close>

lemma one_queue_later: "children_later one_queue"
  by (simp add: children_later_def one_queue_def)

theorem polled_queues_deleted_witness:
  "Queue_Delete ''gen-0'' \<in> set (calls_made (snd (deleteAutoDeleteQueuesIfNecessary naming_server True (\<lambda>n. False) one_queue)))"
proof -
  let ?new = "drop (length (calls_made one_queue))
      (calls_made (snd (deleteAutoDeleteQueuesIfNecessary naming_server True (\<lambda>n. False) one_queue)))"
  have "Queue_Delete ''gen-0'' \<in> set ?new"
    unfolding polled_queues_deleted [OF naming_accepts one_queue_later _ refl, of "\<lambda>n. False" "''gen-0''", simplified]
    by (intro exI [of _ 0] exI [of _ 0]) (simp add: one_queue_def)
  then show ?thesis by (rule in_set_dropD)
qed

end
