(* ===== verification/Spec2Isabelle.thy ===== *)
theory Spec2Isabelle
  imports Perf_Axes Perf_Charts_Spec Perf_Plot_Spec Perf_Layout Perf_Page_Spec Perf_Examples Perf_End_To_End
    Perf_Threads_Safe Perf_Threads_Race Perf_Producer_Spec Perf_Consumer_Spec Perf_Sizes Perf_Flow Perf_Main
    Perf_Completion_Runs Perf_Scheduled Perf_Polling Perf_Set_Spec Perf_Queues_Client Perf_Resubscribe
    Perf_Shutdown_Spec
begin

text \<open>
  A verification development for the scenarios and the result pages of PerfTest, the load
  generator of RabbitMQ: the JavaScript of \<open>html/\<close>, which draws the results of a benchmark in a
  browser, and the Java of \<open>src/main/java/com/rabbitmq/perf\<close> that reads a specification, runs its
  scenarios and writes the results, with the loads it runs.
  \<open>html/perf.js\<close> and \<open>src/main/resources/static/perf.js\<close> are the same file; what is said of
  one holds of the other.

  The program. \<open>PerfTestMulti\<close> reads a specification, a JSON list of scenarios, makes them all
  with \<open>ScenarioFactory\<close> and runs one after the other; a scenario runs loads whose producers
  and consumers call the handlers of a \<open>SimpleScenarioStats\<close>. What \<open>results()\<close> returns is
  printed to a result file, a JSON object with one property per scenario. A page has elements of class \<open>chart\<close>, \<open>small-chart\<close> and \<open>summary\<close>, whose
  \<open>data-\<close> attributes say what to draw. When the document is ready the page requests its
  result file and hands the parsed object to \<open>render_graphs\<close>. That function plots every chart
  and then writes every summary. A chart with a \<open>data-file\<close> requests a file of its own and is
  plotted when it arrives. \<open>plot0\<close> looks the scenario up and dispatches on \<open>data-type\<close> to
  \<open>plot_time\<close>, \<open>plot_series\<close>, \<open>plot_x_y\<close> or \<open>plot_r_l\<close>; each computes series and calls
  \<open>plot_data\<close>, which builds the options, wraps the element in a table with axis labels, and
  calls the plotting library. The library calls back \<open>log_ticks\<close> for a logarithmic axis.

  The language. \<open>Perf_Prelude\<close> has the errors, the error monad, the state monad with
  exceptions in which a raise keeps the state reached, and the string functions. \<open>Js_Number\<close>
  has the doubles as exact rationals with rounding to nearest, ties to even, over- and
  underflow, infinities and NaN; the two zeros are one value. \<open>Js_Number_Text\<close> has the
  conversions between numbers and text (a number is written with the fewest digits that read
  back; seventeen are proved enough). \<open>Js_Value\<close> has the values, the coercions, property
  access, which raises on undefined and null, property order, and iteration. Reading a name
  that a value inherits from a built-in prototype gives the error \<open>Outside\<close>: no theorem gives
  such a run a result. Strings are sequences of 8-bit characters. \<open>Js_Json\<close> has
  \<open>JSON.parse\<close>; its fuel is the length of the text and is proved enough.

  The browser. \<open>Dom\<close> has the document as a tree of elements with identities; every change is
  a \<open>splice\<close>. \<open>Jquery\<close> has the page (document, calls of the plotting library, pending requests,
  messages shown) and the operations of \<open>html/lib/jquery.min.js\<close> (1.5.1) that the scripts
  call. Two things are parameters, in the record \<open>env\<close>: the HTML parser of the browser, with
  jQuery's expansion of self-closing tags in front of it, and the plotting library, of which
  only the exception it may throw is visible. \<open>Jquery_Frame\<close> shows that the operations only
  add elements: \<open>grows\<close>, over the locale \<open>forward\<close> of relations that are kept by every
  composition of effects.

  The code. \<open>Perf_Axes\<close> has \<open>log_transform\<close>, \<open>log_ticks\<close> and the three axis constants.
  \<open>log_ticks\<close> loops while a double is below the limit, which need not end; the loop is a
  partial function into an option, and the lemmas show exactly when it returns (the locale
  \<open>climbing\<close>), what it returns, and that no axis the code configures can hang it.
  \<open>Perf_Charts\<close> has the computations: points, series, options, the rate of a summary.
  \<open>Perf_Plot\<close> has the functions that act on the page, from \<open>attr_or_default\<close> to
  \<open>render_graphs\<close>. \<open>Perf_Page\<close> has the callbacks, the events of a page and the step relation.
  The result files \<open>html/examples/various-result.js\<close> and
  \<open>html/examples/publish-consume-result.js\<close> are the theories \<open>Data_*\<close>, number for number;
  \<open>Result_Data\<close> has the shape of a sample.

  The Java program. \<open>Java_Value\<close> has integers of 64 and 32 bits with the wrap-around written
  out, the division and the conversions, the text of a double, the objects of a result and the
  exceptions. \<open>Perf_Stats\<close> has \<open>Stats.java\<close> and \<open>SimpleScenarioStats.java\<close>: the counters, one
  step per handler, the report of an interval, the results. \<open>Perf_Scenario\<close> has the three kinds
  of scenario, \<open>VaryingScenarioStats.java\<close> and the variables; \<open>Perf_Factory\<close> has
  \<open>ScenarioFactory.java\<close> and the path of \<open>PerfTestMulti.java\<close> from the parsed specification to
  the printed object; \<open>Data_Specs\<close> the two specifications of \<open>html/examples\<close>. The record \<open>world\<close>
  holds what is outside: the clock, the calls a load makes (\<open>MulticastSet\<close>), the parameter
  object and \<open>PerfUtil.setValue\<close>, \<open>ConnectionFactory.setUri\<close>.

  Runs and results. \<open>Perf_Stats_Spec\<close>: the windows of a run as an abstract specification, the
  simulation of it by the counters, the samples and the overall results as functions of the
  windows. \<open>Perf_Rates\<close>: order of times and latencies, and the wrong unit of the overall
  rates. \<open>Perf_Scenario_Spec\<close> and \<open>Perf_Grid\<close>: the nested loops over the variables are their
  product, the nested maps hold one entry per combination of texts. \<open>Perf_Results\<close>: the
  locale \<open>stats_invariant\<close> carries an invariant of the handlers to whole scenarios; its
  interpretations give the type of the results and the times of the samples. \<open>Perf_Runs\<close>:
  properties of whole runs and the worlds of the witnesses. \<open>Perf_Factory_Spec\<close>: names of
  properties, the shared connection. \<open>Perf_Written\<close>: the relation \<open>rep\<close> between an object and
  what \<open>JSON.parse\<close> makes of its text, for any order of keys. \<open>Perf_Written_Charts\<close> and
  \<open>Perf_End_To_End\<close>: the charts of what was written, up to the page \<open>various.html\<close> with any
  successful run of \<open>various-spec.js\<close>.

  The threads. \<open>Perf_Threads\<close> has the same handlers again, as the threads of a load run them: a
  handler is a list of instructions, each of which touches one \<open>AtomicLong\<close>, the flag
  \<open>ongoingReport\<close> or the monitor, and a step relation interleaves any number of threads.
  \<open>Perf_Threads_Step\<close>: a thread that is not disturbed does what the handler does in one step, so
  what is proved of \<open>Perf_Stats\<close> holds of it. \<open>Perf_Threads_Safe\<close>: in every reachable state at
  most one thread is inside a report, the flag and the monitor are always given back, and
  some thread can go on. \<open>Perf_Threads_Race\<close>: a reachable state where two threads added the same
  interval to the total time.

  The load. \<open>Perf_Messages\<close> has the clock, the bodies of \<open>TimeSequenceMessageBodySource.java\<close> byte
  by byte and the latency a consumer reads from them. \<open>Perf_Values\<close> has
  \<open>VariableValueIndicator.java\<close>: the check of the definitions, the intervals of a cycle, the
  period and the task; \<open>Perf_Values_Spec\<close> has the plan they stand for and shows that the value
  follows it. \<open>Perf_Sizes\<close> has the contract of \<open>ValueIndicator\<close> as the locale
  \<open>value_indicator\<close>, with both indicators as instances, and puts sizes and bodies together.
  \<open>Perf_Producer\<close> has the publishing side of \<open>Producer.java\<close>: permits, the map of
  unconfirmed messages, the confirms, the reset after a recovery, each step of the two threads
  an event, a run a list of events; and the loop with its limit and the wait at its end, whose
  termination is proved. \<open>Perf_Producer_Spec\<close>: the account of permits and messages as an
  invariant of every run without a recovery, and what a recovery does to it. \<open>Perf_Consumer\<close> has
  the handling of a message in \<open>Consumer.java\<close> with its acknowledgements, transactions and
  limit, and the write operations of \<open>AgentBase.java\<close>; \<open>Perf_Consumer_Spec\<close> shows which messages
  are reported and acknowledged. Producer and consumer make the calls of the type \<open>handler\<close> of
  \<open>Perf_Stats\<close>; \<open>Perf_Flow\<close> follows a message from its making over the consumer and the
  statistics to the mean latency in the results. \<open>Perf_Scheduled\<close> has the producer that a scheduler
  runs, shown to do what the loop does with a constant rate, its random routing keys, and the
  bodies of \<open>LocalFilesMessageBodySource.java\<close>; \<open>Perf_Polling\<close> the consumer that asks for its
  messages, with the exceptions its loop catches and a bound on what it takes above its limit.
  \<open>Perf_Main\<close> has \<open>PerfTestMulti.main\<close>: arguments, messages, exit codes and the
  output file, with the file system, its errors while the file is written, and Gson as arguments.

  The run of a load. \<open>Perf_Completion\<close> has the completion handlers of \<open>MulticastSet.java\<close> and the choice
  of \<open>PerfTest.java\<close> between them: the thread of the run waits at a latch, every agent counts it down
  once, and the steps of all of them interleave (a read of the flag, a change of the map, a count
  are steps of their own). \<open>Perf_Completion_Spec\<close>: the invariant of every interleaving, a measure
  that falls with every step (at most three steps for each agent and three for the run), and when
  the run ends. \<open>Perf_Completion_Runs\<close>: the composition with the loops of the producers and the
  handling of the consumers. \<open>Perf_Set\<close> has \<open>MulticastSet.run\<close> up to the start of the producers:
  the wait for the servers, the connections and their allocation, the pools of threads, the
  arrays of agents, how the producers are started; \<open>Perf_Set_Spec\<close> has the loop over the servers
  against the set of those seen in time, and the layout of agents, connections and pools. The
  client library is the record \<open>client_library\<close>, a parameter, and in it what the configuration of the
  queues, which \<open>Perf_Queues\<close> has, comes to on its connections. The passes over the servers are a
  list of what the clock and the servers say; the result is nothing while the list is used up.

  The queues. \<open>Perf_Topology\<close> has \<open>TopologyRecording.java\<close>, which keeps what a run has declared and
  declares it again after a recovery, and how a consumer subscribes again (\<open>Consumer.java\<close>). The server
  is a parameter, a function of the calls made so far; the recordings share the records of the
  queues, as objects in a store. The search for a queue goes down the children; its fuel is the
  number of recordings, which is enough since a child is made after its parent (\<open>lookup_iff\<close>).
  \<open>Perf_Topology_Spec\<close>: the calls of a recovery, the bindings of a queue that is created again, the end
  of the attempts to subscribe. \<open>Perf_Resubscribe\<close>: a consumer from its first subscriptions over a
  recovery to the present names of its queues, for every order in which its map may be walked. \<open>Perf_Queues\<close> has the configuration of the queues by
  the handlers of \<open>MulticastParams.java\<close>; \<open>Perf_Queues_Invariant\<close> has the locale
  \<open>topology_invariant\<close> of what each way of recording keeps, which carries to whole handlers, its
  extension \<open>client_invariant\<close> for the recordings of the consumers, which are made one after the other,
  and their interpretations; \<open>Perf_Queues_Spec\<close> and \<open>Perf_Queues_Client\<close> follow a configuration to the
  recordings that any number of consumers get, with queues that are exclusive and without. \<open>Perf_Shutdown\<close> has the end of a load: the callbacks of
  \<open>ShutdownService.java\<close>, the steps of the shutdown with its tests for an interruption, and the
  deletion of the queues that polling leaves behind; \<open>Perf_Shutdown_Spec\<close>: every callback runs once,
  the steps come in order, and the deletion reaches every recording.

  The charts. \<open>Perf_Charts_Spec\<close>: the points of each kind of chart, the independence of the
  nesting of a grid, the refusal of incomplete grids, the options that take effect, the
  mean of a summary. \<open>Perf_Plot_Frame\<close>: what a chart draws, requests and can raise, on every
  page. \<open>Perf_Plot_Spec\<close>: \<open>plot0\<close> refines the pure function \<open>chart_spec\<close>; the four kinds of
  chart from the attributes on; the order of a rendering run; what an exception leaves; the
  text of a summary. \<open>Perf_Layout\<close>: the exact document after a chart, under
  \<open>html_contract\<close>, the meaning of the code's four templates to the parser for texts without
  markup characters, carriage returns and null characters, which a parser of HTML changes.
  \<open>Perf_Page_Spec\<close>: invariants of every reachable page. \<open>Perf_Examples\<close>:
  the example page with the shipped results draws its four charts.

  What the proofs brought to light. The handlers of failed requests are passed to \<open>$.ajax\<close>
  as \<open>fail\<close>, which the library does not read: a result file that cannot be loaded is never
  reported (\<open>failed_request_silent\<close>). The overall rates divide by nanoseconds what the samples
  divide by milliseconds (\<open>overall_rates_unit\<close>), so that a rate-vs-latency scenario attempts
  the rate 0 only, unless more than a quarter of a million messages pass in a second
  (\<open>rate_vs_latency_degenerate\<close>). A message of another program without headers ends in a
  null pointer where its timestamp is looked for in them (\<open>extract_timestamp\<close>). All scenarios use the address of the last one
  (\<open>earlier_address_ignored\<close>). A variable without values loses the results of all scenarios
  (\<open>empty_variable_writes_nothing\<close>). \<open>SimpleScenarioStats.interval()\<close> never returns
  (\<open>interval_duration_None\<close>). The total time is added to before the thread that reports is
  chosen, so an interval may count twice (\<open>interval_reported_twice\<close>). A producer whose rate varies
  never reaches its limit of messages (\<open>variable_rate_never_stops\<close>), so that the run does not end
  (\<open>variable_rate_run_hangs\<close>), and sends the first of its files only (\<open>file_bodies\<close>). A recovery between a permit
  and its message leaves a permit too many, and the next recovery then fails and stops the
  producer for good (\<open>recovery_stops_producer\<close>). With \<open>confirm\<close> zero, confirms of several
  messages count for none (\<open>confirm_zero\<close>). Latencies are divided by 1000 also when the clock of
  milliseconds is asked for (\<open>average_latency_written\<close>). The bindings of
  a queue that the server has named anew are looked for under the new name and lost
  (\<open>bindings_lost\<close>); with a sequence of queues that are not exclusive a consumer's recording has no bindings at all
  (\<open>consumer_recording_without_bindings\<close>). The number of servers needed for a start does not help
  when a server is down (\<open>server_down_ends_run\<close>), and a number of zero, or above that of the servers, is never met
  (\<open>servers_waited\<close>); a test connection that cannot be closed makes the count pass that number
  (\<open>close_failure_prevents_start\<close>). The code 0 says nothing of the output file, whose writing errors
  are swallowed (\<open>exit_zero_iff_printed\<close>). The shutdown never waits for a producer, though it means to
  (\<open>shutdown_never_waits\<close>).

  Not modelled: the drawing of the plotting library (\<open>html/lib/jquery.flot.min.js\<close>) and of
  its fallback (\<open>html/lib/excanvas.min.js\<close>); the rest of jQuery; the choice of a data type
  from the content type of a response (a response is its text); the tree of the DOM outside
  elements and text; \<open>Math.log\<close>, a parameter of \<open>log_transform\<close>;
  the markup of \<open>sample.html\<close> and \<open>index.html\<close>, which have a letter that is no 8-bit character.
  Of the Java program: histograms, timers and gauges of the metrics libraries; the order in which
  a \<open>HashMap\<close> is walked, apart from the consumer's map of queues; case conversion beyond ASCII; the sign of zero; Gson, apart from \<open>rep\<close>;
  files and the console, apart from \<open>Perf_Main\<close>; of a producer and a consumer the rate limiter, the
  simulated latency and message properties; of the topology the cache of exclusive
  connections; of the run the options of the command line (\<open>PerfTest.java\<close>), the start of the
  consumers, the time limit of the shutdown, the synchronisation of instances and the metrics; the AMQP client and the server, network I/O.
\<close>

end
